(* ===== verification/Prelude.thy ===== *)
theory Prelude
  imports Main "HOL-Library.Word" "HOL-Library.List_Lexorder" "HOL-Library.Monad_Syntax"
begin

text \<open>
  Shared vocabulary of the development: the Go machine types the sources use, the few
  library routines of the language every component calls (\<^verbatim>\<open>copy\<close>, slices,
  \<^verbatim>\<open>math/big\<close> division), the error values, and the generic lemmas on lists,
  options and words that the component theories share.

  A Go value that may be missing (a nil pointer, a nil slice where the code tests for it)
  is an \<open>option\<close>. A run-time panic (nil dereference, index out of range, division by
  zero) is the value \<open>None\<close> of the functions that can raise it, and an error that is
  returned is the left side of a sum.
\<close>

unbundle bit_operations_syntax

section \<open>Machine types\<close>

type_synonym byte = "8 word"
type_synonym bytes = "byte list"
type_synonym u16 = "16 word"
type_synonym u32 = "32 word"
type_synonym u64 = "64 word"

text \<open>The error values the modelled code returns.\<close>

datatype error =
    ErrIllegalArgument
  | ErrDecode
  | ErrEOF
  | ErrNoData
  | ErrInvalidHex
  | ErrOutOfRange
  | ErrIllegalFormat
  | ErrUnknownType
  | ErrLowBlockHeight u64 u64
  | ErrHighBlockHeight u64 u64
  | ErrCalculating
  | ErrInvalidData
  | ErrDuplicateBH
  | ErrTooLowBH
  | ErrCancelRollback u64
  | ErrCancelExit u64
  | ErrFile
  | ErrUnsupported
  | ErrDial
  | ErrNotRealized
  | ErrUnexpectedEOF
  | ErrReleased

section \<open>Facts shared by the component proofs\<close>

named_theorems go_simps
named_theorems kv_simps
named_theorems codec_simps

section \<open>Slices\<close>

text \<open>\<open>copy_at dst off src\<close> is the destination after \<^verbatim>\<open>copy(dst[off:], src)\<close>.\<close>

definition copy_at :: "'a list \<Rightarrow> nat \<Rightarrow> 'a list \<Rightarrow> 'a list" where
  "copy_at dst off src =
     take off dst @ take (length dst - off) src @ drop (off + length src) dst"

lemma length_copy_at [simp, go_simps]: "off \<le> length dst \<Longrightarrow> length (copy_at dst off src) = length dst"
  by (simp add: copy_at_def)

lemma copy_at_full [go_simps]:
  "off + length src = length dst \<Longrightarrow> copy_at dst off src = take off dst @ src"
  by (simp add: copy_at_def)

lemma copy_at_zero [go_simps]: "length src = length dst \<Longrightarrow> copy_at dst 0 src = src"
  by (simp add: copy_at_def)

text \<open>Right-aligned copy into a zeroed buffer: the fixed-width keys are built this way.\<close>

lemma copy_at_pad [go_simps]:
  "length src \<le> n \<Longrightarrow> copy_at (replicate n z) (n - length src) src = replicate (n - length src) z @ src"
  by (simp add: copy_at_def)

section \<open>Arithmetic of math/big\<close>

text \<open>
  \<^verbatim>\<open>Int.Div\<close> is Euclidean division: the remainder is never negative. A zero divisor
  panics.
\<close>

definition big_div :: "int \<Rightarrow> int \<Rightarrow> int option" where
  "big_div a b = (if b = 0 then None else Some (if 0 < b then a div b else - (a div (- b))))"

definition big_mod :: "int \<Rightarrow> int \<Rightarrow> int option" where
  "big_mod a b = (if b = 0 then None else Some (a mod \<bar>b\<bar>))"

text \<open>\<^verbatim>\<open>Int.Uint64\<close>: the low 64 bits of the absolute value, negated when negative.\<close>

definition big_uint64 :: "int \<Rightarrow> u64" where
  "big_uint64 i = word_of_int i"

lemma big_div_pos [go_simps]: "0 < b \<Longrightarrow> big_div a b = Some (a div b)"
  by (simp add: big_div_def)

lemma big_div_euclid:
  assumes "big_div a b = Some q"
  shows "0 \<le> a - q * b \<and> a - q * b < \<bar>b\<bar>"
proof (cases "0 < b")
  case True
  with assms have "q = a div b" by (simp add: big_div_def)
  with True show ?thesis
    by (simp add: minus_div_mult_eq_mod)
next
  case False
  with assms have b: "b < 0" and q: "q = - (a div (- b))"
    by (auto simp: big_div_def split: if_splits)
  then have "a - q * b = a mod (- b)"
    by (simp add: minus_div_mult_eq_mod [of a "- b", symmetric])
  moreover from b have "0 \<le> a mod (- b)" "a mod (- b) < - b"
    by (auto intro: pos_mod_sign pos_mod_bound)
  ultimately show ?thesis using b by simp
qed

section \<open>Lists, options and words\<close>

lemma those_map_Some [simp]: "those (map (\<lambda>x. Some (f x)) xs) = Some (map f xs)"
  by (induction xs) auto

lemma word64_add_1_neq [simp]: "(x::u64) + 1 \<noteq> x"
  by simp

lemma unat_lt_2p64: "unat (x::u64) < 2 ^ 64"
  using unsigned_less [of x, where ?'a = nat] by simp

lemma unat_of_nat_small: "n < 2 ^ 64 \<Longrightarrow> unat (of_nat n :: u64) = n"
  by (simp add: unat_of_nat)

lemma unat_add_1_less_max:
  fixes x y :: u64
  assumes "x < y"
  shows "unat (x + 1) = unat x + 1"
proof -
  from assms have "unat x < unat y" by (simp add: word_less_nat_alt)
  then have "unat x + 1 < 2 ^ 64" using unat_lt_2p64 [of y] by linarith
  then show ?thesis by (simp add: unat_word_ariths)
qed

lemma filter_eq_self: "(\<And>x. x \<in> set xs \<Longrightarrow> P x) \<Longrightarrow> filter P xs = xs"
  by (induction xs) auto

lemma sorted_wrt_fst_unique:
  fixes xs ys :: "('k::linorder \<times> 'v) list"
  assumes "distinct xs" "distinct ys" "set xs = set ys"
    "sorted_wrt (\<lambda>p q. fst p < fst q) xs" "sorted_wrt (\<lambda>p q. fst p < fst q) ys"
  shows "xs = ys"
  using assms
proof (induction xs arbitrary: ys)
  case (Cons x xs)
  then obtain y ys' where ys: "ys = y # ys'" by (cases ys) auto
  have "x = y"
  proof (rule ccontr)
    assume "x \<noteq> y"
    then have "x \<in> set ys'" "y \<in> set xs" using Cons.prems(3) ys by auto
    then have "fst y < fst x" "fst x < fst y" using Cons.prems(4,5) ys by auto
    then show False by simp
  qed
  moreover have "xs = ys'" using Cons.prems ys \<open>x = y\<close> by (intro Cons.IH) auto
  ultimately show ?case using ys by simp
qed simp

lemma map_of_filter_key:
  "map_of (filter (\<lambda>p. P (fst p)) m) k = (if P k then map_of m k else None)"
  by (induction m) auto

end
