(* ===== verification/Hexint.thy ===== *)
theory Hexint
  imports Prelude
begin

text \<open>
  \<^verbatim>\<open>common/hexint.go\<close>: the byte encodings of integers. \<^verbatim>\<open>uint64\<close> values are
  minimal big-endian byte strings, \<^verbatim>\<open>big.Int\<close> values minimal two's-complement byte
  strings. The keys of the databases and the values hashed into the state hash are built
  from them. The theory proves that both encodings are inverted by their decoders and that
  the fixed-width block-height keys are ordered as the heights are.
\<close>

section \<open>Unsigned 64-bit integers\<close>

text \<open>The bytes gathered so far are the suffix \<^verbatim>\<open>bs[idx+1:]\<close> of the buffer.\<close>

fun Uint64ToBytes_loop :: "nat \<Rightarrow> u64 \<Rightarrow> bytes \<Rightarrow> bytes" where
  "Uint64ToBytes_loop 0 v bs = bs"
| "Uint64ToBytes_loop (Suc idx) v bs =
     (let bs' = ucast (v AND 255) # bs; v' = drop_bit 8 v
      in if v' = 0 then bs' else Uint64ToBytes_loop idx v' bs')"

definition Uint64ToBytes :: "u64 \<Rightarrow> bytes" where
  "Uint64ToBytes v = (if v = 0 then [] else Uint64ToBytes_loop 8 v [])"

definition BytesToUint64 :: "bytes \<Rightarrow> u64" where
  "BytesToUint64 bs = foldl (\<lambda>v b. push_bit 8 v OR ucast b) 0 bs"

section \<open>Big integers\<close>

text \<open>\<^verbatim>\<open>big.Int.Bytes\<close>, \<^verbatim>\<open>big.Int.SetBytes\<close> and \<^verbatim>\<open>big.Int.BitLen\<close> of the Go library.\<close>

fun nat_bytes :: "nat \<Rightarrow> bytes" where
  "nat_bytes n = (if n = 0 then [] else nat_bytes (n div 256) @ [of_nat (n mod 256)])"

declare nat_bytes.simps [simp del]

definition be_nat :: "bytes \<Rightarrow> nat" where
  "be_nat bs = foldl (\<lambda>n b. n * 256 + unat b) 0 bs"

fun bit_len :: "nat \<Rightarrow> nat" where
  "bit_len n = (if n = 0 then 0 else Suc (bit_len (n div 2)))"

declare bit_len.simps [simp del]

definition BigIntToBytes :: "int \<Rightarrow> bytes" where
  "BigIntToBytes i =
     (if i = 0 then []
      else if 0 < i then
        (let bl = bit_len (nat i) in
         if bl mod 8 = 0 then copy_at (replicate (bl div 8 + 1) 0) 1 (nat_bytes (nat i))
         else nat_bytes (nat i))
      else
        (let ti = i + 1; bl = bit_len (nat \<bar>ti\<bar>); nb = 2 ^ ((bl + 8) div 8 * 8) + i
         in nat_bytes (nat nb)))"

definition BigIntSetBytes :: "bytes \<Rightarrow> int" where
  "BigIntSetBytes bs =
     (let i = int (be_nat bs) in
      if bs \<noteq> [] \<and> hd bs AND 128 \<noteq> 0 then i - 2 ^ bit_len (be_nat bs) else i)"

section \<open>Decoding is positional\<close>

lemma be_nat_Nil [simp, codec_simps]: "be_nat [] = 0"
  by (simp add: be_nat_def)

lemma be_nat_snoc [codec_simps]: "be_nat (bs @ [b]) = be_nat bs * 256 + unat b"
  by (simp add: be_nat_def)

lemma be_nat_append: "be_nat (xs @ ys) = be_nat xs * 256 ^ length ys + be_nat ys"
  by (induction ys rule: rev_induct) (auto simp: be_nat_snoc algebra_simps simp flip: append_assoc)

lemma be_nat_Cons: "be_nat (b # bs) = unat b * 256 ^ length bs + be_nat bs"
  using be_nat_append [of "[b]" bs] by (simp add: be_nat_def)

lemma be_nat_replicate_zero [simp, codec_simps]: "be_nat (replicate n 0) = 0"
  by (induction n) (auto simp: be_nat_Cons)

lemma byte_less: "unat (b::byte) < 256"
  using unsigned_less [of b, where ?'a = nat] by simp

lemma be_nat_less: "be_nat bs < 256 ^ length bs"
proof (induction bs rule: rev_induct)
  case (snoc b bs)
  have "unat b < 256" by (rule byte_less)
  moreover have "be_nat bs * 256 \<le> (256 ^ length bs - 1) * 256"
    using snoc by (intro mult_right_mono) auto
  ultimately have "be_nat bs * 256 + unat b < (256 ^ length bs - 1) * 256 + 256" by linarith
  also have "\<dots> = 256 ^ length (bs @ [b])" by (simp add: diff_mult_distrib)
  finally show ?case by (simp add: be_nat_snoc)
qed simp

lemma BytesToUint64_snoc:
  "BytesToUint64 (bs @ [b]) = push_bit 8 (BytesToUint64 bs) OR ucast b"
  by (simp add: BytesToUint64_def)

lemma push_or_byte: "push_bit 8 (v::u64) OR ucast (b::byte) = v * 256 + ucast b"
proof -
  have "push_bit 8 v AND ucast b = 0"
    by (rule bit_word_eqI) (auto simp: bit_simps dest: bit_imp_le_length)
  then have "push_bit 8 v OR ucast b = push_bit 8 v + ucast b"
    by (simp add: disjunctive_add_eq_or)
  then show ?thesis by (simp add: push_bit_eq_mult mult.commute)
qed

lemma unat_BytesToUint64: "unat (BytesToUint64 bs) = be_nat bs mod 2 ^ 64"
proof (induction bs rule: rev_induct)
  case Nil
  then show ?case by (simp add: BytesToUint64_def)
next
  case (snoc b bs)
  have "unat (ucast b :: u64) = unat b"
    using byte_less [of b] by (simp add: unsigned_ucast_eq take_bit_eq_mod)
  then show ?case
    by (simp add: BytesToUint64_snoc push_or_byte be_nat_snoc unat_word_ariths snoc mod_simps)
qed

section \<open>Round trip of the uint64 encoding\<close>

lemma unat_low_byte: "unat (ucast ((v::u64) AND 255) :: byte) = unat v mod 256"
proof -
  have "v AND 255 = take_bit 8 v" by (simp add: take_bit_eq_mask mask_eq_decr_exp)
  then show ?thesis
    by (simp only: unsigned_ucast_eq unsigned_take_bit_eq) (simp add: take_bit_eq_mod)
qed

lemma unat_shift_byte: "unat (drop_bit 8 (v::u64)) = unat v div 256"
  by (simp add: drop_bit_eq_div unat_div_distrib)

lemma Uint64ToBytes_loop_be_nat:
  "unat v < 256 ^ n \<Longrightarrow>
     be_nat (Uint64ToBytes_loop n v bs) = unat v * 256 ^ length bs + be_nat bs"
proof (induction n v bs rule: Uint64ToBytes_loop.induct)
  case (1 v bs)
  then show ?case by simp
next
  case (2 idx v bs)
  let ?b = "ucast (v AND 255) :: byte" and ?v = "drop_bit 8 v"
  have split: "unat v = unat ?v * 256 + unat ?b"
    by (simp add: unat_low_byte unat_shift_byte)
  show ?case
  proof (cases "?v = 0")
    case True
    then have "unat v = unat ?b" using split by simp
    with True show ?thesis by (simp add: Let_def be_nat_Cons)
  next
    case False
    have "unat ?v < 256 ^ idx"
      using "2.prems" by (simp add: unat_shift_byte less_mult_imp_div_less mult.commute)
    then have "be_nat (Uint64ToBytes_loop idx ?v (?b # bs)) = unat ?v * 256 ^ Suc (length bs) + be_nat (?b # bs)"
      using "2.IH" False by (simp add: Let_def)
    also have "\<dots> = (unat ?v * 256 + unat ?b) * 256 ^ length bs + be_nat bs"
      by (simp only: be_nat_Cons power_Suc distrib_right mult.assoc add.assoc)
    also have "\<dots> = unat v * 256 ^ length bs + be_nat bs"
      by (simp only: split [symmetric])
    finally show ?thesis using False by (simp add: Let_def)
  qed
qed

lemma be_nat_Uint64ToBytes [codec_simps]: "be_nat (Uint64ToBytes v) = unat v"
  using Uint64ToBytes_loop_be_nat [of v 8 "[]"] unat_lt_2p64 [of v]
  by (simp add: Uint64ToBytes_def)

lemma length_Uint64ToBytes_loop: "length (Uint64ToBytes_loop n v bs) \<le> n + length bs"
  by (induction n v bs rule: Uint64ToBytes_loop.induct) (auto simp: Let_def)

lemma length_Uint64ToBytes [codec_simps]: "length (Uint64ToBytes v) \<le> 8"
  using length_Uint64ToBytes_loop [of 8 v "[]"] by (simp add: Uint64ToBytes_def)

lemma BytesToUint64_of_be_nat: "be_nat bs = unat v \<Longrightarrow> BytesToUint64 bs = v"
  using unat_lt_2p64 [of v] unat_BytesToUint64 [of bs] by (metis mod_less word_unat_eq_iff)

lemma BytesToUint64_Uint64ToBytes [codec_simps]: "BytesToUint64 (Uint64ToBytes v) = v"
  by (rule BytesToUint64_of_be_nat) (rule be_nat_Uint64ToBytes)

section \<open>Fixed-width block-height keys\<close>

text \<open>
  The eight-byte keys: \<^verbatim>\<open>bs := make([]byte, 8)\<close> followed by a right-aligned
  \<^verbatim>\<open>copy\<close> of the minimal encoding. They sort as the numbers do.
\<close>

definition bh_key :: "u64 \<Rightarrow> bytes" where
  "bh_key v = (let bh = Uint64ToBytes v in copy_at (replicate 8 0) (8 - length bh) bh)"

lemma bh_key_pad: "bh_key v = replicate (8 - length (Uint64ToBytes v)) 0 @ Uint64ToBytes v"
  by (simp add: bh_key_def Let_def copy_at_pad length_Uint64ToBytes)

lemma length_bh_key [simp, codec_simps]: "length (bh_key v) = 8"
  using length_Uint64ToBytes [of v] by (simp add: bh_key_pad)

lemma be_nat_bh_key [simp, codec_simps]: "be_nat (bh_key v) = unat v"
  by (simp add: bh_key_pad be_nat_append be_nat_Uint64ToBytes)

lemma BytesToUint64_bh_key [simp, codec_simps]: "BytesToUint64 (bh_key v) = v"
  by (rule BytesToUint64_of_be_nat) simp

lemma bh_key_inject [simp]: "bh_key v = bh_key w \<longleftrightarrow> v = w"
  by (metis BytesToUint64_bh_key)

lemma bytes_less_iff_be_nat:
  "length xs = length ys \<Longrightarrow> xs < ys \<longleftrightarrow> be_nat xs < be_nat (ys::bytes)"
proof (induction xs ys rule: list_induct2)
  case Nil
  then show ?case by simp
next
  case (Cons x xs y ys)
  let ?B = "256 ^ length ys :: nat"
  have bx: "be_nat xs < ?B" and cy: "be_nat ys < ?B"
    using be_nat_less [of xs] be_nat_less [of ys] Cons.hyps by simp_all
  have eq: "be_nat (x # xs) = unat x * ?B + be_nat xs" "be_nat (y # ys) = unat y * ?B + be_nat ys"
    using Cons.hyps by (simp_all add: be_nat_Cons)
  consider (lt) "x < y" | (eq) "x = y" | (gt) "y < x" by force
  then show ?case
  proof cases
    case lt
    then have "(unat x + 1) * ?B \<le> unat y * ?B"
      by (intro mult_right_mono) (simp_all add: word_less_nat_alt)
    with lt bx eq show ?thesis by (simp add: algebra_simps)
  next
    case eq
    with Cons.IH \<open>be_nat (x # xs) = _\<close> \<open>be_nat (y # ys) = _\<close> show ?thesis by simp
  next
    case gt
    then have "(unat y + 1) * ?B \<le> unat x * ?B"
      by (intro mult_right_mono) (simp_all add: word_less_nat_alt)
    with gt cy eq show ?thesis by (auto simp: algebra_simps)
  qed
qed

lemma bh_key_less [simp]: "bh_key v < bh_key w \<longleftrightarrow> v < w"
  by (simp add: bytes_less_iff_be_nat word_less_nat_alt)

section \<open>Round trip of the big-integer encoding\<close>

lemma be_nat_nat_bytes [codec_simps]: "be_nat (nat_bytes n) = n"
proof (induction n rule: nat_bytes.induct)
  case (1 n)
  then show ?case
    by (subst nat_bytes.simps) (auto simp: be_nat_snoc unat_of_nat)
qed

lemma bit_len_upper: "n < 2 ^ bit_len n"
proof (induction n rule: bit_len.induct)
  case (1 n)
  show ?case
  proof (cases "n = 0")
    case True
    then show ?thesis by (simp add: bit_len.simps)
  next
    case False
    with 1 have "n div 2 < 2 ^ bit_len (n div 2)" by simp
    then have "n < 2 * 2 ^ bit_len (n div 2)" by linarith
    with False show ?thesis by (simp add: bit_len.simps [of n])
  qed
qed

lemma bit_len_lower: "0 < n \<Longrightarrow> 2 ^ (bit_len n - 1) \<le> n"
proof (induction n rule: bit_len.induct)
  case (1 n)
  show ?case
  proof (cases "n div 2 = 0")
    case True
    with "1.prems" show ?thesis by (simp add: bit_len.simps [of n] bit_len.simps [of 0])
  next
    case False
    with "1.prems" have "2 ^ (bit_len (n div 2) - 1) \<le> n div 2" by (intro "1.IH") auto
    moreover from False have "bit_len (n div 2) = Suc (bit_len (n div 2) - 1)"
      by (simp add: bit_len.simps [of "n div 2"])
    ultimately have "2 ^ bit_len (n div 2) \<le> 2 * (n div 2)"
      by (metis mult_le_mono2 power_Suc)
    with "1.prems" show ?thesis by (simp add: bit_len.simps [of n])
  qed
qed

lemma bit_len_unique: "2 ^ k \<le> n \<Longrightarrow> n < 2 ^ Suc k \<Longrightarrow> bit_len n = Suc k"
proof -
  assume lo: "2 ^ k \<le> n" and hi: "n < 2 ^ Suc k"
  from lo have pos: "0 < n" by (meson le_less_trans not_less zero_less_numeral zero_less_power)
  have "(2::nat) ^ (bit_len n - 1) < 2 ^ Suc k" using bit_len_lower [OF pos] hi by linarith
  then have a: "bit_len n - 1 < Suc k" by (rule power_less_imp_less_exp [rotated]) simp
  have "(2::nat) ^ k < 2 ^ bit_len n" using bit_len_upper [of n] lo by linarith
  then have "k < bit_len n" by (simp add: power_less_imp_less_exp)
  with a show ?thesis by linarith
qed

lemma length_nat_bytes_bounds:
  "0 < n \<Longrightarrow> 0 < length (nat_bytes n) \<and> 256 ^ (length (nat_bytes n) - 1) \<le> n"
proof (induction n rule: nat_bytes.induct)
  case (1 n)
  show ?case
  proof (cases "n div 256 = 0")
    case True
    with "1.prems" show ?thesis by (simp add: nat_bytes.simps [of n] nat_bytes.simps [of 0])
  next
    case False
    let ?l = "length (nat_bytes (n div 256))"
    have IH: "0 < ?l \<and> 256 ^ (?l - 1) \<le> n div 256"
      using "1.IH" "1.prems" False by simp
    then have "256 * 256 ^ (?l - 1) \<le> 256 * (n div 256)" by (intro mult_le_mono2) auto
    moreover have "256 * (256::nat) ^ (?l - 1) = 256 ^ ?l"
      using IH by (cases ?l) simp_all
    ultimately have "256 ^ ?l \<le> n" by linarith
    with "1.prems" show ?thesis by (simp add: nat_bytes.simps [of n])
  qed
qed

lemma length_nat_bytes:
  assumes "256 ^ l \<le> n" "n < 256 ^ Suc l"
  shows "length (nat_bytes n) = Suc l"
proof -
  let ?k = "length (nat_bytes n)"
  have pos: "0 < n" using assms(1) by (meson le_less_trans not_less zero_less_numeral zero_less_power)
  have lo: "0 < ?k" "256 ^ (?k - 1) \<le> n" using length_nat_bytes_bounds [OF pos] by auto
  have "n < 256 ^ ?k" using be_nat_less [of "nat_bytes n"] by (simp add: be_nat_nat_bytes)
  then have "(256::nat) ^ l < 256 ^ ?k" using assms(1) by linarith
  then have "l < ?k" by (simp add: power_less_imp_less_exp)
  moreover have "(256::nat) ^ (?k - 1) < 256 ^ Suc l" using lo assms(2) by linarith
  then have "?k - 1 < Suc l" by (rule power_less_imp_less_exp [rotated]) simp
  ultimately show ?thesis by linarith
qed

lemma sint_small: "unat (v::u64) < 2 ^ 63 \<Longrightarrow> sint v = int (unat v)"
proof -
  assume "unat v < 2 ^ 63"
  then have "int (unat v) < int (2 ^ 63)" by (simp only: of_nat_less_iff)
  then have "uint v < 2 ^ 63" by simp
  moreover have "0 \<le> uint v" by simp
  ultimately have "signed_take_bit 63 (uint v) = uint v" by (intro signed_take_bit_int_eq_self) linarith+
  moreover have "sint v = signed_take_bit 63 (uint v)" by (simp add: sint_uint)
  ultimately show ?thesis by (simp only: uint_nat)
qed

lemma sign_bit: "(b::byte) AND 128 \<noteq> 0 \<longleftrightarrow> 128 \<le> unat b"
proof -
  have "b AND 128 = b AND 2 ^ 7" by simp
  then have "b AND 128 \<noteq> 0 \<longleftrightarrow> bit b 7" by (simp only: and_exp_eq_0_iff_not_bit not_not)
  also have "\<dots> \<longleftrightarrow> bit (unat b) 7" by (simp add: bit_unsigned_iff)
  also have "\<dots> \<longleftrightarrow> odd (unat b div 128)" by (simp add: bit_iff_odd)
  also have "\<dots> \<longleftrightarrow> 128 \<le> unat b"
  proof (cases "128 \<le> unat b")
    case True
    with byte_less [of b] have "unat b div 128 = 1" by (simp add: div_nat_eqI)
    with True show ?thesis by simp
  qed simp
  finally show ?thesis .
qed

lemma hd_nat_bytes:
  assumes "length (nat_bytes n) = Suc l"
  shows "unat (hd (nat_bytes n)) = n div 256 ^ l"
proof -
  obtain b bs where nb: "nat_bytes n = b # bs" and l: "length bs = l"
    using assms by (cases "nat_bytes n") auto
  have n: "n = unat b * 256 ^ l + be_nat bs"
    using be_nat_nat_bytes [of n] by (simp add: nb be_nat_Cons l)
  have "be_nat bs < 256 ^ l" using be_nat_less [of bs] l by simp
  then have "n div 256 ^ l = unat b" by (subst n) simp
  then show ?thesis by (simp add: nb)
qed

lemma pow256: "(256::nat) ^ l = 2 ^ (8 * l)"
  by (simp add: power_mult)

text \<open>The encodings of the three signs, and what the decoder reads back.\<close>

lemma nat_bytes_shape:
  assumes "bit_len n = 8 * l + r" "0 < r" "r \<le> 8"
  shows "length (nat_bytes n) = Suc l"
    and "unat (hd (nat_bytes n)) < 2 ^ r"
    and "2 ^ (r - 1) \<le> unat (hd (nat_bytes n))"
proof -
  from assms(1,2) have pos: "0 < n" by (cases "n = 0") (simp_all add: bit_len.simps [of 0])
  have up: "n < 2 ^ (8 * l + r)" using bit_len_upper [of n] assms(1) by simp
  have "2 ^ (8 * l + r - 1) \<le> n" using bit_len_lower [OF pos] assms(1) by simp
  then have lo: "2 ^ (8 * l + (r - 1)) \<le> n" using assms(2) by simp
  have "(256::nat) ^ l \<le> 2 ^ (8 * l + (r - 1))" by (simp add: pow256 power_increasing)
  moreover have "(2::nat) ^ (8 * l + r) \<le> 256 ^ Suc l"
    using assms(3) by (simp only: pow256) (simp add: power_increasing)
  ultimately show len: "length (nat_bytes n) = Suc l" using lo up by (intro length_nat_bytes) linarith+
  have hd: "unat (hd (nat_bytes n)) = n div 2 ^ (8 * l)"
    using hd_nat_bytes [OF len] by (simp add: pow256)
  have "n < 2 ^ r * 2 ^ (8 * l)" using up by (simp add: power_add mult.commute)
  then show "unat (hd (nat_bytes n)) < 2 ^ r" by (simp only: hd less_mult_imp_div_less)
  have "2 ^ (r - 1) * 2 ^ (8 * l) \<le> n" using lo by (simp add: power_add mult.commute)
  then show "2 ^ (r - 1) \<le> unat (hd (nat_bytes n))"
    by (simp add: hd less_eq_div_iff_mult_less_eq)
qed

lemma BigIntSetBytes_nonneg:
  "bs \<noteq> [] \<Longrightarrow> unat (hd bs) < 128 \<Longrightarrow> BigIntSetBytes bs = int (be_nat bs)"
  by (simp add: BigIntSetBytes_def Let_def sign_bit)

lemma BigIntToBytes_pos:
  assumes "0 < i"
  shows "BigIntSetBytes (BigIntToBytes i) = i"
proof -
  let ?n = "nat i" and ?bs = "nat_bytes (nat i)"
  have "bit_len ?n \<noteq> 0" using assms by (simp add: bit_len.simps [of "nat i"])
  show ?thesis
  proof (cases "bit_len ?n mod 8 = 0")
    case True
    define l where "l = bit_len ?n div 8 - 1"
    from True \<open>bit_len ?n \<noteq> 0\<close> have bl: "bit_len ?n = 8 * l + 8" unfolding l_def by presburger
    then have len: "length ?bs = Suc l" by (rule nat_bytes_shape) simp_all
    have "BigIntToBytes i = 0 # ?bs"
      using assms True by (simp add: BigIntToBytes_def Let_def bl len copy_at_def)
    then show ?thesis using assms
      by (simp add: BigIntSetBytes_nonneg be_nat_Cons be_nat_nat_bytes)
  next
    case False
    define l r where "l = bit_len ?n div 8" and "r = bit_len ?n mod 8"
    have bl: "bit_len ?n = 8 * l + r" and r: "0 < r" "r \<le> 7"
      using False unfolding l_def r_def by simp_all
    have len: "length ?bs = Suc l" and hd: "unat (hd ?bs) < 2 ^ r"
      using nat_bytes_shape [OF bl] r by simp_all
    have "(2::nat) ^ r \<le> 2 ^ 7" using r by (intro power_increasing) auto
    with hd have "unat (hd ?bs) < 128" by simp
    moreover have "?bs \<noteq> []" using len by auto
    moreover have "BigIntToBytes i = ?bs" using assms False by (simp add: BigIntToBytes_def Let_def)
    ultimately show ?thesis using assms by (simp add: BigIntSetBytes_nonneg be_nat_nat_bytes)
  qed
qed

lemma BigIntToBytes_neg:
  assumes "i < 0"
  shows "BigIntSetBytes (BigIntToBytes i) = i"
proof -
  define bl where "bl = bit_len (nat \<bar>i + 1\<bar>)"
  define l where "l = (bl + 8) div 8 - 1"
  define n where "n = nat (2 ^ (8 * l + 8) + i)"
  have K: "(bl + 8) div 8 * 8 = 8 * l + 8" "bl \<le> 8 * l + 7" unfolding l_def by presburger+
  have "nat \<bar>i + 1\<bar> < 2 ^ bl" unfolding bl_def by (rule bit_len_upper)
  also have "(2::nat) ^ bl \<le> 2 ^ (8 * l + 7)" using K(2) by (intro power_increasing) auto
  finally have "\<bar>i + 1\<bar> < 2 ^ (8 * l + 7)"
    by (metis abs_ge_zero nat_less_iff of_nat_numeral of_nat_power)
  then have ge: "- (2 ^ (8 * l + 7)) \<le> i" using assms by linarith
  have dbl: "(2::int) ^ (8 * l + 8) = 2 * 2 ^ (8 * l + 7)" by (simp add: power_add)
  have n_int: "int n = 2 ^ (8 * l + 8) + i" 
  proof -
    have "0 \<le> (2::int) ^ (8 * l + 7)" by simp
    then have "0 \<le> 2 ^ (8 * l + 8) + i" using ge dbl by linarith
    then show ?thesis by (simp add: n_def)
  qed
  then have "int (2 ^ (8 * l + 7)) \<le> int n" using ge dbl by simp
  then have lo: "2 ^ (8 * l + 7) \<le> n" by (simp only: of_nat_le_iff)
  have "int n < int (2 ^ (8 * l + 8))" using n_int assms by (simp only: of_nat_power of_nat_numeral)
  then have "n < 2 ^ (8 * l + 8)" by (simp only: of_nat_less_iff)
  moreover have "8 * l + 8 = Suc (8 * l + 7)" by simp
  ultimately have "bit_len n = 8 * l + 8" using bit_len_unique [OF lo] by metis
  then have len: "length (nat_bytes n) = Suc l" and hd: "2 ^ 7 \<le> unat (hd (nat_bytes n))"
    using nat_bytes_shape [of n l 8] by simp_all
  have "nat_bytes n \<noteq> []" using len by auto
  moreover have "BigIntToBytes i = nat_bytes (nat (2 ^ ((bl + 8) div 8 * 8) + i))"
    using assms by (simp add: BigIntToBytes_def Let_def bl_def)
  then have "BigIntToBytes i = nat_bytes n" by (simp only: K n_def)
  ultimately show ?thesis
    using hd n_int \<open>bit_len n = _\<close>
    by (simp add: BigIntSetBytes_def Let_def sign_bit be_nat_nat_bytes)
qed

lemma BigIntSetBytes_BigIntToBytes [simp, codec_simps]: "BigIntSetBytes (BigIntToBytes i) = i"
proof -
  consider "i = 0" | "0 < i" | "i < 0" by linarith
  then show ?thesis
    by cases (auto simp: BigIntToBytes_pos BigIntToBytes_neg, simp add: BigIntToBytes_def BigIntSetBytes_def)
qed

lemma BigIntToBytes_inject [simp]: "BigIntToBytes i = BigIntToBytes j \<longleftrightarrow> i = j"
  by (metis BigIntSetBytes_BigIntToBytes)

end
