(* ===== verification/Address.thy ===== *)
theory Address
  imports Hexint
begin

text \<open>
  \<^verbatim>\<open>common/address.go\<close>: a 21-byte array, a type byte (1 for a contract, 0 for an
  account) and a 20-byte identifier. \<open>address_ok\<close> is the invariant every constructor
  establishes; it makes the string and byte forms exact inverses.
\<close>

section \<open>Hexadecimal strings\<close>

text \<open>\<^verbatim>\<open>hex.EncodeToString\<close> and \<^verbatim>\<open>hex.DecodeString\<close> of the Go library.\<close>

definition hex_digits :: string where
  "hex_digits = ''0123456789abcdef''"

definition hex_char :: "nat \<Rightarrow> char" where
  "hex_char n = hex_digits ! (n mod 16)"

fun hex_val :: "char \<Rightarrow> nat option" where
  "hex_val c = (let n = (of_char c :: nat) in
     if 48 \<le> n \<and> n \<le> 57 then Some (n - 48)
     else if 97 \<le> n \<and> n \<le> 102 then Some (n - 87)
     else if 65 \<le> n \<and> n \<le> 70 then Some (n - 55)
     else None)"

definition hex_encode :: "bytes \<Rightarrow> string" where
  "hex_encode bs = concat (map (\<lambda>b. [hex_char (unat b div 16), hex_char (unat b)]) bs)"

fun hex_decode :: "string \<Rightarrow> error + bytes" where
  "hex_decode [] = Inr []"
| "hex_decode [c] = Inl ErrInvalidHex"
| "hex_decode (c # d # s) =
     (case (hex_val c, hex_val d) of
        (Some x, Some y) \<Rightarrow>
          (case hex_decode s of Inl e \<Rightarrow> Inl e | Inr bs \<Rightarrow> Inr (of_nat (x * 16 + y) # bs))
      | _ \<Rightarrow> Inl ErrInvalidHex)"

section \<open>Addresses\<close>

definition AddressIDBytes :: nat where "AddressIDBytes = 20"
definition AddressBytes :: nat where "AddressBytes = AddressIDBytes + 1"

type_synonym address = bytes

definition zero_address :: address where
  "zero_address = replicate AddressBytes 0"

definition address_ok :: "address \<Rightarrow> bool" where
  "address_ok a \<longleftrightarrow> length a = AddressBytes \<and> (hd a = 0 \<or> hd a = 1)"

definition IsContract :: "address \<Rightarrow> bool" where
  "IsContract a \<longleftrightarrow> hd a = 1"

definition Address_String :: "address \<Rightarrow> string" where
  "Address_String a = (if hd a = 1 then ''cx'' @ hex_encode (tl a) else ''hx'' @ hex_encode (tl a))"

definition Address_Bytes :: "address \<Rightarrow> bytes" where
  "Address_Bytes a = a"

definition Address_ID :: "address \<Rightarrow> bytes" where
  "Address_ID a = tl a"

text \<open>
  \<^verbatim>\<open>SetTypeAndID\<close> writes into the array it is called on: a short identifier is
  right-aligned over the old contents, a long one is cut.
\<close>

definition SetTypeAndID :: "address \<Rightarrow> bool \<Rightarrow> bytes option \<Rightarrow> error + address" where
  "SetTypeAndID a ic ident =
     (case ident of
        None \<Rightarrow> Inl ErrIllegalArgument
      | Some ident \<Rightarrow>
          (let a' = (if length ident < AddressIDBytes then copy_at a (AddressIDBytes - length ident + 1) ident
                     else copy_at a 1 ident)
           in Inr (a'[0 := (if ic then 1 else 0)])))"

text \<open>\<^verbatim>\<open>SetBytes\<close> reads \<^verbatim>\<open>b[0]\<close>: an empty, non-nil slice panics.\<close>

definition SetBytes :: "address \<Rightarrow> bytes option \<Rightarrow> (error + address) option" where
  "SetBytes a b =
     (case b of
        None \<Rightarrow> Some (Inl ErrIllegalArgument)
      | Some [] \<Rightarrow> None
      | Some (t # ident) \<Rightarrow>
          Some (if t = 0 then SetTypeAndID a False (Some ident)
                else if t = 1 then SetTypeAndID a True (Some ident)
                else Inl ErrIllegalArgument))"

definition SetString :: "address \<Rightarrow> string \<Rightarrow> error + address" where
  "SetString a s =
     (let isContract = (2 \<le> length s \<and> take 2 s = ''cx'');
          s1 = (if 2 \<le> length s \<and> take 2 s \<in> {''cx'', ''hx'', ''0x''} then drop 2 s else s);
          s2 = (if length s1 mod 2 = 1 then CHR ''0'' # s1 else s1)
      in case hex_decode s2 of
           Inl e \<Rightarrow> Inl e
         | Inr bs \<Rightarrow> SetTypeAndID a isContract (Some bs))"

text \<open>The constructors drop the error: a failed \<^verbatim>\<open>SetBytes\<close> leaves the zero address.\<close>

definition NewAddress :: "bytes \<Rightarrow> address option" where
  "NewAddress b = map_option (\<lambda>r. case r of Inl _ \<Rightarrow> zero_address | Inr a \<Rightarrow> a) (SetBytes zero_address (Some b))"

definition NewAccountAddress :: "bytes \<Rightarrow> address" where
  "NewAccountAddress b = (case SetTypeAndID zero_address False (Some b) of Inl _ \<Rightarrow> zero_address | Inr a \<Rightarrow> a)"

definition NewContractAddress :: "bytes \<Rightarrow> address" where
  "NewContractAddress b = (case SetTypeAndID zero_address True (Some b) of Inl _ \<Rightarrow> zero_address | Inr a \<Rightarrow> a)"

text \<open>\<^verbatim>\<open>NewAddressFromString\<close> panics when the string does not parse.\<close>

definition NewAddressFromString :: "string \<Rightarrow> address option" where
  "NewAddressFromString s = (case SetString zero_address s of Inl _ \<Rightarrow> None | Inr a \<Rightarrow> Some a)"

definition Address_Equal :: "address option \<Rightarrow> address option \<Rightarrow> bool" where
  "Address_Equal a a2 =
     (case (a2, a) of
        (None, None) \<Rightarrow> True
      | (Some y, Some x) \<Rightarrow> x = y
      | _ \<Rightarrow> False)"

section \<open>Hexadecimal round trip\<close>

lemma hex_char_cases: "n < 16 \<Longrightarrow> n \<in> {0, 1, 2, 3, 4, 5, 6, 7, 8, 9, 10, 11, 12, 13, 14, 15::nat}"
  by (simp add: numeral_eq_Suc less_Suc_eq)

lemma hex_val_hex_char [simp]: "hex_val (hex_char n) = Some (n mod 16)"
proof -
  have "n mod 16 < 16" by simp
  then show ?thesis
    by (elim hex_char_cases [THEN insertE] insertE emptyE)
       (simp_all add: hex_char_def hex_digits_def Let_def)
qed

lemma hex_decode_hex_encode [simp]: "hex_decode (hex_encode bs) = Inr bs"
proof (induction bs)
  case (Cons b bs)
  have "unat b div 16 mod 16 = unat b div 16" using byte_less [of b] by simp
  then have "unat b div 16 mod 16 * 16 + unat b mod 16 = unat b" by simp
  with Cons show ?case by (simp add: hex_encode_def del: hex_val.simps)
qed (simp add: hex_encode_def)

lemma length_hex_encode [simp]: "length (hex_encode bs) = 2 * length bs"
  by (induction bs) (auto simp: hex_encode_def)

section \<open>Every constructor yields a well-formed address\<close>

lemma zero_address_ok [simp]: "address_ok zero_address"
  by (simp add: address_ok_def zero_address_def AddressBytes_def)

lemma SetTypeAndID_length:
  "length a = AddressBytes \<Longrightarrow> SetTypeAndID a ic ident = Inr a' \<Longrightarrow> length a' = AddressBytes"
  by (auto simp: SetTypeAndID_def Let_def AddressBytes_def AddressIDBytes_def split: option.splits)

lemma SetTypeAndID_ok:
  assumes "length a = AddressBytes" "SetTypeAndID a ic ident = Inr a'"
  shows "address_ok a' \<and> IsContract a' = ic"
proof -
  have len: "length a' = AddressBytes" using assms by (rule SetTypeAndID_length)
  moreover have "hd a' = (if ic then 1 else 0)"
  proof -
    obtain b where "a' = b[0 := (if ic then 1 else 0)]"
      using assms(2) by (auto simp: SetTypeAndID_def Let_def split: option.splits)
    with len show ?thesis by (cases b) (auto simp: AddressBytes_def)
  qed
  ultimately show ?thesis by (simp add: address_ok_def IsContract_def)
qed

lemma SetTypeAndID_exact:
  assumes "length a = AddressBytes" "length ident = AddressIDBytes"
  shows "SetTypeAndID a ic (Some ident) = Inr ((if ic then 1 else 0) # ident)"
  using assms by (cases a) (auto simp: SetTypeAndID_def Let_def copy_at_def AddressBytes_def)

lemma SetBytes_ok:
  "length a = AddressBytes \<Longrightarrow> SetBytes a b = Some (Inr a') \<Longrightarrow> address_ok a'"
  by (auto simp: SetBytes_def dest: SetTypeAndID_ok split: option.splits list.splits if_splits)

lemma NewAddress_ok:
  assumes "NewAddress b = Some a"
  shows "address_ok a"
proof -
  obtain r where r: "SetBytes zero_address (Some b) = Some r"
    and a: "a = (case r of Inl _ \<Rightarrow> zero_address | Inr a \<Rightarrow> a)"
    using assms by (auto simp: NewAddress_def)
  show ?thesis
  proof (cases r)
    case (Inr b)
    with r have "address_ok b" by (intro SetBytes_ok [of zero_address]) (auto simp: zero_address_def)
    with Inr a show ?thesis by simp
  qed (use a in simp)
qed

lemma SetBytes_Bytes:
  assumes "address_ok a" "length c = AddressBytes"
  shows "SetBytes c (Some (Address_Bytes a)) = Some (Inr a)"
proof -
  obtain t ident where a: "a = t # ident" and "length ident = AddressIDBytes" "t = 0 \<or> t = 1"
    using assms by (cases a) (auto simp: address_ok_def AddressBytes_def)
  then show ?thesis
    using assms by (auto simp: SetBytes_def Address_Bytes_def SetTypeAndID_exact)
qed

lemma NewAddress_Bytes [codec_simps]: "address_ok a \<Longrightarrow> NewAddress (Address_Bytes a) = Some a"
  by (simp add: NewAddress_def SetBytes_Bytes zero_address_def)

lemma SetString_String:
  assumes "address_ok a" "length c = AddressBytes"
  shows "SetString c (Address_String a) = Inr a"
proof -
  obtain t ident where a: "a = t # ident" and ident: "length ident = AddressIDBytes" and t: "t = 0 \<or> t = 1"
    using assms by (cases a) (auto simp: address_ok_def AddressBytes_def)
  have "SetString c (Address_String a) = SetTypeAndID c (t = 1) (Some ident)"
    using ident t by (auto simp: SetString_def Address_String_def a Let_def)
  also have "\<dots> = Inr a" using t by (auto simp: SetTypeAndID_exact [OF assms(2) ident] a)
  finally show ?thesis .
qed

lemma SetString_ok:
  "length a = AddressBytes \<Longrightarrow> SetString a s = Inr a' \<Longrightarrow> address_ok a'"
  by (auto simp: SetString_def Let_def dest: SetTypeAndID_ok split: sum.splits if_splits)

end
