(* ===== verification/KV.thy ===== *)
theory KV
  imports Hexint
begin

text \<open>
  \<^verbatim>\<open>common/db\<close>: the key-value database every component stores its state in. The backend
  in use is goleveldb; of that library the code relies on a map from byte strings to values
  whose iterator visits the keys of a half-open range in the order of
  \<^verbatim>\<open>bytes.Compare\<close>. That contract is the locale \<open>ordered_kv\<close>. A database is modelled
  by the list of its entries in key order, for which the locale is interpreted; buckets,
  iterators and batches are the wrappers of \<^verbatim>\<open>go_level_db.go\<close> over it. Input/output
  failures of the library are not modelled: an operation on an open database succeeds.
\<close>

section \<open>The ordered map\<close>

type_synonym 'v kv = "(bytes \<times> 'v) list"

definition kv_get :: "bytes \<Rightarrow> 'v kv \<Rightarrow> 'v option" where
  "kv_get k m = map_of m k"

fun kv_put :: "bytes \<Rightarrow> 'v \<Rightarrow> 'v kv \<Rightarrow> 'v kv" where
  "kv_put k v [] = [(k, v)]"
| "kv_put k v ((a, b) # m) =
     (if k < a then (k, v) # (a, b) # m
      else if k = a then (k, v) # m
      else (a, b) # kv_put k v m)"

definition kv_del :: "bytes \<Rightarrow> 'v kv \<Rightarrow> 'v kv" where
  "kv_del k m = filter (\<lambda>p. fst p \<noteq> k) m"

definition kv_range :: "bytes \<Rightarrow> bytes option \<Rightarrow> 'v kv \<Rightarrow> 'v kv" where
  "kv_range start limit m =
     filter (\<lambda>p. start \<le> fst p \<and> (case limit of None \<Rightarrow> True | Some l \<Rightarrow> fst p < l)) m"

definition kv_ok :: "'v kv \<Rightarrow> bool" where
  "kv_ok m \<longleftrightarrow> sorted_wrt (<) (map fst m)"

text \<open>What the code relies on in the database library.\<close>

locale ordered_kv =
  fixes empty_db :: "'m"
    and get :: "bytes \<Rightarrow> 'm \<Rightarrow> 'v option"
    and put :: "bytes \<Rightarrow> 'v \<Rightarrow> 'm \<Rightarrow> 'm"
    and del :: "bytes \<Rightarrow> 'm \<Rightarrow> 'm"
    and range :: "bytes \<Rightarrow> bytes option \<Rightarrow> 'm \<Rightarrow> (bytes \<times> 'v) list"
    and invar :: "'m \<Rightarrow> bool"
  assumes get_empty: "get k empty_db = None"
    and get_put: "invar m \<Longrightarrow> get k' (put k v m) = (if k' = k then Some v else get k' m)"
    and get_del: "invar m \<Longrightarrow> get k' (del k m) = (if k' = k then None else get k' m)"
    and range_iff: "invar m \<Longrightarrow> (k, v) \<in> set (range s l m) \<longleftrightarrow>
          get k m = Some v \<and> s \<le> k \<and> (case l of None \<Rightarrow> True | Some e \<Rightarrow> k < e)"
    and range_sorted: "invar m \<Longrightarrow> sorted_wrt (<) (map fst (range s l m))"
    and invar_empty: "invar empty_db"
    and invar_put: "invar m \<Longrightarrow> invar (put k v m)"
    and invar_del: "invar m \<Longrightarrow> invar (del k m)"
begin

lemma get_put_same: "invar m \<Longrightarrow> get k (put k v m) = Some v"
  by (simp add: get_put)

lemma get_put_other: "invar m \<Longrightarrow> k' \<noteq> k \<Longrightarrow> get k' (put k v m) = get k' m"
  by (simp add: get_put)

lemma invar_fold_del: "invar m \<Longrightarrow> invar (fold del ks m)"
  by (induction ks arbitrary: m) (auto intro: invar_del)

lemma get_fold_del:
  "invar m \<Longrightarrow> get k (fold del ks m) = (if k \<in> set ks then None else get k m)"
proof (induction ks arbitrary: m)
  case (Cons x ks)
  then show ?case by (simp add: get_del invar_del)
qed simp

lemma range_distinct: "invar m \<Longrightarrow> distinct (map fst (range s l m))"
  using range_sorted [of m s l] by (simp add: strict_sorted_iff)

text \<open>Deleting every key an iterator visits empties the range and nothing else.\<close>

lemma get_del_range:
  assumes "invar m"
  shows "get k (fold del (map fst (range s l m)) m) =
     (if s \<le> k \<and> (case l of None \<Rightarrow> True | Some e \<Rightarrow> k < e) then None else get k m)"
proof -
  have "k \<in> set (map fst (range s l m)) \<longleftrightarrow>
      get k m \<noteq> None \<and> s \<le> k \<and> (case l of None \<Rightarrow> True | Some e \<Rightarrow> k < e)"
    using range_iff [OF assms] by force
  then show ?thesis by (auto simp: get_fold_del [OF assms])
qed

text \<open>Two databases with the same lookups have the same iterations.\<close>

lemma range_cong:
  assumes "invar m" "invar m'" "\<And>k. get k m = get k m'"
  shows "range s l m = range s l m'"
proof -
  have set: "set (range s l m) = set (range s l m')"
    using range_iff [OF assms(1)] range_iff [OF assms(2)] assms(3) by auto
  have srt: "sorted_wrt (\<lambda>p q. fst p < fst q) (range s l n)" if "invar n" for n
    using range_sorted [OF that] by (simp add: sorted_wrt_map)
  have "distinct (range s l m)" "distinct (range s l m')"
    using range_distinct assms(1,2) by (auto dest: distinct_map [THEN iffD1])
  then show ?thesis
    using set srt [OF assms(1)] srt [OF assms(2)]
    by (intro sorted_wrt_fst_unique)
qed

end

lemma kv_put_keys: "set (map fst (kv_put k v m)) = insert k (set (map fst m))"
  by (induction k v m rule: kv_put.induct) auto

lemma kv_ok_Nil [simp, kv_simps]: "kv_ok []"
  by (simp add: kv_ok_def)

lemma kv_ok_Cons: "kv_ok (p # m) \<longleftrightarrow> (\<forall>k \<in> set (map fst m). fst p < k) \<and> kv_ok m"
  by (auto simp: kv_ok_def)

lemma kv_ok_put [simp, kv_simps, intro]: "kv_ok m \<Longrightarrow> kv_ok (kv_put k v m)"
proof (induction k v m rule: kv_put.induct)
  case (2 k v a b m)
  then show ?case
    by (auto simp: kv_ok_Cons kv_put_keys simp del: set_map)
qed (simp add: kv_ok_def)

lemma kv_ok_filter [simp, intro]: "kv_ok m \<Longrightarrow> kv_ok (filter P m)"
  by (induction m) (auto simp: kv_ok_Cons)

lemma kv_ok_del [simp, kv_simps, intro]: "kv_ok m \<Longrightarrow> kv_ok (kv_del k m)"
  by (simp add: kv_del_def)

lemma kv_get_put [simp, kv_simps]: "kv_ok m \<Longrightarrow> kv_get k' (kv_put k v m) = (if k' = k then Some v else kv_get k' m)"
proof (induction k v m rule: kv_put.induct)
  case (2 k v a b m)
  then show ?case by (auto simp: kv_get_def kv_ok_Cons)
qed (simp add: kv_get_def)

lemma kv_get_del [simp, kv_simps]: "kv_get k' (kv_del k m) = (if k' = k then None else kv_get k' m)"
  using map_of_filter_key [of "\<lambda>x. x \<noteq> k" m k'] by (simp add: kv_get_def kv_del_def)

lemma kv_get_Nil [simp, kv_simps]: "kv_get k [] = None"
  by (simp add: kv_get_def)

lemma kv_get_iff: "kv_ok m \<Longrightarrow> kv_get k m = Some v \<longleftrightarrow> (k, v) \<in> set m"
  by (simp add: kv_get_def kv_ok_def strict_sorted_iff)

interpretation lvl: ordered_kv "[]" kv_get kv_put kv_del kv_range kv_ok
proof unfold_locales
  fix m :: "'v kv" and k v s l
  assume "kv_ok m"
  then show "(k, v) \<in> set (kv_range s l m) \<longleftrightarrow>
      kv_get k m = Some v \<and> s \<le> k \<and> (case l of None \<Rightarrow> True | Some e \<Rightarrow> k < e)"
    by (auto simp: kv_range_def kv_get_iff split: option.splits)
next
  fix m :: "'v kv" and s l
  assume "kv_ok m"
  then have "kv_ok (kv_range s l m)" by (simp add: kv_range_def)
  then show "sorted_wrt (<) (map fst (kv_range s l m))" by (simp add: kv_ok_def)
qed auto

text \<open>A database is determined by its lookups.\<close>

lemma kv_range_all: "kv_range [] None m = m"
  by (simp add: kv_range_def)

lemma kv_ext:
  assumes "kv_ok m" "kv_ok m'" "\<And>k. kv_get k m = kv_get k m'"
  shows "m = m'"
  using lvl.range_cong [OF assms, of "[]" None] by (simp add: kv_range_all)

section \<open>Buckets, iterators and batches\<close>

type_synonym bucket_id = bytes

definition ascii :: "string \<Rightarrow> bytes" where
  "ascii s = map (\<lambda>c. of_nat (of_char c)) s"

definition PrefixIScore :: bucket_id where "PrefixIScore = []"
definition PrefixCalcResult :: bucket_id where "PrefixCalcResult = []"
definition PrefixClaim :: bucket_id where "PrefixClaim = []"
definition PrefixManagement :: bucket_id where "PrefixManagement = ascii ''MI''"
definition PrefixGovernanceVariable :: bucket_id where "PrefixGovernanceVariable = ascii ''GV''"
definition PrefixPRepCandidate :: bucket_id where "PrefixPRepCandidate = ascii ''PC''"
definition PrefixPRep :: bucket_id where "PrefixPRep = ascii ''PR''"
definition PrefixIISSHeader :: bucket_id where "PrefixIISSHeader = ascii ''HD''"
definition PrefixIISSGV :: bucket_id where "PrefixIISSGV = ascii ''GV''"
definition PrefixIISSBPInfo :: bucket_id where "PrefixIISSBPInfo = ascii ''BP''"
definition PrefixIISSPRep :: bucket_id where "PrefixIISSPRep = ascii ''PR''"
definition PrefixIISSTX :: bucket_id where "PrefixIISSTX = ascii ''TX''"

definition internalKey :: "bucket_id \<Rightarrow> bytes \<Rightarrow> bytes" where
  "internalKey bid key =
     copy_at (copy_at (replicate (length key + length bid) 0) 0 bid) (length bid) key"

definition nonNilBytes :: "bytes option \<Rightarrow> bytes" where
  "nonNilBytes bz = (case bz of None \<Rightarrow> [] | Some b \<Rightarrow> b)"

definition Bucket_Get :: "'v kv \<Rightarrow> bucket_id \<Rightarrow> bytes \<Rightarrow> 'v option" where
  "Bucket_Get db bid key = kv_get (internalKey bid key) db"

definition Bucket_Has :: "'v kv \<Rightarrow> bucket_id \<Rightarrow> bytes \<Rightarrow> bool" where
  "Bucket_Has db bid key \<longleftrightarrow> kv_get (internalKey bid key) db \<noteq> None"

definition Bucket_Set :: "'v kv \<Rightarrow> bucket_id \<Rightarrow> bytes \<Rightarrow> 'v \<Rightarrow> 'v kv" where
  "Bucket_Set db bid key v = kv_put (internalKey bid key) v db"

definition Bucket_Delete :: "'v kv \<Rightarrow> bucket_id \<Rightarrow> bytes \<Rightarrow> 'v kv" where
  "Bucket_Delete db bid key = kv_del (internalKey bid key) db"

text \<open>The entries an iterator yields after \<^verbatim>\<open>New(start, limit)\<close>; a nil start is the whole database.\<close>

definition Iterator_New :: "'v kv \<Rightarrow> bytes option \<Rightarrow> bytes option \<Rightarrow> (bytes \<times> 'v) list" where
  "Iterator_New db start limit = (case start of None \<Rightarrow> db | Some s \<Rightarrow> kv_range s limit db)"

datatype 'v batch_op = BatchPut bytes 'v | BatchDelete bytes

fun batch_apply :: "'v batch_op \<Rightarrow> 'v kv \<Rightarrow> 'v kv" where
  "batch_apply (BatchPut k v) db = kv_put k v db"
| "batch_apply (BatchDelete k) db = kv_del k db"

definition Batch_Write :: "'v kv \<Rightarrow> 'v batch_op list \<Rightarrow> 'v kv" where
  "Batch_Write db batch = fold batch_apply batch db"

section \<open>Prefix ranges\<close>

text \<open>
  \<^verbatim>\<open>util.BytesPrefix\<close> of goleveldb: the limit is the prefix cut after its last byte that
  is not \<^verbatim>\<open>0xff\<close>, with that byte incremented; there is none when every byte is
  \<^verbatim>\<open>0xff\<close>.
\<close>

fun prefix_limit :: "bytes \<Rightarrow> bytes option" where
  "prefix_limit [] = None"
| "prefix_limit (b # bs) =
     (case prefix_limit bs of
        Some l \<Rightarrow> Some (b # l)
      | None \<Rightarrow> if b < 255 then Some [b + 1] else None)"

definition BytesPrefix :: "bytes \<Rightarrow> bytes \<times> bytes option" where
  "BytesPrefix p = (p, prefix_limit p)"

definition Iterator_prefix :: "'v kv \<Rightarrow> bytes \<Rightarrow> (bytes \<times> 'v) list" where
  "Iterator_prefix db p = (case BytesPrefix p of (s, l) \<Rightarrow> Iterator_New db (Some s) l)"

lemma byte_succ_less: "b < (255::byte) \<Longrightarrow> c < b + 1 \<longleftrightarrow> c \<le> b"
proof -
  assume "b < 255"
  then have "unat b < 255" by (simp add: word_less_nat_alt)
  then have "unat (b + 1) = unat b + 1" by (simp add: unat_word_ariths)
  then show ?thesis by (auto simp: word_less_nat_alt word_le_nat_alt)
qed

lemma prefix_range_iff:
  "p \<le> k \<and> (case prefix_limit p of None \<Rightarrow> True | Some l \<Rightarrow> k < l) \<longleftrightarrow> (\<exists>s. k = p @ s)"
proof (induction p arbitrary: k)
  case (Cons b bs)
  show ?case
  proof (cases k)
    case Nil
    then show ?thesis by simp
  next
    case k: (Cons c cs)
    show ?thesis
    proof (cases "prefix_limit bs")
      case (Some l)
      with Cons.IH [of cs] k show ?thesis by auto
    next
      case None
      with Cons.IH [of cs] have IH: "bs \<le> cs \<longleftrightarrow> (\<exists>s. cs = bs @ s)" by simp
      show ?thesis
      proof (cases "b < 255")
        case True
        with None k IH show ?thesis by (auto simp: byte_succ_less)
      next
        case False
        then have "\<not> b < c" using byte_less [of c] by (simp add: word_less_nat_alt not_less)
        with False None k IH show ?thesis by auto
      qed
    qed
  qed
qed simp

text \<open>The iterator over a prefix range yields exactly the entries whose key has the prefix.\<close>

lemma Iterator_prefix_eq: "Iterator_prefix db p = filter (\<lambda>e. take (length p) (fst e) = p) db"
proof -
  have "(\<exists>s. k = p @ s) \<longleftrightarrow> take (length p) k = p" for k
    by (metis append_eq_conv_conj append_take_drop_id)
  then show ?thesis
    unfolding Iterator_prefix_def BytesPrefix_def Iterator_New_def kv_range_def
    by (simp add: prefix_range_iff)
qed

lemma internalKey_append [simp, kv_simps]: "internalKey bid key = bid @ key"
  by (simp add: internalKey_def copy_at_def)

lemma Bucket_Get_Set [simp, kv_simps]:
  "kv_ok db \<Longrightarrow> Bucket_Get (Bucket_Set db bid k v) bid' k' =
     (if bid' @ k' = bid @ k then Some v else Bucket_Get db bid' k')"
  by (simp add: Bucket_Get_def Bucket_Set_def)

lemma Bucket_Get_Delete [simp, kv_simps]:
  "Bucket_Get (Bucket_Delete db bid k) bid' k' =
     (if bid' @ k' = bid @ k then None else Bucket_Get db bid' k')"
  by (simp add: Bucket_Get_def Bucket_Delete_def)

lemma kv_ok_Bucket_Set [simp, kv_simps, intro]: "kv_ok db \<Longrightarrow> kv_ok (Bucket_Set db bid k v)"
  by (simp add: Bucket_Set_def)

lemma kv_ok_Bucket_Delete [simp, kv_simps, intro]: "kv_ok db \<Longrightarrow> kv_ok (Bucket_Delete db bid k)"
  by (simp add: Bucket_Delete_def)

lemma kv_ok_Batch_Write [simp, kv_simps, intro]: "kv_ok db \<Longrightarrow> kv_ok (Batch_Write db ops)"
proof (induction ops arbitrary: db)
  case (Cons x ops)
  then have "kv_ok (batch_apply x db)" by (cases x) auto
  with Cons.IH show ?case by (simp add: Batch_Write_def)
qed (simp add: Batch_Write_def)

lemma set_Iterator_prefix:
  "kv_ok db \<Longrightarrow> (k, v) \<in> set (Iterator_prefix db p) \<longleftrightarrow> kv_get k db = Some v \<and> (\<exists>s. k = p @ s)"
  by (auto simp: Iterator_prefix_eq kv_get_iff) (metis append_take_drop_id)

end
