(* ===== verification/Wire.thy ===== *)
theory Wire
  imports Address KV
begin

text \<open>
  \<^verbatim>\<open>common/codec\<close> and \<^verbatim>\<open>common/codec.go\<close>: the values stored in the databases and sent
  over IPC. The sources hand their structs to a msgpack library configured with
  \<^verbatim>\<open>StructToArray\<close>; what they rely on is which object is written and how an object is
  read back, so a byte string of the library is represented by the msgpack object it holds
  (\<open>obj\<close>), and a byte string that holds none by \<open>OBad\<close>. The encoders and decoders of
  the repository's own types (\<^verbatim>\<open>CodecEncodeSelf\<close>, \<^verbatim>\<open>CodecDecodeSelf\<close>, field order,
  short arrays of older versions) are written out over it. \<^verbatim>\<open>typed.go\<close> is the
  self-describing encoding of the delegation lists in IISS data.
\<close>

section \<open>Errors as values\<close>

definition bindE :: "'e + 'a \<Rightarrow> ('a \<Rightarrow> 'e + 'b) \<Rightarrow> 'e + 'b" where
  "bindE r f = (case r of Inl e \<Rightarrow> Inl e | Inr x \<Rightarrow> f x)"

lemma bindE_simps [simp, codec_simps]: "bindE (Inl e) f = Inl e" "bindE (Inr x) f = f x"
  by (simp_all add: bindE_def)

lemma bindE_Inr: "bindE r f = Inr y \<longleftrightarrow> (\<exists>x. r = Inr x \<and> f x = Inr y)"
  by (cases r) auto

fun mapE :: "('a \<Rightarrow> 'e + 'b) \<Rightarrow> 'a list \<Rightarrow> 'e + 'b list" where
  "mapE f [] = Inr []"
| "mapE f (x # xs) = bindE (f x) (\<lambda>y. bindE (mapE f xs) (\<lambda>ys. Inr (y # ys)))"

lemma mapE_map [codec_simps]: "(\<And>x. x \<in> set xs \<Longrightarrow> f (g x) = Inr x) \<Longrightarrow> mapE f (map g xs) = Inr xs"
  by (induction xs) auto

section \<open>Msgpack objects\<close>

datatype obj =
    ONil
  | OBool bool
  | OInt int
  | OBytes bytes
  | OStr string
  | OArr "obj list"
  | OMap "(string \<times> obj) list"
  | OBad bytes

fun dec_bool :: "obj \<Rightarrow> error + bool" where
  "dec_bool (OBool b) = Inr b"
| "dec_bool (OInt i) = (if i = 0 then Inr False else if i = 1 then Inr True else Inl ErrDecode)"
| "dec_bool _ = Inl ErrDecode"

fun dec_u64 :: "obj \<Rightarrow> error + u64" where
  "dec_u64 (OInt i) = (if 0 \<le> i \<and> i < 2 ^ 64 then Inr (word_of_int i) else Inl ErrDecode)"
| "dec_u64 _ = Inl ErrDecode"

fun dec_int :: "obj \<Rightarrow> error + int" where
  "dec_int (OInt i) = (if - (2 ^ 63) \<le> i \<and> i < 2 ^ 63 then Inr i else Inl ErrDecode)"
| "dec_int _ = Inl ErrDecode"

fun dec_bytes :: "obj \<Rightarrow> error + bytes" where
  "dec_bytes (OBytes b) = Inr b"
| "dec_bytes (OStr s) = Inr (ascii s)"
| "dec_bytes _ = Inl ErrDecode"

fun dec_arr :: "obj \<Rightarrow> error + obj list" where
  "dec_arr (OArr xs) = Inr xs"
| "dec_arr _ = Inl ErrDecode"

text \<open>
  One field of a struct read from an array: a missing element keeps the old value, a nil
  element is the zero value.
\<close>

definition fld :: "obj list \<Rightarrow> nat \<Rightarrow> (obj \<Rightarrow> error + 'a) \<Rightarrow> 'a \<Rightarrow> 'a \<Rightarrow> error + 'a" where
  "fld xs i dec zero old =
     (if i < length xs then (if xs ! i = ONil then Inr zero else dec (xs ! i)) else Inr old)"

definition enc_u64 :: "u64 \<Rightarrow> obj" where
  "enc_u64 v = OInt (uint v)"

text \<open>\<^verbatim>\<open>HexInt\<close> and \<^verbatim>\<open>Address\<close> encode themselves as byte strings.\<close>

definition enc_HexInt :: "int \<Rightarrow> obj" where
  "enc_HexInt i = OBytes (BigIntToBytes i)"

definition dec_HexInt :: "obj \<Rightarrow> error + int" where
  "dec_HexInt ob = bindE (dec_bytes ob) (\<lambda>b. Inr (BigIntSetBytes b))"

definition enc_Address :: "address \<Rightarrow> obj" where
  "enc_Address a = OBytes a"

text \<open>A byte string that \<^verbatim>\<open>SetBytes\<close> refuses leaves the old address.\<close>

definition dec_Address :: "address \<Rightarrow> obj \<Rightarrow> error + address" where
  "dec_Address old ob = bindE (dec_bytes ob) (\<lambda>b.
     case SetBytes old (Some b) of
       None \<Rightarrow> Inl ErrDecode
     | Some (Inl _) \<Rightarrow> Inr old
     | Some (Inr a) \<Rightarrow> Inr a)"

lemma enc_neq_nil [simp, codec_simps]:
  "enc_u64 v \<noteq> ONil" "enc_HexInt i \<noteq> ONil" "enc_Address a \<noteq> ONil"
  by (simp_all add: enc_u64_def enc_HexInt_def enc_Address_def)

lemma uint_u64_bounds: "0 \<le> uint (v::u64)" "uint (v::u64) < 2 ^ 64"
  using unsigned_less [of v, where ?'a = int] by simp_all

lemma dec_enc_u64 [simp, codec_simps]: "dec_u64 (enc_u64 v) = Inr v"
  using uint_u64_bounds [of v] by (simp add: enc_u64_def)

lemma dec_enc_HexInt [simp, codec_simps]: "dec_HexInt (enc_HexInt i) = Inr i"
  by (simp add: dec_HexInt_def enc_HexInt_def)

lemma dec_enc_Address [simp, codec_simps]:
  "address_ok a \<Longrightarrow> length old = AddressBytes \<Longrightarrow> dec_Address old (enc_Address a) = Inr a"
  using SetBytes_Bytes [of a old] by (simp add: dec_Address_def enc_Address_def Address_Bytes_def)

lemma fld_nth [simp, codec_simps]:
  "fld (x # xs) 0 dec z d = (if x = ONil then Inr z else dec x)"
  "fld (x # xs) (Suc i) dec z d = fld xs i dec z d"
  "fld [] i dec z d = Inr d"
  by (simp_all add: fld_def)

lemma fld_numeral [simp, codec_simps]:
  "fld (x # xs) (numeral n) dec z d = fld xs (pred_numeral n) dec z d"
  by (simp add: numeral_eq_Suc)

section \<open>Typed objects\<close>

text \<open>
  \<^verbatim>\<open>TypedObj\<close> is a type tag and an object; the constructors are the tags
  \<^verbatim>\<open>TypeNil\<close> to \<^verbatim>\<open>TypeString\<close> and the custom tags, whose object is a byte string.
\<close>

datatype typed_obj =
    TNil
  | TDict "(string \<times> typed_obj) list"
  | TList "typed_obj list"
  | TBytes bytes
  | TString string
  | TCustom byte bytes

definition TypeCustom :: byte where "TypeCustom = 10"
definition TypeAddress :: byte where "TypeAddress = 10"
definition TypeInt :: byte where "TypeInt = 11"

text \<open>The dynamic values \<^verbatim>\<open>EncodeAny\<close> accepts and \<^verbatim>\<open>DecodeAny\<close> returns.\<close>

datatype go_any =
    GNil
  | GStr string
  | GBytes bytes
  | GList "go_any list"
  | GMap "(string \<times> go_any) list"
  | GAddress address
  | GBigInt int
  | GHexInt int
  | GInt64 "64 word"
  | GUint64 u64
  | GTyped typed_obj
  | GOther

text \<open>
  \<^verbatim>\<open>Int64ToBytes\<close>: the loop stops at the first byte whose upper part is the sign
  extension.
\<close>

fun Int64ToBytes_loop :: "nat \<Rightarrow> 64 word \<Rightarrow> 64 word \<Rightarrow> bytes \<Rightarrow> bytes" where
  "Int64ToBytes_loop 0 target v bs = bs"
| "Int64ToBytes_loop (Suc idx) target v bs =
     (let bs' = ucast (v AND 255) # bs in
      if v AND (- 128) = target then bs'
      else Int64ToBytes_loop idx target (signed_drop_bit 8 v) bs')"

definition Int64ToBytes :: "64 word \<Rightarrow> bytes" where
  "Int64ToBytes v =
     (if v = 0 then [] else Int64ToBytes_loop 8 (if sint v < 0 then - 128 else 0) v [])"

definition BytesToInt64 :: "bytes \<Rightarrow> 64 word" where
  "BytesToInt64 bs =
     (case bs of
        [] \<Rightarrow> 0
      | b # _ \<Rightarrow>
          if b AND 128 \<noteq> 0 then - foldl (\<lambda>v b. push_bit 8 v OR ucast (b XOR 255)) 0 bs - 1
          else foldl (\<lambda>v b. push_bit 8 v OR ucast b) 0 bs)"

fun TypeCodec_Encode :: "go_any \<Rightarrow> error + (byte \<times> bytes)" where
  "TypeCodec_Encode (GAddress a) = Inr (TypeAddress, Address_Bytes a)"
| "TypeCodec_Encode (GBigInt i) = Inr (TypeInt, BigIntToBytes i)"
| "TypeCodec_Encode (GHexInt i) = Inr (TypeInt, BigIntToBytes i)"
| "TypeCodec_Encode (GInt64 i) = Inr (TypeInt, Int64ToBytes i)"
| "TypeCodec_Encode (GUint64 i) = Inr (TypeInt, BigIntToBytes (uint i))"
| "TypeCodec_Encode _ = Inl ErrUnknownType"

text \<open>\<^verbatim>\<open>NewAddress\<close> panics on an empty byte string.\<close>

definition TypeCodec_Decode :: "byte \<Rightarrow> bytes \<Rightarrow> (error + go_any) option" where
  "TypeCodec_Decode tag data =
     (if tag = TypeAddress then map_option (\<lambda>a. Inr (GAddress a)) (NewAddress data)
      else if tag = TypeInt then Some (Inr (GHexInt (BigIntSetBytes data)))
      else Some (Inl ErrUnknownType))"

fun EncodeAny :: "go_any \<Rightarrow> error + typed_obj"
  and EncodeAny_list :: "go_any list \<Rightarrow> error + typed_obj list"
  and EncodeAny_map :: "(string \<times> go_any) list \<Rightarrow> error + (string \<times> typed_obj) list" where
  "EncodeAny GNil = Inr TNil"
| "EncodeAny (GStr s) = Inr (TString s)"
| "EncodeAny (GBytes b) = Inr (TBytes b)"
| "EncodeAny (GList l) = bindE (EncodeAny_list l) (\<lambda>ts. Inr (TList ts))"
| "EncodeAny (GMap m) = bindE (EncodeAny_map m) (\<lambda>ts. Inr (TDict ts))"
| "EncodeAny (GTyped t) = Inr t"
| "EncodeAny v = bindE (TypeCodec_Encode v) (\<lambda>(tag, b). Inr (TCustom tag b))"
| "EncodeAny_list [] = Inr []"
| "EncodeAny_list (x # xs) =
     bindE (EncodeAny x) (\<lambda>t. bindE (EncodeAny_list xs) (\<lambda>ts. Inr (t # ts)))"
| "EncodeAny_map [] = Inr []"
| "EncodeAny_map ((k, x) # xs) =
     bindE (EncodeAny x) (\<lambda>t. bindE (EncodeAny_map xs) (\<lambda>ts. Inr ((k, t) # ts)))"

text \<open>The first error, or panic, of a container ends the decoding.\<close>

definition bindP :: "('e + 'a) option \<Rightarrow> ('a \<Rightarrow> ('e + 'b) option) \<Rightarrow> ('e + 'b) option" where
  "bindP r f = (case r of None \<Rightarrow> None | Some (Inl e) \<Rightarrow> Some (Inl e) | Some (Inr x) \<Rightarrow> f x)"

lemma bindP_simps [simp, codec_simps]:
  "bindP None f = None" "bindP (Some (Inl e)) f = Some (Inl e)" "bindP (Some (Inr x)) f = f x"
  by (simp_all add: bindP_def)

fun DecodeAny :: "typed_obj \<Rightarrow> (error + go_any) option"
  and DecodeAny_list :: "typed_obj list \<Rightarrow> (error + go_any list) option"
  and DecodeAny_map :: "(string \<times> typed_obj) list \<Rightarrow> (error + (string \<times> go_any) list) option" where
  "DecodeAny TNil = Some (Inr GNil)"
| "DecodeAny (TString s) = Some (Inr (GStr s))"
| "DecodeAny (TBytes b) = Some (Inr (GBytes b))"
| "DecodeAny (TDict m) = bindP (DecodeAny_map m) (\<lambda>xs. Some (Inr (GMap xs)))"
| "DecodeAny (TList l) = bindP (DecodeAny_list l) (\<lambda>xs. Some (Inr (GList xs)))"
| "DecodeAny (TCustom tag b) = TypeCodec_Decode tag b"
| "DecodeAny_list [] = Some (Inr [])"
| "DecodeAny_list (t # ts) =
     bindP (DecodeAny t) (\<lambda>x. bindP (DecodeAny_list ts) (\<lambda>xs. Some (Inr (x # xs))))"
| "DecodeAny_map [] = Some (Inr [])"
| "DecodeAny_map ((k, t) # ts) =
     bindP (DecodeAny t) (\<lambda>x. bindP (DecodeAny_map ts) (\<lambda>xs. Some (Inr ((k, x) # xs))))"

text \<open>The wire form of a typed object: \<^verbatim>\<open>CodecEncodeSelf\<close> and \<^verbatim>\<open>CodecDecodeSelf\<close>.\<close>

fun enc_typed :: "typed_obj \<Rightarrow> obj" where
  "enc_typed TNil = OArr [OInt 0, ONil]"
| "enc_typed (TDict m) = OArr [OInt 1, OMap (map (\<lambda>(k, t). (k, enc_typed t)) m)]"
| "enc_typed (TList l) = OArr [OInt 2, OArr (map enc_typed l)]"
| "enc_typed (TBytes b) = OArr [OInt 3, OBytes b]"
| "enc_typed (TString s) = OArr [OInt 4, OStr s]"
| "enc_typed (TCustom tag b) = OArr [OInt (uint tag), OBytes b]"

text \<open>
  The decoders of the nested objects drop their errors and leave nil. A nil element is a nil
  pointer, which decodes like the nil object.
\<close>

fun dec_typed :: "obj \<Rightarrow> error + typed_obj"
  and dec_typed_list :: "obj list \<Rightarrow> error + typed_obj list"
  and dec_typed_map :: "(string \<times> obj) list \<Rightarrow> error + (string \<times> typed_obj) list" where
  "dec_typed (OArr (OInt t # rest)) =
     (if t = 0 then Inr TNil
      else if t = 1 then
        Inr (TDict (case rest of OMap m # _ \<Rightarrow> (case dec_typed_map m of Inr ts \<Rightarrow> ts | Inl _ \<Rightarrow> []) | _ \<Rightarrow> []))
      else if t = 2 then
        Inr (TList (case rest of OArr l # _ \<Rightarrow> (case dec_typed_list l of Inr ts \<Rightarrow> ts | Inl _ \<Rightarrow> []) | _ \<Rightarrow> []))
      else if t = 4 then Inr (TString (case rest of OStr s # _ \<Rightarrow> s | _ \<Rightarrow> []))
      else if 0 \<le> t \<and> t < 256 then
        (let b = (case rest of OBytes b # _ \<Rightarrow> b | _ \<Rightarrow> []) in
         Inr (if t = 3 then TBytes b else TCustom (word_of_int t) b))
      else Inl ErrDecode)"
| "dec_typed ONil = Inr TNil"
| "dec_typed _ = Inl ErrDecode"
| "dec_typed_list [] = Inr []"
| "dec_typed_list (x # xs) =
     bindE (dec_typed x) (\<lambda>t. bindE (dec_typed_list xs) (\<lambda>ts. Inr (t # ts)))"
| "dec_typed_map [] = Inr []"
| "dec_typed_map ((k, x) # xs) =
     bindE (dec_typed x) (\<lambda>t. bindE (dec_typed_map xs) (\<lambda>ts. Inr ((k, t) # ts)))"

end
