(* ===== verification/Management.thy ===== *)
theory Management
  imports Wire "HOL-Library.AList"
begin

text \<open>
  \<^verbatim>\<open>core/db_management.go\<close>: the records of the management database. \<open>DBInfo\<close> holds
  the block heights that drive the service (with its version-1 form), governance variables
  carry the reward rates of a term, \<open>PRep\<close> the elected representatives with their
  delegations, \<open>PRepCandidate\<close> the registration interval of a candidate.
\<close>

section \<open>Database information\<close>

definition BlockHashSize :: nat where "BlockHashSize = 32"
definition BlockHeightSize :: nat where "BlockHeightSize = 8"

record BlockInfo =
  bi_BlockHeight :: u64
  bi_BlockHash :: bytes

definition zero_BlockInfo :: BlockInfo where
  "zero_BlockInfo = \<lparr>bi_BlockHeight = 0, bi_BlockHash = replicate BlockHashSize 0\<rparr>"

definition BlockInfo_set :: "BlockInfo \<Rightarrow> u64 \<Rightarrow> bytes \<Rightarrow> BlockInfo" where
  "BlockInfo_set bi blockHeight blockHash =
     bi\<lparr>bi_BlockHeight := blockHeight, bi_BlockHash := copy_at (bi_BlockHash bi) 0 blockHash\<rparr>"

definition BlockInfo_checkValue :: "BlockInfo \<Rightarrow> u64 \<Rightarrow> bytes \<Rightarrow> bool" where
  "BlockInfo_checkValue bi blockHeight blockHash \<longleftrightarrow>
     bi_BlockHeight bi = blockHeight \<and> bi_BlockHash bi = blockHash"

definition BlockInfo_equal :: "BlockInfo \<Rightarrow> BlockInfo \<Rightarrow> bool" where
  "BlockInfo_equal bi dst \<longleftrightarrow>
     bi_BlockHeight bi = bi_BlockHeight dst \<and> bi_BlockHash bi = bi_BlockHash dst"

record DBInfo =
  DBRoot :: string
  DBType :: string
  DBCount :: int
  QueryDBIsZero :: bool
  Current :: BlockInfo
  CalcDone :: u64
  PrevCalcDone :: u64
  Calculating :: u64
  ToggleBH :: u64

definition zero_DBInfo :: DBInfo where
  "zero_DBInfo =
     \<lparr>DBRoot = [], DBType = [], DBCount = 0, QueryDBIsZero = False, Current = zero_BlockInfo,
      CalcDone = 0, PrevCalcDone = 0, Calculating = 0, ToggleBH = 0\<rparr>"

definition DBInfo_ID :: bytes where "DBInfo_ID = []"

definition enc_BlockInfo :: "BlockInfo \<Rightarrow> obj" where
  "enc_BlockInfo bi = OArr [enc_u64 (bi_BlockHeight bi), OBytes (bi_BlockHash bi)]"

definition dec_BlockInfo :: "BlockInfo \<Rightarrow> obj \<Rightarrow> error + BlockInfo" where
  "dec_BlockInfo old ob =
     bindE (dec_arr ob) (\<lambda>xs.
     bindE (fld xs 0 dec_u64 0 (bi_BlockHeight old)) (\<lambda>h.
     bindE (fld xs 1 dec_bytes (replicate BlockHashSize 0) (bi_BlockHash old)) (\<lambda>b.
     Inr \<lparr>bi_BlockHeight = h, bi_BlockHash = copy_at (replicate BlockHashSize 0) 0 b\<rparr>)))"

definition DBInfo_Bytes :: "DBInfo \<Rightarrow> obj" where
  "DBInfo_Bytes dbi =
     OArr [OInt (DBCount dbi), OBool (QueryDBIsZero dbi), enc_BlockInfo (Current dbi),
           enc_u64 (CalcDone dbi), enc_u64 (PrevCalcDone dbi), enc_u64 (Calculating dbi),
           enc_u64 (ToggleBH dbi)]"

text \<open>
  The current layout, \<^verbatim>\<open>DBInfoDataV2\<close>, and the old one, \<^verbatim>\<open>DBInfoDataV1\<close>. What the
  first attempt sets before it fails is set again by the second or, for the record of a new
  \<^verbatim>\<open>DBInfo\<close>, zero: \<^verbatim>\<open>Current\<close> could only have been read from nil.
\<close>

definition dec_DBInfoDataV2 :: "DBInfo \<Rightarrow> obj \<Rightarrow> error + DBInfo" where
  "dec_DBInfoDataV2 dbi ob =
     bindE (dec_arr ob) (\<lambda>xs.
     bindE (fld xs 0 dec_int 0 (DBCount dbi)) (\<lambda>c.
     bindE (fld xs 1 dec_bool False (QueryDBIsZero dbi)) (\<lambda>q.
     bindE (fld xs 2 (dec_BlockInfo (Current dbi)) zero_BlockInfo (Current dbi)) (\<lambda>cur.
     bindE (fld xs 3 dec_u64 0 (CalcDone dbi)) (\<lambda>cd.
     bindE (fld xs 4 dec_u64 0 (PrevCalcDone dbi)) (\<lambda>pcd.
     bindE (fld xs 5 dec_u64 0 (Calculating dbi)) (\<lambda>ca.
     bindE (fld xs 6 dec_u64 0 (ToggleBH dbi)) (\<lambda>tg.
     Inr (dbi\<lparr>DBCount := c, QueryDBIsZero := q, Current := cur, CalcDone := cd,
              PrevCalcDone := pcd, Calculating := ca, ToggleBH := tg\<rparr>)))))))))"

definition backwardCompatibility :: "DBInfo \<Rightarrow> obj \<Rightarrow> error + DBInfo" where
  "backwardCompatibility dbi ob =
     bindE (dec_arr ob) (\<lambda>xs.
     bindE (fld xs 0 dec_int 0 0) (\<lambda>c.
     bindE (fld xs 1 dec_u64 0 0) (\<lambda>bh.
     bindE (fld xs 2 dec_bool False False) (\<lambda>q.
     Inr (dbi\<lparr>DBCount := c, QueryDBIsZero := q, CalcDone := bh, PrevCalcDone := bh,
              Calculating := bh\<rparr>)))))"

definition DBInfo_SetBytes :: "DBInfo \<Rightarrow> obj \<Rightarrow> error + DBInfo" where
  "DBInfo_SetBytes dbi bs =
     (case dec_DBInfoDataV2 dbi bs of
        Inr d \<Rightarrow> Inr d
      | Inl _ \<Rightarrow> backwardCompatibility dbi bs)"

text \<open>
  \<^verbatim>\<open>filepath.Join\<close> cleans the path it makes: no empty element and no \<^verbatim>\<open>.\<close> is left, and
  \<^verbatim>\<open>..\<close> only at the front of a relative path.
\<close>

fun path_elements :: "string \<Rightarrow> string list" where
  "path_elements [] = [[]]"
| "path_elements (c # cs) =
     (if c = CHR ''/'' then [] # path_elements cs
      else case path_elements cs of [] \<Rightarrow> [[c]] | e # es \<Rightarrow> (c # e) # es)"

fun clean_elements :: "bool \<Rightarrow> string list \<Rightarrow> string list \<Rightarrow> string list" where
  "clean_elements rooted out [] = rev out"
| "clean_elements rooted out (e # es) =
     (if e = [] \<or> e = ''.'' then clean_elements rooted out es
      else if e = ''..'' then
        (case out of
           [] \<Rightarrow> clean_elements rooted (if rooted then [] else [e]) es
         | x # xs \<Rightarrow> clean_elements rooted (if x = ''..'' then e # out else xs) es)
      else clean_elements rooted (e # out) es)"

fun join_elements :: "string list \<Rightarrow> string" where
  "join_elements [] = []"
| "join_elements [e] = e"
| "join_elements (e # es) = e @ ''/'' @ join_elements es"

definition path_clean :: "string \<Rightarrow> string" where
  "path_clean path =
     (let rooted = (take 1 path = ''/''); p = join_elements (clean_elements rooted [] (path_elements path))
      in if rooted then ''/'' @ p else if p = [] then ''.'' else p)"

definition path_join :: "string \<Rightarrow> string \<Rightarrow> string" where
  "path_join a b = (if a = [] then (if b = [] then [] else path_clean b) else path_clean (a @ ''/'' @ b))"

lemma path_join_examples:
  "path_join ''data'' ''iscore'' = ''data/iscore''" "path_join ''/a/./b//'' ''../c'' = ''/a/c''" "path_join ''..'' ''..'' = ''../..''"
  by code_simp+

text \<open>\<^verbatim>\<open>NewDBInfo\<close> panics when the stored information does not decode (None).\<close>

definition NewDBInfo ::
    "obj kv \<Rightarrow> string \<Rightarrow> string \<Rightarrow> string \<Rightarrow> int \<Rightarrow> (DBInfo \<times> obj kv) option" where
  "NewDBInfo mngDB dbPath dbType dbName dbCount =
     (let finish = (\<lambda>d. d\<lparr>DBRoot := path_join dbPath dbName, DBType := dbType\<rparr>) in
      case Bucket_Get mngDB PrefixManagement DBInfo_ID of
        Some data \<Rightarrow>
          (case DBInfo_SetBytes zero_DBInfo data of
             Inl _ \<Rightarrow> None
           | Inr d \<Rightarrow> Some (finish d, mngDB))
      | None \<Rightarrow>
          (let d = finish (zero_DBInfo\<lparr>DBCount := dbCount\<rparr>)
           in Some (d, Bucket_Set mngDB PrefixManagement DBInfo_ID (DBInfo_Bytes d))))"

section \<open>Governance variables\<close>

definition iScoreMultiplier :: int where "iScoreMultiplier = 1000"

record GovernanceVariable =
  gv_BlockHeight :: u64
  gv_CalculatedIncentiveRep :: int
  gv_RewardRep :: int
  gv_MainPRepCount :: int
  gv_SubPRepCount :: int
  gv_BlockProduceReward :: int
  gv_PRepReward :: int

definition zero_GV :: GovernanceVariable where
  "zero_GV =
     \<lparr>gv_BlockHeight = 0, gv_CalculatedIncentiveRep = 0, gv_RewardRep = 0, gv_MainPRepCount = 0,
      gv_SubPRepCount = 0, gv_BlockProduceReward = 0, gv_PRepReward = 0\<rparr>"

definition GV_ID :: "GovernanceVariable \<Rightarrow> bytes" where
  "GV_ID gv = bh_key (gv_BlockHeight gv)"

definition GV_Bytes :: "GovernanceVariable \<Rightarrow> obj" where
  "GV_Bytes gv =
     OArr [enc_HexInt (gv_CalculatedIncentiveRep gv), enc_HexInt (gv_RewardRep gv),
           enc_HexInt (gv_MainPRepCount gv), enc_HexInt (gv_SubPRepCount gv)]"

definition setReward :: "GovernanceVariable \<Rightarrow> GovernanceVariable" where
  "setReward gv =
     gv\<lparr>gv_BlockProduceReward :=
            gv_CalculatedIncentiveRep gv * gv_MainPRepCount gv * iScoreMultiplier div 2,
        gv_PRepReward := gv_CalculatedIncentiveRep gv * 100 * iScoreMultiplier\<rparr>"

definition GV_SetBytes :: "GovernanceVariable \<Rightarrow> obj \<Rightarrow> error + GovernanceVariable" where
  "GV_SetBytes gv ob =
     bindE (dec_arr ob) (\<lambda>xs.
     bindE (fld xs 0 dec_HexInt 0 (gv_CalculatedIncentiveRep gv)) (\<lambda>a.
     bindE (fld xs 1 dec_HexInt 0 (gv_RewardRep gv)) (\<lambda>b.
     bindE (fld xs 2 dec_HexInt 0 (gv_MainPRepCount gv)) (\<lambda>c.
     bindE (fld xs 3 dec_HexInt 0 (gv_SubPRepCount gv)) (\<lambda>d.
     Inr (setReward (gv\<lparr>gv_CalculatedIncentiveRep := a, gv_RewardRep := b,
                        gv_MainPRepCount := c, gv_SubPRepCount := d\<rparr>)))))))"

text \<open>The error of \<^verbatim>\<open>SetBytes\<close> is dropped: such an entry is loaded with zero rates.\<close>

definition LoadGovernanceVariable :: "obj kv \<Rightarrow> GovernanceVariable list" where
  "LoadGovernanceVariable dbi =
     sort_key gv_BlockHeight
       (map (\<lambda>(k, v).
          (case GV_SetBytes zero_GV v of Inl _ \<Rightarrow> zero_GV | Inr gv \<Rightarrow> gv)
            \<lparr>gv_BlockHeight := BytesToUint64 (drop (length PrefixGovernanceVariable) k)\<rparr>)
        (Iterator_prefix dbi PrefixGovernanceVariable))"

section \<open>P-Reps and candidates\<close>

record PRepDelegationInfo =
  di_Address :: address
  di_DelegatedAmount :: int

record PRep =
  pr_BlockHeight :: u64
  pr_TotalDelegation :: int
  pr_List :: "PRepDelegationInfo list"

definition zero_PRep :: PRep where
  "zero_PRep = \<lparr>pr_BlockHeight = 0, pr_TotalDelegation = 0, pr_List = []\<rparr>"

definition PRep_ID :: "PRep \<Rightarrow> bytes" where
  "PRep_ID bp = bh_key (pr_BlockHeight bp)"

definition enc_PRepDelegationInfo :: "PRepDelegationInfo \<Rightarrow> obj" where
  "enc_PRepDelegationInfo di = OArr [enc_Address (di_Address di), enc_HexInt (di_DelegatedAmount di)]"

definition dec_PRepDelegationInfo :: "obj \<Rightarrow> error + PRepDelegationInfo" where
  "dec_PRepDelegationInfo ob =
     bindE (dec_arr ob) (\<lambda>xs.
     bindE (fld xs 0 (dec_Address zero_address) zero_address zero_address) (\<lambda>a.
     bindE (fld xs 1 dec_HexInt 0 0) (\<lambda>d.
     Inr \<lparr>di_Address = a, di_DelegatedAmount = d\<rparr>)))"

definition PRep_Bytes :: "PRep \<Rightarrow> obj" where
  "PRep_Bytes bp = OArr [enc_HexInt (pr_TotalDelegation bp), OArr (map enc_PRepDelegationInfo (pr_List bp))]"

definition PRep_SetBytes :: "PRep \<Rightarrow> obj \<Rightarrow> error + PRep" where
  "PRep_SetBytes bp ob =
     bindE (dec_arr ob) (\<lambda>xs.
     bindE (fld xs 0 dec_HexInt 0 (pr_TotalDelegation bp)) (\<lambda>t.
     bindE (fld xs 1 (\<lambda>l. bindE (dec_arr l) (mapE dec_PRepDelegationInfo)) [] (pr_List bp)) (\<lambda>l.
     Inr (bp\<lparr>pr_TotalDelegation := t, pr_List := l\<rparr>))))"

definition LoadPRep :: "obj kv \<Rightarrow> PRep list" where
  "LoadPRep dbi =
     map (\<lambda>(k, v).
        (case PRep_SetBytes zero_PRep v of Inl _ \<Rightarrow> zero_PRep | Inr p \<Rightarrow> p)
          \<lparr>pr_BlockHeight := BytesToUint64 (drop (length PrefixPRep) k)\<rparr>)
      (Iterator_prefix dbi PrefixPRep)"

record PRepCandidate =
  pc_Address :: address
  pc_Start :: u64
  pc_End :: u64

definition zero_PRepCandidate :: PRepCandidate where
  "zero_PRepCandidate = \<lparr>pc_Address = zero_address, pc_Start = 0, pc_End = 0\<rparr>"

definition PRepCandidate_ID :: "PRepCandidate \<Rightarrow> bytes" where
  "PRepCandidate_ID p = Address_Bytes (pc_Address p)"

definition PRepCandidate_Bytes :: "PRepCandidate \<Rightarrow> obj" where
  "PRepCandidate_Bytes p = OArr [enc_u64 (pc_Start p), enc_u64 (pc_End p)]"

definition PRepCandidate_SetBytes :: "PRepCandidate \<Rightarrow> obj \<Rightarrow> error + PRepCandidate" where
  "PRepCandidate_SetBytes p ob =
     bindE (dec_arr ob) (\<lambda>xs.
     bindE (fld xs 0 dec_u64 0 (pc_Start p)) (\<lambda>s.
     bindE (fld xs 1 dec_u64 0 (pc_End p)) (\<lambda>e.
     Inr (p\<lparr>pc_Start := s, pc_End := e\<rparr>))))"

text \<open>
  The candidates are a Go map, here an association list. \<^verbatim>\<open>NewAddress\<close> panics on an
  empty key (None).
\<close>

type_synonym candidates = "(address \<times> PRepCandidate) list"

fun LoadPRepCandidate_loop ::
    "candidates \<Rightarrow> (bytes \<times> obj) list \<Rightarrow> candidates option" where
  "LoadPRepCandidate_loop m [] = Some m"
| "LoadPRepCandidate_loop m ((k, v) # es) =
     (case NewAddress (drop (length PrefixPRepCandidate) k) of
        None \<Rightarrow> None
      | Some addr \<Rightarrow>
          LoadPRepCandidate_loop
            (AList.update addr ((case PRepCandidate_SetBytes zero_PRepCandidate v of
               Inl _ \<Rightarrow> zero_PRepCandidate | Inr p \<Rightarrow> p)\<lparr>pc_Address := addr\<rparr>) m) es)"

definition LoadPRepCandidate :: "obj kv \<Rightarrow> candidates option" where
  "LoadPRepCandidate dbi =
     LoadPRepCandidate_loop [] (Iterator_prefix dbi PrefixPRepCandidate)"

end
