(* ===== verification/ClaimDb.thy ===== *)
theory ClaimDb
  imports Management
begin

text \<open>
  \<^verbatim>\<open>core/db_claim.go\<close>: the claim, pre-commit and claim-backup databases. A CLAIM
  writes a pre-commit entry keyed by block height, block hash and address; COMMIT_CLAIM
  confirms or reverts it; COMMIT_BLOCK moves the confirmed entries of the block into the
  claim database and keeps the value each of them replaced in the claim-backup database,
  keyed by the height before the block; a rollback replays those values downwards.
\<close>

section \<open>Data\<close>

definition TXHashSize :: nat where "TXHashSize = 32"
definition PreCommitIDSize :: nat where "PreCommitIDSize = BlockHeightSize + BlockHashSize + AddressBytes"
definition ClaimBackupIDSize :: nat where "ClaimBackupIDSize = BlockHeightSize + AddressBytes"
definition ClaimBackupPeriod :: u64 where "ClaimBackupPeriod = 43120 * 2 - 1"

record ClaimData =
  cd_BlockHeight :: u64
  cd_IScore :: int

record Claim =
  cl_Address :: address
  cl_Data :: ClaimData

definition zero_Claim :: Claim where
  "zero_Claim = \<lparr>cl_Address = zero_address, cl_Data = \<lparr>cd_BlockHeight = 0, cd_IScore = 0\<rparr>\<rparr>"

definition ClaimData_equal :: "ClaimData \<Rightarrow> ClaimData \<Rightarrow> bool" where
  "ClaimData_equal cd c \<longleftrightarrow> cd_IScore cd = cd_IScore c \<and> cd_BlockHeight cd = cd_BlockHeight c"

definition Claim_ID :: "Claim \<Rightarrow> bytes" where
  "Claim_ID c = Address_Bytes (cl_Address c)"

definition ClaimBackupKey :: "u64 \<Rightarrow> address \<Rightarrow> bytes" where
  "ClaimBackupKey blockHeight addr =
     (let bh = Uint64ToBytes blockHeight
      in copy_at (copy_at (replicate ClaimBackupIDSize 0) (BlockHeightSize - length bh) bh)
           BlockHeightSize (Address_Bytes addr))"

definition Claim_BackupID :: "Claim \<Rightarrow> u64 \<Rightarrow> bytes" where
  "Claim_BackupID c blockHeight =
     (let bh = Uint64ToBytes blockHeight
      in copy_at (copy_at (replicate ClaimBackupIDSize 0) (BlockHeightSize - length bh) bh)
           BlockHeightSize (Claim_ID c))"

definition enc_ClaimData :: "ClaimData \<Rightarrow> obj" where
  "enc_ClaimData d = OArr [enc_u64 (cd_BlockHeight d), enc_HexInt (cd_IScore d)]"

definition dec_ClaimData :: "ClaimData \<Rightarrow> obj \<Rightarrow> error + ClaimData" where
  "dec_ClaimData old ob =
     bindE (dec_arr ob) (\<lambda>xs.
     bindE (fld xs 0 dec_u64 0 (cd_BlockHeight old)) (\<lambda>b.
     bindE (fld xs 1 dec_HexInt 0 (cd_IScore old)) (\<lambda>i.
     Inr \<lparr>cd_BlockHeight = b, cd_IScore = i\<rparr>)))"

definition Claim_Bytes :: "Claim \<Rightarrow> obj" where
  "Claim_Bytes c = enc_ClaimData (cl_Data c)"

definition Claim_SetBytes :: "Claim \<Rightarrow> obj \<Rightarrow> error + Claim" where
  "Claim_SetBytes c bs = bindE (dec_ClaimData (cl_Data c) bs) (\<lambda>d. Inr (c\<lparr>cl_Data := d\<rparr>))"

definition NewClaimFromBytes :: "obj \<Rightarrow> error + Claim" where
  "NewClaimFromBytes bs = Claim_SetBytes zero_Claim bs"

record ClaimBackupInfo =
  FirstBlockHeight :: u64
  LastBlockHeight :: u64

definition zero_ClaimBackupInfo :: ClaimBackupInfo where
  "zero_ClaimBackupInfo = \<lparr>FirstBlockHeight = 0, LastBlockHeight = 0\<rparr>"

definition ClaimBackupInfo_ID :: bytes where "ClaimBackupInfo_ID = []"

definition ClaimBackupInfo_Bytes :: "ClaimBackupInfo \<Rightarrow> obj" where
  "ClaimBackupInfo_Bytes cb = OArr [enc_u64 (FirstBlockHeight cb), enc_u64 (LastBlockHeight cb)]"

definition ClaimBackupInfo_SetBytes :: "ClaimBackupInfo \<Rightarrow> obj \<Rightarrow> error + ClaimBackupInfo" where
  "ClaimBackupInfo_SetBytes cb ob =
     bindE (dec_arr ob) (\<lambda>xs.
     bindE (fld xs 0 dec_u64 0 (FirstBlockHeight cb)) (\<lambda>f.
     bindE (fld xs 1 dec_u64 0 (LastBlockHeight cb)) (\<lambda>l.
     Inr \<lparr>FirstBlockHeight = f, LastBlockHeight = l\<rparr>)))"

record PreCommit =
  pcm_BlockHeight :: u64
  pcm_BlockHash :: bytes
  pcm_Confirmed :: bool
  pcm_TXIndex :: u64
  pcm_TXHash :: bytes
  pcm_Claim :: Claim

definition zero_PreCommit :: PreCommit where
  "zero_PreCommit =
     \<lparr>pcm_BlockHeight = 0, pcm_BlockHash = [], pcm_Confirmed = False, pcm_TXIndex = 0,
      pcm_TXHash = [], pcm_Claim = zero_Claim\<rparr>"

definition GenPreCommitKey :: "address \<Rightarrow> u64 \<Rightarrow> bytes \<Rightarrow> bytes" where
  "GenPreCommitKey addr blockHeight blockHash =
     (let bh = Uint64ToBytes blockHeight;
          i0 = replicate PreCommitIDSize 0;
          i1 = copy_at i0 (BlockHeightSize - length bh) bh;
          i2 = copy_at i1 BlockHeightSize blockHash
      in copy_at i2 (BlockHeightSize + BlockHashSize) (Address_Bytes addr))"

definition PreCommit_ID :: "PreCommit \<Rightarrow> bytes" where
  "PreCommit_ID pc = GenPreCommitKey (cl_Address (pcm_Claim pc)) (pcm_BlockHeight pc) (pcm_BlockHash pc)"

text \<open>The key slices of \<^verbatim>\<open>SetID\<close>; a refused address leaves the old one.\<close>

definition PreCommit_SetID :: "PreCommit \<Rightarrow> bytes \<Rightarrow> PreCommit" where
  "PreCommit_SetID pc key =
     (let old = cl_Address (pcm_Claim pc);
          a = (case SetBytes old (Some (drop (BlockHeightSize + BlockHashSize) key)) of
                 Some (Inr a) \<Rightarrow> a | _ \<Rightarrow> old)
      in pc\<lparr>pcm_BlockHeight := BytesToUint64 (take BlockHeightSize key),
            pcm_BlockHash := take BlockHashSize (drop BlockHeightSize key),
            pcm_Claim := (pcm_Claim pc)\<lparr>cl_Address := a\<rparr>\<rparr>)"

definition PreCommit_Bytes :: "PreCommit \<Rightarrow> obj" where
  "PreCommit_Bytes pc =
     OArr [OBool (pcm_Confirmed pc), enc_u64 (pcm_TXIndex pc), OBytes (pcm_TXHash pc),
           enc_Address (cl_Address (pcm_Claim pc)), enc_ClaimData (cl_Data (pcm_Claim pc))]"

definition PreCommit_SetBytes :: "PreCommit \<Rightarrow> obj \<Rightarrow> error + PreCommit" where
  "PreCommit_SetBytes pc ob =
     bindE (dec_arr ob) (\<lambda>xs.
     bindE (fld xs 0 dec_bool False (pcm_Confirmed pc)) (\<lambda>c.
     bindE (fld xs 1 dec_u64 0 (pcm_TXIndex pc)) (\<lambda>t.
     bindE (fld xs 2 dec_bytes [] (pcm_TXHash pc)) (\<lambda>h.
     bindE (fld xs 3 (dec_Address (cl_Address (pcm_Claim pc))) zero_address (cl_Address (pcm_Claim pc))) (\<lambda>a.
     bindE (fld xs 4 (dec_ClaimData (cl_Data (pcm_Claim pc))) (cl_Data zero_Claim) (cl_Data (pcm_Claim pc))) (\<lambda>d.
     Inr (pc\<lparr>pcm_Confirmed := c, pcm_TXIndex := t, pcm_TXHash := h,
             pcm_Claim := \<lparr>cl_Address = a, cl_Data = d\<rparr>\<rparr>)))))))"

definition PreCommit_IsEmpty :: "PreCommit \<Rightarrow> bool" where
  "PreCommit_IsEmpty pc \<longleftrightarrow> pcm_BlockHeight pc = 0"

definition newPreCommit :: "u64 \<Rightarrow> bytes \<Rightarrow> u64 \<Rightarrow> bytes \<Rightarrow> address \<Rightarrow> PreCommit" where
  "newPreCommit blockHeight blockHash txIndex txHash addr =
     zero_PreCommit\<lparr>pcm_BlockHeight := blockHeight,
       pcm_BlockHash := copy_at (replicate BlockHashSize 0) 0 blockHash,
       pcm_TXIndex := txIndex,
       pcm_TXHash := copy_at (replicate TXHashSize 0) 0 txHash,
       pcm_Claim := zero_Claim\<lparr>cl_Address := addr\<rparr>\<rparr>"

section \<open>Pre-commit operations\<close>

text \<open>The error of \<^verbatim>\<open>SetBytes\<close> is dropped: the entry still counts as found.\<close>

definition PreCommit_query :: "PreCommit \<Rightarrow> obj kv \<Rightarrow> bool \<times> PreCommit" where
  "PreCommit_query pc pcDB =
     (case Bucket_Get pcDB PrefixClaim (PreCommit_ID pc) of
        Some bs \<Rightarrow> (True, (case PreCommit_SetBytes pc bs of Inl _ \<Rightarrow> pc | Inr p \<Rightarrow> p))
      | None \<Rightarrow> (False, pc))"

definition PreCommit_write :: "PreCommit \<Rightarrow> obj kv \<Rightarrow> int option \<Rightarrow> obj kv" where
  "PreCommit_write pc pcDB iScore =
     (let pc' = (case iScore of
                   None \<Rightarrow> pc
                 | Some i \<Rightarrow> pc\<lparr>pcm_Claim := (pcm_Claim pc)
                     \<lparr>cl_Data := \<lparr>cd_BlockHeight = pcm_BlockHeight pc, cd_IScore = i\<rparr>\<rparr>\<rparr>)
      in Bucket_Set pcDB PrefixClaim (PreCommit_ID pc') (PreCommit_Bytes pc'))"

definition PreCommit_delete :: "PreCommit \<Rightarrow> obj kv \<Rightarrow> obj kv" where
  "PreCommit_delete pc pcDB = Bucket_Delete pcDB PrefixClaim (PreCommit_ID pc)"

definition PreCommit_commit :: "PreCommit \<Rightarrow> obj kv \<Rightarrow> error + obj kv" where
  "PreCommit_commit pc pcDB =
     (let txIndex = pcm_TXIndex pc in
      case PreCommit_query pc pcDB of
        (False, _) \<Rightarrow> Inl ErrNoData
      | (True, pc') \<Rightarrow>
          if txIndex = pcm_TXIndex pc' then
            (if pcm_Confirmed pc' then Inr pcDB
             else Inr (PreCommit_write (pc'\<lparr>pcm_Confirmed := True\<rparr>) pcDB None))
          else Inr pcDB)"

definition PreCommit_revert :: "PreCommit \<Rightarrow> obj kv \<Rightarrow> error + obj kv" where
  "PreCommit_revert pc pcDB =
     (let txIndex = pcm_TXIndex pc in
      case PreCommit_query pc pcDB of
        (False, _) \<Rightarrow> Inl ErrNoData
      | (True, pc') \<Rightarrow>
          if txIndex = pcm_TXIndex pc' then
            (if pcm_Confirmed pc' then Inr pcDB else Inr (PreCommit_delete pc' pcDB))
          else Inr pcDB)"

definition MakeIteratorPrefix ::
    "bucket_id \<Rightarrow> u64 \<Rightarrow> bytes option \<Rightarrow> nat \<Rightarrow> bytes \<times> bytes option" where
  "MakeIteratorPrefix pfx blockHeight data dataSize =
     (let bsSize = length pfx + BlockHeightSize + (case data of None \<Rightarrow> 0 | Some _ \<Rightarrow> dataSize);
          bh = Uint64ToBytes blockHeight;
          b1 = copy_at (replicate bsSize 0) 0 pfx;
          b2 = copy_at b1 (length pfx + BlockHeightSize - length bh) bh;
          b3 = (case data of None \<Rightarrow> b2 | Some d \<Rightarrow> copy_at b2 (bsSize - dataSize) d)
      in BytesPrefix b3)"

definition deletePreCommit :: "obj kv \<Rightarrow> bytes \<Rightarrow> bytes option \<Rightarrow> obj kv" where
  "deletePreCommit pcDB start limit =
     fold (\<lambda>key db. Bucket_Delete db PrefixClaim key)
       (map (\<lambda>(k, _). copy_at (replicate PreCommitIDSize 0) 0 (drop (length PrefixClaim) k))
          (Iterator_New pcDB (Some start) limit))
       pcDB"

definition flushPreCommit :: "obj kv \<Rightarrow> u64 \<Rightarrow> bytes option \<Rightarrow> obj kv" where
  "flushPreCommit pcDB blockHeight blockHash =
     (case MakeIteratorPrefix PrefixClaim blockHeight blockHash BlockHashSize of
        (s, l) \<Rightarrow> deletePreCommit pcDB s l)"

definition initPreCommit :: "obj kv \<Rightarrow> u64 \<Rightarrow> obj kv" where
  "initPreCommit pcDB blockHeight =
     (case MakeIteratorPrefix PrefixClaim (blockHeight + 1) None BlockHashSize of
        (s, _) \<Rightarrow> deletePreCommit pcDB s None)"

definition findPreCommit :: "obj kv \<Rightarrow> address \<Rightarrow> u64 \<Rightarrow> bytes \<Rightarrow> PreCommit option" where
  "findPreCommit pcDB addr blockHeight blockHash =
     (let key = GenPreCommitKey addr blockHeight blockHash in
      case Bucket_Get pcDB PrefixClaim key of
        None \<Rightarrow> None
      | Some v \<Rightarrow>
          (case PreCommit_SetBytes zero_PreCommit v of
             Inl _ \<Rightarrow> None
           | Inr pc \<Rightarrow> Some (PreCommit_SetID pc key)))"

section \<open>Committing a block\<close>

text \<open>
  The loop over the pre-commit entries of the block: \<open>None\<close> is the nil dereference of a
  claim entry that does not decode, the error is the one that ends the loop.
\<close>

fun writePreCommit_loop ::
    "u64 \<Rightarrow> PreCommit \<Rightarrow> (bytes \<times> obj) list \<Rightarrow> obj kv \<Rightarrow> obj kv \<Rightarrow> (error option \<times> obj kv \<times> obj kv) option" where
  "writePreCommit_loop blockHeight pc [] claimDB cbDB = Some (None, claimDB, cbDB)"
| "writePreCommit_loop blockHeight pc ((k, v) # es) claimDB cbDB =
     (case PreCommit_SetBytes pc v of
        Inl e \<Rightarrow> Some (Some e, claimDB, cbDB)
      | Inr pc' \<Rightarrow>
          (let claim = pcm_Claim pc' in
           if \<not> pcm_Confirmed pc' \<or> cd_IScore (cl_Data claim) = 0 then
             writePreCommit_loop blockHeight pc' es claimDB cbDB
           else case Bucket_Get claimDB PrefixIScore (Claim_ID claim) of
             None \<Rightarrow>
               writePreCommit_loop blockHeight pc' es
                 (Bucket_Set claimDB PrefixIScore (Claim_ID claim) (Claim_Bytes claim))
                 (Bucket_Set cbDB PrefixIScore (Claim_BackupID claim (blockHeight - 1)) (Claim_Bytes zero_Claim))
           | Some bs \<Rightarrow>
               (case NewClaimFromBytes bs of
                  Inl _ \<Rightarrow> None
                | Inr oldClaim \<Rightarrow>
                    if cd_BlockHeight (cl_Data claim) \<le> cd_BlockHeight (cl_Data oldClaim) then
                      writePreCommit_loop blockHeight pc' es claimDB cbDB
                    else
                      (let claim' = claim\<lparr>cl_Data := (cl_Data claim)
                             \<lparr>cd_IScore := cd_IScore (cl_Data claim) + cd_IScore (cl_Data oldClaim)\<rparr>\<rparr>
                       in writePreCommit_loop blockHeight pc' es
                            (Bucket_Set claimDB PrefixIScore (Claim_ID claim') (Claim_Bytes claim'))
                            (Bucket_Set cbDB PrefixIScore (Claim_BackupID claim' (blockHeight - 1)) bs)))))"

text \<open>
  The keys of the blocks \<open>from\<close> to \<open>to\<close>. The unsigned counter of the loop would wrap
  at the largest height, which the caller never passes.
\<close>

definition garbageCollectClaimBackupDB :: "obj kv \<Rightarrow> u64 \<Rightarrow> u64 \<Rightarrow> obj kv" where
  "garbageCollectClaimBackupDB cbDB from to =
     fold (\<lambda>key db. Bucket_Delete db PrefixClaim key)
       (concat (map (\<lambda>h. map (\<lambda>(k, _). copy_at (replicate ClaimBackupIDSize 0) 0 (drop (length PrefixClaim) k))
            (case MakeIteratorPrefix PrefixClaim (of_nat h) None 0 of (s, l) \<Rightarrow> Iterator_New cbDB (Some s) l))
          [unat from..<Suc (unat to)]))
       cbDB"

definition writeClaimBackupInfo :: "obj kv \<Rightarrow> u64 \<Rightarrow> error + obj kv" where
  "writeClaimBackupInfo cbDB blockHeight =
     bindE (case Bucket_Get cbDB PrefixManagement ClaimBackupInfo_ID of
              None \<Rightarrow> Inr zero_ClaimBackupInfo
            | Some bs \<Rightarrow> ClaimBackupInfo_SetBytes zero_ClaimBackupInfo bs) (\<lambda>i0.
     let i1 = (if FirstBlockHeight i0 = 0 then i0\<lparr>FirstBlockHeight := blockHeight\<rparr> else i0);
         i2 = (if LastBlockHeight i1 = 0 then i1\<lparr>LastBlockHeight := blockHeight\<rparr> else i1);
         gc = blockHeight > ClaimBackupPeriod + FirstBlockHeight i2;
         garbageBlock = blockHeight - ClaimBackupPeriod - 1;
         cbDB' = (if gc then garbageCollectClaimBackupDB cbDB (FirstBlockHeight i2) garbageBlock else cbDB);
         i3 = (if gc \<and> FirstBlockHeight i2 < garbageBlock + 1 then i2\<lparr>FirstBlockHeight := garbageBlock + 1\<rparr> else i2);
         i4 = (if LastBlockHeight i3 < blockHeight then i3\<lparr>LastBlockHeight := blockHeight\<rparr> else i3)
     in Inr (Bucket_Set cbDB' PrefixManagement ClaimBackupInfo_ID (ClaimBackupInfo_Bytes i4)))"

record claim_dbs =
  preCommit_db :: "obj kv"
  claim_db :: "obj kv"
  claimBackup_db :: "obj kv"

definition writePreCommitToClaimDB :: "claim_dbs \<Rightarrow> u64 \<Rightarrow> bytes option \<Rightarrow> (error option \<times> claim_dbs) option" where
  "writePreCommitToClaimDB dbs blockHeight blockHash =
     (case MakeIteratorPrefix PrefixClaim blockHeight blockHash BlockHashSize of (s, l) \<Rightarrow>
      case writePreCommit_loop blockHeight zero_PreCommit (Iterator_New (preCommit_db dbs) (Some s) l)
             (claim_db dbs) (claimBackup_db dbs) of
        None \<Rightarrow> None
      | Some (Some e, c, cb) \<Rightarrow> Some (Some e, dbs\<lparr>claim_db := c, claimBackup_db := cb\<rparr>)
      | Some (None, c, cb) \<Rightarrow>
          (case writeClaimBackupInfo cb blockHeight of
             Inl e \<Rightarrow> Some (Some e, dbs\<lparr>claim_db := c, claimBackup_db := cb\<rparr>)
           | Inr cb' \<Rightarrow>
               Some (None, dbs\<lparr>claim_db := c, claimBackup_db := cb',
                 preCommit_db := flushPreCommit (preCommit_db dbs) blockHeight None\<rparr>)))"

section \<open>Rolling the claim database back\<close>

definition checkClaimDBRollback :: "ClaimBackupInfo \<Rightarrow> u64 \<Rightarrow> bool \<times> error option" where
  "checkClaimDBRollback cbInfo rollback =
     (if FirstBlockHeight cbInfo > rollback then
        (False, Some (ErrLowBlockHeight (FirstBlockHeight cbInfo) rollback))
      else if LastBlockHeight cbInfo \<le> rollback then (False, None)
      else (True, None))"

text \<open>
  One height: every backup entry is written back, an empty one deletes. The decoder's error
  is dropped, so the variable \<open>claim\<close> then keeps the value of the entry before.
\<close>

fun rollbackClaim_entries :: "Claim \<Rightarrow> (bytes \<times> obj) list \<Rightarrow> obj kv \<Rightarrow> obj kv" where
  "rollbackClaim_entries claim [] cDB = cDB"
| "rollbackClaim_entries claim ((k, v) # es) cDB =
     (let claim' = (case Claim_SetBytes claim v of Inl _ \<Rightarrow> claim | Inr c \<Rightarrow> c);
          key = drop (length PrefixClaim + BlockHeightSize) k;
          cDB' = (if cd_BlockHeight (cl_Data claim') = 0 \<and> cd_IScore (cl_Data claim') = 0
                  then Bucket_Delete cDB PrefixClaim key
                  else Bucket_Set cDB PrefixClaim key v)
      in rollbackClaim_entries claim' es cDB')"

definition rollbackClaimDB_at :: "u64 \<Rightarrow> obj kv \<times> obj kv \<Rightarrow> obj kv \<times> obj kv" where
  "rollbackClaimDB_at blockHeight dbs =
     (case dbs of (cbDB, cDB) \<Rightarrow>
      let es = (case MakeIteratorPrefix PrefixClaim blockHeight None 0 of (s, l) \<Rightarrow> Iterator_New cbDB (Some s) l)
      in (fold (\<lambda>key db. Bucket_Delete db PrefixClaim key)
            (map (\<lambda>(k, _). copy_at (replicate ClaimBackupIDSize 0) 0 (drop (length PrefixClaim) k)) es) cbDB,
          rollbackClaim_entries zero_Claim es cDB))"

definition rollback_heights :: "u64 \<Rightarrow> u64 \<Rightarrow> u64 list" where
  "rollback_heights from to = rev (map of_nat [unat to..<Suc (unat from)])"

text \<open>
  \<^verbatim>\<open>rollbackClaimDB\<close> up to the update of the current block information, which is in
  the theory of \<^verbatim>\<open>context.go\<close>. Its result is whether the databases were rolled back.
  For height 0 the unsigned loop variable never drops below the bound and the loop does
  not end (\<open>None\<close>).
\<close>

definition rollbackClaimDB_core :: "claim_dbs \<Rightarrow> u64 \<Rightarrow> (error + bool \<times> claim_dbs) option" where
  "rollbackClaimDB_core dbs to =
     (let cbInfo = (case Bucket_Get (claimBackup_db dbs) PrefixManagement ClaimBackupInfo_ID of
                      None \<Rightarrow> zero_ClaimBackupInfo
                    | Some bs \<Rightarrow> (case ClaimBackupInfo_SetBytes zero_ClaimBackupInfo bs of
                                   Inl _ \<Rightarrow> zero_ClaimBackupInfo | Inr i \<Rightarrow> i))
      in case checkClaimDBRollback cbInfo to of
           (False, Some e) \<Rightarrow> Some (Inl e)
         | (False, None) \<Rightarrow> Some (Inr (False, dbs))
         | (True, _) \<Rightarrow>
             if to = 0 then None
             else
               (case fold rollbackClaimDB_at (rollback_heights (LastBlockHeight cbInfo) to)
                       (claimBackup_db dbs, claim_db dbs) of
                  (cb, c) \<Rightarrow>
                    Some (Inr (True, dbs\<lparr>claim_db := c,
                      claimBackup_db := Bucket_Set cb PrefixManagement ClaimBackupInfo_ID
                        (ClaimBackupInfo_Bytes (cbInfo\<lparr>LastBlockHeight := to\<rparr>))\<rparr>))))"

end
