(* ===== verification/IissData.thy ===== *)
theory IissData
  imports Management
begin

text \<open>
  \<^verbatim>\<open>core/db_iissdata.go\<close>: the database a CALCULATE request points to. It holds a
  header, the governance variables, block producers, P-Rep lists and transactions of one
  term, each under its own key prefix; version 1 of the format has shorter records.
\<close>

section \<open>Header\<close>

definition IISSDataVersion :: u64 where "IISSDataVersion = 2"
definition IISSDataRevisionDefault :: u64 where "IISSDataRevisionDefault = 0"

record IISSHeader =
  ih_Version :: u64
  ih_BlockHeight :: u64
  ih_Revision :: u64

definition zero_IISSHeader :: IISSHeader where
  "zero_IISSHeader = \<lparr>ih_Version = 0, ih_BlockHeight = 0, ih_Revision = 0\<rparr>"

definition IISSHeader_Bytes :: "IISSHeader \<Rightarrow> obj" where
  "IISSHeader_Bytes ih =
     OArr [enc_u64 (ih_Version ih), enc_u64 (ih_BlockHeight ih), enc_u64 (ih_Revision ih)]"

definition IISSHeader_SetBytes :: "IISSHeader \<Rightarrow> obj \<Rightarrow> error + IISSHeader" where
  "IISSHeader_SetBytes ih ob =
     bindE (dec_arr ob) (\<lambda>xs.
     bindE (fld xs 0 dec_u64 0 (ih_Version ih)) (\<lambda>v.
     bindE (fld xs 1 dec_u64 0 (ih_BlockHeight ih)) (\<lambda>b.
     bindE (fld xs 2 dec_u64 0 (ih_Revision ih)) (\<lambda>r.
     Inr \<lparr>ih_Version = v, ih_BlockHeight = b,
          ih_Revision = (if v = 1 then IISSDataRevisionDefault else r)\<rparr>))))"

definition loadIISSHeader :: "obj kv \<Rightarrow> error + IISSHeader" where
  "loadIISSHeader iissDB =
     (case Bucket_Get iissDB PrefixIISSHeader [] of
        None \<Rightarrow> Inl ErrNoData
      | Some data \<Rightarrow> IISSHeader_SetBytes zero_IISSHeader data)"

section \<open>Governance variables of the IISS data\<close>

record IISSGovernanceVariable =
  igv_BlockHeight :: u64
  igv_IncentiveRep :: u64
  igv_RewardRep :: u64
  igv_MainPRepCount :: u64
  igv_SubPRepCount :: u64

definition zero_IISSGV :: IISSGovernanceVariable where
  "zero_IISSGV =
     \<lparr>igv_BlockHeight = 0, igv_IncentiveRep = 0, igv_RewardRep = 0, igv_MainPRepCount = 0,
      igv_SubPRepCount = 0\<rparr>"

definition IISSGV_ID :: "IISSGovernanceVariable \<Rightarrow> bytes" where
  "IISSGV_ID gv = bh_key (igv_BlockHeight gv)"

definition IISSGV_Bytes :: "IISSGovernanceVariable \<Rightarrow> obj" where
  "IISSGV_Bytes gv =
     OArr [enc_u64 (igv_IncentiveRep gv), enc_u64 (igv_RewardRep gv),
           enc_u64 (igv_MainPRepCount gv), enc_u64 (igv_SubPRepCount gv)]"

definition IISSGV_SetBytes ::
    "IISSGovernanceVariable \<Rightarrow> obj \<Rightarrow> u64 \<Rightarrow> error + IISSGovernanceVariable" where
  "IISSGV_SetBytes gv ob version =
     bindE (dec_arr ob) (\<lambda>xs.
     bindE (fld xs 0 dec_u64 0 (igv_IncentiveRep gv)) (\<lambda>i.
     bindE (fld xs 1 dec_u64 0 (igv_RewardRep gv)) (\<lambda>r.
     bindE (fld xs 2 dec_u64 0 (igv_MainPRepCount gv)) (\<lambda>m.
     bindE (fld xs 3 dec_u64 0 (igv_SubPRepCount gv)) (\<lambda>s.
     Inr (gv\<lparr>igv_IncentiveRep := i, igv_RewardRep := r,
             igv_MainPRepCount := (if version = 1 then 0 else m),
             igv_SubPRepCount := (if version = 1 then 0 else s)\<rparr>))))))"

definition loadIISSGovernanceVariable :: "obj kv \<Rightarrow> u64 \<Rightarrow> error + IISSGovernanceVariable list" where
  "loadIISSGovernanceVariable iissDB version =
     mapE (\<lambda>(k, v). bindE (IISSGV_SetBytes zero_IISSGV v version) (\<lambda>gv.
        Inr (gv\<lparr>igv_BlockHeight := BytesToUint64 (drop (length PrefixIISSGV) k)\<rparr>)))
      (Iterator_prefix iissDB PrefixIISSGV)"

definition NewGVFromIISS :: "IISSGovernanceVariable \<Rightarrow> GovernanceVariable" where
  "NewGVFromIISS iiss =
     setReward (zero_GV\<lparr>gv_BlockHeight := igv_BlockHeight iiss,
       gv_MainPRepCount := uint (igv_MainPRepCount iiss),
       gv_SubPRepCount := uint (igv_SubPRepCount iiss),
       gv_CalculatedIncentiveRep := uint (igv_IncentiveRep iiss),
       gv_RewardRep := uint (igv_RewardRep iiss)\<rparr>)"

section \<open>Block producers\<close>

record IISSBlockProduceInfo =
  bp_BlockHeight :: u64
  bp_Generator :: address
  bp_Validator :: "address list"

definition zero_BP :: IISSBlockProduceInfo where
  "zero_BP = \<lparr>bp_BlockHeight = 0, bp_Generator = zero_address, bp_Validator = []\<rparr>"

definition BP_ID :: "IISSBlockProduceInfo \<Rightarrow> bytes" where
  "BP_ID bp = bh_key (bp_BlockHeight bp)"

definition BP_Bytes :: "IISSBlockProduceInfo \<Rightarrow> obj" where
  "BP_Bytes bp = OArr [enc_Address (bp_Generator bp), OArr (map enc_Address (bp_Validator bp))]"

text \<open>
  The decoders give the error alone: the loops over entries keep the record of the entry before.
  What the library had set before it failed would only show where the next entry's array is too
  short.
\<close>

definition BP_SetBytes :: "IISSBlockProduceInfo \<Rightarrow> obj \<Rightarrow> error + IISSBlockProduceInfo" where
  "BP_SetBytes bp ob =
     bindE (dec_arr ob) (\<lambda>xs.
     bindE (fld xs 0 (dec_Address (bp_Generator bp)) zero_address (bp_Generator bp)) (\<lambda>g.
     bindE (fld xs 1 (\<lambda>l. bindE (dec_arr l) (mapE (dec_Address zero_address))) [] (bp_Validator bp)) (\<lambda>vs.
     Inr (bp\<lparr>bp_Generator := g, bp_Validator := vs\<rparr>))))"

section \<open>Transactions\<close>

definition TXDataTypeDelegate :: u64 where "TXDataTypeDelegate = 0"
definition TXDataTypePrepReg :: u64 where "TXDataTypePrepReg = 1"
definition TXDataTypePrepUnReg :: u64 where "TXDataTypePrepUnReg = 2"

record IISSTX =
  tx_Index :: u64
  tx_Address :: address
  tx_BlockHeight :: u64
  tx_DataType :: u64
  tx_Data :: "typed_obj option"

definition zero_IISSTX :: IISSTX where
  "zero_IISSTX =
     \<lparr>tx_Index = 0, tx_Address = zero_address, tx_BlockHeight = 0, tx_DataType = 0, tx_Data = None\<rparr>"

definition IISSTX_ID :: "IISSTX \<Rightarrow> bytes" where
  "IISSTX_ID tx = bh_key (tx_Index tx)"

definition IISSTX_Bytes :: "IISSTX \<Rightarrow> obj" where
  "IISSTX_Bytes tx =
     OArr [enc_Address (tx_Address tx), enc_u64 (tx_BlockHeight tx), enc_u64 (tx_DataType tx),
           (case tx_Data tx of None \<Rightarrow> ONil | Some t \<Rightarrow> enc_typed t)]"

definition IISSTX_SetBytes :: "IISSTX \<Rightarrow> obj \<Rightarrow> error + IISSTX" where
  "IISSTX_SetBytes tx ob =
     bindE (dec_arr ob) (\<lambda>xs.
     bindE (fld xs 0 (dec_Address (tx_Address tx)) zero_address (tx_Address tx)) (\<lambda>a.
     bindE (fld xs 1 dec_u64 0 (tx_BlockHeight tx)) (\<lambda>b.
     bindE (fld xs 2 dec_u64 0 (tx_DataType tx)) (\<lambda>d.
     bindE (fld xs 3 (\<lambda>t. bindE (dec_typed t) (\<lambda>x. Inr (Some x))) None (tx_Data tx)) (\<lambda>t.
     Inr (tx\<lparr>tx_Address := a, tx_BlockHeight := b, tx_DataType := d, tx_Data := t\<rparr>))))))"

section \<open>Loading the data of one term\<close>

definition LoadIISSData ::
    "obj kv \<Rightarrow> (IISSHeader \<times> IISSGovernanceVariable list \<times> PRep list) option" where
  "LoadIISSData iissDB =
     (case loadIISSHeader iissDB of
        Inl _ \<Rightarrow> None
      | Inr header \<Rightarrow>
          (case loadIISSGovernanceVariable iissDB (ih_Version header) of
             Inl _ \<Rightarrow> None
           | Inr gvList \<Rightarrow> Some (header, gvList, LoadPRep iissDB)))"

section \<open>Writing IISS data\<close>

definition WriteIISSHeader :: "obj kv \<Rightarrow> u64 \<Rightarrow> u64 \<Rightarrow> u64 \<Rightarrow> obj kv" where
  "WriteIISSHeader iiss version blockHeight revision =
     Bucket_Set iiss PrefixIISSHeader []
       (IISSHeader_Bytes \<lparr>ih_Version = version, ih_BlockHeight = blockHeight, ih_Revision = revision\<rparr>)"

definition WriteIISSGV :: "obj kv \<Rightarrow> u64 \<Rightarrow> u64 \<Rightarrow> u64 \<Rightarrow> u64 \<Rightarrow> u64 \<Rightarrow> obj kv" where
  "WriteIISSGV iiss blockHeight incentive reward mainPRepCount subPRepCount =
     (let gv = \<lparr>igv_BlockHeight = blockHeight, igv_IncentiveRep = incentive, igv_RewardRep = reward,
                igv_MainPRepCount = mainPRepCount, igv_SubPRepCount = subPRepCount\<rparr>
      in Bucket_Set iiss PrefixIISSGV (IISSGV_ID gv) (IISSGV_Bytes gv))"

text \<open>\<^verbatim>\<open>NewAddressFromString\<close> panics on a string that does not parse (None).\<close>

definition WriteIISSBP ::
    "obj kv \<Rightarrow> u64 \<Rightarrow> string \<Rightarrow> string list \<Rightarrow> (error + obj kv) option" where
  "WriteIISSBP iiss blockHeight generator validator =
     (if generator = [] \<or> validator = [] then Some (Inl ErrIllegalArgument)
      else case (NewAddressFromString generator, those (map NewAddressFromString validator)) of
        (Some g, Some vs) \<Rightarrow>
          (let bp = \<lparr>bp_BlockHeight = blockHeight, bp_Generator = g, bp_Validator = vs\<rparr>
           in Some (Inr (Bucket_Set iiss PrefixIISSBPInfo (BP_ID bp) (BP_Bytes bp))))
      | _ \<Rightarrow> None)"

definition WriteIISSPRep :: "obj kv \<Rightarrow> u64 \<Rightarrow> u64 \<Rightarrow> PRepDelegationInfo list \<Rightarrow> error + obj kv" where
  "WriteIISSPRep iiss blockHeight totalDelegation preps =
     (if preps = [] then Inl ErrIllegalArgument
      else
        (let prep = \<lparr>pr_BlockHeight = blockHeight, pr_TotalDelegation = uint totalDelegation, pr_List = preps\<rparr>
         in Inr (Bucket_Set iiss PrefixIISSPRep (PRep_ID prep) (PRep_Bytes prep))))"

text \<open>
  The delegation list of a transaction. A registration carries an empty byte string as its object.
  \<^verbatim>\<open>dgData\<close> is declared before the loop and appended to in it, so the entry of a delegation also holds the pairs of the delegations
  before it.
\<close>

fun WriteIISSTX_delegation :: "go_any list \<Rightarrow> PRepDelegationInfo list \<Rightarrow> go_any list" where
  "WriteIISSTX_delegation dgData [] = []"
| "WriteIISSTX_delegation dgData (dg # dgs) =
     (let dgData' = dgData @ [GAddress (di_Address dg), GUint64 (big_uint64 (di_DelegatedAmount dg))]
      in GList dgData' # WriteIISSTX_delegation dgData' dgs)"

definition WriteIISSTX ::
    "obj kv \<Rightarrow> u64 \<Rightarrow> string \<Rightarrow> u64 \<Rightarrow> u64 \<Rightarrow> PRepDelegationInfo list \<Rightarrow> (error + obj kv) option" where
  "WriteIISSTX iiss index addr blockHeight dataType delegations =
     (case NewAddressFromString addr of
        None \<Rightarrow> None
      | Some a \<Rightarrow> Some
          (bindE
            (if dataType = TXDataTypeDelegate then EncodeAny (GList (WriteIISSTX_delegation [] delegations))
             else Inr TNil)
            (\<lambda>data.
              let tx = \<lparr>tx_Index = index, tx_Address = a, tx_BlockHeight = blockHeight,
                        tx_DataType = dataType, tx_Data = Some data\<rparr>;
                  bs = (if dataType = TXDataTypePrepReg \<or> dataType = TXDataTypePrepUnReg
                           then OArr [enc_Address a, enc_u64 blockHeight, enc_u64 dataType, OArr [OInt 0, OBytes []]]
                           else IISSTX_Bytes tx)
              in Inr (Bucket_Set iiss PrefixIISSTX (IISSTX_ID tx) bs))))"

text \<open>The empty object of a registration reads back as the nil object.\<close>

lemma registration_reads_back:
  assumes "address_ok a" "d = TXDataTypePrepReg \<or> d = TXDataTypePrepUnReg"
  shows "IISSTX_SetBytes zero_IISSTX (OArr [enc_Address a, enc_u64 h, enc_u64 d, OArr [OInt 0, OBytes []]]) =
    Inr (zero_IISSTX\<lparr>tx_Address := a, tx_BlockHeight := h, tx_DataType := d, tx_Data := Some TNil\<rparr>)"
  using assms(1) by (simp add: IISSTX_SetBytes_def zero_IISSTX_def zero_address_def)

end
