(* ===== verification/Account.thy ===== *)
theory Account
  imports IissData
begin

text \<open>
  \<^verbatim>\<open>core/db_account.go\<close>: the account entries of the query and calculate databases: the
  I-Score earned up to a block height and the delegations in force. A delegation is a
  pointer in the code, so it may be nil.
\<close>

record DelegateData =
  dg_Address :: address
  dg_Delegate :: int

record IScoreAccount =
  ia_Address :: address
  ia_IScore :: int
  ia_BlockHeight :: u64
  ia_Delegations :: "DelegateData option list"

definition zero_IScoreAccount :: IScoreAccount where
  "zero_IScoreAccount =
     \<lparr>ia_Address = zero_address, ia_IScore = 0, ia_BlockHeight = 0, ia_Delegations = []\<rparr>"

definition IScoreAccount_ID :: "IScoreAccount \<Rightarrow> bytes" where
  "IScoreAccount_ID ia = Address_Bytes (ia_Address ia)"

definition enc_DelegateData :: "DelegateData option \<Rightarrow> obj" where
  "enc_DelegateData d =
     (case d of None \<Rightarrow> ONil | Some d \<Rightarrow> OArr [enc_Address (dg_Address d), enc_HexInt (dg_Delegate d)])"

definition dec_DelegateData :: "obj \<Rightarrow> error + DelegateData option" where
  "dec_DelegateData ob =
     (if ob = ONil then Inr None
      else
        bindE (dec_arr ob) (\<lambda>xs.
        bindE (fld xs 0 (dec_Address zero_address) zero_address zero_address) (\<lambda>a.
        bindE (fld xs 1 dec_HexInt 0 0) (\<lambda>d.
        Inr (Some \<lparr>dg_Address = a, dg_Delegate = d\<rparr>)))))"

definition IScoreAccount_Bytes :: "IScoreAccount \<Rightarrow> obj" where
  "IScoreAccount_Bytes ia =
     OArr [enc_HexInt (ia_IScore ia), enc_u64 (ia_BlockHeight ia),
           OArr (map enc_DelegateData (ia_Delegations ia))]"

definition BytesForHash :: "IScoreAccount \<Rightarrow> bytes" where
  "BytesForHash ia =
     (let addr = IScoreAccount_ID ia; iScore = BigIntToBytes (ia_IScore ia);
          blockHeight = Uint64ToBytes (ia_BlockHeight ia);
          buf = replicate (length addr + length iScore + length blockHeight) 0
      in copy_at (copy_at (copy_at buf 0 addr) (length addr) iScore)
           (length addr + length iScore) blockHeight)"

definition IScoreAccount_SetBytes :: "IScoreAccount \<Rightarrow> obj \<Rightarrow> error + IScoreAccount" where
  "IScoreAccount_SetBytes ia ob =
     bindE (dec_arr ob) (\<lambda>xs.
     bindE (fld xs 0 dec_HexInt 0 (ia_IScore ia)) (\<lambda>i.
     bindE (fld xs 1 dec_u64 0 (ia_BlockHeight ia)) (\<lambda>b.
     bindE (fld xs 2 (\<lambda>l. bindE (dec_arr l) (mapE dec_DelegateData)) [] (ia_Delegations ia)) (\<lambda>ds.
     Inr (ia\<lparr>ia_IScore := i, ia_BlockHeight := b, ia_Delegations := ds\<rparr>)))))"

definition IScoreAccount_Compare :: "IScoreAccount \<Rightarrow> IScoreAccount \<Rightarrow> int" where
  "IScoreAccount_Compare ia b =
     (if IScoreAccount_ID ia < IScoreAccount_ID b then - 1
      else if IScoreAccount_ID ia = IScoreAccount_ID b then 0 else 1)"

definition NewIScoreAccountFromBytes :: "obj \<Rightarrow> error + IScoreAccount" where
  "NewIScoreAccountFromBytes bs = IScoreAccount_SetBytes zero_IScoreAccount bs"

text \<open>
  \<^verbatim>\<open>NewIScoreAccountFromIISS\<close>: the delegation list of a transaction. An entry that is
  not a list makes the whole result nil; an entry without exactly two elements stays a nil
  pointer. The outer \<open>None\<close> is a panic of the decoder.
\<close>

fun delegate_fields :: "DelegateData \<Rightarrow> go_any list \<Rightarrow> DelegateData" where
  "delegate_fields dg [] = dg"
| "delegate_fields dg (GAddress a # vs) = delegate_fields (dg\<lparr>dg_Address := a\<rparr>) vs"
| "delegate_fields dg (GHexInt i # vs) = delegate_fields (dg\<lparr>dg_Delegate := i\<rparr>) vs"
| "delegate_fields dg (_ # vs) = delegate_fields dg vs"

fun delegate_list :: "go_any list \<Rightarrow> DelegateData option list option" where
  "delegate_list [] = Some []"
| "delegate_list (GList l # vs) =
     map_option
       (\<lambda>ds. (if length l \<noteq> 2 then None
              else Some (delegate_fields \<lparr>dg_Address = zero_address, dg_Delegate = 0\<rparr> l)) # ds)
       (delegate_list vs)"
| "delegate_list (_ # vs) = None"

definition NewIScoreAccountFromIISS :: "IISSTX \<Rightarrow> IScoreAccount option option" where
  "NewIScoreAccountFromIISS tx =
     (if tx_DataType tx \<noteq> TXDataTypeDelegate then Some None
      else
        (let ia = zero_IScoreAccount\<lparr>ia_Address := tx_Address tx, ia_BlockHeight := tx_BlockHeight tx\<rparr> in
         case (case tx_Data tx of None \<Rightarrow> Some (Inr GNil) | Some t \<Rightarrow> DecodeAny t) of
           None \<Rightarrow> None
         | Some (Inr (GList dList1)) \<Rightarrow>
             Some (map_option (\<lambda>ds. ia\<lparr>ia_Delegations := ds\<rparr>) (delegate_list dList1))
         | Some _ \<Rightarrow> Some (Some ia)))"

section \<open>Properties\<close>

definition delegations_ok :: "DelegateData option list \<Rightarrow> bool" where
  "delegations_ok ds \<longleftrightarrow> (\<forall>d \<in> set ds. case d of None \<Rightarrow> True | Some d \<Rightarrow> address_ok (dg_Address d))"

lemma zero_address_length [simp]: "length zero_address = AddressBytes"
  by (simp add: zero_address_def)

lemma dec_enc_DelegateData:
  "(case d of None \<Rightarrow> True | Some x \<Rightarrow> address_ok (dg_Address x)) \<Longrightarrow>
     dec_DelegateData (enc_DelegateData d) = Inr d"
  by (auto simp: enc_DelegateData_def dec_DelegateData_def split: option.splits)

lemma NewIScoreAccountFromBytes_Bytes [codec_simps]:
  assumes "delegations_ok (ia_Delegations ia)"
  shows "NewIScoreAccountFromBytes (IScoreAccount_Bytes ia) = Inr (ia\<lparr>ia_Address := zero_address\<rparr>)"
proof -
  have "mapE dec_DelegateData (map enc_DelegateData (ia_Delegations ia)) = Inr (ia_Delegations ia)"
    using assms by (intro mapE_map dec_enc_DelegateData) (auto simp: delegations_ok_def)
  then show ?thesis
    by (simp add: NewIScoreAccountFromBytes_def IScoreAccount_SetBytes_def IScoreAccount_Bytes_def
        zero_IScoreAccount_def)
qed

lemma BytesForHash_append:
  "BytesForHash ia = ia_Address ia @ BigIntToBytes (ia_IScore ia) @ Uint64ToBytes (ia_BlockHeight ia)"
  by (simp add: BytesForHash_def Let_def copy_at_def IScoreAccount_ID_def Address_Bytes_def)

text \<open>
  For one calculation, where every account has the same block height, the hashed bytes
  determine address and I-Score.
\<close>

lemma BytesForHash_inject:
  assumes "length (ia_Address a) = length (ia_Address b)" "ia_BlockHeight a = ia_BlockHeight b"
    and "BytesForHash a = BytesForHash b"
  shows "ia_Address a = ia_Address b \<and> ia_IScore a = ia_IScore b"
  using assms by (simp add: BytesForHash_append)

end
