(* ===== verification/CalcResult.thy ===== *)
theory CalcResult
  imports Wire
begin

text \<open>
  \<^verbatim>\<open>core/statistics.go\<close> and \<^verbatim>\<open>core/db_calculate.go\<close>: the counters of one
  calculation, addressed by field name through reflection, and the calculation results
  stored per block height. A dynamic value carries its Go type; a type assertion that fails
  is a panic (\<open>None\<close>).
\<close>

section \<open>Statistics\<close>

record Statistics =
  st_Accounts :: u64
  st_TotalReward :: int
  st_Beta1 :: int
  st_Beta2 :: int
  st_Beta3 :: int

definition zero_Statistics :: Statistics where
  "zero_Statistics = \<lparr>st_Accounts = 0, st_TotalReward = 0, st_Beta1 = 0, st_Beta2 = 0, st_Beta3 = 0\<rparr>"

datatype stat_value = VUint64 u64 | VHexInt int | VOther

definition stat_GetField :: "Statistics \<Rightarrow> string \<Rightarrow> error + stat_value" where
  "stat_GetField stats name =
     (if name = ''Accounts'' then Inr (VUint64 (st_Accounts stats))
      else if name = ''TotalReward'' then Inr (VHexInt (st_TotalReward stats))
      else if name = ''Beta1'' then Inr (VHexInt (st_Beta1 stats))
      else if name = ''Beta2'' then Inr (VHexInt (st_Beta2 stats))
      else if name = ''Beta3'' then Inr (VHexInt (st_Beta3 stats))
      else Inl ErrIllegalArgument)"

definition Statistics_Set :: "Statistics \<Rightarrow> string \<Rightarrow> stat_value \<Rightarrow> error + Statistics" where
  "Statistics_Set stats field v =
     (case v of
        VUint64 n \<Rightarrow>
          (if field = ''Accounts'' then Inr (stats\<lparr>st_Accounts := n\<rparr>) else Inl ErrIllegalArgument)
      | VHexInt i \<Rightarrow>
          (if field = ''TotalReward'' then Inr (stats\<lparr>st_TotalReward := i\<rparr>)
           else if field = ''Beta1'' then Inr (stats\<lparr>st_Beta1 := i\<rparr>)
           else if field = ''Beta2'' then Inr (stats\<lparr>st_Beta2 := i\<rparr>)
           else if field = ''Beta3'' then Inr (stats\<lparr>st_Beta3 := i\<rparr>)
           else Inl ErrIllegalArgument)
      | VOther \<Rightarrow> Inl ErrIllegalArgument)"

definition Statistics_Increase :: "Statistics \<Rightarrow> string \<Rightarrow> stat_value \<Rightarrow> error + Statistics" where
  "Statistics_Increase stats field v =
     bindE (stat_GetField stats field) (\<lambda>org.
       case (org, v) of
         (VUint64 x, VUint64 y) \<Rightarrow> Statistics_Set stats field (VUint64 (x + y))
       | (VHexInt x, VHexInt y) \<Rightarrow> Statistics_Set stats field (VHexInt (x + y))
       | _ \<Rightarrow> Inl ErrIllegalArgument)"

definition Statistics_Decrease :: "Statistics \<Rightarrow> string \<Rightarrow> stat_value \<Rightarrow> (error + Statistics) option" where
  "Statistics_Decrease stats field v =
     (case stat_GetField stats field of
        Inl e \<Rightarrow> Some (Inl e)
      | Inr org \<Rightarrow>
          (case (org, v) of
             (VUint64 x, VUint64 y) \<Rightarrow> Some (Statistics_Set stats field (VUint64 (x - y)))
           | (VHexInt x, VHexInt y) \<Rightarrow> Some (Statistics_Set stats field (VHexInt (x - y)))
           | (_, VOther) \<Rightarrow> Some (Inr stats)
           | _ \<Rightarrow> None))"

text \<open>The callers drop the error of \<^verbatim>\<open>Increase\<close>.\<close>

definition stat_inc :: "string \<Rightarrow> stat_value \<Rightarrow> Statistics \<Rightarrow> Statistics" where
  "stat_inc field v stats = (case Statistics_Increase stats field v of Inl _ \<Rightarrow> stats | Inr s \<Rightarrow> s)"

definition Statistics_Bytes :: "Statistics \<Rightarrow> obj" where
  "Statistics_Bytes s =
     OArr [enc_u64 (st_Accounts s), enc_HexInt (st_TotalReward s), enc_HexInt (st_Beta1 s),
           enc_HexInt (st_Beta2 s), enc_HexInt (st_Beta3 s)]"

definition Statistics_SetBytes :: "Statistics \<Rightarrow> obj \<Rightarrow> error + Statistics" where
  "Statistics_SetBytes s ob =
     bindE (dec_arr ob) (\<lambda>xs.
     bindE (fld xs 0 dec_u64 0 (st_Accounts s)) (\<lambda>a.
     bindE (fld xs 1 dec_HexInt 0 (st_TotalReward s)) (\<lambda>t.
     bindE (fld xs 2 dec_HexInt 0 (st_Beta1 s)) (\<lambda>b1.
     bindE (fld xs 3 dec_HexInt 0 (st_Beta2 s)) (\<lambda>b2.
     bindE (fld xs 4 dec_HexInt 0 (st_Beta3 s)) (\<lambda>b3.
     Inr \<lparr>st_Accounts = a, st_TotalReward = t, st_Beta1 = b1, st_Beta2 = b2, st_Beta3 = b3\<rparr>))))))"

section \<open>Calculation results\<close>

record CalculationResult =
  cr_BlockHeight :: u64
  cr_Success :: bool
  cr_StateHash :: bytes
  cr_IScore :: int
  cr_Beta1 :: int
  cr_Beta2 :: int
  cr_Beta3 :: int

definition zero_CalculationResult :: CalculationResult where
  "zero_CalculationResult =
     \<lparr>cr_BlockHeight = 0, cr_Success = False, cr_StateHash = [], cr_IScore = 0, cr_Beta1 = 0,
      cr_Beta2 = 0, cr_Beta3 = 0\<rparr>"

definition CalculationResult_ID :: "CalculationResult \<Rightarrow> bytes" where
  "CalculationResult_ID cr = Uint64ToBytes (cr_BlockHeight cr)"

definition CalculationResult_Bytes :: "CalculationResult \<Rightarrow> obj" where
  "CalculationResult_Bytes cr =
     OArr [OBool (cr_Success cr), OBytes (cr_StateHash cr), enc_HexInt (cr_IScore cr),
           enc_HexInt (cr_Beta1 cr), enc_HexInt (cr_Beta2 cr), enc_HexInt (cr_Beta3 cr)]"

definition CalculationResult_SetBytes :: "CalculationResult \<Rightarrow> obj \<Rightarrow> error + CalculationResult" where
  "CalculationResult_SetBytes cr ob =
     bindE (dec_arr ob) (\<lambda>xs.
     bindE (fld xs 0 dec_bool False (cr_Success cr)) (\<lambda>s.
     bindE (fld xs 1 dec_bytes [] (cr_StateHash cr)) (\<lambda>h.
     bindE (fld xs 2 dec_HexInt 0 (cr_IScore cr)) (\<lambda>i.
     bindE (fld xs 3 dec_HexInt 0 (cr_Beta1 cr)) (\<lambda>b1.
     bindE (fld xs 4 dec_HexInt 0 (cr_Beta2 cr)) (\<lambda>b2.
     bindE (fld xs 5 dec_HexInt 0 (cr_Beta3 cr)) (\<lambda>b3.
     Inr (cr\<lparr>cr_Success := s, cr_StateHash := h, cr_IScore := i, cr_Beta1 := b1,
             cr_Beta2 := b2, cr_Beta3 := b3\<rparr>))))))))"

definition NewCalculationResultFromBytes :: "obj \<Rightarrow> error + CalculationResult" where
  "NewCalculationResultFromBytes bs = CalculationResult_SetBytes zero_CalculationResult bs"

definition WriteCalculationResult :: "obj kv \<Rightarrow> u64 \<Rightarrow> Statistics option \<Rightarrow> bytes \<Rightarrow> obj kv" where
  "WriteCalculationResult crDB blockHeight stats stateHash =
     (let cr0 = zero_CalculationResult\<lparr>cr_Success := True, cr_BlockHeight := blockHeight,
                  cr_StateHash := stateHash\<rparr>;
          cr = (case stats of
                  None \<Rightarrow> cr0
                | Some s \<Rightarrow> cr0\<lparr>cr_IScore := st_TotalReward s, cr_Beta1 := st_Beta1 s,
                              cr_Beta2 := st_Beta2 s, cr_Beta3 := st_Beta3 s\<rparr>)
      in Bucket_Set crDB PrefixCalcResult (CalculationResult_ID cr) (CalculationResult_Bytes cr))"

definition DeleteCalculationResult :: "obj kv \<Rightarrow> u64 \<Rightarrow> obj kv" where
  "DeleteCalculationResult crDB blockHeight =
     Bucket_Delete crDB PrefixCalcResult
       (CalculationResult_ID (zero_CalculationResult\<lparr>cr_BlockHeight := blockHeight\<rparr>))"

section \<open>Properties\<close>

lemma stat_inc_simps [simp]:
  "stat_inc ''Accounts'' (VUint64 n) s = s\<lparr>st_Accounts := st_Accounts s + n\<rparr>"
  "stat_inc ''TotalReward'' (VHexInt i) s = s\<lparr>st_TotalReward := st_TotalReward s + i\<rparr>"
  "stat_inc ''Beta1'' (VHexInt i) s = s\<lparr>st_Beta1 := st_Beta1 s + i\<rparr>"
  "stat_inc ''Beta2'' (VHexInt i) s = s\<lparr>st_Beta2 := st_Beta2 s + i\<rparr>"
  "stat_inc ''Beta3'' (VHexInt i) s = s\<lparr>st_Beta3 := st_Beta3 s + i\<rparr>"
  by (simp_all add: stat_inc_def Statistics_Increase_def stat_GetField_def Statistics_Set_def)

lemma NewCalculationResultFromBytes_Bytes [codec_simps]:
  "NewCalculationResultFromBytes (CalculationResult_Bytes cr) = Inr (cr\<lparr>cr_BlockHeight := 0\<rparr>)"
  by (simp add: NewCalculationResultFromBytes_def CalculationResult_SetBytes_def
      CalculationResult_Bytes_def zero_CalculationResult_def)

lemma Uint64ToBytes_inject: "Uint64ToBytes a = Uint64ToBytes b \<longleftrightarrow> a = b"
  by (metis BytesToUint64_Uint64ToBytes)

lemma CalculationResult_ID_inject:
  "CalculationResult_ID a = CalculationResult_ID b \<longleftrightarrow> cr_BlockHeight a = cr_BlockHeight b"
  by (simp add: CalculationResult_ID_def Uint64ToBytes_inject)

lemma kv_ok_WriteCalculationResult [simp, intro]:
  "kv_ok db \<Longrightarrow> kv_ok (WriteCalculationResult db h s b)"
  by (simp add: WriteCalculationResult_def Let_def)

lemma kv_ok_DeleteCalculationResult [simp, intro]:
  "kv_ok db \<Longrightarrow> kv_ok (DeleteCalculationResult db h)"
  by (simp add: DeleteCalculationResult_def)

end
