(* ===== verification/IScoreDb.thy ===== *)
theory IScoreDb
  imports ClaimDb Account CalcResult
begin

text \<open>
  \<^verbatim>\<open>IScoreDB\<close> of \<^verbatim>\<open>core/context.go\<close>: the databases of the service and the block
  heights that drive it. Two sets of account databases are open at any time: clients read
  the query set while the next term is computed into the calculate set. CALCULATE swaps
  them (\<open>toggleAccountDB\<close>), keeps the old query set as backup directories and opens a
  fresh calculate set (\<open>resetAccountDB\<close>); ROLLBACK renames the backups back
  (\<open>rollbackAccountDB\<close>).

  The directories below the database root are an association list from directory names to
  contents. A name is represented by the values printed into it with
  \<^verbatim>\<open>AccountDBNameFormat\<close> and \<^verbatim>\<open>BackupDBNameFormat\<close>; an open handle is the name of its
  directory.
\<close>

section \<open>Directories\<close>

datatype dirname = CalcDir int int nat | BackupDir u64 int

type_synonym 'v disk = "(dirname \<times> 'v kv) list"

fun dec_digits :: "nat \<Rightarrow> string" where
  "dec_digits n = (if n < 10 then [char_of (48 + n)] else dec_digits (n div 10) @ [char_of (48 + n mod 10)])"

declare dec_digits.simps [simp del]

definition dec_string :: "int \<Rightarrow> string" where
  "dec_string i = (if i < 0 then ''-'' @ dec_digits (nat (- i)) else dec_digits (nat i))"

fun dir_string :: "dirname \<Rightarrow> string" where
  "dir_string (CalcDir i n p) =
     ''calculate_'' @ dec_string i @ ''_'' @ dec_string n @ ''_'' @ dec_digits p"
| "dir_string (BackupDir h i) = ''backup_'' @ dec_digits (unat h) @ ''_'' @ dec_string i"

definition disk_read :: "'v disk \<Rightarrow> dirname \<Rightarrow> 'v kv" where
  "disk_read d n = (case map_of d n of None \<Rightarrow> [] | Some m \<Rightarrow> m)"

text \<open>\<^verbatim>\<open>db.Open\<close> creates the directory when it is missing.\<close>

definition disk_open :: "dirname \<Rightarrow> 'v disk \<Rightarrow> 'v disk" where
  "disk_open n d = (if map_of d n = None then AList.update n [] d else d)"

text \<open>\<^verbatim>\<open>os.Rename\<close> of a directory: the source must exist, the target must not.\<close>

definition disk_rename :: "dirname \<Rightarrow> dirname \<Rightarrow> 'v disk \<Rightarrow> error + 'v disk" where
  "disk_rename src dst d =
     (case map_of d src of
        None \<Rightarrow> Inl ErrFile
      | Some m \<Rightarrow>
          if map_of d dst = None then Inr (AList.update dst m (AList.delete src d)) else Inl ErrFile)"

text \<open>\<^verbatim>\<open>filepath.Glob\<close> returns the names that match in lexical order.\<close>

definition disk_glob :: "(dirname \<Rightarrow> bool) \<Rightarrow> 'v disk \<Rightarrow> dirname list" where
  "disk_glob P d = sort_key (\<lambda>n. ascii (dir_string n)) (filter P (map fst d))"

fun is_backup :: "dirname \<Rightarrow> bool" where
  "is_backup (BackupDir _ _) = True"
| "is_backup (CalcDir _ _ _) = False"

fun is_backup_of :: "u64 \<Rightarrow> dirname \<Rightarrow> bool" where
  "is_backup_of h (BackupDir h' _) = (h' = h)"
| "is_backup_of h (CalcDir _ _ _) = False"

section \<open>State\<close>

record IScoreDB =
  info :: DBInfo
  management :: "obj kv"
  calcResult :: "obj kv"
  claims :: claim_dbs
  Account0 :: "dirname list"
  Account1 :: "dirname list"
  dirs :: "obj disk"

definition getQueryDBList :: "IScoreDB \<Rightarrow> dirname list" where
  "getQueryDBList idb = (if QueryDBIsZero (info idb) then Account0 idb else Account1 idb)"

definition GetCalcDBList :: "IScoreDB \<Rightarrow> dirname list" where
  "GetCalcDBList idb = (if QueryDBIsZero (info idb) then Account1 idb else Account0 idb)"

definition writeToDB :: "IScoreDB \<Rightarrow> IScoreDB" where
  "writeToDB idb =
     idb\<lparr>management := Bucket_Set (management idb) PrefixManagement DBInfo_ID (DBInfo_Bytes (info idb))\<rparr>"

definition toggleAccountDB :: "u64 \<Rightarrow> IScoreDB \<Rightarrow> IScoreDB" where
  "toggleAccountDB blockHeight idb =
     (if ToggleBH (info idb) = blockHeight then idb
      else writeToDB (idb\<lparr>info := (info idb)
             \<lparr>QueryDBIsZero := \<not> QueryDBIsZero (info idb), ToggleBH := blockHeight\<rparr>\<rparr>))"

text \<open>The remainder of the first byte of the address; division by zero panics.\<close>

definition getAccountDBIndex :: "IScoreDB \<Rightarrow> address \<Rightarrow> nat option" where
  "getAccountDBIndex idb addr =
     (case Address_ID addr of
        [] \<Rightarrow> None
      | b # _ \<Rightarrow>
          if DBCount (info idb) = 0 then None else Some (nat (uint b mod \<bar>DBCount (info idb)\<bar>)))"

definition account_names :: "IScoreDB \<Rightarrow> nat \<Rightarrow> dirname list" where
  "account_names idb postfix =
     map (\<lambda>i. CalcDir (int i + 1) (DBCount (info idb)) postfix) [0..<nat (DBCount (info idb))]"

text \<open>\<^verbatim>\<open>make\<close> panics on a negative count.\<close>

definition OpenAccountDB :: "IScoreDB \<Rightarrow> IScoreDB option" where
  "OpenAccountDB idb =
     (if DBCount (info idb) < 0 then None
      else Some (idb\<lparr>Account0 := account_names idb 0, Account1 := account_names idb 1,
                     dirs := fold disk_open (account_names idb 0 @ account_names idb 1) (dirs idb)\<rparr>))"

definition CloseAccountDB :: "IScoreDB \<Rightarrow> IScoreDB" where
  "CloseAccountDB idb = idb\<lparr>Account0 := [], Account1 := []\<rparr>"

definition db_at :: "dirname list \<Rightarrow> nat option \<Rightarrow> dirname option" where
  "db_at dbs i = (case i of None \<Rightarrow> None | Some i \<Rightarrow> if i < length dbs then Some (dbs ! i) else None)"

definition getCalculateDB :: "IScoreDB \<Rightarrow> address \<Rightarrow> dirname option" where
  "getCalculateDB idb addr = db_at (GetCalcDBList idb) (getAccountDBIndex idb addr)"

definition getQueryDB :: "IScoreDB \<Rightarrow> address \<Rightarrow> dirname option" where
  "getQueryDB idb addr = db_at (getQueryDBList idb) (getAccountDBIndex idb addr)"

section \<open>Block heights\<close>

definition setCalculatingBH :: "u64 \<Rightarrow> IScoreDB \<Rightarrow> IScoreDB" where
  "setCalculatingBH blockHeight idb = writeToDB (idb\<lparr>info := (info idb)\<lparr>Calculating := blockHeight\<rparr>\<rparr>)"

definition resetCalculatingBH :: "IScoreDB \<Rightarrow> IScoreDB" where
  "resetCalculatingBH idb = writeToDB (idb\<lparr>info := (info idb)\<lparr>Calculating := CalcDone (info idb)\<rparr>\<rparr>)"

definition getCalcDoneBH :: "IScoreDB \<Rightarrow> u64" where
  "getCalcDoneBH idb = CalcDone (info idb)"

definition getPrevCalcDoneBH :: "IScoreDB \<Rightarrow> u64" where
  "getPrevCalcDoneBH idb = PrevCalcDone (info idb)"

definition getCalculatingBH :: "IScoreDB \<Rightarrow> u64" where
  "getCalculatingBH idb = Calculating (info idb)"

definition getCurrentBlockInfo :: "IScoreDB \<Rightarrow> BlockInfo" where
  "getCurrentBlockInfo idb = Current (info idb)"

definition isCalculating :: "IScoreDB \<Rightarrow> bool" where
  "isCalculating idb \<longleftrightarrow> getCalculatingBH idb > getCalcDoneBH idb"

definition setCurrentBlockInfo :: "u64 \<Rightarrow> bytes \<Rightarrow> IScoreDB \<Rightarrow> IScoreDB" where
  "setCurrentBlockInfo blockHeight blockHash idb =
     writeToDB (idb\<lparr>info := (info idb)\<lparr>Current := BlockInfo_set (Current (info idb)) blockHeight blockHash\<rparr>\<rparr>)"

definition setCalcDoneBH :: "u64 \<Rightarrow> IScoreDB \<Rightarrow> IScoreDB" where
  "setCalcDoneBH blockHeight idb =
     writeToDB (idb\<lparr>info := (info idb)\<lparr>PrevCalcDone := CalcDone (info idb), CalcDone := blockHeight\<rparr>\<rparr>)"

definition rollbackCurrentBlockInfo :: "u64 \<Rightarrow> bytes \<Rightarrow> IScoreDB \<Rightarrow> IScoreDB" where
  "rollbackCurrentBlockInfo blockHeight blockHash idb =
     writeToDB (setCurrentBlockInfo blockHeight blockHash idb)"

definition rollbackAccountDBBlockInfo :: "IScoreDB \<Rightarrow> IScoreDB" where
  "rollbackAccountDBBlockInfo idb =
     writeToDB (idb\<lparr>info := (info idb)\<lparr>CalcDone := PrevCalcDone (info idb),
                                     Calculating := PrevCalcDone (info idb)\<rparr>\<rparr>)"

section \<open>Backing up and rolling back the account databases\<close>

text \<open>
  The loop of \<^verbatim>\<open>resetAccountDB\<close> over the old query databases: each one becomes a backup
  directory unless a backup of that name exists already (a calculation that was interrupted
  and is run again), and is opened again under its old name.
\<close>

fun reset_loop :: "DBInfo \<Rightarrow> u64 \<Rightarrow> nat \<Rightarrow> nat \<Rightarrow> nat \<Rightarrow> obj disk \<Rightarrow> error option \<times> obj disk \<times> dirname list" where
  "reset_loop i blockHeight postfix k 0 d = (None, d, [])"
| "reset_loop i blockHeight postfix k (Suc n) d =
     (let db = CalcDir (int k + 1) (DBCount i) postfix; backup = BackupDir blockHeight (int k + 1) in
      case (if map_of d backup = None then disk_rename db backup d else Inr d) of
        Inl e \<Rightarrow> (Some e, d, [])
      | Inr d' \<Rightarrow>
          (case reset_loop i blockHeight postfix (Suc k) n (disk_open db d') of
             (e, d'', hs) \<Rightarrow> (e, d'', db # hs)))"

text \<open>On an error the databases closed so far stay closed and the old handles are kept.\<close>

definition resetAccountDB :: "u64 \<Rightarrow> u64 \<Rightarrow> IScoreDB \<Rightarrow> error option \<times> IScoreDB" where
  "resetAccountDB blockHeight oldCalcBH idb =
     (let oldQueryDBs = GetCalcDBList idb;
          postfix = (if QueryDBIsZero (info idb) then 1 else 0);
          d0 = fold AList.delete (disk_glob (is_backup_of oldCalcBH) (dirs idb)) (dirs idb)
      in case reset_loop (info idb) blockHeight postfix 0 (length oldQueryDBs) d0 of
           (Some e, d, _) \<Rightarrow> (Some e, idb\<lparr>dirs := d\<rparr>)
         | (None, d, newCalcDBs) \<Rightarrow>
             (None, if QueryDBIsZero (info idb) then idb\<lparr>dirs := d, Account1 := newCalcDBs\<rparr>
                    else idb\<lparr>dirs := d, Account0 := newCalcDBs\<rparr>))"

text \<open>The index scanned from the name; \<^verbatim>\<open>Sscanf\<close> into an \<^verbatim>\<open>int\<close> fails from $2^{63}$ on.\<close>

fun scan_index :: "dirname \<Rightarrow> int" where
  "scan_index (BackupDir h i) = (if uint h < 2 ^ 63 then i else 0)"
| "scan_index (CalcDir _ _ _) = 0"

fun rollback_backups :: "DBInfo \<Rightarrow> nat \<Rightarrow> dirname list \<Rightarrow> obj disk \<Rightarrow> error option \<times> obj disk" where
  "rollback_backups i postfix [] d = (None, d)"
| "rollback_backups i postfix (f # fs) d =
     (let calcDB = CalcDir (scan_index f) (DBCount i) postfix in
      case disk_rename f calcDB (AList.delete calcDB d) of
        Inl e \<Rightarrow> (Some e, AList.delete calcDB d)
      | Inr d' \<Rightarrow> rollback_backups i postfix fs d')"

definition rollbackAccountDB :: "u64 \<Rightarrow> IScoreDB \<Rightarrow> (error option \<times> IScoreDB) option" where
  "rollbackAccountDB blockHeight idb =
     (let postfix = (if QueryDBIsZero (info idb) then 1 else 0);
          idb1 = CloseAccountDB idb
      in case rollback_backups (info idb) postfix (disk_glob is_backup (dirs idb)) (dirs idb1) of
           (Some e, d) \<Rightarrow> Some (Some e, idb1\<lparr>dirs := d\<rparr>)
         | (None, d) \<Rightarrow>
             (case OpenAccountDB (idb1\<lparr>dirs := d\<rparr>) of
                None \<Rightarrow> None
              | Some idb2 \<Rightarrow>
                  (let idb3 = toggleAccountDB blockHeight idb2;
                       idb4 = idb3\<lparr>calcResult := DeleteCalculationResult (calcResult idb3) (getCalcDoneBH idb3)\<rparr>
                   in Some (None, rollbackAccountDBBlockInfo idb4))))"

text \<open>\<^verbatim>\<open>rollbackClaimDB\<close> of \<^verbatim>\<open>db_claim.go\<close> with its update of the current block.\<close>

definition rollbackClaimDB :: "u64 \<Rightarrow> bytes \<Rightarrow> IScoreDB \<Rightarrow> (error option \<times> IScoreDB) option" where
  "rollbackClaimDB to blockHash idb =
     (case rollbackClaimDB_core (claims idb) to of
        None \<Rightarrow> None
      | Some (Inl e) \<Rightarrow> Some (Some e, idb)
      | Some (Inr (False, _)) \<Rightarrow> Some (None, idb)
      | Some (Inr (True, dbs)) \<Rightarrow>
          Some (None, rollbackCurrentBlockInfo to blockHash (idb\<lparr>claims := dbs\<rparr>)))"

end
