(* ===== verification/HexNumber.thy ===== *)
theory HexNumber
  imports Address
begin

text \<open>
  The string forms of \<^verbatim>\<open>common/hexint.go\<close> and \<^verbatim>\<open>common/hexbytes.go\<close>: numbers as
  \<^verbatim>\<open>0x\<close> strings without a leading zero, byte strings as hexadecimal text. The JSON
  quoting around them is the library's.
\<close>

section \<open>Numbers\<close>

definition encodeHexNumber :: "bool \<Rightarrow> bytes \<Rightarrow> string" where
  "encodeHexNumber neg b =
     (let s = hex_encode b in
      if s = [] then ''0x0''
      else
        (let s' = (if hd s = CHR ''0'' then tl s else s)
         in if neg then ''-0x'' @ s' else ''0x'' @ s'))"

definition decodeHexNumber :: "string \<Rightarrow> bool \<times> (error + bytes)" where
  "decodeHexNumber s =
     (let negative = (s \<noteq> [] \<and> hd s = CHR ''-'');
          s1 = (if negative then tl s else s);
          s2 = (if 2 < length s1 \<and> take 2 s1 = ''0x'' then drop 2 s1 else s1);
          s3 = (if length s2 mod 2 = 1 then CHR ''0'' # s2 else s2)
      in (negative, hex_decode s3))"

definition HexInt_String :: "int \<Rightarrow> string" where
  "HexInt_String i = encodeHexNumber (i < 0) (nat_bytes (nat \<bar>i\<bar>))"

text \<open>\<^verbatim>\<open>UnmarshalJSON\<close> of a value that is a JSON string.\<close>

definition HexInt_UnmarshalString :: "string \<Rightarrow> error + int" where
  "HexInt_UnmarshalString s =
     (case decodeHexNumber s of
        (neg, Inl e) \<Rightarrow> Inl e
      | (neg, Inr bs) \<Rightarrow> Inr (if neg then - int (be_nat bs) else int (be_nat bs)))"

definition FormatUint :: "u64 \<Rightarrow> string" where
  "FormatUint v = encodeHexNumber False (Uint64ToBytes v)"

definition FormatInt :: "64 word \<Rightarrow> string" where
  "FormatInt v =
     (if sint v < 0 then encodeHexNumber True (Uint64ToBytes (- v))
      else encodeHexNumber False (Uint64ToBytes v))"

text \<open>
  The hexadecimal branch of \<^verbatim>\<open>ParseUint\<close> and \<^verbatim>\<open>ParseInt\<close>, taken for the strings
  \<^verbatim>\<open>strconv\<close> refuses (a number without \<^verbatim>\<open>0x\<close> in hexadecimal digits). An
  \<^verbatim>\<open>int64\<close> is its two's complement word.
\<close>

definition ParseUint_hex :: "string \<Rightarrow> nat \<Rightarrow> error + u64" where
  "ParseUint_hex s bits =
     (case decodeHexNumber s of
        (False, Inr bs) \<Rightarrow> if length bs * 8 > bits then Inl ErrOutOfRange else Inr (BytesToUint64 bs)
      | _ \<Rightarrow> Inl ErrIllegalFormat)"

definition ParseInt_hex :: "string \<Rightarrow> nat \<Rightarrow> error + 64 word" where
  "ParseInt_hex s bits =
     (case decodeHexNumber s of
        (negative, Inl e) \<Rightarrow> Inl e
      | (negative, Inr bs) \<Rightarrow>
          if length bs * 8 > bits then Inl ErrOutOfRange
          else
            (let v = BytesToUint64 bs; edge = push_bit (bits - 1) (1::u64) in
             if negative then (if v > edge then Inl ErrOutOfRange else Inr (- v))
             else (if v \<ge> edge then Inl ErrOutOfRange else Inr v)))"

section \<open>Byte strings\<close>

definition RawHexBytes_String :: "bytes option \<Rightarrow> string" where
  "RawHexBytes_String rh = (case rh of None \<Rightarrow> [] | Some b \<Rightarrow> hex_encode b)"

definition RawHexBytes_UnmarshalString :: "string \<Rightarrow> error + bytes" where
  "RawHexBytes_UnmarshalString s = hex_decode s"

definition HexBytes_String :: "bytes option \<Rightarrow> string" where
  "HexBytes_String hs = (case hs of None \<Rightarrow> [] | Some b \<Rightarrow> ''0x'' @ hex_encode b)"

definition HexBytes_UnmarshalString :: "string \<Rightarrow> error + bytes" where
  "HexBytes_UnmarshalString s = hex_decode (if 2 \<le> length s \<and> take 2 s = ''0x'' then drop 2 s else s)"

section \<open>Properties\<close>

lemma hex_encode_eq_Nil [simp]: "hex_encode b = [] \<longleftrightarrow> b = []"
  using length_hex_encode [of b] by (cases b) (auto simp: hex_encode_def)

text \<open>The stripped zero is put back because the remaining length is odd.\<close>

lemma decode_encodeHexNumber:
  assumes "b \<noteq> []"
  shows "decodeHexNumber (encodeHexNumber neg b) = (neg, Inr b)"
proof -
  define s where "s = hex_encode b"
  have len: "length s = 2 * length b" and dec: "hex_decode s = Inr b" by (simp_all add: s_def)
  with assms have "s \<noteq> []" "2 \<le> length s" by (cases b; auto)+
  then obtain c d r where s: "s = c # d # r" by (cases s; cases "tl s") auto
  show ?thesis
  proof (cases "c = CHR ''0''")
    case True
    then have "encodeHexNumber neg b = (if neg then ''-0x'' else ''0x'') @ (d # r)"
      using s by (simp add: encodeHexNumber_def s_def [symmetric] Let_def)
    moreover have "length (d # r) mod 2 = 1" using len s by (simp, presburger)
    ultimately show ?thesis
      using dec s True by (simp add: decodeHexNumber_def)
  next
    case False
    then have "encodeHexNumber neg b = (if neg then ''-0x'' else ''0x'') @ s"
      using s by (simp add: encodeHexNumber_def s_def [symmetric] Let_def)
    moreover have "length s mod 2 = 0" using len by simp
    ultimately show ?thesis
      using dec s by (simp add: decodeHexNumber_def)
  qed
qed

lemma decode_zero: "decodeHexNumber ''0x0'' = (False, Inr [0])"
  by (simp add: decodeHexNumber_def)

lemma HexInt_UnmarshalString_String: "HexInt_UnmarshalString (HexInt_String i) = Inr i"
proof (cases "i = 0")
  case True
  then show ?thesis
    by (simp add: HexInt_String_def HexInt_UnmarshalString_def encodeHexNumber_def
        nat_bytes.simps [of 0] decode_zero be_nat_def hex_encode_def)
next
  case False
  then have "nat_bytes (nat \<bar>i\<bar>) \<noteq> []" by (subst nat_bytes.simps) simp
  then show ?thesis
    by (simp add: HexInt_String_def HexInt_UnmarshalString_def decode_encodeHexNumber be_nat_nat_bytes)
qed

lemma ParseUint_hex_FormatUint: "ParseUint_hex (FormatUint v) 64 = Inr v"
proof (cases "v = 0")
  case True
  then show ?thesis
    by (simp add: FormatUint_def ParseUint_hex_def encodeHexNumber_def Uint64ToBytes_def
        hex_encode_def decode_zero BytesToUint64_def)
next
  case False
  then have "Uint64ToBytes v \<noteq> []" using be_nat_Uint64ToBytes [of v] by (auto simp: unat_eq_0)
  then show ?thesis
    using length_Uint64ToBytes [of v]
    by (simp add: FormatUint_def ParseUint_hex_def decode_encodeHexNumber BytesToUint64_Uint64ToBytes)
qed

lemma HexBytes_UnmarshalString_String: "HexBytes_UnmarshalString (HexBytes_String (Some b)) = Inr b"
  by (simp add: HexBytes_UnmarshalString_def HexBytes_String_def)

end
