(* ===== verification/Context.thy ===== *)
theory Context
  imports IScoreDb HexNumber
begin

text \<open>
  The rest of \<^verbatim>\<open>core/context.go\<close>: the context every message handler works on (the
  databases, the governance variables, P-Rep lists and candidates held in memory beside
  their copies in the management database), the updates a calculation makes to them and
  their rollback, and the start of the service. The types of
  \<^verbatim>\<open>core/calculation_debug.go\<close> are here because the context holds them, and
  \<^verbatim>\<open>CancelCalculation\<close> of \<^verbatim>\<open>core/msg_rollback.go\<close> for the same reason.
\<close>

section \<open>Calculation debugging data\<close>

record Generate =
  gen_BlockCount :: u64
  gen_Formula :: string
  gen_IScore :: u64

record ValidateInfo =
  vi_ValidatorCount :: u64
  vi_BlockCount :: u64
  vi_Formula :: string
  vi_IScore :: u64

record Beta1 =
  b1_IScore :: int
  b1_Generate :: Generate
  b1_Validate :: "ValidateInfo list"

record DelegatedInfo =
  dd_BlockHeight :: u64
  dd_Delegated :: u64
  dd_TotalDelegated :: u64
  dd_Formula :: string
  dd_IScore :: u64

record Beta2 =
  b2_IScore :: int
  b2_DelegatedInfo :: "DelegatedInfo list"

record DelegationInfo =
  dn_BlockHeight :: u64
  dn_Address :: address
  dn_Amount :: u64
  dn_Formula :: string
  dn_IScore :: u64

record Beta3 =
  b3_IScore :: int
  b3_DelegationInfo :: "DelegationInfo list"

record Reward =
  rw_BlockHeight :: u64
  rw_Beta1 :: Beta1
  rw_Beta2 :: Beta2
  rw_Beta3 :: Beta3

definition NewReward :: "u64 \<Rightarrow> Reward" where
  "NewReward blockHeight =
     \<lparr>rw_BlockHeight = blockHeight,
      rw_Beta1 = \<lparr>b1_IScore = 0, b1_Generate = \<lparr>gen_BlockCount = 0, gen_Formula = [], gen_IScore = 0\<rparr>,
                 b1_Validate = []\<rparr>,
      rw_Beta2 = \<lparr>b2_IScore = 0, b2_DelegatedInfo = []\<rparr>,
      rw_Beta3 = \<lparr>b3_IScore = 0, b3_DelegationInfo = []\<rparr>\<rparr>"

record CalcResult =
  cres_Address :: address
  cres_InitialIScore :: int
  cres_TotalIScore :: int
  cres_Rewards :: "Reward list"

record CalcDebugData =
  dbg_Preps :: "PRepCandidate list"
  dbg_GV :: "GovernanceVariable list"
  dbg_Results :: "CalcResult list"

record CalcDebugResult =
  dbr_BlockHeight :: u64
  dbr_BlockHash :: string
  dbr_Data :: CalcDebugData

record CalcDebugConfig =
  conf_Flag :: bool
  conf_Addresses :: "address list"

record CalcDebug =
  dbg_conf :: CalcDebugConfig
  dbg_result :: "CalcDebugResult option"

section \<open>Cancelling a calculation\<close>

text \<open>
  A channel is its number: \<^verbatim>\<open>notifyCancelCalculation\<close> closes the channel in use and
  makes a new one, so a channel is closed exactly when it is not the current one.
\<close>

definition CancelNone :: u64 where "CancelNone = 0"
definition CancelExit :: u64 where "CancelExit = 1"
definition CancelRollback :: u64 where "CancelRollback = 2"

record CancelCalculation =
  channel :: nat
  cancelCode :: u64

definition NewCancel :: CancelCalculation where
  "NewCancel = \<lparr>channel = 0, cancelCode = CancelNone\<rparr>"

definition notifyCancelCalculation :: "u64 \<Rightarrow> CancelCalculation \<Rightarrow> CancelCalculation" where
  "notifyCancelCalculation cancelPurpose c = c\<lparr>cancelCode := cancelPurpose, channel := Suc (channel c)\<rparr>"

definition notifyRollback :: "CancelCalculation \<Rightarrow> CancelCalculation" where
  "notifyRollback c = notifyCancelCalculation CancelRollback c"

definition notifyExit :: "CancelCalculation \<Rightarrow> CancelCalculation" where
  "notifyExit c = notifyCancelCalculation CancelExit c"

section \<open>The context\<close>

text \<open>
  The database \<^verbatim>\<open>calculation_debug\<close>, opened on demand, holds the debugging data
  themselves: their encoding is left to the codec library.
\<close>

record Context =
  DB :: IScoreDB
  Revision :: u64
  PReps :: "PRep list"
  PRepCandidates :: candidates
  GV :: "GovernanceVariable list"
  stats :: "Statistics option"
  Cancel :: CancelCalculation
  calcDebug :: CalcDebug
  calcDebug_db :: "CalcDebugData kv"

definition Revision8 :: u64 where "Revision8 = 8"

text \<open>The last governance variable set below the height.\<close>

fun gv_before :: "u64 \<Rightarrow> GovernanceVariable list \<Rightarrow> GovernanceVariable option" where
  "gv_before blockHeight [] = None"
| "gv_before blockHeight (gv # gvs) =
     (if gv_BlockHeight gv < blockHeight then Some gv else gv_before blockHeight gvs)"

definition getGVByBlockHeight :: "Context \<Rightarrow> u64 \<Rightarrow> GovernanceVariable option" where
  "getGVByBlockHeight ctx blockHeight = gv_before blockHeight (rev (GV ctx))"

section \<open>Updates of a calculation\<close>

text \<open>
  Entries not above the previous calculation are old: the last of them still applies and is
  kept, the ones before it are deleted. \<open>old_index h xs\<close> is the position of that last
  old entry, \<^verbatim>\<open>deleteIndex\<close> of the code.
\<close>

definition old_index :: "('a \<Rightarrow> u64) \<Rightarrow> u64 \<Rightarrow> 'a list \<Rightarrow> nat option" where
  "old_index height h xs =
     (case rev (filter (\<lambda>i. height (xs ! i) \<le> h) [0..<length xs]) of [] \<Rightarrow> None | i # _ \<Rightarrow> Some i)"

definition delete_old :: "('a \<Rightarrow> u64) \<Rightarrow> ('a \<Rightarrow> bytes) \<Rightarrow> bucket_id \<Rightarrow> u64 \<Rightarrow> 'a list \<Rightarrow> obj kv \<Rightarrow> 'a list \<times> obj kv" where
  "delete_old height key bid h xs db =
     (case old_index height h xs of
        None \<Rightarrow> (xs, db)
      | Some deleteIndex \<Rightarrow>
          (if 0 < deleteIndex then drop deleteIndex xs else xs,
           fold (\<lambda>x db. Bucket_Delete db bid (key x))
             (rev (filter (\<lambda>x. height x \<le> h) (take deleteIndex xs))) db))"

fun update_gv :: "IISSGovernanceVariable list \<Rightarrow> GovernanceVariable list \<Rightarrow> obj kv \<Rightarrow> GovernanceVariable list \<times> obj kv" where
  "update_gv [] gvs db = (gvs, db)"
| "update_gv (gvIISS # gvList) gvs db =
     (if gvs = [] \<or> gv_BlockHeight (last gvs) < igv_BlockHeight gvIISS then
        (let gv = NewGVFromIISS gvIISS
         in update_gv gvList (gvs @ [gv]) (Bucket_Set db PrefixGovernanceVariable (GV_ID gv) (GV_Bytes gv)))
      else update_gv gvList gvs db)"

definition UpdateGovernanceVariable :: "IISSGovernanceVariable list \<Rightarrow> Context \<Rightarrow> Context" where
  "UpdateGovernanceVariable gvList ctx =
     (case update_gv gvList (GV ctx) (management (DB ctx)) of
        (gvs, db) \<Rightarrow>
          (case delete_old gv_BlockHeight GV_ID PrefixGovernanceVariable (getPrevCalcDoneBH (DB ctx)) gvs db of
             (gvs', db') \<Rightarrow> ctx\<lparr>GV := gvs', DB := (DB ctx)\<lparr>management := db'\<rparr>\<rparr>))"

definition UpdatePRep :: "PRep list \<Rightarrow> Context \<Rightarrow> Context" where
  "UpdatePRep prepList ctx =
     (let preps = PReps ctx @ prepList;
          db = fold (\<lambda>prep db. Bucket_Set db PrefixPRep (PRep_ID prep) (PRep_Bytes prep)) prepList
                 (management (DB ctx))
      in case delete_old pr_BlockHeight PRep_ID PrefixPRep (getPrevCalcDoneBH (DB ctx)) preps db of
           (preps', db') \<Rightarrow> ctx\<lparr>PReps := preps', DB := (DB ctx)\<lparr>management := db'\<rparr>\<rparr>)"

text \<open>
  One transaction of \<^verbatim>\<open>UpdatePRepCandidate\<close>. The variable \<open>tx\<close> is shared by the
  iterations, and a transaction that does not decode is skipped.
\<close>

definition update_candidate :: "IISSTX \<Rightarrow> candidates \<times> obj kv \<Rightarrow> candidates \<times> obj kv" where
  "update_candidate tx s =
     (case s of (cands, db) \<Rightarrow>
      if tx_DataType tx = TXDataTypePrepReg then
        (case map_of cands (tx_Address tx) of
           None \<Rightarrow>
             (let p = \<lparr>pc_Address = tx_Address tx, pc_Start = tx_BlockHeight tx, pc_End = 0\<rparr>
              in (AList.update (tx_Address tx) p cands,
                  Bucket_Set db PrefixPRepCandidate (PRepCandidate_ID p) (PRepCandidate_Bytes p)))
         | Some _ \<Rightarrow> (cands, db))
      else if tx_DataType tx = TXDataTypePrepUnReg then
        (case map_of cands (tx_Address tx) of
           None \<Rightarrow> (cands, db)
         | Some pRep \<Rightarrow>
             if pc_End pRep \<noteq> 0 then (cands, db)
             else
               (let p = pRep\<lparr>pc_End := tx_BlockHeight tx\<rparr>
                in (AList.update (tx_Address tx) p cands,
                    Bucket_Set db PrefixPRepCandidate (PRepCandidate_ID p) (PRepCandidate_Bytes p))))
      else (cands, db))"

fun update_candidates :: "IISSTX \<Rightarrow> (bytes \<times> obj) list \<Rightarrow> candidates \<times> obj kv \<Rightarrow> candidates \<times> obj kv" where
  "update_candidates tx [] s = s"
| "update_candidates tx ((k, v) # es) s =
     (case IISSTX_SetBytes tx v of
        Inl _ \<Rightarrow> update_candidates tx es s
      | Inr tx' \<Rightarrow>
          (let tx'' = tx'\<lparr>tx_Index := BytesToUint64 (drop (length PrefixIISSTX) k)\<rparr>
           in update_candidates tx'' es (update_candidate tx'' s)))"

definition UpdatePRepCandidate :: "obj kv \<Rightarrow> Context \<Rightarrow> Context" where
  "UpdatePRepCandidate iissDB ctx =
     (case update_candidates zero_IISSTX (Iterator_prefix iissDB PrefixIISSTX)
             (PRepCandidates ctx, management (DB ctx)) of
        (cands, db) \<Rightarrow> ctx\<lparr>PRepCandidates := cands, DB := (DB ctx)\<lparr>management := db\<rparr>\<rparr>)"

section \<open>Rollback of the management data\<close>

text \<open>
  The loop from the end of the list: an entry above the height is deleted, and the list is
  cut at its position, which also drops the entries after it.
\<close>

fun rollback_loop :: "('a \<Rightarrow> u64) \<Rightarrow> ('a \<Rightarrow> bytes) \<Rightarrow> bucket_id \<Rightarrow> u64 \<Rightarrow> nat \<Rightarrow> 'a list \<Rightarrow> obj kv \<Rightarrow> 'a list \<times> obj kv" where
  "rollback_loop height key bid h 0 xs db = (xs, db)"
| "rollback_loop height key bid h (Suc i) xs db =
     (if height (xs ! i) > h then
        rollback_loop height key bid h i (take i xs) (Bucket_Delete db bid (key (xs ! i)))
      else rollback_loop height key bid h i xs db)"

definition RollbackManagementDB :: "u64 \<Rightarrow> Context \<Rightarrow> Context" where
  "RollbackManagementDB blockHeight ctx =
     (case rollback_loop gv_BlockHeight GV_ID PrefixGovernanceVariable blockHeight (length (GV ctx))
             (GV ctx) (management (DB ctx)) of
        (gvs, db) \<Rightarrow>
          (case rollback_loop pr_BlockHeight PRep_ID PrefixPRep blockHeight (length (PReps ctx))
                  (PReps ctx) db of
             (preps, db') \<Rightarrow> ctx\<lparr>GV := gvs, PReps := preps, DB := (DB ctx)\<lparr>management := db'\<rparr>\<rparr>))"

section \<open>Start of the service\<close>

text \<open>
  What is on disk when the process starts: \<^verbatim>\<open>NewContext\<close> opens it and loads the
  context from the management database. The debug configuration is the value
  \<^verbatim>\<open>InitCalcDebugConfig\<close> leaves, the default one when the file is missing or invalid.
\<close>

record storage =
  sto_management :: "obj kv"
  sto_calcResult :: "obj kv"
  sto_claims :: claim_dbs
  sto_dirs :: "obj disk"
  sto_calcDebug :: "CalcDebugData kv"

definition InitCalcDebugConfig :: "CalcDebugConfig option \<Rightarrow> CalcDebug" where
  "InitCalcDebugConfig file =
     \<lparr>dbg_conf = (case file of None \<Rightarrow> \<lparr>conf_Flag = False, conf_Addresses = []\<rparr> | Some c \<Rightarrow> c),
      dbg_result = None\<rparr>"

definition NewContext ::
    "storage \<Rightarrow> string \<Rightarrow> string \<Rightarrow> string \<Rightarrow> int \<Rightarrow> CalcDebugConfig option \<Rightarrow> Context option" where
  "NewContext st dbPath dbType dbName dbCount debugConfig =
     (case NewDBInfo (sto_management st) dbPath dbType dbName dbCount of
        None \<Rightarrow> None
      | Some (i, mngDB) \<Rightarrow>
          (case LoadPRepCandidate mngDB of
             None \<Rightarrow> None
           | Some cands \<Rightarrow>
               (case OpenAccountDB \<lparr>info = i, management = mngDB, calcResult = sto_calcResult st,
                       claims = sto_claims st, Account0 = [], Account1 = [], dirs = sto_dirs st\<rparr> of
                  None \<Rightarrow> None
                | Some isDB \<Rightarrow>
                    Some \<lparr>DB = isDB, Revision = 0, PReps = LoadPRep mngDB, PRepCandidates = cands,
                          GV = LoadGovernanceVariable mngDB, stats = None, Cancel = NewCancel,
                          calcDebug = InitCalcDebugConfig debugConfig, calcDebug_db = sto_calcDebug st\<rparr>)))"

text \<open>The storage a stopped process leaves behind.\<close>

definition storage_of :: "Context \<Rightarrow> storage" where
  "storage_of ctx =
     \<lparr>sto_management = management (DB ctx), sto_calcResult = calcResult (DB ctx),
      sto_claims = claims (DB ctx), sto_dirs = dirs (DB ctx), sto_calcDebug = calcDebug_db ctx\<rparr>"

end
