(* ===== verification/Tables.thy ===== *)
theory Tables
  imports Context
begin

text \<open>
  Records in their databases. Every stored struct has a key (\<^verbatim>\<open>ID\<close>), an encoding
  (\<^verbatim>\<open>Bytes\<close>) and a decoder that takes part of the record from the key (\<^verbatim>\<open>SetBytes\<close>
  after the iterator's key); the locale \<open>record_table\<close> is that contract and is
  interpreted for every kind of record. Records keyed by a block height
  (\<open>height_table\<close>) are iterated in the order of their heights; the management
  database keeps governance variables and P-Rep lists this way, beside their copies in
  memory.
\<close>

section \<open>Prefix ranges under updates\<close>

lemma kv_ok_prefix [simp]: "kv_ok db \<Longrightarrow> kv_ok (Iterator_prefix db p)"
  by (simp add: Iterator_prefix_eq)

lemma kv_get_Iterator_prefix [simp]:
  "kv_get k (Iterator_prefix db p) = (if take (length p) k = p then kv_get k db else None)"
  unfolding Iterator_prefix_eq kv_get_def using map_of_filter_key [of "\<lambda>x. take (length p) x = p" db k] by simp

lemma Iterator_prefix_Set:
  "kv_ok db \<Longrightarrow> Iterator_prefix (Bucket_Set db p k v) p = kv_put (p @ k) v (Iterator_prefix db p)"
  by (rule kv_ext) (auto simp: Bucket_Set_def)

lemma Iterator_prefix_Set_other:
  assumes "kv_ok db" "length q = length p" "q \<noteq> p"
  shows "Iterator_prefix (Bucket_Set db q k v) p = Iterator_prefix db p"
  using assms by (intro kv_ext) (auto simp: Bucket_Set_def)

lemma Iterator_prefix_Delete:
  "kv_ok db \<Longrightarrow> Iterator_prefix (Bucket_Delete db p k) p = kv_del (p @ k) (Iterator_prefix db p)"
  by (rule kv_ext) (auto simp: Bucket_Delete_def)

lemma Iterator_prefix_Delete_other:
  assumes "kv_ok db" "length q = length p" "q \<noteq> p"
  shows "Iterator_prefix (Bucket_Delete db q k) p = Iterator_prefix db p"
  using assms by (intro kv_ext) (auto simp: Bucket_Delete_def)

lemma kv_put_last: "\<forall>p \<in> set m. fst p < k \<Longrightarrow> kv_put k v m = m @ [(k, v)]"
  by (induction k v m rule: kv_put.induct) auto

lemma append_less_append [simp]: "p @ x < p @ (y :: bytes) \<longleftrightarrow> x < y"
  by (induction p) auto

section \<open>The contract of a kind of record\<close>

locale record_table =
  fixes bid :: bucket_id
    and key :: "'r \<Rightarrow> bytes"
    and enc :: "'r \<Rightarrow> obj"
    and dec :: "bytes \<Rightarrow> obj \<Rightarrow> 'r option"
    and ok :: "'r \<Rightarrow> bool"
  assumes dec_enc: "ok r \<Longrightarrow> dec (key r) (enc r) = Some r"
begin

lemma store_load:
  "kv_ok db \<Longrightarrow> ok r \<Longrightarrow> Option.bind (Bucket_Get (Bucket_Set db bid (key r) (enc r)) bid (key r)) (dec (key r)) = Some r"
  by (simp add: dec_enc)

lemma store_load_other:
  "kv_ok db \<Longrightarrow> k \<noteq> key r \<Longrightarrow> Bucket_Get (Bucket_Set db bid (key r) (enc r)) bid k = Bucket_Get db bid k"
  by simp

lemma enc_inject: "ok r \<Longrightarrow> ok r' \<Longrightarrow> key r = key r' \<Longrightarrow> enc r = enc r' \<Longrightarrow> r = r'"
  using dec_enc by (metis option.inject)

end

text \<open>The entries of a list of records with the given keys, and when a database holds them.\<close>

definition rows :: "bucket_id \<Rightarrow> ('r \<Rightarrow> u64) \<Rightarrow> ('r \<Rightarrow> obj) \<Rightarrow> 'r list \<Rightarrow> obj kv" where
  "rows bid height enc rs = map (\<lambda>r. (bid @ bh_key (height r), enc r)) rs"

definition holds :: "bucket_id \<Rightarrow> ('r \<Rightarrow> u64) \<Rightarrow> ('r \<Rightarrow> obj) \<Rightarrow> ('r \<Rightarrow> bool) \<Rightarrow> obj kv \<Rightarrow> 'r list \<Rightarrow> bool" where
  "holds bid height enc ok db rs \<longleftrightarrow>
     kv_ok db \<and> sorted_wrt (<) (map height rs) \<and> (\<forall>r \<in> set rs. ok r) \<and> Iterator_prefix db bid = rows bid height enc rs"

text \<open>A change to one prefix leaves the other prefixes of the same length alone.\<close>

definition same_but :: "bucket_id \<Rightarrow> obj kv \<Rightarrow> obj kv \<Rightarrow> bool" where
  "same_but p db db' \<longleftrightarrow> (\<forall>q k. length q = length p \<longrightarrow> q \<noteq> p \<longrightarrow> kv_get (q @ k) db' = kv_get (q @ k) db)"

lemma same_but_refl [simp]: "same_but p db db"
  by (simp add: same_but_def)

lemma same_but_trans: "same_but p a b \<Longrightarrow> same_but p b c \<Longrightarrow> same_but p a c"
  by (simp add: same_but_def)

lemma same_but_Set: "kv_ok db \<Longrightarrow> same_but p (Bucket_Set db p k v) db' \<Longrightarrow> same_but p db db'"
  by (auto simp: same_but_def Bucket_Set_def)

lemma same_but_Delete: "same_but p (Bucket_Delete db p k) db' \<Longrightarrow> same_but p db db'"
  by (auto simp: same_but_def Bucket_Delete_def)

lemma same_but_fold_Delete: "same_but p db (fold (\<lambda>x db. Bucket_Delete db p (f x)) xs db)"
  by (induction xs arbitrary: db) (auto intro: same_but_Delete)

lemma same_but_prefix:
  assumes "same_but p db db'" "kv_ok db" "kv_ok db'" "length q = length p" "q \<noteq> p"
  shows "Iterator_prefix db' q = Iterator_prefix db q"
proof (rule kv_ext)
  show "kv_get k (Iterator_prefix db' q) = kv_get k (Iterator_prefix db q)" for k
    using assms(1,4,5) unfolding same_but_def kv_get_Iterator_prefix by (metis append_take_drop_id)
qed (use assms in auto)

lemma old_index_Some:
  assumes "old_index height h xs = Some i"
  shows "i < length xs \<and> height (xs ! i) \<le> h"
proof -
  have "i \<in> set (rev (filter (\<lambda>i. height (xs ! i) \<le> h) [0..<length xs]))"
    using assms by (cases "rev (filter (\<lambda>i. height (xs ! i) \<le> h) [0..<length xs])") (auto simp: old_index_def)
  then show ?thesis by auto
qed

locale height_table = record_table bid "\<lambda>r. bh_key (height r)" enc "\<lambda>k v. Some (load (BytesToUint64 k) v)" ok
  for bid :: bucket_id and height :: "'r \<Rightarrow> u64" and enc :: "'r \<Rightarrow> obj" and load :: "u64 \<Rightarrow> obj \<Rightarrow> 'r" and ok :: "'r \<Rightarrow> bool"
begin

lemma holds_load:
  assumes "holds bid height enc ok db rs"
  shows "map (\<lambda>(k, v). load (BytesToUint64 (drop (length bid) k)) v) (Iterator_prefix db bid) = rs"
proof -
  have "load (height r) (enc r) = r" if "r \<in> set rs" for r
    using dec_enc [of r] assms that by (simp add: holds_def)
  then show ?thesis using assms by (auto simp: holds_def rows_def intro!: map_idI)
qed

lemma holds_empty: "kv_ok db \<Longrightarrow> Iterator_prefix db bid = [] \<Longrightarrow> holds bid height enc ok db []"
  by (simp add: holds_def rows_def)

lemma holds_append:
  assumes "holds bid height enc ok db rs" "ok r" "\<forall>x \<in> set rs. height x < height r"
  shows "holds bid height enc ok (Bucket_Set db bid (bh_key (height r)) (enc r)) (rs @ [r])"
  using assms by (auto simp: holds_def rows_def Iterator_prefix_Set kv_put_last sorted_wrt_append)

lemma holds_other:
  assumes "holds bid height enc ok db rs" "length q = length bid" "q \<noteq> bid"
  shows "holds bid height enc ok (Bucket_Set db q k v) rs" "holds bid height enc ok (Bucket_Delete db q k) rs"
  using assms by (simp_all add: holds_def Iterator_prefix_Set_other Iterator_prefix_Delete_other)

lemma holds_delete:
  assumes "holds bid height enc ok db rs"
  shows "holds bid height enc ok (Bucket_Delete db bid (bh_key h)) (filter (\<lambda>r. height r \<noteq> h) rs)"
proof -
  have "kv_del (bid @ bh_key h) (rows bid height enc rs) = rows bid height enc (filter (\<lambda>r. height r \<noteq> h) rs)"
    by (simp add: kv_del_def rows_def filter_map comp_def)
  then show ?thesis
    using assms by (auto simp: holds_def Iterator_prefix_Delete sorted_wrt_filter filter_map [symmetric, unfolded comp_def]
        sorted_wrt_map)
qed

lemma holds_delete_all:
  assumes "holds bid height enc ok db rs"
  shows "holds bid height enc ok (fold (\<lambda>x db. Bucket_Delete db bid (bh_key (height x))) xs db)
    (filter (\<lambda>r. height r \<notin> height ` set xs) rs)"
  using assms
proof (induction xs arbitrary: db rs)
  case (Cons x xs)
  from Cons.IH [OF holds_delete [OF Cons.prems, of "height x"]] show ?case
    by (simp add: conj_commute)
qed simp

lemma rollback_keeps: "n \<le> length rs \<Longrightarrow> \<forall>r \<in> set rs. height r \<le> h \<Longrightarrow> rollback_loop height key bid h n rs db = (rs, db)"
proof (induction n)
  case (Suc n)
  then have "height (rs ! n) \<le> h" by (meson Suc_le_lessD nth_mem)
  then have "\<not> h < height (rs ! n)" by (simp add: not_less)
  with Suc show ?case by simp
qed simp

text \<open>A rollback leaves exactly the records up to the height, in memory and in the database.\<close>

lemma rollback_holds:
  assumes "holds bid height enc ok db rs"
  shows "\<exists>db'. rollback_loop height (\<lambda>r. bh_key (height r)) bid h (length rs) rs db = (filter (\<lambda>r. height r \<le> h) rs, db') \<and>
    holds bid height enc ok db' (filter (\<lambda>r. height r \<le> h) rs) \<and> same_but bid db db'"
  using assms
proof (induction rs arbitrary: db rule: rev_induct)
  case (snoc r rs)
  have le: "\<forall>x \<in> set rs. height x < height r" using snoc.prems by (auto simp: holds_def sorted_wrt_append)
  show ?case
  proof (cases "h < height r")
    case True
    have "holds bid height enc ok (Bucket_Delete db bid (bh_key (height r))) rs"
    proof -
      have "filter (\<lambda>x. height x \<noteq> height r) rs = rs" using le by (auto simp: filter_id_conv)
      then show ?thesis using holds_delete [OF snoc.prems, of "height r"] by simp
    qed
    from snoc.IH [OF this] True show ?thesis
      by (auto simp: not_le intro: same_but_Delete)
  next
    case False
    then have all: "\<forall>x \<in> set (rs @ [r]). height x \<le> h" using le by (auto simp: not_less)
    moreover from all have "filter (\<lambda>x. height x \<le> h) (rs @ [r]) = rs @ [r]" by (simp add: filter_id_conv)
    moreover note rollback_keeps [OF order.refl all, of "\<lambda>r. bh_key (height r)" db]
    ultimately show ?thesis using snoc.prems by (simp del: rollback_loop.simps)
  qed
qed simp

text \<open>
  Pruning drops a number of records at the front. The record it stops at is the last one not
  above the height, which is still in force there.
\<close>

lemma delete_old_holds:
  assumes "holds bid height enc ok db rs"
  shows "\<exists>n db'. delete_old height (\<lambda>r. bh_key (height r)) bid h rs db = (drop n rs, db') \<and>
    holds bid height enc ok db' (drop n rs) \<and> same_but bid db db' \<and> (0 < n \<longrightarrow> n < length rs \<and> height (rs ! n) \<le> h)"
proof (cases "old_index height h rs")
  case None
  then show ?thesis using assms by (intro exI [of _ 0] exI [of _ db]) (simp add: delete_old_def)
next
  case (Some i)
  have srt: "sorted_wrt (<) (map height rs)" using assms by (simp add: holds_def)
  have i: "i < length rs" "height (rs ! i) \<le> h" using old_index_Some [OF Some] by simp_all
  have lt: "height x < height (rs ! i)" if x: "x \<in> set (take i rs)" for x
  proof -
    obtain j where "j < i" "x = rs ! j" using x i(1) by (auto simp: in_set_conv_nth)
    then show ?thesis using sorted_wrt_nth_less [OF srt, of j i] i(1) by simp
  qed
  then have f: "filter (\<lambda>x. height x \<le> h) (take i rs) = take i rs"
    using i(2) by (force simp: filter_id_conv)
  have ge: "height (rs ! i) \<le> height x" if x: "x \<in> set (drop i rs)" for x
  proof -
    obtain j where "j < length rs - i" "x = rs ! (i + j)" using x by (auto simp: in_set_conv_nth)
    then show ?thesis using sorted_wrt_nth_less [OF srt, of i "i + j"] i(1) by (cases j) (simp_all add: less_imp_le)
  qed
  have keep: "filter (\<lambda>r. height r \<notin> height ` set (take i rs)) rs = drop i rs"
  proof -
    have "filter (\<lambda>r. height r \<notin> height ` set (take i rs)) (take i rs) = []"
      by (simp add: filter_empty_conv)
    moreover have "height x \<notin> height ` set (take i rs)" if "x \<in> set (drop i rs)" for x
      using ge [OF that] lt by (metis imageE leD)
    then have "filter (\<lambda>r. height r \<notin> height ` set (take i rs)) (drop i rs) = drop i rs"
      by (simp add: filter_id_conv)
    ultimately have "filter (\<lambda>r. height r \<notin> height ` set (take i rs)) (take i rs @ drop i rs) = drop i rs"
      unfolding filter_append by simp
    then show ?thesis by simp
  qed
  let ?db = "fold (\<lambda>x db. Bucket_Delete db bid (bh_key (height x))) (rev (take i rs)) db"
  have "holds bid height enc ok ?db (drop i rs)"
    using holds_delete_all [OF assms, of "rev (take i rs)"] by (simp add: keep)
  moreover have "same_but bid db ?db" by (rule same_but_fold_Delete)
  ultimately show ?thesis
    using i Some f by (intro exI [of _ i] exI [of _ ?db]) (auto simp: delete_old_def)
qed

end

end
