(* ===== verification/CalcDebugging.thy ===== *)
theory CalcDebugging
  imports Context
begin

text \<open>
  \<^verbatim>\<open>core/calculation_debug.go\<close>: the trace of the rewards of chosen addresses. The
  calculation calls the \<^verbatim>\<open>WriteBeta\<close> functions for every reward it computes; they work
  on 64-bit integers and write nothing unless debugging is on. A pointer to an element of a
  list is its index; a nil dereference is \<open>None\<close>.
\<close>

definition rewardDivider :: int where "rewardDivider = 15552000 * 10000 div 1000"

definition NeedToUpdateCalcDebugResult :: "Context \<Rightarrow> bool" where
  "NeedToUpdateCalcDebugResult ctx \<longleftrightarrow>
     conf_Flag (dbg_conf (calcDebug ctx)) \<and> 0 < length (conf_Addresses (dbg_conf (calcDebug ctx)))"

definition CalcDebugResult_ID :: "CalcDebugResult \<Rightarrow> bytes" where
  "CalcDebugResult_ID cb =
     (let bh = Uint64ToBytes (dbr_BlockHeight cb);
          blockHash = (case hex_decode (drop 2 (dbr_BlockHash cb)) of Inl _ \<Rightarrow> [] | Inr b \<Rightarrow> b);
          i0 = replicate (BlockHeightSize + BlockHashSize) 0
      in copy_at (copy_at i0 (BlockHeightSize - length bh) bh) BlockHeightSize blockHash)"

definition upd_result :: "(CalcDebugResult \<Rightarrow> CalcDebugResult) \<Rightarrow> Context \<Rightarrow> Context" where
  "upd_result f ctx = ctx\<lparr>calcDebug := (calcDebug ctx)\<lparr>dbg_result := map_option f (dbg_result (calcDebug ctx))\<rparr>\<rparr>"

definition upd_results :: "(CalcResult list \<Rightarrow> CalcResult list) \<Rightarrow> Context \<Rightarrow> Context" where
  "upd_results f = upd_result (\<lambda>r. r\<lparr>dbr_Data := (dbr_Data r)\<lparr>dbg_Results := f (dbg_Results (dbr_Data r))\<rparr>\<rparr>)"

definition InitCalcResult :: "Context \<Rightarrow> address \<Rightarrow> Context option" where
  "InitCalcResult ctx addr =
     (case getQueryDB (DB ctx) addr of
        None \<Rightarrow> None
      | Some qDB \<Rightarrow>
          (case (case Bucket_Get (disk_read (dirs (DB ctx)) qDB) PrefixIScore (Address_Bytes addr) of
                   None \<Rightarrow> Inr 0
                 | Some bs \<Rightarrow> bindE (NewIScoreAccountFromBytes bs) (\<lambda>ia. Inr (ia_IScore ia))) of
             Inl _ \<Rightarrow> None
           | Inr initialIScore \<Rightarrow>
               if dbg_result (calcDebug ctx) = None then None
               else
                 Some (upd_results (\<lambda>rs. rs @
                   [\<lparr>cres_Address = addr, cres_InitialIScore = initialIScore,
                     cres_TotalIScore = initialIScore,
                     cres_Rewards = map (\<lambda>gv. NewReward (gv_BlockHeight gv)) (GV ctx)\<rparr>]) ctx)))"

fun foldP :: "('a \<Rightarrow> 's \<Rightarrow> 's option) \<Rightarrow> 'a list \<Rightarrow> 's \<Rightarrow> 's option" where
  "foldP f [] s = Some s"
| "foldP f (x # xs) s = (case f x s of None \<Rightarrow> None | Some s' \<Rightarrow> foldP f xs s')"

definition InitCalcDebugResult :: "u64 \<Rightarrow> bytes \<Rightarrow> Context \<Rightarrow> Context option" where
  "InitCalcDebugResult blockHeight blockHash ctx =
     (if \<not> NeedToUpdateCalcDebugResult ctx then Some ctx
      else
        (let hash = (if blockHash = [] then replicate BlockHashSize 0 else blockHash);
             r = \<lparr>dbr_BlockHeight = blockHeight, dbr_BlockHash = ''0x'' @ hex_encode hash,
                  dbr_Data = \<lparr>dbg_Preps = map snd (PRepCandidates ctx), dbg_GV = GV ctx, dbg_Results = []\<rparr>\<rparr>
         in foldP (\<lambda>a c. InitCalcResult c a) (conf_Addresses (dbg_conf (calcDebug ctx)))
              (ctx\<lparr>calcDebug := (calcDebug ctx)\<lparr>dbg_result := Some r\<rparr>\<rparr>)))"

section \<open>Finding the entry of an address\<close>

fun find_index :: "('a \<Rightarrow> bool) \<Rightarrow> 'a list \<Rightarrow> nat option" where
  "find_index P [] = None"
| "find_index P (x # xs) = (if P x then Some 0 else map_option Suc (find_index P xs))"

definition getCalcResult :: "Context \<Rightarrow> address \<Rightarrow> nat option option" where
  "getCalcResult ctx addr =
     (case dbg_result (calcDebug ctx) of
        None \<Rightarrow> None
      | Some r \<Rightarrow> Some (find_index (\<lambda>c. cres_Address c = addr) (dbg_Results (dbr_Data r))))"

definition GetCalcResult :: "Context \<Rightarrow> address \<Rightarrow> (Context \<times> nat) option" where
  "GetCalcResult ctx addr =
     (case getCalcResult ctx addr of
        None \<Rightarrow> None
      | Some (Some i) \<Rightarrow> Some (ctx, i)
      | Some None \<Rightarrow>
          (case InitCalcResult ctx addr of
             None \<Rightarrow> None
           | Some ctx' \<Rightarrow>
               (case getCalcResult ctx' addr of Some (Some i) \<Rightarrow> Some (ctx', i) | _ \<Rightarrow> None)))"

text \<open>
  The loop of \<^verbatim>\<open>getReward\<close> runs from the end and does not stop at a match: it returns
  the first entry below the height, not the last.
\<close>

definition getReward :: "CalcResult \<Rightarrow> u64 \<Rightarrow> nat option" where
  "getReward cr blockHeight = find_index (\<lambda>r. rw_BlockHeight r < blockHeight) (cres_Rewards cr)"

text \<open>Adds to the total of an address and changes the reward of a height.\<close>

definition add_reward ::
    "Context \<Rightarrow> address \<Rightarrow> u64 \<Rightarrow> int \<Rightarrow> (Reward \<Rightarrow> Reward) \<Rightarrow> Context option" where
  "add_reward ctx addr blockHeight iScore f =
     (case GetCalcResult ctx addr of
        None \<Rightarrow> None
      | Some (ctx', i) \<Rightarrow>
          (case dbg_result (calcDebug ctx') of
             None \<Rightarrow> None
           | Some r \<Rightarrow>
               (let cr = dbg_Results (dbr_Data r) ! i in
                case getReward cr blockHeight of
                  None \<Rightarrow> None
                | Some j \<Rightarrow>
                    (let cr' = cr\<lparr>cres_Rewards := (cres_Rewards cr)[j := f (cres_Rewards cr ! j)],
                                  cres_TotalIScore := cres_TotalIScore cr + iScore\<rparr>
                     in Some (upd_results (\<lambda>rs. rs[i := cr']) ctx')))))"

section \<open>The three kinds of reward\<close>

definition fmt_u64 :: "u64 \<Rightarrow> string" where
  "fmt_u64 v = dec_digits (unat v)"

definition beta1_generate :: "u64 \<Rightarrow> Reward \<Rightarrow> Reward" where
  "beta1_generate produceReward r =
     (let b = rw_Beta1 r; g = b1_Generate b; count = gen_BlockCount g + 1;
          g' = g\<lparr>gen_BlockCount := count, gen_IScore := gen_IScore g + produceReward,
                 gen_Formula := fmt_u64 count @ '' * '' @ HexInt_String (uint produceReward)\<rparr>
      in r\<lparr>rw_Beta1 := b\<lparr>b1_Generate := g', b1_IScore := b1_IScore b + uint produceReward\<rparr>\<rparr>)"

definition beta1_validate :: "u64 \<Rightarrow> u64 \<Rightarrow> Reward \<Rightarrow> Reward" where
  "beta1_validate produceReward validatorCount r =
     (let b = rw_Beta1 r; iScore = produceReward div validatorCount;
          vs = (case find_index (\<lambda>v. vi_ValidatorCount v = validatorCount) (b1_Validate b) of
                  Some i \<Rightarrow> b1_Validate b
                | None \<Rightarrow> b1_Validate b @
                    [\<lparr>vi_ValidatorCount = validatorCount, vi_BlockCount = 0, vi_Formula = [], vi_IScore = 0\<rparr>]);
          i = (case find_index (\<lambda>v. vi_ValidatorCount v = validatorCount) vs of Some i \<Rightarrow> i | None \<Rightarrow> 0);
          v = vs ! i; count = vi_BlockCount v + 1;
          v' = v\<lparr>vi_BlockCount := count, vi_IScore := vi_IScore v + iScore,
                 vi_Formula := fmt_u64 count @ '' * '' @ HexInt_String (uint produceReward) @ '' / '' @
                               fmt_u64 validatorCount\<rparr>
      in r\<lparr>rw_Beta1 := b\<lparr>b1_Validate := vs[i := v'], b1_IScore := b1_IScore b + uint iScore\<rparr>\<rparr>)"

definition writeBeta1Info :: "address \<Rightarrow> u64 \<Rightarrow> IISSBlockProduceInfo \<Rightarrow> Context \<Rightarrow> Context option" where
  "writeBeta1Info addr produceReward bp ctx =
     (if bp_Generator bp = addr then
        add_reward ctx addr (bp_BlockHeight bp) (uint produceReward) (beta1_generate produceReward)
      else if addr \<in> set (bp_Validator bp) then
        (let n = of_nat (length (bp_Validator bp)) in
         add_reward ctx addr (bp_BlockHeight bp) (uint (produceReward div n)) (beta1_validate produceReward n))
      else Some ctx)"

definition WriteBeta1Info :: "u64 \<Rightarrow> IISSBlockProduceInfo \<Rightarrow> Context \<Rightarrow> Context option" where
  "WriteBeta1Info produceReward bp ctx =
     (if \<not> NeedToUpdateCalcDebugResult ctx then Some ctx
      else foldP (\<lambda>a. writeBeta1Info a produceReward bp) (conf_Addresses (dbg_conf (calcDebug ctx))) ctx)"

text \<open>64-bit products wrap; a total delegation that is 0 modulo $2^{64}$ divides by zero.\<close>

definition writeBeta2Info ::
    "address \<Rightarrow> PRepDelegationInfo \<Rightarrow> PRep \<Rightarrow> u64 \<Rightarrow> u64 \<Rightarrow> u64 \<Rightarrow> Context \<Rightarrow> Context option" where
  "writeBeta2Info addr delegationInfo prep startBlock endBlock prepReward ctx =
     (if di_Address delegationInfo = addr then
        (let period = endBlock - startBlock;
             totalDelegation = big_uint64 (pr_TotalDelegation prep);
             delegatedAmount = big_uint64 (di_DelegatedAmount delegationInfo);
             iScore = prepReward * delegatedAmount * period div totalDelegation;
             d = \<lparr>dd_BlockHeight = endBlock, dd_Delegated = delegatedAmount, dd_TotalDelegated = totalDelegation,
                  dd_Formula = HexInt_String (uint prepReward) @ '' * '' @ fmt_u64 delegatedAmount @ '' * '' @
                               fmt_u64 period @ '' / '' @ fmt_u64 totalDelegation,
                  dd_IScore = iScore\<rparr>
         in if totalDelegation = 0 then None
            else add_reward ctx addr endBlock (uint iScore)
                   (\<lambda>r. r\<lparr>rw_Beta2 := \<lparr>b2_IScore = b2_IScore (rw_Beta2 r) + uint iScore,
                                       b2_DelegatedInfo = b2_DelegatedInfo (rw_Beta2 r) @ [d]\<rparr>\<rparr>))
      else Some ctx)"

definition WriteBeta2Info ::
    "PRepDelegationInfo \<Rightarrow> PRep \<Rightarrow> u64 \<Rightarrow> u64 \<Rightarrow> u64 \<Rightarrow> Context \<Rightarrow> Context option" where
  "WriteBeta2Info delegationInfo prep startBlock endBlock prepReward ctx =
     (if \<not> NeedToUpdateCalcDebugResult ctx then Some ctx
      else foldP (\<lambda>a. writeBeta2Info a delegationInfo prep startBlock endBlock prepReward)
             (conf_Addresses (dbg_conf (calcDebug ctx))) ctx)"

definition writeBeta3Info ::
    "address \<Rightarrow> address \<Rightarrow> u64 \<Rightarrow> DelegateData \<Rightarrow> u64 \<Rightarrow> u64 \<Rightarrow> Context \<Rightarrow> Context option" where
  "writeBeta3Info debugAddress rewardAddress rewardRep delegationInfo period endBlock ctx =
     (if rewardAddress = debugAddress then
        (let amount = big_uint64 (dg_Delegate delegationInfo);
             iScore = rewardRep * period * amount div word_of_int rewardDivider;
             d = \<lparr>dn_BlockHeight = endBlock, dn_Address = dg_Address delegationInfo, dn_Amount = amount,
                  dn_Formula = HexInt_String (uint rewardRep) @ '' * '' @ fmt_u64 period @ '' * '' @
                               fmt_u64 amount @ '' / '' @ dec_string rewardDivider,
                  dn_IScore = iScore\<rparr>
         in add_reward ctx debugAddress endBlock (uint iScore)
              (\<lambda>r. r\<lparr>rw_Beta3 := \<lparr>b3_IScore = b3_IScore (rw_Beta3 r) + uint iScore,
                                  b3_DelegationInfo = b3_DelegationInfo (rw_Beta3 r) @ [d]\<rparr>\<rparr>))
      else Some ctx)"

definition WriteBeta3Info ::
    "address \<Rightarrow> u64 \<Rightarrow> DelegateData \<Rightarrow> u64 \<Rightarrow> u64 \<Rightarrow> Context \<Rightarrow> Context option" where
  "WriteBeta3Info rewardAddress rewardRep delegationInfo period endBlock ctx =
     (if \<not> NeedToUpdateCalcDebugResult ctx then Some ctx
      else foldP (\<lambda>a. writeBeta3Info a rewardAddress rewardRep delegationInfo period endBlock)
             (conf_Addresses (dbg_conf (calcDebug ctx))) ctx)"

section \<open>Storing the trace, and the debug configuration\<close>

definition WriteCalcDebugResult :: "Context \<Rightarrow> Context option" where
  "WriteCalcDebugResult ctx =
     (case dbg_result (calcDebug ctx) of
        None \<Rightarrow> None
      | Some r \<Rightarrow> Some (ctx\<lparr>calcDebug_db := Bucket_Set (calcDebug_db ctx) [] (CalcDebugResult_ID r) (dbr_Data r)\<rparr>))"

definition ResetCalcDebugResults :: "Context \<Rightarrow> Context option" where
  "ResetCalcDebugResults ctx =
     (if dbg_result (calcDebug ctx) = None then None else Some (upd_results (\<lambda>_. []) ctx))"

definition AddDebuggingAddress :: "address \<Rightarrow> Context \<Rightarrow> Context" where
  "AddDebuggingAddress addr ctx =
     (let c = dbg_conf (calcDebug ctx) in
      if addr \<in> set (conf_Addresses c) then ctx
      else ctx\<lparr>calcDebug := (calcDebug ctx)\<lparr>dbg_conf := c\<lparr>conf_Addresses := conf_Addresses c @ [addr]\<rparr>\<rparr>\<rparr>)"

text \<open>
  The second loop of \<^verbatim>\<open>DeleteDebuggingAddress\<close> ranges over the slice it started with
  while it removes entries from the same array: \<open>arr\<close> is that array, \<open>m\<close> the
  length of the current slice. A slice bound beyond \<open>m\<close> panics.
\<close>

fun delete_results :: "address \<Rightarrow> nat \<Rightarrow> nat \<Rightarrow> CalcResult list \<Rightarrow> nat \<Rightarrow> CalcResult list option" where
  "delete_results addr i 0 arr m = Some (take m arr)"
| "delete_results addr i (Suc k) arr m =
     (if cres_Address (arr ! i) = addr then
        (if m < i + 1 then None
         else delete_results addr (Suc i) k (take i arr @ drop (i + 1) (take m arr) @ drop (m - 1) arr) (m - 1))
      else delete_results addr (Suc i) k arr m)"

definition DeleteDebuggingAddress :: "address \<Rightarrow> Context \<Rightarrow> Context option" where
  "DeleteDebuggingAddress addr ctx =
     (let c = dbg_conf (calcDebug ctx);
          ctx1 = ctx\<lparr>calcDebug := (calcDebug ctx)
                   \<lparr>dbg_conf := c\<lparr>conf_Addresses := filter (\<lambda>a. a \<noteq> addr) (conf_Addresses c)\<rparr>\<rparr>\<rparr>
      in case dbg_result (calcDebug ctx) of
           None \<Rightarrow> Some ctx1
         | Some r \<Rightarrow>
             (let rs = dbg_Results (dbr_Data r) in
              map_option (\<lambda>rs'. upd_results (\<lambda>_. rs') ctx1) (delete_results addr 0 (length rs) rs (length rs))))"

section \<open>What the trace functions leave alone\<close>

text \<open>Everything but the debugging data is the same.\<close>

definition same_core :: "Context \<Rightarrow> Context \<Rightarrow> bool" where
  "same_core c c' \<longleftrightarrow>
     DB c' = DB c \<and> Revision c' = Revision c \<and> PReps c' = PReps c \<and> PRepCandidates c' = PRepCandidates c \<and>
     GV c' = GV c \<and> stats c' = stats c \<and> Cancel c' = Cancel c \<and> calcDebug_db c' = calcDebug_db c \<and>
     dbg_conf (calcDebug c') = dbg_conf (calcDebug c)"

lemma same_core_refl [simp, intro]: "same_core c c"
  by (simp add: same_core_def)

lemma same_core_trans [trans]: "same_core a b \<Longrightarrow> same_core b c \<Longrightarrow> same_core a c"
  by (simp add: same_core_def)

lemma same_core_upd_results [simp, intro]: "same_core c (upd_results f c)"
  by (simp add: same_core_def upd_results_def upd_result_def)

lemma same_core_InitCalcResult: "InitCalcResult c a = Some c' \<Longrightarrow> same_core c c'"
  by (auto simp: InitCalcResult_def split: option.splits sum.splits if_splits)

lemma same_core_GetCalcResult: "GetCalcResult c a = Some (c', i) \<Longrightarrow> same_core c c'"
  by (auto simp: GetCalcResult_def split: option.splits dest: same_core_InitCalcResult)

lemma same_core_add_reward:
  assumes "add_reward c a h i f = Some c'"
  shows "same_core c c'"
proof -
  from assms obtain c1 k where "GetCalcResult c a = Some (c1, k)" and c': "same_core c1 c'"
    by (auto simp: add_reward_def Let_def split: option.splits)
  then have "same_core c c1" by (blast dest: same_core_GetCalcResult)
  from this c' show ?thesis by (rule same_core_trans)
qed

lemma same_core_foldP:
  assumes "foldP f xs c = Some c'" "\<And>x c c'. f x c = Some c' \<Longrightarrow> same_core c c'"
  shows "same_core c c'"
  using assms(1)
proof (induction xs arbitrary: c)
  case (Cons x xs)
  then obtain c1 where "f x c = Some c1" "foldP f xs c1 = Some c'" by (auto split: option.splits)
  with Cons.IH assms(2) show ?case by (blast intro: same_core_trans)
qed simp

lemma same_core_writeBeta:
  "writeBeta1Info a p bp c = Some c' \<Longrightarrow> same_core c c'"
  "writeBeta2Info a d prep s e r c = Some c' \<Longrightarrow> same_core c c'"
  "writeBeta3Info a ra rr dg q e c = Some c' \<Longrightarrow> same_core c c'"
  unfolding writeBeta1Info_def writeBeta2Info_def writeBeta3Info_def Let_def
  by (auto split: if_splits elim: same_core_add_reward)

lemma same_core_WriteBeta1Info: "WriteBeta1Info p bp c = Some c' \<Longrightarrow> same_core c c'"
  unfolding WriteBeta1Info_def
  by (auto split: if_splits elim!: same_core_foldP elim: same_core_writeBeta)

lemma same_core_WriteBeta2Info: "WriteBeta2Info d p s e r c = Some c' \<Longrightarrow> same_core c c'"
  unfolding WriteBeta2Info_def
  by (auto split: if_splits elim!: same_core_foldP elim: same_core_writeBeta)

lemma same_core_WriteBeta3Info: "WriteBeta3Info a r d p e c = Some c' \<Longrightarrow> same_core c c'"
  unfolding WriteBeta3Info_def
  by (auto split: if_splits elim!: same_core_foldP elim: same_core_writeBeta)

end
