(* ===== verification/Calculate.thy ===== *)
theory Calculate
  imports CalcDebugging
begin

text \<open>
  \<^verbatim>\<open>core/msg_calculate.go\<close>: the reward calculation of a term. The delegation reward of
  every account is computed shard by shard from the query into the calculate database
  (\<open>calculateDB\<close>), then the transactions of the term (\<open>calculateIISSTX\<close>), the
  block producers (\<open>calculateIISSBlockProduce\<close>) and the P-Reps
  (\<open>calculatePRepReward\<close>) are applied, and a hash over the results is made.

  \<open>shake\<close> stands for \<^verbatim>\<open>sha3.ShakeSum256\<close> with 64 bytes of output over the bytes written
  to the hash; \<open>order\<close> for the iteration order of a Go map. Goroutines of the shards work on
  databases of their own and are run one after the other. A panic is \<open>None\<close>.
\<close>

section \<open>Delegation reward\<close>

definition writeBatchCount :: u64 where "writeBatchCount = 10"
definition MinDelegation :: u64 where "MinDelegation = 15552000 div 1000 * (10000 div 200)"

fun delegation_loop ::
    "DelegateData \<Rightarrow> u64 \<Rightarrow> u64 \<Rightarrow> address \<Rightarrow> GovernanceVariable list \<Rightarrow> int \<times> Context \<Rightarrow> (int \<times> Context) option" where
  "delegation_loop dg start end_h addr [] s = Some s"
| "delegation_loop dg start end_h addr (gv # gvs) (acc, ctx) =
     (let s = (if start < gv_BlockHeight gv then gv_BlockHeight gv else start);
          e = (case gvs of
                 [] \<Rightarrow> end_h
               | next # _ \<Rightarrow> if gv_BlockHeight next < end_h then gv_BlockHeight next else end_h)
      in if e \<le> s then delegation_loop dg start end_h addr gvs (acc, ctx)
         else
           (let period = e - s;
                reward = dg_Delegate dg * uint period * gv_RewardRep gv div rewardDivider
            in case WriteBeta3Info addr (big_uint64 (gv_RewardRep gv)) dg period e ctx of
                 None \<Rightarrow> None
               | Some ctx' \<Rightarrow> delegation_loop dg start end_h addr gvs (acc + reward, ctx')))"

definition calculateDelegationReward ::
    "Context \<Rightarrow> DelegateData \<Rightarrow> u64 \<Rightarrow> u64 \<Rightarrow> PRepCandidate \<Rightarrow> address \<Rightarrow> (int \<times> Context) option" where
  "calculateDelegationReward ctx delegationInfo start end_h pRep rewardAddress =
     (let start' = (if start < pc_Start pRep then pc_Start pRep else start);
          end' = (if pc_End pRep \<noteq> 0 \<and> pc_End pRep < end_h then pc_End pRep else end_h)
      in delegation_loop delegationInfo start' end' rewardAddress (GV ctx) (0, ctx))"

fun iscore_loop ::
    "IScoreAccount \<Rightarrow> u64 \<Rightarrow> DelegateData option list \<Rightarrow> int \<times> Context \<Rightarrow> (int \<times> Context) option" where
  "iscore_loop ia blockHeight [] s = Some s"
| "iscore_loop ia blockHeight (None # dgs) s = None"
| "iscore_loop ia blockHeight (Some dg # dgs) (acc, ctx) =
     (if MinDelegation > big_uint64 (dg_Delegate dg) then iscore_loop ia blockHeight dgs (acc, ctx)
      else case map_of (PRepCandidates ctx) (dg_Address dg) of
        None \<Rightarrow> iscore_loop ia blockHeight dgs (acc, ctx)
      | Some pRep \<Rightarrow>
          (case calculateDelegationReward ctx dg (ia_BlockHeight ia) blockHeight pRep (ia_Address ia) of
             None \<Rightarrow> None
           | Some (reward, ctx') \<Rightarrow> iscore_loop ia blockHeight dgs (acc + reward, ctx')))"

text \<open>The reward is \<open>None\<close> when the account is already at the height.\<close>

definition calculateIScore ::
    "Context \<Rightarrow> IScoreAccount \<Rightarrow> u64 \<Rightarrow> (int option \<times> IScoreAccount \<times> Context) option" where
  "calculateIScore ctx ia blockHeight =
     (let bh = (if blockHeight = 0 then ia_BlockHeight ia + 1 else blockHeight) in
      if bh \<le> ia_BlockHeight ia then Some (None, ia, ctx)
      else case iscore_loop ia bh (ia_Delegations ia) (0, ctx) of
        None \<Rightarrow> None
      | Some (totalReward, ctx') \<Rightarrow>
          Some (Some totalReward,
                ia\<lparr>ia_IScore := ia_IScore ia + totalReward, ia_BlockHeight := bh\<rparr>, ctx'))"

section \<open>One shard\<close>

record shard_state =
  sh_entries :: u64
  sh_count :: u64
  sh_hash :: bytes
  sh_stats :: Statistics
  sh_batch :: "obj batch_op list"
  sh_db :: "obj kv"
  sh_ctx :: Context

datatype shard_end = Finished | Interrupted | ReadError

text \<open>
  \<open>quit k\<close> is whether the \<open>k\<close>-th poll of the quit channel finds it closed. The
  counter \<^verbatim>\<open>entries\<close> runs up to the batch size and starts over.
\<close>

fun calculateDB_loop ::
    "(nat \<Rightarrow> bool) \<Rightarrow> u64 \<Rightarrow> u64 \<Rightarrow> nat \<Rightarrow> (bytes \<times> obj) list \<Rightarrow> shard_state \<Rightarrow> (shard_end \<times> shard_state) option" where
  "calculateDB_loop quit blockHeight batchCount k [] st = Some (Finished, st)"
| "calculateDB_loop quit blockHeight batchCount k ((ikey, v) # es) st =
     (if quit k then Some (Interrupted, st)
      else
        (let key = drop (length PrefixIScore) ikey in
         case NewIScoreAccountFromBytes v of
           Inl _ \<Rightarrow> Some (ReadError, st)
         | Inr ia0 \<Rightarrow>
             (case NewAddress key of
                None \<Rightarrow> None
              | Some addr \<Rightarrow>
                  (let ia = ia0\<lparr>ia_Address := addr\<rparr>;
                       st1 = st\<lparr>sh_stats := stat_inc ''Accounts'' (VUint64 1) (sh_stats st)\<rparr>
                   in case calculateIScore (sh_ctx st1) ia blockHeight of
                        None \<Rightarrow> None
                      | Some (None, ia', ctx') \<Rightarrow>
                          calculateDB_loop quit blockHeight batchCount (Suc k) es
                            (st1\<lparr>sh_ctx := ctx', sh_entries := sh_entries st1 + 1\<rparr>)
                      | Some (Some reward, ia', ctx') \<Rightarrow>
                          (let batch = sh_batch st1 @ [BatchPut ikey (IScoreAccount_Bytes ia')];
                               full = (sh_entries st1 = batchCount);
                               st2 = (if 0 < batchCount then
                                        (if full then
                                           st1\<lparr>sh_db := Batch_Write (sh_db st1) batch, sh_batch := [], sh_entries := 0\<rparr>
                                         else st1\<lparr>sh_batch := batch\<rparr>)
                                      else st1\<lparr>sh_db := Bucket_Set (sh_db st1) PrefixIScore key (IScoreAccount_Bytes ia')\<rparr>)
                           in calculateDB_loop quit blockHeight batchCount (Suc k) es
                                (st2\<lparr>sh_ctx := ctx',
                                     sh_hash := sh_hash st2 @ BytesForHash ia',
                                     sh_stats := stat_inc ''Beta3'' (VHexInt reward) (sh_stats st2),
                                     sh_count := sh_count st2 + 1,
                                     sh_entries := sh_entries st2 + 1\<rparr>))))))"

text \<open>The result: count, statistics, state hash (nil when stopped), written database, context.\<close>

definition calculateDB ::
    "(bytes \<Rightarrow> bytes) \<Rightarrow> (nat \<Rightarrow> bool) \<Rightarrow> obj kv \<Rightarrow> obj kv \<Rightarrow> Context \<Rightarrow> u64 \<Rightarrow> u64 \<Rightarrow>
     (u64 \<times> Statistics \<times> bytes option \<times> obj kv \<times> Context) option" where
  "calculateDB shake quit readDB writeDB ctx blockHeight batchCount =
     (case calculateDB_loop quit blockHeight batchCount 0 (Iterator_New readDB None None)
             \<lparr>sh_entries = 0, sh_count = 0, sh_hash = [], sh_stats = zero_Statistics, sh_batch = [],
              sh_db = writeDB, sh_ctx = ctx\<rparr> of
        None \<Rightarrow> None
      | Some (Finished, st) \<Rightarrow>
          Some (sh_count st, sh_stats st,
                Some (if 0 < sh_count st then shake (sh_hash st) else replicate 64 0),
                (if 0 < batchCount then Batch_Write (sh_db st) (sh_batch st) else sh_db st), sh_ctx st)
      | Some (_, st) \<Rightarrow> Some (0, sh_stats st, None, sh_db st, sh_ctx st))"

section \<open>Transactions of the term\<close>

definition set_calcdb :: "dirname \<Rightarrow> obj kv \<Rightarrow> Context \<Rightarrow> Context" where
  "set_calcdb n m ctx = ctx\<lparr>DB := (DB ctx)\<lparr>dirs := AList.update n m (dirs (DB ctx))\<rparr>\<rparr>"

definition calcdb :: "Context \<Rightarrow> dirname \<Rightarrow> obj kv" where
  "calcdb ctx n = disk_read (dirs (DB ctx)) n"

record tx_state =
  txs_stats :: int
  txs_new :: u64
  txs_hash :: bytes
  txs_ctx :: Context

text \<open>
  A delegation. An existing account was computed to the end of the term with its old
  delegations: the part after the transaction is taken off and computed again with the new
  ones. Accounts that do not decode, or are not at the height of the calculation, are left
  alone.
\<close>

definition delegate_tx :: "u64 \<Rightarrow> IISSTX \<Rightarrow> tx_state \<Rightarrow> tx_state option" where
  "delegate_tx blockHeight tx st =
     (case getCalculateDB (DB (txs_ctx st)) (tx_Address tx) of
        None \<Rightarrow> None
      | Some cDB \<Rightarrow>
          (case NewIScoreAccountFromIISS tx of
             None \<Rightarrow> None
           | Some newIA \<Rightarrow>
               (let finish = (\<lambda>newIA st.
                      case calculateIScore (txs_ctx st) newIA blockHeight of
                        None \<Rightarrow> None
                      | Some (r, ia', ctx') \<Rightarrow>
                          Some (st\<lparr>txs_stats := txs_stats st + (case r of None \<Rightarrow> 0 | Some reward \<Rightarrow> reward),
                                   txs_hash := txs_hash st @ BytesForHash ia',
                                   txs_ctx := set_calcdb cDB
                                     (Bucket_Set (calcdb ctx' cDB) PrefixIScore (IScoreAccount_ID ia')
                                        (IScoreAccount_Bytes ia')) ctx'\<rparr>))
                in case Bucket_Get (calcdb (txs_ctx st) cDB) PrefixIScore (Address_Bytes (tx_Address tx)) of
                     None \<Rightarrow>
                       (case newIA of
                          None \<Rightarrow> None
                        | Some n \<Rightarrow> finish n (st\<lparr>txs_new := txs_new st + 1\<rparr>))
                   | Some data \<Rightarrow>
                       (case NewIScoreAccountFromBytes data of
                          Inl _ \<Rightarrow> Some st
                        | Inr ia \<Rightarrow>
                            if ia_BlockHeight ia \<noteq> blockHeight then Some st
                            else case newIA of
                              None \<Rightarrow> None
                            | Some n \<Rightarrow>
                                (case calculateIScore (txs_ctx st)
                                        (ia\<lparr>ia_BlockHeight := tx_BlockHeight tx, ia_IScore := 0\<rparr>) blockHeight of
                                   None \<Rightarrow> None
                                 | Some (_, ia', ctx') \<Rightarrow>
                                     finish (n\<lparr>ia_IScore := ia_IScore ia - ia_IScore ia'\<rparr>)
                                       (st\<lparr>txs_stats := txs_stats st - ia_IScore ia', txs_ctx := ctx'\<rparr>))))))"

fun iisstx_loop :: "u64 \<Rightarrow> IISSTX \<Rightarrow> (bytes \<times> obj) list \<Rightarrow> tx_state \<Rightarrow> tx_state option" where
  "iisstx_loop blockHeight tx [] st = Some st"
| "iisstx_loop blockHeight tx ((k, v) # es) st =
     (case IISSTX_SetBytes tx v of
        Inl _ \<Rightarrow> iisstx_loop blockHeight tx es st
      | Inr tx' \<Rightarrow>
          if tx_DataType tx' = TXDataTypeDelegate then
            (case delegate_tx blockHeight tx' st of
               None \<Rightarrow> None
             | Some st' \<Rightarrow> iisstx_loop blockHeight tx' es st')
          else iisstx_loop blockHeight tx' es st)"

definition calculateIISSTX ::
    "(bytes \<Rightarrow> bytes) \<Rightarrow> Context \<Rightarrow> obj kv \<Rightarrow> u64 \<Rightarrow> (u64 \<times> int \<times> bytes \<times> Context) option" where
  "calculateIISSTX shake ctx iissDB blockHeight =
     (case iisstx_loop blockHeight zero_IISSTX (Iterator_prefix iissDB PrefixIISSTX)
             \<lparr>txs_stats = 0, txs_new = 0, txs_hash = [], txs_ctx = ctx\<rparr> of
        None \<Rightarrow> None
      | Some st \<Rightarrow> Some (txs_new st, txs_stats st, shake (txs_hash st), txs_ctx st))"

section \<open>Block producers\<close>

type_synonym reward_map = "(address \<times> int) list"

definition map_add_reward :: "int \<Rightarrow> address \<Rightarrow> reward_map \<Rightarrow> reward_map" where
  "map_add_reward r a m = AList.update a ((case map_of m a of None \<Rightarrow> 0 | Some x \<Rightarrow> x) + r) m"

fun bp_loop ::
    "IISSBlockProduceInfo \<Rightarrow> (bytes \<times> obj) list \<Rightarrow> reward_map \<times> Context \<Rightarrow> (reward_map \<times> Context) option" where
  "bp_loop bp [] s = Some s"
| "bp_loop bp ((k, v) # es) (bpMap, ctx) =
     (case BP_SetBytes bp v of
        Inl _ \<Rightarrow> bp_loop bp es (bpMap, ctx)
      | Inr bp0 \<Rightarrow>
          (let bp' = bp0\<lparr>bp_BlockHeight := BytesToUint64 (drop (length PrefixIISSBPInfo) k)\<rparr> in
           case getGVByBlockHeight ctx (bp_BlockHeight bp') of
             None \<Rightarrow> bp_loop bp' es (bpMap, ctx)
           | Some gv \<Rightarrow>
               (let m1 = map_add_reward (gv_BlockProduceReward gv) (bp_Generator bp') bpMap in
                if bp_Validator bp' = [] then bp_loop bp' es (m1, ctx)
                else
                  (let valReward = gv_BlockProduceReward gv div int (length (bp_Validator bp'));
                       m2 = fold (map_add_reward valReward) (bp_Validator bp') m1
                   in case WriteBeta1Info (big_uint64 (gv_BlockProduceReward gv)) bp' ctx of
                        None \<Rightarrow> None
                      | Some ctx' \<Rightarrow> bp_loop bp' es (m2, ctx')))))"

record pay_state =
  pay_new :: u64
  pay_total :: int
  pay_accounts :: "IScoreAccount list"
  pay_ctx :: Context

text \<open>Crediting the rewards; an account that does not decode ends the loop.\<close>

fun bp_write :: "u64 \<Rightarrow> reward_map \<Rightarrow> pay_state \<Rightarrow> pay_state option" where
  "bp_write blockHeight [] st = Some st"
| "bp_write blockHeight ((addr, reward) # rs) st =
     (case getCalculateDB (DB (pay_ctx st)) addr of
        None \<Rightarrow> None
      | Some cDB \<Rightarrow>
          (let db = calcdb (pay_ctx st) cDB;
               put = (\<lambda>ia n. st\<lparr>pay_new := pay_new st + n, pay_total := pay_total st + reward,
                        pay_accounts := pay_accounts st @ [ia],
                        pay_ctx := set_calcdb cDB
                          (Bucket_Set db PrefixIScore (IScoreAccount_ID ia) (IScoreAccount_Bytes ia)) (pay_ctx st)\<rparr>)
           in case Bucket_Get db PrefixIScore (Address_Bytes addr) of
                Some data \<Rightarrow>
                  (case NewIScoreAccountFromBytes data of
                     Inl _ \<Rightarrow> Some st
                   | Inr ia \<Rightarrow>
                       bp_write blockHeight rs (put (ia\<lparr>ia_IScore := ia_IScore ia + reward, ia_Address := addr\<rparr>) 0))
              | None \<Rightarrow>
                  bp_write blockHeight rs
                    (put (zero_IScoreAccount\<lparr>ia_IScore := reward, ia_Address := addr, ia_BlockHeight := blockHeight\<rparr>) 1)))"

definition calculateIISSBlockProduce ::
    "(bytes \<Rightarrow> bytes) \<Rightarrow> (reward_map \<Rightarrow> reward_map) \<Rightarrow> Context \<Rightarrow> obj kv \<Rightarrow> u64 \<Rightarrow>
     (u64 \<times> int \<times> bytes \<times> Context) option" where
  "calculateIISSBlockProduce shake order ctx iissDB blockHeight =
     (case bp_loop zero_BP (Iterator_prefix iissDB PrefixIISSBPInfo) ([], ctx) of
        None \<Rightarrow> None
      | Some (bpMap, ctx1) \<Rightarrow>
          (case bp_write blockHeight (order bpMap)
                  \<lparr>pay_new = 0, pay_total = 0, pay_accounts = [], pay_ctx = ctx1\<rparr> of
             None \<Rightarrow> None
           | Some st \<Rightarrow>
               Some (pay_new st, pay_total st,
                     shake (concat (map BytesForHash (sort_key IScoreAccount_ID (pay_accounts st)))),
                     pay_ctx st)))"

section \<open>P-Reps\<close>

text \<open>The rewards of one governance-variable period, with the height they are computed to.\<close>

fun prep_period ::
    "PRep \<Rightarrow> u64 \<Rightarrow> u64 \<Rightarrow> GovernanceVariable \<Rightarrow> PRepDelegationInfo list \<Rightarrow> (int \<times> u64) list \<Rightarrow> Context \<Rightarrow>
     ((int \<times> u64) list \<times> Context) option" where
  "prep_period prep s e gv (dgInfo # dgs) ((iScore, h) # rs) ctx =
     (let rewardRate = uint (e - s) * gv_PRepReward gv in
      case big_div (rewardRate * di_DelegatedAmount dgInfo) (pr_TotalDelegation prep) of
        None \<Rightarrow> None
      | Some r \<Rightarrow>
          (case WriteBeta2Info dgInfo prep s e (big_uint64 (gv_PRepReward gv)) ctx of
             None \<Rightarrow> None
           | Some ctx' \<Rightarrow>
               (case prep_period prep s e gv dgs rs ctx' of
                  None \<Rightarrow> None
                | Some (rs', ctx'') \<Rightarrow> Some ((iScore + r, e) # rs', ctx''))))"
| "prep_period prep s e gv _ rs ctx = Some (rs, ctx)"

fun prep_gv_loop ::
    "PRep \<Rightarrow> u64 \<Rightarrow> u64 \<Rightarrow> GovernanceVariable list \<Rightarrow> (int \<times> u64) list \<times> Context \<Rightarrow>
     ((int \<times> u64) list \<times> Context) option" where
  "prep_gv_loop prep start end_h [] st = Some st"
| "prep_gv_loop prep start end_h (gv # gvs) (rewards, ctx) =
     (let s = (if start \<le> gv_BlockHeight gv then gv_BlockHeight gv else start);
          e = (case gvs of
                 [] \<Rightarrow> end_h
               | next # _ \<Rightarrow> if gv_BlockHeight next < end_h then gv_BlockHeight next else end_h)
      in if e \<le> s then prep_gv_loop prep start end_h gvs (rewards, ctx)
         else case prep_period prep s e gv (pr_List prep) rewards ctx of
           None \<Rightarrow> None
         | Some st \<Rightarrow> prep_gv_loop prep start end_h gvs st)"

record prep_state =
  ps_new :: u64
  ps_total :: int
  ps_hash :: bytes
  ps_ctx :: Context

fun prep_write ::
    "u64 \<Rightarrow> u64 \<Rightarrow> (PRepDelegationInfo \<times> int \<times> u64) list \<Rightarrow> prep_state \<Rightarrow> prep_state option" where
  "prep_write end_h blockHeight [] st = Some st"
| "prep_write end_h blockHeight ((dgInfo, iScore, h) # rs) st =
     (case getCalculateDB (DB (ps_ctx st)) (di_Address dgInfo) of
        None \<Rightarrow> None
      | Some cDB \<Rightarrow>
          (let db = calcdb (ps_ctx st) cDB; rev8 = (Revision (ps_ctx st) \<ge> Revision8);
               put = (\<lambda>ia0 n. let ia = ia0\<lparr>ia_Address := di_Address dgInfo\<rparr> in
                        st\<lparr>ps_new := ps_new st + n, ps_total := ps_total st + iScore,
                           ps_hash := ps_hash st @ BytesForHash ia,
                           ps_ctx := set_calcdb cDB
                             (Bucket_Set db PrefixIScore (IScoreAccount_ID ia) (IScoreAccount_Bytes ia)) (ps_ctx st)\<rparr>)
           in case Bucket_Get db PrefixIScore (Address_Bytes (di_Address dgInfo)) of
                Some data \<Rightarrow>
                  (case NewIScoreAccountFromBytes data of
                     Inl _ \<Rightarrow> Some st
                   | Inr ia \<Rightarrow>
                       (let ia1 = ia\<lparr>ia_IScore := ia_IScore ia + iScore\<rparr>;
                            ia2 = (if rev8 then ia1 else ia1\<lparr>ia_BlockHeight := h\<rparr>)
                        in prep_write end_h blockHeight rs (put ia2 0)))
              | None \<Rightarrow>
                  prep_write end_h blockHeight rs
                    (put (zero_IScoreAccount\<lparr>ia_IScore := iScore,
                            ia_BlockHeight := (if rev8 then blockHeight else end_h)\<rparr>) 1)))"

definition setPRepReward ::
    "(bytes \<Rightarrow> bytes) \<Rightarrow> Context \<Rightarrow> u64 \<Rightarrow> u64 \<Rightarrow> PRep \<Rightarrow> u64 \<Rightarrow> (u64 \<times> int \<times> bytes \<times> Context) option" where
  "setPRepReward shake ctx start end_h prep blockHeight =
     (case prep_gv_loop prep start end_h (GV ctx) (replicate (length (pr_List prep)) (0, 0), ctx) of
        None \<Rightarrow> None
      | Some (rewards, ctx1) \<Rightarrow>
          (case prep_write end_h blockHeight (zip (pr_List prep) rewards)
                  \<lparr>ps_new = 0, ps_total = 0, ps_hash = [], ps_ctx = ctx1\<rparr> of
             None \<Rightarrow> None
           | Some st \<Rightarrow> Some (ps_new st, ps_total st, shake (ps_hash st), ps_ctx st)))"

fun prep_loop ::
    "(bytes \<Rightarrow> bytes) \<Rightarrow> u64 \<Rightarrow> u64 \<Rightarrow> PRep list \<Rightarrow> prep_state \<Rightarrow> prep_state option" where
  "prep_loop shake start end_h [] st = Some st"
| "prep_loop shake start end_h (prep # preps) st =
     (if pr_TotalDelegation prep = 0 then prep_loop shake start end_h preps st
      else
        (let s = (if start < pr_BlockHeight prep then pr_BlockHeight prep else start);
             e = (case preps of
                    [] \<Rightarrow> end_h
                  | next # _ \<Rightarrow> if pr_BlockHeight next < end_h then pr_BlockHeight next else end_h)
         in if e \<le> s then prep_loop shake start end_h preps st
            else case setPRepReward shake (ps_ctx st) s e prep end_h of
              None \<Rightarrow> None
            | Some (account, reward, hash, ctx') \<Rightarrow>
                prep_loop shake start end_h preps
                  (st\<lparr>ps_new := ps_new st + account, ps_total := ps_total st + reward,
                      ps_hash := ps_hash st @ hash, ps_ctx := ctx'\<rparr>)))"

definition calculatePRepReward ::
    "(bytes \<Rightarrow> bytes) \<Rightarrow> Context \<Rightarrow> u64 \<Rightarrow> (u64 \<times> int \<times> bytes \<times> Context) option" where
  "calculatePRepReward shake ctx to =
     (case prep_loop shake (getCalcDoneBH (DB ctx)) to (PReps ctx)
             \<lparr>ps_new = 0, ps_total = 0, ps_hash = [], ps_ctx = ctx\<rparr> of
        None \<Rightarrow> None
      | Some st \<Rightarrow> Some (ps_new st, ps_total st, shake (ps_hash st), ps_ctx st))"

end
