(* ===== verification/DoCalc.thy ===== *)
theory DoCalc
  imports Calculate
begin

text \<open>
  \<^verbatim>\<open>DoCalculate\<close> and the two queries of \<^verbatim>\<open>core/msg_calculate.go\<close>: the checks of a
  CALCULATE request, the swap of the account databases, the four parts of the calculation,
  and the block heights and result written at the end.
\<close>

section \<open>Requests and responses\<close>

record CalculateRequest =
  cq_Path :: string
  cq_BlockHeight :: u64
  cq_BlockHash :: bytes

definition CalcRespStatusOK :: u16 where "CalcRespStatusOK = 0"
definition CalcRespStatusInvalidData :: u16 where "CalcRespStatusInvalidData = 1"
definition CalcRespStatusDoing :: u16 where "CalcRespStatusDoing = 2"
definition CalcRespStatusInvalidBH :: u16 where "CalcRespStatusInvalidBH = 3"
definition CalcRespStatusDuplicateBH :: u16 where "CalcRespStatusDuplicateBH = 4"

text \<open>The result of \<^verbatim>\<open>DoCalculate\<close> and the CALCULATE responses it sent.\<close>

record calc_out =
  co_err :: "error option"
  co_height :: u64
  co_stats :: "Statistics option"
  co_hash :: "bytes option"
  co_acks :: "(u16 \<times> u64) list"
  co_ctx :: Context

definition reloadBlockHeight :: u64 where "reloadBlockHeight = - 1"
definition reloadMsgID :: u32 where "reloadMsgID = - 1"

definition isReloadRequest :: "u64 \<Rightarrow> u32 \<Rightarrow> bool" where
  "isReloadRequest blockHeight msg_id \<longleftrightarrow> blockHeight = reloadBlockHeight \<and> msg_id = reloadMsgID"

definition needIISSDataReload :: "Context \<Rightarrow> bool" where
  "needIISSDataReload ctx \<longleftrightarrow> getCalcDoneBH (DB ctx) \<noteq> getCalculatingBH (DB ctx)"

section \<open>The shards\<close>

text \<open>\<open>quits i\<close> are the polls of the quit channel by the goroutine of shard \<open>i\<close>.\<close>

fun shards_loop ::
    "(bytes \<Rightarrow> bytes) \<Rightarrow> (nat \<Rightarrow> nat \<Rightarrow> bool) \<Rightarrow> u64 \<Rightarrow> dirname list \<Rightarrow> nat \<Rightarrow> dirname list \<Rightarrow> Context \<Rightarrow>
     ((Statistics \<times> bytes option) list \<times> Context) option" where
  "shards_loop shake quits blockHeight queryDBs i [] ctx = Some ([], ctx)"
| "shards_loop shake quits blockHeight queryDBs i (cDB # cDBs) ctx =
     (if i < length queryDBs then
        (case calculateDB shake (quits i) (calcdb ctx (queryDBs ! i)) (calcdb ctx cDB) ctx blockHeight writeBatchCount of
           None \<Rightarrow> None
         | Some (count, st, hash, db, ctx1) \<Rightarrow>
             (case shards_loop shake quits blockHeight queryDBs (Suc i) cDBs (set_calcdb cDB db ctx1) of
                None \<Rightarrow> None
              | Some (rs, ctx2) \<Rightarrow> Some ((st, hash) # rs, ctx2)))
      else None)"

definition add_shard_stats :: "Statistics \<Rightarrow> Statistics \<Rightarrow> Statistics" where
  "add_shard_stats s acc =
     stat_inc ''TotalReward'' (VHexInt (st_Beta3 s))
       (stat_inc ''Beta3'' (VHexInt (st_Beta3 s)) (stat_inc ''Accounts'' (VUint64 (st_Accounts s)) acc))"

definition add_part :: "string \<Rightarrow> u64 \<Rightarrow> int \<Rightarrow> Statistics \<Rightarrow> Statistics" where
  "add_part field newAccount reward acc =
     stat_inc ''TotalReward'' (VHexInt reward)
       (stat_inc field (VHexInt reward) (stat_inc ''Accounts'' (VUint64 newAccount) acc))"

section \<open>DoCalculate\<close>

text \<open>
  The work after the checks. \<open>cancel\<close> is a notification that arrives while the shards
  run: its purpose and what the polls of each shard see; it is acted upon when all shards
  have ended.
\<close>

definition run_calculation ::
    "(bytes \<Rightarrow> bytes) \<Rightarrow> (reward_map \<Rightarrow> reward_map) \<Rightarrow> (u64 \<times> (nat \<Rightarrow> nat \<Rightarrow> bool)) option \<Rightarrow>
     obj kv \<Rightarrow> u64 \<Rightarrow> Context \<Rightarrow>
     (error option \<times> Statistics option \<times> bytes option \<times> Context) option" where
  "run_calculation shake order cancel iissDB blockHeight ctx =
     (case shards_loop shake (case cancel of None \<Rightarrow> \<lambda>_ _. False | Some (_, q) \<Rightarrow> q) blockHeight
             (getQueryDBList (DB ctx)) 0 (GetCalcDBList (DB ctx)) ctx of
        None \<Rightarrow> None
      | Some (shards, ctx1) \<Rightarrow>
          (case cancel of
             Some (code, _) \<Rightarrow>
               (let c = notifyCancelCalculation code (Cancel ctx1) in
                Some (if cancelCode c = CancelExit then Some (ErrCancelExit blockHeight)
                      else if cancelCode c = CancelRollback then Some (ErrCancelRollback blockHeight)
                      else None,
                      None, None, ctx1\<lparr>Cancel := c\<lparr>cancelCode := CancelNone\<rparr>\<rparr>))
           | None \<Rightarrow>
               (let st0 = fold add_shard_stats (map fst shards) zero_Statistics in
                case calculateIISSTX shake ctx1 iissDB blockHeight of
                  None \<Rightarrow> None
                | Some (n1, r1, h1, ctx2) \<Rightarrow>
                    (case calculateIISSBlockProduce shake order ctx2 iissDB blockHeight of
                       None \<Rightarrow> None
                     | Some (n2, r2, h2, ctx3) \<Rightarrow>
                         (case calculatePRepReward shake ctx3 blockHeight of
                            None \<Rightarrow> None
                          | Some (n3, r3, h3, ctx4) \<Rightarrow>
                              (let st = add_part ''Beta2'' n3 r3 (add_part ''Beta1'' n2 r2 (add_part ''Beta3'' n1 r1 st0));
                                   stateHash = shake (h1 @ h2 @ h3 @
                                     concat (map (\<lambda>s. case snd s of None \<Rightarrow> [] | Some h \<Rightarrow> h) shards))
                               in Some (None, Some st, Some stateHash, ctx4\<lparr>stats := Some st\<rparr>)))))))"

definition finish_calculation :: "u64 \<Rightarrow> Statistics option \<Rightarrow> bytes \<Rightarrow> Context \<Rightarrow> Context option" where
  "finish_calculation blockHeight st stateHash ctx =
     (case (if NeedToUpdateCalcDebugResult ctx
            then Option.bind (WriteCalcDebugResult ctx) ResetCalcDebugResults else Some ctx) of
        None \<Rightarrow> None
      | Some ctx1 \<Rightarrow>
          (let idb = setCalcDoneBH blockHeight (DB ctx1)
           in Some (ctx1\<lparr>DB := idb\<lparr>calcResult := WriteCalculationResult (calcResult idb) blockHeight st stateHash\<rparr>\<rparr>)))"

text \<open>
  \<open>conn\<close> is whether there is a peer to answer; \<open>iiss\<close> maps a path to the database
  found there.
\<close>

definition DoCalculate ::
    "(bytes \<Rightarrow> bytes) \<Rightarrow> (reward_map \<Rightarrow> reward_map) \<Rightarrow> (u64 \<times> (nat \<Rightarrow> nat \<Rightarrow> bool)) option \<Rightarrow>
     (string \<Rightarrow> obj kv) \<Rightarrow> Context \<Rightarrow> CalculateRequest \<Rightarrow> bool \<Rightarrow> u32 \<Rightarrow> calc_out option" where
  "DoCalculate shake order cancel iiss ctx req conn msg_id =
     (let reload = isReloadRequest (cq_BlockHeight req) msg_id;
          ack = (\<lambda>status h. if conn then [(status, h)] else []);
          refuse = (\<lambda>e status h ctx. Some \<lparr>co_err = Some e, co_height = h, co_stats = None, co_hash = None,
                      co_acks = ack status h, co_ctx = ctx\<rparr>)
      in if \<not> reload \<and> isCalculating (DB ctx) then
           refuse ErrCalculating CalcRespStatusDoing (cq_BlockHeight req) ctx
         else case LoadIISSData (iiss (cq_Path req)) of
           None \<Rightarrow>
             refuse ErrInvalidData CalcRespStatusInvalidData (cq_BlockHeight req)
               (ctx\<lparr>DB := resetCalculatingBH (DB ctx)\<rparr>)
         | Some (header, gvList, prepList) \<Rightarrow>
             (let blockHeight = (if ih_BlockHeight header = 0 then getCalcDoneBH (DB ctx) + 1
                                 else ih_BlockHeight header);
                  idb1 = setCalculatingBH blockHeight (DB ctx);
                  calcDoneBH = getCalcDoneBH idb1
              in if blockHeight = calcDoneBH then
                   refuse ErrDuplicateBH CalcRespStatusDuplicateBH blockHeight (ctx\<lparr>DB := resetCalculatingBH idb1\<rparr>)
                 else if blockHeight < calcDoneBH then
                   refuse ErrTooLowBH CalcRespStatusInvalidBH blockHeight (ctx\<lparr>DB := resetCalculatingBH idb1\<rparr>)
                 else
                   (let idb2 = toggleAccountDB (blockHeight + 1) idb1;
                        idb3 = snd (resetAccountDB blockHeight (getCalcDoneBH idb2) idb2);
                        ctx1 = ctx\<lparr>DB := idb3, Revision := ih_Revision header\<rparr>;
                        ctx2 = UpdatePRepCandidate (iiss (cq_Path req))
                                 (UpdatePRep prepList (UpdateGovernanceVariable gvList ctx1))
                    in case InitCalcDebugResult blockHeight (cq_BlockHash req) ctx2 of
                         None \<Rightarrow> None
                       | Some ctx3 \<Rightarrow>
                           (case run_calculation shake order cancel (iiss (cq_Path req)) blockHeight ctx3 of
                              None \<Rightarrow> None
                            | Some (err, st, Some stateHash, ctx4) \<Rightarrow>
                                (case finish_calculation blockHeight st stateHash ctx4 of
                                   None \<Rightarrow> None
                                 | Some ctx5 \<Rightarrow>
                                     Some \<lparr>co_err = None, co_height = blockHeight, co_stats = st,
                                           co_hash = Some stateHash, co_acks = ack CalcRespStatusOK blockHeight,
                                           co_ctx = ctx5\<rparr>)
                            | Some (err, _, None, ctx4) \<Rightarrow>
                                Some \<lparr>co_err = err, co_height = blockHeight, co_stats = None, co_hash = None,
                                      co_acks = ack CalcRespStatusOK blockHeight, co_ctx = ctx4\<rparr>))))"

section \<open>Queries\<close>

definition CalculationDone :: u64 where "CalculationDone = 0"
definition CalculationDoing :: u64 where "CalculationDoing = 1"

definition DoQueryCalculateStatus :: "Context \<Rightarrow> u64 \<times> u64" where
  "DoQueryCalculateStatus ctx =
     (if isCalculating (DB ctx) then (CalculationDoing, getCalculatingBH (DB ctx))
      else (CalculationDone, getCalcDoneBH (DB ctx)))"

definition calcSucceeded :: u16 where "calcSucceeded = 0"
definition calcFailed :: u16 where "calcFailed = 1"
definition calcDoing :: u16 where "calcDoing = 2"
definition InvalidBH :: u16 where "InvalidBH = 3"

record QueryCalculateResultResponse =
  qr_Status :: u16
  qr_BlockHeight :: u64
  qr_IScore :: int
  qr_StateHash :: bytes

text \<open>A stored result that does not decode is a nil dereference.\<close>

definition DoQueryCalculateResult :: "Context \<Rightarrow> u64 \<Rightarrow> QueryCalculateResultResponse option" where
  "DoQueryCalculateResult ctx blockHeight =
     (let resp = \<lparr>qr_Status = 0, qr_BlockHeight = blockHeight, qr_IScore = 0, qr_StateHash = []\<rparr> in
      if isCalculating (DB ctx) \<and> blockHeight = getCalculatingBH (DB ctx) then
        Some (resp\<lparr>qr_Status := calcDoing\<rparr>)
      else case Bucket_Get (calcResult (DB ctx)) PrefixCalcResult (Uint64ToBytes blockHeight) of
        None \<Rightarrow> Some (resp\<lparr>qr_Status := InvalidBH\<rparr>)
      | Some bs \<Rightarrow>
          (case NewCalculationResultFromBytes bs of
             Inl _ \<Rightarrow> None
           | Inr cr \<Rightarrow>
               if cr_Success cr then
                 Some (resp\<lparr>qr_Status := calcSucceeded, qr_IScore := cr_IScore cr, qr_StateHash := cr_StateHash cr\<rparr>)
               else Some (resp\<lparr>qr_Status := calcFailed\<rparr>)))"

section \<open>Reload at start-up\<close>

text \<open>
  \<^verbatim>\<open>reloadIISSData\<close> of \<^verbatim>\<open>core/manager.go\<close>: a calculation that was interrupted is
  run again, with the path of its data.
\<close>

definition reloadIISSData ::
    "(bytes \<Rightarrow> bytes) \<Rightarrow> (reward_map \<Rightarrow> reward_map) \<Rightarrow> (string \<Rightarrow> obj kv) \<Rightarrow> Context \<Rightarrow> string \<Rightarrow> calc_out option option" where
  "reloadIISSData shake order iiss ctx dir =
     (if needIISSDataReload ctx then
        Some (DoCalculate shake order None iiss ctx
          \<lparr>cq_Path = path_join dir (''iiss_rc_db_'' @ dec_digits (unat (getCalculatingBH (DB ctx)))),
           cq_BlockHeight = reloadBlockHeight, cq_BlockHash = []\<rparr> False reloadMsgID)
      else None)"

end
