(* ===== verification/RewardProps.thy ===== *)
theory RewardProps
  imports DoCalc
begin

text \<open>
  Properties of the reward calculation: the reward of a delegation as a sum over the blocks
  at which each governance variable is in force, the reward of an account, and the result of
  a shard, which does not depend on how its writes are batched.
\<close>

section \<open>Governance variables in force\<close>

definition gvs_ok :: "GovernanceVariable list \<Rightarrow> bool" where
  "gvs_ok gvs \<longleftrightarrow> sorted_wrt (<) (map gv_BlockHeight gvs)"

text \<open>The number of blocks above \<open>s\<close> and up to \<open>e\<close> at which \<open>gv\<close> is in force.\<close>

definition governed :: "Context \<Rightarrow> u64 \<Rightarrow> u64 \<Rightarrow> GovernanceVariable \<Rightarrow> nat" where
  "governed ctx s e gv = card {b. s < b \<and> b \<le> e \<and> getGVByBlockHeight ctx b = Some gv}"

lemma gv_before_append:
  "gv_before b (xs @ ys) = (case gv_before b xs of None \<Rightarrow> gv_before b ys | Some g \<Rightarrow> Some g)"
  by (induction xs) auto

lemma gv_before_None: "gv_before b xs = None \<longleftrightarrow> (\<forall>g \<in> set xs. b \<le> gv_BlockHeight g)"
  by (induction xs) auto

lemma gv_before_Some: "gv_before b xs = Some g \<Longrightarrow> g \<in> set xs \<and> gv_BlockHeight g < b"
  by (induction xs) (auto split: if_splits)

lemma gv_before_sorted:
  assumes "gvs_ok (pre @ gv # post)"
  shows "gv_before b (rev (pre @ gv # post)) = Some gv \<longleftrightarrow>
    gv_BlockHeight gv < b \<and> (case post of [] \<Rightarrow> True | n # _ \<Rightarrow> b \<le> gv_BlockHeight n)"
proof (cases "gv_before b (rev post)")
  case None
  then have "case post of [] \<Rightarrow> True | n # _ \<Rightarrow> b \<le> gv_BlockHeight n"
    by (auto simp: gv_before_None split: list.splits)
  moreover have "gv_before b (rev pre) \<noteq> Some gv"
    using assms by (auto dest!: gv_before_Some simp: gvs_ok_def sorted_wrt_append)
  ultimately show ?thesis using None by (simp add: gv_before_append)
next
  case (Some g)
  then have g: "g \<in> set post" "gv_BlockHeight g < b" by (auto dest: gv_before_Some)
  have "g \<noteq> gv" using g assms by (auto simp: gvs_ok_def sorted_wrt_append)
  moreover obtain n post' where "post = n # post'" using g by (cases post) auto
  moreover from this g assms have "gv_BlockHeight n \<le> gv_BlockHeight g"
    by (auto simp: gvs_ok_def sorted_wrt_append)
  moreover have "gv_before b (rev (pre @ gv # post)) = Some g" using Some by (simp add: gv_before_append)
  ultimately show ?thesis using g by auto
qed

lemma card_blocks: "card {b :: u64. s < b \<and> b \<le> e} = unat e - unat s"
proof -
  have "unat ` {b :: u64. s < b \<and> b \<le> e} = {unat s<..unat e}"
  proof (intro equalityI subsetI)
    fix n assume n: "n \<in> {unat s<..unat e}"
    then have "n < 2 ^ 64" using unat_lt_2p64 [of e] by simp
    then have "unat (of_nat n :: u64) = n" by (rule unat_of_nat_small)
    with n show "n \<in> unat ` {b :: u64. s < b \<and> b \<le> e}"
      by (intro image_eqI [of _ _ "of_nat n"]) (auto simp: word_less_nat_alt word_le_nat_alt)
  qed (auto simp: word_less_nat_alt word_le_nat_alt)
  moreover have "inj_on unat {b :: u64. s < b \<and> b \<le> e}" by (auto intro!: inj_onI unsigned_word_eqI)
  ultimately show ?thesis using card_image [of unat "{b :: u64. s < b \<and> b \<le> e}"] by simp
qed

text \<open>The period the code computes for one governance variable is that number.\<close>

definition gv_from :: "u64 \<Rightarrow> GovernanceVariable \<Rightarrow> u64" where
  "gv_from s gv = (if s < gv_BlockHeight gv then gv_BlockHeight gv else s)"

definition gv_to :: "u64 \<Rightarrow> GovernanceVariable list \<Rightarrow> u64" where
  "gv_to e gvs = (case gvs of [] \<Rightarrow> e | n # _ \<Rightarrow> if gv_BlockHeight n < e then gv_BlockHeight n else e)"

lemma governed_period:
  assumes "gvs_ok (GV ctx)" "GV ctx = pre @ gv # post"
  shows "governed ctx s e gv = unat (gv_to e post) - unat (gv_from s gv)"
proof -
  have "{b. s < b \<and> b \<le> e \<and> getGVByBlockHeight ctx b = Some gv} = {b. gv_from s gv < b \<and> b \<le> gv_to e post}"
    unfolding getGVByBlockHeight_def assms(2) gv_before_sorted [OF assms(1) [unfolded assms(2)]]
    by (cases post) (auto simp: gv_from_def gv_to_def)
  then show ?thesis by (simp add: governed_def card_blocks)
qed

lemma uint_period: "s < e \<Longrightarrow> uint (e - s) = int (unat e - unat s)" for s e :: u64
  using unat_sub_if' [of e s] by (metis less_imp_le uint_nat word_le_nat_alt)

section \<open>Delegation reward\<close>

definition delegation_reward :: "Context \<Rightarrow> int \<Rightarrow> u64 \<Rightarrow> u64 \<Rightarrow> int" where
  "delegation_reward ctx amount s e =
     (\<Sum>gv \<leftarrow> GV ctx. amount * int (governed ctx s e gv) * gv_RewardRep gv div rewardDivider)"

lemma delegation_loop_sum:
  assumes "gvs_ok (GV ctx0)" "GV ctx0 = pre @ gvs"
    and "delegation_loop dg s e addr gvs (acc, ctx) = Some (r, ctx')"
  shows "r = acc + (\<Sum>gv \<leftarrow> gvs. dg_Delegate dg * int (governed ctx0 s e gv) * gv_RewardRep gv div rewardDivider) \<and>
    same_core ctx ctx'"
  using assms
proof (induction gvs arbitrary: pre acc ctx)
  case (Cons gv gvs)
  note p = governed_period [OF Cons.prems(1,2), of s e]
  have pre: "GV ctx0 = (pre @ [gv]) @ gvs" using Cons.prems(2) by simp
  show ?case
  proof (cases "gv_to e gvs \<le> gv_from s gv")
    case True
    then have "governed ctx0 s e gv = 0" using p by (simp add: word_le_nat_alt)
    moreover have "delegation_loop dg s e addr gvs (acc, ctx) = Some (r, ctx')"
      using Cons.prems(3) True unfolding delegation_loop.simps gv_from_def [symmetric] gv_to_def [symmetric] Let_def
      by simp
    ultimately show ?thesis using Cons.IH [OF Cons.prems(1) pre] by simp
  next
    case False
    let ?rw = "dg_Delegate dg * uint (gv_to e gvs - gv_from s gv) * gv_RewardRep gv div rewardDivider"
    obtain ctx1 where w: "WriteBeta3Info addr (big_uint64 (gv_RewardRep gv)) dg (gv_to e gvs - gv_from s gv) (gv_to e gvs) ctx = Some ctx1"
      "delegation_loop dg s e addr gvs (acc + ?rw, ctx1) = Some (r, ctx')"
      using Cons.prems(3) False unfolding delegation_loop.simps gv_from_def [symmetric] gv_to_def [symmetric] Let_def
      by (auto split: option.splits)
    have u: "uint (gv_to e gvs - gv_from s gv) = int (governed ctx0 s e gv)"
      using False p by (simp add: uint_period)
    show ?thesis
      using Cons.IH [OF Cons.prems(1) pre w(2)] same_core_WriteBeta3Info [OF w(1)] unfolding u
      by (simp add: add.assoc) (blast intro: same_core_trans)
  qed
qed simp

text \<open>The blocks at which the delegation counts: within the candidacy of the P-Rep.\<close>

definition candidate_from :: "u64 \<Rightarrow> PRepCandidate \<Rightarrow> u64" where
  "candidate_from s p = max s (pc_Start p)"

definition candidate_to :: "u64 \<Rightarrow> PRepCandidate \<Rightarrow> u64" where
  "candidate_to e p = (if pc_End p = 0 then e else min e (pc_End p))"

lemma calculateDelegationReward_sum:
  assumes "gvs_ok (GV ctx)" "calculateDelegationReward ctx dg s e p addr = Some (r, ctx')"
  shows "r = delegation_reward ctx (dg_Delegate dg) (candidate_from s p) (candidate_to e p) \<and> same_core ctx ctx'"
proof -
  have "(if s < pc_Start p then pc_Start p else s) = candidate_from s p"
    "(if pc_End p \<noteq> 0 \<and> pc_End p < e then pc_End p else e) = candidate_to e p"
    by (auto simp: candidate_from_def candidate_to_def max_def min_def)
  then show ?thesis
    using delegation_loop_sum [OF assms(1), of "[]" "GV ctx" dg "candidate_from s p" "candidate_to e p" addr 0 ctx r ctx']
      assms(2)
    by (simp add: calculateDelegationReward_def delegation_reward_def)
qed

section \<open>Reward of an account\<close>

definition one_reward :: "Context \<Rightarrow> u64 \<Rightarrow> u64 \<Rightarrow> DelegateData option \<Rightarrow> int" where
  "one_reward ctx s e d =
     (case d of
        None \<Rightarrow> 0
      | Some dg \<Rightarrow>
          if big_uint64 (dg_Delegate dg) < MinDelegation then 0
          else case map_of (PRepCandidates ctx) (dg_Address dg) of
            None \<Rightarrow> 0
          | Some p \<Rightarrow> delegation_reward ctx (dg_Delegate dg) (candidate_from s p) (candidate_to e p))"

definition account_reward :: "Context \<Rightarrow> IScoreAccount \<Rightarrow> u64 \<Rightarrow> int" where
  "account_reward ctx ia h = (\<Sum>d \<leftarrow> ia_Delegations ia. one_reward ctx (ia_BlockHeight ia) h d)"

lemma same_core_fields:
  assumes "same_core c c'"
  shows "DB c' = DB c" "Revision c' = Revision c" "PReps c' = PReps c" "PRepCandidates c' = PRepCandidates c" "GV c' = GV c"
  using assms by (simp_all add: same_core_def)

lemma delegation_reward_cong:
  assumes "GV c' = GV c"
  shows "delegation_reward c' = delegation_reward c"
proof -
  have "getGVByBlockHeight c' = getGVByBlockHeight c" using assms by (simp add: getGVByBlockHeight_def fun_eq_iff)
  then have "governed c' = governed c" by (simp add: governed_def fun_eq_iff)
  then show ?thesis using assms by (simp add: delegation_reward_def fun_eq_iff)
qed

lemma account_reward_cong:
  assumes "same_core c c'"
  shows "account_reward c' = account_reward c"
proof -
  have "one_reward c' = one_reward c"
    unfolding one_reward_def same_core_fields [OF assms] delegation_reward_cong [OF same_core_fields(5) [OF assms]] ..
  then show ?thesis by (simp add: account_reward_def fun_eq_iff)
qed

lemma iscore_loop_sum:
  assumes "gvs_ok (GV ctx0)" "same_core ctx0 ctx" "iscore_loop ia h dgs (acc, ctx) = Some (r, ctx')"
  shows "r = acc + account_reward ctx0 (ia\<lparr>ia_Delegations := dgs\<rparr>) h \<and> same_core ctx0 ctx'"
  using assms(2,3)
proof (induction dgs arbitrary: acc ctx)
  case Nil
  then show ?case by (simp add: account_reward_def)
next
  case (Cons d dgs)
  then obtain dg where d: "d = Some dg" by (cases d) auto
  note core = same_core_fields [OF Cons.prems(1)]
  have ok: "gvs_ok (GV ctx)" using assms(1) core by simp
  show ?case
  proof (cases "big_uint64 (dg_Delegate dg) < MinDelegation \<or> map_of (PRepCandidates ctx) (dg_Address dg) = None")
    case True
    then have "iscore_loop ia h dgs (acc, ctx) = Some (r, ctx')" using Cons.prems(2) d by (auto split: if_splits)
    moreover have "one_reward ctx0 (ia_BlockHeight ia) h d = 0"
      using True d core by (auto simp: one_reward_def)
    ultimately show ?thesis using Cons.IH [OF Cons.prems(1)] by (simp add: account_reward_def)
  next
    case False
    then obtain p where p: "map_of (PRepCandidates ctx) (dg_Address dg) = Some p" by auto
    obtain rw ctx1 where c: "calculateDelegationReward ctx dg (ia_BlockHeight ia) h p (ia_Address ia) = Some (rw, ctx1)"
      "iscore_loop ia h dgs (acc + rw, ctx1) = Some (r, ctx')"
      using Cons.prems(2) d p False by (auto split: option.splits)
    have rw: "rw = delegation_reward ctx0 (dg_Delegate dg) (candidate_from (ia_BlockHeight ia) p) (candidate_to h p)"
      and s: "same_core ctx ctx1"
      using calculateDelegationReward_sum [OF ok c(1)] delegation_reward_cong [OF core(5)] by auto
    then have "one_reward ctx0 (ia_BlockHeight ia) h d = rw"
      using False d core p by (simp add: one_reward_def)
    then show ?thesis
      using Cons.IH [OF same_core_trans [OF Cons.prems(1) s] c(2)] by (simp add: account_reward_def)
  qed
qed

text \<open>The account after the calculation up to a block height.\<close>

definition calc_account :: "Context \<Rightarrow> u64 \<Rightarrow> IScoreAccount \<Rightarrow> IScoreAccount" where
  "calc_account ctx h ia = ia\<lparr>ia_IScore := ia_IScore ia + account_reward ctx ia h, ia_BlockHeight := h\<rparr>"

lemma calculateIScore_sum:
  assumes "gvs_ok (GV ctx)" "calculateIScore ctx ia h = Some (r, ia', ctx')" "h \<noteq> 0"
  shows "same_core ctx ctx' \<and>
    (if h \<le> ia_BlockHeight ia then r = None \<and> ia' = ia
     else r = Some (account_reward ctx ia h) \<and> ia' = calc_account ctx h ia)"
proof (cases "h \<le> ia_BlockHeight ia")
  case True
  then show ?thesis using assms by (simp add: calculateIScore_def)
next
  case False
  then obtain t where "iscore_loop ia h (ia_Delegations ia) (0, ctx) = Some (t, ctx')"
    "r = Some t" "ia' = ia\<lparr>ia_IScore := ia_IScore ia + t, ia_BlockHeight := h\<rparr>"
    using assms(2,3) by (auto simp: calculateIScore_def split: option.splits)
  with iscore_loop_sum [OF assms(1) same_core_refl this(1)] False show ?thesis
    by (simp add: calc_account_def)
qed

section \<open>The calculation returns\<close>

text \<open>Without debugging, and with no nil pointer among the delegations, nothing panics.\<close>

lemma delegation_loop_total:
  "\<not> NeedToUpdateCalcDebugResult ctx \<Longrightarrow> \<exists>r. delegation_loop dg s e addr gvs (acc, ctx) = Some (r, ctx)"
  by (induction gvs arbitrary: acc) (auto simp: Let_def WriteBeta3Info_def)

lemma iscore_loop_total:
  assumes "\<not> NeedToUpdateCalcDebugResult ctx" "None \<notin> set dgs"
  shows "\<exists>r. iscore_loop ia h dgs (acc, ctx) = Some (r, ctx)"
  using assms(2)
proof (induction dgs arbitrary: acc)
  case (Cons d dgs)
  then obtain dg where d: "d = Some dg" by (cases d) auto
  have "\<exists>t. calculateDelegationReward ctx dg (ia_BlockHeight ia) h p (ia_Address ia) = Some (t, ctx)" for p
    unfolding calculateDelegationReward_def Let_def by (rule delegation_loop_total [OF assms(1)])
  then obtain t where t: "\<And>p. calculateDelegationReward ctx dg (ia_BlockHeight ia) h p (ia_Address ia) = Some (t p, ctx)"
    by metis
  have "\<exists>r. iscore_loop ia h dgs (acc, ctx) = Some (r, ctx)" for acc using Cons by simp
  then show ?case
    unfolding d by (cases "map_of (PRepCandidates ctx) (dg_Address dg)") (simp_all add: t)
qed simp

lemma calculateIScore_total:
  assumes "\<not> NeedToUpdateCalcDebugResult ctx" "None \<notin> set (ia_Delegations ia)"
  shows "\<exists>r ia'. calculateIScore ctx ia h = Some (r, ia', ctx)"
proof -
  let ?h = "if h = 0 then ia_BlockHeight ia + 1 else h"
  obtain t where "iscore_loop ia ?h (ia_Delegations ia) (0, ctx) = Some (t, ctx)"
    using iscore_loop_total [OF assms] by blast
  then show ?thesis by (simp only: calculateIScore_def Let_def) simp
qed

section \<open>A shard\<close>

text \<open>
  The content of an account database: addresses in order, each with an account entry that
  has no nil delegation.
\<close>

definition account_ok :: "address \<times> IScoreAccount \<Rightarrow> bool" where
  "account_ok p \<longleftrightarrow>
     address_ok (fst p) \<and> ia_Address (snd p) = fst p \<and> delegations_ok (ia_Delegations (snd p)) \<and>
     None \<notin> set (ia_Delegations (snd p))"

definition account_db :: "(address \<times> IScoreAccount) list \<Rightarrow> obj kv" where
  "account_db as = map (\<lambda>(a, ia). (a, IScoreAccount_Bytes ia)) as"

definition due :: "u64 \<Rightarrow> (address \<times> IScoreAccount) list \<Rightarrow> (address \<times> IScoreAccount) list" where
  "due h as = filter (\<lambda>p. ia_BlockHeight (snd p) < h) as"

definition put_account :: "IScoreAccount \<Rightarrow> obj kv \<Rightarrow> obj kv" where
  "put_account ia db = kv_put (ia_Address ia) (IScoreAccount_Bytes ia) db"

lemma Batch_Write_append [simp]: "Batch_Write db (xs @ ys) = Batch_Write (Batch_Write db xs) ys"
  by (simp add: Batch_Write_def)

lemma Batch_Write_Nil [simp]: "Batch_Write db [] = db"
  by (simp add: Batch_Write_def)

text \<open>The shard's database once the batch in hand is written.\<close>

definition flushed :: "shard_state \<Rightarrow> obj kv" where
  "flushed st = Batch_Write (sh_db st) (sh_batch st)"

lemma account_decode:
  "account_ok (a, ia) \<Longrightarrow> NewIScoreAccountFromBytes (IScoreAccount_Bytes ia) = Inr (ia\<lparr>ia_Address := zero_address\<rparr>)"
  "account_ok (a, ia) \<Longrightarrow> NewAddress a = Some a"
  using NewAddress_Bytes [of a] by (simp_all add: account_ok_def NewIScoreAccountFromBytes_Bytes Address_Bytes_def)

lemma calculateDB_loop_ok:
  assumes dbg: "\<not> NeedToUpdateCalcDebugResult ctx" and gvs: "gvs_ok (GV ctx)" and h: "h \<noteq> 0"
    and "\<forall>p \<in> set as. account_ok p" "sh_ctx st = ctx" "batchCount = 0 \<longrightarrow> sh_batch st = []"
  shows "\<exists>st'. calculateDB_loop (\<lambda>_. False) h batchCount k (account_db as) st = Some (Finished, st') \<and>
    sh_ctx st' = ctx \<and> (batchCount = 0 \<longrightarrow> sh_batch st' = []) \<and>
    flushed st' = fold put_account (map (calc_account ctx h \<circ> snd) (due h as)) (flushed st) \<and>
    sh_count st' = sh_count st + of_nat (length (due h as)) \<and>
    sh_hash st' = sh_hash st @ concat (map (BytesForHash \<circ> calc_account ctx h \<circ> snd) (due h as)) \<and>
    st_Accounts (sh_stats st') = st_Accounts (sh_stats st) + of_nat (length as) \<and>
    st_Beta3 (sh_stats st') = st_Beta3 (sh_stats st) + (\<Sum>p \<leftarrow> due h as. account_reward ctx (snd p) h)"
  using assms(4-6)
proof (induction as arbitrary: st k)
  case Nil
  then show ?case by (simp add: account_db_def due_def)
next
  case (Cons p as)
  obtain a ia where p: "p = (a, ia)" by (cases p)
  have ok: "account_ok (a, ia)" using Cons.prems(1) p by simp
  then have ia: "ia\<lparr>ia_Address := a\<rparr> = ia" "ia_Address ia = a" "None \<notin> set (ia_Delegations ia)" by (auto simp: account_ok_def)
  obtain r ia' where c: "calculateIScore ctx ia h = Some (r, ia', ctx)"
    using calculateIScore_total [OF dbg ia(3)] by blast
  note cs = calculateIScore_sum [OF gvs c h]
  let ?st1 = "st\<lparr>sh_stats := stat_inc ''Accounts'' (VUint64 1) (sh_stats st)\<rparr>"
  show ?case
  proof (cases "h \<le> ia_BlockHeight ia")
    case True
    with cs have r: "r = None" by simp
    let ?st = "?st1\<lparr>sh_ctx := ctx, sh_entries := sh_entries ?st1 + 1\<rparr>"
    have "calculateDB_loop (\<lambda>_. False) h batchCount k (account_db (p # as)) st =
        calculateDB_loop (\<lambda>_. False) h batchCount (Suc k) (account_db as) ?st"
      using c r Cons.prems(2) account_decode [OF ok] by (simp add: account_db_def p PrefixIScore_def Let_def ia(1))
    moreover have "due h (p # as) = due h as" using True by (simp add: due_def p)
    moreover have "flushed ?st = flushed st" by (simp add: flushed_def)
    ultimately show ?thesis using Cons.IH [of ?st "Suc k"] Cons.prems by (simp add: add.assoc)
  next
    case False
    with cs have r: "r = Some (account_reward ctx ia h)" and ia': "ia' = calc_account ctx h ia" by simp_all
    let ?batch = "sh_batch st @ [BatchPut a (IScoreAccount_Bytes ia')]"
    let ?st2 = "if 0 < batchCount then
        (if sh_entries st = batchCount then ?st1\<lparr>sh_db := Batch_Write (sh_db st) ?batch, sh_batch := [], sh_entries := 0\<rparr>
         else ?st1\<lparr>sh_batch := ?batch\<rparr>)
      else ?st1\<lparr>sh_db := Bucket_Set (sh_db st) PrefixIScore a (IScoreAccount_Bytes ia')\<rparr>"
    let ?st = "?st2\<lparr>sh_ctx := ctx, sh_hash := sh_hash ?st2 @ BytesForHash ia',
        sh_stats := stat_inc ''Beta3'' (VHexInt (account_reward ctx ia h)) (sh_stats ?st2),
        sh_count := sh_count ?st2 + 1, sh_entries := sh_entries ?st2 + 1\<rparr>"
    have step: "calculateDB_loop (\<lambda>_. False) h batchCount k (account_db (p # as)) st =
        calculateDB_loop (\<lambda>_. False) h batchCount (Suc k) (account_db as) ?st"
      using c r Cons.prems(2) account_decode [OF ok]
      by (simp add: account_db_def p PrefixIScore_def Let_def ia(1))
    have due: "due h (p # as) = p # due h as" using False by (simp add: due_def p)
    have fl: "flushed ?st = put_account ia' (flushed st)"
      using Cons.prems(3) ia ia'
      by (cases "batchCount = 0")
        (simp_all add: flushed_def put_account_def Batch_Write_def Bucket_Set_def calc_account_def PrefixIScore_def word_gt_0)
    have st: "sh_count ?st = sh_count st + 1" "sh_hash ?st = sh_hash st @ BytesForHash ia'"
      "st_Accounts (sh_stats ?st) = st_Accounts (sh_stats st) + 1"
      "st_Beta3 (sh_stats ?st) = st_Beta3 (sh_stats st) + account_reward ctx ia h"
      "sh_ctx ?st = ctx" "batchCount = 0 \<longrightarrow> sh_batch ?st = []"
      using Cons.prems(3) by simp_all
    show ?thesis
      unfolding step due using Cons.IH [of ?st "Suc k", OF _ st(5,6)] Cons.prems(1) fl st ia'
      by (simp add: p add.assoc)
  qed
qed

lemma calculateDB_ok:
  assumes "\<not> NeedToUpdateCalcDebugResult ctx" "gvs_ok (GV ctx)" "h \<noteq> 0" "\<forall>p \<in> set as. account_ok p"
  shows "\<exists>st. calculateDB shake (\<lambda>_. False) (account_db as) db ctx h batchCount =
      Some (of_nat (length (due h as)), st,
        Some (if (of_nat (length (due h as)) :: u64) = 0 then replicate 64 0
              else shake (concat (map (BytesForHash \<circ> calc_account ctx h \<circ> snd) (due h as)))),
        fold put_account (map (calc_account ctx h \<circ> snd) (due h as)) db, ctx) \<and>
    st_Accounts st = of_nat (length as) \<and>
    st_Beta3 st = (\<Sum>p \<leftarrow> due h as. account_reward ctx (snd p) h)"
proof -
  let ?st = "\<lparr>sh_entries = 0, sh_count = 0, sh_hash = [], sh_stats = zero_Statistics, sh_batch = [], sh_db = db, sh_ctx = ctx\<rparr>"
  obtain st' where run: "calculateDB_loop (\<lambda>_. False) h batchCount 0 (account_db as) ?st = Some (Finished, st')"
    and st': "sh_ctx st' = ctx" "batchCount = 0 \<longrightarrow> sh_batch st' = []"
      "flushed st' = fold put_account (map (calc_account ctx h \<circ> snd) (due h as)) (flushed ?st)"
      "sh_count st' = of_nat (length (due h as))"
      "sh_hash st' = concat (map (BytesForHash \<circ> calc_account ctx h \<circ> snd) (due h as))"
      "st_Accounts (sh_stats st') = of_nat (length as)"
      "st_Beta3 (sh_stats st') = (\<Sum>p \<leftarrow> due h as. account_reward ctx (snd p) h)"
    using calculateDB_loop_ok [OF assms, of ?st batchCount 0] by (auto simp: zero_Statistics_def)
  have fl: "(if 0 < batchCount then Batch_Write (sh_db st') (sh_batch st') else sh_db st') =
      fold put_account (map (calc_account ctx h \<circ> snd) (due h as)) db"
    using st'(2,3) by (cases "batchCount = 0") (simp_all add: flushed_def word_gt_0)
  show ?thesis
    unfolding calculateDB_def Iterator_New_def option.case run prod.case shard_end.case fl
    using st' by (intro exI [of _ "sh_stats st'"]) (simp add: word_gt_0)
qed

lemma fold_put_account:
  assumes "kv_ok db" "distinct (map ia_Address ias)"
  shows "kv_ok (fold put_account ias db)"
    and "kv_get a (fold put_account ias db) =
      (case map_of (map (\<lambda>ia. (ia_Address ia, ia)) ias) a of None \<Rightarrow> kv_get a db | Some ia \<Rightarrow> Some (IScoreAccount_Bytes ia))"
  using assms
proof (induction ias arbitrary: db)
  case (Cons ia ias)
  {
    case 1
    then show ?case using Cons.IH(1) by (simp add: put_account_def)
  next
    case 2
    have "map_of (map (\<lambda>ia. (ia_Address ia, ia)) ias) (ia_Address ia) = None"
      using 2(2) by (auto simp: map_of_eq_None_iff image_comp comp_def)
    then show ?case using Cons.IH(2) [of "put_account ia db"] 2 by (auto simp: put_account_def split: option.splits)
  }
qed simp_all

end
