(* ===== verification/IScoreDbProps.thy ===== *)
theory IScoreDbProps
  imports IScoreDb
begin

text \<open>
  Properties of the account databases. The invariant \<open>idb_ok\<close> says that both sets are open
  under their names and exist on disk; it makes every lookup of an account database succeed
  and keeps the two sets apart. The swap at the start of a calculation keeps the old query
  set as backups, and a rollback puts it back.
\<close>

section \<open>Directories\<close>

lemma disk_open_map_of:
  "map_of (disk_open n d) x = (if x = n \<and> map_of d n = None then Some [] else map_of d x)"
  by (simp add: disk_open_def update_conv')

lemma fold_disk_open_map_of:
  "map_of (fold disk_open ns d) x = (if x \<in> set ns \<and> map_of d x = None then Some [] else map_of d x)"
proof (induction ns arbitrary: d)
  case (Cons n ns)
  then show ?case by (auto simp: disk_open_map_of)
qed simp

lemma fold_delete_map_of:
  "map_of (fold AList.delete ns d) x = (if x \<in> set ns then None else map_of d x)"
proof (induction ns arbitrary: d)
  case (Cons n ns)
  then show ?case by (simp add: delete_conv')
qed simp

lemma disk_rename_map_of:
  assumes "map_of d src = Some m" "map_of d dst = None"
  shows "\<exists>d'. disk_rename src dst d = Inr d' \<and>
    (\<forall>x. map_of d' x = (if x = dst then Some m else if x = src then None else map_of d x)) \<and>
    (distinct (map fst d) \<longrightarrow> distinct (map fst d'))"
  using assms by (auto simp: disk_rename_def update_conv' delete_conv' distinct_update distinct_delete)

lemma distinct_disk_open: "distinct (map fst d) \<Longrightarrow> distinct (map fst (disk_open n d))"
  by (simp add: disk_open_def distinct_update)

lemma distinct_fold_open: "distinct (map fst d) \<Longrightarrow> distinct (map fst (fold disk_open ns d))"
  by (induction ns arbitrary: d) (auto simp: distinct_disk_open)

lemma distinct_fold_delete: "distinct (map fst d) \<Longrightarrow> distinct (map fst (fold AList.delete ns d))"
  by (induction ns arbitrary: d) (auto simp: distinct_delete)

lemma set_disk_glob: "set (disk_glob P d) = {n. P n \<and> map_of d n \<noteq> None}"
  by (auto simp: disk_glob_def map_of_eq_None_iff)

lemma distinct_disk_glob: "distinct (map fst d) \<Longrightarrow> distinct (disk_glob P d)"
  by (simp add: disk_glob_def)

section \<open>Invariant\<close>

definition idb_ok :: "IScoreDB \<Rightarrow> bool" where
  "idb_ok idb \<longleftrightarrow>
     0 < DBCount (info idb) \<and> Account0 idb = account_names idb 0 \<and> Account1 idb = account_names idb 1 \<and>
     distinct (map fst (dirs idb)) \<and>
     (\<forall>n \<in> set (account_names idb 0) \<union> set (account_names idb 1). map_of (dirs idb) n \<noteq> None)"

lemma length_account_names [simp]: "length (account_names idb p) = nat (DBCount (info idb))"
  by (simp add: account_names_def)

lemma nth_account_names:
  "i < nat (DBCount (info idb)) \<Longrightarrow> account_names idb p ! i = CalcDir (int i + 1) (DBCount (info idb)) p"
  by (simp add: account_names_def)

lemma account_names_disjoint: "p \<noteq> q \<Longrightarrow> set (account_names idb p) \<inter> set (account_names idb' q) = {}"
  by (auto simp: account_names_def)

lemma getAccountDBIndex_ok:
  assumes "0 < DBCount (info idb)" "address_ok a"
  shows "\<exists>i. getAccountDBIndex idb a = Some i \<and> i < nat (DBCount (info idb))"
proof -
  obtain t b r where "a = t # b # r"
    using assms(2) by (cases a; cases "tl a") (auto simp: address_ok_def AddressBytes_def AddressIDBytes_def)
  then show ?thesis
    using assms(1) by (simp add: getAccountDBIndex_def Address_ID_def pos_mod_bound)
qed

definition query_postfix :: "IScoreDB \<Rightarrow> nat" where
  "query_postfix idb = (if QueryDBIsZero (info idb) then 0 else 1)"

definition calc_postfix :: "IScoreDB \<Rightarrow> nat" where
  "calc_postfix idb = (if QueryDBIsZero (info idb) then 1 else 0)"

lemma idb_ok_lists:
  assumes "idb_ok idb"
  shows "getQueryDBList idb = account_names idb (query_postfix idb)"
    "GetCalcDBList idb = account_names idb (calc_postfix idb)"
  using assms by (simp_all add: idb_ok_def getQueryDBList_def GetCalcDBList_def query_postfix_def calc_postfix_def)

lemma idb_ok_getDB:
  assumes "idb_ok idb" "address_ok a"
  shows "\<exists>i. getAccountDBIndex idb a = Some i \<and> i < nat (DBCount (info idb)) \<and>
    getQueryDB idb a = Some (CalcDir (int i + 1) (DBCount (info idb)) (query_postfix idb)) \<and>
    getCalculateDB idb a = Some (CalcDir (int i + 1) (DBCount (info idb)) (calc_postfix idb))"
proof -
  have "0 < DBCount (info idb)" using assms(1) by (simp add: idb_ok_def)
  from getAccountDBIndex_ok [OF this assms(2)] show ?thesis
    by (auto simp: getQueryDB_def getCalculateDB_def db_at_def idb_ok_lists [OF assms(1)] nth_account_names)
qed

lemma postfix_neq: "query_postfix idb \<noteq> calc_postfix idb" "calc_postfix idb \<noteq> query_postfix idb"
  by (simp_all add: query_postfix_def calc_postfix_def)

lemma info_writeToDB [simp]:
  "info (writeToDB idb) = info idb" "dirs (writeToDB idb) = dirs idb"
  "Account0 (writeToDB idb) = Account0 idb" "Account1 (writeToDB idb) = Account1 idb"
  "claims (writeToDB idb) = claims idb" "calcResult (writeToDB idb) = calcResult idb"
  by (simp_all add: writeToDB_def)

lemma account_names_cong: "DBCount (info idb) = DBCount (info idb') \<Longrightarrow> account_names idb = account_names idb'"
  by (simp add: account_names_def fun_eq_iff)

lemma idb_ok_cong:
  "idb_ok idb \<Longrightarrow> DBCount (info idb') = DBCount (info idb) \<Longrightarrow> Account0 idb' = Account0 idb \<Longrightarrow>
    Account1 idb' = Account1 idb \<Longrightarrow> dirs idb' = dirs idb \<Longrightarrow> idb_ok idb'"
  using account_names_cong [of idb' idb] by (simp add: idb_ok_def del: map_of_eq_Some_iff)

lemma idb_ok_heights [simp]:
  assumes "idb_ok idb"
  shows "idb_ok (writeToDB idb)" "idb_ok (toggleAccountDB h idb)" "idb_ok (setCalculatingBH h idb)"
    "idb_ok (resetCalculatingBH idb)" "idb_ok (setCurrentBlockInfo h b idb)" "idb_ok (setCalcDoneBH h idb)"
    "idb_ok (rollbackCurrentBlockInfo h b idb)" "idb_ok (rollbackAccountDBBlockInfo idb)"
  by (rule idb_ok_cong [OF assms]; simp add: toggleAccountDB_def setCalculatingBH_def resetCalculatingBH_def
      setCurrentBlockInfo_def setCalcDoneBH_def rollbackCurrentBlockInfo_def rollbackAccountDBBlockInfo_def)+

section \<open>Backing up\<close>

lemma reset_loop_ok:
  assumes "\<And>j. k \<le> j \<Longrightarrow> j < k + n \<Longrightarrow> map_of d (CalcDir (int j + 1) (DBCount i) p) \<noteq> None"
    and "\<And>j. k \<le> j \<Longrightarrow> j < k + n \<Longrightarrow> map_of d (BackupDir h (int j + 1)) = None"
    and "distinct (map fst d)"
  shows "\<exists>d'. reset_loop i h p k n d = (None, d', map (\<lambda>j. CalcDir (int j + 1) (DBCount i) p) [k..<k + n]) \<and>
    distinct (map fst d') \<and>
    (\<forall>j. k \<le> j \<and> j < k + n \<longrightarrow> map_of d' (CalcDir (int j + 1) (DBCount i) p) = Some [] \<and>
       map_of d' (BackupDir h (int j + 1)) = map_of d (CalcDir (int j + 1) (DBCount i) p)) \<and>
    (\<forall>x. (\<forall>j. k \<le> j \<and> j < k + n \<longrightarrow> x \<noteq> CalcDir (int j + 1) (DBCount i) p \<and> x \<noteq> BackupDir h (int j + 1)) \<longrightarrow>
       map_of d' x = map_of d x)"
  using assms
proof (induction n arbitrary: k d)
  case (Suc n)
  define db where "db = CalcDir (int k + 1) (DBCount i) p"
  define bk where "bk = BackupDir h (int k + 1)"
  obtain m where m: "map_of d db = Some m" using Suc.prems(1) [of k] by (auto simp: db_def)
  have nb: "map_of d bk = None" using Suc.prems(2) [of k] by (auto simp: bk_def)
  obtain d1 where d1: "disk_rename db bk d = Inr d1" "distinct (map fst d1)"
    "\<And>x. map_of d1 x = (if x = bk then Some m else if x = db then None else map_of d x)"
    using disk_rename_map_of [OF m nb] Suc.prems(3) by blast
  define d2 where "d2 = disk_open db d1"
  have d2: "map_of d2 x = (if x = bk then Some m else if x = db then Some [] else map_of d x)" for x
    using d1(3) by (auto simp: d2_def disk_open_map_of db_def bk_def)
  have dist2: "distinct (map fst d2)" using d1(2) by (simp add: d2_def distinct_disk_open)
  have "\<exists>d'. reset_loop i h p (Suc k) n d2 = (None, d', map (\<lambda>j. CalcDir (int j + 1) (DBCount i) p) [Suc k..<Suc k + n]) \<and>
    distinct (map fst d') \<and>
    (\<forall>j. Suc k \<le> j \<and> j < Suc k + n \<longrightarrow> map_of d' (CalcDir (int j + 1) (DBCount i) p) = Some [] \<and>
       map_of d' (BackupDir h (int j + 1)) = map_of d2 (CalcDir (int j + 1) (DBCount i) p)) \<and>
    (\<forall>x. (\<forall>j. Suc k \<le> j \<and> j < Suc k + n \<longrightarrow> x \<noteq> CalcDir (int j + 1) (DBCount i) p \<and> x \<noteq> BackupDir h (int j + 1)) \<longrightarrow>
       map_of d' x = map_of d2 x)"
    by (rule Suc.IH [OF _ _ dist2]) (use Suc.prems in \<open>auto simp: d2 db_def bk_def\<close>)
  then obtain d' where IH: "reset_loop i h p (Suc k) n d2 = (None, d', map (\<lambda>j. CalcDir (int j + 1) (DBCount i) p) [Suc k..<Suc k + n])"
    "distinct (map fst d')"
    and range: "\<And>j. Suc k \<le> j \<Longrightarrow> j < Suc k + n \<Longrightarrow> map_of d' (CalcDir (int j + 1) (DBCount i) p) = Some [] \<and>
       map_of d' (BackupDir h (int j + 1)) = map_of d2 (CalcDir (int j + 1) (DBCount i) p)"
    and out: "\<And>x. (\<And>j. Suc k \<le> j \<Longrightarrow> j < Suc k + n \<Longrightarrow> x \<noteq> CalcDir (int j + 1) (DBCount i) p \<and> x \<noteq> BackupDir h (int j + 1)) \<Longrightarrow>
       map_of d' x = map_of d2 x"
    by blast
  have "reset_loop i h p k (Suc n) d = (None, d', map (\<lambda>j. CalcDir (int j + 1) (DBCount i) p) [k..<k + Suc n])"
    using IH(1) d1(1) nb by (simp add: db_def [symmetric] bk_def [symmetric] d2_def [symmetric] upt_conv_Cons del: upt_Suc)
  moreover have "map_of d' db = Some []" "map_of d' bk = Some m"
    using out [of db] out [of bk] by (auto simp: d2 db_def bk_def)
  moreover have "map_of d' (CalcDir (int j + 1) (DBCount i) p) = Some [] \<and>
      map_of d' (BackupDir h (int j + 1)) = map_of d (CalcDir (int j + 1) (DBCount i) p)"
    if "k < j" "j < k + Suc n" for j
    using range [of j] that by (simp add: d2 db_def bk_def)
  moreover have "map_of d' x = map_of d x"
    if "\<forall>j. k \<le> j \<and> j < k + Suc n \<longrightarrow> x \<noteq> CalcDir (int j + 1) (DBCount i) p \<and> x \<noteq> BackupDir h (int j + 1)" for x
    using out [of x] that [rule_format, of k] that by (auto simp: d2 db_def bk_def)
  ultimately show ?case
    using IH(2) m by (intro exI [of _ d']) (auto simp: db_def bk_def le_eq_less_or_eq)
qed auto

lemma resetAccountDB_ok:
  assumes ok: "idb_ok idb" and nb: "\<And>i. map_of (dirs idb) (BackupDir h i) = None"
  shows "\<exists>idb'. resetAccountDB h old idb = (None, idb') \<and> idb_ok idb' \<and> info idb' = info idb \<and>
    management idb' = management idb \<and> claims idb' = claims idb \<and> calcResult idb' = calcResult idb \<and>
    (\<forall>j < nat (DBCount (info idb)).
       map_of (dirs idb') (CalcDir (int j + 1) (DBCount (info idb)) (calc_postfix idb)) = Some [] \<and>
       map_of (dirs idb') (BackupDir h (int j + 1)) =
         map_of (dirs idb) (CalcDir (int j + 1) (DBCount (info idb)) (calc_postfix idb))) \<and>
    (\<forall>x. (\<forall>j < nat (DBCount (info idb)). x \<noteq> CalcDir (int j + 1) (DBCount (info idb)) (calc_postfix idb) \<and>
            x \<noteq> BackupDir h (int j + 1)) \<longrightarrow>
       map_of (dirs idb') x = (if is_backup_of old x then None else map_of (dirs idb) x))"
proof -
  define n where "n = nat (DBCount (info idb))"
  define p where "p = calc_postfix idb"
  define d0 where "d0 = fold AList.delete (disk_glob (is_backup_of old) (dirs idb)) (dirs idb)"
  have dist: "distinct (map fst (dirs idb))" using ok by (simp add: idb_ok_def)
  have d0: "map_of d0 x = (if is_backup_of old x then None else map_of (dirs idb) x)" for x
    by (auto simp: d0_def fold_delete_map_of set_disk_glob simp del: map_of_eq_Some_iff)
  have dist0: "distinct (map fst d0)" unfolding d0_def using dist by (rule distinct_fold_delete)
  have ex: "map_of (dirs idb) (CalcDir (int j + 1) (DBCount (info idb)) q) \<noteq> None"
    if "j < n" "q \<in> {0, 1}" for j q
    using ok that unfolding idb_ok_def by (force simp: account_names_def n_def simp del: map_of_eq_Some_iff)
  have "p \<in> {0, 1}" by (simp add: p_def calc_postfix_def)
  have "\<exists>d'. reset_loop (info idb) h p 0 n d0 = (None, d', map (\<lambda>j. CalcDir (int j + 1) (DBCount (info idb)) p) [0..<0 + n]) \<and>
    distinct (map fst d') \<and>
    (\<forall>j. 0 \<le> j \<and> j < 0 + n \<longrightarrow> map_of d' (CalcDir (int j + 1) (DBCount (info idb)) p) = Some [] \<and>
       map_of d' (BackupDir h (int j + 1)) = map_of d0 (CalcDir (int j + 1) (DBCount (info idb)) p)) \<and>
    (\<forall>x. (\<forall>j. 0 \<le> j \<and> j < 0 + n \<longrightarrow> x \<noteq> CalcDir (int j + 1) (DBCount (info idb)) p \<and> x \<noteq> BackupDir h (int j + 1)) \<longrightarrow>
       map_of d' x = map_of d0 x)"
    using nb ex \<open>p \<in> {0, 1}\<close> dist0
    by (intro reset_loop_ok) (auto simp: d0 simp del: map_of_eq_Some_iff)
  then obtain d' where d': "reset_loop (info idb) h p 0 n d0 = (None, d', account_names idb p)" "distinct (map fst d')"
    and in_range: "\<And>j. j < n \<Longrightarrow> map_of d' (CalcDir (int j + 1) (DBCount (info idb)) p) = Some [] \<and>
       map_of d' (BackupDir h (int j + 1)) = map_of (dirs idb) (CalcDir (int j + 1) (DBCount (info idb)) p)"
    and out: "\<And>x. (\<And>j. j < n \<Longrightarrow> x \<noteq> CalcDir (int j + 1) (DBCount (info idb)) p \<and> x \<noteq> BackupDir h (int j + 1)) \<Longrightarrow>
       map_of d' x = (if is_backup_of old x then None else map_of (dirs idb) x)"
    by (auto simp: account_names_def n_def d0 simp del: map_of_eq_Some_iff)
  define idb' where "idb' = (if QueryDBIsZero (info idb) then idb\<lparr>dirs := d', Account1 := account_names idb p\<rparr>
      else idb\<lparr>dirs := d', Account0 := account_names idb p\<rparr>)"
  have run: "resetAccountDB h old idb = (None, idb')"
    using d'(1) ok
    by (simp add: resetAccountDB_def Let_def d0_def [symmetric] idb'_def idb_ok_lists [OF ok] n_def p_def calc_postfix_def)
  have "map_of d' (CalcDir (int j + 1) (DBCount (info idb)) q) \<noteq> None" if "j < n" "q \<in> {0, 1}" for j q
    using in_range [of j] out [of "CalcDir (int j + 1) (DBCount (info idb)) q"] ex [OF that] that
    by (cases "q = p") auto
  then have "idb_ok idb'"
    using ok d'(2) account_names_cong [of idb' idb]
    by (auto simp: idb_ok_def idb'_def account_names_def p_def calc_postfix_def n_def simp del: map_of_eq_Some_iff split: if_splits)
  then show ?thesis
    using run in_range out
    by (intro exI [of _ idb']) (auto simp: idb'_def n_def p_def simp del: map_of_eq_Some_iff)
qed

section \<open>Rolling back\<close>

lemma rollback_backups_ok:
  assumes "\<And>f. f \<in> set fs \<Longrightarrow> \<exists>i. f = BackupDir h i \<and> map_of d f \<noteq> None" "distinct fs"
    and "uint h < 2 ^ 63" "distinct (map fst d)"
  shows "\<exists>d'. rollback_backups dbi p fs d = (None, d') \<and> distinct (map fst d') \<and>
    (\<forall>i. BackupDir h i \<in> set fs \<longrightarrow>
       map_of d' (CalcDir i (DBCount dbi) p) = map_of d (BackupDir h i) \<and> map_of d' (BackupDir h i) = None) \<and>
    (\<forall>x. (\<forall>i. BackupDir h i \<in> set fs \<longrightarrow> x \<noteq> CalcDir i (DBCount dbi) p \<and> x \<noteq> BackupDir h i) \<longrightarrow>
       map_of d' x = map_of d x)"
  using assms
proof (induction fs arbitrary: d)
  case (Cons f fs)
  have "\<exists>i. f = BackupDir h i \<and> map_of d f \<noteq> None" using Cons.prems(1) [of f] by simp
  then obtain i m where f: "f = BackupDir h i" and m: "map_of d f = Some m" by blast
  define c where "c = CalcDir i (DBCount dbi) p"
  obtain d1 where d1: "disk_rename f c (AList.delete c d) = Inr d1" "distinct (map fst d1)"
    "\<And>x. map_of d1 x = (if x = c then Some m else if x = f then None else map_of (AList.delete c d) x)"
    using disk_rename_map_of [of "AList.delete c d" f m c] m Cons.prems(4)
    by (auto simp: delete_conv' f c_def distinct_delete simp del: map_of_eq_Some_iff)
  have d1': "map_of d1 x = (if x = c then Some m else if x = f then None else map_of d x)" for x
    using d1(3) by (simp add: delete_conv')
  have "\<exists>d'. rollback_backups dbi p fs d1 = (None, d') \<and> distinct (map fst d') \<and>
    (\<forall>j. BackupDir h j \<in> set fs \<longrightarrow>
       map_of d' (CalcDir j (DBCount dbi) p) = map_of d1 (BackupDir h j) \<and> map_of d' (BackupDir h j) = None) \<and>
    (\<forall>x. (\<forall>j. BackupDir h j \<in> set fs \<longrightarrow> x \<noteq> CalcDir j (DBCount dbi) p \<and> x \<noteq> BackupDir h j) \<longrightarrow>
       map_of d' x = map_of d1 x)"
  proof (rule Cons.IH [OF _ _ Cons.prems(3) d1(2)])
    fix g assume "g \<in> set fs"
    with Cons.prems(1,2) obtain j where "g = BackupDir h j" "map_of d g \<noteq> None" "g \<noteq> f" by fastforce
    then show "\<exists>j. g = BackupDir h j \<and> map_of d1 g \<noteq> None" by (simp add: d1' c_def)
  qed (use Cons.prems(2) in simp)
  then obtain d' where d': "rollback_backups dbi p fs d1 = (None, d')" "distinct (map fst d')"
    and IN0: "\<forall>j. BackupDir h j \<in> set fs \<longrightarrow>
       map_of d' (CalcDir j (DBCount dbi) p) = map_of d1 (BackupDir h j) \<and> map_of d' (BackupDir h j) = None"
    and OUT0: "\<forall>x. (\<forall>j. BackupDir h j \<in> set fs \<longrightarrow> x \<noteq> CalcDir j (DBCount dbi) p \<and> x \<noteq> BackupDir h j) \<longrightarrow>
       map_of d' x = map_of d1 x"
    by (elim exE conjE)
  note IN = IN0 [rule_format] and OUT = OUT0 [rule_format]
  have nf: "BackupDir h i \<notin> set fs" using Cons.prems(2) f by simp
  have run: "rollback_backups dbi p (f # fs) d = (None, d')"
    using d1(1) d'(1) Cons.prems(3) by (simp add: f c_def)
  have "map_of d' (CalcDir j (DBCount dbi) p) = map_of d (BackupDir h j) \<and> map_of d' (BackupDir h j) = None"
    if "BackupDir h j \<in> set (f # fs)" for j
  proof (cases "j = i")
    case True
    then show ?thesis
      using OUT [of c] OUT [of f] nf m by (auto simp: d1' c_def f simp del: map_of_eq_Some_iff)
  next
    case False
    then show ?thesis using that IN [of j] by (simp add: f d1' c_def)
  qed
  moreover have "map_of d' x = map_of d x"
    if "\<forall>j. BackupDir h j \<in> set (f # fs) \<longrightarrow> x \<noteq> CalcDir j (DBCount dbi) p \<and> x \<noteq> BackupDir h j" for x
    using OUT [of x] that by (auto simp: d1' c_def f)
  ultimately show ?case using run d'(2) by blast
qed simp

text \<open>The backups on disk are those of one height, one per shard.\<close>

definition backups_of :: "u64 \<Rightarrow> IScoreDB \<Rightarrow> bool" where
  "backups_of h idb \<longleftrightarrow>
     (\<forall>n. is_backup n \<longrightarrow>
        (map_of (dirs idb) n \<noteq> None \<longleftrightarrow> (\<exists>j < nat (DBCount (info idb)). n = BackupDir h (int j + 1))))"

lemma rollbackAccountDB_ok:
  assumes ok: "idb_ok idb" and bk: "backups_of h idb" and h: "uint h < 2 ^ 63"
  shows "\<exists>idb'. rollbackAccountDB r idb = Some (None, idb') \<and> idb_ok idb' \<and>
    DBCount (info idb') = DBCount (info idb) \<and> claims idb' = claims idb \<and>
    QueryDBIsZero (info idb') = (if ToggleBH (info idb) = r then QueryDBIsZero (info idb) else \<not> QueryDBIsZero (info idb)) \<and>
    ToggleBH (info idb') = r \<and> Current (info idb') = Current (info idb) \<and>
    CalcDone (info idb') = PrevCalcDone (info idb) \<and> Calculating (info idb') = PrevCalcDone (info idb) \<and>
    PrevCalcDone (info idb') = PrevCalcDone (info idb) \<and>
    calcResult idb' = DeleteCalculationResult (calcResult idb) (CalcDone (info idb)) \<and>
    (\<forall>j < nat (DBCount (info idb)).
       disk_read (dirs idb') (CalcDir (int j + 1) (DBCount (info idb)) (calc_postfix idb)) =
         disk_read (dirs idb) (BackupDir h (int j + 1)) \<and>
       disk_read (dirs idb') (CalcDir (int j + 1) (DBCount (info idb)) (query_postfix idb)) =
         disk_read (dirs idb) (CalcDir (int j + 1) (DBCount (info idb)) (query_postfix idb)))"
proof -
  define n where "n = nat (DBCount (info idb))"
  define p where "p = calc_postfix idb"
  define fs where "fs = disk_glob is_backup (dirs idb)"
  have dist: "distinct (map fst (dirs idb))" using ok by (simp add: idb_ok_def)
  have fs: "set fs = {BackupDir h (int j + 1) | j. j < n}"
    using bk unfolding fs_def set_disk_glob backups_of_def n_def by (auto simp del: map_of_eq_Some_iff)
  have ex: "\<exists>i. f = BackupDir h i \<and> map_of (dirs idb) f \<noteq> None" if "f \<in> set fs" for f
    using that bk unfolding fs_def set_disk_glob backups_of_def by blast
  have dfs: "distinct fs" unfolding fs_def using dist by (rule distinct_disk_glob)
  have rb: "\<exists>d'. rollback_backups (info idb) p fs (dirs idb) = (None, d') \<and> distinct (map fst d') \<and>
    (\<forall>i. BackupDir h i \<in> set fs \<longrightarrow>
       map_of d' (CalcDir i (DBCount (info idb)) p) = map_of (dirs idb) (BackupDir h i) \<and> map_of d' (BackupDir h i) = None) \<and>
    (\<forall>x. (\<forall>i. BackupDir h i \<in> set fs \<longrightarrow> x \<noteq> CalcDir i (DBCount (info idb)) p \<and> x \<noteq> BackupDir h i) \<longrightarrow>
       map_of d' x = map_of (dirs idb) x)"
    using ex dfs h dist by (rule rollback_backups_ok)
  obtain d' where d': "rollback_backups (info idb) p fs (dirs idb) = (None, d')" "distinct (map fst d')"
    and IN: "\<forall>i. BackupDir h i \<in> set fs \<longrightarrow>
       map_of d' (CalcDir i (DBCount (info idb)) p) = map_of (dirs idb) (BackupDir h i) \<and> map_of d' (BackupDir h i) = None"
    and OUT: "\<forall>x. (\<forall>i. BackupDir h i \<in> set fs \<longrightarrow> x \<noteq> CalcDir i (DBCount (info idb)) p \<and> x \<noteq> BackupDir h i) \<longrightarrow>
       map_of d' x = map_of (dirs idb) x"
    using rb by (elim exE conjE)
  have mem: "BackupDir h (int j + 1) \<in> set fs" if "j < n" for j using fs that by blast
  define idb1 where "idb1 = (CloseAccountDB idb)\<lparr>dirs := d'\<rparr>"
  define idb2 where "idb2 = idb1\<lparr>Account0 := account_names idb 0, Account1 := account_names idb 1,
      dirs := fold disk_open (account_names idb 0 @ account_names idb 1) d'\<rparr>"
  have pos: "\<not> DBCount (info idb) < 0" using ok by (simp add: idb_ok_def)
  have names: "account_names idb1 = account_names idb" "account_names idb2 = account_names idb"
    by (auto simp: idb1_def idb2_def CloseAccountDB_def intro: account_names_cong)
  have "OpenAccountDB idb1 = Some idb2"
    using pos names by (simp add: OpenAccountDB_def idb2_def) (simp add: idb1_def CloseAccountDB_def)
  then have opened: "OpenAccountDB (idb\<lparr>Account0 := [], Account1 := [], dirs := d'\<rparr>) = Some idb2"
    by (simp add: idb1_def CloseAccountDB_def)
  define idb3 where "idb3 = toggleAccountDB r idb2"
  define idb4 where "idb4 = idb3\<lparr>calcResult := DeleteCalculationResult (calcResult idb3) (getCalcDoneBH idb3)\<rparr>"
  have run: "rollbackAccountDB r idb = Some (None, rollbackAccountDBBlockInfo idb4)"
    using d'(1) opened
    unfolding rollbackAccountDB_def Let_def calc_postfix_def [symmetric] p_def [symmetric] fs_def [symmetric]
    by (simp add: idb3_def idb4_def CloseAccountDB_def)
  have "idb_ok idb2"
    using ok d'(2) names unfolding idb_ok_def
    by (auto simp: idb2_def idb1_def CloseAccountDB_def fold_disk_open_map_of
        simp del: map_of_eq_Some_iff intro!: distinct_fold_open)
  then have "idb_ok idb3" by (simp add: idb3_def)
  then have "idb_ok idb4" by (rule idb_ok_cong) (simp_all add: idb4_def)
  then have ok': "idb_ok (rollbackAccountDBBlockInfo idb4)" by simp
  have dirs': "dirs (rollbackAccountDBBlockInfo idb4) = dirs idb2"
    by (simp add: rollbackAccountDBBlockInfo_def idb4_def idb3_def toggleAccountDB_def)
  have read: "disk_read (dirs idb2) x = disk_read d' x" for x
    by (auto simp: idb2_def disk_read_def fold_disk_open_map_of split: option.splits)
  have "disk_read d' (CalcDir (int j + 1) (DBCount (info idb)) p) = disk_read (dirs idb) (BackupDir h (int j + 1))"
    "disk_read d' (CalcDir (int j + 1) (DBCount (info idb)) (query_postfix idb)) =
       disk_read (dirs idb) (CalcDir (int j + 1) (DBCount (info idb)) (query_postfix idb))"
    if "j < n" for j
    using IN [rule_format, OF mem [OF that]]
      OUT [rule_format, of "CalcDir (int j + 1) (DBCount (info idb)) (query_postfix idb)"]
    by (auto simp: disk_read_def p_def postfix_neq)
  then show ?thesis
    using run ok' dirs' read
    by (intro exI [of _ "rollbackAccountDBBlockInfo idb4"])
      (auto simp: n_def p_def rollbackAccountDBBlockInfo_def idb4_def idb3_def idb2_def idb1_def CloseAccountDB_def
        toggleAccountDB_def getCalcDoneBH_def)
qed

section \<open>Queries and calculations use different databases\<close>

text \<open>
  Under the invariant every address has a query database and a calculate database, both
  in their lists, and no account database is both, whatever the addresses: a calculation
  never writes a database that queries and claims read.
\<close>

theorem query_and_calculate_apart:
  assumes "idb_ok idb" "address_ok a" "address_ok b"
  shows "\<exists>q c. getQueryDB idb a = Some q \<and> getCalculateDB idb b = Some c \<and>
    q \<in> set (getQueryDBList idb) \<and> c \<in> set (GetCalcDBList idb) \<and>
    set (getQueryDBList idb) \<inter> set (GetCalcDBList idb) = {}"
proof -
  obtain i j where "getQueryDB idb a = Some (CalcDir (int i + 1) (DBCount (info idb)) (query_postfix idb))"
    "i < nat (DBCount (info idb))"
    "getCalculateDB idb b = Some (CalcDir (int j + 1) (DBCount (info idb)) (calc_postfix idb))"
    "j < nat (DBCount (info idb))"
    using idb_ok_getDB [OF assms(1,2)] idb_ok_getDB [OF assms(1,3)] by blast
  then show ?thesis
    using account_names_disjoint [OF postfix_neq(1) [of idb], of idb idb]
    by (auto simp: idb_ok_lists [OF assms(1)] account_names_def)
qed

definition ex_info :: DBInfo where
  "ex_info = zero_DBInfo\<lparr>DBCount := 2, CalcDone := 10, PrevCalcDone := 5, Calculating := 10, ToggleBH := 11\<rparr>"

definition ex_idb :: IScoreDB where
  "ex_idb = \<lparr>info = ex_info, management = [], calcResult = [],
     claims = \<lparr>preCommit_db = [], claim_db = [], claimBackup_db = []\<rparr>,
     Account0 = [CalcDir 1 2 0, CalcDir 2 2 0], Account1 = [CalcDir 1 2 1, CalcDir 2 2 1],
     dirs = [(CalcDir 1 2 0, [([1], ONil)]), (CalcDir 2 2 0, []), (CalcDir 1 2 1, [([2], ONil)]),
             (CalcDir 2 2 1, []), (BackupDir 10 1, []), (BackupDir 10 2, [])]\<rparr>"

lemma ex_idb_ok: "idb_ok ex_idb"
  by (simp add: idb_ok_def ex_idb_def ex_info_def zero_DBInfo_def account_names_def upt_conv_Cons)

theorem query_and_calculate_apart_witness:
  "\<exists>q c. getQueryDB ex_idb zero_address = Some q \<and> getCalculateDB ex_idb zero_address = Some c \<and>
    q \<in> set (getQueryDBList ex_idb) \<and> c \<in> set (GetCalcDBList ex_idb) \<and>
    set (getQueryDBList ex_idb) \<inter> set (GetCalcDBList ex_idb) = {}"
  using query_and_calculate_apart [OF ex_idb_ok zero_address_ok zero_address_ok] .

section \<open>Swapping the databases and rolling back\<close>

text \<open>What a calculation changes: the contents of the calculate databases and block heights.\<close>

definition calc_writes :: "IScoreDB \<Rightarrow> IScoreDB \<Rightarrow> bool" where
  "calc_writes idb idb' \<longleftrightarrow>
     idb_ok idb' \<and> DBCount (info idb') = DBCount (info idb) \<and>
     QueryDBIsZero (info idb') = QueryDBIsZero (info idb) \<and> ToggleBH (info idb') = ToggleBH (info idb) \<and>
     (\<forall>n. n \<notin> set (GetCalcDBList idb) \<longrightarrow> map_of (dirs idb') n = map_of (dirs idb) n)"

definition only_backups_of :: "u64 \<Rightarrow> IScoreDB \<Rightarrow> bool" where
  "only_backups_of h idb \<longleftrightarrow> (\<forall>n. is_backup n \<and> map_of (dirs idb) n \<noteq> None \<longrightarrow> is_backup_of h n)"

lemma toggle_fields:
  "ToggleBH (info idb) \<noteq> h \<Longrightarrow> QueryDBIsZero (info (toggleAccountDB h idb)) = (\<not> QueryDBIsZero (info idb))"
  "ToggleBH (info (toggleAccountDB h idb)) = h"
  "dirs (toggleAccountDB h idb) = dirs idb" "DBCount (info (toggleAccountDB h idb)) = DBCount (info idb)"
  "CalcDone (info (toggleAccountDB h idb)) = CalcDone (info idb)"
  by (auto simp: toggleAccountDB_def)

lemma reset_after_toggle:
  assumes ok: "idb_ok idb" and bk: "only_backups_of (CalcDone (info idb)) idb"
    and h: "CalcDone (info idb) < h" and t: "ToggleBH (info idb) \<noteq> h + 1"
  defines "idb1 \<equiv> toggleAccountDB (h + 1) idb"
  shows "\<exists>idb2. resetAccountDB h (getCalcDoneBH idb1) idb1 = (None, idb2) \<and> idb_ok idb2 \<and> info idb2 = info idb1 \<and>
    backups_of h idb2 \<and> query_postfix idb2 = calc_postfix idb \<and> calc_postfix idb2 = query_postfix idb \<and>
    (\<forall>j < nat (DBCount (info idb)).
       map_of (dirs idb2) (CalcDir (int j + 1) (DBCount (info idb)) (query_postfix idb)) = Some [] \<and>
       map_of (dirs idb2) (CalcDir (int j + 1) (DBCount (info idb)) (calc_postfix idb)) =
         map_of (dirs idb) (CalcDir (int j + 1) (DBCount (info idb)) (calc_postfix idb)) \<and>
       map_of (dirs idb2) (BackupDir h (int j + 1)) =
         map_of (dirs idb) (CalcDir (int j + 1) (DBCount (info idb)) (query_postfix idb)))"
proof -
  have ok1: "idb_ok idb1" using ok by (simp add: idb1_def)
  have d1: "dirs idb1 = dirs idb" "DBCount (info idb1) = DBCount (info idb)"
    "getCalcDoneBH idb1 = CalcDone (info idb)"
    by (simp_all add: idb1_def toggle_fields getCalcDoneBH_def)
  have p1: "calc_postfix idb1 = query_postfix idb" "query_postfix idb1 = calc_postfix idb"
    using toggle_fields(1) [OF t] by (simp_all add: calc_postfix_def query_postfix_def idb1_def)
  have nb: "map_of (dirs idb1) (BackupDir h i) = None" for i
    using bk h by (auto simp: only_backups_of_def d1 simp del: map_of_eq_Some_iff dest: spec [of _ "BackupDir h i"])
  obtain idb2 where r: "resetAccountDB h (getCalcDoneBH idb1) idb1 = (None, idb2)" "idb_ok idb2" "info idb2 = info idb1"
    and IN: "\<forall>j < nat (DBCount (info idb1)).
       map_of (dirs idb2) (CalcDir (int j + 1) (DBCount (info idb1)) (calc_postfix idb1)) = Some [] \<and>
       map_of (dirs idb2) (BackupDir h (int j + 1)) =
         map_of (dirs idb1) (CalcDir (int j + 1) (DBCount (info idb1)) (calc_postfix idb1))"
    and OUT: "\<forall>x. (\<forall>j < nat (DBCount (info idb1)). x \<noteq> CalcDir (int j + 1) (DBCount (info idb1)) (calc_postfix idb1) \<and>
            x \<noteq> BackupDir h (int j + 1)) \<longrightarrow>
       map_of (dirs idb2) x = (if is_backup_of (getCalcDoneBH idb1) x then None else map_of (dirs idb1) x)"
    using resetAccountDB_ok [OF ok1 nb, of "getCalcDoneBH idb1"] by (elim exE conjE)
  have other: "map_of (dirs idb2) (CalcDir (int j + 1) (DBCount (info idb)) (calc_postfix idb)) =
      map_of (dirs idb) (CalcDir (int j + 1) (DBCount (info idb)) (calc_postfix idb))" for j
    using OUT [rule_format, of "CalcDir (int j + 1) (DBCount (info idb)) (calc_postfix idb)"] postfix_neq
    by (simp add: d1 p1)
  have "backups_of h idb2"
    unfolding backups_of_def
  proof (intro allI impI)
    fix n assume n: "is_backup n"
    show "map_of (dirs idb2) n \<noteq> None \<longleftrightarrow> (\<exists>j < nat (DBCount (info idb2)). n = BackupDir h (int j + 1))"
    proof (cases "\<exists>j < nat (DBCount (info idb)). n = BackupDir h (int j + 1)")
      case True
      then obtain j where j: "j < nat (DBCount (info idb))" "n = BackupDir h (int j + 1)" by blast
      then have "map_of (dirs idb) (CalcDir (int j + 1) (DBCount (info idb)) (query_postfix idb)) \<noteq> None"
        using ok by (fastforce simp: idb_ok_def account_names_def query_postfix_def)
      with j IN [rule_format, of j] True show ?thesis by (auto simp: d1 p1 r(3) simp del: map_of_eq_Some_iff)
    next
      case False
      then have "map_of (dirs idb2) n = (if is_backup_of (CalcDone (info idb)) n then None else map_of (dirs idb) n)"
        using OUT [rule_format, of n] n by (cases n) (auto simp: d1)
      with bk n False show ?thesis by (auto simp: only_backups_of_def r(3) d1)
    qed
  qed
  moreover have "query_postfix idb2 = calc_postfix idb" "calc_postfix idb2 = query_postfix idb"
    using p1 r(3) by (simp_all add: query_postfix_def calc_postfix_def)
  ultimately show ?thesis
    using r IN other by (intro exI [of _ idb2]) (auto simp: d1 p1 simp del: map_of_eq_Some_iff)
qed

text \<open>
  C6: The swap of the account databases at the start of a calculation for height \<open>h\<close> can be
  undone. After the toggle and \<^verbatim>\<open>resetAccountDB\<close>, which succeeds, and after any writes of a
  calculation into the calculate databases, \<^verbatim>\<open>rollbackAccountDB\<close> succeeds and every address
  reads the same account database as before the calculation; the calculation height is the
  previous one again.
\<close>

theorem account_rollback_restores:
  assumes "idb_ok idb" "only_backups_of (CalcDone (info idb)) idb"
    and "CalcDone (info idb) < h" "uint h < 2 ^ 63" "ToggleBH (info idb) \<noteq> h + 1"
    and "resetAccountDB h (getCalcDoneBH (toggleAccountDB (h + 1) idb)) (toggleAccountDB (h + 1) idb) = (err, idb2)"
    and "calc_writes idb2 idb3" "r \<noteq> h + 1" "address_ok a"
  shows "err = None \<and> (\<exists>idb4 q q'. rollbackAccountDB r idb3 = Some (None, idb4) \<and> idb_ok idb4 \<and>
    getQueryDB idb a = Some q \<and> getQueryDB idb4 a = Some q' \<and>
    disk_read (dirs idb4) q' = disk_read (dirs idb) q \<and>
    CalcDone (info idb4) = PrevCalcDone (info idb3) \<and> \<not> isCalculating idb4)"
proof -
  let ?n = "nat (DBCount (info idb))" and ?c = "DBCount (info idb)"
  obtain idb2' where s: "(None, idb2') = (err, idb2)" "idb_ok idb2'" "info idb2' = info (toggleAccountDB (h + 1) idb)"
    "backups_of h idb2'" "query_postfix idb2' = calc_postfix idb" "calc_postfix idb2' = query_postfix idb"
    and m: "\<forall>j < ?n. map_of (dirs idb2') (CalcDir (int j + 1) ?c (query_postfix idb)) = Some [] \<and>
      map_of (dirs idb2') (CalcDir (int j + 1) ?c (calc_postfix idb)) = map_of (dirs idb) (CalcDir (int j + 1) ?c (calc_postfix idb)) \<and>
      map_of (dirs idb2') (BackupDir h (int j + 1)) = map_of (dirs idb) (CalcDir (int j + 1) ?c (query_postfix idb))"
    using reset_after_toggle [OF assms(1,2,3,5)] unfolding assms(6) by (elim exE conjE) metis
  then have e: "err = None" "idb2' = idb2" by auto
  note s = s(2-) [unfolded e] and m = m [unfolded e]
  have w: "idb_ok idb3" "DBCount (info idb3) = ?c" "QueryDBIsZero (info idb3) = QueryDBIsZero (info idb2)"
    "ToggleBH (info idb3) = h + 1"
    and out: "\<And>n. n \<notin> set (GetCalcDBList idb2) \<Longrightarrow> map_of (dirs idb3) n = map_of (dirs idb2) n"
    using assms(7) s(2) by (auto simp: calc_writes_def toggle_fields simp del: map_of_eq_Some_iff)
  have nb: "map_of (dirs idb3) n = map_of (dirs idb2) n" if "is_backup n" for n
    using that by (intro out) (auto simp: idb_ok_lists [OF s(1)] account_names_def)
  have bk3: "backups_of h idb3"
    using s(3) nb w(2) s(2) by (auto simp: backups_of_def toggle_fields simp del: map_of_eq_Some_iff)
  have p3: "calc_postfix idb3 = query_postfix idb" "query_postfix idb3 = calc_postfix idb"
    using s(4,5) w(3) by (simp_all add: calc_postfix_def query_postfix_def)
  obtain idb4 where r: "rollbackAccountDB r idb3 = Some (None, idb4)" "idb_ok idb4" "DBCount (info idb4) = DBCount (info idb3)"
    "QueryDBIsZero (info idb4) = (if ToggleBH (info idb3) = r then QueryDBIsZero (info idb3) else \<not> QueryDBIsZero (info idb3))"
    "CalcDone (info idb4) = PrevCalcDone (info idb3)" "Calculating (info idb4) = PrevCalcDone (info idb3)"
    and bck: "\<forall>j < nat (DBCount (info idb3)).
       disk_read (dirs idb4) (CalcDir (int j + 1) (DBCount (info idb3)) (calc_postfix idb3)) =
         disk_read (dirs idb3) (BackupDir h (int j + 1)) \<and>
       disk_read (dirs idb4) (CalcDir (int j + 1) (DBCount (info idb3)) (query_postfix idb3)) =
         disk_read (dirs idb3) (CalcDir (int j + 1) (DBCount (info idb3)) (query_postfix idb3))"
    using rollbackAccountDB_ok [OF w(1) bk3 assms(4), of r] by (elim exE conjE)
  have q4: "query_postfix idb4 = query_postfix idb"
    using r(4) w(4) assms(8) p3 by (auto simp: query_postfix_def calc_postfix_def split: if_splits)
  obtain i where i: "getAccountDBIndex idb a = Some i" "i < ?n"
    "getQueryDB idb a = Some (CalcDir (int i + 1) ?c (query_postfix idb))"
    using idb_ok_getDB [OF assms(1,9)] by blast
  have "getAccountDBIndex idb4 a = Some i"
    using i(1) r(3) w(2) by (auto simp: getAccountDBIndex_def split: list.splits if_splits)
  then have "getQueryDB idb4 a = Some (CalcDir (int i + 1) ?c (query_postfix idb))"
    using idb_ok_getDB [OF r(2) assms(9)] r(3) w(2) q4 by auto
  moreover have "disk_read (dirs idb4) (CalcDir (int i + 1) ?c (query_postfix idb)) =
      disk_read (dirs idb) (CalcDir (int i + 1) ?c (query_postfix idb))"
    using bck [rule_format, of i] i(2) m [rule_format, OF i(2)] nb [of "BackupDir h (int i + 1)"] w(2) p3
    by (simp add: disk_read_def)
  moreover have "\<not> isCalculating idb4"
    using r(5,6) by (simp add: isCalculating_def getCalculatingBH_def getCalcDoneBH_def)
  ultimately show ?thesis using e(1) r i(3) by blast
qed

lemma ex_idb_backups: "only_backups_of (CalcDone (info ex_idb)) ex_idb"
proof -
  have "is_backup n \<and> map_of (dirs ex_idb) n \<noteq> None \<Longrightarrow> is_backup_of 10 n" for n
    by (cases n) (auto simp: ex_idb_def split: if_splits)
  then show ?thesis unfolding only_backups_of_def by (simp add: ex_idb_def ex_info_def)
qed

definition ex_switched :: IScoreDB where
  "ex_switched = snd (resetAccountDB 20 (getCalcDoneBH (toggleAccountDB 21 ex_idb)) (toggleAccountDB 21 ex_idb))"

lemma ex_switched_ok:
  "resetAccountDB 20 (getCalcDoneBH (toggleAccountDB 21 ex_idb)) (toggleAccountDB 21 ex_idb) = (None, ex_switched)"
  "idb_ok ex_switched"
  using reset_after_toggle [OF ex_idb_ok ex_idb_backups, of 20]
  by (auto simp: ex_switched_def ex_idb_def ex_info_def)

theorem account_rollback_restores_witness:
  "\<exists>idb4 q q'. rollbackAccountDB 12 ex_switched = Some (None, idb4) \<and> idb_ok idb4 \<and>
    getQueryDB ex_idb zero_address = Some q \<and> getQueryDB idb4 zero_address = Some q' \<and>
    disk_read (dirs idb4) q' = disk_read (dirs ex_idb) q \<and>
    CalcDone (info idb4) = PrevCalcDone (info ex_switched) \<and> \<not> isCalculating idb4"
proof -
  have w: "calc_writes ex_switched ex_switched" using ex_switched_ok(2) by (simp add: calc_writes_def)
  have r: "resetAccountDB 20 (getCalcDoneBH (toggleAccountDB (20 + 1) ex_idb)) (toggleAccountDB (20 + 1) ex_idb) = (None, ex_switched)"
    using ex_switched_ok(1) by simp
  have "CalcDone (info ex_idb) < 20" "ToggleBH (info ex_idb) \<noteq> 20 + 1"
    by (simp_all add: ex_idb_def ex_info_def)
  then show ?thesis
    using account_rollback_restores [OF ex_idb_ok ex_idb_backups _ _ _ r w _ zero_address_ok, of 12] by simp
qed

end
