(* ===== verification/Conservation.thy ===== *)
theory Conservation
  imports RewardProps IScoreDbProps
begin

text \<open>
  Conservation of I-Score: the databases a calculation writes hold, in sum, what the query
  databases hold plus the total reward the calculation reports. Nothing is lost between the
  shards, the transactions, the block producers and the P-Reps, and nothing is counted
  twice.
\<close>

section \<open>The I-Score in a database\<close>

definition iscore_of :: "obj \<Rightarrow> int" where
  "iscore_of v = (case bindE (dec_arr v) (\<lambda>xs. fld xs 0 dec_HexInt 0 0) of Inl _ \<Rightarrow> 0 | Inr i \<Rightarrow> i)"

definition total_iscore :: "obj kv \<Rightarrow> int" where
  "total_iscore m = (\<Sum>p \<leftarrow> m. iscore_of (snd p))"

definition old_iscore :: "bytes \<Rightarrow> obj kv \<Rightarrow> int" where
  "old_iscore k m = (case kv_get k m of None \<Rightarrow> 0 | Some v \<Rightarrow> iscore_of v)"

lemma iscore_of_Bytes [simp]: "iscore_of (IScoreAccount_Bytes ia) = ia_IScore ia"
  by (simp add: iscore_of_def IScoreAccount_Bytes_def)

lemma iscore_of_decoded: "NewIScoreAccountFromBytes v = Inr ia \<Longrightarrow> iscore_of v = ia_IScore ia"
  by (auto simp: NewIScoreAccountFromBytes_def IScoreAccount_SetBytes_def iscore_of_def bindE_Inr zero_IScoreAccount_def)

lemma total_iscore_Cons [simp]: "total_iscore (p # m) = iscore_of (snd p) + total_iscore m"
  by (simp add: total_iscore_def)

lemma total_iscore_Nil [simp]: "total_iscore [] = 0"
  by (simp add: total_iscore_def)

lemma total_iscore_put:
  assumes "kv_ok m"
  shows "total_iscore (kv_put k v m) = total_iscore m + iscore_of v - old_iscore k m"
  using assms
proof (induction m)
  case (Cons p m)
  obtain k' v' where p: "p = (k', v')" by (cases p)
  have ok: "kv_ok m" and less: "\<forall>x \<in> fst ` set m. k' < x" using Cons.prems p by (auto simp: kv_ok_Cons)
  have none: "kv_get k m = None" if "k \<le> k'"
    using that less by (cases "kv_get k m") (force simp: kv_get_iff [OF ok])+
  show ?case
    using Cons.IH [OF ok] none by (auto simp: p old_iscore_def kv_get_def)
qed (simp add: old_iscore_def)

section \<open>Payments\<close>

definition calc_total :: "Context \<Rightarrow> int" where
  "calc_total ctx = (\<Sum>n \<leftarrow> GetCalcDBList (DB ctx). total_iscore (calcdb ctx n))"

definition calc_dbs_ok :: "Context \<Rightarrow> bool" where
  "calc_dbs_ok ctx \<longleftrightarrow>
     distinct (GetCalcDBList (DB ctx)) \<and> (\<forall>n \<in> set (GetCalcDBList (DB ctx)). kv_ok (calcdb ctx n))"

text \<open>A step of the calculation changes only contents of the databases \<open>N\<close>.\<close>

definition calc_frame :: "dirname set \<Rightarrow> Context \<Rightarrow> Context \<Rightarrow> bool" where
  "calc_frame N ctx ctx' \<longleftrightarrow>
     (DB ctx')\<lparr>dirs := []\<rparr> = (DB ctx)\<lparr>dirs := []\<rparr> \<and> Revision ctx' = Revision ctx \<and> PReps ctx' = PReps ctx \<and>
     PRepCandidates ctx' = PRepCandidates ctx \<and> GV ctx' = GV ctx \<and> Cancel ctx' = Cancel ctx \<and>
     dbg_conf (calcDebug ctx') = dbg_conf (calcDebug ctx) \<and>
     (\<forall>n. n \<notin> N \<longrightarrow> map_of (dirs (DB ctx')) n = map_of (dirs (DB ctx)) n) \<and>
     (\<forall>n. map_of (dirs (DB ctx)) n \<noteq> None \<longrightarrow> map_of (dirs (DB ctx')) n \<noteq> None) \<and>
     (distinct (map fst (dirs (DB ctx))) \<longrightarrow> distinct (map fst (dirs (DB ctx'))))"

text \<open>A payment of \<open>r\<close> I-Score in sum into the calculate databases.\<close>

definition pays :: "int \<Rightarrow> Context \<Rightarrow> Context \<Rightarrow> bool" where
  "pays r ctx ctx' \<longleftrightarrow>
     calc_frame (set (GetCalcDBList (DB ctx))) ctx ctx' \<and>
     (calc_dbs_ok ctx \<longrightarrow> calc_dbs_ok ctx' \<and> calc_total ctx' = calc_total ctx + r)"

lemma calc_list_dirs [simp]: "GetCalcDBList (idb\<lparr>dirs := d\<rparr>) = GetCalcDBList idb"
  by (simp add: GetCalcDBList_def)

lemma frame_list:
  assumes "calc_frame N ctx ctx'"
  shows "GetCalcDBList (DB ctx') = GetCalcDBList (DB ctx)" "getQueryDBList (DB ctx') = getQueryDBList (DB ctx)"
proof -
  have e: "(DB ctx')\<lparr>dirs := []\<rparr> = (DB ctx)\<lparr>dirs := []\<rparr>" using assms by (simp add: calc_frame_def)
  have "GetCalcDBList ((DB ctx')\<lparr>dirs := []\<rparr>) = GetCalcDBList (DB ctx')"
    "getQueryDBList ((DB ctx')\<lparr>dirs := []\<rparr>) = getQueryDBList (DB ctx')"
    "getQueryDBList ((DB ctx)\<lparr>dirs := []\<rparr>) = getQueryDBList (DB ctx)"
    by (simp_all add: getQueryDBList_def)
  then show "GetCalcDBList (DB ctx') = GetCalcDBList (DB ctx)" "getQueryDBList (DB ctx') = getQueryDBList (DB ctx)"
    unfolding e by simp_all
qed

lemma frame_trans [trans]: "calc_frame N a b \<Longrightarrow> calc_frame N b c \<Longrightarrow> calc_frame N a c"
  unfolding calc_frame_def by (auto simp del: map_of_eq_Some_iff)

lemma frame_same_core: "same_core a b \<Longrightarrow> calc_frame N a b"
  by (simp add: calc_frame_def same_core_def)

lemma frame_calcdb: "calc_frame N a b \<Longrightarrow> n \<notin> N \<Longrightarrow> calcdb b n = calcdb a n"
  by (simp add: calc_frame_def calcdb_def disk_read_def del: map_of_eq_Some_iff)

lemma frame_set_calcdb: "n \<in> N \<Longrightarrow> calc_frame N ctx (set_calcdb n m ctx)"
  by (simp add: calc_frame_def set_calcdb_def update_conv' distinct_update)

lemma pays_trans [trans]:
  assumes "pays r a b" "pays s b c"
  shows "pays (r + s) a c"
proof -
  have "GetCalcDBList (DB b) = GetCalcDBList (DB a)" using assms(1) frame_list(1) by (auto simp: pays_def)
  then show ?thesis using assms frame_trans unfolding pays_def by auto
qed

lemma pays_same_core: "same_core a b \<Longrightarrow> pays 0 a b"
  by (simp add: pays_def frame_same_core same_core_fields calc_dbs_ok_def calc_total_def calcdb_def)

lemma pays_refl [simp, intro]: "pays 0 a a"
  by (rule pays_same_core) simp

lemma sum_list_update_one:
  fixes f :: "'a \<Rightarrow> int"
  assumes "distinct xs" "x \<in> set xs"
  shows "(\<Sum>n \<leftarrow> xs. if n = x then y else f n) = (\<Sum>n \<leftarrow> xs. f n) + y - f x"
  using assms
proof (induction xs)
  case (Cons z xs)
  have "(\<Sum>n \<leftarrow> xs. if n = z then y else f n) = (\<Sum>n \<leftarrow> xs. f n)"
    using Cons.prems(1) by (intro arg_cong [of _ _ sum_list] map_cong) auto
  with Cons show ?case by (cases "z = x") auto
qed simp

lemma calcdb_set [simp]: "calcdb (set_calcdb n m ctx) n' = (if n' = n then m else calcdb ctx n')"
  by (simp add: calcdb_def set_calcdb_def disk_read_def update_conv')

lemma pays_put:
  assumes "getCalculateDB (DB ctx) a = Some cDB"
  shows "pays (iscore_of v - old_iscore k (calcdb ctx cDB)) ctx (set_calcdb cDB (kv_put k v (calcdb ctx cDB)) ctx)"
proof -
  have mem: "cDB \<in> set (GetCalcDBList (DB ctx))"
    using assms by (auto simp: getCalculateDB_def db_at_def split: option.splits if_splits)
  let ?c = "set_calcdb cDB (kv_put k v (calcdb ctx cDB)) ctx"
  have l: "GetCalcDBList (DB ?c) = GetCalcDBList (DB ctx)" by (simp add: set_calcdb_def)
  have "calc_dbs_ok ?c \<and> calc_total ?c = calc_total ctx + (iscore_of v - old_iscore k (calcdb ctx cDB))"
    if ok: "calc_dbs_ok ctx"
  proof
    show "calc_dbs_ok ?c" using ok mem by (simp add: calc_dbs_ok_def l)
    have "calc_total ?c = (\<Sum>n \<leftarrow> GetCalcDBList (DB ctx).
        if n = cDB then total_iscore (kv_put k v (calcdb ctx cDB)) else total_iscore (calcdb ctx n))"
      unfolding calc_total_def l by (intro arg_cong [of _ _ sum_list] map_cong) auto
    also have "\<dots> = calc_total ctx + (iscore_of v - old_iscore k (calcdb ctx cDB))"
      using ok mem total_iscore_put [of "calcdb ctx cDB" k v]
      by (subst sum_list_update_one) (auto simp: calc_dbs_ok_def calc_total_def)
    finally show "calc_total ?c = calc_total ctx + (iscore_of v - old_iscore k (calcdb ctx cDB))" .
  qed
  then show ?thesis using mem frame_set_calcdb by (simp add: pays_def)
qed

section \<open>Transactions, block producers and P-Reps\<close>

lemma same_core_delegation_loop:
  "delegation_loop dg s e addr gvs (acc, ctx) = Some (r, ctx') \<Longrightarrow> same_core ctx ctx'"
proof (induction gvs arbitrary: acc ctx)
  case (Cons gv gvs)
  then show ?case
    unfolding delegation_loop.simps Let_def
    by (auto split: if_splits option.splits dest!: same_core_WriteBeta3Info intro: same_core_trans)
qed simp

lemma same_core_iscore_loop: "iscore_loop ia h dgs (acc, ctx) = Some (r, ctx') \<Longrightarrow> same_core ctx ctx'"
proof (induction dgs arbitrary: acc ctx)
  case (Cons d dgs)
  then obtain dg where d: "d = Some dg" by (cases d) auto
  from Cons.prems show ?case
    unfolding d iscore_loop.simps calculateDelegationReward_def Let_def
    by (auto split: if_splits option.splits dest!: same_core_delegation_loop Cons.IH intro: same_core_trans)
qed simp

lemma calculateIScore_credit:
  assumes "calculateIScore ctx ia h = Some (r, ia', ctx')"
  shows "same_core ctx ctx' \<and> ia_Address ia' = ia_Address ia \<and>
    ia_IScore ia' = ia_IScore ia + (case r of None \<Rightarrow> 0 | Some x \<Rightarrow> x)"
  using assms by (auto simp: calculateIScore_def Let_def split: if_splits option.splits dest: same_core_iscore_loop)

lemma pays_put_account:
  assumes "getCalculateDB (DB ctx) a = Some cDB" "ia_Address ia = a"
  shows "pays (ia_IScore ia - old_iscore a (calcdb ctx cDB)) ctx
    (set_calcdb cDB (Bucket_Set (calcdb ctx cDB) PrefixIScore (IScoreAccount_ID ia) (IScoreAccount_Bytes ia)) ctx)"
  using pays_put [OF assms(1), of "IScoreAccount_Bytes ia" a] assms(2)
  by (simp add: Bucket_Set_def IScoreAccount_ID_def Address_Bytes_def PrefixIScore_def)

lemma old_iscore_get: "Bucket_Get m PrefixIScore (Address_Bytes a) = kv_get a m"
  by (simp add: Bucket_Get_def PrefixIScore_def Address_Bytes_def)

lemma NewIScoreAccountFromIISS_fields:
  assumes "NewIScoreAccountFromIISS tx = Some (Some n)"
  shows "ia_Address n = tx_Address tx \<and> ia_IScore n = 0"
  using assms
  by (auto simp: NewIScoreAccountFromIISS_def Let_def zero_IScoreAccount_def split: if_splits option.splits sum.splits go_any.splits)

lemma delegate_tx_pays:
  assumes "delegate_tx h tx st = Some st'"
  shows "pays (txs_stats st' - txs_stats st) (txs_ctx st) (txs_ctx st')"
proof -
  obtain cDB newIA where cDB: "getCalculateDB (DB (txs_ctx st)) (tx_Address tx) = Some cDB"
    and new: "NewIScoreAccountFromIISS tx = Some newIA"
    using assms by (auto simp: delegate_tx_def split: option.splits)
  let ?m = "calcdb (txs_ctx st) cDB" and ?a = "tx_Address tx"
  have fin: "pays (base + (case r of None \<Rightarrow> 0 | Some x \<Rightarrow> x) - old_iscore ?a ?m) (txs_ctx st)
      (set_calcdb cDB (Bucket_Set (calcdb c2 cDB) PrefixIScore (IScoreAccount_ID ia') (IScoreAccount_Bytes ia')) c2)"
    if "same_core (txs_ctx st) c1" "calculateIScore c1 (n\<lparr>ia_IScore := base\<rparr>) h = Some (r, ia', c2)" "newIA = Some n"
    for c1 n base r ia' c2
  proof -
    have n: "ia_Address n = ?a" using NewIScoreAccountFromIISS_fields [of tx n] new that(3) by simp
    note cr = calculateIScore_credit [OF that(2)]
    have core: "same_core (txs_ctx st) c2" using that(1) cr by (blast intro: same_core_trans)
    then have c2: "DB c2 = DB (txs_ctx st)" by (simp add: same_core_def)
    then have "getCalculateDB (DB c2) ?a = Some cDB" "calcdb c2 cDB = ?m" using cDB by (simp_all add: calcdb_def)
    with pays_trans [OF pays_same_core [OF core] pays_put_account [of c2 ?a cDB ia']] cr n show ?thesis by simp
  qed
  show ?thesis
  proof (cases "kv_get ?a ?m")
    case None
    then obtain n r ia' c2 where n: "newIA = Some n" "calculateIScore (txs_ctx st) n h = Some (r, ia', c2)"
      and st': "st' = st\<lparr>txs_new := txs_new st + 1, txs_stats := txs_stats st + (case r of None \<Rightarrow> 0 | Some x \<Rightarrow> x),
        txs_hash := txs_hash st @ BytesForHash ia',
        txs_ctx := set_calcdb cDB (Bucket_Set (calcdb c2 cDB) PrefixIScore (IScoreAccount_ID ia') (IScoreAccount_Bytes ia')) c2\<rparr>"
      using assms cDB new by (auto simp: delegate_tx_def old_iscore_get Let_def split: option.splits)
    have "n\<lparr>ia_IScore := 0\<rparr> = n" using NewIScoreAccountFromIISS_fields [of tx n] new n(1) by simp
    then show ?thesis
      using fin [OF same_core_refl _ n(1), of 0 r ia' c2] n(2) None by (simp add: st' old_iscore_def)
  next
    case (Some data)
    show ?thesis
    proof (cases "\<exists>ia. NewIScoreAccountFromBytes data = Inr ia \<and> ia_BlockHeight ia = h")
      case False
      then have "st' = st" using assms cDB new Some
        by (auto simp: delegate_tx_def old_iscore_get Let_def split: sum.splits)
      then show ?thesis by simp
    next
      case True
      then obtain ia where ia: "NewIScoreAccountFromBytes data = Inr ia" "ia_BlockHeight ia = h" by blast
      obtain n r0 ia0 c1 r ia' c2 where n: "newIA = Some n"
        and c1: "calculateIScore (txs_ctx st) (ia\<lparr>ia_BlockHeight := tx_BlockHeight tx, ia_IScore := 0\<rparr>) h = Some (r0, ia0, c1)"
        and c2: "calculateIScore c1 (n\<lparr>ia_IScore := ia_IScore ia - ia_IScore ia0\<rparr>) h = Some (r, ia', c2)"
        and st': "st' = st\<lparr>txs_stats := txs_stats st - ia_IScore ia0 + (case r of None \<Rightarrow> 0 | Some x \<Rightarrow> x),
          txs_hash := txs_hash st @ BytesForHash ia',
          txs_ctx := set_calcdb cDB (Bucket_Set (calcdb c2 cDB) PrefixIScore (IScoreAccount_ID ia') (IScoreAccount_Bytes ia')) c2\<rparr>"
        using assms cDB new Some ia by (auto simp: delegate_tx_def old_iscore_get Let_def split: option.splits)
      have "same_core (txs_ctx st) c1" using calculateIScore_credit [OF c1] by simp
      from fin [OF this c2 n] show ?thesis
        using Some iscore_of_decoded [OF ia(1)] by (simp add: st' old_iscore_def algebra_simps)
    qed
  qed
qed

lemma iisstx_loop_pays:
  "iisstx_loop h tx es st = Some st' \<Longrightarrow> pays (txs_stats st' - txs_stats st) (txs_ctx st) (txs_ctx st')"
proof (induction es arbitrary: tx st)
  case (Cons e es)
  obtain k v where e: "e = (k, v)" by (cases e)
  show ?case
  proof (cases "\<exists>tx'. IISSTX_SetBytes tx v = Inr tx' \<and> tx_DataType tx' = TXDataTypeDelegate")
    case False
    then obtain tx'' where "iisstx_loop h tx'' es st = Some st'"
      using Cons.prems by (auto simp: e split: sum.splits if_splits)
    then show ?thesis by (rule Cons.IH)
  next
    case True
    then obtain tx' st1 where "delegate_tx h tx' st = Some st1" "iisstx_loop h tx' es st1 = Some st'"
      using Cons.prems by (auto simp: e split: option.splits)
    from pays_trans [OF delegate_tx_pays [OF this(1)] Cons.IH [OF this(2)]] show ?thesis by simp
  qed
qed simp

lemma bp_loop_core: "bp_loop bp es (m, ctx) = Some (m', ctx') \<Longrightarrow> same_core ctx ctx'"
proof (induction es arbitrary: bp m ctx)
  case (Cons e es)
  obtain k v where e: "e = (k, v)" by (cases e)
  from Cons.prems show ?case
    unfolding e bp_loop.simps Let_def
    by (auto split: sum.splits option.splits if_splits dest: Cons.IH same_core_WriteBeta1Info intro: same_core_trans)
qed simp

lemma bp_write_pays:
  "bp_write h rs st = Some st' \<Longrightarrow> pays (pay_total st' - pay_total st) (pay_ctx st) (pay_ctx st')"
proof (induction rs arbitrary: st)
  case (Cons r rs)
  obtain addr reward where r: "r = (addr, reward)" by (cases r)
  obtain cDB where cDB: "getCalculateDB (DB (pay_ctx st)) addr = Some cDB"
    using Cons.prems by (auto simp: r split: option.splits)
  let ?m = "calcdb (pay_ctx st) cDB"
  let ?put = "\<lambda>ia n. st\<lparr>pay_new := pay_new st + n, pay_total := pay_total st + reward,
      pay_accounts := pay_accounts st @ [ia],
      pay_ctx := set_calcdb cDB (Bucket_Set ?m PrefixIScore (IScoreAccount_ID ia) (IScoreAccount_Bytes ia)) (pay_ctx st)\<rparr>"
  have step: "pays (pay_total st' - pay_total st) (pay_ctx st) (pay_ctx st')"
    if "bp_write h rs (?put ia n) = Some st'" "ia_Address ia = addr" "ia_IScore ia = old_iscore addr ?m + reward" for ia n
    using pays_trans [OF pays_put_account [OF cDB that(2)] Cons.IH [OF that(1), simplified]] that(3) by simp
  show ?case
  proof (cases "kv_get addr ?m")
    case None
    then show ?thesis using Cons.prems cDB
      by (intro step [of "zero_IScoreAccount\<lparr>ia_IScore := reward, ia_Address := addr, ia_BlockHeight := h\<rparr>" 1])
        (simp_all add: r old_iscore_get old_iscore_def)
  next
    case (Some data)
    show ?thesis
    proof (cases "NewIScoreAccountFromBytes data")
      case (Inl e)
      then show ?thesis using Cons.prems cDB Some by (simp add: r old_iscore_get)
    next
      case (Inr ia)
      then show ?thesis using Cons.prems cDB Some iscore_of_decoded [OF Inr]
        by (intro step [of "ia\<lparr>ia_IScore := ia_IScore ia + reward, ia_Address := addr\<rparr>" 0])
          (simp_all add: r old_iscore_get old_iscore_def Let_def)
    qed
  qed
qed simp

lemma prep_period_core: "prep_period prep s e gv dgs rs ctx = Some (rs', ctx') \<Longrightarrow> same_core ctx ctx'"
proof (induction prep s e gv dgs rs ctx arbitrary: rs' ctx' rule: prep_period.induct)
  case (1 prep s e gv dgInfo dgs iScore h rs ctx)
  then obtain r ctx1 rs1 where
    b: "big_div (uint (e - s) * gv_PRepReward gv * di_DelegatedAmount dgInfo) (pr_TotalDelegation prep) = Some r"
    and w: "WriteBeta2Info dgInfo prep s e (big_uint64 (gv_PRepReward gv)) ctx = Some ctx1"
    and p: "prep_period prep s e gv dgs rs ctx1 = Some (rs1, ctx')"
    by (auto simp: Let_def split: option.splits)
  from "1.IH" [OF HOL.refl b w p] same_core_WriteBeta2Info [OF w] show ?case by (blast intro: same_core_trans)
qed auto

lemma prep_gv_loop_core: "prep_gv_loop prep s e gvs (rs, ctx) = Some (rs', ctx') \<Longrightarrow> same_core ctx ctx'"
proof (induction gvs arbitrary: rs ctx)
  case (Cons gv gvs)
  then show ?case
    unfolding prep_gv_loop.simps Let_def
    by (auto split: if_splits option.splits dest!: prep_period_core intro: same_core_trans)
qed simp

lemma prep_write_pays:
  "prep_write e h rs st = Some st' \<Longrightarrow> pays (ps_total st' - ps_total st) (ps_ctx st) (ps_ctx st')"
proof (induction rs arbitrary: st)
  case (Cons r rs)
  obtain dg iScore bh where r: "r = (dg, iScore, bh)" by (cases r)
  let ?a = "di_Address dg"
  obtain cDB where cDB: "getCalculateDB (DB (ps_ctx st)) ?a = Some cDB"
    using Cons.prems by (auto simp: r split: option.splits)
  let ?m = "calcdb (ps_ctx st) cDB"
  let ?put = "\<lambda>ia n. st\<lparr>ps_new := ps_new st + n, ps_total := ps_total st + iScore, ps_hash := ps_hash st @ BytesForHash ia,
      ps_ctx := set_calcdb cDB (Bucket_Set ?m PrefixIScore (IScoreAccount_ID ia) (IScoreAccount_Bytes ia)) (ps_ctx st)\<rparr>"
  have step: "pays (ps_total st' - ps_total st) (ps_ctx st) (ps_ctx st')"
    if "prep_write e h rs (?put ia n) = Some st'" "ia_Address ia = ?a" "ia_IScore ia = old_iscore ?a ?m + iScore" for ia n
    using pays_trans [OF pays_put_account [OF cDB that(2)] Cons.IH [OF that(1), simplified]] that(3) by simp
  let ?rev8 = "Revision (ps_ctx st) \<ge> Revision8"
  show ?case
  proof (cases "kv_get ?a ?m")
    case None
    then show ?thesis using Cons.prems cDB
      by (intro step [of "zero_IScoreAccount\<lparr>ia_IScore := iScore, ia_BlockHeight := (if ?rev8 then h else e), ia_Address := ?a\<rparr>" 1])
        (simp_all add: r old_iscore_get old_iscore_def Let_def)
  next
    case (Some data)
    show ?thesis
    proof (cases "NewIScoreAccountFromBytes data")
      case (Inl e)
      then show ?thesis using Cons.prems cDB Some by (simp add: r old_iscore_get)
    next
      case (Inr ia)
      let ?ia1 = "ia\<lparr>ia_IScore := ia_IScore ia + iScore\<rparr>"
      let ?ia2 = "(if ?rev8 then ?ia1 else ?ia1\<lparr>ia_BlockHeight := bh\<rparr>)\<lparr>ia_Address := ?a\<rparr>"
      show ?thesis using Cons.prems cDB Some Inr iscore_of_decoded [OF Inr]
        by (intro step [of ?ia2 0]) (simp_all add: r old_iscore_get old_iscore_def Let_def)
    qed
  qed
qed simp

lemma setPRepReward_pays:
  assumes "setPRepReward shake ctx s e prep h = Some (n, r, hash, ctx')"
  shows "pays r ctx ctx'"
proof -
  obtain rewards ctx1 st where g: "prep_gv_loop prep s e (GV ctx) (replicate (length (pr_List prep)) (0, 0), ctx) = Some (rewards, ctx1)"
    and w: "prep_write e h (zip (pr_List prep) rewards) \<lparr>ps_new = 0, ps_total = 0, ps_hash = [], ps_ctx = ctx1\<rparr> = Some st"
    and r: "r = ps_total st" "ctx' = ps_ctx st"
    using assms by (auto simp: setPRepReward_def split: option.splits)
  from pays_trans [OF pays_same_core [OF prep_gv_loop_core [OF g]] prep_write_pays [OF w, simplified]] r
  show ?thesis by simp
qed

lemma prep_loop_pays:
  "prep_loop shake s e preps st = Some st' \<Longrightarrow> pays (ps_total st' - ps_total st) (ps_ctx st) (ps_ctx st')"
proof (induction preps arbitrary: st)
  case (Cons prep preps)
  let ?s = "if s < pr_BlockHeight prep then pr_BlockHeight prep else s"
  let ?e = "case preps of [] \<Rightarrow> e | next # _ \<Rightarrow> if pr_BlockHeight next < e then pr_BlockHeight next else e"
  show ?case
  proof (cases "pr_TotalDelegation prep = 0 \<or> ?e \<le> ?s")
    case True
    then have "prep_loop shake s e preps st = Some st'"
      using Cons.prems unfolding prep_loop.simps Let_def by (simp split: if_splits)
    then show ?thesis by (rule Cons.IH)
  next
    case False
    then obtain account reward hash ctx' where p: "setPRepReward shake (ps_ctx st) ?s ?e prep e = Some (account, reward, hash, ctx')"
      "prep_loop shake s e preps (st\<lparr>ps_new := ps_new st + account, ps_total := ps_total st + reward,
         ps_hash := ps_hash st @ hash, ps_ctx := ctx'\<rparr>) = Some st'"
      using Cons.prems unfolding prep_loop.simps Let_def by (simp split: option.splits prod.splits)
    from pays_trans [OF setPRepReward_pays [OF p(1)] Cons.IH [OF p(2), simplified]] show ?thesis by simp
  qed
qed simp

lemma parts_pay:
  "calculateIISSTX shake ctx iiss h = Some (n, r, hash, ctx') \<Longrightarrow> pays r ctx ctx'"
  "calculateIISSBlockProduce shake order ctx iiss h = Some (n, r, hash, ctx') \<Longrightarrow> pays r ctx ctx'"
  "calculatePRepReward shake ctx h = Some (n, r, hash, ctx') \<Longrightarrow> pays r ctx ctx'"
proof -
  assume "calculateIISSTX shake ctx iiss h = Some (n, r, hash, ctx')"
  then show "pays r ctx ctx'" by (auto simp: calculateIISSTX_def split: option.splits dest: iisstx_loop_pays)
next
  assume "calculateIISSBlockProduce shake order ctx iiss h = Some (n, r, hash, ctx')"
  then obtain m ctx1 st where b: "bp_loop zero_BP (Iterator_prefix iiss PrefixIISSBPInfo) ([], ctx) = Some (m, ctx1)"
    and w: "bp_write h (order m) \<lparr>pay_new = 0, pay_total = 0, pay_accounts = [], pay_ctx = ctx1\<rparr> = Some st"
    and r: "r = pay_total st" "ctx' = pay_ctx st"
    by (auto simp: calculateIISSBlockProduce_def split: option.splits)
  from pays_trans [OF pays_same_core [OF bp_loop_core [OF b]] bp_write_pays [OF w, simplified]] r
  show "pays r ctx ctx'" by simp
next
  assume "calculatePRepReward shake ctx h = Some (n, r, hash, ctx')"
  then show "pays r ctx ctx'" by (auto simp: calculatePRepReward_def split: option.splits dest: prep_loop_pays)
qed

section \<open>The shards\<close>

text \<open>Every account of the database is readable and not yet at the height.\<close>

definition all_due :: "u64 \<Rightarrow> obj kv \<Rightarrow> bool" where
  "all_due h m \<longleftrightarrow> (\<forall>p \<in> set m. \<exists>ia. NewIScoreAccountFromBytes (snd p) = Inr ia \<and> ia_BlockHeight ia < h)"

lemma calculateIScore_due:
  "calculateIScore ctx ia h = Some (r, ia', ctx') \<Longrightarrow> ia_BlockHeight ia < h \<Longrightarrow> \<exists>x. r = Some x"
  by (auto simp: calculateIScore_def Let_def split: if_splits option.splits)

lemma calculateDB_loop_total:
  assumes "calculateDB_loop (\<lambda>_. False) h bc k es st = Some (e, st')"
    and "all_due h es" "kv_ok es" "kv_ok (flushed st)" "\<forall>p \<in> set es. kv_get (fst p) (flushed st) = None"
    and "bc = 0 \<longrightarrow> sh_batch st = []"
  shows "e = Finished \<and> same_core (sh_ctx st) (sh_ctx st') \<and> kv_ok (flushed st') \<and> (bc = 0 \<longrightarrow> sh_batch st' = []) \<and>
    total_iscore (flushed st') = total_iscore (flushed st) + total_iscore es + st_Beta3 (sh_stats st') - st_Beta3 (sh_stats st)"
  using assms
proof (induction es arbitrary: k st)
  case (Cons p es)
  obtain ikey v where p: "p = (ikey, v)" by (cases p)
  obtain ia0 where ia0: "NewIScoreAccountFromBytes v = Inr ia0" "ia_BlockHeight ia0 < h"
    using Cons.prems(2) by (auto simp: all_due_def p)
  let ?st1 = "st\<lparr>sh_stats := stat_inc ''Accounts'' (VUint64 1) (sh_stats st)\<rparr>"
  obtain addr reward ia' ctx' where c: "calculateIScore (sh_ctx st) (ia0\<lparr>ia_Address := addr\<rparr>) h = Some (Some reward, ia', ctx')"
    and addr: "NewAddress ikey = Some addr"
    using Cons.prems(1) ia0 calculateIScore_due [of "sh_ctx st" "ia0\<lparr>ia_Address := _\<rparr>" h]
    by (fastforce simp: p PrefixIScore_def Let_def split: option.splits)
  note cr = calculateIScore_credit [OF c]
  let ?batch = "sh_batch st @ [BatchPut ikey (IScoreAccount_Bytes ia')]"
  let ?st2 = "if 0 < bc then
      (if sh_entries st = bc then ?st1\<lparr>sh_db := Batch_Write (sh_db st) ?batch, sh_batch := [], sh_entries := 0\<rparr>
       else ?st1\<lparr>sh_batch := ?batch\<rparr>)
    else ?st1\<lparr>sh_db := Bucket_Set (sh_db st) PrefixIScore ikey (IScoreAccount_Bytes ia')\<rparr>"
  let ?st = "?st2\<lparr>sh_ctx := ctx', sh_hash := sh_hash ?st2 @ BytesForHash ia',
      sh_stats := stat_inc ''Beta3'' (VHexInt reward) (sh_stats ?st2),
      sh_count := sh_count ?st2 + 1, sh_entries := sh_entries ?st2 + 1\<rparr>"
  have "calculateDB_loop (\<lambda>_. False) h bc k (p # es) st = calculateDB_loop (\<lambda>_. False) h bc (Suc k) es ?st"
    using ia0 addr c by (simp add: p PrefixIScore_def Let_def)
  then have step: "calculateDB_loop (\<lambda>_. False) h bc (Suc k) es ?st = Some (e, st')" using Cons.prems(1) by argo
  have fl: "flushed ?st = kv_put ikey (IScoreAccount_Bytes ia') (flushed st)"
    using Cons.prems(6)
    by (cases "bc = 0") (simp_all add: flushed_def Batch_Write_def Bucket_Set_def PrefixIScore_def word_gt_0)
  have none: "kv_get ikey (flushed st) = None" and rest: "kv_ok es" "\<forall>x \<in> fst ` set es. ikey < x" "all_due h es"
    using Cons.prems by (auto simp: p kv_ok_Cons all_due_def)
  have tot: "total_iscore (flushed ?st) = total_iscore (flushed st) + ia_IScore ia0 + reward"
    unfolding fl total_iscore_put [OF Cons.prems(4)] using none cr by (simp add: old_iscore_def)
  have st: "kv_ok (flushed ?st)" "\<forall>p \<in> set es. kv_get (fst p) (flushed ?st) = None"
    "st_Beta3 (sh_stats ?st) = st_Beta3 (sh_stats st) + reward" "sh_ctx ?st = ctx'" "bc = 0 \<longrightarrow> sh_batch ?st = []"
    unfolding fl using Cons.prems(4-6) rest(2) by (auto simp: p)
  have "same_core (sh_ctx st) (sh_ctx ?st)" using cr st(4) by simp
  with Cons.IH [OF step rest(3,1) st(1,2,5)] tot st(3) iscore_of_decoded [OF ia0(1)] show ?case
    by (auto simp: p intro: same_core_trans)
qed simp

lemma calculateDB_total:
  assumes "calculateDB shake (\<lambda>_. False) readDB [] ctx h bc = Some (count, st, hash, db, ctx')"
    and "all_due h readDB" "kv_ok readDB"
  shows "same_core ctx ctx' \<and> kv_ok db \<and> total_iscore db = total_iscore readDB + st_Beta3 st"
proof -
  let ?st = "\<lparr>sh_entries = 0, sh_count = 0, sh_hash = [], sh_stats = zero_Statistics, sh_batch = [], sh_db = [], sh_ctx = ctx\<rparr>"
  obtain e st' where run: "calculateDB_loop (\<lambda>_. False) h bc 0 readDB ?st = Some (e, st')"
    using assms(1) by (auto simp: calculateDB_def Iterator_New_def split: option.splits)
  have r: "e = Finished" "same_core ctx (sh_ctx st')" "kv_ok (flushed st')" "bc = 0 \<longrightarrow> sh_batch st' = []"
    "total_iscore (flushed st') = total_iscore readDB + st_Beta3 (sh_stats st')"
    using calculateDB_loop_total [OF run assms(2,3)] by (auto simp: flushed_def zero_Statistics_def)
  have "db = flushed st'" "st = sh_stats st'" "ctx' = sh_ctx st'"
    using assms(1) run r(1,4) by (auto simp: calculateDB_def Iterator_New_def flushed_def word_gt_0)
  with r show ?thesis by simp
qed

lemma shards_loop_total:
  assumes "shards_loop shake (\<lambda>_ _. False) h qs i cDBs ctx = Some (rs, ctx')"
    and "distinct cDBs" "set cDBs \<subseteq> N" "set qs \<inter> N = {}" "i + length cDBs = length qs"
    and "\<forall>n \<in> set cDBs. calcdb ctx n = []" "\<forall>q \<in> set qs. kv_ok (calcdb ctx q) \<and> all_due h (calcdb ctx q)"
  shows "calc_frame N ctx ctx' \<and> (\<forall>n. n \<notin> set cDBs \<longrightarrow> calcdb ctx' n = calcdb ctx n) \<and>
    (\<forall>n \<in> set cDBs. kv_ok (calcdb ctx' n)) \<and>
    (\<Sum>n \<leftarrow> cDBs. total_iscore (calcdb ctx' n)) =
      (\<Sum>q \<leftarrow> drop i qs. total_iscore (calcdb ctx q)) + (\<Sum>r \<leftarrow> rs. st_Beta3 (fst r))"
  using assms
proof (induction cDBs arbitrary: i ctx rs)
  case Nil
  then show ?case using frame_same_core [OF same_core_refl] by auto
next
  case (Cons cDB cDBs)
  have i: "i < length qs" using Cons.prems(5) by simp
  obtain count st hash db ctx1 rs1 where
    c: "calculateDB shake (\<lambda>_. False) (calcdb ctx (qs ! i)) [] ctx h writeBatchCount = Some (count, st, hash, db, ctx1)"
    and l: "shards_loop shake (\<lambda>_ _. False) h qs (Suc i) cDBs (set_calcdb cDB db ctx1) = Some (rs1, ctx')"
    and rs: "rs = (st, hash) # rs1"
    using Cons.prems(1,6) i by (auto split: option.splits)
  have q: "qs ! i \<in> set qs" using i by simp
  have cd: "same_core ctx ctx1" "kv_ok db" "total_iscore db = total_iscore (calcdb ctx (qs ! i)) + st_Beta3 st"
    using calculateDB_total [OF c] Cons.prems(7) q by auto
  let ?c = "set_calcdb cDB db ctx1"
  have get: "calcdb ctx1 n = calcdb ctx n" for n
    using same_core_fields(1) [OF cd(1)] by (simp add: calcdb_def)
  have nq: "q \<noteq> cDB" if "q \<in> set qs" for q using that Cons.prems(3,4) by auto
  have frame: "calc_frame N ctx ?c"
    using Cons.prems(3) by (intro frame_trans [OF frame_same_core [OF cd(1)]] frame_set_calcdb) auto
  have ih: "calc_frame N ?c ctx' \<and> (\<forall>n. n \<notin> set cDBs \<longrightarrow> calcdb ctx' n = calcdb ?c n) \<and>
    (\<forall>n \<in> set cDBs. kv_ok (calcdb ctx' n)) \<and>
    (\<Sum>n \<leftarrow> cDBs. total_iscore (calcdb ctx' n)) =
      (\<Sum>q \<leftarrow> drop (Suc i) qs. total_iscore (calcdb ?c q)) + (\<Sum>r \<leftarrow> rs1. st_Beta3 (fst r))"
    using Cons.prems(2-7) nq by (intro Cons.IH [OF l]) (auto simp: get)
  have "(\<Sum>q \<leftarrow> drop (Suc i) qs. total_iscore (calcdb ?c q)) = (\<Sum>q \<leftarrow> drop (Suc i) qs. total_iscore (calcdb ctx q))"
    using nq by (intro arg_cong [of _ _ sum_list] map_cong) (auto simp: get dest: in_set_dropD)
  moreover have "drop i qs = qs ! i # drop (Suc i) qs" using i by (simp add: Cons_nth_drop_Suc)
  moreover have "calcdb ctx' cDB = db" using ih Cons.prems(2) by (simp add: get)
  ultimately show ?case
    using ih cd(2,3) frame_trans [OF frame] by (auto simp: rs get)
qed

section \<open>The whole calculation\<close>

lemma fold_shard_stats:
  "st_Beta3 (fold add_shard_stats ss acc) = st_Beta3 acc + (\<Sum>s \<leftarrow> ss. st_Beta3 s) \<and>
   st_TotalReward (fold add_shard_stats ss acc) = st_TotalReward acc + (\<Sum>s \<leftarrow> ss. st_Beta3 s) \<and>
   st_Beta1 (fold add_shard_stats ss acc) = st_Beta1 acc \<and> st_Beta2 (fold add_shard_stats ss acc) = st_Beta2 acc"
  by (induction ss arbitrary: acc) (simp_all add: add_shard_stats_def)

definition query_total :: "Context \<Rightarrow> int" where
  "query_total ctx = (\<Sum>n \<leftarrow> getQueryDBList (DB ctx). total_iscore (calcdb ctx n))"

definition query_due :: "u64 \<Rightarrow> Context \<Rightarrow> bool" where
  "query_due h ctx \<longleftrightarrow> (\<forall>n \<in> set (getQueryDBList (DB ctx)). kv_ok (calcdb ctx n) \<and> all_due h (calcdb ctx n))"

lemma run_calculation_conserves:
  assumes "idb_ok (DB ctx)" "query_due h ctx" "\<forall>n \<in> set (GetCalcDBList (DB ctx)). calcdb ctx n = []"
    and "run_calculation shake order None iissDB h ctx = Some (err, st, hash, ctx')"
  shows "\<exists>s hs. err = None \<and> st = Some s \<and> hash = Some hs \<and> stats ctx' = Some s \<and>
    st_TotalReward s = st_Beta1 s + st_Beta2 s + st_Beta3 s \<and>
    calc_frame (set (GetCalcDBList (DB ctx))) ctx ctx' \<and>
    calc_total ctx' = query_total ctx + st_TotalReward s"
proof -
  let ?N = "set (GetCalcDBList (DB ctx))"
  obtain shards ctx1 n1 r1 h1 ctx2 n2 r2 h2 ctx3 n3 r3 h3 ctx4 where
    sh: "shards_loop shake (\<lambda>_ _. False) h (getQueryDBList (DB ctx)) 0 (GetCalcDBList (DB ctx)) ctx = Some (shards, ctx1)"
    and tx: "calculateIISSTX shake ctx1 iissDB h = Some (n1, r1, h1, ctx2)"
    and bp: "calculateIISSBlockProduce shake order ctx2 iissDB h = Some (n2, r2, h2, ctx3)"
    and pr: "calculatePRepReward shake ctx3 h = Some (n3, r3, h3, ctx4)"
    and res: "(err, st, hash, ctx') =
      (let s = add_part ''Beta2'' n3 r3 (add_part ''Beta1'' n2 r2 (add_part ''Beta3'' n1 r1
             (fold add_shard_stats (map fst shards) zero_Statistics)))
       in (None, Some s, Some (shake (h1 @ h2 @ h3 @ concat (map (\<lambda>s. case snd s of None \<Rightarrow> [] | Some h \<Rightarrow> h) shards))),
           ctx4\<lparr>stats := Some s\<rparr>))"
    using assms(4) by (auto simp: run_calculation_def Let_def split: option.splits)
  let ?s = "add_part ''Beta2'' n3 r3 (add_part ''Beta1'' n2 r2 (add_part ''Beta3'' n1 r1
             (fold add_shard_stats (map fst shards) zero_Statistics)))"
  have dj: "set (getQueryDBList (DB ctx)) \<inter> ?N = {}"
    using account_names_disjoint [OF postfix_neq(1)] by (simp add: idb_ok_lists [OF assms(1)])
  have dist: "distinct (GetCalcDBList (DB ctx))"
    by (simp add: idb_ok_lists [OF assms(1)] account_names_def distinct_map inj_on_def)
  have len: "0 + length (GetCalcDBList (DB ctx)) = length (getQueryDBList (DB ctx))"
    by (simp add: idb_ok_lists [OF assms(1)])
  have qd: "\<forall>q \<in> set (getQueryDBList (DB ctx)). kv_ok (calcdb ctx q) \<and> all_due h (calcdb ctx q)"
    using assms(2) by (simp add: query_due_def)
  note s1 = shards_loop_total [OF sh dist subset_refl dj len assms(3) qd]
  have l1: "GetCalcDBList (DB ctx1) = GetCalcDBList (DB ctx)" using s1 frame_list by blast
  have tot1: "calc_dbs_ok ctx1" "calc_total ctx1 = query_total ctx + (\<Sum>r \<leftarrow> shards. st_Beta3 (fst r))"
    using s1 dist by (simp_all add: calc_dbs_ok_def calc_total_def query_total_def l1)
  have p: "pays (r1 + r2 + r3) ctx1 ctx4"
    using pays_trans [OF pays_trans [OF parts_pay(1) [OF tx] parts_pay(2) [OF bp]] parts_pay(3) [OF pr]] .
  then have fr: "calc_frame ?N ctx ctx4" and tot4: "calc_total ctx4 = calc_total ctx1 + (r1 + r2 + r3)"
    using s1 tot1(1) frame_trans unfolding pays_def l1 by blast+
  have stt: "st_TotalReward ?s = (\<Sum>r \<leftarrow> shards. st_Beta3 (fst r)) + r1 + r2 + r3"
    "st_TotalReward ?s = st_Beta1 ?s + st_Beta2 ?s + st_Beta3 ?s"
    using fold_shard_stats [of "map fst shards" zero_Statistics]
    by (simp_all add: add_part_def zero_Statistics_def comp_def)
  have e: "err = None" "st = Some ?s" "ctx' = ctx4\<lparr>stats := Some ?s\<rparr>"
    and "\<exists>hs. hash = Some hs" using res by (simp_all add: Let_def)
  moreover have "calc_total ctx' = calc_total ctx4" "calc_frame ?N ctx ctx'"
    using fr by (simp_all add: e calc_total_def calcdb_def calc_frame_def del: map_of_eq_Some_iff)
  ultimately show ?thesis using stt tot4 tot1(2) by (auto simp: algebra_simps)
qed

end
