(* ===== verification/CalculateProps.thy ===== *)
theory CalculateProps
  imports Conservation
begin

text \<open>
  Properties of CALCULATE: the rewards as sums over blocks, shard by shard and for the whole
  calculation, the conservation of I-Score, what a successful calculation leaves behind, and
  what a refused one does not touch.
\<close>

section \<open>DoCalculate\<close>

lemma UpdatePRepCandidate_frame [simp]:
  "dirs (DB (UpdatePRepCandidate m ctx)) = dirs (DB ctx)" "info (DB (UpdatePRepCandidate m ctx)) = info (DB ctx)"
  "Account0 (DB (UpdatePRepCandidate m ctx)) = Account0 (DB ctx)" "Account1 (DB (UpdatePRepCandidate m ctx)) = Account1 (DB ctx)"
  "calcResult (DB (UpdatePRepCandidate m ctx)) = calcResult (DB ctx)" "claims (DB (UpdatePRepCandidate m ctx)) = claims (DB ctx)"
  by (simp_all add: UpdatePRepCandidate_def split: prod.splits)

lemma UpdatePRep_frame [simp]:
  "dirs (DB (UpdatePRep l ctx)) = dirs (DB ctx)" "info (DB (UpdatePRep l ctx)) = info (DB ctx)"
  "Account0 (DB (UpdatePRep l ctx)) = Account0 (DB ctx)" "Account1 (DB (UpdatePRep l ctx)) = Account1 (DB ctx)"
  "calcResult (DB (UpdatePRep l ctx)) = calcResult (DB ctx)" "claims (DB (UpdatePRep l ctx)) = claims (DB ctx)"
  by (simp_all add: UpdatePRep_def Let_def split: prod.splits)

lemma UpdateGovernanceVariable_frame [simp]:
  "dirs (DB (UpdateGovernanceVariable l ctx)) = dirs (DB ctx)" "info (DB (UpdateGovernanceVariable l ctx)) = info (DB ctx)"
  "Account0 (DB (UpdateGovernanceVariable l ctx)) = Account0 (DB ctx)"
  "Account1 (DB (UpdateGovernanceVariable l ctx)) = Account1 (DB ctx)"
  "calcResult (DB (UpdateGovernanceVariable l ctx)) = calcResult (DB ctx)"
  "claims (DB (UpdateGovernanceVariable l ctx)) = claims (DB ctx)"
  by (simp_all add: UpdateGovernanceVariable_def split: prod.splits)

lemma same_core_InitCalcDebugResult:
  assumes "InitCalcDebugResult h b ctx = Some ctx'"
  shows "same_core ctx ctx'"
proof (cases "NeedToUpdateCalcDebugResult ctx")
  case False
  then show ?thesis using assms by (simp add: InitCalcDebugResult_def)
next
  case True
  then obtain r where f: "foldP (\<lambda>a c. InitCalcResult c a) (conf_Addresses (dbg_conf (calcDebug ctx)))
      (ctx\<lparr>calcDebug := (calcDebug ctx)\<lparr>dbg_result := Some r\<rparr>\<rparr>) = Some ctx'"
    using assms by (auto simp: InitCalcDebugResult_def Let_def)
  have "same_core ctx (ctx\<lparr>calcDebug := (calcDebug ctx)\<lparr>dbg_result := Some r\<rparr>\<rparr>)" by (simp add: same_core_def)
  then show ?thesis using same_core_foldP [OF f same_core_InitCalcResult] by (rule same_core_trans)
qed

text \<open>What a CALCULATE that is neither refused nor cancelled runs through.\<close>

lemma DoCalculate_parts:
  assumes "DoCalculate shake order None iiss ctx req conn msg_id = Some out" "co_err out = None"
  obtains header gvl prl idb1 idb2 idb3 ctx3 st hash ctx4 where
    "LoadIISSData (iiss (cq_Path req)) = Some (header, gvl, prl)"
    "idb1 = setCalculatingBH (co_height out) (DB ctx)" "getCalcDoneBH (DB ctx) < co_height out"
    "idb2 = toggleAccountDB (co_height out + 1) idb1" "idb3 = snd (resetAccountDB (co_height out) (getCalcDoneBH idb2) idb2)"
    "InitCalcDebugResult (co_height out) (cq_BlockHash req) (UpdatePRepCandidate (iiss (cq_Path req)) (UpdatePRep prl
        (UpdateGovernanceVariable gvl (ctx\<lparr>DB := idb3, Revision := ih_Revision header\<rparr>)))) = Some ctx3"
    "run_calculation shake order None (iiss (cq_Path req)) (co_height out) ctx3 = Some (None, st, Some hash, ctx4)"
    "finish_calculation (co_height out) st hash ctx4 = Some (co_ctx out)" "co_stats out = st" "co_hash out = Some hash"
proof -
  obtain header gvl prl where load: "LoadIISSData (iiss (cq_Path req)) = Some (header, gvl, prl)"
    using assms by (auto simp: DoCalculate_def Let_def split: if_splits option.splits)
  define h where "h = (if ih_BlockHeight header = 0 then getCalcDoneBH (DB ctx) + 1 else ih_BlockHeight header)"
  have d: "getCalcDoneBH (setCalculatingBH h (DB ctx)) = getCalcDoneBH (DB ctx)"
    by (simp add: setCalculatingBH_def getCalcDoneBH_def)
  have ref: "\<not> (\<not> isReloadRequest (cq_BlockHeight req) msg_id \<and> isCalculating (DB ctx))"
    using assms by (auto simp: DoCalculate_def)
  note run = assms(1) [unfolded DoCalculate_def Let_def if_not_P [OF ref] load option.case prod.case h_def [symmetric] d]
  have lt: "getCalcDoneBH (DB ctx) < h"
    using run assms(2) by (auto split: if_splits)
  then have ne: "h \<noteq> getCalcDoneBH (DB ctx)" "\<not> h < getCalcDoneBH (DB ctx)" by auto
  note run = run [unfolded if_not_P [OF ne(1)] if_not_P [OF ne(2)]]
  let ?idb2 = "toggleAccountDB (h + 1) (setCalculatingBH h (DB ctx))"
  let ?idb3 = "snd (resetAccountDB h (getCalcDoneBH ?idb2) ?idb2)"
  let ?ctx2 = "UpdatePRepCandidate (iiss (cq_Path req)) (UpdatePRep prl
        (UpdateGovernanceVariable gvl (ctx\<lparr>DB := ?idb3, Revision := ih_Revision header\<rparr>)))"
  obtain ctx3 where i: "InitCalcDebugResult h (cq_BlockHash req) ?ctx2 = Some ctx3"
    using run by (auto split: option.splits)
  note run = run [unfolded i option.case]
  obtain err st h4 ctx4 where r: "run_calculation shake order None (iiss (cq_Path req)) h ctx3 = Some (err, st, h4, ctx4)"
    using run by (auto split: option.splits)
  have err: "err = None" "h4 \<noteq> None"
    using r by (auto simp: run_calculation_def Let_def split: option.splits)
  then obtain hash where h4: "h4 = Some hash" by auto
  obtain ctx5 where f: "finish_calculation h st hash ctx4 = Some ctx5" and out: "co_height out = h" "co_ctx out = ctx5"
    "co_stats out = st" "co_hash out = Some hash"
    using run by (auto simp: r h4 split: option.splits)
  show thesis
    using that [OF load _ _ _ _ _ _ _ out(3,4)] lt i r f err h4 unfolding out by blast
qed

lemma finish_calculation_DB:
  assumes "finish_calculation h st hash ctx = Some ctx'"
  shows "DB ctx' = (setCalcDoneBH h (DB ctx))\<lparr>calcResult := WriteCalculationResult (calcResult (DB ctx)) h st hash\<rparr>"
proof -
  have "calcResult (setCalcDoneBH h (DB ctx)) = calcResult (DB ctx)" by (simp add: setCalcDoneBH_def)
  then show ?thesis
    using assms
    by (auto simp: finish_calculation_def WriteCalcDebugResult_def ResetCalcDebugResults_def upd_results_def upd_result_def
        Let_def bind_eq_Some_conv split: if_splits option.splits)
qed

lemma DoCalculate_conserves:
  assumes ok: "idb_ok (DB ctx)" "only_backups_of (CalcDone (info (DB ctx))) (DB ctx)"
    and run: "DoCalculate shake order None iiss ctx req conn msg_id = Some out" "co_err out = None"
    and t: "ToggleBH (info (DB ctx)) \<noteq> co_height out + 1"
    and due: "\<forall>n \<in> set (GetCalcDBList (DB ctx)). kv_ok (calcdb ctx n) \<and> all_due (co_height out) (calcdb ctx n)"
  shows "\<exists>s. co_stats out = Some s \<and> st_TotalReward s = st_Beta1 s + st_Beta2 s + st_Beta3 s \<and>
    calc_total (co_ctx out) = calc_total ctx + st_TotalReward s \<and>
    getQueryDBList (DB (co_ctx out)) = GetCalcDBList (DB ctx) \<and>
    (\<forall>n \<in> set (GetCalcDBList (DB ctx)). calcdb (co_ctx out) n = calcdb ctx n)"
proof -
  obtain header gvl prl idb1 idb2 idb3 ctx3 st hash ctx4 where
    "LoadIISSData (iiss (cq_Path req)) = Some (header, gvl, prl)"
    and idb1: "idb1 = setCalculatingBH (co_height out) (DB ctx)" and lt: "getCalcDoneBH (DB ctx) < co_height out"
    and idb2: "idb2 = toggleAccountDB (co_height out + 1) idb1"
    and idb3: "idb3 = snd (resetAccountDB (co_height out) (getCalcDoneBH idb2) idb2)"
    and ini: "InitCalcDebugResult (co_height out) (cq_BlockHash req) (UpdatePRepCandidate (iiss (cq_Path req)) (UpdatePRep prl
        (UpdateGovernanceVariable gvl (ctx\<lparr>DB := idb3, Revision := ih_Revision header\<rparr>)))) = Some ctx3"
    and rc: "run_calculation shake order None (iiss (cq_Path req)) (co_height out) ctx3 = Some (None, st, Some hash, ctx4)"
    and fin: "finish_calculation (co_height out) st hash ctx4 = Some (co_ctx out)" and st: "co_stats out = st"
    and "co_hash out = Some hash"
    by (rule DoCalculate_parts [OF run])
  let ?h = "co_height out" and ?c = "DBCount (info (DB ctx))"
  have ok1: "idb_ok idb1" using ok(1) by (simp add: idb1)
  have i1: "CalcDone (info idb1) = CalcDone (info (DB ctx))" "ToggleBH (info idb1) = ToggleBH (info (DB ctx))"
    "dirs idb1 = dirs (DB ctx)" "DBCount (info idb1) = ?c" "query_postfix idb1 = query_postfix (DB ctx)"
    "calc_postfix idb1 = calc_postfix (DB ctx)"
    by (simp_all add: idb1 setCalculatingBH_def query_postfix_def calc_postfix_def)
  have "only_backups_of (CalcDone (info idb1)) idb1" using ok(2) i1 by (simp add: only_backups_of_def del: map_of_eq_Some_iff)
  moreover have "CalcDone (info idb1) < ?h" "ToggleBH (info idb1) \<noteq> ?h + 1" using lt t i1 by (simp_all add: getCalcDoneBH_def)
  ultimately obtain idb3' where r: "resetAccountDB ?h (getCalcDoneBH idb2) idb2 = (None, idb3')" "idb_ok idb3'" "info idb3' = info idb2"
    "query_postfix idb3' = calc_postfix (DB ctx)" "calc_postfix idb3' = query_postfix (DB ctx)"
    and d: "\<forall>j < nat ?c. map_of (dirs idb3') (CalcDir (int j + 1) ?c (query_postfix (DB ctx))) = Some [] \<and>
       map_of (dirs idb3') (CalcDir (int j + 1) ?c (calc_postfix (DB ctx))) =
         map_of (dirs (DB ctx)) (CalcDir (int j + 1) ?c (calc_postfix (DB ctx)))"
    using reset_after_toggle [OF ok1, of ?h] unfolding idb2 i1 by blast
  have e3: "idb3 = idb3'" using idb3 r(1) by simp
  have c3: "DBCount (info idb3') = ?c" using r(3) i1 by (simp add: idb2 toggle_fields)
  have lists: "getQueryDBList idb3' = GetCalcDBList (DB ctx)" "GetCalcDBList idb3' = getQueryDBList (DB ctx)"
    using account_names_cong [OF c3] by (simp_all add: idb_ok_lists [OF r(2)] idb_ok_lists [OF ok(1)] r(4,5))
  have core3: "dirs (DB ctx3) = dirs idb3'" "info (DB ctx3) = info idb3'" "Account0 (DB ctx3) = Account0 idb3'" "Account1 (DB ctx3) = Account1 idb3'"
    using same_core_fields(1) [OF same_core_InitCalcDebugResult [OF ini]] by (simp_all add: e3)
  then have "getQueryDBList (DB ctx3) = getQueryDBList idb3'" "GetCalcDBList (DB ctx3) = GetCalcDBList idb3'"
    by (simp_all add: getQueryDBList_def GetCalcDBList_def)
  note l3 = this [unfolded lists]
  have ok3: "idb_ok (DB ctx3)" using core3 by (intro idb_ok_cong [OF r(2)]) auto
  have same: "calcdb ctx3 n = calcdb ctx n" if "n \<in> set (GetCalcDBList (DB ctx))" for n
    using that d by (auto simp: idb_ok_lists [OF ok(1)] account_names_def calcdb_def disk_read_def core3 simp del: map_of_eq_Some_iff)
  have empty: "\<forall>n \<in> set (GetCalcDBList (DB ctx3)). calcdb ctx3 n = []"
    using d unfolding l3 by (auto simp: idb_ok_lists [OF ok(1)] account_names_def calcdb_def disk_read_def core3 simp del: map_of_eq_Some_iff)
  have qd: "query_due ?h ctx3" using due same by (simp add: query_due_def l3)
  obtain s where s: "st = Some s" "st_TotalReward s = st_Beta1 s + st_Beta2 s + st_Beta3 s"
    and fr: "calc_frame (set (GetCalcDBList (DB ctx3))) ctx3 ctx4" and tot: "calc_total ctx4 = query_total ctx3 + st_TotalReward s"
    using run_calculation_conserves [OF ok3 qd empty rc] by auto
  have q3: "query_total ctx3 = calc_total ctx" unfolding query_total_def calc_total_def l3
    by (intro arg_cong [of _ _ sum_list] map_cong) (auto simp: same)
  have DBo: "dirs (DB (co_ctx out)) = dirs (DB ctx4)" "GetCalcDBList (DB (co_ctx out)) = GetCalcDBList (DB ctx4)"
    "getQueryDBList (DB (co_ctx out)) = getQueryDBList (DB ctx4)"
    unfolding finish_calculation_DB [OF fin] by (simp_all add: setCalcDoneBH_def GetCalcDBList_def getQueryDBList_def)
  have "calcdb (co_ctx out) n = calcdb ctx n" if "n \<in> set (GetCalcDBList (DB ctx))" for n
  proof -
    have "n \<notin> set (GetCalcDBList (DB ctx3))"
      using that account_names_disjoint [OF postfix_neq(1) [of "DB ctx"], of "DB ctx" "DB ctx"]
      unfolding l3 by (auto simp: idb_ok_lists [OF ok(1)])
    then show ?thesis using frame_calcdb [OF fr] same [OF that] by (simp add: calcdb_def DBo)
  qed
  moreover have "calc_total (co_ctx out) = calc_total ctx4" by (simp add: calc_total_def calcdb_def DBo)
  ultimately show ?thesis using s st tot q3 frame_list(2) [OF fr] by (simp add: DBo l3)
qed

lemma calculateDB_loop_core:
  "calculateDB_loop quit h bc k es st = Some (e, st') \<Longrightarrow> same_core (sh_ctx st) (sh_ctx st')"
proof (induction es arbitrary: k st)
  case (Cons p es)
  obtain ikey v where p: "p = (ikey, v)" by (cases p)
  show ?case
  proof (cases "quit k \<or> (\<exists>x. NewIScoreAccountFromBytes v = Inl x)")
    case True
    then show ?thesis using Cons.prems by (cases "quit k") (auto simp: p Let_def)
  next
    case False
    then obtain ia0 addr r ia' ctx' where i: "NewIScoreAccountFromBytes v = Inr ia0" "NewAddress ikey = Some addr"
      and c: "calculateIScore (sh_ctx st) (ia0\<lparr>ia_Address := addr\<rparr>) h = Some (r, ia', ctx')"
      using Cons.prems by (cases "NewIScoreAccountFromBytes v") (auto simp: p Let_def PrefixIScore_def split: option.splits)
    obtain st1 where "calculateDB_loop quit h bc (Suc k) es st1 = Some (e, st')" "sh_ctx st1 = ctx'"
      using Cons.prems False i c by (cases r) (auto simp: p Let_def PrefixIScore_def split: if_splits)
    with Cons.IH calculateIScore_credit [OF c] show ?thesis by (blast intro: same_core_trans)
  qed
qed simp

lemma calculateDB_core:
  "calculateDB shake quit rdb wdb ctx h bc = Some (n, st, hash, db, ctx') \<Longrightarrow> same_core ctx ctx'"
  by (auto simp: calculateDB_def split: option.splits shard_end.splits dest!: calculateDB_loop_core)

lemma shards_loop_frame:
  "shards_loop shake quits h qs i cDBs ctx = Some (rs, ctx') \<Longrightarrow> set cDBs \<subseteq> N \<Longrightarrow> calc_frame N ctx ctx'"
proof (induction cDBs arbitrary: i ctx rs)
  case Nil
  then show ?case by (auto intro: frame_same_core)
next
  case (Cons cDB cDBs)
  then obtain n st hash db ctx1 rs1 where
    c: "calculateDB shake (quits i) (calcdb ctx (qs ! i)) (calcdb ctx cDB) ctx h writeBatchCount = Some (n, st, hash, db, ctx1)"
    and l: "shards_loop shake quits h qs (Suc i) cDBs (set_calcdb cDB db ctx1) = Some (rs1, ctx')"
    by (auto split: if_splits option.splits)
  have "calc_frame N ctx (set_calcdb cDB db ctx1)"
    using Cons.prems(2) by (intro frame_trans [OF frame_same_core [OF calculateDB_core [OF c]]] frame_set_calcdb) auto
  also have "calc_frame N (set_calcdb cDB db ctx1) ctx'" using Cons.IH [OF l] Cons.prems(2) by simp
  finally show ?case .
qed

lemma run_calculation_frame:
  assumes "run_calculation shake order None iissDB h ctx = Some (err, st, hash, ctx')"
  shows "calc_frame (set (GetCalcDBList (DB ctx))) ctx ctx' \<and> (\<exists>s. st = Some s)"
proof -
  let ?N = "set (GetCalcDBList (DB ctx))"
  obtain shards ctx1 n1 r1 h1 ctx2 n2 r2 h2 ctx3 n3 r3 h3 ctx4 s where
    sh: "shards_loop shake (\<lambda>_ _. False) h (getQueryDBList (DB ctx)) 0 (GetCalcDBList (DB ctx)) ctx = Some (shards, ctx1)"
    and tx: "calculateIISSTX shake ctx1 iissDB h = Some (n1, r1, h1, ctx2)"
    and bp: "calculateIISSBlockProduce shake order ctx2 iissDB h = Some (n2, r2, h2, ctx3)"
    and pr: "calculatePRepReward shake ctx3 h = Some (n3, r3, h3, ctx4)"
    and res: "st = Some s" "ctx' = ctx4\<lparr>stats := Some s\<rparr>"
    using assms by (auto simp: run_calculation_def Let_def split: option.splits)
  have f1: "calc_frame ?N ctx ctx1" using shards_loop_frame [OF sh] by simp
  have "pays (r1 + r2 + r3) ctx1 ctx4"
    using pays_trans [OF pays_trans [OF parts_pay(1) [OF tx] parts_pay(2) [OF bp]] parts_pay(3) [OF pr]] .
  then have "calc_frame ?N ctx1 ctx4" using frame_list(1) [OF f1] by (simp add: pays_def)
  with f1 have "calc_frame ?N ctx ctx4" by (rule frame_trans)
  then show ?thesis unfolding res by (simp add: calc_frame_def del: map_of_eq_Some_iff)
qed

lemma info_resetAccountDB:
  "info (snd (resetAccountDB h g idb)) = info idb" "calcResult (snd (resetAccountDB h g idb)) = calcResult idb"
  "claims (snd (resetAccountDB h g idb)) = claims idb" "management (snd (resetAccountDB h g idb)) = management idb"
  by (simp_all add: resetAccountDB_def Let_def split: prod.splits option.splits)

lemma toggle_heights:
  "CalcDone (info (toggleAccountDB h idb)) = CalcDone (info idb)"
  "Calculating (info (toggleAccountDB h idb)) = Calculating (info idb)"
  "PrevCalcDone (info (toggleAccountDB h idb)) = PrevCalcDone (info idb)"
  "calcResult (toggleAccountDB h idb) = calcResult idb" "claims (toggleAccountDB h idb) = claims idb"
  by (simp_all add: toggleAccountDB_def)

lemma DoCalculate_result:
  assumes run: "DoCalculate shake order None iiss ctx req conn msg_id = Some out" "co_err out = None"
    and res: "kv_ok (calcResult (DB ctx))"
  shows "\<exists>s hash. co_stats out = Some s \<and> co_hash out = Some hash \<and>
    getCalcDoneBH (DB ctx) < co_height out \<and> getCalcDoneBH (DB (co_ctx out)) = co_height out \<and>
    getPrevCalcDoneBH (DB (co_ctx out)) = getCalcDoneBH (DB ctx) \<and>
    DoQueryCalculateStatus (co_ctx out) = (CalculationDone, co_height out) \<and>
    DoQueryCalculateResult (co_ctx out) (co_height out) =
      Some \<lparr>qr_Status = calcSucceeded, qr_BlockHeight = co_height out, qr_IScore = st_TotalReward s, qr_StateHash = hash\<rparr> \<and>
    claims (DB (co_ctx out)) = claims (DB ctx)"
proof -
  obtain header gvl prl idb1 idb2 idb3 ctx3 st hash ctx4 where
    "LoadIISSData (iiss (cq_Path req)) = Some (header, gvl, prl)"
    and idb1: "idb1 = setCalculatingBH (co_height out) (DB ctx)" and lt: "getCalcDoneBH (DB ctx) < co_height out"
    and idb2: "idb2 = toggleAccountDB (co_height out + 1) idb1"
    and idb3: "idb3 = snd (resetAccountDB (co_height out) (getCalcDoneBH idb2) idb2)"
    and ini: "InitCalcDebugResult (co_height out) (cq_BlockHash req) (UpdatePRepCandidate (iiss (cq_Path req)) (UpdatePRep prl
        (UpdateGovernanceVariable gvl (ctx\<lparr>DB := idb3, Revision := ih_Revision header\<rparr>)))) = Some ctx3"
    and rc: "run_calculation shake order None (iiss (cq_Path req)) (co_height out) ctx3 = Some (None, st, Some hash, ctx4)"
    and fin: "finish_calculation (co_height out) st hash ctx4 = Some (co_ctx out)" and st: "co_stats out = st"
    and hash: "co_hash out = Some hash"
    by (rule DoCalculate_parts [OF run])
  have c3: "info (DB ctx3) = info idb2" "calcResult (DB ctx3) = calcResult (DB ctx)" "claims (DB ctx3) = claims (DB ctx)"
    using same_core_fields(1) [OF same_core_InitCalcDebugResult [OF ini]]
    by (simp_all add: idb3 info_resetAccountDB idb2 idb1 toggle_heights setCalculatingBH_def)
  obtain s where s: "st = Some s" and e: "(DB ctx4)\<lparr>dirs := []\<rparr> = (DB ctx3)\<lparr>dirs := []\<rparr>"
    using run_calculation_frame [OF rc] by (auto simp: calc_frame_def)
  have "info ((DB ctx4)\<lparr>dirs := []\<rparr>) = info (DB ctx3)" "calcResult ((DB ctx4)\<lparr>dirs := []\<rparr>) = calcResult (DB ctx3)"
    "claims ((DB ctx4)\<lparr>dirs := []\<rparr>) = claims (DB ctx3)"
    unfolding e by simp_all
  then have c4: "info (DB ctx4) = info idb2" "calcResult (DB ctx4) = calcResult (DB ctx)" "claims (DB ctx4) = claims (DB ctx)"
    using c3 by simp_all
  have hs: "CalcDone (info idb2) = CalcDone (info (DB ctx))" "Calculating (info idb2) = co_height out"
    by (simp_all add: idb2 idb1 toggle_heights setCalculatingBH_def)
  show ?thesis
    using lt c4 hs s st hash res
    by (simp add: finish_calculation_DB [OF fin] setCalcDoneBH_def getCalcDoneBH_def getPrevCalcDoneBH_def DoQueryCalculateStatus_def isCalculating_def
        getCalculatingBH_def DoQueryCalculateResult_def WriteCalculationResult_def Let_def CalculationResult_ID_def
        NewCalculationResultFromBytes_Bytes zero_CalculationResult_def)
qed

end
