(* ===== verification/CalcReturns.thy ===== *)
theory CalcReturns
  imports CalculateProps "HOL-Library.Multiset"
begin

text \<open>
  A CALCULATE that passes the checks returns: with debugging off, delegation transactions
  whose data are lists of pairs and account entries without nil delegations, no part of the
  calculation panics, whatever else the databases hold.
\<close>

section \<open>Entries and contexts\<close>

definition no_nil :: "IScoreAccount \<Rightarrow> bool" where
  "no_nil ia \<longleftrightarrow> None \<notin> set (ia_Delegations ia)"

definition entry_good :: "obj \<Rightarrow> bool" where
  "entry_good v \<longleftrightarrow> (case NewIScoreAccountFromBytes v of Inl _ \<Rightarrow> True | Inr ia \<Rightarrow> no_nil ia)"

definition entries_good :: "obj kv \<Rightarrow> bool" where
  "entries_good m \<longleftrightarrow> (\<forall>p \<in> set m. entry_good (snd p))"

lemma mapE_no_nil:
  assumes "mapE dec_DelegateData (map enc_DelegateData ds) = Inr ds'" "None \<notin> set ds"
  shows "None \<notin> set ds'"
  using assms
proof (induction ds arbitrary: ds')
  case (Cons d ds)
  obtain x where d: "d = Some x" using Cons.prems(2) by (cases d) auto
  obtain y ys where y: "dec_DelegateData (enc_DelegateData d) = Inr y" "mapE dec_DelegateData (map enc_DelegateData ds) = Inr ys"
    "ds' = y # ys"
    using Cons.prems(1) by (auto simp: bindE_Inr)
  have "y \<noteq> None" using y(1) by (auto simp: d dec_DelegateData_def enc_DelegateData_def bindE_Inr)
  with Cons y show ?case by auto
qed simp

lemma entry_good_Bytes [simp]: "no_nil ia \<Longrightarrow> entry_good (IScoreAccount_Bytes ia)"
  by (auto simp: entry_good_def no_nil_def NewIScoreAccountFromBytes_def IScoreAccount_SetBytes_def IScoreAccount_Bytes_def
      bindE_Inr split: sum.splits dest: mapE_no_nil)

lemma set_kv_put: "set (kv_put k v m) \<subseteq> insert (k, v) (set m)"
  by (induction m) (auto split: if_splits)

lemma entries_good_put [simp]: "entries_good m \<Longrightarrow> entry_good v \<Longrightarrow> entries_good (kv_put k v m)"
  using set_kv_put [of k v m] by (fastforce simp: entries_good_def)

lemma entry_good_get: "entries_good m \<Longrightarrow> kv_get k m = Some v \<Longrightarrow> NewIScoreAccountFromBytes v = Inr ia \<Longrightarrow> no_nil ia"
  by (force simp: entries_good_def entry_good_def kv_get_def dest: map_of_SomeD)

definition calc_good :: "Context \<Rightarrow> bool" where
  "calc_good ctx \<longleftrightarrow> idb_ok (DB ctx) \<and> \<not> NeedToUpdateCalcDebugResult ctx \<and>
     (\<forall>n \<in> set (GetCalcDBList (DB ctx)). entries_good (calcdb ctx n))"

lemma calc_good_DB:
  assumes "calc_good ctx" "address_ok a"
  shows "\<exists>cDB. getCalculateDB (DB ctx) a = Some cDB \<and> cDB \<in> set (GetCalcDBList (DB ctx)) \<and> entries_good (calcdb ctx cDB)"
proof -
  obtain i where "i < nat (DBCount (info (DB ctx)))"
    "getCalculateDB (DB ctx) a = Some (CalcDir (int i + 1) (DBCount (info (DB ctx))) (calc_postfix (DB ctx)))"
    using idb_ok_getDB [of "DB ctx" a] assms by (auto simp: calc_good_def)
  moreover from this have "CalcDir (int i + 1) (DBCount (info (DB ctx))) (calc_postfix (DB ctx)) \<in> set (GetCalcDBList (DB ctx))"
    using assms(1) by (auto simp: calc_good_def idb_ok_lists account_names_def)
  ultimately show ?thesis using assms(1) by (auto simp: calc_good_def)
qed

lemma frame_idb_ok:
  assumes "calc_frame N ctx ctx'" "idb_ok (DB ctx)"
  shows "idb_ok (DB ctx')" "NeedToUpdateCalcDebugResult ctx' = NeedToUpdateCalcDebugResult ctx"
proof -
  have e: "(DB ctx')\<lparr>dirs := []\<rparr> = (DB ctx)\<lparr>dirs := []\<rparr>" using assms(1) by (simp add: calc_frame_def)
  have f: "info ((DB ctx')\<lparr>dirs := []\<rparr>) = info (DB ctx)" "Account0 ((DB ctx')\<lparr>dirs := []\<rparr>) = Account0 (DB ctx)"
    "Account1 ((DB ctx')\<lparr>dirs := []\<rparr>) = Account1 (DB ctx)" unfolding e by simp_all
  then have f: "info (DB ctx') = info (DB ctx)" "Account0 (DB ctx') = Account0 (DB ctx)" "Account1 (DB ctx') = Account1 (DB ctx)"
    by simp_all
  have n: "account_names (DB ctx') = account_names (DB ctx)" using f(1) by (intro account_names_cong) simp
  show "idb_ok (DB ctx')"
    using assms unfolding idb_ok_def f n calc_frame_def by blast
  show "NeedToUpdateCalcDebugResult ctx' = NeedToUpdateCalcDebugResult ctx"
    using assms(1) by (simp add: NeedToUpdateCalcDebugResult_def calc_frame_def)
qed

lemma calc_good_put:
  assumes "calc_good ctx" "n \<in> set (GetCalcDBList (DB ctx))" "entries_good m"
  shows "calc_good (set_calcdb n m ctx)"
proof -
  have "calc_frame UNIV ctx (set_calcdb n m ctx)" by (rule frame_set_calcdb) simp
  then show ?thesis
    using assms frame_idb_ok frame_list(1) by (auto simp: calc_good_def)
qed

lemma calc_good_put_account:
  assumes "calc_good ctx" "getCalculateDB (DB ctx) a = Some cDB" "no_nil ia"
  shows "calc_good (set_calcdb cDB (Bucket_Set (calcdb ctx cDB) PrefixIScore (IScoreAccount_ID ia) (IScoreAccount_Bytes ia)) ctx)"
proof -
  have mem: "cDB \<in> set (GetCalcDBList (DB ctx))"
    using assms(2) by (auto simp: getCalculateDB_def db_at_def split: option.splits if_splits)
  then have "entries_good (calcdb ctx cDB)" using assms(1) by (simp add: calc_good_def)
  then show ?thesis using assms mem by (intro calc_good_put) (simp_all add: Bucket_Set_def)
qed

lemma calculateIScore_good:
  assumes "\<not> NeedToUpdateCalcDebugResult ctx" "no_nil ia"
  shows "\<exists>r ia'. calculateIScore ctx ia h = Some (r, ia', ctx) \<and> no_nil ia'"
proof -
  obtain r ia' where c: "calculateIScore ctx ia h = Some (r, ia', ctx)"
    using calculateIScore_total [OF assms(1), of ia h] assms(2) unfolding no_nil_def by blast
  then have "ia_Delegations ia' = ia_Delegations ia"
    by (auto simp: calculateIScore_def Let_def split: if_splits option.splits)
  with c assms(2) show ?thesis by (auto simp: no_nil_def)
qed

section \<open>Addresses read from the data\<close>

lemma dec_Address_ok:
  assumes "dec_Address old v = Inr a" "address_ok old"
  shows "address_ok a"
proof -
  obtain b where "(case SetBytes old (Some b) of None \<Rightarrow> Inl ErrDecode | Some (Inl _) \<Rightarrow> Inr old | Some (Inr a) \<Rightarrow> Inr a) = Inr a"
    using assms(1) unfolding dec_Address_def bindE_Inr by blast
  moreover have "length old = AddressBytes" using assms(2) by (simp add: address_ok_def)
  ultimately show ?thesis
    using assms(2) SetBytes_ok [of old "Some b"] by (auto split: option.splits sum.splits)
qed

lemma fld_Address_ok:
  "fld xs i (dec_Address old) zero_address old = Inr a \<Longrightarrow> address_ok old \<Longrightarrow> address_ok a"
  by (auto simp: fld_def dest: dec_Address_ok split: if_splits)

lemma IISSTX_address_ok: "IISSTX_SetBytes tx v = Inr tx' \<Longrightarrow> address_ok (tx_Address tx) \<Longrightarrow> address_ok (tx_Address tx')"
  by (auto simp: IISSTX_SetBytes_def bindE_Inr dest: fld_Address_ok)

lemma mapE_Inr_set: "mapE f xs = Inr ys \<Longrightarrow> y \<in> set ys \<Longrightarrow> \<exists>x. f x = Inr y"
  by (induction xs arbitrary: ys) (auto simp: bindE_Inr)

definition bp_ok :: "IISSBlockProduceInfo \<Rightarrow> bool" where
  "bp_ok bp \<longleftrightarrow> address_ok (bp_Generator bp) \<and> (\<forall>a \<in> set (bp_Validator bp). address_ok a)"

lemma BP_SetBytes_ok:
  assumes "BP_SetBytes bp v = Inr bp'" "bp_ok bp"
  shows "bp_ok bp'"
proof -
  have "address_ok a" if "mapE (dec_Address zero_address) xs = Inr ys" "a \<in> set ys" for xs ys a
    using mapE_Inr_set [OF that] dec_Address_ok [OF _ zero_address_ok] by blast
  then show ?thesis
    using assms fld_Address_ok
    by (auto simp: BP_SetBytes_def bindE_Inr bp_ok_def fld_def [of _ "Suc 0"] split: if_splits)
qed

definition prep_ok :: "PRep \<Rightarrow> bool" where
  "prep_ok p \<longleftrightarrow> (\<forall>d \<in> set (pr_List p). address_ok (di_Address d))"

lemma LoadPRep_ok: "\<forall>p \<in> set (LoadPRep m). prep_ok p"
proof -
  have "address_ok (di_Address d)" if "dec_PRepDelegationInfo x = Inr d" for x d
    using that fld_Address_ok [OF _ zero_address_ok] by (auto simp: dec_PRepDelegationInfo_def bindE_Inr)
  then have "prep_ok p" if "PRep_SetBytes zero_PRep v = Inr p" for v p
    using that
    by (auto simp: PRep_SetBytes_def bindE_Inr prep_ok_def zero_PRep_def fld_def split: if_splits dest!: mapE_Inr_set)
  then show ?thesis
    by (auto simp: LoadPRep_def prep_ok_def zero_PRep_def split: sum.splits)
qed

section \<open>The parts\<close>

fun txs_ok :: "IISSTX \<Rightarrow> (bytes \<times> obj) list \<Rightarrow> bool" where
  "txs_ok tx [] = True"
| "txs_ok tx ((k, v) # es) =
     (case IISSTX_SetBytes tx v of
        Inl _ \<Rightarrow> txs_ok tx es
      | Inr tx' \<Rightarrow>
          (tx_DataType tx' = TXDataTypeDelegate \<longrightarrow>
             (case NewIScoreAccountFromIISS tx' of Some (Some n) \<Rightarrow> no_nil n | _ \<Rightarrow> False)) \<and> txs_ok tx' es)"

lemma delegate_tx_returns:
  assumes "calc_good (txs_ctx st)" "address_ok (tx_Address tx)" "NewIScoreAccountFromIISS tx = Some (Some n)" "no_nil n"
  shows "\<exists>st'. delegate_tx h tx st = Some st' \<and> calc_good (txs_ctx st')"
proof -
  let ?ctx = "txs_ctx st"
  obtain cDB where cDB: "getCalculateDB (DB ?ctx) (tx_Address tx) = Some cDB" "entries_good (calcdb ?ctx cDB)"
    using calc_good_DB [OF assms(1,2)] by blast
  have dbg: "\<not> NeedToUpdateCalcDebugResult ?ctx" using assms(1) by (simp add: calc_good_def)
  have fin: "\<exists>r ia'. calculateIScore ?ctx (n\<lparr>ia_IScore := i\<rparr>) h = Some (r, ia', ?ctx) \<and>
      calc_good (set_calcdb cDB (Bucket_Set (calcdb ?ctx cDB) PrefixIScore (IScoreAccount_ID ia') (IScoreAccount_Bytes ia')) ?ctx)" for i
    using calculateIScore_good [OF dbg, of "n\<lparr>ia_IScore := i\<rparr>" h] assms(4) calc_good_put_account [OF assms(1) cDB(1)]
    by (auto simp: no_nil_def)
  have n0: "n\<lparr>ia_IScore := 0\<rparr> = n" using NewIScoreAccountFromIISS_fields [OF assms(3)] by simp
  show ?thesis
  proof (cases "kv_get (tx_Address tx) (calcdb ?ctx cDB)")
    case None
    then show ?thesis using fin [of 0] cDB(1) assms(3) unfolding n0 by (auto simp: delegate_tx_def old_iscore_get Let_def)
  next
    case (Some data)
    show ?thesis
    proof (cases "NewIScoreAccountFromBytes data")
      case (Inl e)
      then show ?thesis using cDB(1) assms(1,3) Some by (auto simp: delegate_tx_def old_iscore_get Let_def)
    next
      case (Inr ia)
      then have "no_nil (ia\<lparr>ia_BlockHeight := tx_BlockHeight tx, ia_IScore := 0\<rparr>)"
        using entry_good_get [OF cDB(2) Some] by (simp add: no_nil_def)
      then obtain r0 ia0 where "calculateIScore ?ctx (ia\<lparr>ia_BlockHeight := tx_BlockHeight tx, ia_IScore := 0\<rparr>) h = Some (r0, ia0, ?ctx)"
        using calculateIScore_good [OF dbg] by blast
      then show ?thesis using fin [of "ia_IScore ia - ia_IScore ia0"] cDB(1) assms(1,3) Some Inr
        by (auto simp: delegate_tx_def old_iscore_get Let_def)
    qed
  qed
qed

lemma iisstx_loop_returns:
  assumes "txs_ok tx es" "address_ok (tx_Address tx)" "calc_good (txs_ctx st)"
  shows "\<exists>st'. iisstx_loop h tx es st = Some st' \<and> calc_good (txs_ctx st')"
  using assms
proof (induction es arbitrary: tx st)
  case (Cons e es)
  obtain k v where e: "e = (k, v)" by (cases e)
  show ?case
  proof (cases "IISSTX_SetBytes tx v")
    case (Inl x)
    then show ?thesis using Cons by (simp add: e)
  next
    case (Inr tx')
    then have ok: "address_ok (tx_Address tx')" "txs_ok tx' es" using Cons.prems IISSTX_address_ok [OF Inr] by (auto simp: e)
    show ?thesis
    proof (cases "tx_DataType tx' = TXDataTypeDelegate")
      case True
      then obtain n where "NewIScoreAccountFromIISS tx' = Some (Some n)" "no_nil n"
        using Cons.prems(1) Inr by (auto simp: e split: option.splits)
      from delegate_tx_returns [OF Cons.prems(3) ok(1) this, of h] Cons.IH [OF ok(2,1)] True Inr
      show ?thesis by (auto simp: e)
    qed (use Cons.IH [OF ok(2,1) Cons.prems(3)] Inr in \<open>simp add: e\<close>)
  qed
qed simp

lemma keys_add_reward: "fst ` set (map_add_reward r a m) = insert a (fst ` set m)"
  by (simp add: map_add_reward_def dom_update)

lemma ball_add_reward: "(\<forall>p \<in> set (map_add_reward r a m). P (fst p)) \<longleftrightarrow> P a \<and> (\<forall>p \<in> set m. P (fst p))"
proof -
  have "(\<forall>x \<in> fst ` set (map_add_reward r a m). P x) \<longleftrightarrow> P a \<and> (\<forall>x \<in> fst ` set m. P x)"
    unfolding keys_add_reward by auto
  then show ?thesis by simp
qed

lemma ball_fold_reward:
  "(\<forall>p \<in> set (fold (map_add_reward r) as m). P (fst p)) \<longleftrightarrow> (\<forall>a \<in> set as. P a) \<and> (\<forall>p \<in> set m. P (fst p))"
  by (induction as arbitrary: m) (auto simp: ball_add_reward)

lemma bp_loop_returns:
  assumes "\<not> NeedToUpdateCalcDebugResult ctx" "bp_ok bp" "\<forall>p \<in> set m. address_ok (fst p)"
  shows "\<exists>m'. bp_loop bp es (m, ctx) = Some (m', ctx) \<and> (\<forall>p \<in> set m'. address_ok (fst p))"
  using assms(2,3)
proof (induction es arbitrary: bp m)
  case (Cons e es)
  obtain k v where e: "e = (k, v)" by (cases e)
  show ?case
  proof (cases "BP_SetBytes bp v")
    case (Inl x)
    then show ?thesis using Cons by (simp add: e)
  next
    case (Inr bp0)
    let ?bp = "bp0\<lparr>bp_BlockHeight := BytesToUint64 (drop (length PrefixIISSBPInfo) k)\<rparr>"
    have ok: "bp_ok ?bp" using BP_SetBytes_ok [OF Inr Cons.prems(1)] by (simp add: bp_ok_def)
    have "WriteBeta1Info p b ctx = Some ctx" for p b using assms(1) by (simp add: WriteBeta1Info_def)
    moreover have "\<forall>p \<in> set (map_add_reward r (bp_Generator bp0) m). address_ok (fst p)"
      "\<forall>p \<in> set (fold (map_add_reward r') (bp_Validator bp0) (map_add_reward r (bp_Generator bp0) m)). address_ok (fst p)" for r r'
      using Cons.prems(2) ok by (simp_all add: ball_add_reward ball_fold_reward bp_ok_def)
    ultimately show ?thesis
      using Cons.IH [OF ok] Cons.prems(2) Inr
      by (simp add: e Let_def split: option.split)
  qed
qed simp

lemma bp_write_returns:
  assumes "\<forall>p \<in> set rs. address_ok (fst p)" "calc_good (pay_ctx st)"
  shows "\<exists>st'. bp_write h rs st = Some st' \<and> calc_good (pay_ctx st')"
  using assms
proof (induction rs arbitrary: st)
  case (Cons r rs)
  obtain a reward where r: "r = (a, reward)" by (cases r)
  obtain cDB where cDB: "getCalculateDB (DB (pay_ctx st)) a = Some cDB" "entries_good (calcdb (pay_ctx st) cDB)"
    using calc_good_DB [OF Cons.prems(2), of a] Cons.prems(1) by (auto simp: r)
  note put = calc_good_put_account [OF Cons.prems(2) cDB(1)]
  show ?case
  proof (cases "kv_get a (calcdb (pay_ctx st) cDB)")
    case None
    then show ?thesis using Cons cDB(1) put by (simp add: r old_iscore_get no_nil_def zero_IScoreAccount_def Let_def)
  next
    case (Some data)
    then show ?thesis
      using Cons cDB(1) put entry_good_get [OF cDB(2) Some]
      by (cases "NewIScoreAccountFromBytes data") (simp_all add: r old_iscore_get no_nil_def Let_def)
  qed
qed simp

lemma prep_period_returns:
  assumes "\<not> NeedToUpdateCalcDebugResult ctx" "pr_TotalDelegation prep \<noteq> 0"
  shows "\<exists>rs'. prep_period prep s e gv dgs rs ctx = Some (rs', ctx)"
  using assms
proof (induction prep s e gv dgs rs ctx rule: prep_period.induct)
  case (1 prep s e gv dgInfo dgs iScore h rs ctx)
  obtain r where r: "big_div (uint (e - s) * gv_PRepReward gv * di_DelegatedAmount dgInfo) (pr_TotalDelegation prep) = Some r"
    using "1.prems"(2) by (simp add: big_div_def)
  have w: "WriteBeta2Info dgInfo prep s e (big_uint64 (gv_PRepReward gv)) ctx = Some ctx"
    using "1.prems"(1) by (simp add: WriteBeta2Info_def)
  show ?case using "1.IH" [OF HOL.refl r w "1.prems"] r w by (auto simp: Let_def)
qed auto

lemma prep_gv_loop_returns:
  assumes "\<not> NeedToUpdateCalcDebugResult ctx" "pr_TotalDelegation prep \<noteq> 0"
  shows "\<exists>rs'. prep_gv_loop prep s e gvs (rs, ctx) = Some (rs', ctx)"
proof (induction gvs arbitrary: rs)
  case (Cons gv gvs)
  have "\<exists>rs'. prep_period prep s' e' gv (pr_List prep) rs ctx = Some (rs', ctx)" for s' e'
    by (rule prep_period_returns [OF assms])
  then obtain f where "\<And>s' e'. prep_period prep s' e' gv (pr_List prep) rs ctx = Some (f s' e', ctx)" by metis
  then show ?case using Cons.IH unfolding prep_gv_loop.simps Let_def by simp
qed simp

lemma prep_write_returns:
  assumes "\<forall>p \<in> set rs. address_ok (di_Address (fst p))" "calc_good (ps_ctx st)"
  shows "\<exists>st'. prep_write e h rs st = Some st' \<and> calc_good (ps_ctx st')"
  using assms
proof (induction rs arbitrary: st)
  case (Cons r rs)
  obtain dg i bh where r: "r = (dg, i, bh)" by (cases r)
  obtain cDB where cDB: "getCalculateDB (DB (ps_ctx st)) (di_Address dg) = Some cDB" "entries_good (calcdb (ps_ctx st) cDB)"
    using calc_good_DB [OF Cons.prems(2), of "di_Address dg"] Cons.prems(1) by (auto simp: r)
  note put = calc_good_put_account [OF Cons.prems(2) cDB(1)]
  show ?case
  proof (cases "kv_get (di_Address dg) (calcdb (ps_ctx st) cDB)")
    case None
    then show ?thesis using Cons cDB(1) put by (simp add: r old_iscore_get no_nil_def zero_IScoreAccount_def Let_def)
  next
    case (Some data)
    then show ?thesis
      using Cons cDB(1) put entry_good_get [OF cDB(2) Some]
      by (cases "NewIScoreAccountFromBytes data") (simp_all add: r old_iscore_get no_nil_def Let_def)
  qed
qed simp

lemma setPRepReward_returns:
  assumes "calc_good ctx" "prep_ok prep" "pr_TotalDelegation prep \<noteq> 0"
  shows "\<exists>n r b ctx'. setPRepReward shake ctx s e prep h = Some (n, r, b, ctx') \<and> calc_good ctx'"
proof -
  obtain rs where g: "prep_gv_loop prep s e (GV ctx) (replicate (length (pr_List prep)) (0, 0), ctx) = Some (rs, ctx)"
    using prep_gv_loop_returns [OF _ assms(3), of ctx] assms(1) unfolding calc_good_def by blast
  have "\<forall>p \<in> set (zip (pr_List prep) rs). address_ok (di_Address (fst p))"
    using assms(2) by (auto simp: prep_ok_def dest: set_zip_leftD)
  from prep_write_returns [OF this, of "\<lparr>ps_new = 0, ps_total = 0, ps_hash = [], ps_ctx = ctx\<rparr>" e h] assms(1) g
  show ?thesis by (auto simp: setPRepReward_def)
qed

lemma prep_loop_returns:
  assumes "\<forall>p \<in> set preps. prep_ok p" "calc_good (ps_ctx st)"
  shows "\<exists>st'. prep_loop shake s e preps st = Some st' \<and> calc_good (ps_ctx st')"
  using assms
proof (induction preps arbitrary: st)
  case (Cons prep preps)
  show ?case
  proof (cases "pr_TotalDelegation prep = 0")
    case True
    then show ?thesis using Cons by simp
  next
    case False
    have "\<exists>n r b ctx'. setPRepReward shake (ps_ctx st) s' e' prep e = Some (n, r, b, ctx') \<and> calc_good ctx'" for s' e'
      using Cons.prems False by (intro setPRepReward_returns) auto
    then obtain n r b c where p: "\<And>s' e'. setPRepReward shake (ps_ctx st) s' e' prep e = Some (n s' e', r s' e', b s' e', c s' e')"
      "\<And>s' e'. calc_good (c s' e')" by metis
    show ?thesis using Cons False p unfolding prep_loop.simps Let_def by simp
  qed
qed simp

section \<open>The shards\<close>

definition op_good :: "obj batch_op \<Rightarrow> bool" where
  "op_good b \<longleftrightarrow> (case b of BatchPut k v \<Rightarrow> entry_good v | BatchDelete _ \<Rightarrow> True)"

lemma entries_good_Batch:
  "entries_good m \<Longrightarrow> \<forall>b \<in> set bs. op_good b \<Longrightarrow> entries_good (Batch_Write m bs)"
proof (induction bs arbitrary: m)
  case (Cons b bs)
  have "entries_good (kv_del k m)" for k using Cons.prems(1) by (simp add: entries_good_def kv_del_def)
  then have "entries_good (batch_apply b m)"
    using Cons.prems by (cases b) (auto simp: op_good_def)
  with Cons show ?case by (simp add: Batch_Write_def)
qed simp

definition shard_good :: "shard_state \<Rightarrow> bool" where
  "shard_good st \<longleftrightarrow> entries_good (sh_db st) \<and> (\<forall>b \<in> set (sh_batch st). op_good b)"

definition shard_entries_ok :: "obj kv \<Rightarrow> bool" where
  "shard_entries_ok m \<longleftrightarrow> (\<forall>p \<in> set m. fst p \<noteq> [] \<and> entry_good (snd p))"

lemma NewAddress_returns: "k \<noteq> [] \<Longrightarrow> \<exists>a. NewAddress k = Some a"
  by (cases k) (auto simp: NewAddress_def SetBytes_def split: if_splits)

lemma calculateDB_loop_returns:
  assumes "\<not> NeedToUpdateCalcDebugResult ctx" "shard_entries_ok es" "sh_ctx st = ctx" "shard_good st"
  shows "\<exists>e st'. calculateDB_loop quit h bc k es st = Some (e, st') \<and> sh_ctx st' = ctx \<and> shard_good st'"
  using assms(2-4)
proof (induction es arbitrary: k st)
  case (Cons p es)
  obtain ikey v where p: "p = (ikey, v)" by (cases p)
  have es: "shard_entries_ok es" "ikey \<noteq> []" "entry_good v" using Cons.prems(1) by (auto simp: shard_entries_ok_def p)
  obtain addr where addr: "NewAddress ikey = Some addr" using NewAddress_returns [OF es(2)] by blast
  show ?case
  proof (cases "NewIScoreAccountFromBytes v")
    case (Inl e)
    then show ?thesis using Cons.prems by (simp add: p)
  next
    case (Inr ia0)
    then have "no_nil (ia0\<lparr>ia_Address := addr\<rparr>)" using es(3) by (simp add: entry_good_def no_nil_def)
    then obtain r ia' where c: "calculateIScore ctx (ia0\<lparr>ia_Address := addr\<rparr>) h = Some (r, ia', ctx)" "no_nil ia'"
      using calculateIScore_good [OF assms(1)] by blast
    have g: "entries_good (sh_db st)" "\<forall>b \<in> set (sh_batch st @ [BatchPut ikey (IScoreAccount_Bytes ia')]). op_good b"
      using Cons.prems(3) c(2) by (auto simp: shard_good_def op_good_def)
    have g2: "entries_good (Batch_Write (sh_db st) (sh_batch st @ [BatchPut ikey (IScoreAccount_Bytes ia')]))"
      "entries_good (Bucket_Set (sh_db st) [] ikey (IScoreAccount_Bytes ia'))"
      using entries_good_Batch [OF g] g(1) c(2) by (simp_all add: Bucket_Set_def)
    show ?thesis
      using Cons.IH [OF es(1)] Cons.prems(2,3) Inr addr c(1) g g2
      by (cases r) (simp_all add: p PrefixIScore_def Let_def shard_good_def)
  qed
qed simp

lemma calculateDB_returns:
  assumes "\<not> NeedToUpdateCalcDebugResult ctx" "shard_entries_ok rdb" "entries_good wdb"
  shows "\<exists>n st hash db. calculateDB shake quit rdb wdb ctx h bc = Some (n, st, hash, db, ctx) \<and> entries_good db"
proof -
  let ?st = "\<lparr>sh_entries = 0, sh_count = 0, sh_hash = [], sh_stats = zero_Statistics, sh_batch = [], sh_db = wdb, sh_ctx = ctx\<rparr>"
  obtain e st' where r: "calculateDB_loop quit h bc 0 rdb ?st = Some (e, st')" "sh_ctx st' = ctx" "shard_good st'"
    using calculateDB_loop_returns [OF assms(1,2), of ?st quit h bc 0] assms(3) by (auto simp: shard_good_def)
  then show ?thesis
    using entries_good_Batch [of "sh_db st'" "sh_batch st'"]
    by (cases e) (simp_all add: calculateDB_def Iterator_New_def shard_good_def)
qed

lemma shards_loop_returns:
  assumes "\<not> NeedToUpdateCalcDebugResult ctx" "set cDBs \<subseteq> N" "set qs \<inter> N = {}" "i + length cDBs \<le> length qs"
    and "\<forall>q \<in> set qs. shard_entries_ok (calcdb ctx q)" "\<forall>n \<in> N. entries_good (calcdb ctx n)"
  shows "\<exists>rs ctx'. shards_loop shake quits h qs i cDBs ctx = Some (rs, ctx') \<and> (\<forall>n \<in> N. entries_good (calcdb ctx' n))"
  using assms
proof (induction cDBs arbitrary: i ctx)
  case (Cons cDB cDBs)
  have i: "i < length qs" using Cons.prems(4) by simp
  obtain n st hash db where c: "calculateDB shake (quits i) (calcdb ctx (qs ! i)) (calcdb ctx cDB) ctx h writeBatchCount = Some (n, st, hash, db, ctx)"
    and db: "entries_good db"
    using calculateDB_returns [OF Cons.prems(1), of "calcdb ctx (qs ! i)" "calcdb ctx cDB"] Cons.prems(2,5,6) i by force
  have "\<not> NeedToUpdateCalcDebugResult (set_calcdb cDB db ctx)"
    using Cons.prems(1) by (simp add: NeedToUpdateCalcDebugResult_def set_calcdb_def)
  moreover have "q \<noteq> cDB" if "q \<in> set qs" for q using that Cons.prems(2,3) by auto
  ultimately have "\<exists>rs ctx'. shards_loop shake quits h qs (Suc i) cDBs (set_calcdb cDB db ctx) = Some (rs, ctx') \<and>
      (\<forall>n \<in> N. entries_good (calcdb ctx' n))"
    using Cons.prems db by (intro Cons.IH) auto
  then show ?case using c i by auto
qed auto

text \<open>What the parameter \<open>order\<close> stands for: the entries of the map in some order.\<close>

definition order_ok :: "(reward_map \<Rightarrow> reward_map) \<Rightarrow> bool" where
  "order_ok order \<longleftrightarrow> (\<forall>m. mset (order m) = mset m)"

lemma run_calculation_returns:
  assumes "idb_ok (DB ctx)" "\<not> NeedToUpdateCalcDebugResult ctx" "order_ok order"
    and "\<forall>q \<in> set (getQueryDBList (DB ctx)). shard_entries_ok (calcdb ctx q)"
    and "\<forall>n \<in> set (GetCalcDBList (DB ctx)). entries_good (calcdb ctx n)"
    and "txs_ok zero_IISSTX (Iterator_prefix iissDB PrefixIISSTX)" "\<forall>p \<in> set (PReps ctx). prep_ok p"
  shows "\<exists>st hash ctx'. run_calculation shake order None iissDB h ctx = Some (None, Some st, Some hash, ctx')"
proof -
  let ?N = "set (GetCalcDBList (DB ctx))"
  have dj: "set (getQueryDBList (DB ctx)) \<inter> ?N = {}"
    using account_names_disjoint [OF postfix_neq(1)] by (simp add: idb_ok_lists [OF assms(1)])
  obtain shards ctx1 where sh: "shards_loop shake (\<lambda>_ _. False) h (getQueryDBList (DB ctx)) 0 (GetCalcDBList (DB ctx)) ctx = Some (shards, ctx1)"
    and g1: "\<forall>n \<in> ?N. entries_good (calcdb ctx1 n)"
    using shards_loop_returns [OF assms(2) subset_refl dj _ assms(4,5), of 0 shake "\<lambda>_ _. False" h]
    by (auto simp: idb_ok_lists [OF assms(1)])
  have f1: "calc_frame ?N ctx ctx1" using shards_loop_frame [OF sh] by simp
  have good1: "calc_good ctx1"
    using frame_idb_ok [OF f1 assms(1)] assms(2) g1 frame_list(1) [OF f1] by (simp add: calc_good_def)
  obtain n1 r1 h1 ctx2 where tx: "calculateIISSTX shake ctx1 iissDB h = Some (n1, r1, h1, ctx2)" "calc_good ctx2"
    using iisstx_loop_returns [OF assms(6), of "\<lparr>txs_stats = 0, txs_new = 0, txs_hash = [], txs_ctx = ctx1\<rparr>" h] good1 zero_address_ok
    by (auto simp: calculateIISSTX_def zero_IISSTX_def)
  obtain m where m: "bp_loop zero_BP (Iterator_prefix iissDB PrefixIISSBPInfo) ([], ctx2) = Some (m, ctx2)" "\<forall>p \<in> set m. address_ok (fst p)"
    using bp_loop_returns [of ctx2 zero_BP "[]" "Iterator_prefix iissDB PrefixIISSBPInfo"] tx(2) zero_address_ok
    by (auto simp: calc_good_def bp_ok_def zero_BP_def)
  have "set (order m) = set m" using assms(3) by (metis order_ok_def set_mset_mset)
  with m(2) obtain st where "bp_write h (order m) \<lparr>pay_new = 0, pay_total = 0, pay_accounts = [], pay_ctx = ctx2\<rparr> = Some st" "calc_good (pay_ctx st)"
    using bp_write_returns [of "order m" "\<lparr>pay_new = 0, pay_total = 0, pay_accounts = [], pay_ctx = ctx2\<rparr>" h] tx(2) by auto
  then obtain n2 r2 h2 ctx3 where bp: "calculateIISSBlockProduce shake order ctx2 iissDB h = Some (n2, r2, h2, ctx3)" "calc_good ctx3"
    using m(1) by (simp add: calculateIISSBlockProduce_def)
  have "PReps ctx3 = PReps ctx"
    using f1 parts_pay(1) [OF tx(1)] parts_pay(2) [OF bp(1)] by (simp add: pays_def calc_frame_def)
  then obtain n3 r3 h3 ctx4 where pr: "calculatePRepReward shake ctx3 h = Some (n3, r3, h3, ctx4)"
    using prep_loop_returns [of "PReps ctx3" "\<lparr>ps_new = 0, ps_total = 0, ps_hash = [], ps_ctx = ctx3\<rparr>" shake "getCalcDoneBH (DB ctx3)" h]
      assms(7) bp(2) by (auto simp: calculatePRepReward_def)
  show ?thesis by (simp add: run_calculation_def sh tx(1) bp(1) pr Let_def)
qed

section \<open>DoCalculate\<close>

lemma set_delete_old: "set (fst (delete_old hf kf bid h xs db)) \<subseteq> set xs"
  by (auto simp: delete_old_def split: option.splits if_splits dest: in_set_dropD)

lemma Update_debug [simp]:
  "NeedToUpdateCalcDebugResult (UpdateGovernanceVariable l ctx) = NeedToUpdateCalcDebugResult ctx"
  "NeedToUpdateCalcDebugResult (UpdatePRep p ctx) = NeedToUpdateCalcDebugResult ctx"
  "NeedToUpdateCalcDebugResult (UpdatePRepCandidate m ctx) = NeedToUpdateCalcDebugResult ctx"
  by (simp_all add: NeedToUpdateCalcDebugResult_def UpdateGovernanceVariable_def UpdatePRep_def UpdatePRepCandidate_def
      Let_def split: prod.splits)

lemma Update_PReps:
  "set (PReps (UpdatePRepCandidate m (UpdatePRep p (UpdateGovernanceVariable l ctx)))) \<subseteq> set (PReps ctx) \<union> set p"
proof -
  have "PReps (UpdateGovernanceVariable l ctx) = PReps ctx" by (simp add: UpdateGovernanceVariable_def split: prod.splits)
  moreover have "set (PReps (UpdatePRep p c)) \<subseteq> set (PReps c) \<union> set p" for c
  proof -
    have "PReps (UpdatePRep p c) = fst (delete_old pr_BlockHeight PRep_ID PrefixPRep (getPrevCalcDoneBH (DB c)) (PReps c @ p)
        (fold (\<lambda>prep db. Bucket_Set db PrefixPRep (PRep_ID prep) (PRep_Bytes prep)) p (management (DB c))))"
      by (simp add: UpdatePRep_def Let_def split: prod.splits)
    moreover have "set (fst (delete_old pr_BlockHeight PRep_ID PrefixPRep h (PReps c @ p) db)) \<subseteq> set (PReps c) \<union> set p" for h db
      using set_delete_old [of pr_BlockHeight PRep_ID PrefixPRep h "PReps c @ p" db] by simp
    ultimately show ?thesis by simp
  qed
  moreover have "PReps (UpdatePRepCandidate m c) = PReps c" for c by (simp add: UpdatePRepCandidate_def split: prod.splits)
  ultimately show ?thesis by metis
qed

text \<open>
  Whatever backups there are, and whether or not the databases have been toggled for this block
  before, \<^verbatim>\<open>resetAccountDB\<close> succeeds and each account database is as it was or empty.
\<close>

lemma reset_loop_keeps:
  assumes "\<And>j. k \<le> j \<Longrightarrow> j < k + n \<Longrightarrow> map_of d (CalcDir (int j + 1) (DBCount i) p) \<noteq> None" "distinct (map fst d)"
  shows "\<exists>d'. reset_loop i h p k n d = (None, d', map (\<lambda>j. CalcDir (int j + 1) (DBCount i) p) [k..<k + n]) \<and>
    distinct (map fst d') \<and>
    (\<forall>x. \<not> is_backup x \<and> map_of d x \<noteq> None \<longrightarrow> map_of d' x = map_of d x \<or> map_of d' x = Some [])"
  using assms
proof (induction n arbitrary: k d)
  case (Suc n)
  define db where "db = CalcDir (int k + 1) (DBCount i) p"
  define bk where "bk = BackupDir h (int k + 1)"
  obtain m where m: "map_of d db = Some m" using Suc.prems(1) [of k] by (auto simp: db_def)
  obtain d1 where d1: "(if map_of d bk = None then disk_rename db bk d else Inr d) = Inr d1" "distinct (map fst d1)"
    "\<forall>x. \<not> is_backup x \<longrightarrow> map_of d1 x = map_of d x \<or> x = db \<and> map_of d1 x = None"
  proof (cases "map_of d bk")
    case None
    from disk_rename_map_of [OF m None] obtain d1 where d1: "disk_rename db bk d = Inr d1" "distinct (map fst d) \<longrightarrow> distinct (map fst d1)"
      "\<forall>x. map_of d1 x = (if x = bk then Some m else if x = db then None else map_of d x)" by blast
    then show ?thesis using that [of d1] Suc.prems(2) None by (auto simp: bk_def)
  next
    case (Some b)
    then show ?thesis using that [of d] Suc.prems(2) by simp
  qed
  define d2 where "d2 = disk_open db d1"
  have d2: "map_of d2 x = map_of d x \<or> map_of d2 x = Some []" if "\<not> is_backup x" "map_of d x \<noteq> None" for x
    using d1(3) [rule_format, OF that(1)] that(2) by (auto simp: d2_def disk_open_map_of)
  have dist2: "distinct (map fst d2)" using d1(2) by (simp add: d2_def distinct_disk_open)
  have "map_of d2 (CalcDir (int j + 1) (DBCount i) p) \<noteq> None" if "Suc k \<le> j" "j < Suc k + n" for j
    using d2 [of "CalcDir (int j + 1) (DBCount i) p"] Suc.prems(1) [of j] that by auto
  from Suc.IH [OF this dist2] obtain d' where
    IH: "reset_loop i h p (Suc k) n d2 = (None, d', map (\<lambda>j. CalcDir (int j + 1) (DBCount i) p) [Suc k..<Suc k + n])"
    "distinct (map fst d')" "\<forall>x. \<not> is_backup x \<and> map_of d2 x \<noteq> None \<longrightarrow> map_of d' x = map_of d2 x \<or> map_of d' x = Some []"
    by blast
  have "reset_loop i h p k (Suc n) d = (None, d', map (\<lambda>j. CalcDir (int j + 1) (DBCount i) p) [k..<k + Suc n])"
    using IH(1) d1(1) by (simp add: db_def [symmetric] bk_def [symmetric] d2_def [symmetric] upt_conv_Cons del: upt_Suc)
  moreover have "map_of d' x = map_of d x \<or> map_of d' x = Some []" if "\<not> is_backup x" "map_of d x \<noteq> None" for x
    using d2 [OF that] IH(3) [rule_format, of x] that by auto
  ultimately show ?case using IH(2) by blast
qed simp

lemma idb_ok_entry:
  "idb_ok idb \<Longrightarrow> x \<in> set (account_names idb 0) \<union> set (account_names idb 1) \<Longrightarrow> map_of (dirs idb) x \<noteq> None"
  unfolding idb_ok_def by blast

lemma resetAccountDB_keeps:
  assumes ok: "idb_ok idb"
  shows "\<exists>idb'. resetAccountDB h old idb = (None, idb') \<and> idb_ok idb' \<and> info idb' = info idb \<and>
    (\<forall>n \<in> set (account_names idb 0) \<union> set (account_names idb 1). disk_read (dirs idb') n \<in> {disk_read (dirs idb) n, []})"
proof -
  define n where "n = nat (DBCount (info idb))"
  define p where "p = calc_postfix idb"
  define d0 where "d0 = fold AList.delete (disk_glob (is_backup_of old) (dirs idb)) (dirs idb)"
  have d0: "map_of d0 x = map_of (dirs idb) x" if "\<not> is_backup x" for x
    using that by (cases x) (auto simp: d0_def fold_delete_map_of set_disk_glob simp del: map_of_eq_Some_iff)
  have dist0: "distinct (map fst d0)" unfolding d0_def using ok by (intro distinct_fold_delete) (simp add: idb_ok_def)
  have nb: "\<not> is_backup x" if "x \<in> set (account_names idb 0) \<union> set (account_names idb 1)" for x
    using that by (auto simp: account_names_def)
  have ex: "map_of d0 x \<noteq> None" if "x \<in> set (account_names idb 0) \<union> set (account_names idb 1)" for x
    unfolding d0 [OF nb [OF that]] by (rule idb_ok_entry [OF ok that])
  have "map_of d0 (CalcDir (int j + 1) (DBCount (info idb)) p) \<noteq> None" if "0 \<le> j" "j < 0 + n" for j
    using that by (intro ex) (auto simp: account_names_def n_def p_def calc_postfix_def)
  from reset_loop_keeps [where k = 0 and n = n and i = "info idb" and p = p, OF this dist0, where h = h] obtain d' where
    d': "reset_loop (info idb) h p 0 n d0 = (None, d', account_names idb p)" "distinct (map fst d')"
    "\<forall>x. \<not> is_backup x \<and> map_of d0 x \<noteq> None \<longrightarrow> map_of d' x = map_of d0 x \<or> map_of d' x = Some []"
    unfolding account_names_def n_def [symmetric] by (simp only: add_0) blast
  define idb' where "idb' = (if QueryDBIsZero (info idb) then idb\<lparr>dirs := d', Account1 := account_names idb p\<rparr>
      else idb\<lparr>dirs := d', Account0 := account_names idb p\<rparr>)"
  have run: "resetAccountDB h old idb = (None, idb')"
    using d'(1) ok
    by (simp add: resetAccountDB_def Let_def d0_def [symmetric] idb'_def idb_ok_lists [OF ok] n_def p_def calc_postfix_def)
  have f: "info idb' = info idb" "dirs idb' = d'" by (simp_all add: idb'_def)
  have keeps: "map_of d' x = map_of (dirs idb) x \<or> map_of d' x = Some []"
    if "x \<in> set (account_names idb 0) \<union> set (account_names idb 1)" for x
    using d'(3) ex [OF that] nb [OF that] d0 by metis
  have names: "account_names idb' = account_names idb" by (rule account_names_cong) (simp add: f)
  have "map_of d' x \<noteq> None" if "x \<in> set (account_names idb 0) \<union> set (account_names idb 1)" for x
    using keeps [OF that] idb_ok_entry [OF ok that] by auto
  then have "idb_ok idb'"
    using ok d'(2) unfolding idb_ok_def names f by (simp add: idb'_def p_def calc_postfix_def)
  then show ?thesis using run f keeps by (fastforce simp: disk_read_def)
qed

lemma DoCalculate_returns:
  assumes ok: "idb_ok (DB ctx)" and dbg: "\<not> NeedToUpdateCalcDebugResult ctx" and ord: "order_ok order"
    and calc: "isReloadRequest (cq_BlockHeight req) msg_id \<or> \<not> isCalculating (DB ctx)"
    and load: "LoadIISSData (iiss (cq_Path req)) = Some (header, gvl, prl)"
    and bh: "bh = (if ih_BlockHeight header = 0 then CalcDone (info (DB ctx)) + 1 else ih_BlockHeight header)"
    and h: "CalcDone (info (DB ctx)) < bh"
    and ents: "\<forall>n \<in> set (account_names (DB ctx) 0) \<union> set (account_names (DB ctx) 1). shard_entries_ok (calcdb ctx n)"
    and tx: "txs_ok zero_IISSTX (Iterator_prefix (iiss (cq_Path req)) PrefixIISSTX)" and pr: "\<forall>p \<in> set (PReps ctx). prep_ok p"
  shows "\<exists>out. DoCalculate shake order None iiss ctx req conn msg_id = Some out \<and> co_err out = None \<and> co_height out = bh"
proof -
  define idb1 where "idb1 = setCalculatingBH bh (DB ctx)"
  define idb2 where "idb2 = toggleAccountDB (bh + 1) idb1"
  define idb3 where "idb3 = snd (resetAccountDB bh (getCalcDoneBH idb2) idb2)"
  define ctx2 where "ctx2 = UpdatePRepCandidate (iiss (cq_Path req)) (UpdatePRep prl
      (UpdateGovernanceVariable gvl (ctx\<lparr>DB := idb3, Revision := ih_Revision header\<rparr>)))"
  have ok2: "idb_ok idb2" using ok by (simp add: idb1_def idb2_def)
  have i2: "dirs idb2 = dirs (DB ctx)" "DBCount (info idb2) = DBCount (info (DB ctx))"
    by (simp_all add: idb1_def idb2_def setCalculatingBH_def toggle_fields)
  have names2: "account_names idb2 = account_names (DB ctx)" by (rule account_names_cong) (simp add: i2)
  obtain idb3' where "resetAccountDB bh (getCalcDoneBH idb2) idb2 = (None, idb3')" and r: "idb_ok idb3'" "info idb3' = info idb2"
    and d: "\<forall>n \<in> set (account_names (DB ctx) 0) \<union> set (account_names (DB ctx) 1). disk_read (dirs idb3') n \<in> {disk_read (dirs (DB ctx)) n, []}"
    using resetAccountDB_keeps [OF ok2, of bh "getCalcDoneBH idb2"] unfolding names2 i2 by blast
  then have e3: "idb3 = idb3'" by (simp add: idb3_def)
  have core: "dirs (DB ctx2) = dirs idb3'" "info (DB ctx2) = info idb3'" "Account0 (DB ctx2) = Account0 idb3'" "Account1 (DB ctx2) = Account1 idb3'"
    by (simp_all add: ctx2_def e3)
  have ok3: "idb_ok (DB ctx2)" using core by (intro idb_ok_cong [OF r(1)]) auto
  have names3: "account_names (DB ctx2) = account_names (DB ctx)" using core(2) r(2) i2 by (intro account_names_cong) simp
  have empty: "shard_entries_ok []" by (simp add: shard_entries_ok_def)
  have all: "shard_entries_ok (calcdb ctx2 n)" if "n \<in> set (account_names (DB ctx) 0) \<union> set (account_names (DB ctx) 1)" for n
    using d [rule_format, OF that] ents that empty by (auto simp: calcdb_def core)
  have lists: "set (getQueryDBList (DB ctx2)) \<union> set (GetCalcDBList (DB ctx2)) = set (account_names (DB ctx) 0) \<union> set (account_names (DB ctx) 1)"
    by (auto simp: idb_ok_lists [OF ok3] query_postfix_def calc_postfix_def names3)
  have q: "\<forall>n \<in> set (getQueryDBList (DB ctx2)). shard_entries_ok (calcdb ctx2 n)"
    and e: "\<forall>n \<in> set (GetCalcDBList (DB ctx2)). entries_good (calcdb ctx2 n)"
    using all unfolding lists [symmetric] by (auto simp: shard_entries_ok_def entries_good_def)
  have dbg2: "\<not> NeedToUpdateCalcDebugResult ctx2"
    using dbg by (simp add: ctx2_def) (simp add: NeedToUpdateCalcDebugResult_def)
  have "prl = LoadPRep (iiss (cq_Path req))" using load by (auto simp: LoadIISSData_def split: sum.splits)
  then have "\<forall>p \<in> set (PReps ctx2). prep_ok p"
    using pr LoadPRep_ok Update_PReps [of "iiss (cq_Path req)" prl gvl "ctx\<lparr>DB := idb3, Revision := ih_Revision header\<rparr>"]
    unfolding ctx2_def by fastforce
  then obtain st hash ctx4 where run: "run_calculation shake order None (iiss (cq_Path req)) bh ctx2 = Some (None, Some st, Some hash, ctx4)"
    using run_calculation_returns [OF ok3 dbg2 ord q e tx] by blast
  have "\<not> NeedToUpdateCalcDebugResult ctx4"
    using run_calculation_frame [OF run] frame_idb_ok(2) [OF _ ok3] dbg2 by blast
  then obtain ctx5 where fin: "finish_calculation bh (Some st) hash ctx4 = Some ctx5" by (simp add: finish_calculation_def Let_def)
  have ini: "InitCalcDebugResult bh (cq_BlockHash req) ctx2 = Some ctx2" using dbg2 by (simp add: InitCalcDebugResult_def)
  have hh: "(if ih_BlockHeight header = 0 then getCalcDoneBH (DB ctx) + 1 else ih_BlockHeight header) = bh"
    by (simp add: bh getCalcDoneBH_def)
  have cdone: "getCalcDoneBH idb1 = CalcDone (info (DB ctx))" by (simp add: idb1_def setCalculatingBH_def getCalcDoneBH_def)
  have lt: "bh \<noteq> CalcDone (info (DB ctx))" "\<not> bh < CalcDone (info (DB ctx))" using h by auto
  have ref: "\<not> (\<not> isReloadRequest (cq_BlockHeight req) msg_id \<and> isCalculating (DB ctx))" using calc by blast
  show ?thesis
    unfolding DoCalculate_def Let_def if_not_P [OF ref] load option.case prod.case hh idb1_def [symmetric] cdone
      if_not_P [OF lt(1)] if_not_P [OF lt(2)] idb2_def [symmetric] idb3_def [symmetric] ctx2_def [symmetric] ini run fin
    by simp
qed

end
