(* ===== verification/Messages.thy ===== *)
theory Messages
  imports DoCalc
begin

text \<open>
  The work of the message handlers of \<^verbatim>\<open>core/msg.go\<close>, \<^verbatim>\<open>core/msg_claim.go\<close> and
  \<^verbatim>\<open>core/msg_rollback.go\<close>: QUERY, INIT, CLAIM, COMMIT_CLAIM, START_BLOCK, COMMIT_BLOCK
  and ROLLBACK. A hash of a request is a slice that may be nil.
\<close>

section \<open>QUERY\<close>

record Query =
  q_Address :: address
  q_BlockHeight :: u64
  q_BlockHash :: "bytes option"
  q_TXHash :: "bytes option"

record ResponseQuery =
  rq_Address :: address
  rq_IScore :: int
  rq_BlockHeight :: u64

text \<open>The claim record of an address; one that does not decode counts as absent.\<close>

definition claim_of :: "obj kv \<Rightarrow> address \<Rightarrow> Claim option" where
  "claim_of cDB addr =
     (case Bucket_Get cDB PrefixIScore (Address_Bytes addr) of
        None \<Rightarrow> None
      | Some bs \<Rightarrow> (case NewClaimFromBytes bs of Inl _ \<Rightarrow> None | Inr c \<Rightarrow> Some c))"

text \<open>\<open>None\<close>: no account database for the address, or an account entry that does not decode.\<close>

definition DoQuery :: "Context \<Rightarrow> Query \<Rightarrow> ResponseQuery option" where
  "DoQuery ctx req =
     (let isDB = DB ctx;
          resp = \<lparr>rq_Address = q_Address req, rq_IScore = 0, rq_BlockHeight = 0\<rparr>;
          pending = (if nonNilBytes (q_TXHash req) \<noteq> [] then
                       (case findPreCommit (preCommit_db (claims isDB)) (q_Address req) (q_BlockHeight req)
                               (nonNilBytes (q_BlockHash req)) of
                          None \<Rightarrow> None
                        | Some pc \<Rightarrow>
                            if pcm_TXHash pc = nonNilBytes (q_TXHash req) \<and> \<not> PreCommit_IsEmpty pc
                            then Some pc else None)
                     else None)
      in case pending of
           Some pc \<Rightarrow> Some (resp\<lparr>rq_BlockHeight := cd_BlockHeight (cl_Data (pcm_Claim pc))\<rparr>)
         | None \<Rightarrow>
             (let claim = claim_of (claim_db (claims isDB)) (q_Address req) in
              case getQueryDB isDB (q_Address req) of
                None \<Rightarrow> None
              | Some qDB \<Rightarrow>
                  (case Bucket_Get (disk_read (dirs isDB) qDB) PrefixIScore (Address_Bytes (q_Address req)) of
                     None \<Rightarrow> Some resp
                   | Some bs \<Rightarrow>
                       (case NewIScoreAccountFromBytes bs of
                          Inl _ \<Rightarrow> None
                        | Inr ia \<Rightarrow>
                            Some (resp\<lparr>rq_BlockHeight := ia_BlockHeight ia,
                                       rq_IScore := ia_IScore ia -
                                         (case claim of None \<Rightarrow> 0 | Some c \<Rightarrow> cd_IScore (cl_Data c))\<rparr>)))))"

section \<open>CLAIM\<close>

definition claimMinIScore :: int where "claimMinIScore = 1000"

record ClaimMessage =
  cm_Address :: address
  cm_BlockHeight :: u64
  cm_BlockHash :: "bytes option"
  cm_TXIndex :: u64
  cm_TXHash :: "bytes option"

definition set_preCommit :: "obj kv \<Rightarrow> Context \<Rightarrow> Context" where
  "set_preCommit m ctx = ctx\<lparr>DB := (DB ctx)\<lparr>claims := (claims (DB ctx))\<lparr>preCommit_db := m\<rparr>\<rparr>\<rparr>"

definition DoClaim :: "Context \<Rightarrow> ClaimMessage \<Rightarrow> ((u64 \<times> int option) \<times> Context) option" where
  "DoClaim ctx req =
     (let isDB = DB ctx; pcDB = preCommit_db (claims isDB);
          preCommit = newPreCommit (cm_BlockHeight req) (nonNilBytes (cm_BlockHash req)) (cm_TXIndex req)
                        (nonNilBytes (cm_TXHash req)) (cm_Address req);
          noReward = Some ((0, None), ctx)
      in case PreCommit_query preCommit pcDB of
           (True, pc) \<Rightarrow> Some ((pcm_BlockHeight pc, None), ctx)
         | (False, _) \<Rightarrow>
             (let claim = claim_of (claim_db (claims isDB)) (cm_Address req) in
              case getQueryDB isDB (cm_Address req) of
                None \<Rightarrow> None
              | Some qDB \<Rightarrow>
                  (case Bucket_Get (disk_read (dirs isDB) qDB) PrefixIScore (Address_Bytes (cm_Address req)) of
                     None \<Rightarrow> noReward
                   | Some bs \<Rightarrow>
                       (case NewIScoreAccountFromBytes bs of
                          Inl _ \<Rightarrow> noReward
                        | Inr ia \<Rightarrow>
                            if (case claim of None \<Rightarrow> False | Some c \<Rightarrow> ia_BlockHeight ia = cd_BlockHeight (cl_Data c)) then
                              Some ((ia_BlockHeight ia, None), ctx)
                            else
                              (let avail = ia_IScore ia - (case claim of None \<Rightarrow> 0 | Some c \<Rightarrow> cd_IScore (cl_Data c));
                                   amount = avail - avail mod claimMinIScore
                               in if avail < claimMinIScore then noReward
                                  else Some ((ia_BlockHeight ia, Some amount),
                                         set_preCommit (PreCommit_write preCommit pcDB (Some amount)) ctx))))))"

section \<open>COMMIT_CLAIM, START_BLOCK, COMMIT_BLOCK, INIT\<close>

record CommitClaim =
  cc_Success :: bool
  cc_Address :: address
  cc_BlockHeight :: u64
  cc_BlockHash :: "bytes option"
  cc_TXIndex :: u64
  cc_TXHash :: "bytes option"

text \<open>The error of the commit or the revert is logged only.\<close>

definition DoCommitClaim :: "Context \<Rightarrow> CommitClaim \<Rightarrow> Context" where
  "DoCommitClaim ctx req =
     (let preCommit = newPreCommit (cc_BlockHeight req) (nonNilBytes (cc_BlockHash req)) (cc_TXIndex req)
                        (nonNilBytes (cc_TXHash req)) (cc_Address req);
          pcDB = preCommit_db (claims (DB ctx))
      in case (if cc_Success req then PreCommit_commit preCommit pcDB else PreCommit_revert preCommit pcDB) of
           Inl _ \<Rightarrow> ctx
         | Inr pcDB' \<Rightarrow> set_preCommit pcDB' ctx)"

definition do_startBlock :: "Context \<Rightarrow> u64 \<Rightarrow> bytes option \<Rightarrow> Context" where
  "do_startBlock ctx blockHeight blockHash =
     set_preCommit (flushPreCommit (preCommit_db (claims (DB ctx))) blockHeight blockHash) ctx"

record CommitBlock =
  cb_Success :: bool
  cb_BlockHeight :: u64
  cb_BlockHash :: "bytes option"

definition do_commitBlock :: "Context \<Rightarrow> CommitBlock \<Rightarrow> (CommitBlock \<times> Context) option" where
  "do_commitBlock ctx req =
     (if cb_Success req then
        (case writePreCommitToClaimDB (claims (DB ctx)) (cb_BlockHeight req) (cb_BlockHash req) of
           None \<Rightarrow> None
         | Some (err, dbs) \<Rightarrow>
             (let idb = (DB ctx)\<lparr>claims := dbs\<rparr> in
              case err of
                Some e \<Rightarrow> Some (req\<lparr>cb_Success := False\<rparr>, ctx\<lparr>DB := idb\<rparr>)
              | None \<Rightarrow>
                  Some (req\<lparr>cb_Success := True\<rparr>,
                        ctx\<lparr>DB := setCurrentBlockInfo (cb_BlockHeight req) (nonNilBytes (cb_BlockHash req)) idb\<rparr>)))
      else
        Some (req\<lparr>cb_Success := True\<rparr>,
              set_preCommit (flushPreCommit (preCommit_db (claims (DB ctx))) (cb_BlockHeight req) (cb_BlockHash req)) ctx))"

definition DoInit :: "Context \<Rightarrow> u64 \<Rightarrow> error + Context" where
  "DoInit ctx blockHeight =
     (let current = bi_BlockHeight (getCurrentBlockInfo (DB ctx)) in
      if blockHeight > current + 1 then Inl (ErrHighBlockHeight blockHeight (current + 1))
      else Inr (set_preCommit (initPreCommit (preCommit_db (claims (DB ctx))) blockHeight) ctx))"

section \<open>ROLLBACK\<close>

record RollBackRequest =
  rb_BlockHeight :: u64
  rb_BlockHash :: "bytes option"

definition checkRollback :: "Context \<Rightarrow> u64 \<Rightarrow> error option" where
  "checkRollback ctx rollback =
     (if getPrevCalcDoneBH (DB ctx) \<ge> rollback
      then Some (ErrLowBlockHeight (getPrevCalcDoneBH (DB ctx)) rollback) else None)"

definition checkAccountDBRollback :: "Context \<Rightarrow> u64 \<Rightarrow> bool" where
  "checkAccountDBRollback ctx rollback \<longleftrightarrow> \<not> (rollback > getCalcDoneBH (DB ctx))"

definition DoRollBack :: "Context \<Rightarrow> RollBackRequest \<Rightarrow> (error option \<times> Context) option" where
  "DoRollBack ctx req =
     (let blockHeight = rb_BlockHeight req in
      case checkRollback ctx blockHeight of
        Some e \<Rightarrow> Some (Some e, ctx)
      | None \<Rightarrow>
          (let ctx1 = ctx\<lparr>Cancel := notifyRollback (Cancel ctx)\<rparr> in
           case rollbackClaimDB blockHeight (nonNilBytes (rb_BlockHash req)) (DB ctx1) of
             None \<Rightarrow> None
           | Some (Some e, idb) \<Rightarrow> Some (Some e, ctx1\<lparr>DB := idb\<rparr>)
           | Some (None, idb) \<Rightarrow>
               (let ctx2 = ctx1\<lparr>DB := idb\<rparr> in
                case (if checkAccountDBRollback ctx2 blockHeight then rollbackAccountDB blockHeight idb
                      else Some (None, idb)) of
                  None \<Rightarrow> None
                | Some (Some e, idb') \<Rightarrow> Some (Some e, ctx2\<lparr>DB := idb'\<rparr>)
                | Some (None, idb') \<Rightarrow> Some (None, RollbackManagementDB blockHeight (ctx2\<lparr>DB := idb'\<rparr>)))))"

end
