(* ===== verification/ClaimDbProps.thy ===== *)
theory ClaimDbProps
  imports ClaimDb
begin

text \<open>
  Properties of the claim databases. The keys are a block height, followed by a block hash
  and an address (pre-commit) or by an address (claim backup), so the iterators over a
  height or over a height and a hash select exactly the entries of a block. The main result
  is that a rollback undoes exactly the blocks committed after the height it goes back to.
\<close>

section \<open>Keys\<close>

definition pad32 :: "bytes \<Rightarrow> bytes" where
  "pad32 hash = take 32 hash @ replicate (32 - length hash) 0"

lemma length_pad32 [simp]: "length (pad32 hash) = 32"
  by (simp add: pad32_def)

lemma pad32_id [simp]: "length hash = 32 \<Longrightarrow> pad32 hash = hash"
  by (simp add: pad32_def)

lemmas size_defs =
  PreCommitIDSize_def ClaimBackupIDSize_def BlockHeightSize_def BlockHashSize_def TXHashSize_def
  AddressBytes_def AddressIDBytes_def

lemma bh_prefix: "copy_at (replicate n 0) (8 - length (Uint64ToBytes h)) (Uint64ToBytes h) =
    bh_key h @ replicate (n - 8) 0" if "8 \<le> n"
proof -
  have "length (Uint64ToBytes h) \<le> 8" by (rule length_Uint64ToBytes)
  with that show ?thesis by (simp add: copy_at_def bh_key_pad min_def)
qed

lemma GenPreCommitKey_append:
  assumes "length addr = 21"
  shows "GenPreCommitKey addr h hash = bh_key h @ pad32 hash @ addr"
proof -
  have 1: "copy_at (replicate 61 0) (8 - length (Uint64ToBytes h)) (Uint64ToBytes h) = bh_key h @ replicate 53 0"
    by (simp add: bh_prefix)
  have 2: "copy_at (bh_key h @ replicate 53 0) 8 hash =
      bh_key h @ take 53 hash @ replicate (53 - length hash) 0"
    by (simp add: copy_at_def)
  have 3: "copy_at (bh_key h @ take 53 hash @ replicate (53 - length hash) 0) 40 addr =
      bh_key h @ pad32 hash @ addr"
    using assms by (auto simp: copy_at_def pad32_def min_def)
  show ?thesis
    by (simp add: GenPreCommitKey_def size_defs Let_def 1 2 Address_Bytes_def)
      (use 3 in simp)
qed

lemma ClaimBackupKey_append:
  "length addr = 21 \<Longrightarrow> ClaimBackupKey h addr = bh_key h @ addr"
  by (simp add: ClaimBackupKey_def size_defs Let_def bh_prefix Address_Bytes_def copy_at_full)

lemma Claim_BackupID_append:
  "length (cl_Address c) = 21 \<Longrightarrow> Claim_BackupID c h = bh_key h @ cl_Address c"
  by (simp add: Claim_BackupID_def size_defs Let_def bh_prefix Claim_ID_def Address_Bytes_def copy_at_full)

lemma MakeIteratorPrefix_height:
  "MakeIteratorPrefix [] h None n = BytesPrefix (bh_key h)"
proof -
  have "copy_at (replicate 8 0) 0 [] = replicate 8 (0::byte)" by (simp add: copy_at_def)
  then show ?thesis
    using bh_prefix [of 8 h] by (simp add: MakeIteratorPrefix_def size_defs Let_def)
qed

lemma MakeIteratorPrefix_block:
  "MakeIteratorPrefix [] h (Some hash) BlockHashSize = BytesPrefix (bh_key h @ pad32 hash)"
proof -
  have "copy_at (replicate 40 0) 0 [] = replicate 40 (0::byte)" by (simp add: copy_at_def)
  moreover have "copy_at (bh_key h @ replicate 32 0) 8 hash = bh_key h @ pad32 hash"
    by (simp add: copy_at_def pad32_def)
  ultimately show ?thesis
    by (simp add: MakeIteratorPrefix_def size_defs Let_def bh_prefix)
qed

lemma PrefixClaim_Nil [simp]: "PrefixClaim = []" and PrefixIScore_Nil [simp]: "PrefixIScore = []"
  by (simp_all add: PrefixClaim_def PrefixIScore_def)

section \<open>Deleting a range\<close>

lemma fold_Bucket_Delete_map:
  "fold (\<lambda>key db. Bucket_Delete db [] key) ks db = fold kv_del ks db"
  by (induction ks arbitrary: db) (simp_all add: Bucket_Delete_def)

lemma copy_key_id: "length k = n \<Longrightarrow> copy_at (replicate n 0) 0 k = k"
  by (simp add: copy_at_def)

lemma map_key_id:
  "(\<And>k v. (k, v) \<in> set es \<Longrightarrow> length k = n) \<Longrightarrow>
     map (\<lambda>(k, _). copy_at (replicate n 0) 0 k) es = map fst es"
  by (rule map_cong [OF refl]) (auto simp: copy_key_id)

text \<open>Deleting the keys a prefix iterator visits.\<close>

lemma kv_get_del_prefix:
  assumes "kv_ok db"
  shows "kv_get k (fold kv_del (map fst (Iterator_prefix db p)) db) =
    (if take (length p) k = p then None else kv_get k db)"
proof -
  have "(\<exists>s. k = p @ s) \<longleftrightarrow> take (length p) k = p"
    by (metis append_eq_conv_conj append_take_drop_id)
  then show ?thesis
    using lvl.get_del_range [OF assms, of k p "prefix_limit p"] prefix_range_iff [of p k]
    by (simp add: Iterator_prefix_def BytesPrefix_def Iterator_New_def)
qed

section \<open>The pre-commit database\<close>

definition pc_keys_ok :: "obj kv \<Rightarrow> bool" where
  "pc_keys_ok db \<longleftrightarrow> kv_ok db \<and> (\<forall>p \<in> set db. length (fst p) = PreCommitIDSize)"

lemma Iterator_New_subset: "set (Iterator_New db s l) \<subseteq> set db"
  by (auto simp: Iterator_New_def kv_range_def split: option.splits)

lemma deletePreCommit_fold:
  assumes "pc_keys_ok db"
  shows "deletePreCommit db s l = fold kv_del (map fst (Iterator_New db (Some s) l)) db"
proof -
  have "map (\<lambda>(k, _). copy_at (replicate PreCommitIDSize 0) 0 k) (Iterator_New db (Some s) l) =
      map fst (Iterator_New db (Some s) l)"
    using assms Iterator_New_subset by (intro map_key_id) (fastforce simp: pc_keys_ok_def)
  then show ?thesis
    by (simp only: deletePreCommit_def fold_Bucket_Delete_map PrefixClaim_Nil list.size drop_0)
qed

lemma deletePreCommit_prefix:
  assumes "pc_keys_ok db"
  shows "kv_get k (case BytesPrefix p of (s, l) \<Rightarrow> deletePreCommit db s l) =
    (if take (length p) k = p then None else kv_get k db)"
  using kv_get_del_prefix [of db k p] assms
  by (simp add: deletePreCommit_fold BytesPrefix_def Iterator_prefix_def pc_keys_ok_def)

lemma flushPreCommit_get:
  assumes "pc_keys_ok db"
  shows "kv_get k (flushPreCommit db h hash) =
    (if (case hash of None \<Rightarrow> take 8 k = bh_key h | Some b \<Rightarrow> take 40 k = bh_key h @ pad32 b)
     then None else kv_get k db)"
proof (cases hash)
  case None
  then show ?thesis
    using deletePreCommit_prefix [OF assms, of k "bh_key h"]
    by (simp add: flushPreCommit_def MakeIteratorPrefix_height)
next
  case (Some b)
  then show ?thesis
    using deletePreCommit_prefix [OF assms, of k "bh_key h @ pad32 b"]
    by (simp add: flushPreCommit_def MakeIteratorPrefix_block)
qed

lemma kv_ok_fold_del [simp, intro]: "kv_ok db \<Longrightarrow> kv_ok (fold kv_del ks db)"
  by (rule lvl.invar_fold_del)

lemma set_fold_del: "set (fold kv_del ks db) \<subseteq> set db"
proof (induction ks arbitrary: db)
  case (Cons k ks)
  then have "set (fold kv_del ks (kv_del k db)) \<subseteq> set (kv_del k db)" .
  also have "\<dots> \<subseteq> set db" by (auto simp: kv_del_def)
  finally show ?case by simp
qed simp

lemma pc_keys_ok_deletePreCommit [simp, intro]:
  assumes "pc_keys_ok db"
  shows "pc_keys_ok (deletePreCommit db s l)"
  using assms set_fold_del unfolding deletePreCommit_fold [OF assms] pc_keys_ok_def by blast

lemma pc_keys_ok_flushPreCommit [simp, intro]: "pc_keys_ok db \<Longrightarrow> pc_keys_ok (flushPreCommit db h hash)"
  by (simp add: flushPreCommit_def split: prod.split)

lemma pc_keys_ok_initPreCommit [simp, intro]: "pc_keys_ok db \<Longrightarrow> pc_keys_ok (initPreCommit db h)"
  by (simp add: initPreCommit_def split: prod.split)

text \<open>INIT: from the key of the next height on everything is deleted.\<close>

lemma initPreCommit_get:
  assumes "pc_keys_ok db"
  shows "kv_get k (initPreCommit db h) = (if bh_key (h + 1) \<le> k then None else kv_get k db)"
  using lvl.get_del_range [of db k "bh_key (h + 1)" None] assms
  by (simp add: initPreCommit_def MakeIteratorPrefix_height BytesPrefix_def deletePreCommit_fold
      Iterator_New_def pc_keys_ok_def)

lemma bytes_le_prefix:
  fixes p q s :: bytes
  assumes "length p = length q"
  shows "p \<le> q @ s \<longleftrightarrow> p \<le> q"
  using assms
proof (induction p q rule: list_induct2)
  case Nil
  then show ?case by (cases s) auto
qed auto

lemma bh_key_le: "bh_key v \<le> bh_key w \<longleftrightarrow> v \<le> w"
  by (metis bh_key_inject bh_key_less order_le_less)

lemma initPreCommit_entry:
  assumes "pc_keys_ok db" "length addr = 21"
  shows "kv_get (GenPreCommitKey addr b hash) (initPreCommit db h) =
    (if h + 1 \<le> b then None else kv_get (GenPreCommitKey addr b hash) db)"
  by (simp add: initPreCommit_get [OF assms(1)] GenPreCommitKey_append [OF assms(2)] bytes_le_prefix bh_key_le)

end
