(* ===== verification/ClaimRollback.thy ===== *)
theory ClaimRollback
  imports ClaimDbProps
begin

text \<open>
  COMMIT_BLOCK against ROLLBACK: the claim-backup database holds, for every block, the
  values the block replaced, and rolling back replays them downwards. The states a node goes
  through while it commits blocks are a step relation; for all of them a rollback to an
  earlier height gives back the claim database of that height.
\<close>

section \<open>Well-formed claim databases\<close>

definition claim_ok :: "obj kv \<Rightarrow> bool" where
  "claim_ok c \<longleftrightarrow> kv_ok c \<and>
     (\<forall>p \<in> set c. length (fst p) = AddressBytes \<and> (\<exists>d. snd p = enc_ClaimData d \<and> cd_BlockHeight d \<noteq> 0))"

definition backup_entry_ok :: "bytes \<Rightarrow> obj \<Rightarrow> bool" where
  "backup_entry_ok k v \<longleftrightarrow>
     length k = ClaimBackupIDSize \<and> (\<exists>d. v = enc_ClaimData d \<and> (cd_BlockHeight d = 0 \<longrightarrow> cd_IScore d = 0))"

definition backup_ok :: "obj kv \<Rightarrow> bool" where
  "backup_ok cb \<longleftrightarrow> kv_ok cb \<and>
     (\<forall>p \<in> set cb. (fst p = PrefixManagement \<and> (\<exists>i. snd p = ClaimBackupInfo_Bytes i)) \<or>
        backup_entry_ok (fst p) (snd p))"

definition backup_at :: "obj kv \<Rightarrow> u64 \<Rightarrow> bytes \<Rightarrow> obj option" where
  "backup_at cb h a = (if length a = AddressBytes then kv_get (bh_key h @ a) cb else None)"

definition no_claim :: obj where
  "no_claim = enc_ClaimData \<lparr>cd_BlockHeight = 0, cd_IScore = 0\<rparr>"

text \<open>What a backup entry makes of a claim entry.\<close>

definition undo :: "obj option \<Rightarrow> obj option \<Rightarrow> obj option" where
  "undo b x = (case b of None \<Rightarrow> x | Some v \<Rightarrow> if v = no_claim then None else Some v)"

lemma length_PrefixManagement [simp]: "length PrefixManagement = 2"
  by (simp add: PrefixManagement_def ascii_def)

lemma bh_key_neq_mgmt [simp]: "bh_key h @ a \<noteq> PrefixManagement" "PrefixManagement \<noteq> bh_key h @ a"
  using length_bh_key [of h] length_PrefixManagement by (metis add_leD1 length_append numeral_le_iff semiring_norm(69,71,68))+

section \<open>Codecs\<close>

lemma dec_enc_ClaimData [simp, codec_simps]: "dec_ClaimData old (enc_ClaimData d) = Inr d"
  by (simp add: dec_ClaimData_def enc_ClaimData_def)

lemma enc_ClaimData_inject [simp]: "enc_ClaimData d = enc_ClaimData d' \<longleftrightarrow> d = d'"
  by (metis dec_enc_ClaimData sum.inject(2))

lemma Claim_SetBytes_enc [simp, codec_simps]: "Claim_SetBytes c (enc_ClaimData d) = Inr (c\<lparr>cl_Data := d\<rparr>)"
  by (simp add: Claim_SetBytes_def)

lemma NewClaimFromBytes_enc [simp, codec_simps]:
  "NewClaimFromBytes (enc_ClaimData d) = Inr (zero_Claim\<lparr>cl_Data := d\<rparr>)"
  by (simp add: NewClaimFromBytes_def)

lemma ClaimBackupInfo_SetBytes_Bytes [simp, codec_simps]:
  "ClaimBackupInfo_SetBytes old (ClaimBackupInfo_Bytes i) = Inr i"
  by (simp add: ClaimBackupInfo_SetBytes_def ClaimBackupInfo_Bytes_def)

section \<open>One height of a rollback\<close>

lemma rollbackClaim_entries_get:
  assumes "\<forall>p \<in> set es. \<exists>a d. fst p = bh_key h @ a \<and> snd p = enc_ClaimData d \<and> (cd_BlockHeight d = 0 \<longrightarrow> cd_IScore d = 0)"
    and "distinct (map fst es)" and "kv_ok c"
  shows "kv_ok (rollbackClaim_entries cl es c) \<and>
    kv_get a (rollbackClaim_entries cl es c) = undo (map_of es (bh_key h @ a)) (kv_get a c)"
  using assms
proof (induction es arbitrary: cl c)
  case (Cons p es)
  then obtain b d where p: "p = (bh_key h @ b, enc_ClaimData d)" and z: "cd_BlockHeight d = 0 \<longrightarrow> cd_IScore d = 0"
    by (cases p) auto
  define c' where "c' = (if cd_BlockHeight d = 0 \<and> cd_IScore d = 0 then kv_del b c else kv_put b (enc_ClaimData d) c)"
  have step: "rollbackClaim_entries cl (p # es) c = rollbackClaim_entries (cl\<lparr>cl_Data := d\<rparr>) es c'"
    by (simp add: p c'_def Let_def size_defs Bucket_Delete_def Bucket_Set_def)
  have ok: "kv_ok c'" using Cons.prems(3) by (auto simp: c'_def)
  have IH: "kv_ok (rollbackClaim_entries (cl\<lparr>cl_Data := d\<rparr>) es c') \<and>
      kv_get a (rollbackClaim_entries (cl\<lparr>cl_Data := d\<rparr>) es c') = undo (map_of es (bh_key h @ a)) (kv_get a c')"
    using Cons.prems ok by (intro Cons.IH) auto
  have none: "a = b \<Longrightarrow> map_of es (bh_key h @ a) = None"
    using Cons.prems(2) p by (auto simp: map_of_eq_None_iff)
  have "enc_ClaimData d = no_claim \<longleftrightarrow> cd_BlockHeight d = 0 \<and> cd_IScore d = 0"
    by (cases d) (auto simp: no_claim_def)
  then have get: "kv_get a c' = (if a = b then undo (Some (enc_ClaimData d)) None else kv_get a c)"
    using Cons.prems(3) by (simp add: c'_def undo_def)
  show ?case
    unfolding step using IH none get by (cases "a = b") (simp_all add: p undo_def)
qed (simp add: undo_def)

lemma backup_iter:
  assumes "backup_ok cb"
  shows "\<forall>p \<in> set (Iterator_prefix cb (bh_key h)). \<exists>a d. fst p = bh_key h @ a \<and> length a = 21 \<and>
     snd p = enc_ClaimData d \<and> (cd_BlockHeight d = 0 \<longrightarrow> cd_IScore d = 0)"
proof
  fix p assume p: "p \<in> set (Iterator_prefix cb (bh_key h))"
  then have "p \<in> set cb" "take 8 (fst p) = bh_key h" by (auto simp: Iterator_prefix_eq)
  moreover from this have "fst p \<noteq> PrefixManagement" using length_PrefixManagement
    by (metis length_bh_key length_take min.absorb_iff1 min_def numeral_le_iff numeral_eq_iff semiring_norm(69,71,68,85,87,88))
  ultimately show "\<exists>a d. fst p = bh_key h @ a \<and> length a = 21 \<and> snd p = enc_ClaimData d \<and>
      (cd_BlockHeight d = 0 \<longrightarrow> cd_IScore d = 0)"
    using assms unfolding backup_ok_def backup_entry_ok_def
    by (metis append_take_drop_id length_drop size_defs(2,3,6,7) add_diff_cancel_left' numeral_plus_one
        semiring_norm(2,4,5))
qed

lemma rollbackClaimDB_at_eq:
  assumes "backup_ok cb"
  shows "rollbackClaimDB_at h (cb, c) =
    (fold kv_del (map fst (Iterator_prefix cb (bh_key h))) cb,
     rollbackClaim_entries zero_Claim (Iterator_prefix cb (bh_key h)) c)"
proof -
  have "map (\<lambda>(k, _). copy_at (replicate ClaimBackupIDSize 0) 0 k) (Iterator_prefix cb (bh_key h)) =
      map fst (Iterator_prefix cb (bh_key h))"
    using backup_iter [OF assms, of h] by (intro map_key_id) (fastforce simp: size_defs)
  moreover have "(case MakeIteratorPrefix PrefixClaim h None 0 of (s, l) \<Rightarrow> Iterator_New cb (Some s) l) =
      Iterator_prefix cb (bh_key h)"
    by (simp add: MakeIteratorPrefix_height Iterator_prefix_def)
  ultimately show ?thesis
    by (simp only: rollbackClaimDB_at_def prod.case Let_def fold_Bucket_Delete_map PrefixClaim_Nil
        list.size drop_0)
qed

lemma map_of_Iterator_prefix:
  "kv_ok db \<Longrightarrow> map_of (Iterator_prefix db p) (p @ a) = kv_get (p @ a) db"
  using map_of_filter_key [of "\<lambda>k. take (length p) k = p" db "p @ a"]
  by (simp add: Iterator_prefix_eq kv_get_def)

lemma kv_ok_Iterator_prefix: "kv_ok db \<Longrightarrow> kv_ok (Iterator_prefix db p)"
  by (simp add: Iterator_prefix_eq)

lemma kv_ok_distinct: "kv_ok db \<Longrightarrow> distinct (map fst db)"
  by (simp add: kv_ok_def strict_sorted_iff)

lemma backup_at_get: "backup_ok cb \<Longrightarrow> kv_get (bh_key h @ a) cb = backup_at cb h a"
proof (rule ccontr)
  assume cb: "backup_ok cb" and "kv_get (bh_key h @ a) cb \<noteq> backup_at cb h a"
  then have "length a \<noteq> 21" "kv_get (bh_key h @ a) cb \<noteq> None"
    by (auto simp: backup_at_def size_defs split: if_splits)
  then obtain v where "(bh_key h @ a, v) \<in> set cb"
    using cb by (auto simp: backup_ok_def kv_get_iff)
  with cb \<open>length a \<noteq> 21\<close> show False
    by (fastforce simp: backup_ok_def backup_entry_ok_def size_defs)
qed

lemma backup_ok_subset: "backup_ok cb \<Longrightarrow> kv_ok cb' \<Longrightarrow> set cb' \<subseteq> set cb \<Longrightarrow> backup_ok cb'"
  by (auto simp: backup_ok_def)

lemma rollbackClaimDB_at_get:
  assumes "backup_ok cb" "kv_ok c" "rollbackClaimDB_at h (cb, c) = (cb', c')"
  shows "backup_ok cb' \<and> kv_ok c' \<and> kv_get a c' = undo (backup_at cb h a) (kv_get a c) \<and>
    kv_get k cb' = (if take 8 k = bh_key h then None else kv_get k cb)"
proof -
  have cb: "kv_ok cb" using assms(1) by (simp add: backup_ok_def)
  have cb': "cb' = fold kv_del (map fst (Iterator_prefix cb (bh_key h))) cb"
    and c': "c' = rollbackClaim_entries zero_Claim (Iterator_prefix cb (bh_key h)) c"
    using assms(3) by (simp_all add: rollbackClaimDB_at_eq [OF assms(1)])
  have "kv_ok c' \<and> kv_get a c' = undo (map_of (Iterator_prefix cb (bh_key h)) (bh_key h @ a)) (kv_get a c)"
    unfolding c' using backup_iter [OF assms(1), of h] cb assms(2)
    by (intro rollbackClaim_entries_get) (auto simp: kv_ok_Iterator_prefix kv_ok_distinct)
  moreover have "backup_ok cb'"
    using assms(1) by (rule backup_ok_subset) (use cb set_fold_del in \<open>auto simp: cb'\<close>)
  ultimately show ?thesis
    using kv_get_del_prefix [OF cb, of k "bh_key h"]
    by (simp add: map_of_Iterator_prefix [OF cb] backup_at_get [OF assms(1)] cb')
qed

section \<open>All heights of a rollback\<close>

definition undo_all :: "obj kv \<Rightarrow> u64 list \<Rightarrow> bytes \<Rightarrow> obj option \<Rightarrow> obj option" where
  "undo_all cb hs a x = fold (\<lambda>h. undo (backup_at cb h a)) hs x"

lemma undo_all_cong:
  "(\<And>h. h \<in> set hs \<Longrightarrow> backup_at cb h a = backup_at cb' h a) \<Longrightarrow> undo_all cb hs a x = undo_all cb' hs a x"
  unfolding undo_all_def by (rule fold_cong) auto

lemma fold_rollbackClaimDB_at:
  assumes "backup_ok cb" "kv_ok c" "distinct hs" "fold rollbackClaimDB_at hs (cb, c) = (cb', c')"
  shows "backup_ok cb' \<and> kv_ok c' \<and> kv_get a c' = undo_all cb hs a (kv_get a c) \<and>
    kv_get k cb' = (if take 8 k \<in> bh_key ` set hs then None else kv_get k cb)"
  using assms
proof (induction hs arbitrary: cb c)
  case Nil
  then show ?case by (simp add: undo_all_def)
next
  case (Cons h hs)
  obtain cb1 c1 where 1: "rollbackClaimDB_at h (cb, c) = (cb1, c1)" by fastforce
  note at = rollbackClaimDB_at_get [OF Cons.prems(1,2) 1]
  have "backup_ok cb' \<and> kv_ok c' \<and> kv_get a c' = undo_all cb1 hs a (kv_get a c1) \<and>
    kv_get k cb' = (if take 8 k \<in> bh_key ` set hs then None else kv_get k cb1)"
    using at Cons.prems 1 by (intro Cons.IH) auto
  moreover have "undo_all cb1 hs a x = undo_all cb hs a x" for x
    using Cons.prems(3) at by (intro undo_all_cong) (auto simp: backup_at_def)
  ultimately show ?case
    using at by (auto simp: undo_all_def)
qed

lemma set_rollback_heights: "set (rollback_heights frm to) = {h. to \<le> h \<and> h \<le> frm}"
proof -
  have "h \<in> of_nat ` {unat to..<Suc (unat frm)} \<longleftrightarrow> to \<le> h \<and> h \<le> frm" for h :: u64
  proof
    assume "to \<le> h \<and> h \<le> frm"
    then have "unat h \<in> {unat to..<Suc (unat frm)}" by (auto simp: word_le_nat_alt)
    then have "of_nat (unat h) \<in> (of_nat ` {unat to..<Suc (unat frm)} :: u64 set)" by blast
    then show "h \<in> of_nat ` {unat to..<Suc (unat frm)}" by simp
  next
    assume "h \<in> of_nat ` {unat to..<Suc (unat frm)}"
    then obtain n where n: "h = of_nat n" "unat to \<le> n" "n \<le> unat frm" by auto
    then have "unat h = n" using unat_lt_2p64 [of frm] by (simp add: unat_of_nat)
    with n show "to \<le> h \<and> h \<le> frm" by (simp add: word_le_nat_alt)
  qed
  then have "of_nat ` {unat to..<Suc (unat frm)} = {h. to \<le> h \<and> h \<le> frm}" by blast
  then show ?thesis unfolding rollback_heights_def set_rev set_map set_upt .
qed

lemma distinct_rollback_heights: "distinct (rollback_heights frm to)"
proof -
  have "inj_on (of_nat :: nat \<Rightarrow> u64) {unat to..<Suc (unat frm)}"
  proof (rule inj_onI)
    fix x y assume "x \<in> {unat to..<Suc (unat frm)}" "y \<in> {unat to..<Suc (unat frm)}"
      and eq: "(of_nat x :: u64) = of_nat y"
    then have "x < 2 ^ 64" "y < 2 ^ 64" using unat_lt_2p64 [of frm] by auto
    with eq show "x = y" by (metis unat_of_nat_small)
  qed
  then show ?thesis
    by (simp only: rollback_heights_def distinct_rev distinct_map set_upt distinct_upt simp_thms)
qed

section \<open>Committing the entries of a block\<close>

definition pc_entry_ok :: "bytes \<Rightarrow> obj \<Rightarrow> PreCommit \<Rightarrow> bool" where
  "pc_entry_ok k v pc \<longleftrightarrow>
     v = PreCommit_Bytes pc \<and> k = PreCommit_ID pc \<and> address_ok (cl_Address (pcm_Claim pc)) \<and>
     length (pcm_BlockHash pc) = BlockHashSize \<and>
     cd_BlockHeight (cl_Data (pcm_Claim pc)) = pcm_BlockHeight pc"

definition preCommit_ok :: "obj kv \<Rightarrow> bool" where
  "preCommit_ok db \<longleftrightarrow> kv_ok db \<and> (\<forall>p \<in> set db. \<exists>pc. pc_entry_ok (fst p) (snd p) pc)"

lemma enc_ClaimData_neq_nil [simp, codec_simps]: "enc_ClaimData d \<noteq> ONil"
  by (simp add: enc_ClaimData_def)

lemma PreCommit_SetBytes_Bytes [codec_simps]:
  assumes "address_ok (cl_Address (pcm_Claim q))" "length (cl_Address (pcm_Claim pc)) = AddressBytes"
  shows "PreCommit_SetBytes pc (PreCommit_Bytes q) =
    Inr (pc\<lparr>pcm_Confirmed := pcm_Confirmed q, pcm_TXIndex := pcm_TXIndex q, pcm_TXHash := pcm_TXHash q,
            pcm_Claim := pcm_Claim q\<rparr>)"
  using assms by (simp add: PreCommit_SetBytes_def PreCommit_Bytes_def)

lemma pc_entry_key:
  "pc_entry_ok k v pc \<Longrightarrow> k = bh_key (pcm_BlockHeight pc) @ pcm_BlockHash pc @ cl_Address (pcm_Claim pc)"
  by (simp add: pc_entry_ok_def PreCommit_ID_def GenPreCommitKey_append address_ok_def size_defs)

lemma pc_entry_length:
  assumes "pc_entry_ok k v pc"
  shows "length k = PreCommitIDSize"
proof -
  have "length (pcm_BlockHash pc) = 32" "length (cl_Address (pcm_Claim pc)) = 21"
    using assms by (auto simp: pc_entry_ok_def address_ok_def size_defs)
  then show ?thesis by (subst pc_entry_key [OF assms]) (simp add: size_defs)
qed

lemma preCommit_ok_keys: "preCommit_ok db \<Longrightarrow> pc_keys_ok db"
  unfolding preCommit_ok_def pc_keys_ok_def by (blast dest: pc_entry_length)

definition commit_rel :: "u64 \<Rightarrow> obj kv \<Rightarrow> obj kv \<Rightarrow> obj kv \<Rightarrow> obj kv \<Rightarrow> bool" where
  "commit_rel h c0 cb0 c cb \<longleftrightarrow>
     claim_ok c \<and> backup_ok cb \<and>
     (\<forall>a. (kv_get a c = kv_get a c0 \<and> backup_at cb (h - 1) a = backup_at cb0 (h - 1) a) \<or>
          (\<exists>d. kv_get a c = Some (enc_ClaimData d) \<and> cd_BlockHeight d = h \<and>
               backup_at cb (h - 1) a = Some (case kv_get a c0 of None \<Rightarrow> no_claim | Some v \<Rightarrow> v))) \<and>
     (\<forall>k. take 8 k \<noteq> bh_key (h - 1) \<longrightarrow> kv_get k cb = kv_get k cb0)"

lemma claim_ok_put: "claim_ok c \<Longrightarrow> length a = 21 \<Longrightarrow> cd_BlockHeight d \<noteq> 0 \<Longrightarrow> claim_ok (kv_put a (enc_ClaimData d) c)"
  unfolding claim_ok_def Ball_def
  by (auto simp: size_defs kv_get_iff [symmetric] split: if_splits)

lemma backup_ok_put:
  "backup_ok cb \<Longrightarrow> length k = 29 \<Longrightarrow> (cd_BlockHeight d = 0 \<longrightarrow> cd_IScore d = 0) \<Longrightarrow>
    backup_ok (kv_put k (enc_ClaimData d) cb)"
  unfolding backup_ok_def backup_entry_ok_def Ball_def
  by (auto simp: size_defs kv_get_iff [symmetric] split: if_splits)

lemma commit_rel_write:
  assumes rel: "commit_rel h c0 cb0 c cb" and a: "length a = 21" and d: "cd_BlockHeight d = h" "h \<noteq> 0"
    and old: "kv_get a c = None \<and> v = no_claim \<or>
      (\<exists>d0. kv_get a c = Some (enc_ClaimData d0) \<and> cd_BlockHeight d0 \<noteq> 0 \<and> cd_BlockHeight d0 < h \<and> v = enc_ClaimData d0)"
  shows "commit_rel h c0 cb0 (kv_put a (enc_ClaimData d) c) (kv_put (bh_key (h - 1) @ a) v cb)"
proof -
  obtain dv where v: "v = enc_ClaimData dv" "cd_BlockHeight dv = 0 \<longrightarrow> cd_IScore dv = 0"
    using old by (auto simp: no_claim_def)
  have c: "claim_ok c" "kv_ok c" and cb: "backup_ok cb" "kv_ok cb"
    using rel by (auto simp: commit_rel_def claim_ok_def backup_ok_def)
  have same: "kv_get a c = kv_get a c0"
    using rel old by (auto simp: commit_rel_def)
  have at: "backup_at (kv_put (bh_key (h - 1) @ a) v cb) (h - 1) b = (if b = a then Some v else backup_at cb (h - 1) b)" for b
    using cb a by (simp add: backup_at_def size_defs)
  have v0: "v = (case kv_get a c0 of None \<Rightarrow> no_claim | Some v \<Rightarrow> v)"
    using old same by auto
  show ?thesis
    unfolding commit_rel_def
  proof (intro conjI allI impI)
    show "claim_ok (kv_put a (enc_ClaimData d) c)" using c a d by (intro claim_ok_put) auto
    show "backup_ok (kv_put (bh_key (h - 1) @ a) v cb)" using cb a v by (auto intro!: backup_ok_put)
    fix b
    show "kv_get b (kv_put a (enc_ClaimData d) c) = kv_get b c0 \<and>
        backup_at (kv_put (bh_key (h - 1) @ a) v cb) (h - 1) b = backup_at cb0 (h - 1) b \<or>
        (\<exists>d'. kv_get b (kv_put a (enc_ClaimData d) c) = Some (enc_ClaimData d') \<and> cd_BlockHeight d' = h \<and>
          backup_at (kv_put (bh_key (h - 1) @ a) v cb) (h - 1) b =
            Some (case kv_get b c0 of None \<Rightarrow> no_claim | Some v \<Rightarrow> v))"
    proof (cases "b = a")
      case True
      then show ?thesis using c d at v0 by simp
    next
      case False
      then show ?thesis using c rel unfolding at by (simp add: commit_rel_def)
    qed
  next
    fix k assume "take 8 k \<noteq> bh_key (h - 1)"
    moreover from this have "k \<noteq> bh_key (h - 1) @ a" by auto
    ultimately show "kv_get k (kv_put (bh_key (h - 1) @ a) v cb) = kv_get k cb0"
      using rel cb by (simp add: commit_rel_def)
  qed
qed

lemma commit_rel_refl: "claim_ok c \<Longrightarrow> backup_ok cb \<Longrightarrow> commit_rel h c cb c cb"
  by (simp add: commit_rel_def)

lemma claim_ok_get:
  "claim_ok c \<Longrightarrow> kv_get a c = Some v \<Longrightarrow> \<exists>d. v = enc_ClaimData d \<and> cd_BlockHeight d \<noteq> 0"
  by (auto simp: claim_ok_def kv_get_iff)

lemma writePreCommit_loop_rel:
  assumes "commit_rel h c0 cb0 c cb" "h \<noteq> 0" "length (cl_Address (pcm_Claim pc)) = AddressBytes"
    and "\<forall>p \<in> set es. \<exists>q. pc_entry_ok (fst p) (snd p) q \<and> pcm_BlockHeight q = h"
  shows "\<exists>c' cb'. writePreCommit_loop h pc es c cb = Some (None, c', cb') \<and> commit_rel h c0 cb0 c' cb'"
  using assms
proof (induction es arbitrary: pc c cb)
  case (Cons p es)
  then obtain k v q where p: "p = (k, v)" and q: "pc_entry_ok k v q" "pcm_BlockHeight q = h" by (cases p) auto
  define pc' where "pc' = pc\<lparr>pcm_Confirmed := pcm_Confirmed q, pcm_TXIndex := pcm_TXIndex q,
      pcm_TXHash := pcm_TXHash q, pcm_Claim := pcm_Claim q\<rparr>"
  define a where "a = cl_Address (pcm_Claim q)"
  define d where "d = cl_Data (pcm_Claim q)"
  have a: "address_ok a" "length a = 21" and dh: "cd_BlockHeight d = h"
    using q by (auto simp: pc_entry_ok_def a_def d_def address_ok_def size_defs)
  have dec: "PreCommit_SetBytes pc v = Inr pc'"
    using q a Cons.prems(3) by (simp add: pc_entry_ok_def PreCommit_SetBytes_Bytes pc'_def a_def)
  have pcl: "length (cl_Address (pcm_Claim pc')) = AddressBytes"
    using a by (simp add: pc'_def a_def size_defs)
  have IH: "\<exists>c' cb'. writePreCommit_loop h pc' es c1 cb1 = Some (None, c', cb') \<and> commit_rel h c0 cb0 c' cb'"
    if "commit_rel h c0 cb0 c1 cb1" for c1 cb1
    using Cons.prems that pcl by (intro Cons.IH) auto
  have claim: "Claim_ID (pcm_Claim q) = a" "Claim_Bytes (pcm_Claim q) = enc_ClaimData d"
    "pcm_Confirmed pc' = pcm_Confirmed q" "pcm_Claim pc' = pcm_Claim q"
    by (simp_all add: Claim_ID_def Claim_Bytes_def Address_Bytes_def a_def d_def pc'_def)
  have bid: "Claim_BackupID (pcm_Claim q) (h - 1) = bh_key (h - 1) @ a"
    "Claim_BackupID (pcm_Claim q\<lparr>cl_Data := x\<rparr>) (h - 1) = bh_key (h - 1) @ a" for x
    using a by (simp_all add: Claim_BackupID_append a_def)
  show ?case
  proof (cases "\<not> pcm_Confirmed q \<or> cd_IScore d = 0")
    case True
    then show ?thesis using IH [OF Cons.prems(1)] by (simp add: p dec claim d_def)
  next
    case False
    then have conf: "pcm_Confirmed q" "cd_IScore (cl_Data (pcm_Claim q)) \<noteq> 0" by (auto simp: d_def)
    have cok: "claim_ok c" using Cons.prems(1) by (simp add: commit_rel_def)
    show ?thesis
    proof (cases "kv_get a c")
      case None
      have "commit_rel h c0 cb0 (kv_put a (enc_ClaimData d) c) (kv_put (bh_key (h - 1) @ a) no_claim cb)"
        using None a dh Cons.prems(1,2) by (intro commit_rel_write) auto
      from IH [OF this] show ?thesis
        using conf None
        by (simp add: p dec claim bid Bucket_Get_def Bucket_Set_def no_claim_def Claim_Bytes_def zero_Claim_def d_def)
    next
      case (Some bs)
      then obtain d0 where bs: "bs = enc_ClaimData d0" "cd_BlockHeight d0 \<noteq> 0" using cok claim_ok_get by blast
      show ?thesis
      proof (cases "h \<le> cd_BlockHeight d0")
        case True
        then show ?thesis
          using IH [OF Cons.prems(1)] conf Some bs dh by (simp add: p dec claim Bucket_Get_def d_def)
      next
        case False
        let ?d = "d\<lparr>cd_IScore := cd_IScore d + cd_IScore d0\<rparr>"
        have "commit_rel h c0 cb0 (kv_put a (enc_ClaimData ?d) c) (kv_put (bh_key (h - 1) @ a) (enc_ClaimData d0) cb)"
          using Some bs False a dh Cons.prems(1,2) by (intro commit_rel_write) auto
        from IH [OF this] show ?thesis
          using conf Some bs False dh
          by (simp add: p dec claim bid Bucket_Get_def Bucket_Set_def d_def Claim_Bytes_def Claim_ID_def
              Address_Bytes_def a_def Let_def)
      qed
    qed
  qed
qed simp

section \<open>Backup information and garbage collection\<close>

definition backup_info :: "obj kv \<Rightarrow> ClaimBackupInfo" where
  "backup_info cb =
     (case Bucket_Get cb PrefixManagement ClaimBackupInfo_ID of
        None \<Rightarrow> zero_ClaimBackupInfo
      | Some bs \<Rightarrow> (case ClaimBackupInfo_SetBytes zero_ClaimBackupInfo bs of
                     Inl _ \<Rightarrow> zero_ClaimBackupInfo | Inr i \<Rightarrow> i))"

lemma backup_ok_info:
  assumes "backup_ok cb" "kv_get PrefixManagement cb = Some v"
  shows "\<exists>i. v = ClaimBackupInfo_Bytes i"
proof -
  have "(PrefixManagement, v) \<in> set cb" using assms by (simp add: backup_ok_def kv_get_iff)
  with assms(1) show ?thesis by (fastforce simp: backup_ok_def backup_entry_ok_def size_defs)
qed

lemma backup_ok_put_info [simp]: "backup_ok cb \<Longrightarrow> backup_ok (kv_put PrefixManagement (ClaimBackupInfo_Bytes i) cb)"
  unfolding backup_ok_def Ball_def by (fastforce simp: kv_get_iff [symmetric] split: if_splits)

lemma backup_at_put_info [simp]:
  "kv_ok cb \<Longrightarrow> backup_at (kv_put PrefixManagement v cb) h a = backup_at cb h a"
  by (simp add: backup_at_def)

lemma backup_info_put [simp]:
  "kv_ok cb \<Longrightarrow> backup_info (kv_put PrefixManagement (ClaimBackupInfo_Bytes i) cb) = i"
  by (simp add: backup_info_def Bucket_Get_def ClaimBackupInfo_ID_def)

lemma key_Iterator_prefix:
  "k \<in> fst ` set (Iterator_prefix cb p) \<longleftrightarrow> kv_get k cb \<noteq> None \<and> take (length p) k = p"
  by (force simp: Iterator_prefix_eq kv_get_def map_of_eq_None_iff image_iff)

lemma gc_get:
  assumes "backup_ok cb"
  shows "backup_ok (garbageCollectClaimBackupDB cb frm to) \<and>
    kv_get k (garbageCollectClaimBackupDB cb frm to) =
      (if \<exists>x. frm \<le> x \<and> x \<le> to \<and> take 8 k = bh_key x then None else kv_get k cb)"
proof -
  have cb: "kv_ok cb" using assms by (simp add: backup_ok_def)
  define hs where "hs = rev (rollback_heights to frm)"
  have hs: "hs = map of_nat [unat frm..<Suc (unat to)]" "set hs = {x. frm \<le> x \<and> x \<le> to}"
    by (simp add: hs_def rollback_heights_def) (simp only: hs_def set_rev set_rollback_heights)
  define ks where "ks = concat (map (\<lambda>h. map fst (Iterator_prefix cb (bh_key h))) hs)"
  have "map (\<lambda>(k, _). copy_at (replicate ClaimBackupIDSize 0) 0 k) (Iterator_prefix cb (bh_key h)) =
      map fst (Iterator_prefix cb (bh_key h))" for h
    using backup_iter [OF assms, of h] by (intro map_key_id) (fastforce simp: size_defs)
  then have gc: "garbageCollectClaimBackupDB cb frm to = fold kv_del ks cb"
    unfolding garbageCollectClaimBackupDB_def ks_def hs(1) map_map o_def
    by (simp only: PrefixClaim_Nil MakeIteratorPrefix_height fold_Bucket_Delete_map list.size drop_0
        Iterator_prefix_def)
  have "k \<in> set ks \<longleftrightarrow> kv_get k cb \<noteq> None \<and> (\<exists>x. frm \<le> x \<and> x \<le> to \<and> take 8 k = bh_key x)"
    unfolding ks_def using hs(2) by (auto simp: key_Iterator_prefix)
  moreover have "backup_ok (fold kv_del ks cb)"
    using assms by (rule backup_ok_subset) (use cb set_fold_del in auto)
  ultimately show ?thesis
    using lvl.get_fold_del [OF cb, of k ks] by (auto simp: gc)
qed

text \<open>The collected range ends below the new first height.\<close>

lemma gc_height:
  assumes "first \<le> h" "h > ClaimBackupPeriod + first"
  shows "86240 \<le> unat h"
proof (rule ccontr)
  have P: "unat (ClaimBackupPeriod + first) = (86239 + unat first) mod 2 ^ 64"
    by (simp add: ClaimBackupPeriod_def unat_word_ariths)
  have b: "unat first \<le> unat h" "(86239 + unat first) mod 2 ^ 64 < unat h"
    using assms P by (simp_all add: word_less_nat_alt word_le_nat_alt)
  assume n: "\<not> 86240 \<le> unat h"
  with b(1) have "86239 + unat first < 2 ^ 64" by simp
  then have "(86239 + unat first) mod 2 ^ 64 = 86239 + unat first" by (rule mod_less)
  with b n show False by simp
qed

lemma gc_first:
  assumes "first \<le> h" "h > ClaimBackupPeriod + first"
  shows "unat (h - ClaimBackupPeriod - 1) = unat h - 86240" "unat (h - ClaimBackupPeriod - 1 + 1) = unat h - 86239"
proof -
  have "86240 \<le> unat h" using gc_height [OF assms] .
  then have le: "(86240::u64) \<le> h" "(86239::u64) \<le> h" by (simp_all add: word_le_nat_alt)
  show "unat (h - ClaimBackupPeriod - 1) = unat h - 86240" "unat (h - ClaimBackupPeriod - 1 + 1) = unat h - 86239"
    using unat_sub [OF le(1)] unat_sub [OF le(2)] by (simp_all add: ClaimBackupPeriod_def)
qed

lemma gc_below_first:
  assumes "first \<le> h" "h > ClaimBackupPeriod + first" "first \<le> x" "x \<le> h - ClaimBackupPeriod - 1"
  shows "x < h - ClaimBackupPeriod - 1 + 1" "first < h - ClaimBackupPeriod - 1 + 1"
proof -
  have "unat x \<le> unat h - 86240" "unat first \<le> unat x"
    using assms(3,4) by (simp_all add: word_le_nat_alt gc_first [OF assms(1,2)])
  then show "x < h - ClaimBackupPeriod - 1 + 1" "first < h - ClaimBackupPeriod - 1 + 1"
    using gc_height [OF assms(1,2)] unfolding word_less_nat_alt gc_first(2) [OF assms(1,2)] by simp_all
qed

lemma writeClaimBackupInfo_ok:
  assumes cb: "backup_ok cb" and le: "FirstBlockHeight (backup_info cb) \<le> LastBlockHeight (backup_info cb)"
    and h: "LastBlockHeight (backup_info cb) < h"
  shows "\<exists>cb'. writeClaimBackupInfo cb h = Inr cb' \<and> backup_ok cb' \<and>
    LastBlockHeight (backup_info cb') = h \<and> FirstBlockHeight (backup_info cb') \<le> h \<and>
    FirstBlockHeight (backup_info cb) \<le> FirstBlockHeight (backup_info cb') \<and>
    (FirstBlockHeight (backup_info cb) \<noteq> 0 \<and> h \<le> ClaimBackupPeriod + FirstBlockHeight (backup_info cb) \<longrightarrow>
       FirstBlockHeight (backup_info cb') = FirstBlockHeight (backup_info cb)) \<and>
    (\<forall>x a. FirstBlockHeight (backup_info cb') \<le> x \<longrightarrow> backup_at cb' x a = backup_at cb x a) \<and>
    (\<forall>x a. backup_at cb x a = None \<longrightarrow> backup_at cb' x a = None)"
proof -
  define i0 where "i0 = backup_info cb"
  define i1 where "i1 = (if FirstBlockHeight i0 = 0 then i0\<lparr>FirstBlockHeight := h\<rparr> else i0)"
  define i2 where "i2 = (if LastBlockHeight i1 = 0 then i1\<lparr>LastBlockHeight := h\<rparr> else i1)"
  define gc where "gc = (h > ClaimBackupPeriod + FirstBlockHeight i2)"
  define g where "g = h - ClaimBackupPeriod - 1"
  define cb1 where "cb1 = (if gc then garbageCollectClaimBackupDB cb (FirstBlockHeight i2) g else cb)"
  define i3 where "i3 = (if gc \<and> FirstBlockHeight i2 < g + 1 then i2\<lparr>FirstBlockHeight := g + 1\<rparr> else i2)"
  define i4 where "i4 = (if LastBlockHeight i3 < h then i3\<lparr>LastBlockHeight := h\<rparr> else i3)"
  have kv: "kv_ok cb" using cb by (simp add: backup_ok_def)
  have dec: "(case Bucket_Get cb PrefixManagement ClaimBackupInfo_ID of
      None \<Rightarrow> Inr zero_ClaimBackupInfo | Some bs \<Rightarrow> ClaimBackupInfo_SetBytes zero_ClaimBackupInfo bs) = Inr i0"
    using backup_ok_info [OF cb] by (auto simp: i0_def backup_info_def Bucket_Get_def ClaimBackupInfo_ID_def split: option.splits)
  have w: "writeClaimBackupInfo cb h = Inr (kv_put PrefixManagement (ClaimBackupInfo_Bytes i4) cb1)"
    unfolding writeClaimBackupInfo_def dec
      bindE_simps Let_def i4_def i3_def cb1_def g_def gc_def i2_def i1_def
    by (simp only: Bucket_Set_def internalKey_append ClaimBackupInfo_ID_def append_Nil2)
  have cb1: "backup_ok cb1" using gc_get [OF cb] cb by (auto simp: cb1_def)
  then have kv1: "kv_ok cb1" by (simp add: backup_ok_def)
  have last: "LastBlockHeight i4 = h" using h by (auto simp: i4_def i3_def i2_def i1_def i0_def)
  have f2: "FirstBlockHeight i2 \<le> h" using le h by (auto simp: i2_def i1_def i0_def)
  have "g + 1 \<le> h" if gc
    using gc_first [OF f2] that by (simp add: gc_def g_def word_le_nat_alt)
  then have f4: "FirstBlockHeight i4 \<le> h" using f2 by (auto simp: i4_def i3_def)
  have "FirstBlockHeight i0 \<le> FirstBlockHeight i4" by (auto simp: i4_def i3_def i2_def i1_def)
  moreover have "FirstBlockHeight i4 = FirstBlockHeight i0"
    if "FirstBlockHeight i0 \<noteq> 0" "h \<le> ClaimBackupPeriod + FirstBlockHeight i0"
    using that by (auto simp: i4_def i3_def gc_def i2_def i1_def not_less)
  ultimately have f0: "FirstBlockHeight (backup_info cb) \<le> FirstBlockHeight i4"
    "FirstBlockHeight (backup_info cb) \<noteq> 0 \<and> h \<le> ClaimBackupPeriod + FirstBlockHeight (backup_info cb) \<longrightarrow>
       FirstBlockHeight i4 = FirstBlockHeight (backup_info cb)" by (simp_all add: i0_def)
  have at: "backup_at cb1 x a = (if gc \<and> FirstBlockHeight i2 \<le> x \<and> x \<le> g then None else backup_at cb x a)" for x a
    using gc_get [OF cb, of "FirstBlockHeight i2" g "bh_key x @ a"]
    by (auto simp: cb1_def backup_at_def)
  have out: "\<not> (gc \<and> FirstBlockHeight i2 \<le> x \<and> x \<le> g)" if "FirstBlockHeight i4 \<le> x" for x
  proof
    assume *: "gc \<and> FirstBlockHeight i2 \<le> x \<and> x \<le> g"
    then have "x < g + 1" "FirstBlockHeight i2 < g + 1"
      using gc_below_first [OF f2, of x] by (auto simp: gc_def g_def)
    with * that show False by (auto simp: i4_def i3_def split: if_splits)
  qed
  show ?thesis
    using w cb1 kv1 last f4 f0 out
    by (intro exI [of _ "kv_put PrefixManagement (ClaimBackupInfo_Bytes i4) cb1"]) (auto simp: at)
qed

section \<open>The claim database a rollback gives back\<close>

definition claims_ok :: "claim_dbs \<Rightarrow> bool" where
  "claims_ok dbs \<longleftrightarrow>
     preCommit_ok (preCommit_db dbs) \<and> claim_ok (claim_db dbs) \<and> backup_ok (claimBackup_db dbs) \<and>
     FirstBlockHeight (backup_info (claimBackup_db dbs)) \<le> LastBlockHeight (backup_info (claimBackup_db dbs)) \<and>
     (\<forall>h a. LastBlockHeight (backup_info (claimBackup_db dbs)) \<le> h \<longrightarrow> backup_at (claimBackup_db dbs) h a = None)"

definition last_height :: "claim_dbs \<Rightarrow> u64" where
  "last_height dbs = LastBlockHeight (backup_info (claimBackup_db dbs))"

definition first_height :: "claim_dbs \<Rightarrow> u64" where
  "first_height dbs = FirstBlockHeight (backup_info (claimBackup_db dbs))"

definition claim_view :: "claim_dbs \<Rightarrow> u64 \<Rightarrow> bytes \<Rightarrow> obj option" where
  "claim_view dbs to a =
     undo_all (claimBackup_db dbs) (rollback_heights (last_height dbs) to) a (kv_get a (claim_db dbs))"

lemma undo_all_None: "(\<And>h. h \<in> set hs \<Longrightarrow> backup_at cb h a = None) \<Longrightarrow> undo_all cb hs a x = x"
  unfolding undo_all_def by (induction hs arbitrary: x) (auto simp: undo_def)

lemma undo_all_append: "undo_all cb (xs @ ys) a x = undo_all cb ys a (undo_all cb xs a x)"
  by (simp add: undo_all_def)

lemma rollback_heights_split:
  assumes "m \<le> n" "unat to \<le> Suc (unat m)"
  shows "rollback_heights n to = rollback_heights n (m + 1) @ rollback_heights m to \<or>
    (m = n \<and> rollback_heights n to = rollback_heights m to)"
proof (cases "m = n")
  case False
  with assms(1) have "m < n" by simp
  then have m1: "unat (m + 1) = Suc (unat m)" using unat_add_1_less_max by simp
  have "[unat to..<Suc (unat n)] = [unat to..<Suc (unat m)] @ [Suc (unat m)..<Suc (unat n)]"
    using assms \<open>m < n\<close> upt_add_eq_append [of "unat to" "Suc (unat m)" "unat n - unat m"]
    by (simp add: word_less_nat_alt)
  then have "rollback_heights n to = rollback_heights n (m + 1) @ rollback_heights m to"
    unfolding rollback_heights_def m1 by (simp only: map_append rev_append)
  then show ?thesis ..
qed simp

lemma undo_all_extend:
  assumes "m \<le> n" "\<And>x. m < x \<Longrightarrow> x \<le> n \<Longrightarrow> backup_at cb x a = None"
  shows "undo_all cb (rollback_heights n to) a x = undo_all cb (rollback_heights m to) a x"
proof (cases "unat to \<le> Suc (unat m)")
  case True
  have "undo_all cb (rollback_heights n (m + 1)) a x = x" if "m < n" for x
  proof (rule undo_all_None)
    fix h assume "h \<in> set (rollback_heights n (m + 1))"
    then have "m + 1 \<le> h" "h \<le> n" by (simp_all add: set_rollback_heights)
    moreover have "m < m + 1" using unat_add_1_less_max [OF that] by (simp add: word_less_nat_alt)
    ultimately show "backup_at cb h a = None" using assms(2) by (meson order_less_le_trans)
  qed
  then show ?thesis
    using rollback_heights_split [OF assms(1) True] assms(1)
    by (cases "m = n") (auto simp: undo_all_append)
next
  case False
  then have "m < to" by (simp add: word_less_nat_alt)
  have "undo_all cb (rollback_heights n to) a x = x"
    by (rule undo_all_None) (use assms \<open>m < to\<close> in \<open>auto simp: set_rollback_heights\<close>)
  moreover have "undo_all cb (rollback_heights m to) a x = x"
    by (rule undo_all_None) (use \<open>m < to\<close> in \<open>auto simp: set_rollback_heights\<close>)
  ultimately show ?thesis by simp
qed

lemma rollback_heights_Cons:
  assumes "to \<le> n"
  shows "\<exists>hs. rollback_heights n to = n # hs \<and> (\<forall>x \<in> set hs. to \<le> x \<and> x < n)"
proof -
  have "rollback_heights n to = n # rev (map of_nat [unat to..<unat n])"
    using assms by (simp add: rollback_heights_def word_le_nat_alt)
  moreover have "n \<notin> set (rev (map of_nat [unat to..<unat n]))"
    using distinct_rollback_heights [of n to] unfolding calculation by (simp only: distinct.simps not_False_eq_True)
  ultimately show ?thesis
    using set_rollback_heights [of n to] by (intro exI conjI) (auto simp: order_less_le)
qed

lemma undo_all_Cons: "undo_all cb (h # hs) a x = undo_all cb hs a (undo (backup_at cb h a) x)"
  by (simp add: undo_all_def)

text \<open>The entries of a block in the pre-commit database.\<close>

lemma pc_entries_of_block:
  assumes "preCommit_ok db"
    "es = (case MakeIteratorPrefix PrefixClaim h hash BlockHashSize of (s, l) \<Rightarrow> Iterator_New db (Some s) l)"
  shows "\<forall>p \<in> set es. \<exists>q. pc_entry_ok (fst p) (snd p) q \<and> pcm_BlockHeight q = h"
proof
  fix p assume p: "p \<in> set es"
  obtain r where "es = Iterator_prefix db (bh_key h @ r)"
    using assms(2) MakeIteratorPrefix_height [of h] MakeIteratorPrefix_block [of h]
    by (cases hash) (auto simp: Iterator_prefix_def intro: that [of "[]"])
  with p have "p \<in> set db" "take (length (bh_key h @ r)) (fst p) = bh_key h @ r"
    by (auto simp: Iterator_prefix_eq)
  then have db: "p \<in> set db" and t: "take 8 (fst p) = bh_key h"
    by (auto dest: arg_cong [of _ _ "take 8"] simp: min_def)
  then obtain q where q: "pc_entry_ok (fst p) (snd p) q" using assms(1) by (auto simp: preCommit_ok_def)
  with t pc_entry_key [OF q] have "bh_key (pcm_BlockHeight q) = bh_key h" by simp
  with q show "\<exists>q. pc_entry_ok (fst p) (snd p) q \<and> pcm_BlockHeight q = h" by auto
qed

lemma preCommit_ok_flush: "preCommit_ok db \<Longrightarrow> preCommit_ok (flushPreCommit db h hash)"
proof -
  assume ok: "preCommit_ok db"
  then have k: "pc_keys_ok db" by (rule preCommit_ok_keys)
  have "kv_ok (flushPreCommit db h hash)" using pc_keys_ok_flushPreCommit [OF k] by (simp add: pc_keys_ok_def)
  moreover have "set (flushPreCommit db h hash) \<subseteq> set db"
    unfolding flushPreCommit_def by (auto simp: deletePreCommit_fold [OF k] split: prod.split dest: set_fold_del [THEN subsetD])
  ultimately show ?thesis using ok by (auto simp: preCommit_ok_def)
qed

text \<open>
  COMMIT_BLOCK of a new height: it succeeds, keeps the databases well-formed, and what a
  rollback to an earlier height gives back is unchanged.
\<close>

lemma commit_block_view:
  assumes ok: "claims_ok dbs" and h: "last_height dbs < h"
  shows "\<exists>dbs'. writePreCommitToClaimDB dbs h hash = Some (None, dbs') \<and> claims_ok dbs' \<and> last_height dbs' = h \<and>
    first_height dbs \<le> first_height dbs' \<and>
    (first_height dbs \<noteq> 0 \<and> h \<le> ClaimBackupPeriod + first_height dbs \<longrightarrow> first_height dbs' = first_height dbs) \<and>
    (\<forall>to a. first_height dbs' \<le> to \<and> to < h \<longrightarrow> claim_view dbs' to a = claim_view dbs to a)"
proof -
  define cb where "cb = claimBackup_db dbs"
  define c where "c = claim_db dbs"
  define es where "es = (case MakeIteratorPrefix PrefixClaim h hash BlockHashSize of (s, l) \<Rightarrow>
      Iterator_New (preCommit_db dbs) (Some s) l)"
  have cb: "backup_ok cb" "FirstBlockHeight (backup_info cb) \<le> LastBlockHeight (backup_info cb)"
    and none: "\<And>x a. LastBlockHeight (backup_info cb) \<le> x \<Longrightarrow> backup_at cb x a = None"
    and c: "claim_ok c" and pc: "preCommit_ok (preCommit_db dbs)"
    using ok by (auto simp: claims_ok_def cb_def c_def)
  have h0: "h \<noteq> 0" and hL: "LastBlockHeight (backup_info cb) \<le> h - 1" and h1: "h - 1 < h"
    using h by (auto simp: last_height_def cb_def unat_sub_if' word_less_nat_alt word_le_nat_alt unat_eq_0)
  have gt: "h \<le> x" if "h - 1 < x" for x
    using that unat_minus_one [OF h0] by (simp add: word_less_nat_alt word_le_nat_alt)
  have ents: "\<forall>p \<in> set es. \<exists>q. pc_entry_ok (fst p) (snd p) q \<and> pcm_BlockHeight q = h"
    using pc_entries_of_block [OF pc es_def] .
  obtain c1 cb1 where loop: "writePreCommit_loop h zero_PreCommit es c cb = Some (None, c1, cb1)"
    and rel: "commit_rel h c cb c1 cb1"
    using writePreCommit_loop_rel [OF commit_rel_refl [OF c cb(1)] h0 _ ents, of zero_PreCommit]
    by (auto simp: zero_PreCommit_def zero_Claim_def zero_address_def)
  have "take 8 PrefixManagement \<noteq> bh_key (h - 1)"
    using bh_key_neq_mgmt(2) [of "h - 1" "[]"] by simp
  then have "kv_get PrefixManagement cb1 = kv_get PrefixManagement cb"
    using rel by (simp add: commit_rel_def)
  then have cb1: "backup_ok cb1" "backup_info cb1 = backup_info cb" and c1: "claim_ok c1"
    using rel by (auto simp: commit_rel_def backup_info_def Bucket_Get_def ClaimBackupInfo_ID_def)
  obtain cb2 where info: "writeClaimBackupInfo cb1 h = Inr cb2" and cb2: "backup_ok cb2"
    "LastBlockHeight (backup_info cb2) = h" "FirstBlockHeight (backup_info cb2) \<le> h"
    "FirstBlockHeight (backup_info cb1) \<le> FirstBlockHeight (backup_info cb2)"
    "FirstBlockHeight (backup_info cb1) \<noteq> 0 \<and> h \<le> ClaimBackupPeriod + FirstBlockHeight (backup_info cb1) \<longrightarrow>
       FirstBlockHeight (backup_info cb2) = FirstBlockHeight (backup_info cb1)"
    and at: "\<And>x a. FirstBlockHeight (backup_info cb2) \<le> x \<Longrightarrow> backup_at cb2 x a = backup_at cb1 x a"
    and still: "\<And>x a. backup_at cb1 x a = None \<Longrightarrow> backup_at cb2 x a = None"
    using writeClaimBackupInfo_ok [OF cb1(1), of h] cb cb1(2) h by (auto simp: last_height_def cb_def)
  have other: "backup_at cb1 x a = backup_at cb x a" if "x \<noteq> h - 1" for x a
    using rel that by (simp add: commit_rel_def backup_at_def)
  have above: "backup_at cb2 x a = None" if "h \<le> x" for x a
    using that h1 hL by (intro still) (auto simp: other none)
  have undo1: "undo (backup_at cb1 (h - 1) a) (kv_get a c1) = kv_get a c" for a
  proof -
    consider "kv_get a c1 = kv_get a c" "backup_at cb1 (h - 1) a = backup_at cb (h - 1) a"
      | "backup_at cb1 (h - 1) a = Some (case kv_get a c of None \<Rightarrow> no_claim | Some v \<Rightarrow> v)"
      using rel unfolding commit_rel_def by blast
    then show ?thesis
    proof cases
      case 1
      then show ?thesis using none [OF hL, of a] by (simp add: undo_def)
    next
      case 2
      have "v \<noteq> no_claim" if "kv_get a c = Some v" for v
        using claim_ok_get [OF c that] by (auto simp: no_claim_def)
      with 2 show ?thesis by (cases "kv_get a c") (auto simp: undo_def)
    qed
  qed
  define dbs' where "dbs' = dbs\<lparr>claim_db := c1, claimBackup_db := cb2,
      preCommit_db := flushPreCommit (preCommit_db dbs) h None\<rparr>"
  have run: "writePreCommitToClaimDB dbs h hash = Some (None, dbs')"
    using loop info unfolding writePreCommitToClaimDB_def es_def c_def cb_def dbs'_def
    by (simp split: prod.splits)
  have "claims_ok dbs'" "last_height dbs' = h" "first_height dbs \<le> first_height dbs'"
    "first_height dbs \<noteq> 0 \<and> h \<le> ClaimBackupPeriod + first_height dbs \<longrightarrow> first_height dbs' = first_height dbs"
    using c1 cb1(2) cb2 above pc
    by (auto simp: claims_ok_def dbs'_def last_height_def first_height_def cb_def preCommit_ok_flush)
  moreover have "claim_view dbs' to a = claim_view dbs to a"
    if to: "first_height dbs' \<le> to" "to < h" for to a
  proof -
    have le: "to \<le> h - 1" using to(2) h0 by (simp add: word_less_nat_alt word_le_nat_alt unat_sub_if' unat_eq_0)
    obtain hs where hs: "rollback_heights (h - 1) to = (h - 1) # hs" "\<forall>x \<in> set hs. to \<le> x \<and> x < h - 1"
      using rollback_heights_Cons [OF le] by blast
    have "claim_view dbs' to a = undo_all cb2 (rollback_heights (h - 1) to) a (kv_get a c1)"
      unfolding claim_view_def \<open>last_height dbs' = h\<close>
      using undo_all_extend [of "h - 1" h cb2 a to, OF less_imp_le [OF h1] above [OF gt]] by (simp add: dbs'_def)
    also have "\<dots> = undo_all cb2 hs a (kv_get a c)"
      unfolding hs(1) undo_all_Cons using at [of "h - 1" a] to le undo1 [of a]
      by (simp add: first_height_def dbs'_def)
    also have "\<dots> = undo_all cb hs a (kv_get a c)"
      using hs(2) at to other by (intro undo_all_cong) (auto simp: first_height_def dbs'_def)
    also have "\<dots> = undo_all cb (rollback_heights (h - 1) to) a (kv_get a c)"
      unfolding hs(1) undo_all_Cons using none [OF hL] by (simp add: undo_def)
    also have "\<dots> = claim_view dbs to a"
      unfolding claim_view_def last_height_def cb_def [symmetric] c_def [symmetric]
      using none by (intro undo_all_extend [OF hL]) auto
    finally show ?thesis .
  qed
  ultimately show ?thesis using run by blast
qed

section \<open>Rolling back\<close>

lemma claim_okI:
  assumes "kv_ok c" "\<And>a v. kv_get a c = Some v \<Longrightarrow> length a = 21 \<and> (\<exists>d. v = enc_ClaimData d \<and> cd_BlockHeight d \<noteq> 0)"
  shows "claim_ok c"
  using assms by (auto simp: claim_ok_def size_defs kv_get_iff)

lemma backup_at_ok:
  assumes "backup_ok cb" "backup_at cb h a = Some v"
  shows "length a = 21 \<and> (\<exists>d. v = enc_ClaimData d \<and> (cd_BlockHeight d = 0 \<longrightarrow> cd_IScore d = 0))"
proof -
  from assms have "length a = 21" "(bh_key h @ a, v) \<in> set cb"
    by (auto simp: backup_at_def size_defs backup_ok_def kv_get_iff split: if_splits)
  with assms(1) show ?thesis by (fastforce simp: backup_ok_def backup_entry_ok_def)
qed

lemma undo_all_ok:
  assumes "backup_ok cb" "undo_all cb hs a x = Some v"
    and "\<And>w. x = Some w \<Longrightarrow> length a = 21 \<and> (\<exists>d. w = enc_ClaimData d \<and> cd_BlockHeight d \<noteq> 0)"
  shows "length a = 21 \<and> (\<exists>d. v = enc_ClaimData d \<and> cd_BlockHeight d \<noteq> 0)"
  using assms(2,3)
proof (induction hs arbitrary: x)
  case (Cons h hs)
  show ?case
  proof (rule Cons.IH)
    show "undo_all cb hs a (undo (backup_at cb h a) x) = Some v" using Cons.prems(1) by (simp add: undo_all_Cons)
    fix w assume "undo (backup_at cb h a) x = Some w"
    then show "length a = 21 \<and> (\<exists>d. w = enc_ClaimData d \<and> cd_BlockHeight d \<noteq> 0)"
      using Cons.prems(2) backup_at_ok [OF assms(1), of h a]
      by (auto simp: undo_def no_claim_def split: option.splits if_splits)
  qed
qed (simp add: undo_all_def)

lemma rollbackClaimDB_core_ok:
  assumes ok: "claims_ok dbs" and to: "first_height dbs \<le> to" "to < last_height dbs" "to \<noteq> 0"
  shows "\<exists>dbs'. rollbackClaimDB_core dbs to = Some (Inr (True, dbs')) \<and> claims_ok dbs' \<and> last_height dbs' = to \<and>
    first_height dbs' = first_height dbs \<and> preCommit_db dbs' = preCommit_db dbs \<and>
    (\<forall>a. kv_get a (claim_db dbs') = claim_view dbs to a)"
proof -
  define cb where "cb = claimBackup_db dbs"
  define c where "c = claim_db dbs"
  define i where "i = backup_info cb"
  obtain cb1 c1 where fold: "fold rollbackClaimDB_at (rollback_heights (LastBlockHeight i) to) (cb, c) = (cb1, c1)"
    by fastforce
  have cb: "backup_ok cb" and c: "claim_ok c" "kv_ok c"
    and none: "\<And>h a. LastBlockHeight i \<le> h \<Longrightarrow> backup_at cb h a = None"
    using ok by (auto simp: claims_ok_def cb_def c_def i_def claim_ok_def)
  note r = fold_rollbackClaimDB_at [OF cb c(2) distinct_rollback_heights fold]
  define dbs' where "dbs' = dbs\<lparr>claim_db := c1, claimBackup_db := kv_put PrefixManagement
      (ClaimBackupInfo_Bytes (i\<lparr>LastBlockHeight := to\<rparr>)) cb1\<rparr>"
  have chk: "checkClaimDBRollback i to = (True, None)"
    using to by (simp add: checkClaimDBRollback_def i_def cb_def first_height_def last_height_def not_less not_le)
  have core: "rollbackClaimDB_core dbs to = Some (Inr (True, dbs'))"
    unfolding rollbackClaimDB_core_def backup_info_def [symmetric] Let_def cb_def [symmetric] c_def [symmetric]
      i_def [symmetric] chk
    using to(3) fold by (simp add: dbs'_def Bucket_Set_def ClaimBackupInfo_ID_def)
  have cb1: "backup_ok cb1" "kv_ok cb1" using r by (auto simp: backup_ok_def)
  have get: "kv_get a c1 = claim_view dbs to a" for a
    using r [of a] by (simp add: claim_view_def last_height_def cb_def [symmetric] c_def [symmetric] i_def [symmetric])
  have "claim_ok c1"
  proof (rule claim_okI)
    fix a v assume "kv_get a c1 = Some v"
    then have "undo_all cb (rollback_heights (LastBlockHeight i) to) a (kv_get a c) = Some v" using r [of a] by simp
    then show "length a = 21 \<and> (\<exists>d. v = enc_ClaimData d \<and> cd_BlockHeight d \<noteq> 0)"
      using c by (elim undo_all_ok [OF cb]) (auto simp: claim_ok_def kv_get_iff size_defs)
  qed (use r in auto)
  moreover have "backup_at cb1 h a = None" if "to \<le> h" for h a
  proof (cases "h \<le> LastBlockHeight i")
    case True
    with that have "h \<in> set (rollback_heights (LastBlockHeight i) to)" by (simp add: set_rollback_heights)
    then show ?thesis using r [of a "bh_key h @ a"] by (auto simp: backup_at_def)
  next
    case False
    then have "backup_at cb h a = None" by (intro none) auto
    then show ?thesis using r [of a "bh_key h @ a"] by (auto simp: backup_at_def)
  qed
  ultimately have "claims_ok dbs'"
    using ok cb1 to by (auto simp: claims_ok_def dbs'_def first_height_def cb_def i_def)
  then show ?thesis
    using core get cb1 by (intro exI [of _ dbs'])
      (auto simp: dbs'_def last_height_def first_height_def i_def cb_def)
qed

section \<open>The life of the claim databases\<close>

text \<open>
  What the messages CLAIM, COMMIT_CLAIM, START_BLOCK, INIT and COMMIT_BLOCK do to the three
  databases. The label is the height of a committed block.
\<close>

inductive claim_step :: "claim_dbs \<Rightarrow> u64 option \<Rightarrow> claim_dbs \<Rightarrow> bool" where
  claim: "address_ok addr \<Longrightarrow>
    claim_step s None (s\<lparr>preCommit_db :=
      PreCommit_write (newPreCommit h hash txIndex txHash addr) (preCommit_db s) (Some amount)\<rparr>)"
| commit_claim: "address_ok addr \<Longrightarrow>
    PreCommit_commit (newPreCommit h hash txIndex txHash addr) (preCommit_db s) = Inr db \<Longrightarrow>
    claim_step s None (s\<lparr>preCommit_db := db\<rparr>)"
| revert_claim: "address_ok addr \<Longrightarrow>
    PreCommit_revert (newPreCommit h hash txIndex txHash addr) (preCommit_db s) = Inr db \<Longrightarrow>
    claim_step s None (s\<lparr>preCommit_db := db\<rparr>)"
| flush: "claim_step s None (s\<lparr>preCommit_db := flushPreCommit (preCommit_db s) h ohash\<rparr>)"
| init: "claim_step s None (s\<lparr>preCommit_db := initPreCommit (preCommit_db s) h\<rparr>)"
| commit_block: "last_height s < h \<Longrightarrow> writePreCommitToClaimDB s h ohash = Some (None, s') \<Longrightarrow>
    claim_step s (Some h) s'"

text \<open>Runs that commit only blocks above a height.\<close>

inductive claim_run :: "u64 \<Rightarrow> claim_dbs \<Rightarrow> claim_dbs \<Rightarrow> bool" for to :: u64 where
  refl: "claim_run to s s"
| step: "claim_run to s0 s \<Longrightarrow> claim_step s l s' \<Longrightarrow> (case l of None \<Rightarrow> True | Some h \<Rightarrow> to < h) \<Longrightarrow> claim_run to s0 s'"

inductive_cases claim_stepE: "claim_step s l s'"

lemma preCommit_ok_put:
  "preCommit_ok db \<Longrightarrow> pc_entry_ok k v pc \<Longrightarrow> preCommit_ok (kv_put k v db)"
  unfolding preCommit_ok_def Ball_def by (auto simp: kv_get_iff [symmetric] split: if_splits)

lemma preCommit_ok_subset: "preCommit_ok db \<Longrightarrow> kv_ok db' \<Longrightarrow> set db' \<subseteq> set db \<Longrightarrow> preCommit_ok db'"
  by (auto simp: preCommit_ok_def)

lemma newPreCommit_fields [simp]:
  "pcm_BlockHeight (newPreCommit h hash ti th addr) = h"
  "pcm_BlockHash (newPreCommit h hash ti th addr) = pad32 hash"
  "cl_Address (pcm_Claim (newPreCommit h hash ti th addr)) = addr"
  "pcm_Confirmed (newPreCommit h hash ti th addr) = False"
  "pcm_TXIndex (newPreCommit h hash ti th addr) = ti"
  by (simp_all add: newPreCommit_def copy_at_def pad32_def size_defs zero_PreCommit_def zero_Claim_def)

lemma preCommit_ok_write:
  assumes "preCommit_ok db" "address_ok addr"
  shows "preCommit_ok (PreCommit_write (newPreCommit h hash ti th addr) db (Some amount))"
proof -
  define pc where "pc = newPreCommit h hash ti th addr"
  define pc' where "pc' = pc\<lparr>pcm_Claim := (pcm_Claim pc)\<lparr>cl_Data := \<lparr>cd_BlockHeight = h, cd_IScore = amount\<rparr>\<rparr>\<rparr>"
  have "pc_entry_ok (PreCommit_ID pc') (PreCommit_Bytes pc') pc'"
    using assms(2) by (simp add: pc_entry_ok_def pc'_def pc_def size_defs)
  moreover have "PreCommit_write pc db (Some amount) = kv_put (PreCommit_ID pc') (PreCommit_Bytes pc') db"
    by (simp add: PreCommit_write_def Let_def Bucket_Set_def pc'_def pc_def)
  ultimately show ?thesis using assms(1) by (simp add: pc_def [symmetric] preCommit_ok_put)
qed

text \<open>A found pre-commit entry is the stored one.\<close>

lemma PreCommit_query_ok:
  assumes "preCommit_ok db" "address_ok addr" "PreCommit_query (newPreCommit h hash ti th addr) db = (True, pc')"
  shows "\<exists>k v. pc_entry_ok k v pc' \<and> kv_get k db = Some v \<and> k = PreCommit_ID pc' \<and> k = bh_key h @ pad32 hash @ addr"
proof -
  let ?pc = "newPreCommit h hash ti th addr"
  let ?k = "bh_key h @ pad32 hash @ addr"
  have a: "length addr = 21" using assms(2) by (simp add: address_ok_def size_defs)
  have key: "PreCommit_ID ?pc = ?k" by (simp add: PreCommit_ID_def GenPreCommitKey_append a)
  obtain v where v: "kv_get ?k db = Some v"
    using assms(3) by (auto simp: PreCommit_query_def Bucket_Get_def key split: option.splits)
  then obtain q where q: "pc_entry_ok ?k v q" using assms(1) by (auto simp: preCommit_ok_def kv_get_iff)
  have len: "length (pcm_BlockHash q) = 32" "length (cl_Address (pcm_Claim q)) = 21"
    using q by (auto simp: pc_entry_ok_def address_ok_def size_defs)
  have eq: "pcm_BlockHeight q = h" "pcm_BlockHash q = pad32 hash" "cl_Address (pcm_Claim q) = addr"
    using pc_entry_key [OF q] len a by (auto simp: append_eq_append_conv)
  have "PreCommit_SetBytes ?pc v = Inr pc'"
    using assms(3) v PreCommit_SetBytes_Bytes [of q ?pc] q a
    by (auto simp: PreCommit_query_def Bucket_Get_def key pc_entry_ok_def size_defs)
  then have "pc' = q"
    using PreCommit_SetBytes_Bytes [of q ?pc] q a eq
    by (auto simp: pc_entry_ok_def size_defs)
  with q v show ?thesis by (auto simp: pc_entry_ok_def)
qed

lemma preCommit_ok_commit:
  assumes "preCommit_ok db" "address_ok addr"
    "PreCommit_commit (newPreCommit h hash ti th addr) db = Inr db'"
  shows "preCommit_ok db'"
proof -
  obtain b pc' where q: "PreCommit_query (newPreCommit h hash ti th addr) db = (b, pc')" by fastforce
  show ?thesis
  proof (cases "b \<and> ti = pcm_TXIndex pc' \<and> \<not> pcm_Confirmed pc'")
    case True
    then obtain k v where e: "pc_entry_ok k v pc'" "k = PreCommit_ID pc'"
      using PreCommit_query_ok [OF assms(1,2), of h hash ti th pc'] q by auto
    let ?pc = "pc'\<lparr>pcm_Confirmed := True\<rparr>"
    have "pc_entry_ok (PreCommit_ID ?pc) (PreCommit_Bytes ?pc) ?pc"
      using e by (simp add: pc_entry_ok_def PreCommit_ID_def)
    moreover have "db' = kv_put (PreCommit_ID ?pc) (PreCommit_Bytes ?pc) db"
      using assms(3) q True by (simp add: PreCommit_commit_def PreCommit_write_def Bucket_Set_def Let_def)
    ultimately show ?thesis using assms(1) by (simp add: preCommit_ok_put)
  next
    case False
    then have "db' = db" using assms(3) q by (auto simp: PreCommit_commit_def split: bool.splits if_splits)
    then show ?thesis using assms(1) by simp
  qed
qed

lemma preCommit_ok_revert:
  assumes "preCommit_ok db" "PreCommit_revert pc db = Inr db'"
  shows "preCommit_ok db'"
proof -
  obtain b pc' where q: "PreCommit_query pc db = (b, pc')" by fastforce
  then have "db' = db \<or> db' = kv_del (PreCommit_ID pc') db"
    using assms(2) by (auto simp: PreCommit_revert_def PreCommit_delete_def Bucket_Delete_def split: bool.splits if_splits)
  moreover have "preCommit_ok (kv_del (PreCommit_ID pc') db)"
    using assms(1) by (rule preCommit_ok_subset) (use assms(1) in \<open>auto simp: preCommit_ok_def kv_del_def\<close>)
  ultimately show ?thesis using assms(1) by auto
qed

lemma preCommit_ok_init:
  assumes "preCommit_ok db"
  shows "preCommit_ok (initPreCommit db h)"
proof -
  have k: "pc_keys_ok db" using assms by (rule preCommit_ok_keys)
  have "kv_ok (initPreCommit db h)" using pc_keys_ok_initPreCommit [OF k] by (simp add: pc_keys_ok_def)
  moreover have "set (initPreCommit db h) \<subseteq> set db"
    unfolding initPreCommit_def by (auto simp: deletePreCommit_fold [OF k] split: prod.split dest: set_fold_del [THEN subsetD])
  ultimately show ?thesis using preCommit_ok_subset [OF assms] by blast
qed

lemma claims_ok_preCommit: "claims_ok s \<Longrightarrow> preCommit_ok db \<Longrightarrow> claims_ok (s\<lparr>preCommit_db := db\<rparr>)"
  by (simp add: claims_ok_def)

lemma claim_step_ok:
  assumes "claim_step s l s'" "claims_ok s"
  shows "claims_ok s' \<and> first_height s \<le> first_height s' \<and>
    (\<forall>to a. (case l of None \<Rightarrow> True | Some h \<Rightarrow> to < h) \<and> first_height s' \<le> to \<longrightarrow>
       claim_view s' to a = claim_view s to a)"
  using assms
proof (cases rule: claim_step.cases)
  case (commit_block h ohash)
  then show ?thesis using commit_block_view [OF assms(2) commit_block(2), of ohash] by auto
qed (auto intro!: claims_ok_preCommit preCommit_ok_write preCommit_ok_init preCommit_ok_flush
    elim: preCommit_ok_commit preCommit_ok_revert
    simp: claims_ok_def first_height_def claim_view_def last_height_def)

lemma claim_run_view:
  assumes "claim_run to s0 s" "claims_ok s0" "first_height s \<le> to"
  shows "claims_ok s \<and> claim_view s to a = claim_view s0 to a"
proof -
  have "claims_ok s \<and> (first_height s \<le> to \<longrightarrow> claim_view s to a = claim_view s0 to a)"
    using assms(1,2)
  proof (induction rule: claim_run.induct)
    case (step s0 s l s')
    then show ?case using claim_step_ok [OF step.hyps(2)] by (metis order_trans)
  qed simp
  with assms(3) show ?thesis by simp
qed

lemma claim_view_self:
  assumes "claims_ok s" "last_height s \<le> to"
  shows "claim_view s to a = kv_get a (claim_db s)"
  unfolding claim_view_def
  by (rule undo_all_None) (use assms in \<open>auto simp: set_rollback_heights claims_ok_def last_height_def\<close>)

section \<open>Rollback undoes exactly the later blocks\<close>

text \<open>
  C5: Rolling the claim database back to a height undoes exactly the blocks committed above
  it. From a well-formed state whose last committed block is not above \<open>to\<close>, let claims
  be made, confirmed, reverted and flushed and blocks above \<open>to\<close> be committed in any
  order the messages allow. As long as \<open>to\<close> is within the backup period, the rollback
  succeeds and the claim database is the one of the first state.
\<close>

theorem rollback_restores_claims:
  assumes "claims_ok s0" "claim_run to s0 s" "last_height s0 \<le> to"
    and "first_height s \<le> to" "to < last_height s" "to \<noteq> 0"
  shows "\<exists>s'. rollbackClaimDB_core s to = Some (Inr (True, s')) \<and> claim_db s' = claim_db s0 \<and>
    claims_ok s' \<and> last_height s' = to"
proof -
  have s: "claims_ok s" "\<And>a. claim_view s to a = kv_get a (claim_db s0)"
    using claim_run_view [OF assms(2,1,4)] claim_view_self [OF assms(1,3)] by auto
  obtain s' where s': "rollbackClaimDB_core s to = Some (Inr (True, s'))" "claims_ok s'" "last_height s' = to"
    "\<And>a. kv_get a (claim_db s') = claim_view s to a"
    using rollbackClaimDB_core_ok [OF s(1) assms(4,5,6)] by blast
  have "claim_db s' = claim_db s0"
    using s' s assms(1) by (intro kv_ext) (auto simp: claims_ok_def claim_ok_def)
  with s' show ?thesis by blast
qed

definition ex_addr :: address where "ex_addr = replicate 20 0 @ [7]"
definition ex_hash :: bytes where "ex_hash = replicate 32 5"

definition ex_base :: claim_dbs where
  "ex_base = \<lparr>preCommit_db = [], claim_db = [],
     claimBackup_db = [(PrefixManagement, ClaimBackupInfo_Bytes \<lparr>FirstBlockHeight = 1, LastBlockHeight = 1\<rparr>)]\<rparr>"

definition ex_claimed :: claim_dbs where
  "ex_claimed = ex_base\<lparr>preCommit_db := PreCommit_write (newPreCommit 2 ex_hash 0 [] ex_addr) (preCommit_db ex_base) (Some 3000)\<rparr>"

definition ex_confirmed :: claim_dbs where
  "ex_confirmed = ex_claimed\<lparr>preCommit_db :=
     (case PreCommit_commit (newPreCommit 2 ex_hash 0 [] ex_addr) (preCommit_db ex_claimed) of Inr d \<Rightarrow> d | Inl _ \<Rightarrow> [])\<rparr>"

definition ex_committed :: claim_dbs where
  "ex_committed = (case writePreCommitToClaimDB ex_confirmed 2 (Some ex_hash) of Some (None, d) \<Rightarrow> d | _ \<Rightarrow> ex_base)"

lemma ex_base_info: "backup_info (claimBackup_db ex_base) = \<lparr>FirstBlockHeight = 1, LastBlockHeight = 1\<rparr>"
  by (simp add: ex_base_def backup_info_def Bucket_Get_def ClaimBackupInfo_ID_def kv_get_def)

lemma ex_base_ok: "claims_ok ex_base" "last_height ex_base = 1" "first_height ex_base = 1"
  using ex_base_info
  by (auto simp: claims_ok_def last_height_def first_height_def ex_base_def preCommit_ok_def claim_ok_def
      backup_ok_def kv_ok_def backup_at_def kv_get_def)

lemma ex_addr_ok: "address_ok ex_addr"
  by (simp add: ex_addr_def address_ok_def size_defs)

definition ex_pc :: PreCommit where
  "ex_pc = (newPreCommit 2 ex_hash 0 [] ex_addr)
     \<lparr>pcm_Claim := \<lparr>cl_Address = ex_addr, cl_Data = \<lparr>cd_BlockHeight = 2, cd_IScore = 3000\<rparr>\<rparr>\<rparr>"

lemma ex_ID: "PreCommit_ID ex_pc = bh_key 2 @ ex_hash @ ex_addr"
  "PreCommit_ID (newPreCommit 2 ex_hash 0 [] ex_addr) = bh_key 2 @ ex_hash @ ex_addr"
  "PreCommit_ID (ex_pc\<lparr>pcm_Confirmed := True\<rparr>) = bh_key 2 @ ex_hash @ ex_addr"
proof -
  have "length ex_addr = 21" "length ex_hash = 32" by (simp_all add: ex_addr_def ex_hash_def)
  then show "PreCommit_ID ex_pc = bh_key 2 @ ex_hash @ ex_addr"
    "PreCommit_ID (newPreCommit 2 ex_hash 0 [] ex_addr) = bh_key 2 @ ex_hash @ ex_addr"
    "PreCommit_ID (ex_pc\<lparr>pcm_Confirmed := True\<rparr>) = bh_key 2 @ ex_hash @ ex_addr"
    by (simp_all add: PreCommit_ID_def ex_pc_def GenPreCommitKey_append)
qed

lemma ex_claimed_pc: "preCommit_db ex_claimed = [(bh_key 2 @ ex_hash @ ex_addr, PreCommit_Bytes ex_pc)]"
proof -
  have "PreCommit_write (newPreCommit 2 ex_hash 0 [] ex_addr) [] (Some 3000) =
      kv_put (PreCommit_ID ex_pc) (PreCommit_Bytes ex_pc) []"
    by (simp add: PreCommit_write_def Let_def ex_pc_def Bucket_Set_def newPreCommit_def zero_PreCommit_def zero_Claim_def)
  then show ?thesis by (simp add: ex_claimed_def ex_base_def ex_ID)
qed

lemma ex_commit: "PreCommit_commit (newPreCommit 2 ex_hash 0 [] ex_addr) (preCommit_db ex_claimed) =
    Inr [(bh_key 2 @ ex_hash @ ex_addr, PreCommit_Bytes (ex_pc\<lparr>pcm_Confirmed := True\<rparr>))]"
proof -
  have addr: "address_ok (cl_Address (pcm_Claim ex_pc))" "length ex_addr = AddressBytes"
    using ex_addr_ok by (simp_all add: ex_pc_def address_ok_def)
  have "PreCommit_SetBytes (newPreCommit 2 ex_hash 0 [] ex_addr) (PreCommit_Bytes ex_pc) = Inr ex_pc"
    using PreCommit_SetBytes_Bytes [OF addr(1), of "newPreCommit 2 ex_hash 0 [] ex_addr"] addr
    by (simp add: ex_pc_def newPreCommit_def)
  then have "PreCommit_query (newPreCommit 2 ex_hash 0 [] ex_addr) (preCommit_db ex_claimed) = (True, ex_pc)"
    by (simp add: PreCommit_query_def ex_claimed_pc Bucket_Get_def ex_ID kv_get_def)
  moreover have "pcm_TXIndex ex_pc = 0" "\<not> pcm_Confirmed ex_pc" by (simp_all add: ex_pc_def)
  ultimately show ?thesis
    by (simp add: PreCommit_commit_def PreCommit_write_def Let_def ex_ID Bucket_Set_def ex_claimed_pc)
qed

lemma ex_run: "claim_run 1 ex_base ex_committed" "first_height ex_committed = 1" "last_height ex_committed = 2"
proof -
  have step1: "claim_step ex_base None ex_claimed"
    unfolding ex_claimed_def by (rule claim_step.claim [OF ex_addr_ok])
  have step2: "claim_step ex_claimed None ex_confirmed"
    unfolding ex_confirmed_def ex_commit sum.case by (rule claim_step.commit_claim [OF ex_addr_ok ex_commit])
  have ok: "claims_ok ex_confirmed"
    using claim_step_ok [OF step1 ex_base_ok(1)] claim_step_ok [OF step2] by simp
  have hs: "first_height ex_confirmed = 1" "last_height ex_confirmed = 1"
    using ex_base_ok by (simp_all add: ex_confirmed_def ex_claimed_def first_height_def last_height_def)
  obtain d where d: "writePreCommitToClaimDB ex_confirmed 2 (Some ex_hash) = Some (None, d)"
    "last_height d = 2" "first_height d = 1"
    using commit_block_view [OF ok, of 2 "Some ex_hash"] hs by (auto simp: ClaimBackupPeriod_def)
  then have eq: "ex_committed = d" by (simp add: ex_committed_def)
  have step3: "claim_step ex_confirmed (Some 2) d" using d hs by (intro claim_step.commit_block) auto
  have "claim_run 1 ex_base ex_confirmed"
    using claim_run.step [OF claim_run.step [OF claim_run.refl step1] step2] by simp
  then show "claim_run 1 ex_base ex_committed" using claim_run.step [OF _ step3] eq by simp
  show "first_height ex_committed = 1" "last_height ex_committed = 2" using d eq by simp_all
qed

theorem rollback_restores_claims_witness:
  "\<exists>s'. rollbackClaimDB_core ex_committed 1 = Some (Inr (True, s')) \<and> claim_db s' = claim_db ex_base \<and>
    claims_ok s' \<and> last_height s' = 1"
  using rollback_restores_claims [OF ex_base_ok(1) ex_run(1)] ex_base_ok ex_run by simp

end
