(* ===== verification/ClaimMsgProps.thy ===== *)
theory ClaimMsgProps
  imports Messages ClaimRollback IScoreDbProps
begin

text \<open>
  Properties of the claim messages: what a CLAIM grants against what a QUERY shows, that it
  grants nothing twice, and that a claim which is confirmed and committed lowers the I-Score
  a QUERY shows by exactly the granted amount.
\<close>

section \<open>What committing a block does to one address\<close>

definition commit_value :: "PreCommit \<Rightarrow> obj option \<Rightarrow> obj option" where
  "commit_value q old =
     (let d = cl_Data (pcm_Claim q) in
      if \<not> pcm_Confirmed q \<or> cd_IScore d = 0 then old
      else case old of
        None \<Rightarrow> Some (enc_ClaimData d)
      | Some v \<Rightarrow>
          (case NewClaimFromBytes v of
             Inl _ \<Rightarrow> old
           | Inr o' \<Rightarrow>
               if cd_BlockHeight d \<le> cd_BlockHeight (cl_Data o') then old
               else Some (enc_ClaimData (d\<lparr>cd_IScore := cd_IScore d + cd_IScore (cl_Data o')\<rparr>))))"

lemma pc_entry_inject:
  assumes "pc_entry_ok k v q" "pc_entry_ok k v q1"
  shows "pcm_Confirmed q = pcm_Confirmed q1 \<and> pcm_Claim q = pcm_Claim q1"
proof -
  let ?f = "\<lambda>p. zero_PreCommit\<lparr>pcm_Confirmed := pcm_Confirmed p, pcm_TXIndex := pcm_TXIndex p,
      pcm_TXHash := pcm_TXHash p, pcm_Claim := pcm_Claim p\<rparr>"
  have "?f q = ?f q1"
    using PreCommit_SetBytes_Bytes [of q zero_PreCommit] PreCommit_SetBytes_Bytes [of q1 zero_PreCommit] assms
    by (simp add: pc_entry_ok_def zero_PreCommit_def zero_Claim_def zero_address_def)
  then have "pcm_Confirmed (?f q) = pcm_Confirmed (?f q1)" "pcm_Claim (?f q) = pcm_Claim (?f q1)" by presburger+
  then show ?thesis by simp
qed

lemma writePreCommit_loop_other:
  assumes "writePreCommit_loop h pc es c cb = Some (None, c', cb')" "kv_ok c"
    and "\<forall>p \<in> set es. \<exists>q. pc_entry_ok (fst p) (snd p) q \<and> cl_Address (pcm_Claim q) \<noteq> a"
    and "length (cl_Address (pcm_Claim pc)) = AddressBytes"
  shows "kv_get a c' = kv_get a c"
  using assms
proof (induction es arbitrary: pc c cb)
  case (Cons p es)
  then obtain k v q where p: "p = (k, v)" and q: "pc_entry_ok k v q" "cl_Address (pcm_Claim q) \<noteq> a" by (cases p) auto
  have dec: "PreCommit_SetBytes pc v = Inr (pc\<lparr>pcm_Confirmed := pcm_Confirmed q, pcm_TXIndex := pcm_TXIndex q,
      pcm_TXHash := pcm_TXHash q, pcm_Claim := pcm_Claim q\<rparr>)"
    using q Cons.prems(4) by (simp add: pc_entry_ok_def PreCommit_SetBytes_Bytes)
  have len: "length (cl_Address (pcm_Claim q)) = AddressBytes"
    using q by (simp add: pc_entry_ok_def address_ok_def)
  show ?case
    using Cons.prems(1) unfolding p writePreCommit_loop.simps dec
    by (auto simp: Let_def split: if_splits option.splits sum.splits)
      (use Cons.IH Cons.prems(2,3) q(2) len in
        \<open>fastforce simp: p Bucket_Set_def Claim_ID_def Address_Bytes_def\<close>)+
qed simp

lemma writePreCommit_loop_get:
  assumes "writePreCommit_loop h pc es c cb = Some (None, c', cb')" "kv_ok c"
    and "\<forall>p \<in> set es. \<exists>q. pc_entry_ok (fst p) (snd p) q" "distinct (map (\<lambda>p. drop 40 (fst p)) es)"
    and "length (cl_Address (pcm_Claim pc)) = AddressBytes"
    and "(k, v) \<in> set es" "pc_entry_ok k v q"
  shows "kv_get (cl_Address (pcm_Claim q)) c' = commit_value q (kv_get (cl_Address (pcm_Claim q)) c)"
  using assms
proof (induction es arbitrary: pc c cb)
  case (Cons p es)
  obtain k1 v1 q1 where p: "p = (k1, v1)" and q1: "pc_entry_ok k1 v1 q1" using Cons.prems(3) by (cases p) auto
  have key: "drop 40 k2 = cl_Address (pcm_Claim q2)" if "pc_entry_ok k2 v2 q2" for k2 v2 q2
  proof -
    have "length (pcm_BlockHash q2) = BlockHashSize" "length (cl_Address (pcm_Claim q2)) = AddressBytes"
      using that by (auto simp: pc_entry_ok_def address_ok_def)
    then show ?thesis by (subst pc_entry_key [OF that]) (simp add: size_defs)
  qed
  have dec: "PreCommit_SetBytes pc v1 = Inr (pc\<lparr>pcm_Confirmed := pcm_Confirmed q1, pcm_TXIndex := pcm_TXIndex q1,
      pcm_TXHash := pcm_TXHash q1, pcm_Claim := pcm_Claim q1\<rparr>)"
    using q1 Cons.prems(5) by (simp add: pc_entry_ok_def PreCommit_SetBytes_Bytes)
  have len: "length (cl_Address (pcm_Claim q1)) = AddressBytes"
    using q1 by (simp add: pc_entry_ok_def address_ok_def)
  let ?pc = "pc\<lparr>pcm_Confirmed := pcm_Confirmed q1, pcm_TXIndex := pcm_TXIndex q1,
      pcm_TXHash := pcm_TXHash q1, pcm_Claim := pcm_Claim q1\<rparr>"
  obtain c1 cb1 where step: "writePreCommit_loop h ?pc es c1 cb1 = Some (None, c', cb')" "kv_ok c1"
    and c1: "\<And>a. kv_get a c1 = (if a = cl_Address (pcm_Claim q1) then commit_value q1 (kv_get a c) else kv_get a c)"
    using Cons.prems(1,2) unfolding p writePreCommit_loop.simps dec
    by (auto simp: Let_def commit_value_def Bucket_Get_def Bucket_Set_def Claim_ID_def Address_Bytes_def Claim_Bytes_def
        split: if_splits option.splits sum.splits)
  show ?case
  proof (cases "(k, v) = p")
    case True
    then have kv: "k = k1" "v = v1" using p by auto
    then have eqa: "cl_Address (pcm_Claim q) = cl_Address (pcm_Claim q1)"
      using key [OF Cons.prems(7)] key [OF q1] by simp
    have "pcm_Confirmed q = pcm_Confirmed q1 \<and> pcm_Claim q = pcm_Claim q1"
      using Cons.prems(7) q1 kv by (intro pc_entry_inject) auto
    then have cv: "commit_value q = commit_value q1" by (simp add: commit_value_def fun_eq_iff)
    have "\<forall>p \<in> set es. \<exists>q'. pc_entry_ok (fst p) (snd p) q' \<and> cl_Address (pcm_Claim q') \<noteq> cl_Address (pcm_Claim q)"
    proof
      fix e assume e: "e \<in> set es"
      then obtain q' where q': "pc_entry_ok (fst e) (snd e) q'" using Cons.prems(3) by auto
      have "drop 40 (fst e) \<noteq> drop 40 k1" using Cons.prems(4) e p by force
      then show "\<exists>q'. pc_entry_ok (fst e) (snd e) q' \<and> cl_Address (pcm_Claim q') \<noteq> cl_Address (pcm_Claim q)"
        using q' key [OF q'] key [OF q1] eqa by auto
    qed
    with writePreCommit_loop_other [OF step] len show ?thesis by (simp add: c1 eqa cv)
  next
    case False
    then have mem: "(k, v) \<in> set es" using Cons.prems(6) by auto
    then have "cl_Address (pcm_Claim q) \<noteq> cl_Address (pcm_Claim q1)"
      using Cons.prems(4) key [OF Cons.prems(7)] key [OF q1] p by force
    then have "kv_get (cl_Address (pcm_Claim q)) c1 = kv_get (cl_Address (pcm_Claim q)) c" by (simp add: c1)
    moreover have "kv_get (cl_Address (pcm_Claim q)) c' = commit_value q (kv_get (cl_Address (pcm_Claim q)) c1)"
      using Cons.prems(3,4,7) mem len by (intro Cons.IH [OF step]) auto
    ultimately show ?thesis by simp
  qed
qed simp


text \<open>The pre-commit entries of one block have different addresses.\<close>

lemma block_entries_distinct:
  assumes "kv_ok db" "n = length r"
  shows "distinct (map (\<lambda>p. drop n (fst p)) (Iterator_prefix db r))"
proof -
  have "kv_ok (Iterator_prefix db r)" using assms(1) by (rule kv_ok_Iterator_prefix)
  then have d: "distinct (map fst (Iterator_prefix db r))" by (rule kv_ok_distinct)
  have "inj_on (drop n) (set (map fst (Iterator_prefix db r)))"
  proof (rule inj_onI)
    fix x y
    assume xy: "x \<in> set (map fst (Iterator_prefix db r))" "y \<in> set (map fst (Iterator_prefix db r))"
      "drop n x = drop n y"
    then have "take n x = r" "take n y = r" by (auto simp: Iterator_prefix_eq assms(2))
    with xy(3) show "x = y" by (metis append_take_drop_id)
  qed
  with d have "distinct (map (drop n) (map fst (Iterator_prefix db r)))" by (simp add: distinct_map comp_inj_on)
  then show ?thesis by (simp add: comp_def)
qed

definition claimed :: "Context \<Rightarrow> address \<Rightarrow> int" where
  "claimed ctx a = (case claim_of (claim_db (claims (DB ctx))) a of None \<Rightarrow> 0 | Some c \<Rightarrow> cd_IScore (cl_Data c))"

definition pending :: "Context \<Rightarrow> u64 \<Rightarrow> bytes \<Rightarrow> address \<Rightarrow> int" where
  "pending ctx h hash a =
     (case findPreCommit (preCommit_db (claims (DB ctx))) a h hash of
        None \<Rightarrow> 0
      | Some pc \<Rightarrow> if pcm_Confirmed pc then cd_IScore (cl_Data (pcm_Claim pc)) else 0)"

lemma findPreCommit_ok:
  assumes "preCommit_ok db" "address_ok a"
  shows "findPreCommit db a h hash = None \<longleftrightarrow> kv_get (bh_key h @ pad32 hash @ a) db = None"
    and "kv_get (bh_key h @ pad32 hash @ a) db = Some v \<Longrightarrow>
      \<exists>q. pc_entry_ok (bh_key h @ pad32 hash @ a) v q \<and> findPreCommit db a h hash = Some q \<and>
        pcm_BlockHeight q = h \<and> cl_Address (pcm_Claim q) = a"
proof -
  let ?k = "bh_key h @ pad32 hash @ a"
  have a: "length a = 21" using assms(2) by (simp add: address_ok_def size_defs)
  have key: "GenPreCommitKey a h hash = ?k" by (simp add: GenPreCommitKey_append a)
  have found: "\<exists>q. pc_entry_ok ?k v q \<and> findPreCommit db a h hash = Some q \<and>
        pcm_BlockHeight q = h \<and> cl_Address (pcm_Claim q) = a" if v: "kv_get ?k db = Some v" for v
  proof -
    obtain q where q: "pc_entry_ok ?k v q" using v assms(1) by (auto simp: preCommit_ok_def kv_get_iff)
    have len: "length (pcm_BlockHash q) = 32" "length (cl_Address (pcm_Claim q)) = 21"
      using q by (auto simp: pc_entry_ok_def address_ok_def size_defs)
    have eq: "pcm_BlockHeight q = h" "pcm_BlockHash q = pad32 hash" "cl_Address (pcm_Claim q) = a"
      using pc_entry_key [OF q] len a by (auto simp: append_eq_append_conv)
    let ?p = "zero_PreCommit\<lparr>pcm_Confirmed := pcm_Confirmed q, pcm_TXIndex := pcm_TXIndex q,
      pcm_TXHash := pcm_TXHash q, pcm_Claim := pcm_Claim q\<rparr>"
    have "PreCommit_SetBytes zero_PreCommit v = Inr ?p"
      using q by (simp add: pc_entry_ok_def PreCommit_SetBytes_Bytes zero_PreCommit_def zero_Claim_def zero_address_def)
    moreover have "PreCommit_SetID ?p ?k = q"
      using eq a SetBytes_Bytes [OF assms(2), of a] by (simp add: PreCommit_SetID_def size_defs Address_Bytes_def)
    ultimately show ?thesis
      using q eq v by (simp add: findPreCommit_def key Bucket_Get_def)
  qed
  then show "kv_get ?k db = Some v \<Longrightarrow> \<exists>q. pc_entry_ok ?k v q \<and> findPreCommit db a h hash = Some q \<and>
        pcm_BlockHeight q = h \<and> cl_Address (pcm_Claim q) = a" .
  show "findPreCommit db a h hash = None \<longleftrightarrow> kv_get ?k db = None"
    using found by (cases "kv_get ?k db") (fastforce simp: findPreCommit_def key Bucket_Get_def)+
qed

lemma commit_block_claim_db:
  assumes ok: "claims_ok dbs" and run: "writePreCommitToClaimDB dbs h (Some hash) = Some (None, dbs')" and a: "address_ok a"
  shows "kv_get a (claim_db dbs') =
    (case findPreCommit (preCommit_db dbs) a h hash of
       None \<Rightarrow> kv_get a (claim_db dbs) | Some q \<Rightarrow> commit_value q (kv_get a (claim_db dbs)))"
proof -
  define es where "es = Iterator_prefix (preCommit_db dbs) (bh_key h @ pad32 hash)"
  let ?k = "bh_key h @ pad32 hash @ a"
  have pc: "preCommit_ok (preCommit_db dbs)" "kv_ok (preCommit_db dbs)" and c: "kv_ok (claim_db dbs)"
    using ok by (auto simp: claims_ok_def preCommit_ok_def claim_ok_def)
  have es: "(case MakeIteratorPrefix PrefixClaim h (Some hash) BlockHashSize of (s, l) \<Rightarrow>
      Iterator_New (preCommit_db dbs) (Some s) l) = es"
    by (simp add: es_def MakeIteratorPrefix_block Iterator_prefix_def)
  obtain cb' where loop: "writePreCommit_loop h zero_PreCommit es (claim_db dbs) (claimBackup_db dbs) =
      Some (None, claim_db dbs', cb')"
    using run unfolding writePreCommitToClaimDB_def es [symmetric]
    by (auto split: prod.splits option.splits sum.splits)
  have ents: "\<forall>p \<in> set es. \<exists>q. pc_entry_ok (fst p) (snd p) q"
    using pc(1) by (auto simp: preCommit_ok_def es_def Iterator_prefix_eq)
  have dist: "distinct (map (\<lambda>p. drop 40 (fst p)) es)"
    unfolding es_def using pc(2) by (rule block_entries_distinct) simp
  have z: "length (cl_Address (pcm_Claim zero_PreCommit)) = AddressBytes"
    by (simp add: zero_PreCommit_def zero_Claim_def)
  show ?thesis
  proof (cases "kv_get ?k (preCommit_db dbs)")
    case None
    have "cl_Address (pcm_Claim q) \<noteq> a" if p: "(k, v) \<in> set es" and q: "pc_entry_ok k v q" for k v q
    proof
      assume qa: "cl_Address (pcm_Claim q) = a"
      have "take 40 k = bh_key h @ pad32 hash" "kv_get k (preCommit_db dbs) = Some v"
        using p pc(2) by (auto simp: es_def Iterator_prefix_eq kv_get_iff)
      moreover have "length (pcm_BlockHash q) = 32" using q by (simp add: pc_entry_ok_def size_defs)
      ultimately have "k = ?k" using pc_entry_key [OF q] qa by simp
      with \<open>kv_get k (preCommit_db dbs) = Some v\<close> None show False by simp
    qed
    with ents have "\<forall>p \<in> set es. \<exists>q. pc_entry_ok (fst p) (snd p) q \<and> cl_Address (pcm_Claim q) \<noteq> a"
      by (metis prod.collapse)
    from writePreCommit_loop_other [OF loop c this z] None show ?thesis
      using findPreCommit_ok(1) [OF pc(1) a, of h hash] by simp
  next
    case (Some v)
    obtain q where q: "pc_entry_ok ?k v q" "findPreCommit (preCommit_db dbs) a h hash = Some q"
      "cl_Address (pcm_Claim q) = a"
      using findPreCommit_ok(2) [OF pc(1) a Some] by blast
    have "(?k, v) \<in> set es" using Some pc(2) by (simp add: es_def Iterator_prefix_eq kv_get_iff)
    from writePreCommit_loop_get [OF loop c ents dist z this q(1)] q show ?thesis by simp
  qed
qed

lemma claim_of_get: "claim_of c a = (case kv_get a c of None \<Rightarrow> None | Some v \<Rightarrow>
    (case NewClaimFromBytes v of Inl _ \<Rightarrow> None | Inr x \<Rightarrow> Some x))"
  by (simp add: claim_of_def Bucket_Get_def Address_Bytes_def)

definition claim_below :: "Context \<Rightarrow> address \<Rightarrow> u64 \<Rightarrow> bool" where
  "claim_below ctx a h \<longleftrightarrow>
     (case claim_of (claim_db (claims (DB ctx))) a of None \<Rightarrow> True | Some c \<Rightarrow> cd_BlockHeight (cl_Data c) < h)"

lemma commitBlock_charges:
  assumes ok: "claims_ok (claims (DB ctx))" and h: "last_height (claims (DB ctx)) < h" and a: "address_ok a"
    and old: "claim_below ctx a h"
    and req: "req = \<lparr>cb_Success = True, cb_BlockHeight = h, cb_BlockHash = Some hash\<rparr>"
  shows "\<exists>ctx' dbs'. do_commitBlock ctx req = Some (req, ctx') \<and>
    ctx' = ctx\<lparr>DB := setCurrentBlockInfo h hash ((DB ctx)\<lparr>claims := dbs'\<rparr>)\<rparr> \<and> claims_ok dbs' \<and>
    claimed ctx' a = claimed ctx a + pending ctx h hash a \<and>
    (\<forall>hash'. findPreCommit (preCommit_db (claims (DB ctx'))) a h hash' = None)"
proof -
  obtain dbs' where run: "writePreCommitToClaimDB (claims (DB ctx)) h (Some hash) = Some (None, dbs')" and ok': "claims_ok dbs'"
    using commit_block_view [OF ok h, of "Some hash"] by blast
  have pc: "preCommit_ok (preCommit_db (claims (DB ctx)))" "preCommit_ok (preCommit_db dbs')"
    using ok ok' by (simp_all add: claims_ok_def)
  have flushed: "preCommit_db dbs' = flushPreCommit (preCommit_db (claims (DB ctx))) h None"
    using run by (auto simp: writePreCommitToClaimDB_def split: prod.splits option.splits sum.splits)
  define ctx' where "ctx' = ctx\<lparr>DB := setCurrentBlockInfo h hash ((DB ctx)\<lparr>claims := dbs'\<rparr>)\<rparr>"
  have cl: "claims (DB ctx') = dbs'" by (simp add: ctx'_def setCurrentBlockInfo_def)
  have "do_commitBlock ctx req = Some (req, ctx')"
    using run by (simp add: do_commitBlock_def req ctx'_def nonNilBytes_def)
  moreover have "claimed ctx' a = claimed ctx a + pending ctx h hash a"
  proof (cases "findPreCommit (preCommit_db (claims (DB ctx))) a h hash")
    case None
    then show ?thesis using commit_block_claim_db [OF ok run a]
      by (simp add: claimed_def pending_def claim_of_get cl)
  next
    case (Some q)
    then obtain v where v: "kv_get (bh_key h @ pad32 hash @ a) (preCommit_db (claims (DB ctx))) = Some v"
      using findPreCommit_ok(1) [OF pc(1) a, of h hash] by fastforce
    have q: "pc_entry_ok (bh_key h @ pad32 hash @ a) v q" "pcm_BlockHeight q = h"
      using findPreCommit_ok(2) [OF pc(1) a v] Some by auto
    have dh: "cd_BlockHeight (cl_Data (pcm_Claim q)) = h" using q by (simp add: pc_entry_ok_def)
    have get: "kv_get a (claim_db dbs') = commit_value q (kv_get a (claim_db (claims (DB ctx))))"
      using commit_block_claim_db [OF ok run a] Some by simp
    show ?thesis
    proof (cases "kv_get a (claim_db (claims (DB ctx)))")
      case None
      then show ?thesis using get Some
        by (simp add: claimed_def pending_def claim_of_get cl commit_value_def Let_def)
    next
      case (Some w)
      then obtain d where "w = enc_ClaimData d"
        using claim_ok_get [of "claim_db (claims (DB ctx))" a w] ok by (auto simp: claims_ok_def)
      then show ?thesis
        using get Some old dh \<open>findPreCommit (preCommit_db (claims (DB ctx))) a h hash = Some q\<close>
        by (auto simp: claimed_def pending_def claim_of_get cl commit_value_def Let_def claim_below_def)
    qed
  qed
  moreover have "findPreCommit (preCommit_db (claims (DB ctx'))) a h hash' = None" for hash'
    unfolding cl findPreCommit_ok(1) [OF pc(2) a]
    using flushPreCommit_get [OF preCommit_ok_keys [OF pc(1)], of "bh_key h @ pad32 hash' @ a" h None] flushed by simp
  ultimately show ?thesis using ok' ctx'_def by blast
qed

section \<open>Queries and claims\<close>

definition plain_query :: "address \<Rightarrow> Query" where
  "plain_query a = \<lparr>q_Address = a, q_BlockHeight = 0, q_BlockHash = None, q_TXHash = None\<rparr>"

text \<open>The account entry clients see: \<open>None\<close> when the entry cannot be read.\<close>

definition account_of :: "Context \<Rightarrow> address \<Rightarrow> IScoreAccount option option" where
  "account_of ctx a =
     (case getQueryDB (DB ctx) a of
        None \<Rightarrow> None
      | Some qDB \<Rightarrow>
          (case Bucket_Get (disk_read (dirs (DB ctx)) qDB) PrefixIScore (Address_Bytes a) of
             None \<Rightarrow> Some None
           | Some bs \<Rightarrow> (case NewIScoreAccountFromBytes bs of Inl _ \<Rightarrow> None | Inr ia \<Rightarrow> Some (Some ia))))"

lemma DoQuery_plain:
  "DoQuery ctx (plain_query a) =
     (case account_of ctx a of
        None \<Rightarrow> None
      | Some None \<Rightarrow> Some \<lparr>rq_Address = a, rq_IScore = 0, rq_BlockHeight = 0\<rparr>
      | Some (Some ia) \<Rightarrow> Some \<lparr>rq_Address = a, rq_IScore = ia_IScore ia - claimed ctx a,
                                 rq_BlockHeight = ia_BlockHeight ia\<rparr>)"
  by (simp add: DoQuery_def plain_query_def Let_def nonNilBytes_def account_of_def claimed_def
      split: option.splits sum.splits)

lemma DoQuery_not_pending:
  "findPreCommit (preCommit_db (claims (DB ctx))) (q_Address q) (q_BlockHeight q) (nonNilBytes (q_BlockHash q)) = None \<Longrightarrow>
     DoQuery ctx q = DoQuery ctx (plain_query (q_Address q))"
  by (simp add: DoQuery_def plain_query_def Let_def nonNilBytes_def split: option.split sum.split)

lemma account_of_cong:
  "getQueryDB (DB ctx') a = getQueryDB (DB ctx) a \<Longrightarrow> dirs (DB ctx') = dirs (DB ctx) \<Longrightarrow>
     account_of ctx' a = account_of ctx a"
  by (simp add: account_of_def cong: option.case_cong)

lemma getQueryDB_same [simp]:
  "getQueryDB (idb\<lparr>claims := d\<rparr>) a = getQueryDB idb a"
  "getQueryDB (setCurrentBlockInfo h b idb) a = getQueryDB idb a"
  "dirs (setCurrentBlockInfo h b idb) = dirs idb"
  by (simp_all add: getQueryDB_def getQueryDBList_def getAccountDBIndex_def setCurrentBlockInfo_def writeToDB_def
      split: list.splits)

text \<open>The entry a CLAIM writes.\<close>

definition claim_entry :: "ClaimMessage \<Rightarrow> int \<Rightarrow> PreCommit" where
  "claim_entry req amount =
     (newPreCommit (cm_BlockHeight req) (nonNilBytes (cm_BlockHash req)) (cm_TXIndex req)
        (nonNilBytes (cm_TXHash req)) (cm_Address req))
     \<lparr>pcm_Claim := \<lparr>cl_Address = cm_Address req,
                    cl_Data = \<lparr>cd_BlockHeight = cm_BlockHeight req, cd_IScore = amount\<rparr>\<rparr>\<rparr>"

lemma DoClaim_granted:
  assumes "DoClaim ctx req = Some ((h, Some amount), ctx')"
  shows "\<exists>ia avail. account_of ctx (cm_Address req) = Some (Some ia) \<and> ia_BlockHeight ia = h \<and>
      avail = ia_IScore ia - claimed ctx (cm_Address req) \<and> 1000 \<le> avail \<and> amount = avail - avail mod 1000"
    and "ctx' = set_preCommit (Bucket_Set (preCommit_db (claims (DB ctx))) PrefixClaim
        (PreCommit_ID (claim_entry req amount)) (PreCommit_Bytes (claim_entry req amount))) ctx"
    and "Bucket_Get (preCommit_db (claims (DB ctx))) PrefixClaim (PreCommit_ID (claim_entry req amount)) = None"
proof -
  let ?pc = "newPreCommit (cm_BlockHeight req) (nonNilBytes (cm_BlockHash req)) (cm_TXIndex req)
        (nonNilBytes (cm_TXHash req)) (cm_Address req)"
  have w: "PreCommit_write ?pc db (Some amount) =
      Bucket_Set db PrefixClaim (PreCommit_ID (claim_entry req amount)) (PreCommit_Bytes (claim_entry req amount))" for db
    by (simp add: PreCommit_write_def claim_entry_def Let_def newPreCommit_def zero_Claim_def zero_PreCommit_def)
  have k: "PreCommit_ID ?pc = PreCommit_ID (claim_entry req amount)" by (simp add: PreCommit_ID_def claim_entry_def)
  have q: "fst (PreCommit_query ?pc (preCommit_db (claims (DB ctx)))) = False"
    using assms by (auto simp: DoClaim_def Let_def split: prod.splits bool.splits)
  then show "Bucket_Get (preCommit_db (claims (DB ctx))) PrefixClaim (PreCommit_ID (claim_entry req amount)) = None"
    by (simp add: PreCommit_query_def k split: option.splits)
  obtain pc where qf: "PreCommit_query ?pc (preCommit_db (claims (DB ctx))) = (False, pc)" using q by (metis prod.collapse)
  show "ctx' = set_preCommit (Bucket_Set (preCommit_db (claims (DB ctx))) PrefixClaim
        (PreCommit_ID (claim_entry req amount)) (PreCommit_Bytes (claim_entry req amount))) ctx"
    and "\<exists>ia avail. account_of ctx (cm_Address req) = Some (Some ia) \<and> ia_BlockHeight ia = h \<and>
      avail = ia_IScore ia - claimed ctx (cm_Address req) \<and> 1000 \<le> avail \<and> amount = avail - avail mod 1000"
    using assms w
    by (auto simp: DoClaim_def qf Let_def account_of_def claimed_def claimMinIScore_def
        split: option.splits sum.splits if_splits)
qed

text \<open>
  C9: a CLAIM that grants an amount grants a positive multiple of 1000 I-Score, the largest one
  within what a QUERY of the same address shows at that moment, and answers with the block
  height the QUERY shows.
\<close>

theorem claim_amount:
  assumes "DoClaim ctx req = Some ((h, Some amount), ctx')"
  shows "\<exists>r. DoQuery ctx (plain_query (cm_Address req)) = Some r \<and> rq_BlockHeight r = h \<and>
    1000 dvd amount \<and> 0 < amount \<and> amount \<le> rq_IScore r \<and> rq_IScore r < amount + 1000"
proof -
  obtain ia avail where ia: "account_of ctx (cm_Address req) = Some (Some ia)" "ia_BlockHeight ia = h"
    and av: "avail = ia_IScore ia - claimed ctx (cm_Address req)" "1000 \<le> avail" "amount = avail - avail mod 1000"
    using DoClaim_granted(1) [OF assms] by blast
  have "1000 dvd amount" using av(3) by (simp add: minus_mod_eq_mult_div)
  moreover have "0 < amount" "amount \<le> avail" "avail < amount + 1000" using av by linarith+
  ultimately show ?thesis using ia av(1) by (simp add: DoQuery_plain)
qed

lemma claim_entry_key:
  assumes "address_ok (cm_Address req)"
  shows "PreCommit_ID (claim_entry req amount) =
      bh_key (cm_BlockHeight req) @ pad32 (nonNilBytes (cm_BlockHash req)) @ cm_Address req"
  using assms by (simp add: PreCommit_ID_def claim_entry_def GenPreCommitKey_append address_ok_def size_defs)

lemma claim_entry_ok:
  assumes "address_ok (cm_Address req)" "q = claim_entry req amount \<or> q = (claim_entry req amount)\<lparr>pcm_Confirmed := True\<rparr>"
  shows "pc_entry_ok (bh_key (cm_BlockHeight req) @ pad32 (nonNilBytes (cm_BlockHash req)) @ cm_Address req)
    (PreCommit_Bytes q) q"
  using assms claim_entry_key [OF assms(1), of amount]
  by (auto simp: pc_entry_ok_def PreCommit_ID_def claim_entry_def size_defs)

text \<open>A later message about the same block and address finds the entry of the claim.\<close>

lemma query_claim_entry:
  assumes "address_ok (cm_Address req)" "kv_ok db"
  shows "PreCommit_query (newPreCommit (cm_BlockHeight req) (nonNilBytes (cm_BlockHash req)) ti th (cm_Address req))
      (kv_put (PreCommit_ID (claim_entry req amount)) (PreCommit_Bytes (claim_entry req amount)) db) =
    (True, claim_entry req amount)"
proof -
  let ?p = "newPreCommit (cm_BlockHeight req) (nonNilBytes (cm_BlockHash req)) ti th (cm_Address req)"
  have "PreCommit_ID ?p = PreCommit_ID (claim_entry req amount)" by (simp add: PreCommit_ID_def claim_entry_def)
  moreover have "PreCommit_SetBytes ?p (PreCommit_Bytes (claim_entry req amount)) = Inr (claim_entry req amount)"
    using PreCommit_SetBytes_Bytes [of "claim_entry req amount" ?p] assms(1)
    by (simp add: claim_entry_def address_ok_def newPreCommit_def zero_PreCommit_def)
  ultimately show ?thesis using assms(2) by (simp add: PreCommit_query_def Bucket_Get_def)
qed

lemma set_preCommit_simps [simp]:
  "preCommit_db (claims (DB (set_preCommit m ctx))) = m"
  "claim_db (claims (DB (set_preCommit m ctx))) = claim_db (claims (DB ctx))"
  "claimBackup_db (claims (DB (set_preCommit m ctx))) = claimBackup_db (claims (DB ctx))"
  "set_preCommit m (set_preCommit m' ctx) = set_preCommit m ctx"
  "set_preCommit (preCommit_db (claims (DB ctx))) ctx = ctx"
  "getQueryDB (DB (set_preCommit m ctx)) a = getQueryDB (DB ctx) a"
  "dirs (DB (set_preCommit m ctx)) = dirs (DB ctx)"
  by (simp_all add: set_preCommit_def)

lemma kv_del_put_fresh:
  assumes "kv_ok m" "kv_get k m = None"
  shows "kv_del k (kv_put k v m) = m"
  using assms by (intro kv_ext) auto

text \<open>
  C10: COMMIT_BLOCK of a new block succeeds and charges every address exactly what its
  confirmed claim of that block holds, nothing when it has none, even when the claiming
  address never claimed before; afterwards no claim of the block is pending.
\<close>

theorem commit_block_charges:
  assumes "claims_ok (claims (DB ctx))" "last_height (claims (DB ctx)) < h" "address_ok a" "claim_below ctx a h"
  shows "\<exists>ctx'. do_commitBlock ctx \<lparr>cb_Success = True, cb_BlockHeight = h, cb_BlockHash = Some hash\<rparr> =
      Some (\<lparr>cb_Success = True, cb_BlockHeight = h, cb_BlockHash = Some hash\<rparr>, ctx') \<and>
    claimed ctx' a = claimed ctx a + pending ctx h hash a \<and>
    (\<forall>hash'. findPreCommit (preCommit_db (claims (DB ctx'))) a h hash' = None) \<and>
    bi_BlockHeight (getCurrentBlockInfo (DB ctx')) = h"
proof -
  have "bi_BlockHeight (getCurrentBlockInfo (setCurrentBlockInfo h hash idb)) = h" for idb
    by (simp add: setCurrentBlockInfo_def getCurrentBlockInfo_def writeToDB_def BlockInfo_set_def)
  then show ?thesis using commitBlock_charges [OF assms HOL.refl, of hash] by fastforce
qed

text \<open>A claim granted and confirmed: it is pending for its block, and nothing else has changed.\<close>

lemma claim_confirmed:
  assumes "claims_ok (claims (DB ctx))" "last_height (claims (DB ctx)) < cm_BlockHeight req"
    and "address_ok (cm_Address req)" "claim_below ctx (cm_Address req) (cm_BlockHeight req)"
    and "cm_BlockHash req = Some hash" "DoClaim ctx req = Some ((h, Some amount), ctx1)"
    and "ctx2 = DoCommitClaim ctx1 \<lparr>cc_Success = True, cc_Address = cm_Address req, cc_BlockHeight = cm_BlockHeight req,
           cc_BlockHash = cm_BlockHash req, cc_TXIndex = cm_TXIndex req, cc_TXHash = th\<rparr>"
  shows "claimed ctx2 (cm_Address req) = claimed ctx (cm_Address req)" "claim_below ctx2 (cm_Address req) (cm_BlockHeight req)"
    "last_height (claims (DB ctx2)) < cm_BlockHeight req" "claims_ok (claims (DB ctx2))"
    "pending ctx2 (cm_BlockHeight req) hash (cm_Address req) = amount" "\<exists>m. ctx2 = set_preCommit m ctx"
proof -
  let ?a = "cm_Address req" and ?h = "cm_BlockHeight req"
  let ?e = "claim_entry req amount"
  note g = DoClaim_granted [OF assms(6)]
  have kv: "kv_ok (preCommit_db (claims (DB ctx)))" and pc: "preCommit_ok (preCommit_db (claims (DB ctx)))"
    using assms(1) by (auto simp: claims_ok_def preCommit_ok_def)
  let ?k = "bh_key ?h @ pad32 hash @ ?a"
  let ?q = "?e\<lparr>pcm_Confirmed := True\<rparr>"
  let ?db1 = "kv_put ?k (PreCommit_Bytes ?e) (preCommit_db (claims (DB ctx)))"
  let ?db2 = "kv_put ?k (PreCommit_Bytes ?q) ?db1"
  have key: "PreCommit_ID ?e = ?k" using claim_entry_key [OF assms(3)] assms(5) by (simp add: nonNilBytes_def)
  then have keyq: "PreCommit_ID ?q = ?k" by (simp add: PreCommit_ID_def)
  have "pcm_TXIndex ?e = cm_TXIndex req" "\<not> pcm_Confirmed ?e" by (simp_all add: claim_entry_def)
  then have ctx2: "ctx2 = set_preCommit ?db2 ctx"
    unfolding assms(7) g(2) using query_claim_entry [OF assms(3) kv, of _ _ amount, unfolded key] key keyq
    by (simp add: DoCommitClaim_def Let_def PreCommit_commit_def PreCommit_write_def Bucket_Set_def)
  have entry: "pc_entry_ok ?k (PreCommit_Bytes ?e) ?e" "pc_entry_ok ?k (PreCommit_Bytes ?q) ?q"
    using claim_entry_ok [OF assms(3), of ?e amount] claim_entry_ok [OF assms(3), of ?q amount] assms(5)
    by (auto simp: nonNilBytes_def)
  have pc2: "preCommit_ok ?db2" using pc entry by (intro preCommit_ok_put) auto
  show "claimed ctx2 ?a = claimed ctx ?a" "claim_below ctx2 ?a ?h" "last_height (claims (DB ctx2)) < ?h"
    "claims_ok (claims (DB ctx2))"
    using assms(1,2,4) pc2 unfolding ctx2
    by (simp_all add: claimed_def claim_below_def last_height_def claims_ok_def)
  have "kv_get ?k ?db2 = Some (PreCommit_Bytes ?q)" using kv by simp
  from findPreCommit_ok(2) [OF pc2 assms(3) this] obtain q where
    q: "pc_entry_ok ?k (PreCommit_Bytes ?q) q" "findPreCommit ?db2 ?a ?h hash = Some q" by blast
  show "pending ctx2 ?h hash ?a = amount"
    using q(2) pc_entry_inject [OF q(1) entry(2)] unfolding ctx2 by (simp add: pending_def claim_entry_def)
  show "\<exists>m. ctx2 = set_preCommit m ctx" using ctx2 by blast
qed

lemma claim_life:
  assumes "claims_ok (claims (DB ctx))" "last_height (claims (DB ctx)) < cm_BlockHeight req"
    and "address_ok (cm_Address req)" "claim_below ctx (cm_Address req) (cm_BlockHeight req)"
    and "cm_BlockHash req = Some hash" "DoClaim ctx req = Some ((h, Some amount), ctx1)"
    and "ctx2 = DoCommitClaim ctx1 \<lparr>cc_Success = True, cc_Address = cm_Address req, cc_BlockHeight = cm_BlockHeight req,
           cc_BlockHash = cm_BlockHash req, cc_TXIndex = cm_TXIndex req, cc_TXHash = th\<rparr>"
    and "DoQuery ctx (plain_query (cm_Address req)) = Some r"
  shows "\<exists>ctx3. do_commitBlock ctx2 \<lparr>cb_Success = True, cb_BlockHeight = cm_BlockHeight req, cb_BlockHash = Some hash\<rparr> =
      Some (\<lparr>cb_Success = True, cb_BlockHeight = cm_BlockHeight req, cb_BlockHash = Some hash\<rparr>, ctx3) \<and>
    DoQuery ctx3 (plain_query (cm_Address req)) = Some (r\<lparr>rq_IScore := rq_IScore r - amount\<rparr>) \<and>
    0 \<le> rq_IScore r - amount \<and> rq_IScore r - amount < 1000 \<and>
    (\<forall>hash'. findPreCommit (preCommit_db (claims (DB ctx3))) (cm_Address req) (cm_BlockHeight req) hash' = None)"
proof -
  let ?a = "cm_Address req" and ?h = "cm_BlockHeight req"
  note g = DoClaim_granted [OF assms(6)]
  obtain ia avail where ia: "account_of ctx ?a = Some (Some ia)"
    and av: "avail = ia_IScore ia - claimed ctx ?a" "1000 \<le> avail" "amount = avail - avail mod 1000"
    using g(1) by blast
  have r: "r = \<lparr>rq_Address = ?a, rq_IScore = avail, rq_BlockHeight = ia_BlockHeight ia\<rparr>"
    using assms(8) ia av(1) by (simp add: DoQuery_plain)
  note same = claim_confirmed [OF assms(1-7)]
  obtain m where ctx2: "ctx2 = set_preCommit m ctx" using same(6) by blast
  obtain ctx3 dbs where c3: "do_commitBlock ctx2 \<lparr>cb_Success = True, cb_BlockHeight = ?h, cb_BlockHash = Some hash\<rparr> =
      Some (\<lparr>cb_Success = True, cb_BlockHeight = ?h, cb_BlockHash = Some hash\<rparr>, ctx3)"
    "ctx3 = ctx2\<lparr>DB := setCurrentBlockInfo ?h hash ((DB ctx2)\<lparr>claims := dbs\<rparr>)\<rparr>"
    "claimed ctx3 ?a = claimed ctx ?a + amount"
    "\<forall>hash'. findPreCommit (preCommit_db (claims (DB ctx3))) ?a ?h hash' = None"
    using commitBlock_charges [OF same(4,3) assms(3) same(2) HOL.refl, of hash] same(1,5) by metis
  have "account_of ctx3 ?a = account_of ctx ?a"
    unfolding c3(2) ctx2 by (rule account_of_cong) simp_all
  then have "DoQuery ctx3 (plain_query ?a) = Some (r\<lparr>rq_IScore := rq_IScore r - amount\<rparr>)"
    using ia r av c3(3) by (simp add: DoQuery_plain)
  moreover have "0 \<le> rq_IScore r - amount" "rq_IScore r - amount < 1000" using av r by auto
  ultimately show ?thesis using c3(1,4) by blast
qed

text \<open>
  C7: the life of a claim. A CLAIM is granted, its COMMIT_CLAIM reports success and its block
  is committed: the I-Score a QUERY of the address shows is then lower by exactly the
  granted amount, the QUERY shows the same block height, and it stays non-negative and
  below the 1000 I-Score a further claim needs.
\<close>

theorem claim_lowers_query:
  assumes "claims_ok (claims (DB ctx))" "last_height (claims (DB ctx)) < cm_BlockHeight req"
    and "address_ok (cm_Address req)" "claim_below ctx (cm_Address req) (cm_BlockHeight req)"
    and "cm_BlockHash req = Some hash" "DoClaim ctx req = Some ((h, Some amount), ctx1)"
    and "ctx2 = DoCommitClaim ctx1 \<lparr>cc_Success = True, cc_Address = cm_Address req, cc_BlockHeight = cm_BlockHeight req,
           cc_BlockHash = cm_BlockHash req, cc_TXIndex = cm_TXIndex req, cc_TXHash = th\<rparr>"
    and "DoQuery ctx (plain_query (cm_Address req)) = Some r"
  shows "\<exists>ctx3. do_commitBlock ctx2 \<lparr>cb_Success = True, cb_BlockHeight = cm_BlockHeight req, cb_BlockHash = Some hash\<rparr> =
      Some (\<lparr>cb_Success = True, cb_BlockHeight = cm_BlockHeight req, cb_BlockHash = Some hash\<rparr>, ctx3) \<and>
    DoQuery ctx3 (plain_query (cm_Address req)) = Some (r\<lparr>rq_IScore := rq_IScore r - amount\<rparr>) \<and>
    0 \<le> rq_IScore r - amount \<and> rq_IScore r - amount < 1000"
  using claim_life [OF assms] by blast

section \<open>A claim played through\<close>

definition ex_query_dir :: dirname where "ex_query_dir = CalcDir 1 2 0"

definition ex_ctx :: Context where
  "ex_ctx = \<lparr>DB = ex_idb\<lparr>claims := ex_base, info := (info ex_idb)\<lparr>QueryDBIsZero := True\<rparr>,
       dirs := [(CalcDir 1 2 0, [(ex_addr, IScoreAccount_Bytes
          \<lparr>ia_Address = zero_address, ia_IScore = 3500, ia_BlockHeight = 10, ia_Delegations = []\<rparr>)]),
                (CalcDir 2 2 0, []), (CalcDir 1 2 1, []), (CalcDir 2 2 1, [])]\<rparr>,
     Revision = 0, PReps = [], PRepCandidates = [], GV = [], stats = None, Cancel = NewCancel,
     calcDebug = InitCalcDebugConfig None, calcDebug_db = []\<rparr>"

definition ex_claim :: ClaimMessage where
  "ex_claim = \<lparr>cm_Address = ex_addr, cm_BlockHeight = 2, cm_BlockHash = Some ex_hash, cm_TXIndex = 4, cm_TXHash = None\<rparr>"

definition ex_ctx1 :: Context where
  "ex_ctx1 = snd (the (DoClaim ex_ctx ex_claim))"

lemma ex_ctx_account:
  "account_of ex_ctx ex_addr = Some (Some \<lparr>ia_Address = zero_address, ia_IScore = 3500, ia_BlockHeight = 10, ia_Delegations = []\<rparr>)"
proof -
  have "getQueryDB (DB ex_ctx) ex_addr = Some (CalcDir 1 2 0)"
    by (simp add: getQueryDB_def db_at_def getQueryDBList_def getAccountDBIndex_def ex_ctx_def ex_idb_def ex_info_def
        zero_DBInfo_def Address_ID_def ex_addr_def numeral_eq_Suc)
  then show ?thesis
    by (simp add: account_of_def ex_ctx_def disk_read_def Bucket_Get_def Address_Bytes_def kv_get_def
        NewIScoreAccountFromBytes_Bytes delegations_ok_def)
qed

lemma ex_claim_runs:
  "\<exists>c. DoClaim ex_ctx \<lparr>cm_Address = ex_addr, cm_BlockHeight = h, cm_BlockHash = bh, cm_TXIndex = ti, cm_TXHash = th\<rparr> = Some ((10, Some 3000), c)"
proof -
  have e: "preCommit_db (claims (DB ex_ctx)) = []" "claim_db (claims (DB ex_ctx)) = []"
    by (simp_all add: ex_ctx_def ex_base_def)
  obtain qDB bs where q: "getQueryDB (DB ex_ctx) ex_addr = Some qDB"
    "Bucket_Get (disk_read (dirs (DB ex_ctx)) qDB) [] (Address_Bytes ex_addr) = Some bs"
    "NewIScoreAccountFromBytes bs = Inr \<lparr>ia_Address = zero_address, ia_IScore = 3500, ia_BlockHeight = 10, ia_Delegations = []\<rparr>"
    using ex_ctx_account by (auto simp: account_of_def split: option.splits sum.splits)
  then show ?thesis
    by (simp add: DoClaim_def PreCommit_query_def Bucket_Get_def e claim_of_get Let_def claimMinIScore_def)
qed

lemma ex_claim_granted: "DoClaim ex_ctx ex_claim = Some ((10, Some 3000), ex_ctx1)"
  using ex_claim_runs [of 2 "Some ex_hash" 4 None] by (auto simp: ex_ctx1_def ex_claim_def)

lemma ex_ctx_ok: "claims_ok (claims (DB ex_ctx))" "last_height (claims (DB ex_ctx)) = 1"
  "claim_below ex_ctx ex_addr 2" "cm_Address ex_claim = ex_addr" "cm_BlockHeight ex_claim = 2"
  "cm_BlockHash ex_claim = Some ex_hash" "cm_TXIndex ex_claim = 4" "kv_ok (preCommit_db (claims (DB ex_ctx)))"
proof -
  have "claims (DB ex_ctx) = ex_base" by (simp add: ex_ctx_def)
  then show "claims_ok (claims (DB ex_ctx))" "last_height (claims (DB ex_ctx)) = 1"
    "claim_below ex_ctx ex_addr 2" "kv_ok (preCommit_db (claims (DB ex_ctx)))"
    using ex_base_ok by (simp_all add: claim_below_def claim_of_get ex_base_def)
qed (simp_all add: ex_claim_def)

theorem claim_amount_witness:
  "\<exists>r. DoQuery ex_ctx (plain_query ex_addr) = Some r \<and> rq_BlockHeight r = 10 \<and>
    1000 dvd (3000::int) \<and> 0 < (3000::int) \<and> 3000 \<le> rq_IScore r \<and> rq_IScore r < 3000 + 1000"
  using claim_amount [OF ex_claim_granted] by (simp only: ex_ctx_ok)

theorem commit_block_charges_witness:
  "\<exists>ctx'. do_commitBlock ex_ctx \<lparr>cb_Success = True, cb_BlockHeight = 2, cb_BlockHash = Some ex_hash\<rparr> =
      Some (\<lparr>cb_Success = True, cb_BlockHeight = 2, cb_BlockHash = Some ex_hash\<rparr>, ctx') \<and>
    claimed ctx' ex_addr = claimed ex_ctx ex_addr + pending ex_ctx 2 ex_hash ex_addr \<and>
    (\<forall>hash'. findPreCommit (preCommit_db (claims (DB ctx'))) ex_addr 2 hash' = None) \<and>
    bi_BlockHeight (getCurrentBlockInfo (DB ctx')) = 2"
  using commit_block_charges [OF ex_ctx_ok(1) _ ex_addr_ok ex_ctx_ok(3)] ex_ctx_ok(2) by simp

theorem claim_lowers_query_witness:
  "\<exists>ctx3. do_commitBlock (DoCommitClaim ex_ctx1 \<lparr>cc_Success = True, cc_Address = ex_addr, cc_BlockHeight = 2,
         cc_BlockHash = Some ex_hash, cc_TXIndex = 4, cc_TXHash = None\<rparr>)
       \<lparr>cb_Success = True, cb_BlockHeight = 2, cb_BlockHash = Some ex_hash\<rparr> =
      Some (\<lparr>cb_Success = True, cb_BlockHeight = 2, cb_BlockHash = Some ex_hash\<rparr>, ctx3) \<and>
    DoQuery ctx3 (plain_query ex_addr) = Some \<lparr>rq_Address = ex_addr, rq_IScore = 500, rq_BlockHeight = 10\<rparr>"
proof -
  have "claimed ex_ctx ex_addr = 0" by (simp add: claimed_def claim_of_get ex_ctx_def ex_base_def)
  then have "DoQuery ex_ctx (plain_query ex_addr) = Some \<lparr>rq_Address = ex_addr, rq_IScore = 3500, rq_BlockHeight = 10\<rparr>"
    by (simp add: DoQuery_plain ex_ctx_account)
  then show ?thesis
    using claim_lowers_query [OF ex_ctx_ok(1) _ _ _ ex_ctx_ok(6) ex_claim_granted HOL.refl, where th = None and
        r = "\<lparr>rq_Address = ex_addr, rq_IScore = 3500, rq_BlockHeight = 10\<rparr>"]
      ex_addr_ok ex_ctx_ok by simp
qed

end
