(* ===== verification/CalcTheorems.thy ===== *)
theory CalcTheorems
  imports CalcReturns ClaimMsgProps
begin

text \<open>
  The properties of CALCULATE, with a calculation played through on a small context as their
  witness.
\<close>

section \<open>A calculation played through\<close>

definition ex_rep :: address where "ex_rep = replicate 20 0 @ [9]"

definition ex_gv :: GovernanceVariable where
  "ex_gv = \<lparr>gv_BlockHeight = 0, gv_CalculatedIncentiveRep = 1, gv_RewardRep = 1200, gv_MainPRepCount = 22,
     gv_SubPRepCount = 78, gv_BlockProduceReward = 100, gv_PRepReward = 50\<rparr>"

definition ex_account :: IScoreAccount where
  "ex_account = \<lparr>ia_Address = ex_addr, ia_IScore = 3500, ia_BlockHeight = 10,
     ia_Delegations = [Some \<lparr>dg_Address = ex_rep, dg_Delegate = 2000000\<rparr>]\<rparr>"

definition ex_calc_ctx :: Context where
  "ex_calc_ctx = ex_ctx\<lparr>GV := [ex_gv], PRepCandidates := [(ex_rep, \<lparr>pc_Address = ex_rep, pc_Start = 0, pc_End = 0\<rparr>)],
     DB := (DB ex_ctx)\<lparr>dirs := [(CalcDir 1 2 0, []), (CalcDir 2 2 0, []),
        (CalcDir 1 2 1, [(ex_addr, IScoreAccount_Bytes ex_account)]), (CalcDir 2 2 1, [])]\<rparr>\<rparr>"

definition ex_iiss :: "string \<Rightarrow> obj kv" where
  "ex_iiss path = WriteIISSHeader [] 2 20 8"

definition ex_request :: CalculateRequest where
  "ex_request = \<lparr>cq_Path = ''iiss'', cq_BlockHeight = 20, cq_BlockHash = []\<rparr>"

definition ex_out :: calc_out where
  "ex_out = the (DoCalculate (\<lambda>b. b) (\<lambda>m. m) None ex_iiss ex_calc_ctx ex_request True 7)"

lemma ex_iiss_load:
  "LoadIISSData (ex_iiss p) = Some (\<lparr>ih_Version = 2, ih_BlockHeight = 20, ih_Revision = 8\<rparr>, [], [])"
  "txs_ok zero_IISSTX (Iterator_prefix (ex_iiss p) PrefixIISSTX)"
  by (simp_all add: LoadIISSData_def loadIISSHeader_def ex_iiss_def WriteIISSHeader_def Bucket_Set_def Bucket_Get_def
      kv_get_def IISSHeader_Bytes_def IISSHeader_SetBytes_def loadIISSGovernanceVariable_def LoadPRep_def Iterator_prefix_eq
      PrefixIISSHeader_def PrefixIISSGV_def PrefixPRep_def PrefixIISSTX_def ascii_def zero_IISSHeader_def)

lemma ex_rep_ok: "address_ok ex_rep"
  by (simp add: ex_rep_def address_ok_def size_defs)

lemma ex_account_ok: "account_ok (ex_addr, ex_account)" "no_nil ex_account"
  "NewIScoreAccountFromBytes (IScoreAccount_Bytes ex_account) = Inr (ex_account\<lparr>ia_Address := zero_address\<rparr>)"
proof -
  show "account_ok (ex_addr, ex_account)" "no_nil ex_account"
    using ex_addr_ok ex_rep_ok by (simp_all add: account_ok_def ex_account_def delegations_ok_def no_nil_def)
  then show "NewIScoreAccountFromBytes (IScoreAccount_Bytes ex_account) = Inr (ex_account\<lparr>ia_Address := zero_address\<rparr>)"
    by (intro account_decode(1))
qed

lemma ex_calc_ctx_ok:
  "idb_ok (DB ex_calc_ctx)" "only_backups_of (CalcDone (info (DB ex_calc_ctx))) (DB ex_calc_ctx)"
  "\<not> NeedToUpdateCalcDebugResult ex_calc_ctx" "\<not> isCalculating (DB ex_calc_ctx)"
  "CalcDone (info (DB ex_calc_ctx)) = 10" "ToggleBH (info (DB ex_calc_ctx)) = 11"
  "GetCalcDBList (DB ex_calc_ctx) = [CalcDir 1 2 1, CalcDir 2 2 1]" "PReps ex_calc_ctx = []"
  "calcdb ex_calc_ctx (CalcDir 1 2 1) = [(ex_addr, IScoreAccount_Bytes ex_account)]" "calcdb ex_calc_ctx (CalcDir 2 2 1) = []"
  "kv_ok (calcResult (DB ex_calc_ctx))"
  by (simp_all add: ex_calc_ctx_def ex_ctx_def ex_idb_def ex_info_def zero_DBInfo_def idb_ok_def account_names_def
      upt_conv_Cons only_backups_of_def NeedToUpdateCalcDebugResult_def InitCalcDebugConfig_def isCalculating_def
      getCalculatingBH_def getCalcDoneBH_def GetCalcDBList_def calcdb_def disk_read_def)

lemma ex_entries_ok:
  "\<forall>n \<in> set (GetCalcDBList (DB ex_calc_ctx)). shard_entries_ok (calcdb ex_calc_ctx n)"
  "\<forall>n \<in> set (GetCalcDBList (DB ex_calc_ctx)). kv_ok (calcdb ex_calc_ctx n) \<and> all_due 20 (calcdb ex_calc_ctx n)"
  "\<forall>n \<in> set (account_names (DB ex_calc_ctx) 0) \<union> set (account_names (DB ex_calc_ctx) 1). shard_entries_ok (calcdb ex_calc_ctx n)"
proof -
  have "ex_addr \<noteq> []" "ia_BlockHeight ex_account < 20" by (simp_all add: ex_addr_def ex_account_def)
  then have "shard_entries_ok [(ex_addr, IScoreAccount_Bytes ex_account)]" "all_due 20 [(ex_addr, IScoreAccount_Bytes ex_account)]"
    using ex_account_ok by (simp_all add: shard_entries_ok_def all_due_def)
  note ok = this
  have nil: "shard_entries_ok []" "all_due 20 []" "kv_ok [(ex_addr, IScoreAccount_Bytes ex_account)]"
    by (simp_all add: shard_entries_ok_def all_due_def kv_ok_Cons)
  show "\<forall>n \<in> set (GetCalcDBList (DB ex_calc_ctx)). shard_entries_ok (calcdb ex_calc_ctx n)"
    "\<forall>n \<in> set (GetCalcDBList (DB ex_calc_ctx)). kv_ok (calcdb ex_calc_ctx n) \<and> all_due 20 (calcdb ex_calc_ctx n)"
    unfolding ex_calc_ctx_ok(7) using ok nil ex_calc_ctx_ok(9,10) by simp_all
  have "account_names (DB ex_calc_ctx) p = [CalcDir 1 2 p, CalcDir 2 2 p]" for p
    by (simp add: account_names_def ex_calc_ctx_def ex_ctx_def ex_idb_def ex_info_def zero_DBInfo_def upt_conv_Cons)
  moreover have "calcdb ex_calc_ctx (CalcDir 1 2 0) = []" "calcdb ex_calc_ctx (CalcDir 2 2 0) = []"
    by (simp_all add: calcdb_def disk_read_def ex_calc_ctx_def)
  ultimately show "\<forall>n \<in> set (account_names (DB ex_calc_ctx) 0) \<union> set (account_names (DB ex_calc_ctx) 1). shard_entries_ok (calcdb ex_calc_ctx n)"
    using ok nil ex_calc_ctx_ok(9,10) by simp
qed

lemma order_id_ok: "order_ok (\<lambda>m. m)"
  by (simp add: order_ok_def)

lemma ex_out_run:
  "DoCalculate (\<lambda>b. b) (\<lambda>m. m) None ex_iiss ex_calc_ctx ex_request True 7 = Some ex_out"
  "co_err ex_out = None" "co_height ex_out = 20"
proof -
  have "\<exists>out. DoCalculate (\<lambda>b. b) (\<lambda>m. m) None ex_iiss ex_calc_ctx ex_request True 7 = Some out \<and> co_err out = None \<and>
      co_height out = 20"
    using DoCalculate_returns [OF ex_calc_ctx_ok(1,3) order_id_ok _ ex_iiss_load(1) HOL.refl _ ex_entries_ok(3) ex_iiss_load(2),
        where req = ex_request and msg_id = 7 and shake = "\<lambda>b. b" and conn = True]
    by (simp add: ex_calc_ctx_ok)
  then show "DoCalculate (\<lambda>b. b) (\<lambda>m. m) None ex_iiss ex_calc_ctx ex_request True 7 = Some ex_out"
    "co_err ex_out = None" "co_height ex_out = 20"
    by (auto simp: ex_out_def)
qed

section \<open>Properties\<close>

text \<open>
  C1: Conservation of I-Score. When a CALCULATE succeeds, the account databases it leaves as
  calculate databases hold, in sum, the I-Score of the databases clients read from then on
  plus exactly the total reward it reports, and that total is the sum of its three parts
  (block producers, P-Reps, delegations). The databases clients read from then on are the
  calculate databases of before, with unchanged contents.
\<close>

theorem calculation_conserves_iscore:
  assumes "idb_ok (DB ctx)" "only_backups_of (CalcDone (info (DB ctx))) (DB ctx)"
    and "DoCalculate shake order None iiss ctx req conn msg_id = Some out" "co_err out = None"
    and "ToggleBH (info (DB ctx)) \<noteq> co_height out + 1"
    and "\<forall>n \<in> set (GetCalcDBList (DB ctx)). kv_ok (calcdb ctx n) \<and> all_due (co_height out) (calcdb ctx n)"
  shows "\<exists>s. co_stats out = Some s \<and> st_TotalReward s = st_Beta1 s + st_Beta2 s + st_Beta3 s \<and>
    calc_total (co_ctx out) = calc_total ctx + st_TotalReward s \<and>
    getQueryDBList (DB (co_ctx out)) = GetCalcDBList (DB ctx) \<and>
    (\<forall>n \<in> set (GetCalcDBList (DB ctx)). calcdb (co_ctx out) n = calcdb ctx n)"
  using assms by (rule DoCalculate_conserves)

theorem calculation_conserves_iscore_witness:
  "\<exists>s. co_stats ex_out = Some s \<and> st_TotalReward s = st_Beta1 s + st_Beta2 s + st_Beta3 s \<and>
    calc_total (co_ctx ex_out) = calc_total ex_calc_ctx + st_TotalReward s \<and>
    getQueryDBList (DB (co_ctx ex_out)) = GetCalcDBList (DB ex_calc_ctx) \<and>
    (\<forall>n \<in> set (GetCalcDBList (DB ex_calc_ctx)). calcdb (co_ctx ex_out) n = calcdb ex_calc_ctx n)"
  using calculation_conserves_iscore [OF ex_calc_ctx_ok(1,2) ex_out_run(1,2)] ex_entries_ok(2)
  by (simp add: ex_out_run(3) ex_calc_ctx_ok(6))

text \<open>
  C2: A CALCULATE that is not refused and not cancelled returns with a result at the height of
  its data, or at the one after the last calculation when the data have none, also when it is
  the second run of an interrupted one. The hypotheses after the checks of the code say which
  data are safe: debugging is off, the data of a delegation transaction are a list of pairs,
  and every account entry has an address and no nil delegation. Then no part of the calculation
  panics, for any contents of the rest of the IISS data, any backups left on disk and any
  iteration order of the reward map.
\<close>

theorem calculation_returns:
  assumes "idb_ok (DB ctx)" "\<not> NeedToUpdateCalcDebugResult ctx" "order_ok order"
    and "isReloadRequest (cq_BlockHeight req) msg_id \<or> \<not> isCalculating (DB ctx)"
    and "LoadIISSData (iiss (cq_Path req)) = Some (header, gvl, prl)"
    and "bh = (if ih_BlockHeight header = 0 then CalcDone (info (DB ctx)) + 1 else ih_BlockHeight header)"
    and "CalcDone (info (DB ctx)) < bh"
    and "\<forall>n \<in> set (account_names (DB ctx) 0) \<union> set (account_names (DB ctx) 1). shard_entries_ok (calcdb ctx n)"
    and "txs_ok zero_IISSTX (Iterator_prefix (iiss (cq_Path req)) PrefixIISSTX)" "\<forall>p \<in> set (PReps ctx). prep_ok p"
  shows "\<exists>out. DoCalculate shake order None iiss ctx req conn msg_id = Some out \<and> co_err out = None \<and> co_height out = bh"
  using assms by (rule DoCalculate_returns)

theorem calculation_returns_witness:
  "\<exists>out. DoCalculate (\<lambda>b. take 3 b) rev None ex_iiss ex_calc_ctx ex_request False 7 = Some out \<and> co_err out = None \<and>
    co_height out = 20"
  using calculation_returns [OF ex_calc_ctx_ok(1,3) _ _ ex_iiss_load(1) HOL.refl _ ex_entries_ok(3) ex_iiss_load(2),
      where order = rev and req = ex_request and msg_id = 7 and shake = "\<lambda>b. take 3 b" and conn = False]
  by (simp add: ex_calc_ctx_ok order_ok_def)

text \<open>
  C3: What a successful CALCULATE leaves behind: its height is the last calculated one and
  above the one before, which becomes the previous one; QUERY_CALCULATE_STATUS reports it
  done; QUERY_CALCULATE_RESULT of the height answers success with the total reward and the
  state hash; the claim databases are untouched.
\<close>

theorem calculation_result_queryable:
  assumes "DoCalculate shake order None iiss ctx req conn msg_id = Some out" "co_err out = None"
    and "kv_ok (calcResult (DB ctx))"
  shows "\<exists>s hash. co_stats out = Some s \<and> co_hash out = Some hash \<and>
    getCalcDoneBH (DB ctx) < co_height out \<and> getCalcDoneBH (DB (co_ctx out)) = co_height out \<and>
    getPrevCalcDoneBH (DB (co_ctx out)) = getCalcDoneBH (DB ctx) \<and>
    DoQueryCalculateStatus (co_ctx out) = (CalculationDone, co_height out) \<and>
    DoQueryCalculateResult (co_ctx out) (co_height out) =
      Some \<lparr>qr_Status = calcSucceeded, qr_BlockHeight = co_height out, qr_IScore = st_TotalReward s, qr_StateHash = hash\<rparr> \<and>
    claims (DB (co_ctx out)) = claims (DB ctx)"
  using assms by (rule DoCalculate_result)

theorem calculation_result_queryable_witness:
  "\<exists>s hash. co_stats ex_out = Some s \<and> co_hash ex_out = Some hash \<and>
    getCalcDoneBH (DB (co_ctx ex_out)) = 20 \<and> getPrevCalcDoneBH (DB (co_ctx ex_out)) = 10 \<and>
    DoQueryCalculateResult (co_ctx ex_out) 20 =
      Some \<lparr>qr_Status = calcSucceeded, qr_BlockHeight = 20, qr_IScore = st_TotalReward s, qr_StateHash = hash\<rparr>"
  using calculation_result_queryable [OF ex_out_run(1,2) ex_calc_ctx_ok(11)] ex_calc_ctx_ok(5)
  by (auto simp: ex_out_run(3) getCalcDoneBH_def)

end
