(* ===== verification/RewardTheorems.thy ===== *)
theory RewardTheorems
  imports CalcTheorems
begin

text \<open>
  What each part of the calculation pays: delegations, the accounts of a shard, delegation
  transactions, block producers and P-Reps, each against its specification.
\<close>

section \<open>Delegations\<close>

lemma ex_gvs_ok: "gvs_ok (GV ex_calc_ctx)"
  by (simp add: gvs_ok_def ex_calc_ctx_def)

text \<open>
  C12: The reward of a delegation is the sum over the governance variables of the delegated
  amount times the number of blocks at which the variable is in force and the delegate is a
  candidate, within the period, times the reward rate, divided by the reward divider. The
  code computes it from the ends of the intervals; here the blocks are counted. Recording
  the debug trace does not change the reward.
\<close>

theorem delegation_reward_by_blocks:
  assumes "gvs_ok (GV ctx)" "calculateDelegationReward ctx dg start end_h p addr = Some (r, ctx')"
  shows "r = (\<Sum>gv \<leftarrow> GV ctx. dg_Delegate dg *
      int (card {b. start < b \<and> b \<le> end_h \<and> pc_Start p < b \<and> (pc_End p = 0 \<or> b \<le> pc_End p) \<and> getGVByBlockHeight ctx b = Some gv}) *
      gv_RewardRep gv div rewardDivider)"
proof -
  have "{b. start < b \<and> b \<le> end_h \<and> pc_Start p < b \<and> (pc_End p = 0 \<or> b \<le> pc_End p) \<and> getGVByBlockHeight ctx b = Some gv} =
      {b. candidate_from start p < b \<and> b \<le> candidate_to end_h p \<and> getGVByBlockHeight ctx b = Some gv}" for gv
    by (auto simp: candidate_from_def candidate_to_def)
  then show ?thesis
    using calculateDelegationReward_sum [OF assms] by (simp add: delegation_reward_def governed_def)
qed

lemma ex_delegation:
  "calculateDelegationReward ex_calc_ctx \<lparr>dg_Address = ex_rep, dg_Delegate = 2000000\<rparr> 10 20
     \<lparr>pc_Address = ex_rep, pc_Start = 0, pc_End = 0\<rparr> ex_addr = Some (154, ex_calc_ctx)"
  using ex_calc_ctx_ok(3)
  by (simp add: calculateDelegationReward_def Let_def ex_calc_ctx_def ex_gv_def WriteBeta3Info_def rewardDivider_def)

theorem delegation_reward_by_blocks_witness:
  "(154::int) = (\<Sum>gv \<leftarrow> GV ex_calc_ctx. 2000000 *
      int (card {b. 10 < b \<and> b \<le> 20 \<and> 0 < b \<and> (0 = (0::u64) \<or> b \<le> 0) \<and> getGVByBlockHeight ex_calc_ctx b = Some gv}) *
      gv_RewardRep gv div rewardDivider)"
  using delegation_reward_by_blocks [OF ex_gvs_ok ex_delegation] by simp

text \<open>Adjacent periods.\<close>

lemma governed_split:
  assumes "s \<le> m" "m \<le> e"
  shows "governed ctx s e gv = governed ctx s m gv + governed ctx m e gv"
proof -
  have eq: "{b. s < b \<and> b \<le> e \<and> getGVByBlockHeight ctx b = Some gv} =
      {b. s < b \<and> b \<le> m \<and> getGVByBlockHeight ctx b = Some gv} \<union> {b. m < b \<and> b \<le> e \<and> getGVByBlockHeight ctx b = Some gv}"
    using assms by auto
  show ?thesis unfolding governed_def eq by (rule card_Un_disjoint) auto
qed

lemma div_split:
  fixes a b c :: int
  assumes "0 < c"
  shows "a div c + b div c \<le> (a + b) div c" "(a + b) div c \<le> a div c + b div c + 1"
proof -
  have "(a + b) div c = a div c + b div c + (a mod c + b mod c) div c" by (rule div_add1_eq)
  moreover have "0 \<le> a mod c" "0 \<le> b mod c" "a mod c < c" "b mod c < c" using assms by simp_all
  then have x: "0 \<le> a mod c + b mod c" "a mod c + b mod c < 2 * c" by linarith+
  have "0 \<le> (a mod c + b mod c) div c" using x(1) assms by (simp add: pos_imp_zdiv_nonneg_iff)
  moreover have "(a mod c + b mod c) div c < 2"
  proof (rule ccontr)
    assume "\<not> (a mod c + b mod c) div c < 2"
    then have "c * 2 \<le> c * ((a mod c + b mod c) div c)" using assms by (intro mult_left_mono) auto
    also have "\<dots> \<le> a mod c + b mod c" using assms by (simp add: minus_mod_eq_mult_div [symmetric])
    finally show False using x(2) by simp
  qed
  ultimately show "a div c + b div c \<le> (a + b) div c" "(a + b) div c \<le> a div c + b div c + 1" by linarith+
qed

lemma delegation_reward_split:
  assumes "s \<le> m" "m \<le> e"
  shows "delegation_reward ctx d s m + delegation_reward ctx d m e \<le> delegation_reward ctx d s e"
    and "delegation_reward ctx d s e \<le> delegation_reward ctx d s m + delegation_reward ctx d m e + int (length (GV ctx))"
proof -
  have D: "0 < rewardDivider" by (simp add: rewardDivider_def)
  have parts: "d * int (governed ctx s e gv) * gv_RewardRep gv =
      d * int (governed ctx s m gv) * gv_RewardRep gv + d * int (governed ctx m e gv) * gv_RewardRep gv" for gv
    using governed_split [OF assms, of ctx gv] by (simp add: algebra_simps)
  let ?f = "\<lambda>s e gv. d * int (governed ctx s e gv) * gv_RewardRep gv div rewardDivider"
  have "(\<Sum>gv \<leftarrow> gvs. ?f s m gv) + (\<Sum>gv \<leftarrow> gvs. ?f m e gv) \<le> (\<Sum>gv \<leftarrow> gvs. ?f s e gv) \<and>
      (\<Sum>gv \<leftarrow> gvs. ?f s e gv) \<le> (\<Sum>gv \<leftarrow> gvs. ?f s m gv) + (\<Sum>gv \<leftarrow> gvs. ?f m e gv) + int (length gvs)" for gvs
  proof (induction gvs)
    case (Cons gv gvs)
    have "?f s m gv + ?f m e gv \<le> ?f s e gv" "?f s e gv \<le> ?f s m gv + ?f m e gv + 1"
      unfolding parts using div_split [OF D] by simp_all
    with Cons show ?case by simp
  qed simp
  then show "delegation_reward ctx d s m + delegation_reward ctx d m e \<le> delegation_reward ctx d s e"
    and "delegation_reward ctx d s e \<le> delegation_reward ctx d s m + delegation_reward ctx d m e + int (length (GV ctx))"
    unfolding delegation_reward_def by simp_all
qed

text \<open>
  C13: Rounding never pays too much: computing the reward of a delegation in two steps, up to
  a block and from it on, gives at most the reward of the whole period and loses at most one
  I-Score per governance variable.
\<close>

theorem delegation_reward_in_two_steps:
  assumes "gvs_ok (GV ctx)" "start \<le> m" "m \<le> end_h" "pc_Start p \<le> start" "pc_End p = 0"
    and "calculateDelegationReward ctx dg start end_h p addr = Some (r, ctx')"
    and "calculateDelegationReward ctx dg start m p addr = Some (r1, ctx1)"
    and "calculateDelegationReward ctx dg m end_h p addr = Some (r2, ctx2)"
  shows "r1 + r2 \<le> r \<and> r \<le> r1 + r2 + int (length (GV ctx))"
proof -
  have "candidate_from start p = start" "candidate_from m p = m" "candidate_to x p = x" for x
    using assms(2,4,5) by (auto simp: candidate_from_def candidate_to_def max_def)
  then show ?thesis
    using calculateDelegationReward_sum [OF assms(1,6)] calculateDelegationReward_sum [OF assms(1,7)]
      calculateDelegationReward_sum [OF assms(1,8)] delegation_reward_split [OF assms(2,3), of ctx "dg_Delegate dg"]
    by simp
qed

lemma ex_delegation_steps:
  "calculateDelegationReward ex_calc_ctx \<lparr>dg_Address = ex_rep, dg_Delegate = 2000000\<rparr> 10 15
     \<lparr>pc_Address = ex_rep, pc_Start = 0, pc_End = 0\<rparr> ex_addr = Some (77, ex_calc_ctx)"
  "calculateDelegationReward ex_calc_ctx \<lparr>dg_Address = ex_rep, dg_Delegate = 2000000\<rparr> 15 20
     \<lparr>pc_Address = ex_rep, pc_Start = 0, pc_End = 0\<rparr> ex_addr = Some (77, ex_calc_ctx)"
  using ex_calc_ctx_ok(3)
  by (simp_all add: calculateDelegationReward_def Let_def ex_calc_ctx_def ex_gv_def WriteBeta3Info_def rewardDivider_def)

theorem delegation_reward_in_two_steps_witness:
  "(77::int) + 77 \<le> 154 \<and> (154::int) \<le> 77 + 77 + int (length (GV ex_calc_ctx))"
  using delegation_reward_in_two_steps [OF ex_gvs_ok _ _ _ _ ex_delegation ex_delegation_steps] by simp

section \<open>Shards\<close>

lemma account_db_get:
  assumes "kv_ok (account_db as)" "\<forall>p \<in> set as. account_ok p" "kv_ok db"
  shows "kv_get a (fold put_account (map (calc_account ctx h \<circ> snd) (due h as)) db) =
    (case map_of as a of
       Some ia \<Rightarrow> if ia_BlockHeight ia < h then Some (IScoreAccount_Bytes (calc_account ctx h ia)) else kv_get a db
     | None \<Rightarrow> kv_get a db)"
proof -
  have d: "distinct (map fst as)"
    using kv_ok_distinct [OF assms(1)] by (simp add: account_db_def comp_def case_prod_unfold)
  have addr: "ia_Address (snd p) = fst p" if "p \<in> set as" for p using assms(2) that by (simp add: account_ok_def)
  let ?ias = "map (calc_account ctx h \<circ> snd) (due h as)"
  have keys: "map ia_Address ?ias = map fst (due h as)"
    using addr by (auto simp: due_def calc_account_def)
  have d2: "distinct (map ia_Address ?ias)"
    unfolding keys using d by (simp add: due_def distinct_map_filter)
  have "map (\<lambda>ia. (ia_Address ia, ia)) ?ias = map (\<lambda>(k, ia). (k, calc_account ctx h ia)) (due h as)"
    using addr by (auto simp: due_def calc_account_def)
  then have "map_of (map (\<lambda>ia. (ia_Address ia, ia)) ?ias) a = map_option (calc_account ctx h) (map_of (due h as) a)"
    by (simp only: map_of_map comp_def)
  moreover have "map_of (due h as) a = (case map_of as a of None \<Rightarrow> None | Some ia \<Rightarrow> if ia_BlockHeight ia < h then Some ia else None)"
    using d unfolding due_def by (induction as) (auto split: option.splits simp: map_of_eq_None_iff)
  ultimately show ?thesis using fold_put_account(2) [OF assms(3) d2, of a] by (auto split: option.splits)
qed

text \<open>
  C11: A shard of the calculation, for any size of the write batches: every account of the
  query database below the height is written to the calculate database with its I-Score
  raised by the sum of its delegation rewards and at the new height, every other entry of
  the calculate database is kept, and the reported numbers are the number of accounts, the
  number of written ones and the sum of their rewards. The result is the same for every
  batch size, so batching is not observable.
\<close>

theorem shard_result:
  assumes "\<not> NeedToUpdateCalcDebugResult ctx" "gvs_ok (GV ctx)" "h \<noteq> 0"
    and "\<forall>p \<in> set as. account_ok p" "kv_ok (account_db as)" "kv_ok db"
  shows "\<exists>st hash db'. calculateDB shake (\<lambda>_. False) (account_db as) db ctx h batchCount =
      Some (of_nat (length (due h as)), st, Some hash, db', ctx) \<and>
    st_Accounts st = of_nat (length as) \<and> st_Beta3 st = (\<Sum>p \<leftarrow> due h as. account_reward ctx (snd p) h) \<and>
    (\<forall>a. kv_get a db' =
      (case map_of as a of
         Some ia \<Rightarrow> if ia_BlockHeight ia < h then Some (IScoreAccount_Bytes
           (ia\<lparr>ia_IScore := ia_IScore ia + account_reward ctx ia h, ia_BlockHeight := h\<rparr>)) else kv_get a db
       | None \<Rightarrow> kv_get a db))"
  using calculateDB_ok [OF assms(1-4), of shake db batchCount] account_db_get [OF assms(5,4,6), of _ ctx h]
  unfolding calc_account_def [symmetric] by blast

lemma ex_shard_reward: "account_reward ex_calc_ctx ex_account 20 = 154"
proof -
  have "delegation_reward ex_calc_ctx 2000000 10 20 = 154"
    using calculateDelegationReward_sum [OF ex_gvs_ok ex_delegation] by (simp add: candidate_from_def candidate_to_def)
  then show ?thesis
    by (simp add: account_reward_def one_reward_def ex_account_def ex_calc_ctx_def [of] MinDelegation_def big_uint64_def
        candidate_from_def candidate_to_def)
qed

theorem shard_result_witness:
  "\<exists>st hash db'. calculateDB (\<lambda>b. b) (\<lambda>_. False) (account_db [(ex_addr, ex_account)]) [] ex_calc_ctx 20 10 =
      Some (1, st, Some hash, db', ex_calc_ctx) \<and> st_Accounts st = 1 \<and> st_Beta3 st = 154 \<and>
    kv_get ex_addr db' = Some (IScoreAccount_Bytes (ex_account\<lparr>ia_IScore := 3654, ia_BlockHeight := 20\<rparr>))"
proof -
  have "due 20 [(ex_addr, ex_account)] = [(ex_addr, ex_account)]" "ia_IScore ex_account = 3500" "ia_BlockHeight ex_account = 10"
    by (simp_all add: due_def ex_account_def)
  then show ?thesis
    using shard_result [OF ex_calc_ctx_ok(3) ex_gvs_ok, of 20 "[(ex_addr, ex_account)]" "[]" "\<lambda>b. b" 10] ex_account_ok(1) ex_shard_reward
    by (auto simp: account_db_def kv_ok_Cons)
qed

section \<open>Delegation transactions\<close>

text \<open>
  C14: A delegation transaction in the term replaces exactly the part of the reward after it.
  For an account that was computed to the end of the term with its old delegations, the
  I-Score loses the reward of the old delegations from the transaction on and gains the
  reward of the new ones for the same blocks; the account then has the new delegations and
  is at the end of the term. The reported reward changes by the same difference.
\<close>

theorem delegation_tx_recalculates:
  assumes "\<not> NeedToUpdateCalcDebugResult (txs_ctx st)" "gvs_ok (GV (txs_ctx st))" "tx_BlockHeight tx < h"
    and "getCalculateDB (DB (txs_ctx st)) (tx_Address tx) = Some cDB"
    and "kv_get (tx_Address tx) (calcdb (txs_ctx st) cDB) = Some data" "NewIScoreAccountFromBytes data = Inr ia"
    and "ia_BlockHeight ia = h" "no_nil ia" "NewIScoreAccountFromIISS tx = Some (Some n)" "no_nil n"
    and "lost = account_reward (txs_ctx st) (ia\<lparr>ia_BlockHeight := tx_BlockHeight tx\<rparr>) h"
    and "gained = account_reward (txs_ctx st) n h"
    and "kv_ok (calcdb (txs_ctx st) cDB)"
  shows "\<exists>st'. delegate_tx h tx st = Some st' \<and> txs_stats st' = txs_stats st - lost + gained \<and>
    kv_get (tx_Address tx) (calcdb (txs_ctx st') cDB) =
      Some (IScoreAccount_Bytes (n\<lparr>ia_IScore := ia_IScore ia - lost + gained, ia_BlockHeight := h\<rparr>)) \<and>
    (\<forall>a. a \<noteq> tx_Address tx \<longrightarrow> kv_get a (calcdb (txs_ctx st') cDB) = kv_get a (calcdb (txs_ctx st) cDB))"
proof -
  let ?ctx = "txs_ctx st"
  have h0: "h \<noteq> 0" using assms(3) by auto
  let ?ia = "ia\<lparr>ia_BlockHeight := tx_BlockHeight tx, ia_IScore := 0\<rparr>"
  have "no_nil ?ia" using assms(8) by (simp add: no_nil_def)
  then obtain r0 ia0 where c0: "calculateIScore ?ctx ?ia h = Some (r0, ia0, ?ctx)"
    using calculateIScore_good [OF assms(1)] by blast
  have "account_reward ?ctx ?ia h = lost" by (simp add: assms(11) account_reward_def)
  then have ia0: "ia_IScore ia0 = lost"
    using calculateIScore_sum [OF assms(2) c0 h0] assms(3) by (simp add: calc_account_def not_le)
  have nf: "ia_Address n = tx_Address tx" using NewIScoreAccountFromIISS_fields [OF assms(9)] by simp
  have nb: "ia_BlockHeight n = tx_BlockHeight tx"
    using assms(9) by (auto simp: NewIScoreAccountFromIISS_def Let_def split: if_splits option.splits sum.splits go_any.splits)
  let ?n = "n\<lparr>ia_IScore := ia_IScore ia - lost\<rparr>"
  have "no_nil ?n" using assms(10) by (simp add: no_nil_def)
  then obtain r1 ia1 where c1: "calculateIScore ?ctx ?n h = Some (r1, ia1, ?ctx)"
    using calculateIScore_good [OF assms(1)] by blast
  have "account_reward ?ctx ?n h = gained" by (simp add: assms(12) account_reward_def)
  then have r1: "r1 = Some gained" "ia1 = n\<lparr>ia_IScore := ia_IScore ia - lost + gained, ia_BlockHeight := h\<rparr>"
    using calculateIScore_sum [OF assms(2) c1 h0] assms(3) nb by (simp_all add: calc_account_def not_le)
  have id1: "IScoreAccount_ID ia1 = tx_Address tx" using nf by (simp add: r1 IScoreAccount_ID_def Address_Bytes_def)
  have "delegate_tx h tx st = Some (st\<lparr>txs_stats := txs_stats st - lost + gained, txs_hash := txs_hash st @ BytesForHash ia1,
      txs_ctx := set_calcdb cDB (kv_put (tx_Address tx) (IScoreAccount_Bytes ia1) (calcdb ?ctx cDB)) ?ctx\<rparr>)"
    using assms(4-7,9) c0 c1 ia0 r1(1) id1
    by (simp add: delegate_tx_def old_iscore_get Let_def Bucket_Set_def del: PrefixIScore_Nil) (simp add: PrefixIScore_def)
  then show ?thesis using assms(13) by (simp add: r1(2))
qed

definition ex_tx :: IISSTX where
  "ex_tx = \<lparr>tx_Index = 0, tx_Address = ex_addr, tx_BlockHeight = 15, tx_DataType = TXDataTypeDelegate, tx_Data = None\<rparr>"

definition ex_tx_state :: tx_state where
  "ex_tx_state = \<lparr>txs_stats = 154, txs_new = 0, txs_hash = [],
     txs_ctx = set_calcdb (CalcDir 1 2 1)
       [(ex_addr, IScoreAccount_Bytes (ex_account\<lparr>ia_IScore := 3654, ia_BlockHeight := 20\<rparr>))] ex_calc_ctx\<rparr>"

lemma ex_tx_state_ok:
  "\<not> NeedToUpdateCalcDebugResult (txs_ctx ex_tx_state)" "GV (txs_ctx ex_tx_state) = GV ex_calc_ctx"
  "PRepCandidates (txs_ctx ex_tx_state) = PRepCandidates ex_calc_ctx"
  "getCalculateDB (DB (txs_ctx ex_tx_state)) ex_addr = Some (CalcDir 1 2 1)"
  "calcdb (txs_ctx ex_tx_state) (CalcDir 1 2 1) = [(ex_addr, IScoreAccount_Bytes (ex_account\<lparr>ia_IScore := 3654, ia_BlockHeight := 20\<rparr>))]"
  "NewIScoreAccountFromIISS ex_tx = Some (Some (zero_IScoreAccount\<lparr>ia_Address := ex_addr, ia_BlockHeight := 15\<rparr>))"
proof -
  have ix: "getAccountDBIndex (DB ex_calc_ctx) ex_addr = Some 0"
    by (simp add: getAccountDBIndex_def ex_calc_ctx_def ex_ctx_def ex_idb_def ex_info_def zero_DBInfo_def Address_ID_def ex_addr_def
        numeral_eq_Suc)
  show "\<not> NeedToUpdateCalcDebugResult (txs_ctx ex_tx_state)" "GV (txs_ctx ex_tx_state) = GV ex_calc_ctx"
    "PRepCandidates (txs_ctx ex_tx_state) = PRepCandidates ex_calc_ctx"
    using ex_calc_ctx_ok(3) by (simp_all add: ex_tx_state_def set_calcdb_def NeedToUpdateCalcDebugResult_def)
  show "calcdb (txs_ctx ex_tx_state) (CalcDir 1 2 1) = [(ex_addr, IScoreAccount_Bytes (ex_account\<lparr>ia_IScore := 3654, ia_BlockHeight := 20\<rparr>))]"
    by (simp add: ex_tx_state_def)
  have "GetCalcDBList (DB (txs_ctx ex_tx_state)) = GetCalcDBList (DB ex_calc_ctx)"
    "getAccountDBIndex (DB (txs_ctx ex_tx_state)) ex_addr = getAccountDBIndex (DB ex_calc_ctx) ex_addr"
    by (simp_all add: ex_tx_state_def set_calcdb_def getAccountDBIndex_def split: list.splits)
  then show "getCalculateDB (DB (txs_ctx ex_tx_state)) ex_addr = Some (CalcDir 1 2 1)"
    by (simp add: getCalculateDB_def ix ex_calc_ctx_ok(7) db_at_def)
  show "NewIScoreAccountFromIISS ex_tx = Some (Some (zero_IScoreAccount\<lparr>ia_Address := ex_addr, ia_BlockHeight := 15\<rparr>))"
    by (simp add: NewIScoreAccountFromIISS_def ex_tx_def)
qed

lemma ex_tx_rewards:
  "account_reward (txs_ctx ex_tx_state) (ex_account\<lparr>ia_Address := zero_address, ia_IScore := 3654, ia_BlockHeight := 15\<rparr>) 20 = 77"
  "account_reward (txs_ctx ex_tx_state) (zero_IScoreAccount\<lparr>ia_Address := ex_addr, ia_BlockHeight := 15\<rparr>) 20 = 0"
proof -
  have "delegation_reward ex_calc_ctx 2000000 15 20 = 77"
    using calculateDelegationReward_sum [OF ex_gvs_ok ex_delegation_steps(2)] by (simp add: candidate_from_def candidate_to_def)
  moreover have "delegation_reward (txs_ctx ex_tx_state) = delegation_reward ex_calc_ctx"
    by (rule delegation_reward_cong) (rule ex_tx_state_ok(2))
  moreover have "PRepCandidates ex_calc_ctx = [(ex_rep, \<lparr>pc_Address = ex_rep, pc_Start = 0, pc_End = 0\<rparr>)]"
    by (simp add: ex_calc_ctx_def)
  ultimately show "account_reward (txs_ctx ex_tx_state) (ex_account\<lparr>ia_Address := zero_address, ia_IScore := 3654, ia_BlockHeight := 15\<rparr>) 20 = 77"
    by (simp add: account_reward_def one_reward_def ex_account_def ex_tx_state_ok(3) MinDelegation_def big_uint64_def
        candidate_from_def candidate_to_def)
  show "account_reward (txs_ctx ex_tx_state) (zero_IScoreAccount\<lparr>ia_Address := ex_addr, ia_BlockHeight := 15\<rparr>) 20 = 0"
    by (simp add: account_reward_def zero_IScoreAccount_def)
qed

theorem delegation_tx_recalculates_witness:
  "\<exists>st'. delegate_tx 20 ex_tx ex_tx_state = Some st' \<and> txs_stats st' = 77 \<and>
    kv_get ex_addr (calcdb (txs_ctx st') (CalcDir 1 2 1)) = Some (IScoreAccount_Bytes
      \<lparr>ia_Address = ex_addr, ia_IScore = 3577, ia_BlockHeight = 20, ia_Delegations = []\<rparr>)"
proof -
  let ?ia = "ex_account\<lparr>ia_Address := zero_address, ia_IScore := 3654, ia_BlockHeight := 20\<rparr>"
  have dec: "NewIScoreAccountFromBytes (IScoreAccount_Bytes (ex_account\<lparr>ia_IScore := 3654, ia_BlockHeight := 20\<rparr>)) = Inr ?ia"
    using ex_account_ok(1) by (simp add: NewIScoreAccountFromBytes_Bytes account_ok_def ex_account_def)
  have nn: "no_nil ?ia" "no_nil (zero_IScoreAccount\<lparr>ia_Address := ex_addr, ia_BlockHeight := 15\<rparr>)"
    by (simp_all add: no_nil_def ex_account_def zero_IScoreAccount_def)
  have gvs: "gvs_ok (GV (txs_ctx ex_tx_state))" using ex_gvs_ok by (simp add: ex_tx_state_ok(2))
  have tx: "tx_Address ex_tx = ex_addr" "tx_BlockHeight ex_tx = 15" by (simp_all add: ex_tx_def)
  have kv: "kv_get ex_addr (calcdb (txs_ctx ex_tx_state) (CalcDir 1 2 1)) =
      Some (IScoreAccount_Bytes (ex_account\<lparr>ia_IScore := 3654, ia_BlockHeight := 20\<rparr>))"
    "kv_ok (calcdb (txs_ctx ex_tx_state) (CalcDir 1 2 1))"
    unfolding ex_tx_state_ok(5) by (simp_all add: kv_get_def kv_ok_Cons)
  have st: "txs_stats ex_tx_state = 154" by (simp add: ex_tx_state_def)
  show ?thesis
    using delegation_tx_recalculates [of ex_tx_state ex_tx 20 "CalcDir 1 2 1" _ ?ia _ 77 0,
        OF ex_tx_state_ok(1) gvs _ _ _ dec _ nn(1) ex_tx_state_ok(6) nn(2) _ _ kv(2)]
      ex_tx_state_ok(4) kv(1) ex_tx_rewards st
    by (auto simp: tx zero_IScoreAccount_def)
qed

end
