(* ===== verification/PayTheorems.thy ===== *)
theory PayTheorems
  imports RewardTheorems
begin

text \<open>
  Block producers and P-Reps: the credits of a reward map do not depend on the order in which
  Go iterates over it, and the P-Rep rewards of a period against a count of blocks.
\<close>

section \<open>Crediting a reward map\<close>

definition creditable :: "Context \<Rightarrow> address \<Rightarrow> bool" where
  "creditable ctx a \<longleftrightarrow>
     (case getCalculateDB (DB ctx) a of
        None \<Rightarrow> False
      | Some n \<Rightarrow> kv_ok (calcdb ctx n) \<and>
          (case kv_get a (calcdb ctx n) of None \<Rightarrow> True | Some v \<Rightarrow> \<exists>ia. NewIScoreAccountFromBytes v = Inr ia))"

text \<open>The account of an address once its reward is credited.\<close>

definition credit :: "Context \<Rightarrow> u64 \<Rightarrow> address \<times> int \<Rightarrow> IScoreAccount" where
  "credit ctx h p =
     (case p of (a, r) \<Rightarrow>
      case getCalculateDB (DB ctx) a of
        None \<Rightarrow> zero_IScoreAccount
      | Some cDB \<Rightarrow>
          (case kv_get a (calcdb ctx cDB) of
             None \<Rightarrow> zero_IScoreAccount\<lparr>ia_IScore := r, ia_Address := a, ia_BlockHeight := h\<rparr>
           | Some data \<Rightarrow>
               (case NewIScoreAccountFromBytes data of
                  Inl _ \<Rightarrow> zero_IScoreAccount
                | Inr ia \<Rightarrow> ia\<lparr>ia_IScore := ia_IScore ia + r, ia_Address := a\<rparr>)))"

definition is_new :: "Context \<Rightarrow> address \<Rightarrow> bool" where
  "is_new ctx a \<longleftrightarrow> (case getCalculateDB (DB ctx) a of None \<Rightarrow> False | Some cDB \<Rightarrow> kv_get a (calcdb ctx cDB) = None)"

lemma credit_address: "creditable ctx a \<Longrightarrow> ia_Address (credit ctx h (a, r)) = a"
  by (auto simp: creditable_def credit_def split: option.splits)

lemma getCalculateDB_set [simp]: "getCalculateDB (DB (set_calcdb n m ctx)) a = getCalculateDB (DB ctx) a"
  by (simp add: getCalculateDB_def set_calcdb_def getAccountDBIndex_def split: list.splits)

lemma credit_other:
  assumes "b \<noteq> a" "creditable ctx a" "getCalculateDB (DB ctx) a = Some n"
  shows "creditable (set_calcdb n (kv_put a v (calcdb ctx n)) ctx) b = creditable ctx b"
    and "credit (set_calcdb n (kv_put a v (calcdb ctx n)) ctx) h (b, r) = credit ctx h (b, r)"
    and "is_new (set_calcdb n (kv_put a v (calcdb ctx n)) ctx) b = is_new ctx b"
proof -
  have ok: "kv_ok (calcdb ctx n)" using assms(2,3) by (simp add: creditable_def)
  let ?ctx = "set_calcdb n (kv_put a v (calcdb ctx n)) ctx"
  have "kv_get b (calcdb ?ctx m) = kv_get b (calcdb ctx m)" "kv_ok (calcdb ?ctx m) = kv_ok (calcdb ctx m)" for m
    using ok assms(1) by (cases "m = n"; simp)+
  then show "creditable ?ctx b = creditable ctx b" "credit ?ctx h (b, r) = credit ctx h (b, r)" "is_new ?ctx b = is_new ctx b"
    by (simp_all add: creditable_def credit_def is_new_def cong: option.case_cong)
qed

text \<open>The whole map, in the order of the list.\<close>

lemma bp_write_spec:
  assumes "distinct (map fst rs)" "\<forall>p \<in> set rs. creditable (pay_ctx st) (fst p)"
  shows "\<exists>st'. bp_write h rs st = Some st' \<and>
    pay_new st' = pay_new st + of_nat (length (filter (\<lambda>p. is_new (pay_ctx st) (fst p)) rs)) \<and>
    pay_total st' = pay_total st + (\<Sum>p \<leftarrow> rs. snd p) \<and>
    pay_accounts st' = pay_accounts st @ map (credit (pay_ctx st) h) rs \<and>
    (\<forall>k. kv_ok (calcdb (pay_ctx st) k) \<longrightarrow> kv_ok (calcdb (pay_ctx st') k)) \<and>
    (\<forall>k a. kv_get a (calcdb (pay_ctx st') k) =
      (if getCalculateDB (DB (pay_ctx st)) a = Some k \<and> map_of rs a \<noteq> None
       then Some (IScoreAccount_Bytes (credit (pay_ctx st) h (a, the (map_of rs a)))) else kv_get a (calcdb (pay_ctx st) k)))"
  using assms
proof (induction rs arbitrary: st)
  case (Cons p rs)
  obtain a r where p: "p = (a, r)" by (cases p)
  let ?ctx = "pay_ctx st"
  have cr: "creditable ?ctx a" using Cons.prems(2) by (simp add: p)
  then obtain n where n: "getCalculateDB (DB ?ctx) a = Some n" "kv_ok (calcdb ?ctx n)"
    by (auto simp: creditable_def split: option.splits)
  let ?ia = "credit ?ctx h (a, r)"
  let ?ctx1 = "set_calcdb n (kv_put a (IScoreAccount_Bytes ?ia) (calcdb ?ctx n)) ?ctx"
  let ?st1 = "st\<lparr>pay_new := pay_new st + (if is_new ?ctx a then 1 else 0), pay_total := pay_total st + r,
      pay_accounts := pay_accounts st @ [?ia], pay_ctx := ?ctx1\<rparr>"
  have step: "bp_write h (p # rs) st = bp_write h rs ?st1"
    using cr n
    by (auto simp: p creditable_def credit_def is_new_def Bucket_Get_def Let_def Bucket_Set_def IScoreAccount_ID_def Address_Bytes_def
        split: option.splits)
  have ne: "b \<noteq> a" if "(b, x) \<in> set rs" for b x using Cons.prems(1) that by (force simp: p)
  note other = credit_other [OF _ cr n(1)]
  have f: "filter (\<lambda>p. is_new ?ctx1 (fst p)) rs = filter (\<lambda>p. is_new ?ctx (fst p)) rs" "map (credit ?ctx1 h) rs = map (credit ?ctx h) rs"
    using ne other(2,3) by (auto intro!: filter_cong)
  have "distinct (map fst rs)" "\<forall>p \<in> set rs. creditable (pay_ctx ?st1) (fst p)"
    using Cons.prems ne other(1) by (auto simp: p)
  note IH = Cons.IH [OF this]
  have ctx1: "pay_ctx ?st1 = ?ctx1" by simp
  obtain st' where st': "bp_write h rs ?st1 = Some st'"
    "pay_new st' = pay_new ?st1 + of_nat (length (filter (\<lambda>p. is_new ?ctx (fst p)) rs))"
    "pay_total st' = pay_total ?st1 + (\<Sum>p \<leftarrow> rs. snd p)" "pay_accounts st' = pay_accounts ?st1 @ map (credit ?ctx h) rs"
    "\<forall>k. kv_ok (calcdb ?ctx1 k) \<longrightarrow> kv_ok (calcdb (pay_ctx st') k)"
    "\<forall>k b. kv_get b (calcdb (pay_ctx st') k) = (if getCalculateDB (DB ?ctx1) b = Some k \<and> map_of rs b \<noteq> None
       then Some (IScoreAccount_Bytes (credit ?ctx1 h (b, the (map_of rs b)))) else kv_get b (calcdb ?ctx1 k))"
    using IH unfolding ctx1 f by blast
  have none: "map_of rs a = None" using Cons.prems(1) by (simp add: p map_of_eq_None_iff)
  have get: "kv_get b (calcdb (pay_ctx st') k) = (if getCalculateDB (DB ?ctx) b = Some k \<and> map_of (p # rs) b \<noteq> None
       then Some (IScoreAccount_Bytes (credit ?ctx h (b, the (map_of (p # rs) b)))) else kv_get b (calcdb ?ctx k))" for k b
  proof (cases "b = a")
    case True
    then show ?thesis using st'(6) [rule_format, of a k] none n by (auto simp: p)
  next
    case False
    then show ?thesis using st'(6) [rule_format, of b k] other(2) [OF False] n False
      by (cases "map_of rs b"; cases "k = n") (simp_all add: p)
  qed
  show ?case
    unfolding step using st' get n(2) by (intro exI [of _ st']) (simp add: p)
qed simp

section \<open>Block producers\<close>

text \<open>Databases in which every account decodes.\<close>

definition calc_decodes :: "Context \<Rightarrow> bool" where
  "calc_decodes ctx \<longleftrightarrow> idb_ok (DB ctx) \<and>
     (\<forall>n \<in> set (GetCalcDBList (DB ctx)). kv_ok (calcdb ctx n) \<and>
       (\<forall>p \<in> set (calcdb ctx n). \<exists>ia. NewIScoreAccountFromBytes (snd p) = Inr ia))"

lemma calc_decodes_creditable:
  assumes "calc_decodes ctx" "address_ok a"
  shows "creditable ctx a"
proof -
  have idb: "idb_ok (DB ctx)" using assms(1) by (simp add: calc_decodes_def)
  obtain i where i: "i < nat (DBCount (info (DB ctx)))"
    "getCalculateDB (DB ctx) a = Some (CalcDir (int i + 1) (DBCount (info (DB ctx))) (calc_postfix (DB ctx)))"
    using idb_ok_getDB [OF idb assms(2)] by auto
  then have "CalcDir (int i + 1) (DBCount (info (DB ctx))) (calc_postfix (DB ctx)) \<in> set (GetCalcDBList (DB ctx))"
    by (auto simp: idb_ok_lists [OF idb] account_names_def)
  then show ?thesis
    using assms(1) i(2) by (force simp: creditable_def calc_decodes_def kv_get_iff split: option.split)
qed

lemma distinct_add_reward: "distinct (map fst m) \<Longrightarrow> distinct (map fst (map_add_reward r a m))"
  by (simp add: map_add_reward_def distinct_update)

lemma distinct_fold_reward: "distinct (map fst m) \<Longrightarrow> distinct (map fst (fold (map_add_reward r) as m))"
  by (induction as arbitrary: m) (simp_all add: distinct_add_reward)

lemma bp_loop_map:
  assumes "bp_loop bp es (m, ctx) = Some (m', ctx')" "bp_ok bp" "\<forall>p \<in> set m. address_ok (fst p)" "distinct (map fst m)"
  shows "(\<forall>p \<in> set m'. address_ok (fst p)) \<and> distinct (map fst m')"
  using assms
proof (induction es arbitrary: bp m ctx)
  case (Cons e es)
  obtain k v where e: "e = (k, v)" by (cases e)
  show ?case
  proof (cases "BP_SetBytes bp v")
    case (Inl x)
    then show ?thesis using Cons.prems Cons.IH by (simp add: e)
  next
    case (Inr bp0)
    let ?bp = "bp0\<lparr>bp_BlockHeight := BytesToUint64 (drop (length PrefixIISSBPInfo) k)\<rparr>"
    have ok: "bp_ok ?bp" using BP_SetBytes_ok [OF Inr Cons.prems(2)] by (simp add: bp_ok_def)
    have "\<forall>p \<in> set (map_add_reward r (bp_Generator bp0) m). address_ok (fst p)"
      "\<forall>p \<in> set (fold (map_add_reward r') (bp_Validator bp0) (map_add_reward r (bp_Generator bp0) m)). address_ok (fst p)" for r r'
      using Cons.prems(3) ok by (simp_all add: ball_add_reward ball_fold_reward bp_ok_def)
    note keep = Cons.IH [OF _ ok] this
    from Cons.prems(1) show ?thesis
      using keep(1) [OF _ Cons.prems(3,4)] keep(1) [OF _ keep(2) distinct_add_reward [OF Cons.prems(4)]]
        keep(1) [OF _ keep(3) distinct_fold_reward [OF distinct_add_reward [OF Cons.prems(4)]]] Inr
      by (auto simp: e Let_def split: option.splits if_splits)
  qed
qed simp

lemma bp_write_order:
  assumes "distinct (map fst rs1)" "\<forall>p \<in> set rs1. creditable ctx (fst p)" "mset rs1 = mset rs2"
    and "bp_write h rs1 \<lparr>pay_new = 0, pay_total = 0, pay_accounts = [], pay_ctx = ctx\<rparr> = Some st1"
    and "bp_write h rs2 \<lparr>pay_new = 0, pay_total = 0, pay_accounts = [], pay_ctx = ctx\<rparr> = Some st2"
  shows "pay_new st1 = pay_new st2 \<and> pay_total st1 = pay_total st2 \<and>
    sort_key IScoreAccount_ID (pay_accounts st1) = sort_key IScoreAccount_ID (pay_accounts st2) \<and>
    (\<forall>k a. kv_get a (calcdb (pay_ctx st1) k) = kv_get a (calcdb (pay_ctx st2) k))"
proof -
  have set: "set rs1 = set rs2" using assms(3) by (rule mset_eq_setD)
  have "mset (map fst rs1) = mset (map fst rs2)" using assms(3) by simp
  then have d2: "distinct (map fst rs2)" using assms(1) mset_eq_imp_distinct_iff by blast
  have c2: "\<forall>p \<in> set rs2. creditable ctx (fst p)" using assms(2) set by simp
  let ?st = "\<lparr>pay_new = 0, pay_total = 0, pay_accounts = [], pay_ctx = ctx\<rparr> :: pay_state"
  have w1: "pay_new st1 = of_nat (length (filter (\<lambda>p. is_new ctx (fst p)) rs1)) \<and> pay_total st1 = (\<Sum>p \<leftarrow> rs1. snd p) \<and>
      pay_accounts st1 = map (credit ctx h) rs1 \<and>
      (\<forall>k a. kv_get a (calcdb (pay_ctx st1) k) = (if getCalculateDB (DB ctx) a = Some k \<and> map_of rs1 a \<noteq> None
        then Some (IScoreAccount_Bytes (credit ctx h (a, the (map_of rs1 a)))) else kv_get a (calcdb ctx k)))"
    using bp_write_spec [OF assms(1), of ?st h] assms(2,4) by auto
  have w2: "pay_new st2 = of_nat (length (filter (\<lambda>p. is_new ctx (fst p)) rs2)) \<and> pay_total st2 = (\<Sum>p \<leftarrow> rs2. snd p) \<and>
      pay_accounts st2 = map (credit ctx h) rs2 \<and>
      (\<forall>k a. kv_get a (calcdb (pay_ctx st2) k) = (if getCalculateDB (DB ctx) a = Some k \<and> map_of rs2 a \<noteq> None
        then Some (IScoreAccount_Bytes (credit ctx h (a, the (map_of rs2 a)))) else kv_get a (calcdb ctx k)))"
    using bp_write_spec [OF d2, of ?st h] c2 assms(5) by auto
  have maps: "map_of rs1 = map_of rs2" using assms(1) d2 set by (rule map_of_inject_set [THEN iffD2])
  have "length (filter Q rs1) = length (filter Q rs2)" for Q
    using arg_cong [OF assms(3), of "\<lambda>m. size (filter_mset Q m)"] by (simp flip: mset_filter)
  moreover have "(\<Sum>p \<leftarrow> rs1. snd p) = (\<Sum>p \<leftarrow> rs2. snd p)"
    using arg_cong [OF assms(3), of "\<lambda>m. \<Sum>p \<in># m. snd p"] by (simp flip: sum_mset_sum_list mset_map)
  moreover have "sort_key IScoreAccount_ID (map (credit ctx h) rs1) = sort_key IScoreAccount_ID (map (credit ctx h) rs2)"
  proof (rule sort_key_inj_key_eq)
    show "mset (map (credit ctx h) rs1) = mset (sort_key IScoreAccount_ID (map (credit ctx h) rs2))" using assms(3) by simp
    show "inj_on IScoreAccount_ID (set (map (credit ctx h) rs1))"
    proof (rule inj_onI)
      fix x y
      assume "x \<in> set (map (credit ctx h) rs1)" "y \<in> set (map (credit ctx h) rs1)" "IScoreAccount_ID x = IScoreAccount_ID y"
      then obtain p q where pq: "p \<in> set rs1" "q \<in> set rs1" "x = credit ctx h p" "y = credit ctx h q"
        "ia_Address x = ia_Address y"
        by (auto simp: IScoreAccount_ID_def Address_Bytes_def)
      then have "fst p = fst q"
        using assms(2) credit_address [of ctx "fst p" h "snd p"] credit_address [of ctx "fst q" h "snd q"] by simp
      then have "p = q" using assms(1) pq(1,2) by (metis distinct_map inj_onD)
      then show "x = y" using pq by simp
    qed
  qed simp
  ultimately show ?thesis using w1 w2 unfolding maps by auto
qed

text \<open>
  C17: The credits of the block producers do not depend on the order in which Go iterates over
  the map of rewards: whatever the two orders, the same number of new accounts, the same total,
  the same hash and the same calculate databases come out. The accounts are sorted before they
  are hashed, and each address is credited once.
\<close>

theorem block_produce_order_free:
  assumes "order_ok order1" "order_ok order2" "calc_decodes ctx"
  shows "map_option (\<lambda>(n, r, hash, ctx'). (n, r, hash, calcdb ctx')) (calculateIISSBlockProduce shake order1 ctx iissDB h) =
    map_option (\<lambda>(n, r, hash, ctx'). (n, r, hash, calcdb ctx')) (calculateIISSBlockProduce shake order2 ctx iissDB h)"
proof (cases "bp_loop zero_BP (Iterator_prefix iissDB PrefixIISSBPInfo) ([], ctx)")
  case None
  then show ?thesis by (simp add: calculateIISSBlockProduce_def)
next
  case (Some p)
  obtain m ctx1 where p: "p = (m, ctx1)" by (cases p)
  have core: "same_core ctx ctx1" using Some p bp_loop_core by blast
  have dec: "calc_decodes ctx1" using assms(3) same_core_fields [OF core] by (simp add: calc_decodes_def calcdb_def)
  have m: "\<forall>p \<in> set m. address_ok (fst p)" "distinct (map fst m)"
    using bp_loop_map [OF Some [unfolded p]] zero_address_ok by (simp_all add: bp_ok_def zero_BP_def)
  let ?st = "\<lparr>pay_new = 0, pay_total = 0, pay_accounts = [], pay_ctx = ctx1\<rparr> :: pay_state"
  have ms: "mset (order1 m) = mset m" "mset (order2 m) = mset m" using assms(1,2) by (simp_all add: order_ok_def)
  have cr: "distinct (map fst rs)" "\<forall>p \<in> set rs. creditable ctx1 (fst p)" if "mset rs = mset m" for rs
  proof -
    have "mset (map fst rs) = mset (map fst m)" using that by simp
    moreover have "set rs = set m" using that by (rule mset_eq_setD)
    moreover have "distinct (map fst rs) = distinct (map fst m)" by (rule mset_eq_imp_distinct_iff) (simp add: that)
    ultimately show "distinct (map fst rs)" "\<forall>p \<in> set rs. creditable ctx1 (fst p)"
      using m calc_decodes_creditable [OF dec] by simp_all
  qed
  have spec: "\<exists>st'. bp_write h rs ?st = Some st' \<and> (\<forall>k. kv_ok (calcdb ctx1 k) \<longrightarrow> kv_ok (calcdb (pay_ctx st') k))"
    if "mset rs = mset m" for rs
    using bp_write_spec [OF cr(1) [OF that], of ?st h] cr(2) [OF that] by auto
  obtain st1 st2 where w: "bp_write h (order1 m) ?st = Some st1" "bp_write h (order2 m) ?st = Some st2"
    and ok: "\<forall>k. kv_ok (calcdb ctx1 k) \<longrightarrow> kv_ok (calcdb (pay_ctx st1) k)" "\<forall>k. kv_ok (calcdb ctx1 k) \<longrightarrow> kv_ok (calcdb (pay_ctx st2) k)"
    using spec [OF ms(1)] spec [OF ms(2)] by blast
  have eq: "pay_new st1 = pay_new st2 \<and> pay_total st1 = pay_total st2 \<and>
      sort_key IScoreAccount_ID (pay_accounts st1) = sort_key IScoreAccount_ID (pay_accounts st2) \<and>
      (\<forall>k a. kv_get a (calcdb (pay_ctx st1) k) = kv_get a (calcdb (pay_ctx st2) k))"
    using bp_write_order [OF cr [OF ms(1)] _ w] ms by simp
  have "calcdb (pay_ctx st1) n = calcdb (pay_ctx st2) n" for n
  proof (cases "n \<in> set (GetCalcDBList (DB ctx1))")
    case True
    then have "kv_ok (calcdb ctx1 n)" using dec by (simp add: calc_decodes_def)
    then have "kv_ok (calcdb (pay_ctx st1) n)" "kv_ok (calcdb (pay_ctx st2) n)" using ok by blast+
    then show ?thesis using eq by (intro kv_ext) auto
  next
    case False
    then show ?thesis
      using bp_write_pays [OF w(1)] bp_write_pays [OF w(2)] frame_calcdb by (fastforce simp: pays_def)
  qed
  then have "calcdb (pay_ctx st1) = calcdb (pay_ctx st2)" ..
  with eq show ?thesis using w Some by (simp add: p calculateIISSBlockProduce_def)
qed

lemma ex_calc_decodes: "calc_decodes ex_calc_ctx"
  using ex_calc_ctx_ok(1,9,10) ex_account_ok(3) by (simp add: calc_decodes_def ex_calc_ctx_ok(7) kv_ok_Cons)

definition ex_bp_db :: "obj kv" where
  "ex_bp_db = (let bp = \<lparr>bp_BlockHeight = 12, bp_Generator = ex_rep, bp_Validator = [ex_addr, ex_rep]\<rparr>
     in Bucket_Set [] PrefixIISSBPInfo (BP_ID bp) (BP_Bytes bp))"

theorem block_produce_order_free_witness:
  "map_option (\<lambda>(n, r, hash, ctx'). (n, r, hash, calcdb ctx')) (calculateIISSBlockProduce (\<lambda>b. b) (\<lambda>m. m) ex_calc_ctx ex_bp_db 20) =
    map_option (\<lambda>(n, r, hash, ctx'). (n, r, hash, calcdb ctx')) (calculateIISSBlockProduce (\<lambda>b. b) rev ex_calc_ctx ex_bp_db 20)"
  using order_id_ok ex_calc_decodes by (intro block_produce_order_free) (simp_all add: order_ok_def)

section \<open>P-Reps\<close>

text \<open>The reward of a P-Rep between two heights, counting blocks.\<close>

definition prep_reward :: "Context \<Rightarrow> PRep \<Rightarrow> u64 \<Rightarrow> u64 \<Rightarrow> PRepDelegationInfo \<Rightarrow> int" where
  "prep_reward ctx prep s e d =
     (\<Sum>gv \<leftarrow> GV ctx. int (governed ctx s e gv) * gv_PRepReward gv * di_DelegatedAmount d div pr_TotalDelegation prep)"

lemma prep_period_fst:
  assumes "prep_period prep s e gv dgs rs ctx = Some (rs', ctx')" "0 < pr_TotalDelegation prep" "length rs = length dgs"
  shows "map fst rs' = map2 (\<lambda>d r. r + uint (e - s) * gv_PRepReward gv * di_DelegatedAmount d div pr_TotalDelegation prep) dgs (map fst rs) \<and>
    same_core ctx ctx'"
  using assms
proof (induction prep s e gv dgs rs ctx arbitrary: rs' ctx' rule: prep_period.induct)
  case (1 prep s e gv dgInfo dgs iScore h rs ctx)
  let ?r = "uint (e - s) * gv_PRepReward gv * di_DelegatedAmount dgInfo div pr_TotalDelegation prep"
  have d: "big_div (uint (e - s) * gv_PRepReward gv * di_DelegatedAmount dgInfo) (pr_TotalDelegation prep) = Some ?r"
    using "1.prems"(2) by (rule big_div_pos)
  obtain ctx1 rs1 where st: "WriteBeta2Info dgInfo prep s e (big_uint64 (gv_PRepReward gv)) ctx = Some ctx1"
    "prep_period prep s e gv dgs rs ctx1 = Some (rs1, ctx')" "rs' = (iScore + ?r, e) # rs1"
    using "1.prems"(1) d by (auto simp: Let_def split: option.splits)
  show ?case
    using "1.IH" [OF HOL.refl d st(1,2) "1.prems"(2)] "1.prems"(3) same_core_WriteBeta2Info [OF st(1)] same_core_trans
    by (auto simp: st(3))
qed (auto simp: same_core_refl)

lemma prep_gv_loop_fst:
  assumes "gvs_ok (GV ctx0)" "GV ctx0 = pre @ gvs" "0 < pr_TotalDelegation prep" "length rs = length (pr_List prep)"
    and "prep_gv_loop prep s e gvs (rs, ctx) = Some (rs', ctx')"
  shows "map fst rs' = map2 (\<lambda>d r. r + (\<Sum>gv \<leftarrow> gvs. int (governed ctx0 s e gv) * gv_PRepReward gv * di_DelegatedAmount d div
      pr_TotalDelegation prep)) (pr_List prep) (map fst rs) \<and> same_core ctx ctx'"
  using assms(2,4,5)
proof (induction gvs arbitrary: pre rs ctx)
  case Nil
  then show ?case by (simp add: same_core_refl map2_map_map map_zip_map2 list_eq_iff_nth_eq)
next
  case (Cons gv gvs)
  have split: "GV ctx0 = (pre @ [gv]) @ gvs" using Cons.prems(1) by simp
  note p = governed_period [OF assms(1) Cons.prems(1), of s e]
  have gf: "(if s \<le> gv_BlockHeight gv then gv_BlockHeight gv else s) = gv_from s gv"
    "(case gvs of [] \<Rightarrow> e | n # _ \<Rightarrow> if gv_BlockHeight n < e then gv_BlockHeight n else e) = gv_to e gvs"
    by (auto simp: gv_from_def gv_to_def split: list.split)
  show ?case
  proof (cases "gv_to e gvs \<le> gv_from s gv")
    case True
    then have "governed ctx0 s e gv = 0" using p by (simp add: word_le_nat_alt)
    then show ?thesis using Cons.IH [OF split Cons.prems(2)] Cons.prems(3) True by (simp add: Let_def gf)
  next
    case False
    then have u: "uint (gv_to e gvs - gv_from s gv) = int (governed ctx0 s e gv)"
      using p by (simp add: uint_period)
    obtain rs1 ctx1 where st: "prep_period prep (gv_from s gv) (gv_to e gvs) gv (pr_List prep) rs ctx = Some (rs1, ctx1)"
      "prep_gv_loop prep s e gvs (rs1, ctx1) = Some (rs', ctx')"
      using Cons.prems(3) False by (auto simp: Let_def gf split: option.splits)
    note one = prep_period_fst [OF st(1) assms(3) Cons.prems(2), unfolded u]
    have len: "length rs1 = length (pr_List prep)"
      using arg_cong [OF one [THEN conjunct1], of length] Cons.prems(2) by simp
    note ih = Cons.IH [OF split len st(2)]
    have "same_core ctx ctx'" using ih one same_core_trans by blast
    then show ?thesis
      using ih [THEN conjunct1] one [THEN conjunct1] len Cons.prems(2)
      by (simp add: list_eq_iff_nth_eq)
  qed
qed

lemma prep_write_total:
  assumes "distinct (map (di_Address \<circ> fst) rs)" "\<forall>p \<in> set rs. creditable (ps_ctx st) (di_Address (fst p))"
  shows "\<exists>st'. prep_write e h rs st = Some st' \<and> ps_total st' = ps_total st + (\<Sum>p \<leftarrow> rs. fst (snd p))"
  using assms
proof (induction rs arbitrary: st)
  case (Cons p rs)
  obtain d r b where p: "p = (d, r, b)" by (cases p)
  let ?ctx = "ps_ctx st"
  have cr: "creditable ?ctx (di_Address d)" using Cons.prems(2) by (simp add: p)
  then obtain n where n: "getCalculateDB (DB ?ctx) (di_Address d) = Some n" "kv_ok (calcdb ?ctx n)"
    by (auto simp: creditable_def split: option.splits)
  let ?put = "\<lambda>ia k. st\<lparr>ps_new := ps_new st + k, ps_total := ps_total st + r, ps_hash := ps_hash st @ BytesForHash (ia\<lparr>ia_Address := di_Address d\<rparr>),
      ps_ctx := set_calcdb n (kv_put (di_Address d) (IScoreAccount_Bytes (ia\<lparr>ia_Address := di_Address d\<rparr>)) (calcdb ?ctx n)) ?ctx\<rparr>"
  note defs = Bucket_Get_def Let_def Bucket_Set_def IScoreAccount_ID_def Address_Bytes_def
  obtain ia k where st: "prep_write e h (p # rs) st = prep_write e h rs (?put ia k)"
  proof (cases "kv_get (di_Address d) (calcdb ?ctx n)")
    case None
    then have "prep_write e h (p # rs) st = prep_write e h rs (?put (zero_IScoreAccount\<lparr>ia_IScore := r,
        ia_BlockHeight := (if Revision ?ctx \<ge> Revision8 then h else e)\<rparr>) 1)"
      using n by (simp add: p defs)
    then show ?thesis by (rule that)
  next
    case (Some data)
    then obtain ia where "NewIScoreAccountFromBytes data = Inr ia" using cr n by (auto simp: creditable_def)
    with Some have "prep_write e h (p # rs) st = prep_write e h rs (?put (if Revision ?ctx \<ge> Revision8 then ia\<lparr>ia_IScore := ia_IScore ia + r\<rparr>
        else ia\<lparr>ia_IScore := ia_IScore ia + r, ia_BlockHeight := b\<rparr>) 0)"
      using n by (simp add: p defs)
    then show ?thesis by (rule that)
  qed
  have ne: "di_Address (fst q) \<noteq> di_Address d" if "q \<in> set rs" for q using Cons.prems(1) that by (force simp: p)
  have "\<forall>q \<in> set rs. creditable (set_calcdb n (kv_put (di_Address d) v (calcdb ?ctx n)) ?ctx) (di_Address (fst q))" for v
    using Cons.prems(2) credit_other(1) [OF ne cr n(1)] by simp
  then have "\<exists>st'. prep_write e h rs (?put ia k) = Some st' \<and> ps_total st' = ps_total (?put ia k) + (\<Sum>p \<leftarrow> rs. fst (snd p))"
    using Cons.prems(1) by (intro Cons.IH) simp_all
  then show ?case unfolding st by (simp add: p add.assoc)
qed simp

lemma setPRepReward_total:
  assumes "gvs_ok (GV ctx)" "calc_decodes ctx" "prep_ok prep" "distinct (map di_Address (pr_List prep))"
    and "0 < pr_TotalDelegation prep" "setPRepReward shake ctx start end_h prep h = Some (n, r, hash, ctx')"
  shows "r = (\<Sum>d \<leftarrow> pr_List prep. prep_reward ctx prep start end_h d)"
proof -
  obtain rs ctx1 st where st: "prep_gv_loop prep start end_h (GV ctx) (replicate (length (pr_List prep)) (0, 0), ctx) = Some (rs, ctx1)"
    "prep_write end_h h (zip (pr_List prep) rs) \<lparr>ps_new = 0, ps_total = 0, ps_hash = [], ps_ctx = ctx1\<rparr> = Some st" "r = ps_total st"
    using assms(6) by (auto simp: setPRepReward_def split: option.splits)
  note f = prep_gv_loop_fst [where pre = "[]", OF assms(1) _ assms(5) _ st(1), simplified]
  have len: "length rs = length (pr_List prep)" using arg_cong [OF f [THEN conjunct1], of length] by simp
  have rs: "map fst rs = map (prep_reward ctx prep start end_h) (pr_List prep)"
    using f len by (simp add: prep_reward_def list_eq_iff_nth_eq)
  have dec: "calc_decodes ctx1" using assms(2) same_core_fields [OF f [THEN conjunct2]] by (simp add: calc_decodes_def calcdb_def)
  have "map (di_Address \<circ> fst) (zip (pr_List prep) rs) = map di_Address (pr_List prep)"
    using len by (simp add: list_eq_iff_nth_eq)
  then have "distinct (map (di_Address \<circ> fst) (zip (pr_List prep) rs))" using assms(4) by simp
  moreover have "\<forall>p \<in> set (zip (pr_List prep) rs). creditable ctx1 (di_Address (fst p))"
    using assms(3) calc_decodes_creditable [OF dec] by (auto simp: prep_ok_def dest: set_zip_leftD)
  ultimately have "r = (\<Sum>p \<leftarrow> zip (pr_List prep) rs. fst (snd p))"
    using prep_write_total [of "zip (pr_List prep) rs" "\<lparr>ps_new = 0, ps_total = 0, ps_hash = [], ps_ctx = ctx1\<rparr>" end_h h] st by auto
  also have "map (\<lambda>p. fst (snd p)) (zip (pr_List prep) rs) = map fst rs" using len by (simp add: list_eq_iff_nth_eq)
  finally show ?thesis unfolding rs .
qed

text \<open>
  C15: The P-Rep rewards of a term: their total is the sum over the P-Reps and the governance
  variables of the number of blocks at which the variable is in force between the two heights,
  times the reward of the variable for P-Reps, times the share of the P-Rep in the total
  delegation, rounded down. The code computes it from the ends of intervals of 64-bit heights.
\<close>

theorem prep_reward_by_blocks:
  assumes "gvs_ok (GV ctx)" "calc_decodes ctx" "prep_ok prep" "distinct (map di_Address (pr_List prep))"
    and "0 < pr_TotalDelegation prep" "setPRepReward shake ctx start end_h prep h = Some (n, r, hash, ctx')"
  shows "r = (\<Sum>d \<leftarrow> pr_List prep. \<Sum>gv \<leftarrow> GV ctx.
      int (card {b. start < b \<and> b \<le> end_h \<and> getGVByBlockHeight ctx b = Some gv}) * gv_PRepReward gv * di_DelegatedAmount d
        div pr_TotalDelegation prep)"
  using setPRepReward_total [OF assms] by (simp add: prep_reward_def governed_def)

definition ex_prep :: PRep where
  "ex_prep = \<lparr>pr_BlockHeight = 10, pr_TotalDelegation = 1000, pr_List = [\<lparr>di_Address = ex_rep, di_DelegatedAmount = 300\<rparr>]\<rparr>"

lemma ex_prep_ok: "prep_ok ex_prep" "distinct (map di_Address (pr_List ex_prep))" "0 < pr_TotalDelegation ex_prep"
  using ex_rep_ok by (simp_all add: prep_ok_def ex_prep_def)

lemma ex_calc_good: "calc_good ex_calc_ctx"
  using ex_calc_ctx_ok(1,3) ex_entries_ok(1)
  by (auto simp: calc_good_def entries_good_def shard_entries_ok_def)

definition ex_prep_out :: "u64 \<times> int \<times> bytes \<times> Context" where
  "ex_prep_out = the (setPRepReward (\<lambda>b. b) ex_calc_ctx 10 20 ex_prep 20)"

lemma ex_prep_run:
  "setPRepReward (\<lambda>b. b) ex_calc_ctx 10 20 ex_prep 20 =
     Some (fst ex_prep_out, fst (snd ex_prep_out), fst (snd (snd ex_prep_out)), snd (snd (snd ex_prep_out)))"
  using setPRepReward_returns [OF ex_calc_good ex_prep_ok(1), of "\<lambda>b. b" 10 20 20] ex_prep_ok(3) by (auto simp: ex_prep_out_def)

theorem prep_reward_by_blocks_witness:
  "fst (snd ex_prep_out) = (\<Sum>d \<leftarrow> pr_List ex_prep. \<Sum>gv \<leftarrow> GV ex_calc_ctx.
      int (card {b. 10 < b \<and> b \<le> 20 \<and> getGVByBlockHeight ex_calc_ctx b = Some gv}) * gv_PRepReward gv * di_DelegatedAmount d
        div pr_TotalDelegation ex_prep)"
  by (rule prep_reward_by_blocks [OF ex_gvs_ok ex_calc_decodes ex_prep_ok ex_prep_run])

lemma sum_list_swap:
  fixes f :: "'a \<Rightarrow> 'b \<Rightarrow> int"
  shows "(\<Sum>x \<leftarrow> xs. \<Sum>y \<leftarrow> ys. f x y) = (\<Sum>y \<leftarrow> ys. \<Sum>x \<leftarrow> xs. f x y)"
  by (induction xs) (simp_all add: sum_list_addf)

lemma sum_div_le:
  fixes c t :: int
  assumes "0 < t"
  shows "(\<Sum>d \<leftarrow> ds. c * f d div t) \<le> c * (\<Sum>d \<leftarrow> ds. f d) div t"
proof (induction ds)
  case (Cons d ds)
  then show ?case using div_split(1) [OF assms, of "c * f d" "c * (\<Sum>d \<leftarrow> ds. f d)"] by (simp add: distrib_left)
qed simp

lemma shares_le:
  fixes c t :: int
  assumes "0 < t" "0 \<le> c" "(\<Sum>d \<leftarrow> ds. f d) \<le> t"
  shows "(\<Sum>d \<leftarrow> ds. c * f d div t) \<le> c"
proof -
  have "(\<Sum>d \<leftarrow> ds. c * f d div t) \<le> c * (\<Sum>d \<leftarrow> ds. f d) div t" using assms(1) by (rule sum_div_le)
  also have "\<dots> \<le> c * t div t" using assms by (intro zdiv_mono1 mult_left_mono) simp_all
  finally show ?thesis using assms(1) by simp
qed

text \<open>
  C16: The P-Reps of a term never get more than the budget: with delegated amounts whose sum is
  at most the total delegation, their rewards add up to at most the P-Rep reward of each
  governance variable times the number of its blocks in the period, and to no negative amount.
\<close>

theorem prep_reward_within_budget:
  assumes "gvs_ok (GV ctx)" "calc_decodes ctx" "prep_ok prep" "distinct (map di_Address (pr_List prep))"
    and "0 < pr_TotalDelegation prep" "setPRepReward shake ctx start end_h prep h = Some (n, r, hash, ctx')"
    and "\<forall>d \<in> set (pr_List prep). 0 \<le> di_DelegatedAmount d" "(\<Sum>d \<leftarrow> pr_List prep. di_DelegatedAmount d) \<le> pr_TotalDelegation prep"
    and "\<forall>gv \<in> set (GV ctx). 0 \<le> gv_PRepReward gv"
  shows "0 \<le> r \<and> r \<le> (\<Sum>gv \<leftarrow> GV ctx. int (governed ctx start end_h gv) * gv_PRepReward gv)"
proof
  let ?t = "pr_TotalDelegation prep"
  let ?c = "\<lambda>gv. int (governed ctx start end_h gv) * gv_PRepReward gv"
  have r: "r = (\<Sum>d \<leftarrow> pr_List prep. \<Sum>gv \<leftarrow> GV ctx. ?c gv * di_DelegatedAmount d div ?t)"
    using setPRepReward_total [OF assms(1-6)] by (simp add: prep_reward_def)
  show "0 \<le> r"
    unfolding r using assms(5,7,9) by (intro sum_list_nonneg) (auto intro!: sum_list_nonneg simp: pos_imp_zdiv_nonneg_iff)
  have "r = (\<Sum>gv \<leftarrow> GV ctx. \<Sum>d \<leftarrow> pr_List prep. ?c gv * di_DelegatedAmount d div ?t)"
    unfolding r by (rule sum_list_swap)
  also have "\<dots> \<le> (\<Sum>gv \<leftarrow> GV ctx. ?c gv)"
    using assms(5,8,9) by (intro sum_list_mono shares_le) simp_all
  finally show "r \<le> (\<Sum>gv \<leftarrow> GV ctx. ?c gv)" .
qed

theorem prep_reward_within_budget_witness:
  "0 \<le> fst (snd ex_prep_out) \<and>
   fst (snd ex_prep_out) \<le> (\<Sum>gv \<leftarrow> GV ex_calc_ctx. int (governed ex_calc_ctx 10 20 gv) * gv_PRepReward gv)"
  by (rule prep_reward_within_budget [OF ex_gvs_ok ex_calc_decodes ex_prep_ok ex_prep_run])
    (simp_all add: ex_prep_def ex_calc_ctx_def ex_gv_def)

end
