(* ===== verification/Records.thy ===== *)
theory Records
  imports Tables PayTheorems
begin

text \<open>
  The kinds of records of the service, each an interpretation of \<open>record_table\<close>: what is
  stored under the key of a record is read back as the record, by the decoder the service
  uses for it.
\<close>

section \<open>Typed objects\<close>

fun typed_ok :: "typed_obj \<Rightarrow> bool" where
  "typed_ok (TDict m) = (\<forall>p \<in> set m. typed_ok (snd p))"
| "typed_ok (TList l) = (\<forall>t \<in> set l. typed_ok t)"
| "typed_ok (TCustom tag b) = (4 < tag)"
| "typed_ok _ = True"

lemma dec_enc_typed_list: "(\<And>t. t \<in> set l \<Longrightarrow> dec_typed (enc_typed t) = Inr t) \<Longrightarrow> dec_typed_list (map enc_typed l) = Inr l"
  by (induction l) auto

lemma dec_enc_typed_map:
  "(\<And>p. p \<in> set m \<Longrightarrow> dec_typed (enc_typed (snd p)) = Inr (snd p)) \<Longrightarrow>
     dec_typed_map (map (\<lambda>(k, t). (k, enc_typed t)) m) = Inr m"
proof (induction m)
  case (Cons p m)
  obtain k t where p: "p = (k, t)" by (cases p)
  have "dec_typed (enc_typed t) = Inr t" using Cons.prems [of p] by (simp add: p)
  with Cons show ?case by (simp add: p)
qed simp

lemma dec_enc_typed: "typed_ok t \<Longrightarrow> dec_typed (enc_typed t) = Inr t"
proof (induction t)
  case (TDict m)
  have "dec_typed (enc_typed (snd p)) = Inr (snd p)" if "p \<in> set m" for p
    using TDict.IH [of p "snd p"] TDict.prems that by (cases p) (auto simp: snds.simps)
  then show ?case by (simp add: dec_enc_typed_map)
next
  case (TList l)
  then show ?case by (simp add: dec_enc_typed_list)
next
  case (TCustom tag b)
  then have "4 < uint tag" by (simp add: word_less_alt)
  moreover have "uint tag < 256" using unsigned_less [of tag, where ?'a = int] by simp
  ultimately show ?case by simp
qed auto

section \<open>Interpretations\<close>

definition opt_of :: "'e + 'a \<Rightarrow> 'a option" where
  "opt_of r = (case r of Inl _ \<Rightarrow> None | Inr x \<Rightarrow> Some x)"

lemma opt_of_simps [simp]: "opt_of (Inl e) = None" "opt_of (Inr x) = Some x"
  by (simp_all add: opt_of_def)

definition load_gv :: "u64 \<Rightarrow> obj \<Rightarrow> GovernanceVariable" where
  "load_gv h v = (case GV_SetBytes zero_GV v of Inl _ \<Rightarrow> zero_GV | Inr gv \<Rightarrow> gv)\<lparr>gv_BlockHeight := h\<rparr>"

definition gv_ok :: "GovernanceVariable \<Rightarrow> bool" where
  "gv_ok gv \<longleftrightarrow> setReward gv = gv"

interpretation gvs: height_table PrefixGovernanceVariable gv_BlockHeight GV_Bytes load_gv gv_ok
proof unfold_locales
  fix gv
  assume "gv_ok gv"
  then show "Some (load_gv (BytesToUint64 (bh_key (gv_BlockHeight gv))) (GV_Bytes gv)) = Some gv"
    by (cases gv) (simp add: gv_ok_def load_gv_def GV_SetBytes_def GV_Bytes_def setReward_def zero_GV_def)
qed

definition load_prep :: "u64 \<Rightarrow> obj \<Rightarrow> PRep" where
  "load_prep h v = (case PRep_SetBytes zero_PRep v of Inl _ \<Rightarrow> zero_PRep | Inr p \<Rightarrow> p)\<lparr>pr_BlockHeight := h\<rparr>"

lemma dec_enc_PRepDelegationInfo: "address_ok (di_Address d) \<Longrightarrow> dec_PRepDelegationInfo (enc_PRepDelegationInfo d) = Inr d"
  by (simp add: dec_PRepDelegationInfo_def enc_PRepDelegationInfo_def)

interpretation preps: height_table PrefixPRep pr_BlockHeight PRep_Bytes load_prep prep_ok
proof unfold_locales
  fix p
  assume "prep_ok p"
  then have "mapE dec_PRepDelegationInfo (map enc_PRepDelegationInfo (pr_List p)) = Inr (pr_List p)"
    by (intro mapE_map dec_enc_PRepDelegationInfo) (simp add: prep_ok_def)
  then show "Some (load_prep (BytesToUint64 (bh_key (pr_BlockHeight p))) (PRep_Bytes p)) = Some p"
    by (simp add: load_prep_def PRep_SetBytes_def PRep_Bytes_def zero_PRep_def)
qed

definition load_candidate :: "bytes \<Rightarrow> obj \<Rightarrow> PRepCandidate option" where
  "load_candidate k v =
     map_option (\<lambda>a. (case PRepCandidate_SetBytes zero_PRepCandidate v of Inl _ \<Rightarrow> zero_PRepCandidate | Inr p \<Rightarrow> p)\<lparr>pc_Address := a\<rparr>)
       (NewAddress k)"

interpretation cands: record_table PrefixPRepCandidate PRepCandidate_ID PRepCandidate_Bytes load_candidate "\<lambda>p. address_ok (pc_Address p)"
  by unfold_locales
    (simp add: load_candidate_def PRepCandidate_ID_def PRepCandidate_Bytes_def PRepCandidate_SetBytes_def zero_PRepCandidate_def NewAddress_Bytes)

definition info_ok :: "DBInfo \<Rightarrow> bool" where
  "info_ok d \<longleftrightarrow> DBRoot d = [] \<and> DBType d = [] \<and> - (2 ^ 63) \<le> DBCount d \<and> DBCount d < 2 ^ 63 \<and>
     length (bi_BlockHash (Current d)) = BlockHashSize"

interpretation dbinfo: record_table PrefixManagement "\<lambda>_. DBInfo_ID" DBInfo_Bytes "\<lambda>_ v. opt_of (DBInfo_SetBytes zero_DBInfo v)" info_ok
proof unfold_locales
  fix d
  assume "info_ok d"
  then have "dec_DBInfoDataV2 zero_DBInfo (DBInfo_Bytes d) = Inr d"
    by (simp add: info_ok_def dec_DBInfoDataV2_def DBInfo_Bytes_def zero_DBInfo_def dec_BlockInfo_def enc_BlockInfo_def copy_at_def)
  then show "opt_of (DBInfo_SetBytes zero_DBInfo (DBInfo_Bytes d)) = Some d"
    by (simp add: DBInfo_SetBytes_def)
qed

interpretation headers: record_table PrefixIISSHeader "\<lambda>_. []" IISSHeader_Bytes "\<lambda>_ v. opt_of (IISSHeader_SetBytes zero_IISSHeader v)"
  "\<lambda>h. ih_Version h = 1 \<longrightarrow> ih_Revision h = IISSDataRevisionDefault"
  by unfold_locales (simp add: IISSHeader_SetBytes_def IISSHeader_Bytes_def)

interpretation igvs: record_table PrefixIISSGV IISSGV_ID IISSGV_Bytes
  "\<lambda>k v. map_option (\<lambda>gv. gv\<lparr>igv_BlockHeight := BytesToUint64 k\<rparr>) (opt_of (IISSGV_SetBytes zero_IISSGV v IISSDataVersion))" "\<lambda>_. True"
  by unfold_locales (simp add: IISSGV_SetBytes_def IISSGV_Bytes_def IISSGV_ID_def zero_IISSGV_def IISSDataVersion_def)

interpretation bps: record_table PrefixIISSBPInfo BP_ID BP_Bytes
  "\<lambda>k v. map_option (\<lambda>bp. bp\<lparr>bp_BlockHeight := BytesToUint64 k\<rparr>) (opt_of (BP_SetBytes zero_BP v))" bp_ok
proof unfold_locales
  fix bp
  assume "bp_ok bp"
  then have "mapE (dec_Address zero_address) (map enc_Address (bp_Validator bp)) = Inr (bp_Validator bp)" "address_ok (bp_Generator bp)"
    by (auto intro!: mapE_map simp: bp_ok_def)
  then show "map_option (\<lambda>b. b\<lparr>bp_BlockHeight := BytesToUint64 (BP_ID bp)\<rparr>) (opt_of (BP_SetBytes zero_BP (BP_Bytes bp))) = Some bp"
    by (simp add: BP_SetBytes_def BP_Bytes_def BP_ID_def zero_BP_def)
qed

interpretation txs: record_table PrefixIISSTX IISSTX_ID IISSTX_Bytes
  "\<lambda>k v. map_option (\<lambda>tx. tx\<lparr>tx_Index := BytesToUint64 k\<rparr>) (opt_of (IISSTX_SetBytes zero_IISSTX v))"
  "\<lambda>tx. address_ok (tx_Address tx) \<and> (case tx_Data tx of None \<Rightarrow> True | Some t \<Rightarrow> typed_ok t)"
proof unfold_locales
  fix tx :: IISSTX
  assume ok: "address_ok (tx_Address tx) \<and> (case tx_Data tx of None \<Rightarrow> True | Some t \<Rightarrow> typed_ok t)"
  have "enc_typed t \<noteq> ONil" for t by (cases t) simp_all
  with ok show "map_option (\<lambda>t. t\<lparr>tx_Index := BytesToUint64 (IISSTX_ID tx)\<rparr>) (opt_of (IISSTX_SetBytes zero_IISSTX (IISSTX_Bytes tx))) = Some tx"
    by (auto simp: IISSTX_SetBytes_def IISSTX_Bytes_def IISSTX_ID_def zero_IISSTX_def dec_enc_typed split: option.splits)
qed

interpretation accounts: record_table PrefixIScore IScoreAccount_ID IScoreAccount_Bytes
  "\<lambda>k v. map_option (\<lambda>ia. ia\<lparr>ia_Address := k\<rparr>) (opt_of (NewIScoreAccountFromBytes v))" "\<lambda>ia. delegations_ok (ia_Delegations ia)"
  by unfold_locales (simp add: NewIScoreAccountFromBytes_Bytes IScoreAccount_ID_def Address_Bytes_def)

interpretation results: record_table PrefixCalcResult CalculationResult_ID CalculationResult_Bytes
  "\<lambda>k v. map_option (\<lambda>cr. cr\<lparr>cr_BlockHeight := BytesToUint64 k\<rparr>) (opt_of (NewCalculationResultFromBytes v))" "\<lambda>_. True"
  by unfold_locales (simp add: NewCalculationResultFromBytes_Bytes CalculationResult_ID_def BytesToUint64_Uint64ToBytes)

interpretation claim_records: record_table PrefixIScore Claim_ID Claim_Bytes
  "\<lambda>k v. map_option (\<lambda>c. c\<lparr>cl_Address := k\<rparr>) (opt_of (NewClaimFromBytes v))" "\<lambda>_. True"
  by unfold_locales (simp add: NewClaimFromBytes_def Claim_Bytes_def Claim_ID_def Address_Bytes_def)

interpretation backup_infos: record_table PrefixManagement "\<lambda>_. ClaimBackupInfo_ID" ClaimBackupInfo_Bytes
  "\<lambda>_ v. opt_of (ClaimBackupInfo_SetBytes zero_ClaimBackupInfo v)" "\<lambda>_. True"
  by unfold_locales simp

interpretation pre_commits: record_table PrefixClaim PreCommit_ID PreCommit_Bytes
  "\<lambda>k v. map_option (\<lambda>pc. PreCommit_SetID pc k) (opt_of (PreCommit_SetBytes zero_PreCommit v))"
  "\<lambda>pc. address_ok (cl_Address (pcm_Claim pc)) \<and> length (pcm_BlockHash pc) = BlockHashSize"
proof unfold_locales
  fix pc :: PreCommit
  assume ok: "address_ok (cl_Address (pcm_Claim pc)) \<and> length (pcm_BlockHash pc) = BlockHashSize"
  then have key: "PreCommit_ID pc = bh_key (pcm_BlockHeight pc) @ pcm_BlockHash pc @ cl_Address (pcm_Claim pc)"
    by (simp add: PreCommit_ID_def GenPreCommitKey_append address_ok_def size_defs pad32_def)
  have "PreCommit_SetID q (PreCommit_ID pc) = q\<lparr>pcm_BlockHeight := pcm_BlockHeight pc, pcm_BlockHash := pcm_BlockHash pc,
      pcm_Claim := pcm_Claim pc\<rparr>" if "pcm_Claim q = pcm_Claim pc" for q
    using ok that SetBytes_Bytes [of "cl_Address (pcm_Claim pc)" "cl_Address (pcm_Claim pc)"]
    by (simp add: key PreCommit_SetID_def size_defs Address_Bytes_def address_ok_def)
  with ok show "map_option (\<lambda>q. PreCommit_SetID q (PreCommit_ID pc)) (opt_of (PreCommit_SetBytes zero_PreCommit (PreCommit_Bytes pc))) = Some pc"
    by (simp add: PreCommit_SetBytes_Bytes zero_PreCommit_def zero_Claim_def)
qed

end
