(* ===== verification/Mirror.thy ===== *)
theory Mirror
  imports Records
begin

text \<open>
  The context in memory and the management database on disk. \<open>mirrors\<close> says that the
  governance variables, P-Rep lists, candidates and block heights a context holds are the
  ones a restart would load; every operation that changes one of them keeps it.
\<close>

section \<open>The invariant\<close>

definition cands_stored :: "obj kv \<Rightarrow> candidates \<Rightarrow> bool" where
  "cands_stored db cs \<longleftrightarrow> distinct (map fst cs) \<and> (\<forall>a p. map_of cs a = Some p \<longrightarrow> address_ok a \<and> pc_Address p = a) \<and>
     (\<forall>k. kv_get (PrefixPRepCandidate @ k) db = map_option PRepCandidate_Bytes (map_of cs k))"

definition mirrors :: "Context \<Rightarrow> bool" where
  "mirrors ctx \<longleftrightarrow>
     holds PrefixGovernanceVariable gv_BlockHeight GV_Bytes gv_ok (management (DB ctx)) (GV ctx) \<and>
     holds PrefixPRep pr_BlockHeight PRep_Bytes prep_ok (management (DB ctx)) (PReps ctx) \<and>
     cands_stored (management (DB ctx)) (PRepCandidates ctx) \<and>
     kv_get PrefixManagement (management (DB ctx)) = Some (DBInfo_Bytes (info (DB ctx)))"

lemma prefix_lengths [simp]:
  "length PrefixGovernanceVariable = 2" "length PrefixPRep = 2" "length PrefixPRepCandidate = 2" "length PrefixManagement = 2"
  by (simp_all add: PrefixGovernanceVariable_def PrefixPRep_def PrefixPRepCandidate_def PrefixManagement_def ascii_def)

lemma prefix_neqs [simp]:
  "PrefixGovernanceVariable \<noteq> PrefixPRep" "PrefixGovernanceVariable \<noteq> PrefixPRepCandidate" "PrefixGovernanceVariable \<noteq> PrefixManagement"
  "PrefixPRep \<noteq> PrefixPRepCandidate" "PrefixPRep \<noteq> PrefixManagement" "PrefixPRepCandidate \<noteq> PrefixManagement"
  by (simp_all add: PrefixGovernanceVariable_def PrefixPRep_def PrefixPRepCandidate_def PrefixManagement_def ascii_def)

lemmas prefix_neqs' [simp] = prefix_neqs [symmetric]

lemma holds_cong:
  assumes "holds p height enc ok db rs" "kv_ok db'" "same_but q db db'" "length q = length p" "p \<noteq> q"
  shows "holds p height enc ok db' rs"
  using assms same_but_prefix [of q db db' p] by (simp add: holds_def)

lemma cands_stored_cong:
  assumes "cands_stored db cs" "same_but q db db'" "length q = 2" "q \<noteq> PrefixPRepCandidate"
  shows "cands_stored db' cs"
  using assms by (simp add: cands_stored_def same_but_def)

lemma info_cong:
  assumes "same_but q db db'" "length q = 2" "q \<noteq> PrefixManagement"
  shows "kv_get PrefixManagement db' = kv_get PrefixManagement db"
  using assms(1) [unfolded same_but_def, rule_format, of PrefixManagement "[]"] assms(2,3) by simp

lemma holds_kv_ok: "holds p height enc ok db rs \<Longrightarrow> kv_ok db"
  by (simp add: holds_def)

text \<open>A change of one table, memory and database together, keeps the mirror.\<close>

lemma mirrors_gv:
  assumes "mirrors ctx" "holds PrefixGovernanceVariable gv_BlockHeight GV_Bytes gv_ok db gvs"
    and "same_but PrefixGovernanceVariable (management (DB ctx)) db"
  shows "mirrors (ctx\<lparr>GV := gvs, DB := (DB ctx)\<lparr>management := db\<rparr>\<rparr>)"
  using assms cands_stored_cong [OF _ assms(3)] info_cong [OF assms(3)]
  by (auto simp: mirrors_def intro: holds_cong [OF _ holds_kv_ok [OF assms(2)] assms(3)])

lemma mirrors_prep:
  assumes "mirrors ctx" "holds PrefixPRep pr_BlockHeight PRep_Bytes prep_ok db preps"
    and "same_but PrefixPRep (management (DB ctx)) db"
  shows "mirrors (ctx\<lparr>PReps := preps, DB := (DB ctx)\<lparr>management := db\<rparr>\<rparr>)"
  using assms cands_stored_cong [OF _ assms(3)] info_cong [OF assms(3)]
  by (auto simp: mirrors_def intro: holds_cong [OF _ holds_kv_ok [OF assms(2)] assms(3)])

lemma mirrors_cand:
  assumes "mirrors ctx" "cands_stored db cs" "kv_ok db"
    and "same_but PrefixPRepCandidate (management (DB ctx)) db"
  shows "mirrors (ctx\<lparr>PRepCandidates := cs, DB := (DB ctx)\<lparr>management := db\<rparr>\<rparr>)"
  using assms info_cong [OF assms(4)] by (auto simp: mirrors_def intro: holds_cong [OF _ assms(3,4)])

text \<open>So does a change of the information record that is written through.\<close>

lemma mirrors_writeToDB:
  assumes "mirrors ctx"
  shows "mirrors (ctx\<lparr>DB := writeToDB ((DB ctx)\<lparr>info := i\<rparr>)\<rparr>)"
proof -
  let ?db = "Bucket_Set (management (DB ctx)) PrefixManagement DBInfo_ID (DBInfo_Bytes i)"
  have ok: "kv_ok (management (DB ctx))" using assms by (simp add: mirrors_def holds_def)
  then have sb: "same_but PrefixManagement (management (DB ctx)) ?db" by (intro same_but_Set [OF ok same_but_refl])
  have get: "kv_get PrefixManagement ?db = Some (DBInfo_Bytes i)" using ok by (simp add: Bucket_Set_def DBInfo_ID_def)
  have "kv_ok ?db" using ok by simp
  then have "holds PrefixGovernanceVariable gv_BlockHeight GV_Bytes gv_ok ?db (GV ctx)"
    "holds PrefixPRep pr_BlockHeight PRep_Bytes prep_ok ?db (PReps ctx)"
    using assms by (auto simp: mirrors_def intro: holds_cong [OF _ _ sb])
  then show ?thesis using assms cands_stored_cong [OF _ sb] get by (simp add: mirrors_def writeToDB_def)
qed

section \<open>Updates and rollback\<close>

lemma setReward_idem [simp]: "setReward (setReward gv) = setReward gv"
  by (simp add: setReward_def)

lemma gv_ok_NewGVFromIISS [simp]: "gv_ok (NewGVFromIISS g)" "gv_BlockHeight (NewGVFromIISS g) = igv_BlockHeight g"
  by (simp_all add: gv_ok_def NewGVFromIISS_def) (simp add: setReward_def)

lemma update_gv_holds:
  assumes "holds PrefixGovernanceVariable gv_BlockHeight GV_Bytes gv_ok db gvs" "update_gv l gvs db = (gvs', db')"
  shows "holds PrefixGovernanceVariable gv_BlockHeight GV_Bytes gv_ok db' gvs' \<and> same_but PrefixGovernanceVariable db db'"
  using assms
proof (induction l arbitrary: gvs db)
  case (Cons g l)
  show ?case
  proof (cases "gvs = [] \<or> gv_BlockHeight (last gvs) < igv_BlockHeight g")
    case True
    have "\<forall>x \<in> set gvs. gv_BlockHeight x < igv_BlockHeight g"
    proof
      fix x
      assume x: "x \<in> set gvs"
      then have ne: "gvs = butlast gvs @ [last gvs]" by (cases gvs rule: rev_cases) auto
      have "sorted_wrt (<) (map gv_BlockHeight (butlast gvs @ [last gvs]))" using Cons.prems(1) ne by (simp add: holds_def)
      then have "x = last gvs \<or> gv_BlockHeight x < gv_BlockHeight (last gvs)"
        using x by (subst (asm) ne) (auto simp: sorted_wrt_append)
      then show "gv_BlockHeight x < igv_BlockHeight g" using True x by auto
    qed
    from gvs.holds_append [OF Cons.prems(1), of "NewGVFromIISS g"] this
    have "holds PrefixGovernanceVariable gv_BlockHeight GV_Bytes gv_ok
        (Bucket_Set db PrefixGovernanceVariable (GV_ID (NewGVFromIISS g)) (GV_Bytes (NewGVFromIISS g))) (gvs @ [NewGVFromIISS g])"
      by (simp add: GV_ID_def)
    from Cons.IH [OF this] Cons.prems True show ?thesis
      by (auto simp: Let_def intro: same_but_Set [OF holds_kv_ok])
  next
    case False
    then show ?thesis using Cons by auto
  qed
qed auto

lemma mirrors_UpdateGovernanceVariable:
  assumes "mirrors ctx"
  shows "mirrors (UpdateGovernanceVariable l ctx)"
proof -
  obtain gvs db where u: "update_gv l (GV ctx) (management (DB ctx)) = (gvs, db)" by (cases "update_gv l (GV ctx) (management (DB ctx))")
  have h: "holds PrefixGovernanceVariable gv_BlockHeight GV_Bytes gv_ok db gvs" "same_but PrefixGovernanceVariable (management (DB ctx)) db"
    using update_gv_holds [OF _ u] assms by (simp_all add: mirrors_def)
  have key: "GV_ID = (\<lambda>gv. bh_key (gv_BlockHeight gv))" by (simp add: GV_ID_def fun_eq_iff)
  obtain n db' where d: "delete_old gv_BlockHeight GV_ID PrefixGovernanceVariable (getPrevCalcDoneBH (DB ctx)) gvs db = (drop n gvs, db')"
    "holds PrefixGovernanceVariable gv_BlockHeight GV_Bytes gv_ok db' (drop n gvs)" "same_but PrefixGovernanceVariable db db'"
    using gvs.delete_old_holds [OF h(1)] unfolding key by blast
  show ?thesis
    using mirrors_gv [OF assms d(2) same_but_trans [OF h(2) d(3)]] by (simp add: UpdateGovernanceVariable_def u d(1))
qed

lemma fold_prep_holds:
  assumes "holds PrefixPRep pr_BlockHeight PRep_Bytes prep_ok db ps" "sorted_wrt (<) (map pr_BlockHeight (ps @ qs))" "\<forall>p \<in> set qs. prep_ok p"
  shows "holds PrefixPRep pr_BlockHeight PRep_Bytes prep_ok
      (fold (\<lambda>p db. Bucket_Set db PrefixPRep (PRep_ID p) (PRep_Bytes p)) qs db) (ps @ qs) \<and>
    same_but PrefixPRep db (fold (\<lambda>p db. Bucket_Set db PrefixPRep (PRep_ID p) (PRep_Bytes p)) qs db)"
  using assms
proof (induction qs arbitrary: ps db)
  case (Cons q qs)
  have "holds PrefixPRep pr_BlockHeight PRep_Bytes prep_ok (Bucket_Set db PrefixPRep (PRep_ID q) (PRep_Bytes q)) (ps @ [q])"
    using preps.holds_append [OF Cons.prems(1), of q] Cons.prems(2,3) by (auto simp: PRep_ID_def sorted_wrt_append)
  from Cons.IH [OF this] Cons.prems show ?case
    by (auto intro: same_but_Set [OF holds_kv_ok])
qed simp

lemma mirrors_UpdatePRep:
  assumes "mirrors ctx" "sorted_wrt (<) (map pr_BlockHeight (PReps ctx @ l))" "\<forall>p \<in> set l. prep_ok p"
  shows "mirrors (UpdatePRep l ctx)"
proof -
  let ?db = "fold (\<lambda>p db. Bucket_Set db PrefixPRep (PRep_ID p) (PRep_Bytes p)) l (management (DB ctx))"
  have h: "holds PrefixPRep pr_BlockHeight PRep_Bytes prep_ok ?db (PReps ctx @ l)" "same_but PrefixPRep (management (DB ctx)) ?db"
    using fold_prep_holds [OF _ assms(2,3)] assms(1) by (simp_all add: mirrors_def)
  have key: "PRep_ID = (\<lambda>p. bh_key (pr_BlockHeight p))" by (simp add: PRep_ID_def fun_eq_iff)
  obtain n db' where d: "delete_old pr_BlockHeight PRep_ID PrefixPRep (getPrevCalcDoneBH (DB ctx)) (PReps ctx @ l) ?db = (drop n (PReps ctx @ l), db')"
    "holds PrefixPRep pr_BlockHeight PRep_Bytes prep_ok db' (drop n (PReps ctx @ l))" "same_but PrefixPRep ?db db'"
    using preps.delete_old_holds [OF h(1)] unfolding key by blast
  show ?thesis
    using mirrors_prep [OF assms(1) d(2) same_but_trans [OF h(2) d(3)]] by (simp only: UpdatePRep_def Let_def d(1) prod.case)
qed

lemma cands_stored_put:
  assumes "cands_stored db cs" "kv_ok db" "address_ok a" "pc_Address p = a"
  shows "cands_stored (Bucket_Set db PrefixPRepCandidate (PRepCandidate_ID p) (PRepCandidate_Bytes p)) (AList.update a p cs)"
  using assms
  by (simp add: cands_stored_def distinct_update update_conv' Bucket_Set_def PRepCandidate_ID_def Address_Bytes_def)

lemma update_candidate_stored:
  assumes "cands_stored db cs" "kv_ok db" "address_ok (tx_Address tx)" "update_candidate tx (cs, db) = (cs', db')"
  shows "cands_stored db' cs' \<and> kv_ok db' \<and> same_but PrefixPRepCandidate db db'"
proof -
  have "pc_Address p = tx_Address tx" if "map_of cs (tx_Address tx) = Some p" for p
    using assms(1) that by (simp add: cands_stored_def)
  then show ?thesis
    using assms cands_stored_put [OF assms(1,2,3)] same_but_Set [OF assms(2) same_but_refl]
    by (auto simp: update_candidate_def Let_def split: if_splits option.splits)
qed

lemma update_candidates_stored:
  assumes "cands_stored db cs" "kv_ok db" "address_ok (tx_Address tx)" "update_candidates tx es (cs, db) = (cs', db')"
  shows "cands_stored db' cs' \<and> kv_ok db' \<and> same_but PrefixPRepCandidate db db'"
  using assms
proof (induction es arbitrary: tx cs db)
  case (Cons e es)
  obtain k v where e: "e = (k, v)" by (cases e)
  show ?case
  proof (cases "IISSTX_SetBytes tx v")
    case (Inl x)
    then show ?thesis using Cons.IH [OF Cons.prems(1-3)] Cons.prems(4) by (simp add: e)
  next
    case (Inr tx')
    let ?tx = "tx'\<lparr>tx_Index := BytesToUint64 (drop (length PrefixIISSTX) k)\<rparr>"
    have a: "address_ok (tx_Address ?tx)" using IISSTX_address_ok [OF Inr Cons.prems(3)] by simp
    obtain cs1 db1 where u: "update_candidate ?tx (cs, db) = (cs1, db1)" by (cases "update_candidate ?tx (cs, db)")
    note s = update_candidate_stored [OF Cons.prems(1,2) a u]
    have "update_candidates ?tx es (cs1, db1) = (cs', db')" using Cons.prems(4) Inr u by (simp add: e)
    then show ?thesis using Cons.IH [of db1 cs1 ?tx] s a same_but_trans by blast
  qed
qed auto

lemma mirrors_UpdatePRepCandidate:
  assumes "mirrors ctx"
  shows "mirrors (UpdatePRepCandidate iissDB ctx)"
proof -
  obtain cs db where u: "update_candidates zero_IISSTX (Iterator_prefix iissDB PrefixIISSTX) (PRepCandidates ctx, management (DB ctx)) = (cs, db)"
    by (cases "update_candidates zero_IISSTX (Iterator_prefix iissDB PrefixIISSTX) (PRepCandidates ctx, management (DB ctx))")
  have "cands_stored db cs \<and> kv_ok db \<and> same_but PrefixPRepCandidate (management (DB ctx)) db"
    using update_candidates_stored [OF _ _ _ u] assms zero_address_ok by (simp add: mirrors_def holds_def zero_IISSTX_def)
  then show ?thesis using mirrors_cand [OF assms] by (simp add: UpdatePRepCandidate_def u)
qed

lemma RollbackManagementDB_spec:
  assumes "mirrors ctx"
  shows "\<exists>db. RollbackManagementDB h ctx = ctx\<lparr>GV := filter (\<lambda>gv. gv_BlockHeight gv \<le> h) (GV ctx),
      PReps := filter (\<lambda>p. pr_BlockHeight p \<le> h) (PReps ctx), DB := (DB ctx)\<lparr>management := db\<rparr>\<rparr> \<and>
    mirrors (RollbackManagementDB h ctx)"
proof -
  let ?gvs = "filter (\<lambda>gv. gv_BlockHeight gv \<le> h) (GV ctx)" and ?ps = "filter (\<lambda>p. pr_BlockHeight p \<le> h) (PReps ctx)"
  have key: "GV_ID = (\<lambda>gv. bh_key (gv_BlockHeight gv))" "PRep_ID = (\<lambda>p. bh_key (pr_BlockHeight p))"
    by (simp_all add: GV_ID_def PRep_ID_def fun_eq_iff)
  obtain db1 where g: "rollback_loop gv_BlockHeight GV_ID PrefixGovernanceVariable h (length (GV ctx)) (GV ctx) (management (DB ctx)) = (?gvs, db1)"
    "holds PrefixGovernanceVariable gv_BlockHeight GV_Bytes gv_ok db1 ?gvs" "same_but PrefixGovernanceVariable (management (DB ctx)) db1"
    using gvs.rollback_holds [of "management (DB ctx)" "GV ctx" h] assms unfolding key by (auto simp: mirrors_def)
  have m1: "mirrors (ctx\<lparr>GV := ?gvs, DB := (DB ctx)\<lparr>management := db1\<rparr>\<rparr>)" by (rule mirrors_gv [OF assms g(2,3)])
  then obtain db2 where p: "rollback_loop pr_BlockHeight PRep_ID PrefixPRep h (length (PReps ctx)) (PReps ctx) db1 = (?ps, db2)"
    "holds PrefixPRep pr_BlockHeight PRep_Bytes prep_ok db2 ?ps" "same_but PrefixPRep db1 db2"
    using preps.rollback_holds [of db1 "PReps ctx" h] unfolding key by (auto simp: mirrors_def)
  have "mirrors ((ctx\<lparr>GV := ?gvs, DB := (DB ctx)\<lparr>management := db1\<rparr>\<rparr>)\<lparr>PReps := ?ps, DB := (DB ctx)\<lparr>management := db2\<rparr>\<rparr>)"
    using mirrors_prep [OF m1 p(2)] p(3) by simp
  then show ?thesis by (simp add: RollbackManagementDB_def g(1) p(1) exI [of _ db2])
qed

end
