(* ===== verification/MirrorTheorems.thy ===== *)
theory MirrorTheorems
  imports Mirror
begin

text \<open>
  What a restart loads, and rollback and updates of the data kept in memory and in the management database.
\<close>

section \<open>What a restart loads\<close>

lemma LoadPRepCandidate_loop_map:
  assumes "distinct (map fst es)" "\<forall>e \<in> set es. \<exists>p. address_ok (pc_Address p) \<and> e = (PrefixPRepCandidate @ pc_Address p, PRepCandidate_Bytes p)"
  shows "\<exists>m'. LoadPRepCandidate_loop m es = Some m' \<and>
    (\<forall>a. map_of m' a = (case map_of es (PrefixPRepCandidate @ a) of None \<Rightarrow> map_of m a | Some v \<Rightarrow> load_candidate a v))"
  using assms
proof (induction es arbitrary: m)
  case (Cons e es)
  obtain p where p: "address_ok (pc_Address p)" "e = (PrefixPRepCandidate @ pc_Address p, PRepCandidate_Bytes p)"
    using Cons.prems(2) by auto
  have dec: "NewAddress (pc_Address p) = Some (pc_Address p)" "load_candidate (pc_Address p) (PRepCandidate_Bytes p) = Some p"
    using NewAddress_Bytes [OF p(1)] cands.dec_enc [OF p(1)] by (simp_all add: Address_Bytes_def PRepCandidate_ID_def)
  then have val: "(case PRepCandidate_SetBytes zero_PRepCandidate (PRepCandidate_Bytes p) of Inl _ \<Rightarrow> zero_PRepCandidate | Inr p \<Rightarrow> p)
      \<lparr>pc_Address := pc_Address p\<rparr> = p"
    by (simp add: load_candidate_def)
  have none: "map_of es (PrefixPRepCandidate @ pc_Address p) = None"
    using Cons.prems(1) by (simp add: p(2) map_of_eq_None_iff)
  obtain m' where "LoadPRepCandidate_loop (AList.update (pc_Address p) p m) es = Some m'"
    "\<forall>a. map_of m' a = (case map_of es (PrefixPRepCandidate @ a) of None \<Rightarrow> map_of (AList.update (pc_Address p) p m) a
       | Some v \<Rightarrow> load_candidate a v)"
    using Cons.IH [of "AList.update (pc_Address p) p m"] Cons.prems by auto
  then show ?case using dec val none by (auto simp: p(2) update_conv' split: option.splits)
qed simp

lemma LoadPRepCandidate_stored:
  assumes "cands_stored db cs" "kv_ok db"
  shows "\<exists>cs'. LoadPRepCandidate db = Some cs' \<and> map_of cs' = map_of cs"
proof -
  let ?es = "Iterator_prefix db PrefixPRepCandidate"
  have "kv_ok ?es" using assms(2) by simp
  then have d: "distinct (map fst ?es)" by (simp add: kv_ok_def strict_sorted_iff)
  have "\<exists>p. address_ok (pc_Address p) \<and> e = (PrefixPRepCandidate @ pc_Address p, PRepCandidate_Bytes p)" if "e \<in> set ?es" for e
  proof -
    obtain k v where e: "e = (k, v)" by (cases e)
    with that obtain a where "k = PrefixPRepCandidate @ a" "kv_get k db = Some v" using assms(2) by (auto simp: set_Iterator_prefix)
    then obtain p where "map_of cs a = Some p" "v = PRepCandidate_Bytes p" "k = PrefixPRepCandidate @ a"
      using assms(1) by (auto simp: cands_stored_def simp del: map_of_eq_Some_iff)
    moreover from this have "address_ok a" "pc_Address p = a" using assms(1) by (auto simp: cands_stored_def simp del: map_of_eq_Some_iff)
    ultimately show ?thesis using e by auto
  qed
  then obtain cs' where cs': "LoadPRepCandidate db = Some cs'"
    "\<forall>a. map_of cs' a = (case map_of ?es (PrefixPRepCandidate @ a) of None \<Rightarrow> map_of [] a | Some v \<Rightarrow> load_candidate a v)"
    using LoadPRepCandidate_loop_map [OF d, of "[]"] unfolding LoadPRepCandidate_def by blast
  moreover have "map_of cs' a = map_of cs a" for a
  proof -
    have get: "map_of ?es (PrefixPRepCandidate @ a) = map_option PRepCandidate_Bytes (map_of cs a)"
      using assms(1) kv_get_Iterator_prefix [of "PrefixPRepCandidate @ a" db PrefixPRepCandidate] by (simp add: cands_stored_def kv_get_def)
    show ?thesis
    proof (cases "map_of cs a")
      case None
      then show ?thesis using cs'(2) get by simp
    next
      case (Some p)
      then have "address_ok (pc_Address p)" "pc_Address p = a" using assms(1) by (auto simp: cands_stored_def)
      then show ?thesis using cs'(2) get Some cands.dec_enc [of p] by (simp add: PRepCandidate_ID_def Address_Bytes_def)
    qed
  qed
  ultimately show ?thesis by auto
qed

lemma fold_disk_open: "\<forall>n \<in> set ns. map_of d n \<noteq> None \<Longrightarrow> fold disk_open ns d = d"
  by (induction ns) (auto simp: disk_open_def)

lemma mirrors_loads:
  assumes "mirrors ctx"
  shows "LoadGovernanceVariable (management (DB ctx)) = GV ctx" "LoadPRep (management (DB ctx)) = PReps ctx" "gvs_ok (GV ctx)"
    "sorted_wrt (<) (map pr_BlockHeight (PReps ctx))"
proof -
  have h: "holds PrefixGovernanceVariable gv_BlockHeight GV_Bytes gv_ok (management (DB ctx)) (GV ctx)"
    "holds PrefixPRep pr_BlockHeight PRep_Bytes prep_ok (management (DB ctx)) (PReps ctx)"
    using assms by (simp_all add: mirrors_def)
  show "LoadGovernanceVariable (management (DB ctx)) = GV ctx"
    using gvs.holds_load [OF h(1)] h(1)
    by (simp add: LoadGovernanceVariable_def load_gv_def holds_def sort_key_id_if_sorted strict_sorted_imp_sorted)
  show "LoadPRep (management (DB ctx)) = PReps ctx" using preps.holds_load [OF h(2)] by (simp add: LoadPRep_def load_prep_def)
  show "gvs_ok (GV ctx)" "sorted_wrt (<) (map pr_BlockHeight (PReps ctx))" using h by (simp_all add: holds_def gvs_ok_def)
qed

definition stored_info_ok :: "Context \<Rightarrow> bool" where
  "stored_info_ok ctx \<longleftrightarrow> info_ok ((info (DB ctx))\<lparr>DBRoot := [], DBType := []\<rparr>)"

text \<open>The first start, on an empty disk, and a context with a governance variable in it.\<close>

definition empty_storage :: storage where
  "empty_storage = \<lparr>sto_management = [], sto_calcResult = [], sto_claims = \<lparr>preCommit_db = [], claim_db = [], claimBackup_db = []\<rparr>,
     sto_dirs = [], sto_calcDebug = []\<rparr>"

lemma first_start:
  assumes "0 < dbCount" "dbCount < 2 ^ 63" "NewContext empty_storage dbPath dbType dbName dbCount config = Some ctx"
  shows "mirrors ctx" "idb_ok (DB ctx)" "stored_info_ok ctx" "GV ctx = []" "PReps ctx = []" "PRepCandidates ctx = []"
    "PrevCalcDone (info (DB ctx)) = 0" "CalcDone (info (DB ctx)) = 0" "Calculating (info (DB ctx)) = 0"
proof -
  let ?i = "zero_DBInfo\<lparr>DBCount := dbCount, DBRoot := path_join dbPath dbName, DBType := dbType\<rparr>"
  let ?db = "[(PrefixManagement, DBInfo_Bytes ?i)]"
  have "Iterator_prefix ?db p = []" if "p = PrefixGovernanceVariable \<or> p = PrefixPRep \<or> p = PrefixPRepCandidate" for p
    using that by (auto simp: Iterator_prefix_eq)
  then have it: "Iterator_prefix ?db PrefixGovernanceVariable = []" "Iterator_prefix ?db PrefixPRep = []" "Iterator_prefix ?db PrefixPRepCandidate = []"
    by simp_all
  obtain idb where op: "OpenAccountDB \<lparr>info = ?i, management = ?db, calcResult = [], claims = sto_claims empty_storage, Account0 = [], Account1 = [], dirs = []\<rparr> = Some idb"
    "ctx = \<lparr>DB = idb, Revision = 0, PReps = [], PRepCandidates = [], GV = [], stats = None, Cancel = NewCancel,
       calcDebug = InitCalcDebugConfig config, calcDebug_db = []\<rparr>"
    using assms(3)
    by (auto simp: NewContext_def NewDBInfo_def empty_storage_def Bucket_Get_def Bucket_Set_def Let_def DBInfo_ID_def
        LoadPRepCandidate_def LoadPRep_def LoadGovernanceVariable_def it split: option.splits)
  have d: "distinct (map fst (fold disk_open ns d))" if "distinct (map fst d)" for ns and d :: "obj disk"
    using that by (induction ns arbitrary: d) (simp_all add: disk_open_def distinct_update)
  have m: "map_of d n \<noteq> None \<Longrightarrow> map_of (fold disk_open ns d) n \<noteq> None" for ns n and d :: "obj disk"
    by (induction ns arbitrary: d) (simp_all add: disk_open_def update_conv')
  have m': "n \<in> set ns \<Longrightarrow> map_of (fold disk_open ns d) n \<noteq> None" for ns n and d :: "obj disk"
  proof (induction ns arbitrary: d)
    case (Cons k ns)
    have "map_of (disk_open k d) k \<noteq> None" by (simp add: disk_open_def update_conv')
    then show ?case using Cons m [of "disk_open k d" n ns] by auto
  qed simp
  have info: "info idb = ?i" "management idb = ?db" using op(1) by (auto simp: OpenAccountDB_def split: if_splits)
  have names: "account_names idb' k = account_names idb k" if "info idb' = ?i" for idb' k
    using that info by (simp add: account_names_def)
  have e: "idb = \<lparr>info = ?i, management = ?db, calcResult = [], claims = sto_claims empty_storage, Account0 = account_names idb 0,
      Account1 = account_names idb 1, dirs = fold disk_open (account_names idb 0 @ account_names idb 1) []\<rparr>"
    using op(1) names by (simp add: OpenAccountDB_def split: if_splits)
  have idb: "Account0 idb = account_names idb 0" "Account1 idb = account_names idb 1"
    "dirs idb = fold disk_open (account_names idb 0 @ account_names idb 1) []"
    using arg_cong [OF e, of Account0] arg_cong [OF e, of Account1] arg_cong [OF e, of dirs] by simp_all
  have "map_of (dirs idb) n \<noteq> None" if "n \<in> set (account_names idb 0) \<union> set (account_names idb 1)" for n
    unfolding idb(3) using that by (intro m') simp
  moreover have "distinct (map fst (dirs idb))" unfolding idb(3) by (rule d) simp
  moreover have "0 < DBCount (info idb)" using assms(1) info(1) by simp
  ultimately show "idb_ok (DB ctx)" unfolding op(2) idb_ok_def using idb(1,2) by simp
  show "stored_info_ok ctx"
    using assms(1,2) by (simp add: op(2) stored_info_ok_def info info_ok_def zero_DBInfo_def zero_BlockInfo_def)
  have "take 2 (PrefixPRepCandidate @ k) = PrefixPRepCandidate" for k by simp
  then have "PrefixPRepCandidate @ k \<noteq> PrefixManagement" for k by (metis prefix_neqs(6) prefix_lengths(3,4) append_Nil2 append_eq_append_conv take_all order.refl)
  then show "mirrors ctx"
    by (simp add: op(2) mirrors_def info gvs.holds_empty preps.holds_empty it kv_ok_Cons cands_stored_def kv_get_def)
  show "GV ctx = []" "PReps ctx = []" "PRepCandidates ctx = []" by (simp_all add: op(2))
  show "PrevCalcDone (info (DB ctx)) = 0" "CalcDone (info (DB ctx)) = 0" "Calculating (info (DB ctx)) = 0"
    by (simp_all add: op(2) info zero_DBInfo_def)
qed

lemma first_start_runs:
  assumes "0 \<le> dbCount"
  shows "\<exists>ctx. NewContext empty_storage dbPath dbType dbName dbCount config = Some ctx"
proof -
  have "Iterator_prefix [(PrefixManagement, v)] PrefixPRepCandidate = []" for v :: obj
    by (simp add: Iterator_prefix_eq)
  then show ?thesis
    using assms
    by (simp add: NewContext_def NewDBInfo_def empty_storage_def Bucket_Get_def Bucket_Set_def Let_def DBInfo_ID_def
        LoadPRepCandidate_def OpenAccountDB_def)
qed

lemma idb_ok_UpdateGovernanceVariable: "idb_ok (DB (UpdateGovernanceVariable l ctx)) = idb_ok (DB ctx)"
  by (simp add: idb_ok_def account_names_def)

definition ex_start :: Context where
  "ex_start = the (NewContext empty_storage [] [] [] 2 None)"

definition ex_igv :: IISSGovernanceVariable where
  "ex_igv = \<lparr>igv_BlockHeight = 3, igv_IncentiveRep = 1, igv_RewardRep = 1200, igv_MainPRepCount = 22, igv_SubPRepCount = 78\<rparr>"

lemma ex_start_ok: "mirrors ex_start" "idb_ok (DB ex_start)" "stored_info_ok ex_start" "GV ex_start = []"
  "getPrevCalcDoneBH (DB ex_start) = 0"
  using first_start_runs [of 2 "[]" "[]" "[]" None] first_start [of 2 "[]" "[]" "[]" None] by (auto simp: ex_start_def getPrevCalcDoneBH_def)

definition ex_mng :: Context where
  "ex_mng = UpdateGovernanceVariable [ex_igv] ex_start"

lemma ex_mng_ok: "mirrors ex_mng" "idb_ok (DB ex_mng)" "stored_info_ok ex_mng"
  using ex_start_ok mirrors_UpdateGovernanceVariable [of ex_start]
  by (simp_all add: ex_mng_def idb_ok_UpdateGovernanceVariable stored_info_ok_def)

section \<open>Rollback\<close>

text \<open>
  C21: Rolling the management data back to a height keeps exactly the governance variables and
  P-Rep lists set up to it, in memory and in the database alike; candidates and block heights
  stay as they are.
\<close>

theorem management_rollback_exact:
  assumes "mirrors ctx"
  shows "GV (RollbackManagementDB h ctx) = filter (\<lambda>gv. gv_BlockHeight gv \<le> h) (GV ctx) \<and>
    PReps (RollbackManagementDB h ctx) = filter (\<lambda>p. pr_BlockHeight p \<le> h) (PReps ctx) \<and>
    LoadGovernanceVariable (management (DB (RollbackManagementDB h ctx))) = GV (RollbackManagementDB h ctx) \<and>
    LoadPRep (management (DB (RollbackManagementDB h ctx))) = PReps (RollbackManagementDB h ctx) \<and>
    PRepCandidates (RollbackManagementDB h ctx) = PRepCandidates ctx \<and> info (DB (RollbackManagementDB h ctx)) = info (DB ctx)"
proof -
  obtain db where e: "RollbackManagementDB h ctx = ctx\<lparr>GV := filter (\<lambda>gv. gv_BlockHeight gv \<le> h) (GV ctx),
      PReps := filter (\<lambda>p. pr_BlockHeight p \<le> h) (PReps ctx), DB := (DB ctx)\<lparr>management := db\<rparr>\<rparr>"
    and m: "mirrors (RollbackManagementDB h ctx)"
    using RollbackManagementDB_spec [OF assms] by blast
  show ?thesis using mirrors_loads(1,2) [OF m] by (simp add: e)
qed

theorem management_rollback_exact_witness:
  "GV (RollbackManagementDB 2 ex_mng) = filter (\<lambda>gv. gv_BlockHeight gv \<le> 2) (GV ex_mng) \<and>
    PReps (RollbackManagementDB 2 ex_mng) = filter (\<lambda>p. pr_BlockHeight p \<le> 2) (PReps ex_mng) \<and>
    LoadGovernanceVariable (management (DB (RollbackManagementDB 2 ex_mng))) = GV (RollbackManagementDB 2 ex_mng) \<and>
    LoadPRep (management (DB (RollbackManagementDB 2 ex_mng))) = PReps (RollbackManagementDB 2 ex_mng) \<and>
    PRepCandidates (RollbackManagementDB 2 ex_mng) = PRepCandidates ex_mng \<and> info (DB (RollbackManagementDB 2 ex_mng)) = info (DB ex_mng)"
  by (rule management_rollback_exact [OF ex_mng_ok(1)])

section \<open>New governance variables\<close>

lemma update_gv_appends:
  "sorted_wrt (<) (map gv_BlockHeight gvs @ map igv_BlockHeight l) \<Longrightarrow> fst (update_gv l gvs db) = gvs @ map NewGVFromIISS l"
proof (induction l arbitrary: gvs db)
  case (Cons g l)
  have "gvs = [] \<or> gv_BlockHeight (last gvs) < igv_BlockHeight g"
    using Cons.prems by (cases gvs rule: rev_cases) (auto simp: sorted_wrt_append)
  moreover have "sorted_wrt (<) (map gv_BlockHeight (gvs @ [NewGVFromIISS g]) @ map igv_BlockHeight l)" using Cons.prems by simp
  note Cons.IH [OF this]
  ultimately show ?case by (simp add: Let_def)
qed simp

lemma gv_before_drop:
  assumes "gvs_ok gvs" "0 < n \<longrightarrow> n < length gvs \<and> gv_BlockHeight (gvs ! n) < b"
  shows "gv_before b (rev (drop n gvs)) = gv_before b (rev gvs)"
proof (cases "n = 0")
  case False
  then have n: "n < length gvs" "gv_BlockHeight (gvs ! n) < b" using assms(2) by simp_all
  have "gv_before b (rev (drop n gvs)) \<noteq> None"
  proof
    assume "gv_before b (rev (drop n gvs)) = None"
    moreover have "gvs ! n \<in> set (drop n gvs)" using n(1) by (metis Cons_nth_drop_Suc list.set_intros(1))
    ultimately show False using n(2) by (auto simp: gv_before_None)
  qed
  moreover have "rev gvs = rev (drop n gvs) @ rev (take n gvs)" by (simp flip: rev_append)
  ultimately show ?thesis by (auto simp: gv_before_append)
qed simp

text \<open>
  C22: The governance variables of a term take effect, and pruning old ones changes nothing that
  can still be asked for: after an update with variables above the known ones, the variable in
  force at any block above the previous calculation is the one of the old and new variables
  together (in force at a block is the last one stored strictly before it), the list stays in
  order, and the database holds the same list.
\<close>

theorem governance_update_in_force:
  assumes "mirrors ctx" "sorted_wrt (<) (map gv_BlockHeight (GV ctx) @ map igv_BlockHeight l)" "getPrevCalcDoneBH (DB ctx) < b"
  shows "getGVByBlockHeight (UpdateGovernanceVariable l ctx) b = gv_before b (rev (GV ctx @ map NewGVFromIISS l)) \<and>
    gvs_ok (GV (UpdateGovernanceVariable l ctx)) \<and>
    LoadGovernanceVariable (management (DB (UpdateGovernanceVariable l ctx))) = GV (UpdateGovernanceVariable l ctx)"
proof -
  let ?all = "GV ctx @ map NewGVFromIISS l"
  obtain db where u: "update_gv l (GV ctx) (management (DB ctx)) = (?all, db)"
    using update_gv_appends [OF assms(2), of "management (DB ctx)"] by (cases "update_gv l (GV ctx) (management (DB ctx))") auto
  have h: "holds PrefixGovernanceVariable gv_BlockHeight GV_Bytes gv_ok db ?all"
    using update_gv_holds [OF _ u] assms(1) by (simp add: mirrors_def)
  have key: "GV_ID = (\<lambda>gv. bh_key (gv_BlockHeight gv))" by (simp add: GV_ID_def fun_eq_iff)
  obtain n db' where d: "delete_old gv_BlockHeight GV_ID PrefixGovernanceVariable (getPrevCalcDoneBH (DB ctx)) ?all db = (drop n ?all, db')"
    "0 < n \<longrightarrow> n < length ?all \<and> gv_BlockHeight (?all ! n) \<le> getPrevCalcDoneBH (DB ctx)"
    using gvs.delete_old_holds [OF h] unfolding key by blast
  have g: "GV (UpdateGovernanceVariable l ctx) = drop n ?all" unfolding UpdateGovernanceVariable_def u prod.case d(1) by simp
  have "gvs_ok ?all" using assms(2) by (simp add: gvs_ok_def comp_def)
  from gv_before_drop [OF this, of n b] d(2) assms(3)
  have "gv_before b (rev (drop n ?all)) = gv_before b (rev ?all)" by force
  then show ?thesis
    using mirrors_loads [OF mirrors_UpdateGovernanceVariable [OF assms(1), of l]] unfolding getGVByBlockHeight_def g by blast
qed

theorem governance_update_in_force_witness:
  "getGVByBlockHeight (UpdateGovernanceVariable [ex_igv] ex_start) 7 = gv_before 7 (rev (GV ex_start @ map NewGVFromIISS [ex_igv])) \<and>
    gvs_ok (GV (UpdateGovernanceVariable [ex_igv] ex_start)) \<and>
    LoadGovernanceVariable (management (DB (UpdateGovernanceVariable [ex_igv] ex_start))) = GV (UpdateGovernanceVariable [ex_igv] ex_start)"
  by (rule governance_update_in_force [OF ex_start_ok(1)]) (simp_all add: ex_start_ok)

end
