(* ===== verification/HexWrap.thy ===== *)
theory HexWrap
  imports HexNumber Wire
begin

text \<open>
  Numbers read from text, and the fixed-width numbers of \<^verbatim>\<open>common/hexint.go\<close>: their string
  form, the text they are read from (a JSON string, or the raw text of any other JSON value)
  and their bytes. A signed number is its two's complement word.
\<close>

section \<open>Parsing\<close>

text \<open>
  \<^verbatim>\<open>strconv\<close> with base 0, as in the Go release of \<^verbatim>\<open>go.mod\<close> (later ones also take
  \<^verbatim>\<open>0b\<close>, \<^verbatim>\<open>0o\<close> and underscores). An error is \<open>None\<close>: the callers do not look at which.
\<close>

fun parse_base :: "nat \<Rightarrow> nat \<Rightarrow> string \<Rightarrow> nat option" where
  "parse_base base n [] = Some n"
| "parse_base base n (c # cs) =
     (case hex_val c of
        None \<Rightarrow> None
      | Some d \<Rightarrow> if d < base then parse_base base (n * base + d) cs else None)"

definition strconv_nat :: "string \<Rightarrow> nat option" where
  "strconv_nat s =
     (if s = [] then None
      else if hd s = CHR ''0'' \<and> 1 < length s \<and> (s ! 1 = CHR ''x'' \<or> s ! 1 = CHR ''X'') then
        (if length s < 3 then None else parse_base 16 0 (drop 2 s))
      else if hd s = CHR ''0'' then parse_base 8 0 (tl s)
      else parse_base 10 0 s)"

definition strconv_ParseUint :: "string \<Rightarrow> nat \<Rightarrow> u64 option" where
  "strconv_ParseUint s bits =
     (case strconv_nat s of
        None \<Rightarrow> None
      | Some n \<Rightarrow> if n < 2 ^ bits then Some (of_nat n) else None)"

definition strconv_ParseInt :: "string \<Rightarrow> nat \<Rightarrow> u64 option" where
  "strconv_ParseInt s bits =
     (let neg = (s \<noteq> [] \<and> hd s = CHR ''-'');
          s' = (if s \<noteq> [] \<and> (hd s = CHR ''-'' \<or> hd s = CHR ''+'') then tl s else s)
      in case strconv_nat s' of
           None \<Rightarrow> None
         | Some n \<Rightarrow>
             if neg then (if n \<le> 2 ^ (bits - 1) then Some (- of_nat n) else None)
             else (if n < 2 ^ (bits - 1) then Some (of_nat n) else None))"

definition ParseUint :: "string \<Rightarrow> nat \<Rightarrow> error + u64" where
  "ParseUint s bits = (case strconv_ParseUint s bits of Some v \<Rightarrow> Inr v | None \<Rightarrow> ParseUint_hex s bits)"

definition ParseInt :: "string \<Rightarrow> nat \<Rightarrow> error + u64" where
  "ParseInt s bits = (case strconv_ParseInt s bits of Some v \<Rightarrow> Inr v | None \<Rightarrow> ParseInt_hex s bits)"

section \<open>Fixed-width numbers\<close>

definition HexInt16_String :: "16 word \<Rightarrow> string" where
  "HexInt16_String v = FormatInt (scast v)"

definition HexInt16_UnmarshalString :: "string \<Rightarrow> error + 16 word" where
  "HexInt16_UnmarshalString s = map_sum id ucast (ParseInt s 16)"

definition HexInt16_Bytes :: "16 word \<Rightarrow> bytes" where
  "HexInt16_Bytes v = Int64ToBytes (scast v)"

definition HexUint16_String :: "16 word \<Rightarrow> string" where
  "HexUint16_String v = FormatInt (ucast v)"

definition HexUint16_UnmarshalString :: "string \<Rightarrow> error + 16 word" where
  "HexUint16_UnmarshalString s = map_sum id ucast (ParseUint s 16)"

definition HexUint16_Bytes :: "16 word \<Rightarrow> bytes" where
  "HexUint16_Bytes v = Uint64ToBytes (ucast v)"

definition HexInt32_String :: "32 word \<Rightarrow> string" where
  "HexInt32_String v = FormatInt (scast v)"

definition HexInt32_UnmarshalString :: "string \<Rightarrow> error + 32 word" where
  "HexInt32_UnmarshalString s = map_sum id ucast (ParseInt s 32)"

definition HexUint32_String :: "32 word \<Rightarrow> string" where
  "HexUint32_String v = FormatUint (ucast v)"

definition HexUint32_UnmarshalString :: "string \<Rightarrow> error + 32 word" where
  "HexUint32_UnmarshalString s = map_sum id ucast (ParseUint s 32)"

definition HexInt64_String :: "u64 \<Rightarrow> string" where
  "HexInt64_String v = FormatInt v"

definition HexInt64_UnmarshalString :: "string \<Rightarrow> error + u64" where
  "HexInt64_UnmarshalString s = ParseInt s 64"

definition HexUint64_String :: "u64 \<Rightarrow> string" where
  "HexUint64_String v = FormatUint v"

definition HexUint64_UnmarshalString :: "string \<Rightarrow> error + u64" where
  "HexUint64_UnmarshalString s = ParseUint s 64"

definition HexUint64_Bytes :: "u64 \<Rightarrow> bytes" where
  "HexUint64_Bytes v = Uint64ToBytes v"

section \<open>Reading what was written\<close>

lemma parse_base_hex_encode: "parse_base 16 n (hex_encode b) = Some (n * 256 ^ length b + be_nat b)"
proof (induction b arbitrary: n)
  case (Cons x b)
  have d: "unat x div 16 < 16" using unsigned_less [of x, where ?'a = nat] by simp
  have m: "(n * 16 + unat x div 16) * 16 + unat x mod 16 = n * 256 + unat x"
    using div_mult_mod_eq [of "unat x" 16] by (simp add: algebra_simps)
  have "parse_base 16 n (hex_encode (x # b)) = parse_base 16 ((n * 16 + unat x div 16) * 16 + unat x mod 16) (hex_encode b)"
    using d by (simp add: hex_encode_def del: hex_val.simps)
  then show ?case unfolding m Cons.IH by (simp add: be_nat_Cons algebra_simps)
qed (simp add: hex_encode_def be_nat_def)

text \<open>The stripped zero is a leading one.\<close>

lemma parse_base_stripped:
  assumes "b \<noteq> []"
  shows "parse_base 16 0 (if hd (hex_encode b) = CHR ''0'' then tl (hex_encode b) else hex_encode b) = Some (be_nat b)"
proof -
  obtain c s where c: "hex_encode b = c # s" using assms by (cases "hex_encode b") simp_all
  have "parse_base 16 0 (hex_encode b) = Some (be_nat b)" using parse_base_hex_encode [of 0 b] by simp
  then show ?thesis using c by (cases "c = CHR ''0''") simp_all
qed

lemma strconv_nat_hex: "strconv_nat (encodeHexNumber False b) = Some (be_nat b)"
proof (cases "b = []")
  case True
  then show ?thesis by (simp add: encodeHexNumber_def hex_encode_def strconv_nat_def be_nat_def)
next
  case False
  let ?s = "if hd (hex_encode b) = CHR ''0'' then tl (hex_encode b) else hex_encode b"
  have "2 \<le> length (hex_encode b)" using False by (cases b) simp_all
  then have "?s \<noteq> []" by (cases "hex_encode b"; cases "tl (hex_encode b)") auto
  then have "strconv_nat (''0x'' @ ?s) = parse_base 16 0 ?s" by (cases ?s) (simp_all add: strconv_nat_def)
  then show ?thesis using parse_base_stripped [OF False] False by (simp add: encodeHexNumber_def Let_def)
qed

lemma encodeHexNumber_True: "b \<noteq> [] \<Longrightarrow> encodeHexNumber True b = CHR ''-'' # encodeHexNumber False b"
  by (simp add: encodeHexNumber_def Let_def)

lemma hd_encodeHexNumber: "encodeHexNumber False b \<noteq> [] \<and> hd (encodeHexNumber False b) = CHR ''0''"
  by (simp add: encodeHexNumber_def Let_def)

lemma ParseUint_FormatUint: "unat v < 2 ^ bits \<Longrightarrow> ParseUint (FormatUint v) bits = Inr v"
  by (simp add: ParseUint_def FormatUint_def strconv_ParseUint_def strconv_nat_hex be_nat_Uint64ToBytes)

lemma ParseInt_FormatInt:
  assumes "0 < bits" "- (2 ^ (bits - 1)) \<le> sint v" "sint v < 2 ^ (bits - 1)"
  shows "ParseInt (FormatInt v) bits = Inr v"
proof (cases "sint v < 0")
  case True
  have "unat (- v) = nat (- sint v)"
  proof -
    have lo: "- (2 ^ 63) \<le> sint v" using sint_ge [of v] by simp
    have "- v = word_of_int (- sint v)" by simp
    then have "uint (- v) = uint (word_of_int (- sint v) :: u64)" by (rule arg_cong)
    also have "\<dots> = (- sint v) mod 2 ^ 64" by (simp only: uint_word_of_int) simp
    also have "\<dots> = - sint v" using True lo by (simp add: mod_pos_pos_trivial)
    finally show ?thesis by (simp only: unat_eq_nat_uint)
  qed
  moreover have "nat (- sint v) \<le> 2 ^ (bits - 1)" using assms(2) by (simp add: nat_le_iff)
  moreover have "Uint64ToBytes (- v) \<noteq> []"
  proof
    assume "Uint64ToBytes (- v) = []"
    then have "unat (- v) = 0" using be_nat_Uint64ToBytes [of "- v"] by (simp only: be_nat_def foldl_Nil)
    then have "v = 0" by (simp only: unat_eq_0 neg_equal_0_iff_equal)
    then show False using True by simp
  qed
  ultimately show ?thesis
    using True by (simp add: ParseInt_def FormatInt_def strconv_ParseInt_def encodeHexNumber_True Let_def strconv_nat_hex
        be_nat_Uint64ToBytes)
next
  case False
  then have "unat v = nat (sint v)"
    using sint_lt [of v] by (simp add: unat_eq_nat_uint uint_sint take_bit_int_eq_self)
  then have "unat v < 2 ^ (bits - 1)" using False assms(3) by (simp add: nat_less_iff)
  then show ?thesis
    using False hd_encodeHexNumber [of "Uint64ToBytes v"]
    by (simp add: ParseInt_def FormatInt_def strconv_ParseInt_def Let_def strconv_nat_hex be_nat_Uint64ToBytes)
qed

lemma sint_widened: "sint (scast (v :: 16 word) :: u64) = sint v" "sint (scast (w :: 32 word) :: u64) = sint w"
proof -
  have "signed_take_bit 63 (sint v) = sint v" "signed_take_bit 63 (sint w) = sint w"
    using sint_ge [of v] sint_lt [of v] sint_ge [of w] sint_lt [of w] by (simp_all add: signed_take_bit_int_eq_self)
  then show "sint (scast v :: u64) = sint v" "sint (scast w :: u64) = sint w" by (simp_all add: signed_scast_eq)
qed

lemma unat_widened: "unat (ucast (v :: 16 word) :: u64) = unat v" "unat (ucast (w :: 32 word) :: u64) = unat w"
proof -
  have "take_bit 64 (unat v) = unat v" "take_bit 64 (unat w) = unat w"
    using unsigned_less [of v, where ?'a = nat] unsigned_less [of w, where ?'a = nat]
    by (simp_all add: take_bit_nat_eq_self)
  then show "unat (ucast v :: u64) = unat v" "unat (ucast w :: u64) = unat w" by (simp_all add: unsigned_ucast_eq)
qed

lemma narrowed: "ucast (scast (v :: 16 word) :: u64) = v" "ucast (scast (w :: 32 word) :: u64) = w"
  "ucast (ucast (v :: 16 word) :: u64) = v" "ucast (ucast (w :: 32 word) :: u64) = w"
  by (rule bit_word_eqI; simp add: bit_simps)+

lemma fixed_width_round_trip:
  "HexInt16_UnmarshalString (HexInt16_String a) = Inr a" "HexUint16_UnmarshalString (HexUint16_String a) = Inr a"
  "HexInt32_UnmarshalString (HexInt32_String b) = Inr b" "HexUint32_UnmarshalString (HexUint32_String b) = Inr b"
  "HexInt64_UnmarshalString (HexInt64_String c) = Inr c" "HexUint64_UnmarshalString (HexUint64_String c) = Inr c"
proof -
  show "HexInt16_UnmarshalString (HexInt16_String a) = Inr a"
    using ParseInt_FormatInt [of 16 "scast a"] sint_ge [of a] sint_lt [of a]
    by (simp add: HexInt16_UnmarshalString_def HexInt16_String_def sint_widened narrowed)
  show "HexInt32_UnmarshalString (HexInt32_String b) = Inr b"
    using ParseInt_FormatInt [of 32 "scast b"] sint_ge [of b] sint_lt [of b]
    by (simp add: HexInt32_UnmarshalString_def HexInt32_String_def sint_widened narrowed)
  show "HexInt64_UnmarshalString (HexInt64_String c) = Inr c"
    using ParseInt_FormatInt [of 64 c] sint_ge [of c] sint_lt [of c]
    by (simp add: HexInt64_UnmarshalString_def HexInt64_String_def)
  show "HexUint32_UnmarshalString (HexUint32_String b) = Inr b"
    using ParseUint_FormatUint [of "ucast b" 32] unsigned_less [of b, where ?'a = nat]
    by (simp add: HexUint32_UnmarshalString_def HexUint32_String_def unat_widened narrowed)
  show "HexUint64_UnmarshalString (HexUint64_String c) = Inr c"
    using ParseUint_FormatUint [of c 64] unat_lt_2p64 [of c]
    by (simp add: HexUint64_UnmarshalString_def HexUint64_String_def)
  have u: "unat (ucast a :: u64) < 2 ^ 16" using unsigned_less [of a, where ?'a = nat] by (simp add: unat_widened)
  then have "unat (ucast a :: u64) < 2 ^ 63" by simp
  then have "0 \<le> sint (ucast a :: u64)" using sint_small by simp
  then have "FormatInt (ucast a) = FormatUint (ucast a)" by (simp add: FormatInt_def FormatUint_def)
  then show "HexUint16_UnmarshalString (HexUint16_String a) = Inr a"
    using ParseUint_FormatUint [OF u] by (simp add: HexUint16_UnmarshalString_def HexUint16_String_def narrowed)
qed

section \<open>Signed bytes\<close>

text \<open>The loop stops when what is left is the sign.\<close>

lemma and_minus_128: "(x::int) AND - 128 = x div 128 * 128"
proof -
  have "(- 128 :: int) = NOT (mask 7)" by (simp add: not_int_def mask_eq_exp_minus_1)
  moreover have "x AND NOT (mask 7) = push_bit 7 (drop_bit 7 x)"
    by (rule bit_eqI) (auto simp: bit_simps)
  ultimately show ?thesis by (simp only: push_bit_eq_mult drop_bit_eq_div) simp
qed

lemma div_sign: "x < 0 \<Longrightarrow> x div 128 * 128 = - 128 \<longleftrightarrow> - 128 \<le> x \<and> x < 128"
  "\<not> x < 0 \<Longrightarrow> x div 128 * 128 = 0 \<longleftrightarrow> - 128 \<le> x \<and> x < 128" for x :: int
  by presburger+

lemma stops_iff: "v AND (- 128) = (if sint (v::u64) < 0 then - 128 else 0) \<longleftrightarrow> - 128 \<le> sint v \<and> sint v < 128"
proof -
  have m: "sint (- 128 :: u64) = - 128" by code_simp
  then have s: "sint (v AND (- 128)) = sint v div 128 * 128" by (simp only: signed_and_eq and_minus_128)
  have inj: "x = y \<longleftrightarrow> sint x = sint y" for x y :: u64 by (auto intro: signed_word_eqI)
  show ?thesis
  proof (cases "sint v < 0")
    case True
    then show ?thesis using div_sign(1) [OF True] by (simp only: if_True inj [of _ "- 128"] s m)
  next
    case False
    then show ?thesis using div_sign(2) [OF False] by (simp only: if_False inj [of _ 0] s signed_0)
  qed
qed

lemma uint_of_sint: "uint (v::u64) = sint v mod 2 ^ 64"
  by (rule trans [OF uint_sint]) (simp add: take_bit_eq_mod)

lemma low_byte_sint: "int (unat (ucast (v AND 255) :: byte)) = sint (v::u64) mod 256"
proof -
  have "int (unat (ucast (v AND 255) :: byte)) = int (unat v mod 256)" by (simp only: unat_low_byte)
  also have "\<dots> = uint v mod 256" by (simp add: zmod_int)
  also have "\<dots> = sint v mod 2 ^ 64 mod 256" by (simp only: uint_of_sint)
  also have "\<dots> = sint v mod 256" by (rule mod_mod_cancel) simp
  finally show ?thesis .
qed

text \<open>The value of two's complement bytes.\<close>

definition signed_be :: "bytes \<Rightarrow> int" where
  "signed_be bs = int (be_nat bs) - (if bs \<noteq> [] \<and> hd bs AND 128 \<noteq> 0 then 256 ^ length bs else 0)"

lemma byte_sign:
  assumes "- 128 \<le> x" "x < 128" "int (unat (b::byte)) = x mod 256"
  shows "b AND 128 \<noteq> 0 \<longleftrightarrow> x < 0" "int (unat b) = (if x < 0 then x + 256 else x)"
proof -
  have "x mod 256 = (if x < 0 then x + 256 else x)" using assms(1,2) by presburger
  then show u: "int (unat b) = (if x < 0 then x + 256 else x)" using assms(3) by simp
  show "b AND 128 \<noteq> 0 \<longleftrightarrow> x < 0" 
  proof -
    have "128 \<le> unat b \<longleftrightarrow> 128 \<le> int (unat b)" by linarith
    also have "\<dots> \<longleftrightarrow> x < 0" unfolding u using assms(1,2) by (cases "x < 0") simp_all
    finally show ?thesis unfolding sign_bit .
  qed
qed

lemma div_bound: "- (256 * p) \<le> x \<Longrightarrow> - p \<le> x div 256" "x < 256 * p \<Longrightarrow> x div 256 < p" for x p :: int
  using div_mult_mod_eq [of x 256] pos_mod_bound [of 256 x] pos_mod_sign [of 256 x] by linarith+

lemma Int64ToBytes_loop_value:
  assumes "0 < n" "- (2 ^ (8 * n - 1)) \<le> sint v" "sint v < 2 ^ (8 * n - 1)" "target = (if sint v < 0 then - 128 else 0)"
  shows "length (Int64ToBytes_loop n target v bs) \<le> n + length bs \<and>
    signed_be (Int64ToBytes_loop n target v bs) = sint v * 256 ^ length bs + int (be_nat bs)"
  using assms
proof (induction n target v bs rule: Int64ToBytes_loop.induct)
  case (2 idx target v bs)
  let ?b = "ucast (v AND 255) :: byte" and ?v = "signed_drop_bit 8 v"
  have div: "sint ?v = sint v div 256" by (simp only: sint_signed_drop_bit_eq drop_bit_eq_div) simp
  show ?case
  proof (cases "- 128 \<le> sint v \<and> sint v < 128")
    case True
    then have stop: "v AND (- 128) = target" using "2.prems"(4) stops_iff by simp
    from byte_sign [of "sint v" ?b] True low_byte_sint have
      "?b AND 128 \<noteq> 0 \<longleftrightarrow> sint v < 0" "int (unat ?b) = (if sint v < 0 then sint v + 256 else sint v)" by blast+
    then show ?thesis using stop
      by (simp add: Let_def signed_be_def be_nat_Cons algebra_simps)
  next
    case False
    then have go: "v AND (- 128) \<noteq> target" using "2.prems"(4) stops_iff by simp
    have "0 < idx"
    proof (rule ccontr)
      assume "\<not> 0 < idx"
      then show False using "2.prems"(2,3) False by simp
    qed
    then have e: "8 * Suc idx - 1 = 8 + (8 * idx - 1)" by simp
    have lo: "- (2 ^ (8 * idx - 1)) \<le> sint ?v" "sint ?v < 2 ^ (8 * idx - 1)"
      using div_bound "2.prems"(2,3) unfolding div e power_add by simp_all
    have "target = (if sint ?v < 0 then - 128 else 0)" using "2.prems"(4) by (simp add: div pos_imp_zdiv_neg_iff)
    from "2.IH" [OF HOL.refl go \<open>0 < idx\<close> lo this] have
      "length (Int64ToBytes_loop idx target ?v (?b # bs)) \<le> idx + Suc (length bs)"
      "signed_be (Int64ToBytes_loop idx target ?v (?b # bs)) = sint ?v * 256 ^ Suc (length bs) + int (be_nat (?b # bs))" by simp_all
    moreover have "sint ?v * 256 ^ Suc (length bs) + int (be_nat (?b # bs)) =
        (sint v div 256 * 256 + sint v mod 256) * 256 ^ length bs + int (be_nat bs)"
      by (simp only: div be_nat_Cons of_nat_add of_nat_mult of_nat_power of_nat_numeral low_byte_sint power_Suc distrib_right
          mult.assoc add.assoc)
    ultimately show ?thesis using go by (simp add: Let_def)
  qed
qed simp

lemma complement_step: "(255 - x) * p + (p - 1 - y) = 256 * p - 1 - (x * p + y)" for x y p :: int
proof -
  have "(255 - x) * p = 255 * p - x * p" by (rule left_diff_distrib)
  then show ?thesis by linarith
qed

lemma be_nat_not: "int (be_nat (map (\<lambda>b. b XOR 255) bs)) = 256 ^ length bs - 1 - int (be_nat bs)"
proof (induction bs)
  case (Cons b bs)
  have "(255 :: byte) = - 1" by simp
  then have "b XOR 255 = NOT b" by (simp only: bit.xor_one_right)
  then have "b XOR 255 = - 1 - b" by (simp only: not_eq_complement) simp
  moreover have "unat (- 1 - b) = unat (- 1 :: byte) - unat b" by (rule unat_sub) simp
  moreover have "unat b < 256" using unsigned_less [of b, where ?'a = nat] by simp
  moreover have "unat (- 1 :: byte) = 255" by code_simp
  ultimately have "unat (b XOR 255) = 255 - unat b" "unat b < 256" by (simp_all only:)
  then have "int (unat (b XOR 255)) = 255 - int (unat b)" by linarith
  then have h: "int (unat (b XOR 255)) = 255 - int (unat b)" .
  show ?case
    by (simp only: list.map be_nat_Cons of_nat_add of_nat_mult of_nat_power of_nat_numeral length_map h Cons.IH length_Cons
        power_Suc complement_step)
qed (simp add: be_nat_def)

lemma BytesToInt64_signed:
  assumes "signed_be bs = sint v" "length bs \<le> 8"
  shows "BytesToInt64 bs = v"
proof (cases bs)
  case Nil
  then have "sint v = sint (0 :: u64)" using assms by (simp add: signed_be_def be_nat_def)
  then have "v = 0" by (rule signed_word_eqI)
  then show ?thesis using Nil by (simp add: BytesToInt64_def)
next
  case (Cons b cs)
  have u: "uint (BytesToUint64 xs) = int (be_nat xs) mod 2 ^ 64" for xs
    by (simp only: uint_nat unat_BytesToUint64 zmod_int) simp
  have w: "BytesToUint64 xs = word_of_int (int (be_nat xs))" for xs
    by (simp only: word_uint_eq_iff u uint_word_of_int) simp
  show ?thesis
  proof (cases "b AND 128 = 0")
    case True
    then have "BytesToInt64 bs = word_of_int (int (be_nat bs))"
      using Cons w [of bs] by (simp add: BytesToInt64_def BytesToUint64_def)
    moreover have "int (be_nat bs) = sint v" using assms(1) Cons True by (simp add: signed_be_def)
    ultimately have "BytesToInt64 bs = word_of_int (sint v)" by (simp only:)
    then show ?thesis by simp
  next
    case False
    let ?f = "foldl (\<lambda>v b. push_bit 8 v OR ucast (b XOR 255)) 0 bs :: u64"
    have "?f = BytesToUint64 (map (\<lambda>b. b XOR 255) bs)" by (simp add: BytesToUint64_def foldl_map)
    then have "?f = word_of_int (256 ^ length bs - 1 - int (be_nat bs))" by (simp only: w be_nat_not)
    moreover have "BytesToInt64 bs = - ?f - 1" unfolding BytesToInt64_def by (simp add: Cons False)
    ultimately have "BytesToInt64 bs = - word_of_int (256 ^ length bs - 1 - int (be_nat bs)) - 1" by (simp only:)
    also have "\<dots> = word_of_int (int (be_nat bs) - 256 ^ length bs)" by simp
    also have "int (be_nat bs) - 256 ^ length bs = sint v" using assms(1) Cons False by (simp add: signed_be_def)
    finally show ?thesis by simp
  qed
qed

lemma BytesToInt64_Int64ToBytes: "BytesToInt64 (Int64ToBytes v) = v"
proof (cases "v = 0")
  case False
  then have "length (Int64ToBytes v) \<le> 8 \<and> signed_be (Int64ToBytes v) = sint v"
    using Int64ToBytes_loop_value [of 8 v "if sint v < 0 then - 128 else 0" "[]"] sint_ge [of v] sint_lt [of v]
    by (simp add: Int64ToBytes_def be_nat_def)
  then show ?thesis using BytesToInt64_signed by blast
qed (simp add: Int64ToBytes_def BytesToInt64_def)
end
