(* ===== verification/RoundTrips.thy ===== *)
theory RoundTrips
  imports MirrorTheorems HexWrap
begin

text \<open>
  Round trips: numbers and addresses through their byte and text forms, stored records
  through the databases, and the IISS data of a term through the writers and the loader.
\<close>

section \<open>Numbers, byte strings and addresses\<close>

text \<open>
  C29: The encodings lose nothing. A 64-bit number survives its shortest byte form, signed or
  unsigned, its padded key (which also keeps the order, so that iterators visit heights in
  order) and its text, signed or unsigned; so do the 16- and 32-bit numbers their text; a
  big integer of either sign survives its two's-complement bytes and its text; a byte string
  its text; and the byte form of a 64-bit number is at most eight bytes long.
\<close>

theorem numbers_round_trip:
  "BytesToUint64 (Uint64ToBytes v) = v \<and> BytesToInt64 (Int64ToBytes v) = v \<and>
   length (Uint64ToBytes v) \<le> 8 \<and> BytesToUint64 (bh_key v) = v \<and> (bh_key v < bh_key w \<longleftrightarrow> v < w) \<and>
   HexUint64_UnmarshalString (HexUint64_String v) = Inr v \<and> HexInt64_UnmarshalString (HexInt64_String v) = Inr v \<and>
   HexUint32_UnmarshalString (HexUint32_String d) = Inr d \<and> HexInt32_UnmarshalString (HexInt32_String d) = Inr d \<and>
   HexUint16_UnmarshalString (HexUint16_String e) = Inr e \<and> HexInt16_UnmarshalString (HexInt16_String e) = Inr e \<and>
   ParseUint_hex (FormatUint v) 64 = Inr v \<and>
   BigIntSetBytes (BigIntToBytes i) = i \<and> HexInt_UnmarshalString (HexInt_String i) = Inr i \<and>
   HexBytes_UnmarshalString (HexBytes_String (Some b)) = Inr b"
  by (simp add: BytesToUint64_Uint64ToBytes BytesToInt64_Int64ToBytes length_Uint64ToBytes fixed_width_round_trip
      ParseUint_hex_FormatUint HexInt_UnmarshalString_String HexBytes_UnmarshalString_String)

text \<open>
  An address survives its byte form, its text and its wire form, and whatever is parsed
  from a text into an address is a well-formed address again.
\<close>

theorem address_round_trip:
  assumes "address_ok a" "length old = AddressBytes"
  shows "SetBytes old (Some (Address_Bytes a)) = Some (Inr a) \<and> NewAddress (Address_Bytes a) = Some a \<and>
    SetString old (Address_String a) = Inr a \<and> dec_Address old (enc_Address a) = Inr a \<and>
    (\<forall>s a'. SetString old s = Inr a' \<longrightarrow> address_ok a' \<and> SetString old (Address_String a') = Inr a')"
  using assms SetString_String SetString_ok by (auto simp: SetBytes_Bytes NewAddress_Bytes)

theorem address_round_trip_witness:
  "SetString zero_address (Address_String ex_rep) = Inr ex_rep \<and> NewAddress (Address_Bytes ex_rep) = Some ex_rep"
  using address_round_trip [OF ex_rep_ok zero_address_length] by blast

section \<open>Records of the state databases\<close>

definition reads_back :: "bucket_id \<Rightarrow> bytes \<Rightarrow> obj \<Rightarrow> (obj \<Rightarrow> 'r option) \<Rightarrow> 'r \<Rightarrow> bool" where
  "reads_back bid key v dec r \<longleftrightarrow>
     (\<forall>db. kv_ok db \<longrightarrow> Option.bind (Bucket_Get (Bucket_Set db bid key v) bid key) dec = Some r \<and>
       (\<forall>k. k \<noteq> key \<longrightarrow> Bucket_Get (Bucket_Set db bid key v) bid k = Bucket_Get db bid k))"

lemma reads_backI: "dec v = Some r \<Longrightarrow> reads_back bid key v dec r"
  by (simp add: reads_back_def)

text \<open>
  C30: What the state databases store is what is read back, for every kind of record they hold. In the
  management database: the block information record (all but the root path and the database type, which are
  not stored), a governance variable, a P-Rep list and a candidate; in the claim databases: a
  claim, a backup of a claim, the record of the backed up heights and a pre-commit entry; an
  account; a calculation result. Stored under its key and decoded the way the code decodes it, with the
  part of the record that lives in the key, it is the record that was written, and the entries under
  other keys of its prefix are untouched.
\<close>

theorem state_records_round_trip:
  assumes "info_ok (di\<lparr>DBRoot := [], DBType := []\<rparr>)" "setReward gv = gv" "prep_ok p" "address_ok (pc_Address cand)"
    and "delegations_ok (ia_Delegations ia)" "address_ok (cl_Address (pcm_Claim pc))" "length (pcm_BlockHash pc) = BlockHashSize"
  shows "reads_back PrefixManagement DBInfo_ID (DBInfo_Bytes di) (\<lambda>v. opt_of (DBInfo_SetBytes zero_DBInfo v)) (di\<lparr>DBRoot := [], DBType := []\<rparr>) \<and>
    reads_back PrefixGovernanceVariable (GV_ID gv) (GV_Bytes gv)
      (\<lambda>v. map_option (\<lambda>x. x\<lparr>gv_BlockHeight := BytesToUint64 (GV_ID gv)\<rparr>) (opt_of (GV_SetBytes zero_GV v))) gv \<and>
    reads_back PrefixPRep (PRep_ID p) (PRep_Bytes p)
      (\<lambda>v. map_option (\<lambda>x. x\<lparr>pr_BlockHeight := BytesToUint64 (PRep_ID p)\<rparr>) (opt_of (PRep_SetBytes zero_PRep v))) p \<and>
    reads_back PrefixPRepCandidate (PRepCandidate_ID cand) (PRepCandidate_Bytes cand)
      (\<lambda>v. Option.bind (NewAddress (PRepCandidate_ID cand))
        (\<lambda>a. map_option (\<lambda>x. x\<lparr>pc_Address := a\<rparr>) (opt_of (PRepCandidate_SetBytes zero_PRepCandidate v)))) cand \<and>
    reads_back PrefixIScore (Claim_ID c) (Claim_Bytes c)
      (\<lambda>v. map_option (\<lambda>x. x\<lparr>cl_Address := Claim_ID c\<rparr>) (opt_of (NewClaimFromBytes v))) c \<and>
    reads_back PrefixIScore (Claim_BackupID c h) (Claim_Bytes c)
      (\<lambda>v. map_option (\<lambda>x. x\<lparr>cl_Address := Claim_ID c\<rparr>) (opt_of (NewClaimFromBytes v))) c \<and>
    reads_back PrefixManagement ClaimBackupInfo_ID (ClaimBackupInfo_Bytes bi)
      (\<lambda>v. opt_of (ClaimBackupInfo_SetBytes zero_ClaimBackupInfo v)) bi \<and>
    reads_back PrefixClaim (PreCommit_ID pc) (PreCommit_Bytes pc)
      (\<lambda>v. map_option (\<lambda>x. PreCommit_SetID x (PreCommit_ID pc)) (opt_of (PreCommit_SetBytes zero_PreCommit v))) pc \<and>
    reads_back PrefixIScore (IScoreAccount_ID ia) (IScoreAccount_Bytes ia)
      (\<lambda>v. map_option (\<lambda>x. x\<lparr>ia_Address := IScoreAccount_ID ia\<rparr>) (opt_of (NewIScoreAccountFromBytes v))) ia \<and>
    reads_back PrefixCalcResult (CalculationResult_ID cr) (CalculationResult_Bytes cr)
      (\<lambda>v. map_option (\<lambda>x. x\<lparr>cr_BlockHeight := BytesToUint64 (CalculationResult_ID cr)\<rparr>) (opt_of (NewCalculationResultFromBytes v))) cr"
proof (intro conjI; rule reads_backI)
  show "opt_of (DBInfo_SetBytes zero_DBInfo (DBInfo_Bytes di)) = Some (di\<lparr>DBRoot := [], DBType := []\<rparr>)"
    using dbinfo.dec_enc [OF assms(1)] by (simp add: DBInfo_Bytes_def)
  show "map_option (\<lambda>x. x\<lparr>gv_BlockHeight := BytesToUint64 (GV_ID gv)\<rparr>) (opt_of (GV_SetBytes zero_GV (GV_Bytes gv))) = Some gv"
    using assms(2) by (cases gv) (simp add: GV_SetBytes_def GV_Bytes_def GV_ID_def setReward_def zero_GV_def)
  have "mapE dec_PRepDelegationInfo (map enc_PRepDelegationInfo (pr_List p)) = Inr (pr_List p)"
    using assms(3) by (intro mapE_map dec_enc_PRepDelegationInfo) (simp add: prep_ok_def)
  then show "map_option (\<lambda>x. x\<lparr>pr_BlockHeight := BytesToUint64 (PRep_ID p)\<rparr>) (opt_of (PRep_SetBytes zero_PRep (PRep_Bytes p))) = Some p"
    by (simp add: PRep_SetBytes_def PRep_Bytes_def PRep_ID_def zero_PRep_def)
  show "Option.bind (NewAddress (PRepCandidate_ID cand))
      (\<lambda>a. map_option (\<lambda>x. x\<lparr>pc_Address := a\<rparr>) (opt_of (PRepCandidate_SetBytes zero_PRepCandidate (PRepCandidate_Bytes cand)))) = Some cand"
    using assms(4) by (simp add: PRepCandidate_ID_def PRepCandidate_Bytes_def PRepCandidate_SetBytes_def zero_PRepCandidate_def NewAddress_Bytes)
  show "map_option (\<lambda>x. PreCommit_SetID x (PreCommit_ID pc)) (opt_of (PreCommit_SetBytes zero_PreCommit (PreCommit_Bytes pc))) = Some pc"
    using pre_commits.dec_enc [of pc] assms(6,7) by simp
  show "map_option (\<lambda>x. x\<lparr>ia_Address := IScoreAccount_ID ia\<rparr>) (opt_of (NewIScoreAccountFromBytes (IScoreAccount_Bytes ia))) = Some ia"
    using accounts.dec_enc [of ia] assms(5) by simp
qed (use claim_records.dec_enc [of c] backup_infos.dec_enc [of bi] results.dec_enc [of cr] in simp_all)

theorem state_records_round_trip_witness:
  "reads_back PrefixManagement DBInfo_ID (DBInfo_Bytes (info (DB ex_mng))) (\<lambda>v. opt_of (DBInfo_SetBytes zero_DBInfo v))
      ((info (DB ex_mng))\<lparr>DBRoot := [], DBType := []\<rparr>) \<and>
    reads_back PrefixIScore (IScoreAccount_ID ex_account) (IScoreAccount_Bytes ex_account)
      (\<lambda>v. map_option (\<lambda>x. x\<lparr>ia_Address := IScoreAccount_ID ex_account\<rparr>) (opt_of (NewIScoreAccountFromBytes v))) ex_account"
proof -
  have i: "info_ok ((info (DB ex_mng))\<lparr>DBRoot := [], DBType := []\<rparr>)" using ex_mng_ok(3) by (simp add: stored_info_ok_def)
  have g: "setReward (NewGVFromIISS ex_igv) = NewGVFromIISS ex_igv" using gv_ok_NewGVFromIISS(1) by (simp only: gv_ok_def)
  have c: "address_ok (pc_Address \<lparr>pc_Address = ex_rep, pc_Start = 3, pc_End = 0\<rparr>)" using ex_rep_ok by simp
  have d: "delegations_ok (ia_Delegations ex_account)" using ex_rep_ok by (simp add: ex_account_def delegations_ok_def)
  have p: "address_ok (cl_Address (pcm_Claim (newPreCommit 7 [] 0 [] ex_rep)))" "length (pcm_BlockHash (newPreCommit 7 [] 0 [] ex_rep)) = BlockHashSize"
    using ex_rep_ok by (simp_all add: newPreCommit_def zero_PreCommit_def copy_at_def)
  from state_records_round_trip [OF i g ex_prep_ok(1) c d p] show ?thesis by blast
qed

section \<open>The IISS data of a term\<close>

definition load_igv :: "u64 \<Rightarrow> obj \<Rightarrow> IISSGovernanceVariable" where
  "load_igv h v = (case IISSGV_SetBytes zero_IISSGV v IISSDataVersion of Inl _ \<Rightarrow> zero_IISSGV | Inr gv \<Rightarrow> gv)\<lparr>igv_BlockHeight := h\<rparr>"

interpretation igv_table: height_table PrefixIISSGV igv_BlockHeight IISSGV_Bytes load_igv "\<lambda>_. True"
  by unfold_locales (simp add: load_igv_def IISSGV_SetBytes_def IISSGV_Bytes_def zero_IISSGV_def IISSDataVersion_def)

definition write_igv :: "IISSGovernanceVariable \<Rightarrow> obj kv \<Rightarrow> obj kv" where
  "write_igv g db = WriteIISSGV db (igv_BlockHeight g) (igv_IncentiveRep g) (igv_RewardRep g) (igv_MainPRepCount g) (igv_SubPRepCount g)"

lemma write_igv_Set: "write_igv g db = Bucket_Set db PrefixIISSGV (bh_key (igv_BlockHeight g)) (IISSGV_Bytes g)"
  by (cases g) (simp add: write_igv_def WriteIISSGV_def IISSGV_ID_def Let_def)

lemma fold_igv_holds:
  assumes "holds PrefixIISSGV igv_BlockHeight IISSGV_Bytes (\<lambda>_. True) db gs" "sorted_wrt (<) (map igv_BlockHeight (gs @ hs))"
  shows "holds PrefixIISSGV igv_BlockHeight IISSGV_Bytes (\<lambda>_. True) (fold write_igv hs db) (gs @ hs) \<and>
    same_but PrefixIISSGV db (fold write_igv hs db)"
  using assms
proof (induction hs arbitrary: gs db)
  case (Cons h hs)
  have "holds PrefixIISSGV igv_BlockHeight IISSGV_Bytes (\<lambda>_. True) (write_igv h db) (gs @ [h])"
    using igv_table.holds_append [OF Cons.prems(1), of h] Cons.prems(2) by (auto simp: write_igv_Set sorted_wrt_append)
  from Cons.IH [OF this] Cons.prems show ?case
    by (auto simp: write_igv_Set intro: same_but_Set [OF holds_kv_ok])
qed simp

lemma iiss_prefixes [simp]:
  "length PrefixIISSGV = 2" "length PrefixIISSHeader = 2" "PrefixIISSGV \<noteq> PrefixIISSHeader" "PrefixIISSHeader \<noteq> PrefixPRep"
  "PrefixIISSGV \<noteq> PrefixPRep" "PrefixIISSHeader \<noteq> PrefixIISSGV" "PrefixPRep \<noteq> PrefixIISSHeader" "PrefixPRep \<noteq> PrefixIISSGV"
  "PrefixIISSPRep = PrefixPRep"
  by (simp_all add: PrefixIISSGV_def PrefixIISSHeader_def PrefixIISSPRep_def PrefixPRep_def ascii_def)

lemma loadIISSGovernanceVariable_holds:
  assumes "holds PrefixIISSGV igv_BlockHeight IISSGV_Bytes (\<lambda>_. True) db gs"
  shows "loadIISSGovernanceVariable db IISSDataVersion = Inr gs"
proof -
  have "mapE (\<lambda>(k, v). bindE (IISSGV_SetBytes zero_IISSGV v IISSDataVersion) (\<lambda>gv.
        Inr (gv\<lparr>igv_BlockHeight := BytesToUint64 (drop (length PrefixIISSGV) k)\<rparr>)))
      (map (\<lambda>g. (PrefixIISSGV @ bh_key (igv_BlockHeight g), IISSGV_Bytes g)) gs) = Inr gs"
    by (intro mapE_map) (simp add: IISSGV_SetBytes_def IISSGV_Bytes_def zero_IISSGV_def IISSDataVersion_def)
  then show ?thesis using assms by (simp add: loadIISSGovernanceVariable_def holds_def rows_def)
qed

text \<open>
  C31: The IISS data of a term, written record by record, load as they were written: the header,
  the governance variables in the order of their heights and the P-Rep list.
\<close>

theorem iiss_data_round_trip:
  assumes "sorted_wrt (<) (map igv_BlockHeight gs)" "\<forall>d \<in> set ps. address_ok (di_Address d)" "ps \<noteq> []"
  shows "\<exists>db. WriteIISSPRep (fold write_igv gs (WriteIISSHeader [] IISSDataVersion h rev8)) ph total_dg ps = Inr db \<and>
    LoadIISSData db = Some (\<lparr>ih_Version = IISSDataVersion, ih_BlockHeight = h, ih_Revision = rev8\<rparr>, gs,
      [\<lparr>pr_BlockHeight = ph, pr_TotalDelegation = uint total_dg, pr_List = ps\<rparr>])"
proof -
  let ?hd = "\<lparr>ih_Version = IISSDataVersion, ih_BlockHeight = h, ih_Revision = rev8\<rparr>"
  let ?p = "\<lparr>pr_BlockHeight = ph, pr_TotalDelegation = uint total_dg, pr_List = ps\<rparr>"
  let ?ha = "WriteIISSHeader [] IISSDataVersion h rev8" and ?hb = "fold write_igv gs (WriteIISSHeader [] IISSDataVersion h rev8)"
  let ?db = "Bucket_Set ?hb PrefixIISSPRep (PRep_ID ?p) (PRep_Bytes ?p)"
  have db0: "?ha = [(PrefixIISSHeader, IISSHeader_Bytes ?hd)]" by (simp add: WriteIISSHeader_def Bucket_Set_def)
  then have "holds PrefixIISSGV igv_BlockHeight IISSGV_Bytes (\<lambda>_. True) ?ha []" "Iterator_prefix ?ha PrefixIISSPRep = []"
    by (auto intro!: igv_table.holds_empty simp: Iterator_prefix_eq kv_ok_Cons)
  then have h1: "holds PrefixIISSGV igv_BlockHeight IISSGV_Bytes (\<lambda>_. True) ?hb gs" "same_but PrefixIISSGV ?ha ?hb"
    "Iterator_prefix ?ha PrefixIISSPRep = []"
    using fold_igv_holds [of ?ha "[]" gs] assms(1) by simp_all
  have ok: "kv_ok ?hb" "kv_ok ?db" using holds_kv_ok [OF h1(1)] by simp_all
  have sb: "same_but PrefixIISSPRep ?hb ?db" by (rule same_but_Set [OF ok(1) same_but_refl])
  have p1: "Iterator_prefix ?hb PrefixPRep = []"
    using same_but_prefix [OF h1(2) _ ok(1), of PrefixIISSPRep] h1(3) db0 by (simp add: kv_ok_Cons)
  have hp: "holds PrefixPRep pr_BlockHeight PRep_Bytes prep_ok ?db [?p]"
    using preps.holds_append [OF preps.holds_empty [OF ok(1) p1], of ?p] assms(2) by (simp add: PRep_ID_def prep_ok_def)
  have "LoadPRep ?db = [?p]" using preps.holds_load [OF hp] by (simp add: LoadPRep_def load_prep_def)
  moreover have "loadIISSGovernanceVariable ?db IISSDataVersion = Inr gs"
    by (rule loadIISSGovernanceVariable_holds, rule holds_cong [OF h1(1) ok(2) sb]) simp_all
  moreover have "kv_get PrefixIISSHeader ?db = kv_get PrefixIISSHeader ?hb" "kv_get PrefixIISSHeader ?hb = kv_get PrefixIISSHeader ?ha"
    using sb [unfolded same_but_def, rule_format, of PrefixIISSHeader "[]"] h1(2) [unfolded same_but_def, rule_format, of PrefixIISSHeader "[]"]
    by simp_all
  moreover have "kv_get PrefixIISSHeader ?ha = Some (IISSHeader_Bytes ?hd)" unfolding db0 by (simp add: kv_get_def)
  ultimately have "LoadPRep ?db = [?p]" "loadIISSGovernanceVariable ?db IISSDataVersion = Inr gs"
    and "kv_get PrefixIISSHeader ?db = Some (IISSHeader_Bytes ?hd)" by simp_all
  moreover from this(3) have "loadIISSHeader ?db = Inr ?hd"
    by (simp add: loadIISSHeader_def Bucket_Get_def IISSHeader_SetBytes_def IISSHeader_Bytes_def IISSDataVersion_def)
  moreover have "WriteIISSPRep ?hb ph total_dg ps = Inr ?db" using assms(3) by (simp add: WriteIISSPRep_def Let_def)
  ultimately show ?thesis by (simp add: LoadIISSData_def)
qed

theorem iiss_data_round_trip_witness:
  "\<exists>db. WriteIISSPRep (fold write_igv [ex_igv] (WriteIISSHeader [] IISSDataVersion 20 8)) 11 1000 [\<lparr>di_Address = ex_rep, di_DelegatedAmount = 300\<rparr>] = Inr db \<and>
    LoadIISSData db = Some (\<lparr>ih_Version = IISSDataVersion, ih_BlockHeight = 20, ih_Revision = 8\<rparr>, [ex_igv],
      [\<lparr>pr_BlockHeight = 11, pr_TotalDelegation = uint (1000 :: u64), pr_List = [\<lparr>di_Address = ex_rep, di_DelegatedAmount = 300\<rparr>]\<rparr>])"
  using ex_rep_ok by (intro iiss_data_round_trip) simp_all

end
