(* ===== verification/Ipc.thy ===== *)
theory Ipc
  imports Messages
begin

text \<open>
  \<^verbatim>\<open>common/ipc/connection.go\<close> and the structs that travel over it. A message is the array
  of its number, its id and its data; a connection reads objects from one stream and writes
  them to another, and dispatches by message number. The socket and its failures are outside
  the model: reading from an empty stream is the end of the connection (an error).
\<close>

section \<open>Fields\<close>

definition dec_fields :: "obj \<Rightarrow> error + obj list" where
  "dec_fields ob = (case ob of OArr xs \<Rightarrow> Inr xs | ONil \<Rightarrow> Inr [] | _ \<Rightarrow> Inl ErrDecode)"

definition enc_slice :: "bytes option \<Rightarrow> obj" where
  "enc_slice b = (case b of None \<Rightarrow> ONil | Some b \<Rightarrow> OBytes b)"

definition dec_slice :: "obj \<Rightarrow> error + bytes option" where
  "dec_slice ob = bindE (dec_bytes ob) (\<lambda>b. Inr (Some b))"

fun dec_str :: "obj \<Rightarrow> error + string" where
  "dec_str (OStr s) = Inr s"
| "dec_str (OBytes b) = Inr (map (\<lambda>x. char_of (unat x)) b)"
| "dec_str _ = Inl ErrDecode"

definition enc_u16 :: "u16 \<Rightarrow> obj" where
  "enc_u16 v = OInt (uint v)"

fun dec_u16 :: "obj \<Rightarrow> error + u16" where
  "dec_u16 (OInt i) = (if 0 \<le> i \<and> i < 2 ^ 16 then Inr (word_of_int i) else Inl ErrDecode)"
| "dec_u16 _ = Inl ErrDecode"

definition enc_u32 :: "u32 \<Rightarrow> obj" where
  "enc_u32 v = OInt (uint v)"

fun dec_u32 :: "obj \<Rightarrow> error + u32" where
  "dec_u32 (OInt i) = (if 0 \<le> i \<and> i < 2 ^ 32 then Inr (word_of_int i) else Inl ErrDecode)"
| "dec_u32 _ = Inl ErrDecode"

section \<open>Connections\<close>

record connection =
  conn_in :: "obj list"
  conn_out :: "obj list"
  conn_handler :: "u64 list"

definition connectionFromConn :: "obj list \<Rightarrow> connection" where
  "connectionFromConn stream = \<lparr>conn_in = stream, conn_out = [], conn_handler = []\<rparr>"

record message =
  m_Msg :: u64
  m_Id :: u32
  m_Data :: obj

definition enc_message :: "message \<Rightarrow> obj" where
  "enc_message m = OArr [enc_u64 (m_Msg m), enc_u32 (m_Id m), m_Data m]"

text \<open>The fields decoded before an error are kept: the numbers of a refused message are reported.\<close>

definition dec_message :: "obj \<Rightarrow> message \<times> error option" where
  "dec_message ob =
     (case dec_fields ob of
        Inl e \<Rightarrow> (\<lparr>m_Msg = 0, m_Id = 0, m_Data = ONil\<rparr>, Some e)
      | Inr xs \<Rightarrow>
          (case fld xs 0 dec_u64 0 0 of
             Inl e \<Rightarrow> (\<lparr>m_Msg = 0, m_Id = 0, m_Data = ONil\<rparr>, Some e)
           | Inr msg \<Rightarrow>
               (case fld xs 1 dec_u32 0 0 of
                  Inl e \<Rightarrow> (\<lparr>m_Msg = msg, m_Id = 0, m_Data = ONil\<rparr>, Some e)
                | Inr i \<Rightarrow> (\<lparr>m_Msg = msg, m_Id = i, m_Data = (if 2 < length xs then xs ! 2 else ONil)\<rparr>, None))))"

definition Connection_Send :: "u64 \<Rightarrow> u32 \<Rightarrow> obj \<Rightarrow> connection \<Rightarrow> connection" where
  "Connection_Send msg i data c = c\<lparr>conn_out := conn_out c @ [enc_message \<lparr>m_Msg = msg, m_Id = i, m_Data = data\<rparr>]\<rparr>"

definition read_message :: "connection \<Rightarrow> (message \<times> error option) \<times> connection" where
  "read_message c =
     (case conn_in c of
        [] \<Rightarrow> ((\<lparr>m_Msg = 0, m_Id = 0, m_Data = ONil\<rparr>, Some ErrEOF), c)
      | ob # obs \<Rightarrow> (dec_message ob, c\<lparr>conn_in := obs\<rparr>))"

definition Connection_Receive :: "(obj \<Rightarrow> error + 'a) \<Rightarrow> connection \<Rightarrow> (u64 \<times> u32 \<times> (error + 'a)) \<times> connection" where
  "Connection_Receive dec c =
     (case read_message c of
        ((m, Some e), c') \<Rightarrow> ((m_Msg m, m_Id m, Inl e), c')
      | ((m, None), c') \<Rightarrow> ((m_Msg m, m_Id m, dec (m_Data m)), c'))"

text \<open>
  \<^verbatim>\<open>SendAndReceive\<close> takes the next message for the answer, whatever its number and id.
  \<open>peer\<close> is what the other side has written by the time the answer is read.
\<close>

definition Connection_SendAndReceive ::
    "u64 \<Rightarrow> u32 \<Rightarrow> obj \<Rightarrow> (obj \<Rightarrow> error + 'a) \<Rightarrow> (connection \<Rightarrow> connection) \<Rightarrow> connection \<Rightarrow> (error + 'a) \<times> connection" where
  "Connection_SendAndReceive msg i data dec peer c =
     (case read_message (peer (Connection_Send msg i data c)) of
        ((m, Some e), c') \<Rightarrow> (Inl e, c')
      | ((m, None), c') \<Rightarrow> (dec (m_Data m), c'))"

definition Connection_SetHandler :: "u64 \<Rightarrow> connection \<Rightarrow> connection" where
  "Connection_SetHandler msg c = c\<lparr>conn_handler := (if msg \<in> set (conn_handler c) then conn_handler c else conn_handler c @ [msg])\<rparr>"

text \<open>
  \<^verbatim>\<open>HandleMessage\<close>: the message handed to its handler, nothing for a number without one,
  or the error that ends the connection.
\<close>

definition Connection_HandleMessage :: "connection \<Rightarrow> (error + message option) \<times> connection" where
  "Connection_HandleMessage c =
     (case read_message c of
        ((m, Some e), c') \<Rightarrow> (Inl e, c')
      | ((m, None), c') \<Rightarrow> (Inr (if m_Msg m \<in> set (conn_handler c') then Some m else None), c'))"

section \<open>Round trips of messages\<close>

lemma enc_uint_neq_nil [simp, codec_simps]: "enc_u16 w \<noteq> ONil" "enc_u32 v \<noteq> ONil"
  by (simp_all add: enc_u16_def enc_u32_def)

lemma dec_enc_u16 [simp, codec_simps]: "dec_u16 (enc_u16 v) = Inr v"
  using unsigned_less [of v, where ?'a = int] by (simp add: enc_u16_def)

lemma dec_enc_u32 [simp, codec_simps]: "dec_u32 (enc_u32 v) = Inr v"
  using unsigned_less [of v, where ?'a = int] by (simp add: enc_u32_def)

lemma dec_enc_message [simp, codec_simps]: "dec_message (enc_message m) = (m, None)"
  by (simp add: dec_message_def enc_message_def dec_fields_def)

lemma dec_fields_OArr [simp, codec_simps]: "dec_fields (OArr xs) = Inr xs"
  by (simp add: dec_fields_def)

text \<open>The wire contract of a kind of data: what a peer sends is what the other side decodes.\<close>

locale wire_data =
  fixes enc :: "'a \<Rightarrow> obj" and dec :: "obj \<Rightarrow> error + 'a" and ok :: "'a \<Rightarrow> bool"
  assumes dec_enc: "ok x \<Longrightarrow> dec (enc x) = Inr x"
begin

lemma receive_sent:
  assumes "ok x" "conn_in c = enc_message \<lparr>m_Msg = msg, m_Id = i, m_Data = enc x\<rparr> # obs"
  shows "Connection_Receive dec c = ((msg, i, Inr x), c\<lparr>conn_in := obs\<rparr>)"
  using assms by (simp add: Connection_Receive_def read_message_def dec_enc)

lemma answer_received:
  assumes "ok x" "conn_in (peer (Connection_Send msg i data c)) = enc_message \<lparr>m_Msg = msg', m_Id = i', m_Data = enc x\<rparr> # obs"
  shows "fst (Connection_SendAndReceive msg i data dec peer c) = Inr x"
  using assms by (simp add: Connection_SendAndReceive_def read_message_def dec_enc)

lemma enc_inj: "ok x \<Longrightarrow> ok y \<Longrightarrow> enc x = enc y \<Longrightarrow> x = y"
  using dec_enc by (metis sum.inject(2))

end

end
