(* ===== verification/MsgWire.thy ===== *)
theory MsgWire
  imports Ipc
begin

text \<open>
  The structs of the requests and responses of \<^verbatim>\<open>core/msg.go\<close>, \<^verbatim>\<open>core/msg_claim.go\<close>,
  \<^verbatim>\<open>core/msg_calculate.go\<close> and \<^verbatim>\<open>core/msg_rollback.go\<close> on the wire: arrays of their
  fields in order, embedded structs flattened. Each is an interpretation of
  \<open>wire_data\<close>.
\<close>

section \<open>Structs\<close>

record ResponseVersion =
  rv_Version :: u64
  rv_BlockHeight :: u64
  rv_BlockHash :: bytes

record ResponseClaim =
  rc_Claim :: ClaimMessage
  rc_IScore :: int

record StartBlock =
  sb_BlockHeight :: u64
  sb_BlockHash :: "bytes option"

record RollBackResponse =
  rr_Success :: bool
  rr_Request :: RollBackRequest

record CalculateResponse =
  ca_Status :: u16
  ca_BlockHeight :: u64

record CalculateDone =
  cdn_Success :: bool
  cdn_BlockHeight :: u64
  cdn_IScore :: int
  cdn_StateHash :: "bytes option"

record QueryCalculateStatusResponse =
  qs_Status :: u64
  qs_BlockHeight :: u64

record ResponseInit =
  ri_Success :: bool
  ri_BlockHeight :: u64

section \<open>Encodings\<close>

definition enc_ResponseVersion :: "ResponseVersion \<Rightarrow> obj" where
  "enc_ResponseVersion r = OArr [enc_u64 (rv_Version r), enc_u64 (rv_BlockHeight r), OBytes (rv_BlockHash r)]"

definition dec_ResponseVersion :: "obj \<Rightarrow> error + ResponseVersion" where
  "dec_ResponseVersion ob =
     bindE (dec_fields ob) (\<lambda>xs.
     bindE (fld xs 0 dec_u64 0 0) (\<lambda>x0.
     bindE (fld xs 1 dec_u64 0 0) (\<lambda>x1.
     bindE (fld xs 2 dec_bytes (replicate BlockHashSize 0) (replicate BlockHashSize 0)) (\<lambda>x2.
     Inr \<lparr>rv_Version = x0, rv_BlockHeight = x1, rv_BlockHash = copy_at (replicate BlockHashSize 0) 0 x2\<rparr>))))"

definition enc_Query :: "Query \<Rightarrow> obj" where
  "enc_Query r = OArr [enc_Address (q_Address r), enc_u64 (q_BlockHeight r), enc_slice (q_BlockHash r), enc_slice (q_TXHash r)]"

definition dec_Query :: "obj \<Rightarrow> error + Query" where
  "dec_Query ob =
     bindE (dec_fields ob) (\<lambda>xs.
     bindE (fld xs 0 (dec_Address zero_address) zero_address zero_address) (\<lambda>x0.
     bindE (fld xs 1 dec_u64 0 0) (\<lambda>x1.
     bindE (fld xs 2 dec_slice None None) (\<lambda>x2.
     bindE (fld xs 3 dec_slice None None) (\<lambda>x3.
     Inr \<lparr>q_Address = x0, q_BlockHeight = x1, q_BlockHash = x2, q_TXHash = x3\<rparr>)))))"

definition enc_ResponseQuery :: "ResponseQuery \<Rightarrow> obj" where
  "enc_ResponseQuery r = OArr [enc_Address (rq_Address r), enc_HexInt (rq_IScore r), enc_u64 (rq_BlockHeight r)]"

definition dec_ResponseQuery :: "obj \<Rightarrow> error + ResponseQuery" where
  "dec_ResponseQuery ob =
     bindE (dec_fields ob) (\<lambda>xs.
     bindE (fld xs 0 (dec_Address zero_address) zero_address zero_address) (\<lambda>x0.
     bindE (fld xs 1 dec_HexInt 0 0) (\<lambda>x1.
     bindE (fld xs 2 dec_u64 0 0) (\<lambda>x2.
     Inr \<lparr>rq_Address = x0, rq_IScore = x1, rq_BlockHeight = x2\<rparr>))))"

definition enc_ClaimMessage :: "ClaimMessage \<Rightarrow> obj" where
  "enc_ClaimMessage r = OArr [enc_Address (cm_Address r), enc_u64 (cm_BlockHeight r), enc_slice (cm_BlockHash r), enc_u64 (cm_TXIndex r), enc_slice (cm_TXHash r)]"

definition dec_ClaimMessage :: "obj \<Rightarrow> error + ClaimMessage" where
  "dec_ClaimMessage ob =
     bindE (dec_fields ob) (\<lambda>xs.
     bindE (fld xs 0 (dec_Address zero_address) zero_address zero_address) (\<lambda>x0.
     bindE (fld xs 1 dec_u64 0 0) (\<lambda>x1.
     bindE (fld xs 2 dec_slice None None) (\<lambda>x2.
     bindE (fld xs 3 dec_u64 0 0) (\<lambda>x3.
     bindE (fld xs 4 dec_slice None None) (\<lambda>x4.
     Inr \<lparr>cm_Address = x0, cm_BlockHeight = x1, cm_BlockHash = x2, cm_TXIndex = x3, cm_TXHash = x4\<rparr>))))))"

definition enc_ResponseClaim :: "ResponseClaim \<Rightarrow> obj" where
  "enc_ResponseClaim r = OArr [enc_Address (cm_Address (rc_Claim r)), enc_u64 (cm_BlockHeight (rc_Claim r)), enc_slice (cm_BlockHash (rc_Claim r)), enc_u64 (cm_TXIndex (rc_Claim r)), enc_slice (cm_TXHash (rc_Claim r)), enc_HexInt (rc_IScore r)]"

definition dec_ResponseClaim :: "obj \<Rightarrow> error + ResponseClaim" where
  "dec_ResponseClaim ob =
     bindE (dec_fields ob) (\<lambda>xs.
     bindE (fld xs 0 (dec_Address zero_address) zero_address zero_address) (\<lambda>x0.
     bindE (fld xs 1 dec_u64 0 0) (\<lambda>x1.
     bindE (fld xs 2 dec_slice None None) (\<lambda>x2.
     bindE (fld xs 3 dec_u64 0 0) (\<lambda>x3.
     bindE (fld xs 4 dec_slice None None) (\<lambda>x4.
     bindE (fld xs 5 dec_HexInt 0 0) (\<lambda>x5.
     Inr \<lparr>rc_Claim = \<lparr>cm_Address = x0, cm_BlockHeight = x1, cm_BlockHash = x2, cm_TXIndex = x3, cm_TXHash = x4\<rparr>, rc_IScore = x5\<rparr>)))))))"

definition enc_CommitClaim :: "CommitClaim \<Rightarrow> obj" where
  "enc_CommitClaim r = OArr [OBool (cc_Success r), enc_Address (cc_Address r), enc_u64 (cc_BlockHeight r), enc_slice (cc_BlockHash r), enc_u64 (cc_TXIndex r), enc_slice (cc_TXHash r)]"

definition dec_CommitClaim :: "obj \<Rightarrow> error + CommitClaim" where
  "dec_CommitClaim ob =
     bindE (dec_fields ob) (\<lambda>xs.
     bindE (fld xs 0 dec_bool False False) (\<lambda>x0.
     bindE (fld xs 1 (dec_Address zero_address) zero_address zero_address) (\<lambda>x1.
     bindE (fld xs 2 dec_u64 0 0) (\<lambda>x2.
     bindE (fld xs 3 dec_slice None None) (\<lambda>x3.
     bindE (fld xs 4 dec_u64 0 0) (\<lambda>x4.
     bindE (fld xs 5 dec_slice None None) (\<lambda>x5.
     Inr \<lparr>cc_Success = x0, cc_Address = x1, cc_BlockHeight = x2, cc_BlockHash = x3, cc_TXIndex = x4, cc_TXHash = x5\<rparr>)))))))"

definition enc_StartBlock :: "StartBlock \<Rightarrow> obj" where
  "enc_StartBlock r = OArr [enc_u64 (sb_BlockHeight r), enc_slice (sb_BlockHash r)]"

definition dec_StartBlock :: "obj \<Rightarrow> error + StartBlock" where
  "dec_StartBlock ob =
     bindE (dec_fields ob) (\<lambda>xs.
     bindE (fld xs 0 dec_u64 0 0) (\<lambda>x0.
     bindE (fld xs 1 dec_slice None None) (\<lambda>x1.
     Inr \<lparr>sb_BlockHeight = x0, sb_BlockHash = x1\<rparr>)))"

definition enc_CommitBlock :: "CommitBlock \<Rightarrow> obj" where
  "enc_CommitBlock r = OArr [OBool (cb_Success r), enc_u64 (cb_BlockHeight r), enc_slice (cb_BlockHash r)]"

definition dec_CommitBlock :: "obj \<Rightarrow> error + CommitBlock" where
  "dec_CommitBlock ob =
     bindE (dec_fields ob) (\<lambda>xs.
     bindE (fld xs 0 dec_bool False False) (\<lambda>x0.
     bindE (fld xs 1 dec_u64 0 0) (\<lambda>x1.
     bindE (fld xs 2 dec_slice None None) (\<lambda>x2.
     Inr \<lparr>cb_Success = x0, cb_BlockHeight = x1, cb_BlockHash = x2\<rparr>))))"

definition enc_RollBackRequest :: "RollBackRequest \<Rightarrow> obj" where
  "enc_RollBackRequest r = OArr [enc_u64 (rb_BlockHeight r), enc_slice (rb_BlockHash r)]"

definition dec_RollBackRequest :: "obj \<Rightarrow> error + RollBackRequest" where
  "dec_RollBackRequest ob =
     bindE (dec_fields ob) (\<lambda>xs.
     bindE (fld xs 0 dec_u64 0 0) (\<lambda>x0.
     bindE (fld xs 1 dec_slice None None) (\<lambda>x1.
     Inr \<lparr>rb_BlockHeight = x0, rb_BlockHash = x1\<rparr>)))"

definition enc_RollBackResponse :: "RollBackResponse \<Rightarrow> obj" where
  "enc_RollBackResponse r = OArr [OBool (rr_Success r), enc_u64 (rb_BlockHeight (rr_Request r)), enc_slice (rb_BlockHash (rr_Request r))]"

definition dec_RollBackResponse :: "obj \<Rightarrow> error + RollBackResponse" where
  "dec_RollBackResponse ob =
     bindE (dec_fields ob) (\<lambda>xs.
     bindE (fld xs 0 dec_bool False False) (\<lambda>x0.
     bindE (fld xs 1 dec_u64 0 0) (\<lambda>x1.
     bindE (fld xs 2 dec_slice None None) (\<lambda>x2.
     Inr \<lparr>rr_Success = x0, rr_Request = \<lparr>rb_BlockHeight = x1, rb_BlockHash = x2\<rparr>\<rparr>))))"

definition enc_CalculateRequest :: "CalculateRequest \<Rightarrow> obj" where
  "enc_CalculateRequest r = OArr [OStr (cq_Path r), enc_u64 (cq_BlockHeight r), OBytes (cq_BlockHash r)]"

definition dec_CalculateRequest :: "obj \<Rightarrow> error + CalculateRequest" where
  "dec_CalculateRequest ob =
     bindE (dec_fields ob) (\<lambda>xs.
     bindE (fld xs 0 dec_str [] []) (\<lambda>x0.
     bindE (fld xs 1 dec_u64 0 0) (\<lambda>x1.
     bindE (fld xs 2 dec_bytes [] []) (\<lambda>x2.
     Inr \<lparr>cq_Path = x0, cq_BlockHeight = x1, cq_BlockHash = x2\<rparr>))))"

definition enc_CalculateResponse :: "CalculateResponse \<Rightarrow> obj" where
  "enc_CalculateResponse r = OArr [enc_u16 (ca_Status r), enc_u64 (ca_BlockHeight r)]"

definition dec_CalculateResponse :: "obj \<Rightarrow> error + CalculateResponse" where
  "dec_CalculateResponse ob =
     bindE (dec_fields ob) (\<lambda>xs.
     bindE (fld xs 0 dec_u16 0 0) (\<lambda>x0.
     bindE (fld xs 1 dec_u64 0 0) (\<lambda>x1.
     Inr \<lparr>ca_Status = x0, ca_BlockHeight = x1\<rparr>)))"

definition enc_CalculateDone :: "CalculateDone \<Rightarrow> obj" where
  "enc_CalculateDone r = OArr [OBool (cdn_Success r), enc_u64 (cdn_BlockHeight r), enc_HexInt (cdn_IScore r), enc_slice (cdn_StateHash r)]"

definition dec_CalculateDone :: "obj \<Rightarrow> error + CalculateDone" where
  "dec_CalculateDone ob =
     bindE (dec_fields ob) (\<lambda>xs.
     bindE (fld xs 0 dec_bool False False) (\<lambda>x0.
     bindE (fld xs 1 dec_u64 0 0) (\<lambda>x1.
     bindE (fld xs 2 dec_HexInt 0 0) (\<lambda>x2.
     bindE (fld xs 3 dec_slice None None) (\<lambda>x3.
     Inr \<lparr>cdn_Success = x0, cdn_BlockHeight = x1, cdn_IScore = x2, cdn_StateHash = x3\<rparr>)))))"

definition enc_QueryCalculateStatusResponse :: "QueryCalculateStatusResponse \<Rightarrow> obj" where
  "enc_QueryCalculateStatusResponse r = OArr [enc_u64 (qs_Status r), enc_u64 (qs_BlockHeight r)]"

definition dec_QueryCalculateStatusResponse :: "obj \<Rightarrow> error + QueryCalculateStatusResponse" where
  "dec_QueryCalculateStatusResponse ob =
     bindE (dec_fields ob) (\<lambda>xs.
     bindE (fld xs 0 dec_u64 0 0) (\<lambda>x0.
     bindE (fld xs 1 dec_u64 0 0) (\<lambda>x1.
     Inr \<lparr>qs_Status = x0, qs_BlockHeight = x1\<rparr>)))"

definition enc_QueryCalculateResultResponse :: "QueryCalculateResultResponse \<Rightarrow> obj" where
  "enc_QueryCalculateResultResponse r = OArr [enc_u16 (qr_Status r), enc_u64 (qr_BlockHeight r), enc_HexInt (qr_IScore r), OBytes (qr_StateHash r)]"

definition dec_QueryCalculateResultResponse :: "obj \<Rightarrow> error + QueryCalculateResultResponse" where
  "dec_QueryCalculateResultResponse ob =
     bindE (dec_fields ob) (\<lambda>xs.
     bindE (fld xs 0 dec_u16 0 0) (\<lambda>x0.
     bindE (fld xs 1 dec_u64 0 0) (\<lambda>x1.
     bindE (fld xs 2 dec_HexInt 0 0) (\<lambda>x2.
     bindE (fld xs 3 dec_bytes [] []) (\<lambda>x3.
     Inr \<lparr>qr_Status = x0, qr_BlockHeight = x1, qr_IScore = x2, qr_StateHash = x3\<rparr>)))))"

definition enc_ResponseInit :: "ResponseInit \<Rightarrow> obj" where
  "enc_ResponseInit r = OArr [OBool (ri_Success r), enc_u64 (ri_BlockHeight r)]"

definition dec_ResponseInit :: "obj \<Rightarrow> error + ResponseInit" where
  "dec_ResponseInit ob =
     bindE (dec_fields ob) (\<lambda>xs.
     bindE (fld xs 0 dec_bool False False) (\<lambda>x0.
     bindE (fld xs 1 dec_u64 0 0) (\<lambda>x1.
     Inr \<lparr>ri_Success = x0, ri_BlockHeight = x1\<rparr>)))"

section \<open>Interpretations\<close>

interpretation ResponseVersion_wire: wire_data enc_ResponseVersion dec_ResponseVersion "\<lambda>r. length (rv_BlockHash r) = BlockHashSize"
  by unfold_locales (auto simp: enc_ResponseVersion_def dec_ResponseVersion_def copy_at_def enc_slice_def dec_slice_def split: option.splits)

interpretation Query_wire: wire_data enc_Query dec_Query "\<lambda>r. address_ok (q_Address r)"
  by unfold_locales (auto simp: enc_Query_def dec_Query_def copy_at_def enc_slice_def dec_slice_def split: option.splits)

interpretation ResponseQuery_wire: wire_data enc_ResponseQuery dec_ResponseQuery "\<lambda>r. address_ok (rq_Address r)"
  by unfold_locales (auto simp: enc_ResponseQuery_def dec_ResponseQuery_def copy_at_def enc_slice_def dec_slice_def split: option.splits)

interpretation ClaimMessage_wire: wire_data enc_ClaimMessage dec_ClaimMessage "\<lambda>r. address_ok (cm_Address r)"
  by unfold_locales (auto simp: enc_ClaimMessage_def dec_ClaimMessage_def copy_at_def enc_slice_def dec_slice_def split: option.splits)

interpretation ResponseClaim_wire: wire_data enc_ResponseClaim dec_ResponseClaim "\<lambda>r. address_ok (cm_Address (rc_Claim r))"
  by unfold_locales (auto simp: enc_ResponseClaim_def dec_ResponseClaim_def copy_at_def enc_slice_def dec_slice_def split: option.splits)

interpretation CommitClaim_wire: wire_data enc_CommitClaim dec_CommitClaim "\<lambda>r. address_ok (cc_Address r)"
  by unfold_locales (auto simp: enc_CommitClaim_def dec_CommitClaim_def copy_at_def enc_slice_def dec_slice_def split: option.splits)

interpretation StartBlock_wire: wire_data enc_StartBlock dec_StartBlock "\<lambda>r. True"
  by unfold_locales (auto simp: enc_StartBlock_def dec_StartBlock_def copy_at_def enc_slice_def dec_slice_def split: option.splits)

interpretation CommitBlock_wire: wire_data enc_CommitBlock dec_CommitBlock "\<lambda>r. True"
  by unfold_locales (auto simp: enc_CommitBlock_def dec_CommitBlock_def copy_at_def enc_slice_def dec_slice_def split: option.splits)

interpretation RollBackRequest_wire: wire_data enc_RollBackRequest dec_RollBackRequest "\<lambda>r. True"
  by unfold_locales (auto simp: enc_RollBackRequest_def dec_RollBackRequest_def copy_at_def enc_slice_def dec_slice_def split: option.splits)

interpretation RollBackResponse_wire: wire_data enc_RollBackResponse dec_RollBackResponse "\<lambda>r. True"
  by unfold_locales (auto simp: enc_RollBackResponse_def dec_RollBackResponse_def copy_at_def enc_slice_def dec_slice_def split: option.splits)

interpretation CalculateRequest_wire: wire_data enc_CalculateRequest dec_CalculateRequest "\<lambda>r. True"
  by unfold_locales (auto simp: enc_CalculateRequest_def dec_CalculateRequest_def copy_at_def enc_slice_def dec_slice_def split: option.splits)

interpretation CalculateResponse_wire: wire_data enc_CalculateResponse dec_CalculateResponse "\<lambda>r. True"
  by unfold_locales (auto simp: enc_CalculateResponse_def dec_CalculateResponse_def copy_at_def enc_slice_def dec_slice_def split: option.splits)

interpretation CalculateDone_wire: wire_data enc_CalculateDone dec_CalculateDone "\<lambda>r. True"
  by unfold_locales (auto simp: enc_CalculateDone_def dec_CalculateDone_def copy_at_def enc_slice_def dec_slice_def split: option.splits)

interpretation QueryCalculateStatusResponse_wire: wire_data enc_QueryCalculateStatusResponse dec_QueryCalculateStatusResponse "\<lambda>r. True"
  by unfold_locales (auto simp: enc_QueryCalculateStatusResponse_def dec_QueryCalculateStatusResponse_def copy_at_def enc_slice_def dec_slice_def split: option.splits)

interpretation QueryCalculateResultResponse_wire: wire_data enc_QueryCalculateResultResponse dec_QueryCalculateResultResponse "\<lambda>r. True"
  by unfold_locales (auto simp: enc_QueryCalculateResultResponse_def dec_QueryCalculateResultResponse_def copy_at_def enc_slice_def dec_slice_def split: option.splits)

interpretation ResponseInit_wire: wire_data enc_ResponseInit dec_ResponseInit "\<lambda>r. True"
  by unfold_locales (auto simp: enc_ResponseInit_def dec_ResponseInit_def copy_at_def enc_slice_def dec_slice_def split: option.splits)

end
