(* ===== verification/DebugMsg.thy ===== *)
theory DebugMsg
  imports MsgWire
begin

text \<open>
  \<^verbatim>\<open>core/msg_debug.go\<close>: the DEBUG messages of the monitor connection. The responses are
  the values the handlers fill in; how the codec library lays out their embedded structs is
  left to it.
\<close>

definition DebugStatistics :: u64 where "DebugStatistics = 0"
definition DebugDBInfo :: u64 where "DebugDBInfo = 1"
definition DebugPRep :: u64 where "DebugPRep = 2"
definition DebugPRepCandidate :: u64 where "DebugPRepCandidate = 3"
definition DebugGV :: u64 where "DebugGV = 4"
definition DebugCalcDebugResult :: u64 where "DebugCalcDebugResult = 5"
definition DebugLogCTX :: u64 where "DebugLogCTX = 100"
definition DebugCalcFlagOn :: u64 where "DebugCalcFlagOn = 200"
definition DebugCalcFlagOff :: u64 where "DebugCalcFlagOff = 201"
definition DebugCalcAddAddress :: u64 where "DebugCalcAddAddress = 202"
definition DebugCalcDelAddress :: u64 where "DebugCalcDelAddress = 203"
definition DebugCalcListAddresses :: u64 where "DebugCalcListAddresses = 204"

record DebugMessage =
  dm_Cmd :: u64
  dm_Address :: address
  dm_OutputPath :: string
  dm_BlockHeight :: u64

definition enc_DebugMessage :: "DebugMessage \<Rightarrow> obj" where
  "enc_DebugMessage r = OArr [enc_u64 (dm_Cmd r), enc_Address (dm_Address r), OStr (dm_OutputPath r), enc_u64 (dm_BlockHeight r)]"

definition dec_DebugMessage :: "obj \<Rightarrow> error + DebugMessage" where
  "dec_DebugMessage ob =
     bindE (dec_fields ob) (\<lambda>xs.
     bindE (fld xs 0 dec_u64 0 0) (\<lambda>c.
     bindE (fld xs 1 (dec_Address zero_address) zero_address zero_address) (\<lambda>a.
     bindE (fld xs 2 dec_str [] []) (\<lambda>p.
     bindE (fld xs 3 dec_u64 0 0) (\<lambda>h.
     Inr \<lparr>dm_Cmd = c, dm_Address = a, dm_OutputPath = p, dm_BlockHeight = h\<rparr>)))))"

interpretation DebugMessage_wire: wire_data enc_DebugMessage dec_DebugMessage "\<lambda>r. address_ok (dm_Address r)"
  by unfold_locales (simp add: enc_DebugMessage_def dec_DebugMessage_def)

datatype debug_response =
    RDebugStats u64 Statistics
  | RDebugDBInfo DBInfo
  | RDebugPRep "PRep list"
  | RDebugPRepCandidate "PRepCandidate list"
  | RDebugGV "GovernanceVariable list"
  | RCalcDebug bool address
  | RCalcDebugAddressList "address list"
  | RQueryCalcDebugResult "CalcDebugResult list"

section \<open>Handlers\<close>

definition handleStats :: "Context \<Rightarrow> debug_response" where
  "handleStats ctx = RDebugStats (getCalcDoneBH (DB ctx)) (case stats ctx of None \<Rightarrow> zero_Statistics | Some s \<Rightarrow> s)"

definition handleDBInfo :: "Context \<Rightarrow> debug_response" where
  "handleDBInfo ctx = RDebugDBInfo (info (DB ctx))"

definition handlePRep :: "Context \<Rightarrow> debug_response" where
  "handlePRep ctx = RDebugPRep (PReps ctx)"

definition handlePRepCandidate :: "Context \<Rightarrow> debug_response" where
  "handlePRepCandidate ctx = RDebugPRepCandidate (map snd (PRepCandidates ctx))"

definition handleGV :: "Context \<Rightarrow> debug_response" where
  "handleGV ctx = RDebugGV (GV ctx)"

definition set_debug_flag :: "bool \<Rightarrow> Context \<Rightarrow> Context" where
  "set_debug_flag b ctx =
     ctx\<lparr>calcDebug := (calcDebug ctx)\<lparr>dbg_conf := (dbg_conf (calcDebug ctx))\<lparr>conf_Flag := b\<rparr>\<rparr>\<rparr>"

text \<open>The four handlers below report failure during a calculation but change the configuration all the same.\<close>

definition handleCalcDebugFlagOn :: "Context \<Rightarrow> debug_response \<times> Context" where
  "handleCalcDebugFlagOn ctx = (RCalcDebug (\<not> isCalculating (DB ctx)) zero_address, set_debug_flag True ctx)"

definition handleCalcDebugFlagOff :: "Context \<Rightarrow> debug_response \<times> Context" where
  "handleCalcDebugFlagOff ctx = (RCalcDebug (\<not> isCalculating (DB ctx)) zero_address, set_debug_flag False ctx)"

definition handleCalcDebugAddAddress :: "address \<Rightarrow> Context \<Rightarrow> debug_response \<times> Context" where
  "handleCalcDebugAddAddress a ctx = (RCalcDebug (\<not> isCalculating (DB ctx)) a, AddDebuggingAddress a ctx)"

definition handleCalcDebugDeleteAddress :: "address \<Rightarrow> Context \<Rightarrow> (debug_response \<times> Context) option" where
  "handleCalcDebugDeleteAddress a ctx =
     map_option (\<lambda>ctx'. (RCalcDebug (\<not> isCalculating (DB ctx)) a, ctx')) (DeleteDebuggingAddress a ctx)"

definition handleCalcDebugAddresses :: "Context \<Rightarrow> debug_response" where
  "handleCalcDebugAddresses ctx = RCalcDebugAddressList (conf_Addresses (dbg_conf (calcDebug ctx)))"

text \<open>
  The keys whose height ends in the shortest bytes of the requested one. The slice of a key
  shorter than a height panics (the outer \<open>None\<close>); no key at all is an error.
\<close>

definition GetCalcDebugResultKeys :: "CalcDebugData kv \<Rightarrow> u64 \<Rightarrow> (error + bytes list) option" where
  "GetCalcDebugResultKeys qdb blockHeight =
     (let bh = Uint64ToBytes blockHeight;
          keys = map fst (Iterator_New qdb None None)
      in if \<exists>k \<in> set keys. length k < BlockHeightSize then None
         else
           (let found = filter (\<lambda>k. take (length bh) (drop (BlockHeightSize - length bh) k) = bh) keys
            in Some (if found = [] then Inl ErrNoData else Inr found)))"

text \<open>A key without the whole block hash panics in the slice expression.\<close>

definition NewCalcDebugResult :: "bytes \<Rightarrow> CalcDebugData \<Rightarrow> CalcDebugResult option" where
  "NewCalcDebugResult key data =
     (if length key < BlockHeightSize + BlockHashSize then None
      else Some \<lparr>dbr_BlockHeight = BytesToUint64 (take BlockHeightSize key),
                 dbr_BlockHash = ''0x'' @ hex_encode (take BlockHashSize (drop BlockHeightSize key)),
                 dbr_Data = data\<rparr>)"

fun query_debug_results :: "address \<Rightarrow> CalcDebugData kv \<Rightarrow> bytes list \<Rightarrow> CalcDebugResult list option" where
  "query_debug_results a qdb [] = Some []"
| "query_debug_results a qdb (key # keys) =
     (case Bucket_Get qdb PrefixClaim key of
        None \<Rightarrow> query_debug_results a qdb keys
      | Some data \<Rightarrow>
          (case NewCalcDebugResult key data of
             None \<Rightarrow> None
           | Some dr \<Rightarrow>
               map_option ((@) (map (\<lambda>_. dr) (filter (\<lambda>r. a = zero_address \<or> a = cres_Address r) (dbg_Results (dbr_Data dr)))))
                 (query_debug_results a qdb keys)))"

definition handleQueryCalcDebugResult :: "address \<Rightarrow> u64 \<Rightarrow> Context \<Rightarrow> debug_response option" where
  "handleQueryCalcDebugResult a blockHeight ctx =
     (case GetCalcDebugResultKeys (calcDebug_db ctx) blockHeight of
        None \<Rightarrow> None
      | Some (Inl _) \<Rightarrow> Some (RQueryCalcDebugResult [])
      | Some (Inr keys) \<Rightarrow> map_option RQueryCalcDebugResult (query_debug_results a (calcDebug_db ctx) keys))"

text \<open>The dispatch of \<^verbatim>\<open>debug\<close>: a response, or none for the commands that only log or fail.\<close>

definition do_debug :: "DebugMessage \<Rightarrow> Context \<Rightarrow> (error option \<times> debug_response option \<times> Context) option" where
  "do_debug req ctx =
     (let answer = (\<lambda>r. Some (None, Some r, ctx)); change = (\<lambda>(r, ctx'). Some (None, Some r, ctx')) in
      if dm_Cmd req = DebugStatistics then answer (handleStats ctx)
      else if dm_Cmd req = DebugDBInfo then answer (handleDBInfo ctx)
      else if dm_Cmd req = DebugPRep then answer (handlePRep ctx)
      else if dm_Cmd req = DebugPRepCandidate then answer (handlePRepCandidate ctx)
      else if dm_Cmd req = DebugGV then answer (handleGV ctx)
      else if dm_Cmd req = DebugLogCTX then Some (None, None, ctx)
      else if dm_Cmd req = DebugCalcFlagOn then change (handleCalcDebugFlagOn ctx)
      else if dm_Cmd req = DebugCalcFlagOff then change (handleCalcDebugFlagOff ctx)
      else if dm_Cmd req = DebugCalcAddAddress then change (handleCalcDebugAddAddress (dm_Address req) ctx)
      else if dm_Cmd req = DebugCalcDelAddress then
        Option.bind (handleCalcDebugDeleteAddress (dm_Address req) ctx) change
      else if dm_Cmd req = DebugCalcListAddresses then answer (handleCalcDebugAddresses ctx)
      else if dm_Cmd req = DebugCalcDebugResult then
        Option.bind (handleQueryCalcDebugResult (dm_Address req) (dm_BlockHeight req) ctx) answer
      else Some (Some ErrUnknownType, None, ctx))"

end
