(* ===== verification/Service.thy ===== *)
theory Service
  imports DebugMsg
begin

text \<open>
  \<^verbatim>\<open>core/msg.go\<close> and \<^verbatim>\<open>core/manager.go\<close>: the handlers around the work of
  \<open>Messages\<close>, \<open>DoCalc\<close> and \<open>DebugMsg\<close>, the dispatch of a connection's
  messages and the manager with its counter of tasks (\<^verbatim>\<open>sync.WaitGroup\<close>), as a
  transition system. Every message but ROLLBACK is handled by a goroutine of its own: the
  service keeps the goroutines that were started, and a step runs any one of them to its end.
\<close>

section \<open>Message numbers\<close>

definition IPCVersion :: u64 where "IPCVersion = 2"

definition MsgVersion :: u64 where "MsgVersion = 0"
definition MsgClaim :: u64 where "MsgClaim = 1"
definition MsgQuery :: u64 where "MsgQuery = 2"
definition MsgCalculate :: u64 where "MsgCalculate = 3"
definition MsgCommitBlock :: u64 where "MsgCommitBlock = 4"
definition MsgCommitClaim :: u64 where "MsgCommitClaim = 5"
definition MsgQueryCalculateStatus :: u64 where "MsgQueryCalculateStatus = 6"
definition MsgQueryCalculateResult :: u64 where "MsgQueryCalculateResult = 7"
definition MsgRollBack :: u64 where "MsgRollBack = 8"
definition MsgINIT :: u64 where "MsgINIT = 9"
definition MsgStartBlock :: u64 where "MsgStartBlock = 10"
definition MsgReady :: u64 where "MsgReady = 100"
definition MsgCalculateDone :: u64 where "MsgCalculateDone = 101"
definition MsgDebug :: u64 where "MsgDebug = 1000"

lemmas msg_numbers =
  MsgVersion_def MsgClaim_def MsgQuery_def MsgCalculate_def MsgCommitBlock_def MsgCommitClaim_def
  MsgQueryCalculateStatus_def MsgQueryCalculateResult_def MsgRollBack_def MsgINIT_def MsgStartBlock_def
  MsgReady_def MsgCalculateDone_def MsgDebug_def

definition MsgToString :: "u64 \<Rightarrow> string" where
  "MsgToString msg =
     (if msg = MsgVersion then ''VERSION'' else if msg = MsgClaim then ''CLAIM'' else if msg = MsgQuery then ''QUERY''
      else if msg = MsgCalculate then ''CALCULATE'' else if msg = MsgCommitBlock then ''COMMIT_BLOCK''
      else if msg = MsgCommitClaim then ''COMMIT_CLAIM'' else if msg = MsgQueryCalculateStatus then ''QUERY_CALCULATE_STATUS''
      else if msg = MsgQueryCalculateResult then ''QUERY_CALCULATE_RESULT'' else if msg = MsgReady then ''READY''
      else if msg = MsgCalculateDone then ''CALCULATE_DONE'' else if msg = MsgRollBack then ''ROLLBACK''
      else if msg = MsgINIT then ''INIT'' else if msg = MsgStartBlock then ''START_BLOCK''
      else if msg = MsgDebug then ''DEBUG'' else ''UNKNOWN'')"

section \<open>The manager\<close>

record manager =
  monitorMode :: bool
  mgr_ctx :: Context
  waitGroup :: int

definition AddMsgTask :: "manager \<Rightarrow> manager" where
  "AddMsgTask m = m\<lparr>waitGroup := waitGroup m + 1\<rparr>"

definition DoneMsgTask :: "manager \<Rightarrow> manager" where
  "DoneMsgTask m = m\<lparr>waitGroup := waitGroup m - 1\<rparr>"

definition set_ctx :: "Context \<Rightarrow> manager \<Rightarrow> manager" where
  "set_ctx ctx m = m\<lparr>mgr_ctx := ctx\<rparr>"

text \<open>
  What the service is run with: the hash, the iteration order of Go maps, the databases found
  at the paths of CALCULATE requests and the wire form of the debug responses.
\<close>

record environment =
  env_shake :: "bytes \<Rightarrow> bytes"
  env_order :: "reward_map \<Rightarrow> reward_map"
  env_iiss :: "string \<Rightarrow> obj kv"
  env_debug :: "debug_response \<Rightarrow> obj"

type_synonym cancellation = "(u64 \<times> (nat \<Rightarrow> nat \<Rightarrow> bool)) option"

section \<open>Handlers\<close>

text \<open>
  The result of a handler: its error, the messages it sent and the manager after it;
  \<open>None\<close> is a panic. A request that does not decode is returned with the task still
  counted.
\<close>

type_synonym sent = "(u64 \<times> u32 \<times> obj) list"
type_synonym handled = "(error option \<times> sent \<times> manager) option"

definition with_request :: "(obj \<Rightarrow> error + 'r) \<Rightarrow> obj \<Rightarrow> manager \<Rightarrow> ('r \<Rightarrow> manager \<Rightarrow> handled) \<Rightarrow> handled" where
  "with_request dec data m k =
     (let m1 = AddMsgTask m in
      case dec data of
        Inl e \<Rightarrow> Some (Some e, [], m1)
      | Inr req \<Rightarrow> k req m1)"

definition sendVersion :: "u64 \<Rightarrow> u32 \<Rightarrow> u64 \<Rightarrow> bytes \<Rightarrow> sent" where
  "sendVersion msg i blockHeight blockHash =
     [(msg, i, enc_ResponseVersion \<lparr>rv_Version = IPCVersion, rv_BlockHeight = blockHeight, rv_BlockHash = blockHash\<rparr>)]"

definition handle_version :: "u32 \<Rightarrow> manager \<Rightarrow> handled" where
  "handle_version i m =
     (let m1 = AddMsgTask m;
          cBI = getCurrentBlockInfo (DB (mgr_ctx m1))
      in Some (None, sendVersion MsgVersion i (bi_BlockHeight cBI) (bi_BlockHash cBI), DoneMsgTask m1))"

definition handle_query :: "u32 \<Rightarrow> obj \<Rightarrow> manager \<Rightarrow> handled" where
  "handle_query i data m = with_request dec_Query data m (\<lambda>req m1.
     case DoQuery (mgr_ctx m1) req of
       None \<Rightarrow> None
     | Some resp \<Rightarrow> Some (None, [(MsgQuery, i, enc_ResponseQuery resp)], DoneMsgTask m1))"

definition handle_init :: "u32 \<Rightarrow> obj \<Rightarrow> manager \<Rightarrow> handled" where
  "handle_init i data m = with_request (\<lambda>d. fld [d] 0 dec_u64 0 0) data m (\<lambda>blockHeight m1.
     case DoInit (mgr_ctx m1) blockHeight of
       Inl _ \<Rightarrow> Some (None, [(MsgINIT, i, enc_ResponseInit \<lparr>ri_Success = False, ri_BlockHeight = blockHeight\<rparr>)], DoneMsgTask m1)
     | Inr ctx' \<Rightarrow>
         Some (None, [(MsgINIT, i, enc_ResponseInit \<lparr>ri_Success = True, ri_BlockHeight = blockHeight\<rparr>)],
               DoneMsgTask (set_ctx ctx' m1)))"

definition handle_claim :: "u32 \<Rightarrow> obj \<Rightarrow> manager \<Rightarrow> handled" where
  "handle_claim i data m = with_request dec_ClaimMessage data m (\<lambda>req m1.
     case DoClaim (mgr_ctx m1) req of
       None \<Rightarrow> None
     | Some ((blockHeight, iScore), ctx') \<Rightarrow>
         Some (None, [(MsgClaim, i, enc_ResponseClaim
                  \<lparr>rc_Claim = req\<lparr>cm_BlockHeight := blockHeight\<rparr>, rc_IScore = (case iScore of None \<Rightarrow> 0 | Some x \<Rightarrow> x)\<rparr>)],
               DoneMsgTask (set_ctx ctx' m1)))"

definition handle_commitClaim :: "u32 \<Rightarrow> obj \<Rightarrow> manager \<Rightarrow> handled" where
  "handle_commitClaim i data m = with_request dec_CommitClaim data m (\<lambda>req m1.
     Some (None, [(MsgCommitClaim, i, ONil)], DoneMsgTask (set_ctx (DoCommitClaim (mgr_ctx m1) req) m1)))"

definition handle_startBlock :: "u32 \<Rightarrow> obj \<Rightarrow> manager \<Rightarrow> handled" where
  "handle_startBlock i data m = with_request dec_StartBlock data m (\<lambda>req m1.
     Some (None, [(MsgStartBlock, i, enc_StartBlock req)],
           DoneMsgTask (set_ctx (do_startBlock (mgr_ctx m1) (sb_BlockHeight req) (sb_BlockHash req)) m1)))"

definition handle_commitBlock :: "u32 \<Rightarrow> obj \<Rightarrow> manager \<Rightarrow> handled" where
  "handle_commitBlock i data m = with_request dec_CommitBlock data m (\<lambda>req m1.
     case do_commitBlock (mgr_ctx m1) req of
       None \<Rightarrow> None
     | Some (resp, ctx') \<Rightarrow> Some (None, [(MsgCommitBlock, i, enc_CommitBlock resp)], DoneMsgTask (set_ctx ctx' m1)))"

definition handle_queryCalculateStatus :: "u32 \<Rightarrow> obj \<Rightarrow> manager \<Rightarrow> handled" where
  "handle_queryCalculateStatus i data m =
     (let m1 = AddMsgTask m in
      case DoQueryCalculateStatus (mgr_ctx m1) of
        (status, h) \<Rightarrow>
          Some (None, [(MsgQueryCalculateStatus, i, enc_QueryCalculateStatusResponse \<lparr>qs_Status = status, qs_BlockHeight = h\<rparr>)],
                DoneMsgTask m1))"

definition handle_queryCalculateResult :: "u32 \<Rightarrow> obj \<Rightarrow> manager \<Rightarrow> handled" where
  "handle_queryCalculateResult i data m = with_request (\<lambda>d. fld [d] 0 dec_u64 0 0) data m (\<lambda>blockHeight m1.
     case DoQueryCalculateResult (mgr_ctx m1) blockHeight of
       None \<Rightarrow> None
     | Some resp \<Rightarrow>
         Some (None, [(MsgQueryCalculateResult, i, enc_QueryCalculateResultResponse resp)], DoneMsgTask m1))"

definition sendCalculateACK :: "u32 \<Rightarrow> u16 \<times> u64 \<Rightarrow> u64 \<times> u32 \<times> obj" where
  "sendCalculateACK i a =
     (case a of (status, h) \<Rightarrow> (MsgCalculate, i, enc_CalculateResponse \<lparr>ca_Status = status, ca_BlockHeight = h\<rparr>))"

text \<open>CALCULATE is acknowledged by \<open>DoCalculate\<close> and always followed by CALCULATE_DONE.\<close>

definition handle_calculate :: "environment \<Rightarrow> cancellation \<Rightarrow> u32 \<Rightarrow> obj \<Rightarrow> manager \<Rightarrow> handled" where
  "handle_calculate env cancel i data m = with_request dec_CalculateRequest data m (\<lambda>req m1.
     case DoCalculate (env_shake env) (env_order env) cancel (env_iiss env) (mgr_ctx m1) req True i of
       None \<Rightarrow> None
     | Some out \<Rightarrow>
         Some (None,
               map (sendCalculateACK i) (co_acks out) @
               [(MsgCalculateDone, 0, enc_CalculateDone
                  \<lparr>cdn_Success = (co_err out = None), cdn_BlockHeight = co_height out,
                   cdn_IScore = (case co_stats out of None \<Rightarrow> 0 | Some s \<Rightarrow> st_TotalReward s), cdn_StateHash = co_hash out\<rparr>)],
               DoneMsgTask (set_ctx (co_ctx out) m1)))"

definition handle_rollback :: "u32 \<Rightarrow> obj \<Rightarrow> manager \<Rightarrow> handled" where
  "handle_rollback i data m = with_request dec_RollBackRequest data m (\<lambda>req m1.
     case DoRollBack (mgr_ctx m1) req of
       None \<Rightarrow> None
     | Some (err, ctx') \<Rightarrow>
         Some (None, [(MsgRollBack, i, enc_RollBackResponse
                  \<lparr>rr_Success = (err = None),
                   rr_Request = req\<lparr>rb_BlockHash := Some (copy_at (replicate BlockHashSize 0) 0 (nonNilBytes (rb_BlockHash req)))\<rparr>\<rparr>)],
               DoneMsgTask (set_ctx ctx' m1)))"

definition handle_debug :: "environment \<Rightarrow> u32 \<Rightarrow> obj \<Rightarrow> manager \<Rightarrow> handled" where
  "handle_debug env i data m = with_request dec_DebugMessage data m (\<lambda>req m1.
     case do_debug req (mgr_ctx m1) of
       None \<Rightarrow> None
     | Some (err, resp, ctx') \<Rightarrow>
         Some (err, (case resp of None \<Rightarrow> [] | Some r \<Rightarrow> [(MsgDebug, i, env_debug env r)]), DoneMsgTask (set_ctx ctx' m1)))"

section \<open>Dispatch\<close>

definition newConnection :: "manager \<Rightarrow> connection \<Rightarrow> connection" where
  "newConnection m c =
     (let cBI = getCurrentBlockInfo (DB (mgr_ctx m));
          msgs = [MsgVersion, MsgQuery, MsgQueryCalculateStatus, MsgQueryCalculateResult] @
            (if monitorMode m then [MsgDebug]
             else [MsgClaim, MsgCalculate, MsgStartBlock, MsgCommitBlock, MsgCommitClaim, MsgRollBack, MsgINIT]);
          c1 = fold Connection_SetHandler msgs c
      in fold (\<lambda>(msg, i, data). Connection_Send msg i data) (sendVersion MsgReady 0 (bi_BlockHeight cBI) (bi_BlockHash cBI)) c1)"

text \<open>The body of the goroutine of a message.\<close>

definition run_handler :: "environment \<Rightarrow> cancellation \<Rightarrow> message \<Rightarrow> manager \<Rightarrow> handled" where
  "run_handler env cancel msg m =
     (let i = m_Id msg; data = m_Data msg in
      if m_Msg msg = MsgVersion then handle_version i m
      else if m_Msg msg = MsgClaim then handle_claim i data m
      else if m_Msg msg = MsgQuery then handle_query i data m
      else if m_Msg msg = MsgCalculate then handle_calculate env cancel i data m
      else if m_Msg msg = MsgStartBlock then handle_startBlock i data m
      else if m_Msg msg = MsgCommitBlock then handle_commitBlock i data m
      else if m_Msg msg = MsgDebug then handle_debug env i data m
      else if m_Msg msg = MsgCommitClaim then handle_commitClaim i data m
      else if m_Msg msg = MsgQueryCalculateStatus then handle_queryCalculateStatus i data m
      else if m_Msg msg = MsgQueryCalculateResult then handle_queryCalculateResult i data m
      else if m_Msg msg = MsgRollBack then handle_rollback i data m
      else if m_Msg msg = MsgINIT then handle_init i data m
      else Some (Some ErrUnknownType, [], m))"

text \<open>What \<^verbatim>\<open>HandleMessage\<close> does with a message: ROLLBACK is handled before the next message is read.\<close>

datatype dispatch = Goroutine | Inline | UnknownMessage

definition HandleMessage :: "u64 \<Rightarrow> dispatch" where
  "HandleMessage msg =
     (if msg = MsgRollBack then Inline
      else if msg \<in> {MsgVersion, MsgClaim, MsgQuery, MsgCalculate, MsgStartBlock, MsgCommitBlock, MsgDebug, MsgCommitClaim,
                     MsgQueryCalculateStatus, MsgQueryCalculateResult, MsgINIT} then Goroutine
      else UnknownMessage)"

section \<open>The service\<close>

record service =
  sv_mgr :: manager
  sv_tasks :: "message list"
  sv_sent :: sent
  sv_reload :: bool

text \<open>
  Steps of the service: a message of a connection starts a goroutine or is handled in place;
  any started goroutine runs; the process stops at any time between handlers and is started
  again on the storage it left, with a goroutine that reruns an interrupted calculation
  (\<^verbatim>\<open>reloadIISSData\<close>, still to run while \<open>sv_reload\<close> holds). A panic ends the process as well: it has no successor but a
  restart from the storage before the handler.
\<close>

inductive service_step :: "environment \<Rightarrow> service \<Rightarrow> service \<Rightarrow> bool" for env where
  start: "HandleMessage (m_Msg msg) = Goroutine \<Longrightarrow>
    service_step env s (s\<lparr>sv_tasks := sv_tasks s @ [msg]\<rparr>)"
| inline: "HandleMessage (m_Msg msg) = Inline \<Longrightarrow> run_handler env None msg (sv_mgr s) = Some (err, out, m') \<Longrightarrow>
    service_step env s (s\<lparr>sv_mgr := m', sv_sent := sv_sent s @ out\<rparr>)"
| run: "sv_tasks s = pre @ msg # post \<Longrightarrow> run_handler env cancel msg (sv_mgr s) = Some (err, out, m') \<Longrightarrow>
    service_step env s (s\<lparr>sv_mgr := m', sv_tasks := pre @ post, sv_sent := sv_sent s @ out\<rparr>)"
| restart: "NewContext (storage_of (mgr_ctx (sv_mgr s))) dbPath dbType dbName dbCount config = Some ctx' \<Longrightarrow>
    service_step env s \<lparr>sv_mgr = \<lparr>monitorMode = mm, mgr_ctx = ctx', waitGroup = 0\<rparr>, sv_tasks = [], sv_sent = [], sv_reload = True\<rparr>"
| reload: "sv_reload s \<Longrightarrow>
    (case reloadIISSData (env_shake env) (env_order env) (env_iiss env) (mgr_ctx (sv_mgr s)) dir of
       None \<Rightarrow> ctx' = mgr_ctx (sv_mgr s) | Some r \<Rightarrow> (\<exists>out. r = Some out \<and> ctx' = co_ctx out)) \<Longrightarrow>
    service_step env s (s\<lparr>sv_mgr := set_ctx ctx' (sv_mgr s), sv_reload := False\<rparr>)"

text \<open>\<^verbatim>\<open>Close\<close> waits for the counter: it returns when no task is counted.\<close>

definition Close_returns :: "manager \<Rightarrow> bool" where
  "Close_returns m \<longleftrightarrow> waitGroup m = 0"

inductive_cases service_stepE: "service_step env s s'"

end
