(* ===== verification/ServiceProps.thy ===== *)
theory ServiceProps
  imports RoundTrips Service
begin

text \<open>
  The invariant of the service: whatever messages arrive, in whatever order their goroutines
  run, with calculations cancelled at any point and the process stopped and started between
  handlers, the governance variables, the candidates and the block heights in memory are the
  ones on disk and the heights are in order.
\<close>

section \<open>The invariant\<close>

definition durable :: "Context \<Rightarrow> bool" where
  "durable ctx \<longleftrightarrow>
     holds PrefixGovernanceVariable gv_BlockHeight GV_Bytes gv_ok (management (DB ctx)) (GV ctx) \<and>
     cands_stored (management (DB ctx)) (PRepCandidates ctx) \<and>
     kv_get PrefixManagement (management (DB ctx)) = Some (DBInfo_Bytes (info (DB ctx))) \<and>
     stored_info_ok ctx \<and> 0 \<le> DBCount (info (DB ctx))"

definition heights_ok :: "DBInfo \<Rightarrow> bool" where
  "heights_ok i \<longleftrightarrow> PrevCalcDone i \<le> CalcDone i \<and> CalcDone i \<le> Calculating i"

definition service_ok :: "Context \<Rightarrow> bool" where
  "service_ok ctx \<longleftrightarrow> durable ctx \<and> heights_ok (info (DB ctx))"

lemma durable_cong:
  assumes "durable ctx" "GV ctx' = GV ctx" "PRepCandidates ctx' = PRepCandidates ctx" "management (DB ctx') = management (DB ctx)"
    "info (DB ctx') = info (DB ctx)"
  shows "durable ctx'"
  using assms by (simp add: durable_def stored_info_ok_def)

lemma durable_writeToDB:
  assumes "durable (ctx\<lparr>DB := idb\<rparr>)" "DBCount i = DBCount (info idb)" "length (bi_BlockHash (Current i)) = BlockHashSize"
  shows "durable (ctx\<lparr>DB := writeToDB (idb\<lparr>info := i\<rparr>)\<rparr>)"
proof -
  let ?db = "Bucket_Set (management idb) PrefixManagement DBInfo_ID (DBInfo_Bytes i)"
  have ok: "kv_ok (management idb)" using assms(1) by (simp add: durable_def holds_def)
  then have sb: "same_but PrefixManagement (management idb) ?db" by (intro same_but_Set [OF ok same_but_refl])
  have get: "kv_get PrefixManagement ?db = Some (DBInfo_Bytes i)" using ok by (simp add: Bucket_Set_def DBInfo_ID_def)
  have "kv_ok ?db" using ok by simp
  then have "holds PrefixGovernanceVariable gv_BlockHeight GV_Bytes gv_ok ?db (GV ctx)"
    using assms(1) by (auto simp: durable_def intro: holds_cong [OF _ _ sb])
  then show ?thesis
    using assms cands_stored_cong [OF _ sb] get by (simp add: durable_def writeToDB_def stored_info_ok_def info_ok_def)
qed

lemma durable_hash: "durable ctx \<Longrightarrow> length (bi_BlockHash (Current (info (DB ctx)))) = BlockHashSize"
  by (simp add: durable_def stored_info_ok_def info_ok_def)

lemma length_copy_at_any [simp]: "length (copy_at d n s) = length d"
  by (simp add: copy_at_def)

text \<open>Every update of the block heights writes them through.\<close>

lemma durable_heights:
  assumes "durable (ctx\<lparr>DB := idb\<rparr>)"
  shows "durable (ctx\<lparr>DB := setCalculatingBH h idb\<rparr>)" "durable (ctx\<lparr>DB := resetCalculatingBH idb\<rparr>)"
    "durable (ctx\<lparr>DB := toggleAccountDB h idb\<rparr>)" "durable (ctx\<lparr>DB := setCurrentBlockInfo h b idb\<rparr>)"
    "durable (ctx\<lparr>DB := setCalcDoneBH h idb\<rparr>)" "durable (ctx\<lparr>DB := rollbackAccountDBBlockInfo idb\<rparr>)"
proof -
  note w = durable_writeToDB [OF assms] and len = durable_hash [OF assms]
  show "durable (ctx\<lparr>DB := setCalculatingBH h idb\<rparr>)" "durable (ctx\<lparr>DB := resetCalculatingBH idb\<rparr>)"
    "durable (ctx\<lparr>DB := setCalcDoneBH h idb\<rparr>)" "durable (ctx\<lparr>DB := rollbackAccountDBBlockInfo idb\<rparr>)"
    using len by (simp_all add: setCalculatingBH_def resetCalculatingBH_def setCalcDoneBH_def rollbackAccountDBBlockInfo_def w)
  show "durable (ctx\<lparr>DB := toggleAccountDB h idb\<rparr>)" using assms len by (simp add: toggleAccountDB_def w)
  show "durable (ctx\<lparr>DB := setCurrentBlockInfo h b idb\<rparr>)"
    using len by (simp add: setCurrentBlockInfo_def BlockInfo_set_def w)
qed

lemma durable_rollbackCurrentBlockInfo:
  assumes "durable (ctx\<lparr>DB := idb\<rparr>)"
  shows "durable (ctx\<lparr>DB := rollbackCurrentBlockInfo h b idb\<rparr>)"
proof -
  let ?idb = "setCurrentBlockInfo h b idb"
  have d: "durable (ctx\<lparr>DB := ?idb\<rparr>)" by (rule durable_heights [OF assms])
  from durable_writeToDB [OF d, of "info ?idb"] durable_hash [OF d]
  show ?thesis by (simp add: rollbackCurrentBlockInfo_def)
qed

text \<open>Changes outside the management database.\<close>

lemma durable_outside:
  assumes "durable (ctx\<lparr>DB := idb\<rparr>)" "management idb' = management idb" "info idb' = info idb"
  shows "durable (ctx\<lparr>DB := idb'\<rparr>)"
  using assms by (intro durable_cong [OF assms(1)]) simp_all

lemma durable_UpdateGovernanceVariable:
  assumes "durable ctx"
  shows "durable (UpdateGovernanceVariable l ctx)"
proof -
  obtain gvs db where u: "update_gv l (GV ctx) (management (DB ctx)) = (gvs, db)" by (cases "update_gv l (GV ctx) (management (DB ctx))")
  have h: "holds PrefixGovernanceVariable gv_BlockHeight GV_Bytes gv_ok db gvs" "same_but PrefixGovernanceVariable (management (DB ctx)) db"
    using update_gv_holds [OF _ u] assms by (simp_all add: durable_def)
  have key: "GV_ID = (\<lambda>gv. bh_key (gv_BlockHeight gv))" by (simp add: GV_ID_def fun_eq_iff)
  obtain n db' where d: "delete_old gv_BlockHeight GV_ID PrefixGovernanceVariable (getPrevCalcDoneBH (DB ctx)) gvs db = (drop n gvs, db')"
    "holds PrefixGovernanceVariable gv_BlockHeight GV_Bytes gv_ok db' (drop n gvs)" "same_but PrefixGovernanceVariable db db'"
    using gvs.delete_old_holds [OF h(1)] unfolding key by blast
  have sb: "same_but PrefixGovernanceVariable (management (DB ctx)) db'" using h(2) d(3) by (rule same_but_trans)
  show ?thesis
    using assms d(2) cands_stored_cong [OF _ sb] info_cong [OF sb]
    by (simp add: UpdateGovernanceVariable_def u d(1) durable_def stored_info_ok_def)
qed

lemma durable_UpdatePRepCandidate:
  assumes "durable ctx"
  shows "durable (UpdatePRepCandidate iissDB ctx)"
proof -
  obtain cs db where u: "update_candidates zero_IISSTX (Iterator_prefix iissDB PrefixIISSTX) (PRepCandidates ctx, management (DB ctx)) = (cs, db)"
    by (cases "update_candidates zero_IISSTX (Iterator_prefix iissDB PrefixIISSTX) (PRepCandidates ctx, management (DB ctx))")
  have c: "cands_stored db cs" "kv_ok db" "same_but PrefixPRepCandidate (management (DB ctx)) db"
    using update_candidates_stored [OF _ _ _ u] assms zero_address_ok by (simp_all add: durable_def holds_def zero_IISSTX_def)
  have "holds PrefixGovernanceVariable gv_BlockHeight GV_Bytes gv_ok db (GV ctx)"
    using assms by (auto simp: durable_def intro: holds_cong [OF _ c(2,3)])
  then show ?thesis
    using assms c info_cong [OF c(3)] by (simp add: UpdatePRepCandidate_def u durable_def stored_info_ok_def)
qed

text \<open>The P-Rep lists may be anything: only their own prefix changes.\<close>

lemma same_but_fold_Set: "kv_ok db \<Longrightarrow> same_but p db (fold (\<lambda>x db. Bucket_Set db p (f x) (g x)) xs db) \<and>
    kv_ok (fold (\<lambda>x db. Bucket_Set db p (f x) (g x)) xs db)"
  by (induction xs arbitrary: db) (auto intro: same_but_Set)

lemma kv_ok_fold_Delete: "kv_ok db \<Longrightarrow> kv_ok (fold (\<lambda>x db. Bucket_Delete db p (f x)) xs db)"
  by (induction xs arbitrary: db) auto

lemma delete_old_other:
  assumes "delete_old height key p h xs db = (xs', db')" "kv_ok db"
  shows "same_but p db db' \<and> kv_ok db'"
  using assms same_but_fold_Delete kv_ok_fold_Delete by (auto simp: delete_old_def split: option.splits)

lemma rollback_loop_other:
  assumes "rollback_loop height key p h n xs db = (xs', db')" "kv_ok db"
  shows "same_but p db db' \<and> kv_ok db'"
  using assms
proof (induction n arbitrary: xs db)
  case (Suc n)
  then show ?case by (auto split: if_splits intro: same_but_Delete)
qed simp

lemma durable_prep:
  assumes "durable ctx" "same_but PrefixPRep (management (DB ctx)) db" "kv_ok db"
  shows "durable (ctx\<lparr>PReps := ps, DB := (DB ctx)\<lparr>management := db\<rparr>\<rparr>)"
  using assms cands_stored_cong [OF _ assms(2)] info_cong [OF assms(2)]
  by (auto simp: durable_def stored_info_ok_def intro: holds_cong [OF _ assms(3,2)])

lemma durable_UpdatePRep:
  assumes "durable ctx"
  shows "durable (UpdatePRep l ctx)"
proof -
  let ?db = "fold (\<lambda>p db. Bucket_Set db PrefixPRep (PRep_ID p) (PRep_Bytes p)) l (management (DB ctx))"
  have ok: "kv_ok (management (DB ctx))" using assms by (simp add: durable_def holds_def)
  obtain ps db' where d: "delete_old pr_BlockHeight PRep_ID PrefixPRep (getPrevCalcDoneBH (DB ctx)) (PReps ctx @ l) ?db = (ps, db')"
    by (cases "delete_old pr_BlockHeight PRep_ID PrefixPRep (getPrevCalcDoneBH (DB ctx)) (PReps ctx @ l) ?db")
  have f: "same_but PrefixPRep (management (DB ctx)) ?db \<and> kv_ok ?db" by (rule same_but_fold_Set [OF ok])
  with delete_old_other [OF d] have "same_but PrefixPRep (management (DB ctx)) db'" "kv_ok db'" using same_but_trans by blast+
  then show ?thesis using durable_prep [OF assms] by (simp only: UpdatePRep_def Let_def d prod.case)
qed

lemma durable_RollbackManagementDB:
  assumes "durable ctx"
  shows "durable (RollbackManagementDB h ctx)"
proof -
  let ?gvs = "filter (\<lambda>gv. gv_BlockHeight gv \<le> h) (GV ctx)"
  have key: "GV_ID = (\<lambda>gv. bh_key (gv_BlockHeight gv))" by (simp add: GV_ID_def fun_eq_iff)
  obtain db1 where g: "rollback_loop gv_BlockHeight GV_ID PrefixGovernanceVariable h (length (GV ctx)) (GV ctx) (management (DB ctx)) = (?gvs, db1)"
    "holds PrefixGovernanceVariable gv_BlockHeight GV_Bytes gv_ok db1 ?gvs" "same_but PrefixGovernanceVariable (management (DB ctx)) db1"
    using gvs.rollback_holds [of "management (DB ctx)" "GV ctx" h] assms unfolding key by (auto simp: durable_def)
  obtain ps db2 where p: "rollback_loop pr_BlockHeight PRep_ID PrefixPRep h (length (PReps ctx)) (PReps ctx) db1 = (ps, db2)"
    by (cases "rollback_loop pr_BlockHeight PRep_ID PrefixPRep h (length (PReps ctx)) (PReps ctx) db1")
  have d1: "durable (ctx\<lparr>GV := ?gvs, DB := (DB ctx)\<lparr>management := db1\<rparr>\<rparr>)"
    using assms g(2) cands_stored_cong [OF _ g(3)] info_cong [OF g(3)] by (simp add: durable_def stored_info_ok_def)
  from durable_prep [OF d1, of db2 ps] rollback_loop_other [OF p holds_kv_ok [OF g(2)]]
  show ?thesis by (simp add: RollbackManagementDB_def g(1) p)
qed

section \<open>CALCULATE\<close>

lemma run_calculation_fields:
  assumes "run_calculation shake order cancel iissDB h ctx = Some (err, st, hash, ctx')"
  shows "GV ctx' = GV ctx \<and> PRepCandidates ctx' = PRepCandidates ctx \<and> management (DB ctx') = management (DB ctx) \<and>
    info (DB ctx') = info (DB ctx)"
proof (cases cancel)
  case None
  then have "calc_frame (set (GetCalcDBList (DB ctx))) ctx ctx'" using run_calculation_frame assms by blast
  then have "(DB ctx')\<lparr>dirs := []\<rparr> = (DB ctx)\<lparr>dirs := []\<rparr>" "GV ctx' = GV ctx" "PRepCandidates ctx' = PRepCandidates ctx"
    by (simp_all add: calc_frame_def)
  then show ?thesis by (metis IScoreDB.select_convs(1,2) IScoreDB.surjective IScoreDB.update_convs(7))
next
  case (Some c)
  obtain code q where c: "c = (code, q)" by (cases c)
  then obtain rs ctx1 where "shards_loop shake q h (getQueryDBList (DB ctx)) 0 (GetCalcDBList (DB ctx)) ctx = Some (rs, ctx1)"
    and ctx': "GV ctx' = GV ctx1" "PRepCandidates ctx' = PRepCandidates ctx1" "DB ctx' = DB ctx1"
    using assms Some by (auto simp: run_calculation_def Let_def split: option.splits)
  then have "calc_frame (set (GetCalcDBList (DB ctx))) ctx ctx1" using shards_loop_frame by blast
  then have "(DB ctx1)\<lparr>dirs := []\<rparr> = (DB ctx)\<lparr>dirs := []\<rparr>" "GV ctx1 = GV ctx" "PRepCandidates ctx1 = PRepCandidates ctx"
    by (simp_all add: calc_frame_def)
  then show ?thesis unfolding ctx' by (metis IScoreDB.select_convs(1,2) IScoreDB.surjective IScoreDB.update_convs(7))
qed

lemma finish_calculation_fields:
  assumes "finish_calculation h st hash ctx = Some ctx'"
  shows "GV ctx' = GV ctx \<and> PRepCandidates ctx' = PRepCandidates ctx"
  using assms
  by (auto simp: finish_calculation_def WriteCalcDebugResult_def ResetCalcDebugResults_def upd_results_def upd_result_def
      Let_def bind_eq_Some_conv split: if_splits option.splits)

lemma service_ok_start:
  assumes "durable ctx"
  shows "durable (UpdatePRepCandidate db (UpdatePRep prl (UpdateGovernanceVariable gvl
      (ctx\<lparr>DB := snd (resetAccountDB h g (toggleAccountDB t (setCalculatingBH h (DB ctx)))), Revision := r\<rparr>))))"
proof -
  let ?idb = "toggleAccountDB t (setCalculatingBH h (DB ctx))"
  have "durable (ctx\<lparr>DB := DB ctx\<rparr>)" using assms by simp
  then have "durable (ctx\<lparr>DB := ?idb\<rparr>)" by (intro durable_heights)
  then have "durable (ctx\<lparr>DB := snd (resetAccountDB h g ?idb), Revision := r\<rparr>)"
    by (rule durable_cong) (simp_all add: info_resetAccountDB)
  then show ?thesis by (intro durable_UpdatePRepCandidate durable_UpdatePRep durable_UpdateGovernanceVariable)
qed

text \<open>The two ways a CALCULATE ends: refused by one of the checks, or run.\<close>

lemma DoCalculate_cases:
  assumes "DoCalculate shake order cancel iiss ctx req conn msg_id = Some out"
  obtains
    (refused) status e idb where "status \<noteq> CalcRespStatusOK" "co_acks out = (if conn then [(status, co_height out)] else [])"
      "co_err out = Some e" "e \<in> {ErrCalculating, ErrInvalidData, ErrDuplicateBH, ErrTooLowBH}" "co_stats out = None" "co_hash out = None"
      "co_ctx out = ctx\<lparr>DB := idb\<rparr>"
      "idb = DB ctx \<or> idb = resetCalculatingBH (DB ctx) \<or> idb = resetCalculatingBH (setCalculatingBH (co_height out) (DB ctx))"
  | (ran) header gvl prl idb ctx3 err st hash ctx4 where "LoadIISSData (iiss (cq_Path req)) = Some (header, gvl, prl)"
      "getCalcDoneBH (DB ctx) < co_height out" "idb = toggleAccountDB (co_height out + 1) (setCalculatingBH (co_height out) (DB ctx))"
      "InitCalcDebugResult (co_height out) (cq_BlockHash req) (UpdatePRepCandidate (iiss (cq_Path req)) (UpdatePRep prl
        (UpdateGovernanceVariable gvl (ctx\<lparr>DB := snd (resetAccountDB (co_height out) (getCalcDoneBH idb) idb), Revision := ih_Revision header\<rparr>)))) =
          Some ctx3"
      "run_calculation shake order cancel (iiss (cq_Path req)) (co_height out) ctx3 = Some (err, st, hash, ctx4)"
      "co_acks out = (if conn then [(CalcRespStatusOK, co_height out)] else [])"
      "case hash of None \<Rightarrow> co_ctx out = ctx4 \<and> co_err out = err \<and> co_stats out = None \<and> co_hash out = None
       | Some hh \<Rightarrow> finish_calculation (co_height out) st hh ctx4 = Some (co_ctx out) \<and> co_err out = None \<and> co_stats out = st \<and> co_hash out = hash"
proof -
  let ?busy = "\<not> isReloadRequest (cq_BlockHeight req) msg_id \<and> isCalculating (DB ctx)"
  have st: "CalcRespStatusDoing \<noteq> CalcRespStatusOK" "CalcRespStatusInvalidData \<noteq> CalcRespStatusOK"
    "CalcRespStatusDuplicateBH \<noteq> CalcRespStatusOK" "CalcRespStatusInvalidBH \<noteq> CalcRespStatusOK"
    by (simp_all add: CalcRespStatusOK_def CalcRespStatusDoing_def CalcRespStatusInvalidData_def CalcRespStatusDuplicateBH_def
        CalcRespStatusInvalidBH_def)
  show thesis
  proof (cases ?busy)
    case True
    then show thesis using assms refused [OF st(1), of ErrCalculating "DB ctx"] by (auto simp: DoCalculate_def)
  next
    case nb: False
    show thesis
    proof (cases "LoadIISSData (iiss (cq_Path req))")
      case None
      with nb show thesis using assms refused [OF st(2), of ErrInvalidData "resetCalculatingBH (DB ctx)"] by (auto simp: DoCalculate_def)
    next
      case (Some x)
      obtain header gvl prl where load: "LoadIISSData (iiss (cq_Path req)) = Some (header, gvl, prl)" using Some by (cases x) auto
      define h where "h = (if ih_BlockHeight header = 0 then getCalcDoneBH (DB ctx) + 1 else ih_BlockHeight header)"
      have cd: "getCalcDoneBH (setCalculatingBH h (DB ctx)) = getCalcDoneBH (DB ctx)"
        by (simp add: setCalculatingBH_def getCalcDoneBH_def)
      note run = assms [unfolded DoCalculate_def Let_def if_not_P [OF nb] load option.case prod.case h_def [symmetric] cd]
      consider "h = getCalcDoneBH (DB ctx)" | "h \<noteq> getCalcDoneBH (DB ctx)" "h < getCalcDoneBH (DB ctx)"
        | "h \<noteq> getCalcDoneBH (DB ctx)" "\<not> h < getCalcDoneBH (DB ctx)" by blast
      then show thesis
      proof cases
        case 1
        then show thesis using run refused [OF st(3), of ErrDuplicateBH "resetCalculatingBH (setCalculatingBH h (DB ctx))"] by auto
      next
        case 2
        then show thesis using run refused [OF st(4), of ErrTooLowBH "resetCalculatingBH (setCalculatingBH h (DB ctx))"] by auto
      next
        case 3
        then have lt: "getCalcDoneBH (DB ctx) < h" by simp
        note run = run [unfolded if_not_P [OF 3(1)] if_not_P [OF 3(2)]]
        let ?idb2 = "toggleAccountDB (h + 1) (setCalculatingBH h (DB ctx))"
        obtain ctx3 err st hash ctx4 where i: "InitCalcDebugResult h (cq_BlockHash req) (UpdatePRepCandidate (iiss (cq_Path req)) (UpdatePRep prl
            (UpdateGovernanceVariable gvl (ctx\<lparr>DB := snd (resetAccountDB h (getCalcDoneBH ?idb2) ?idb2), Revision := ih_Revision header\<rparr>)))) = Some ctx3"
          and r: "run_calculation shake order cancel (iiss (cq_Path req)) h ctx3 = Some (err, st, hash, ctx4)"
          using run by (auto split: option.splits)
        have h: "co_height out = h" using run by (auto simp: i r split: option.splits)
        have a: "co_acks out = (if conn then [(CalcRespStatusOK, h)] else [])" using run by (auto simp: i r split: option.splits)
        have f: "case hash of None \<Rightarrow> co_ctx out = ctx4 \<and> co_err out = err \<and> co_stats out = None \<and> co_hash out = None
            | Some hh \<Rightarrow> finish_calculation h st hh ctx4 = Some (co_ctx out) \<and> co_err out = None \<and> co_stats out = st \<and> co_hash out = hash"
          using run by (auto simp: i r split: option.splits)
        show thesis by (rule ran [unfolded h, OF load lt HOL.refl i r a f])
      qed
    qed
  qed
qed

lemma DoCalculate_service_ok:
  assumes "service_ok ctx" "DoCalculate shake order cancel iiss ctx req conn msg_id = Some out"
  shows "service_ok (co_ctx out)"
proof -
  have d: "durable ctx" and ho: "heights_ok (info (DB ctx))" using assms(1) by (simp_all add: service_ok_def)
  have dd: "durable (ctx\<lparr>DB := DB ctx\<rparr>)" using d by simp
  from assms(2) show ?thesis
  proof (cases rule: DoCalculate_cases)
    case (refused status e idb)
    have "durable (ctx\<lparr>DB := resetCalculatingBH (DB ctx)\<rparr>)" "durable (ctx\<lparr>DB := resetCalculatingBH (setCalculatingBH h (DB ctx))\<rparr>)" for h
      by (intro durable_heights dd)+
    with refused(8) d ho show ?thesis
      by (auto simp: refused(7) service_ok_def heights_ok_def resetCalculatingBH_def setCalculatingBH_def)
  next
    case (ran header gvl prl idb ctx3 err st hash ctx4)
    note core = same_core_fields [OF same_core_InitCalcDebugResult [OF ran(4)]]
    have d2: "durable (UpdatePRepCandidate (iiss (cq_Path req)) (UpdatePRep prl (UpdateGovernanceVariable gvl
        (ctx\<lparr>DB := snd (resetAccountDB (co_height out) (getCalcDoneBH idb) idb), Revision := ih_Revision header\<rparr>))))"
      unfolding ran(3) by (rule service_ok_start [OF d])
    have d3: "durable ctx3" using core by (intro durable_cong [OF d2]) simp_all
    have d4: "durable ctx4" using run_calculation_fields [OF ran(5)] by (intro durable_cong [OF d3]) simp_all
    have "info (DB ctx4) = info idb" using run_calculation_fields [OF ran(5)] core by (simp add: info_resetAccountDB)
    then have i4: "CalcDone (info (DB ctx4)) = CalcDone (info (DB ctx))" "PrevCalcDone (info (DB ctx4)) = PrevCalcDone (info (DB ctx))"
      "Calculating (info (DB ctx4)) = co_height out"
      by (simp_all add: ran(3) toggleAccountDB_def setCalculatingBH_def)
    have lt: "CalcDone (info (DB ctx)) < co_height out" using ran(2) by (simp add: getCalcDoneBH_def)
    show ?thesis
    proof (cases hash)
      case None
      then show ?thesis using ran(7) d4 i4 lt ho by (simp add: service_ok_def heights_ok_def)
    next
      case (Some hh)
      then have f: "finish_calculation (co_height out) st hh ctx4 = Some (co_ctx out)" using ran(7) by simp
      note db = finish_calculation_DB [OF f]
      have "durable (ctx4\<lparr>DB := setCalcDoneBH (co_height out) (DB ctx4)\<rparr>)" using d4 by (intro durable_heights) simp
      then have "durable (co_ctx out)" by (rule durable_cong) (use finish_calculation_fields [OF f] in \<open>simp_all add: db\<close>)
      moreover have "heights_ok (info (DB (co_ctx out)))" using i4 lt by (simp add: db setCalcDoneBH_def heights_ok_def)
      ultimately show ?thesis by (simp add: service_ok_def)
    qed
  qed
qed

section \<open>The other messages\<close>

lemma service_ok_cong:
  assumes "service_ok ctx" "GV ctx' = GV ctx" "PRepCandidates ctx' = PRepCandidates ctx" "management (DB ctx') = management (DB ctx)"
    "info (DB ctx') = info (DB ctx)"
  shows "service_ok ctx'"
  using assms durable_cong by (auto simp: service_ok_def)

lemma service_ok_set_preCommit: "service_ok ctx \<Longrightarrow> service_ok (set_preCommit m ctx)"
  by (erule service_ok_cong) (simp_all add: set_preCommit_def)

lemma DoClaim_service_ok: "service_ok ctx \<Longrightarrow> DoClaim ctx req = Some (r, ctx') \<Longrightarrow> service_ok ctx'"
  by (auto simp: DoClaim_def Let_def service_ok_set_preCommit split: prod.splits bool.splits option.splits sum.splits if_splits)

lemma DoCommitClaim_service_ok: "service_ok ctx \<Longrightarrow> service_ok (DoCommitClaim ctx req)"
  by (auto simp: DoCommitClaim_def Let_def service_ok_set_preCommit split: sum.splits)

lemma do_startBlock_service_ok: "service_ok ctx \<Longrightarrow> service_ok (do_startBlock ctx h b)"
  by (simp add: do_startBlock_def service_ok_set_preCommit)

lemma DoInit_service_ok: "service_ok ctx \<Longrightarrow> DoInit ctx h = Inr ctx' \<Longrightarrow> service_ok ctx'"
  by (auto simp: DoInit_def Let_def service_ok_set_preCommit split: if_splits)

lemma service_ok_claims: "service_ok ctx \<Longrightarrow> service_ok (ctx\<lparr>DB := (DB ctx)\<lparr>claims := c\<rparr>\<rparr>)"
  by (erule service_ok_cong) simp_all

lemma service_ok_setCurrentBlockInfo:
  assumes "service_ok (ctx\<lparr>DB := idb\<rparr>)"
  shows "service_ok (ctx\<lparr>DB := setCurrentBlockInfo h b idb\<rparr>)" "service_ok (ctx\<lparr>DB := rollbackCurrentBlockInfo h b idb\<rparr>)"
proof -
  have "durable (ctx\<lparr>DB := idb\<rparr>)" using assms by (simp add: service_ok_def)
  then show "service_ok (ctx\<lparr>DB := setCurrentBlockInfo h b idb\<rparr>)" "service_ok (ctx\<lparr>DB := rollbackCurrentBlockInfo h b idb\<rparr>)"
    using assms durable_heights(4) durable_rollbackCurrentBlockInfo
    by (auto simp: service_ok_def heights_ok_def rollbackCurrentBlockInfo_def setCurrentBlockInfo_def writeToDB_def)
qed

lemma do_commitBlock_service_ok: "service_ok ctx \<Longrightarrow> do_commitBlock ctx req = Some (resp, ctx') \<Longrightarrow> service_ok ctx'"
  using service_ok_claims service_ok_setCurrentBlockInfo(1) [of "(DB ctx)\<lparr>claims := dbs\<rparr>" ctx for dbs]
  by (auto simp: do_commitBlock_def Let_def service_ok_set_preCommit split: if_splits option.splits)

lemma rollbackClaimDB_service_ok:
  assumes "service_ok ctx" "rollbackClaimDB h b (DB ctx) = Some (e, idb)"
  shows "service_ok (ctx\<lparr>DB := idb\<rparr>)"
proof -
  have "service_ok (ctx\<lparr>DB := rollbackCurrentBlockInfo h b ((DB ctx)\<lparr>claims := c\<rparr>)\<rparr>)" for c
    by (intro service_ok_setCurrentBlockInfo service_ok_claims assms(1))
  then show ?thesis
    using assms by (auto simp: rollbackClaimDB_def split: option.splits sum.splits prod.splits bool.splits)
qed

lemma rollbackAccountDB_service_ok:
  assumes "service_ok (ctx\<lparr>DB := idb\<rparr>)" "rollbackAccountDB h idb = Some (e, idb')"
  shows "service_ok (ctx\<lparr>DB := idb'\<rparr>)"
proof -
  have outside: "durable (ctx\<lparr>DB := x\<rparr>)" if "management x = management idb" "info x = info idb" for x
    using durable_outside [of idb ctx x] assms(1) that by (simp add: service_ok_def)
  obtain e1 d where rb: "rollback_backups (info idb) (if QueryDBIsZero (info idb) then 1 else 0) (disk_glob is_backup (dirs idb))
      (dirs (CloseAccountDB idb)) = (e1, d)"
    by (cases "rollback_backups (info idb) (if QueryDBIsZero (info idb) then 1 else 0) (disk_glob is_backup (dirs idb)) (dirs (CloseAccountDB idb))")
  show ?thesis
  proof (cases e1)
    case (Some x)
    then have "idb' = (CloseAccountDB idb)\<lparr>dirs := d\<rparr>" using assms(2) rb by (simp add: rollbackAccountDB_def Let_def)
    then show ?thesis using outside [of idb'] assms(1) by (simp add: service_ok_def CloseAccountDB_def)
  next
    case None
    then obtain idb2 where idb2: "OpenAccountDB ((CloseAccountDB idb)\<lparr>dirs := d\<rparr>) = Some idb2"
      and idb': "idb' = (let idb3 = toggleAccountDB h idb2 in
        rollbackAccountDBBlockInfo (idb3\<lparr>calcResult := DeleteCalculationResult (calcResult idb3) (getCalcDoneBH idb3)\<rparr>))"
      using assms(2) rb by (auto simp: rollbackAccountDB_def Let_def split: option.splits)
    have "management idb2 = management idb" "info idb2 = info idb"
      using idb2 by (auto simp: OpenAccountDB_def CloseAccountDB_def split: if_splits)
    then have d3: "durable (ctx\<lparr>DB := toggleAccountDB h idb2\<rparr>)" by (intro durable_heights outside)
    let ?idb4 = "(toggleAccountDB h idb2)\<lparr>calcResult := DeleteCalculationResult (calcResult (toggleAccountDB h idb2)) (getCalcDoneBH (toggleAccountDB h idb2))\<rparr>"
    have "durable (ctx\<lparr>DB := ?idb4\<rparr>)" by (rule durable_outside [OF d3]) simp_all
    then have "durable (ctx\<lparr>DB := idb'\<rparr>)" unfolding idb' Let_def by (rule durable_heights)
    moreover have "heights_ok (info idb')"
      by (simp add: idb' heights_ok_def rollbackAccountDBBlockInfo_def Let_def)
    ultimately show ?thesis by (simp add: service_ok_def)
  qed
qed

lemma DoRollBack_service_ok:
  assumes "service_ok ctx" "DoRollBack ctx req = Some (e, ctx')"
  shows "service_ok ctx'"
proof (cases "checkRollback ctx (rb_BlockHeight req)")
  case (Some x)
  then show ?thesis using assms by (simp add: DoRollBack_def Let_def)
next
  case None
  let ?ctx1 = "ctx\<lparr>Cancel := notifyRollback (Cancel ctx)\<rparr>"
  have ok1: "service_ok ?ctx1" by (rule service_ok_cong [OF assms(1)]) simp_all
  obtain e1 idb where c: "rollbackClaimDB (rb_BlockHeight req) (nonNilBytes (rb_BlockHash req)) (DB ?ctx1) = Some (e1, idb)"
    using assms(2) None by (auto simp: DoRollBack_def Let_def split: option.splits)
  have ok2: "service_ok (?ctx1\<lparr>DB := idb\<rparr>)" by (rule rollbackClaimDB_service_ok [OF ok1 c])
  have mng: "service_ok (RollbackManagementDB h x)" if "service_ok x" for h x
    using that durable_RollbackManagementDB [of x h]
    by (simp add: service_ok_def RollbackManagementDB_def split: prod.splits)
  show ?thesis
    using assms(2) None c ok2 rollbackAccountDB_service_ok [OF ok2] mng
    by (auto simp: DoRollBack_def Let_def split: option.splits if_splits)
qed

lemma do_debug_service_ok:
  assumes "service_ok ctx" "do_debug req ctx = Some (e, r, ctx')"
  shows "service_ok ctx'"
proof -
  have "DB ctx' = DB ctx \<and> GV ctx' = GV ctx \<and> PRepCandidates ctx' = PRepCandidates ctx"
    using assms(2)
    by (auto simp: do_debug_def Let_def handleCalcDebugFlagOn_def handleCalcDebugFlagOff_def handleCalcDebugAddAddress_def
        handleCalcDebugDeleteAddress_def DeleteDebuggingAddress_def AddDebuggingAddress_def set_debug_flag_def upd_results_def
        upd_result_def bind_eq_Some_conv split: if_splits option.splits)
  then show ?thesis by (intro service_ok_cong [OF assms(1)]) simp_all
qed

section \<open>Handlers and steps\<close>

lemma task_ctx [simp]: "mgr_ctx (AddMsgTask m) = mgr_ctx m" "mgr_ctx (DoneMsgTask m) = mgr_ctx m" "mgr_ctx (set_ctx ctx m) = ctx"
  by (simp_all add: AddMsgTask_def DoneMsgTask_def set_ctx_def)

lemma with_request_ok:
  assumes "with_request dec data m k = Some (e, out, m')" "service_ok (mgr_ctx m)"
    and "\<And>req. k req (AddMsgTask m) = Some (e, out, m') \<Longrightarrow> service_ok (mgr_ctx m')"
  shows "service_ok (mgr_ctx m')"
  using assms by (auto simp: with_request_def Let_def split: sum.splits)

lemma run_handler_ok:
  assumes "run_handler env cancel msg m = Some (e, out, m')" "service_ok (mgr_ctx m)"
  shows "service_ok (mgr_ctx m')"
proof -
  note w = with_request_ok [OF _ assms(2)]
  have "service_ok (mgr_ctx m')" if "handle_version i m = Some (e, out, m')" for i
    using that assms(2) by (auto simp: handle_version_def Let_def)
  moreover have "service_ok (mgr_ctx m')" if "handle_query i d m = Some (e, out, m')" for i d
    by (rule w [OF that [unfolded handle_query_def]]) (use assms(2) in \<open>auto split: option.splits\<close>)
  moreover have "service_ok (mgr_ctx m')" if "handle_init i d m = Some (e, out, m')" for i d
    by (rule w [OF that [unfolded handle_init_def]]) (use assms(2) in \<open>auto split: sum.splits intro: DoInit_service_ok\<close>)
  moreover have "service_ok (mgr_ctx m')" if "handle_claim i d m = Some (e, out, m')" for i d
    by (rule w [OF that [unfolded handle_claim_def]]) (use assms(2) in \<open>auto split: option.splits intro: DoClaim_service_ok\<close>)
  moreover have "service_ok (mgr_ctx m')" if "handle_commitClaim i d m = Some (e, out, m')" for i d
    by (rule w [OF that [unfolded handle_commitClaim_def]]) (use assms(2) in \<open>auto intro: DoCommitClaim_service_ok\<close>)
  moreover have "service_ok (mgr_ctx m')" if "handle_startBlock i d m = Some (e, out, m')" for i d
    by (rule w [OF that [unfolded handle_startBlock_def]]) (use assms(2) in \<open>auto intro: do_startBlock_service_ok\<close>)
  moreover have "service_ok (mgr_ctx m')" if "handle_commitBlock i d m = Some (e, out, m')" for i d
    by (rule w [OF that [unfolded handle_commitBlock_def]]) (use assms(2) in \<open>auto split: option.splits intro: do_commitBlock_service_ok\<close>)
  moreover have "service_ok (mgr_ctx m')" if "handle_queryCalculateStatus i d m = Some (e, out, m')" for i d
    using that assms(2) by (auto simp: handle_queryCalculateStatus_def Let_def split: prod.splits)
  moreover have "service_ok (mgr_ctx m')" if "handle_queryCalculateResult i d m = Some (e, out, m')" for i d
    by (rule w [OF that [unfolded handle_queryCalculateResult_def]]) (use assms(2) in \<open>auto split: option.splits\<close>)
  moreover have "service_ok (mgr_ctx m')" if "handle_calculate env cancel i d m = Some (e, out, m')" for i d
    by (rule w [OF that [unfolded handle_calculate_def]]) (use assms(2) in \<open>auto split: option.splits intro: DoCalculate_service_ok\<close>)
  moreover have "service_ok (mgr_ctx m')" if "handle_rollback i d m = Some (e, out, m')" for i d
    by (rule w [OF that [unfolded handle_rollback_def]]) (use assms(2) in \<open>auto split: option.splits intro: DoRollBack_service_ok\<close>)
  moreover have "service_ok (mgr_ctx m')" if "handle_debug env i d m = Some (e, out, m')" for i d
    by (rule w [OF that [unfolded handle_debug_def]]) (use assms(2) in \<open>auto split: option.splits intro: do_debug_service_ok\<close>)
  ultimately show ?thesis
    using assms by (auto simp: run_handler_def Let_def split: if_splits)
qed

text \<open>A restart of a durable context.\<close>

lemma distinct_LoadPRepCandidate_loop:
  "LoadPRepCandidate_loop m es = Some m' \<Longrightarrow> distinct (map fst m) \<Longrightarrow> distinct (map fst m')"
  by (induction m es rule: LoadPRepCandidate_loop.induct) (auto simp: distinct_update split: option.splits)

lemma durable_restart:
  assumes "durable ctx"
  shows "\<exists>ctx'. NewContext (storage_of ctx) dbPath dbType dbName dbCount config = Some ctx' \<and> durable ctx' \<and>
    GV ctx' = GV ctx \<and> map_of (PRepCandidates ctx') = map_of (PRepCandidates ctx) \<and>
    info (DB ctx') = (info (DB ctx))\<lparr>DBRoot := path_join dbPath dbName, DBType := dbType\<rparr> \<and> claims (DB ctx') = claims (DB ctx)"
proof -
  let ?db = "management (DB ctx)"
  let ?i = "(info (DB ctx))\<lparr>DBRoot := path_join dbPath dbName, DBType := dbType\<rparr>"
  have h: "holds PrefixGovernanceVariable gv_BlockHeight GV_Bytes gv_ok ?db (GV ctx)" "cands_stored ?db (PRepCandidates ctx)"
    "kv_get PrefixManagement ?db = Some (DBInfo_Bytes (info (DB ctx)))" "stored_info_ok ctx" "0 \<le> DBCount (info (DB ctx))"
    using assms by (simp_all add: durable_def)
  have "opt_of (DBInfo_SetBytes zero_DBInfo (DBInfo_Bytes (info (DB ctx)))) = Some ((info (DB ctx))\<lparr>DBRoot := [], DBType := []\<rparr>)"
    using dbinfo.dec_enc [of "(info (DB ctx))\<lparr>DBRoot := [], DBType := []\<rparr>"] h(4) by (simp add: stored_info_ok_def DBInfo_Bytes_def)
  then have i: "NewDBInfo ?db dbPath dbType dbName dbCount = Some (?i, ?db)"
    using h(3) by (auto simp: NewDBInfo_def Bucket_Get_def DBInfo_ID_def opt_of_def Let_def split: sum.splits)
  obtain cs' where c: "LoadPRepCandidate ?db = Some cs'" "map_of cs' = map_of (PRepCandidates ctx)"
    using LoadPRepCandidate_stored [OF h(2) holds_kv_ok [OF h(1)]] by blast
  then have c': "cands_stored ?db cs'"
    using h(2) distinct_LoadPRepCandidate_loop [of "[]"] by (auto simp: cands_stored_def LoadPRepCandidate_def)
  have gv: "LoadGovernanceVariable ?db = GV ctx"
    using gvs.holds_load [OF h(1)] h(1)
    by (simp add: LoadGovernanceVariable_def load_gv_def holds_def sort_key_id_if_sorted strict_sorted_imp_sorted)
  let ?idb = "\<lparr>info = ?i, management = ?db, calcResult = calcResult (DB ctx), claims = claims (DB ctx), Account0 = [], Account1 = [], dirs = dirs (DB ctx)\<rparr>"
  obtain idb where op: "OpenAccountDB ?idb = Some idb" "info idb = ?i" "management idb = ?db" "claims idb = claims (DB ctx)"
    using h(5) by (simp add: OpenAccountDB_def)
  have "DBInfo_Bytes ?i = DBInfo_Bytes (info (DB ctx))" by (simp add: DBInfo_Bytes_def)
  then show ?thesis
    using h c' by (simp add: NewContext_def storage_of_def i c gv op durable_def stored_info_ok_def)
qed

lemma restart_ok:
  assumes "service_ok ctx" "NewContext (storage_of ctx) dbPath dbType dbName dbCount config = Some ctx'"
  shows "service_ok ctx'"
  using durable_restart [of ctx dbPath dbType dbName dbCount config] assms by (auto simp: service_ok_def heights_ok_def)

text \<open>Invariants of transition systems.\<close>

locale step_invariant =
  fixes step :: "'s \<Rightarrow> 's \<Rightarrow> bool" and inv :: "'s \<Rightarrow> bool"
  assumes step_inv: "inv s \<Longrightarrow> step s s' \<Longrightarrow> inv s'"
begin

lemma reachable_inv: "step\<^sup>*\<^sup>* s s' \<Longrightarrow> inv s \<Longrightarrow> inv s'"
  by (induction rule: rtranclp_induct) (auto intro: step_inv)

end

interpretation svc: step_invariant "service_step env" "\<lambda>s. service_ok (mgr_ctx (sv_mgr s))" for env
proof unfold_locales
  fix s s'
  assume ok: "service_ok (mgr_ctx (sv_mgr s))" and step: "service_step env s s'"
  from step show "service_ok (mgr_ctx (sv_mgr s'))"
  proof cases
    case (reload dir ctx')
    then have "service_ok ctx'"
      using ok DoCalculate_service_ok [OF ok] by (auto simp: reloadIISSData_def split: option.splits if_splits)
    with reload show ?thesis by simp
  qed (use ok run_handler_ok restart_ok in auto)
qed

lemma first_start_ok:
  assumes "0 < dbCount" "dbCount < 2 ^ 63" "NewContext empty_storage dbPath dbType dbName dbCount config = Some ctx"
  shows "service_ok ctx"
  using first_start [OF assms] by (auto simp: service_ok_def durable_def mirrors_def heights_ok_def idb_ok_def)

end
