(* ===== verification/ServiceTheorems.thy ===== *)
theory ServiceTheorems
  imports ServiceProps
begin

text \<open>
  Properties of the service as a whole: every reachable state can be restarted, every request
  is answered, refused calculations change nothing, and what an undecodable request and a
  cancelled calculation leave behind.
\<close>

section \<open>Reachable states\<close>

definition first_state :: "bool \<Rightarrow> Context \<Rightarrow> service" where
  "first_state mm ctx = \<lparr>sv_mgr = \<lparr>monitorMode = mm, mgr_ctx = ctx, waitGroup = 0\<rparr>, sv_tasks = [], sv_sent = [], sv_reload = True\<rparr>"

text \<open>
  C18: What survives a restart at any time. From the first start on an empty
  disk, whatever messages arrive, in whatever order their goroutines run, with calculations
  cancelled and the process restarted at any point between handlers: the height of the last
  calculation is never below the one before it and never above the one in progress, the
  governance variables in memory are the ones on disk, and a start on the storage succeeds and
  has the governance variables, the candidates, the claims and the block heights of
  before. The P-Rep lists are not part of it: see the theorems on orderly histories.
\<close>

theorem service_restartable:
  assumes "0 < dbCount" "dbCount < 2 ^ 63" "NewContext empty_storage dbPath dbType dbName dbCount config = Some ctx0"
    and "(service_step env)\<^sup>*\<^sup>* (first_state mm ctx0) s" "ctx = mgr_ctx (sv_mgr s)"
  shows "getPrevCalcDoneBH (DB ctx) \<le> getCalcDoneBH (DB ctx) \<and> getCalcDoneBH (DB ctx) \<le> getCalculatingBH (DB ctx) \<and>
    LoadGovernanceVariable (management (DB ctx)) = GV ctx \<and>
    (\<exists>ctx'. NewContext (storage_of ctx) dbPath dbType dbName dbCount config' = Some ctx' \<and> GV ctx' = GV ctx \<and>
      map_of (PRepCandidates ctx') = map_of (PRepCandidates ctx) \<and> claims (DB ctx') = claims (DB ctx) \<and>
      info (DB ctx') = (info (DB ctx))\<lparr>DBRoot := path_join dbPath dbName, DBType := dbType\<rparr>)"
proof -
  have ok: "service_ok ctx"
    using svc.reachable_inv [OF assms(4)] first_start_ok [OF assms(1-3)] assms(5) by (simp add: first_state_def)
  then have "durable ctx" "heights_ok (info (DB ctx))" by (simp_all add: service_ok_def)
  moreover from this(1) have h: "holds PrefixGovernanceVariable gv_BlockHeight GV_Bytes gv_ok (management (DB ctx)) (GV ctx)"
    by (simp add: durable_def)
  have "LoadGovernanceVariable (management (DB ctx)) = GV ctx"
    using gvs.holds_load [OF h] h
    by (simp add: LoadGovernanceVariable_def load_gv_def holds_def sort_key_id_if_sorted strict_sorted_imp_sorted)
  ultimately show ?thesis
    using durable_restart [of ctx dbPath dbType dbName dbCount config']
    by (auto simp: heights_ok_def getPrevCalcDoneBH_def getCalcDoneBH_def getCalculatingBH_def)
qed

definition ex_env :: environment where
  "ex_env = \<lparr>env_shake = \<lambda>b. b, env_order = \<lambda>m. m, env_iiss = \<lambda>_. [], env_debug = \<lambda>_. ONil\<rparr>"

definition ex_version :: message where
  "ex_version = \<lparr>m_Msg = MsgVersion, m_Id = 7, m_Data = ONil\<rparr>"

definition ex_service :: service where
  "ex_service = (first_state False ex_start)\<lparr>sv_tasks := [ex_version]\<rparr>"

lemma ex_start_run: "NewContext empty_storage [] [] [] 2 None = Some ex_start"
  using first_start_runs [of 2 "[]" "[]" "[]" None] by (auto simp: ex_start_def)

lemma ex_service_step: "service_step ex_env (first_state False ex_start) ex_service"
  using service_step.start [of ex_version ex_env "first_state False ex_start"]
  by (simp add: ex_service_def first_state_def ex_version_def HandleMessage_def msg_numbers)

theorem service_restartable_witness:
  "getPrevCalcDoneBH (DB ex_start) \<le> getCalcDoneBH (DB ex_start) \<and> getCalcDoneBH (DB ex_start) \<le> getCalculatingBH (DB ex_start) \<and>
    LoadGovernanceVariable (management (DB ex_start)) = GV ex_start"
proof -
  have "mgr_ctx (sv_mgr ex_service) = ex_start" by (simp add: ex_service_def first_state_def)
  then show ?thesis
    using service_restartable [OF _ _ ex_start_run r_into_rtranclp [of "service_step ex_env", OF ex_service_step] HOL.refl, of None]
    by simp
qed

section \<open>Answers\<close>

text \<open>The request messages of the protocol; READY and CALCULATE_DONE only go to the client.\<close>

definition requests :: "u64 set" where
  "requests = {MsgVersion, MsgClaim, MsgQuery, MsgCalculate, MsgCommitBlock, MsgCommitClaim, MsgQueryCalculateStatus,
     MsgQueryCalculateResult, MsgRollBack, MsgINIT, MsgStartBlock, MsgDebug}"

lemma task_counts [simp]: "waitGroup (AddMsgTask m) = waitGroup m + 1" "waitGroup (DoneMsgTask m) = waitGroup m - 1"
  "waitGroup (set_ctx c m) = waitGroup m"
  by (simp_all add: AddMsgTask_def DoneMsgTask_def set_ctx_def)

lemmas handler_defs = with_request_def handle_version_def handle_query_def handle_claim_def handle_commitClaim_def handle_startBlock_def
  handle_commitBlock_def handle_queryCalculateStatus_def handle_queryCalculateResult_def handle_rollback_def handle_init_def Let_def

lemma calculate_answers:
  assumes "handle_calculate env cancel i d m = Some (e, out, m')"
  shows "(e = None \<longrightarrow> waitGroup m' = waitGroup m \<and> (\<exists>ack fin. out = [(MsgCalculate, i, ack), (MsgCalculateDone, 0, fin)])) \<and>
    (e \<noteq> None \<longrightarrow> out = [] \<and> mgr_ctx m' = mgr_ctx m)"
proof (cases "dec_CalculateRequest d")
  case (Inl x)
  then show ?thesis using assms by (auto simp: handle_calculate_def with_request_def Let_def)
next
  case (Inr req)
  then obtain co where co: "DoCalculate (env_shake env) (env_order env) cancel (env_iiss env) (mgr_ctx m) req True i = Some co"
    using assms by (auto simp: handle_calculate_def with_request_def Let_def split: option.splits)
  from co obtain status where "co_acks co = [(status, co_height co)]" by (cases rule: DoCalculate_cases) auto
  then show ?thesis using assms Inr co by (auto simp: handle_calculate_def with_request_def Let_def sendCalculateACK_def)
qed

lemmas debug_commands = DebugStatistics_def DebugDBInfo_def DebugPRep_def DebugPRepCandidate_def DebugGV_def DebugCalcDebugResult_def DebugLogCTX_def DebugCalcFlagOn_def DebugCalcFlagOff_def DebugCalcAddAddress_def DebugCalcDelAddress_def DebugCalcListAddresses_def

lemma debug_answers:
  assumes "handle_debug env i d m = Some (e, out, m')"
  shows "(e = None \<longrightarrow> waitGroup m' = waitGroup m \<and> (\<exists>req. dec_DebugMessage d = Inr req \<and>
      (if dm_Cmd req = DebugLogCTX then out = [] else (\<exists>r. out = [(MsgDebug, i, r)])))) \<and>
    (e \<noteq> None \<longrightarrow> out = [] \<and> mgr_ctx m' = mgr_ctx m)"
proof (cases "dec_DebugMessage d")
  case (Inl x)
  then show ?thesis using assms by (auto simp: handle_debug_def with_request_def Let_def)
next
  case (Inr req)
  then obtain er resp ctx' where d: "do_debug req (mgr_ctx m) = Some (er, resp, ctx')"
    and o: "e = er" "out = (case resp of None \<Rightarrow> [] | Some r \<Rightarrow> [(MsgDebug, i, env_debug env r)])"
      "m' = DoneMsgTask (set_ctx ctx' (AddMsgTask m))"
    using assms by (auto simp: handle_debug_def with_request_def Let_def split: option.splits)
  have "(er \<noteq> None \<longrightarrow> resp = None \<and> ctx' = mgr_ctx m) \<and> (er = None \<longrightarrow> (resp = None \<longleftrightarrow> dm_Cmd req = DebugLogCTX))"
    using d by (auto simp: do_debug_def Let_def debug_commands split: if_splits prod.splits option.splits simp: bind_eq_Some_conv)
  then show ?thesis using Inr o by (auto split: option.splits)
qed

text \<open>
  C23: What a request is answered with. A handler that accepts a request gives its task back
  and sends exactly one message, with the number and the id of the request, with two exceptions: a
  CALCULATE is answered by its acknowledgement with that number and id and then by one
  CALCULATE_DONE with the id 0, and the DEBUG command that logs the context is not answered. A handler that reports an
  error (a request it cannot decode, an unknown DEBUG command) sends nothing and changes no data.
\<close>

theorem request_answered_once:
  assumes "m_Msg msg \<in> requests" "run_handler env cancel msg m = Some (err, out, m')"
  shows "(err = None \<longrightarrow> waitGroup m' = waitGroup m \<and>
      (if m_Msg msg = MsgCalculate then \<exists>ack fin. out = [(MsgCalculate, m_Id msg, ack), (MsgCalculateDone, 0, fin)]
       else if m_Msg msg = MsgDebug \<and> (\<exists>req. dec_DebugMessage (m_Data msg) = Inr req \<and> dm_Cmd req = DebugLogCTX) then out = []
       else \<exists>data. out = [(m_Msg msg, m_Id msg, data)])) \<and>
    (err \<noteq> None \<longrightarrow> out = [] \<and> mgr_ctx m' = mgr_ctx m)"
proof -
  consider "m_Msg msg = MsgVersion" | "m_Msg msg = MsgClaim" | "m_Msg msg = MsgQuery" | "m_Msg msg = MsgCommitBlock" | "m_Msg msg = MsgCommitClaim"
    | "m_Msg msg = MsgQueryCalculateStatus" | "m_Msg msg = MsgQueryCalculateResult" | "m_Msg msg = MsgRollBack" | "m_Msg msg = MsgINIT"
    | "m_Msg msg = MsgStartBlock" | (calc) "m_Msg msg = MsgCalculate" | (debug) "m_Msg msg = MsgDebug"
    using assms(1) by (auto simp: requests_def)
  then show ?thesis
  proof cases
    case calc
    then show ?thesis using calculate_answers [of env cancel "m_Id msg" "m_Data msg" m err out m'] assms(2)
      by (simp add: run_handler_def msg_numbers)
  next
    case debug
    then show ?thesis using debug_answers [of env "m_Id msg" "m_Data msg" m err out m'] assms(2)
      by (auto simp: run_handler_def msg_numbers)
  qed (use assms(2) in \<open>auto simp: run_handler_def msg_numbers handler_defs sendVersion_def
        split: sum.splits option.splits prod.splits\<close>)
qed

definition ex_refused :: calc_out where
  "ex_refused = the (DoCalculate (\<lambda>b. b) (\<lambda>m. m) None (\<lambda>_. []) ex_calc_ctx ex_request True 7)"

lemma ex_refused_run:
  "DoCalculate (\<lambda>b. b) (\<lambda>m. m) None (\<lambda>_. []) ex_calc_ctx ex_request True 7 = Some ex_refused" "co_err ex_refused = Some ErrInvalidData"
  by (simp_all add: ex_refused_def DoCalculate_def ex_calc_ctx_ok LoadIISSData_def loadIISSHeader_def Bucket_Get_def kv_get_def)

definition ex_calculate :: message where
  "ex_calculate = \<lparr>m_Msg = MsgCalculate, m_Id = 7, m_Data = enc_CalculateRequest ex_request\<rparr>"

theorem request_answered_once_witness:
  "\<exists>ack fin m'. run_handler ex_env None ex_calculate \<lparr>monitorMode = False, mgr_ctx = ex_calc_ctx, waitGroup = 0\<rparr> =
      Some (None, [(MsgCalculate, 7, ack), (MsgCalculateDone, 0, fin)], m') \<and> waitGroup m' = 0"
proof -
  let ?m = "\<lparr>monitorMode = False, mgr_ctx = ex_calc_ctx, waitGroup = 0\<rparr> :: manager"
  obtain out m' where r: "run_handler ex_env None ex_calculate ?m = Some (None, out, m')"
    using ex_refused_run(1)
    by (simp add: run_handler_def msg_numbers ex_calculate_def handle_calculate_def with_request_def Let_def ex_env_def
        CalculateRequest_wire.dec_enc)
  have "m_Msg ex_calculate \<in> requests" "m_Msg ex_calculate = MsgCalculate" "m_Id ex_calculate = 7"
    by (simp_all add: ex_calculate_def requests_def)
  with request_answered_once [OF this(1) r] r show ?thesis by auto
qed

section \<open>Undecodable requests\<close>

fun run_handlers :: "environment \<Rightarrow> (cancellation \<times> message) list \<Rightarrow> manager \<Rightarrow> manager option" where
  "run_handlers env [] m = Some m"
| "run_handlers env ((cancel, msg) # msgs) m =
     (case run_handler env cancel msg m of None \<Rightarrow> None | Some (_, _, m') \<Rightarrow> run_handlers env msgs m')"

lemma run_handler_waitGroup: "run_handler env cancel msg m = Some (err, out, m') \<Longrightarrow> waitGroup m \<le> waitGroup m'"
  by (auto simp: run_handler_def handler_defs handle_calculate_def handle_debug_def split: if_splits sum.splits option.splits prod.splits)

lemma run_handlers_waitGroup: "run_handlers env msgs m = Some m' \<Longrightarrow> waitGroup m \<le> waitGroup m'"
proof (induction env msgs m rule: run_handlers.induct)
  case (2 env cancel msg msgs m)
  from "2.prems" obtain e out m1 where r: "run_handler env cancel msg m = Some (e, out, m1)" "run_handlers env msgs m1 = Some m'"
    by (auto split: option.splits)
  have "waitGroup m1 \<le> waitGroup m'" by (rule "2.IH" [OF r(1) HOL.refl HOL.refl r(2)])
  with run_handler_waitGroup [OF r(1)] show ?case by simp
qed simp

text \<open>
  C26: A single CLAIM, QUERY or block message that does not decode keeps the service from ever
  closing in order: its task stays counted, no later message takes it back, and
  \<^verbatim>\<open>Close\<close> waits for the count to reach zero.
\<close>

theorem bad_request_blocks_close:
  assumes "(m_Msg msg = MsgClaim \<and> dec_ClaimMessage (m_Data msg) = Inl e) \<or> (m_Msg msg = MsgQuery \<and> dec_Query (m_Data msg) = Inl e) \<or>
      (m_Msg msg = MsgCommitBlock \<and> dec_CommitBlock (m_Data msg) = Inl e)"
    and "0 \<le> waitGroup m" "run_handlers env ((cancel, msg) # msgs) m = Some m'"
  shows "\<not> Close_returns m'"
proof -
  have "run_handler env cancel msg m = Some (Some e, [], AddMsgTask m)"
    using assms(1) by (auto simp: run_handler_def msg_numbers handler_defs)
  then have "run_handlers env msgs (AddMsgTask m) = Some m'" using assms(3) by simp
  from run_handlers_waitGroup [OF this] assms(2) show ?thesis by (simp add: Close_returns_def)
qed

definition ex_bad :: message where
  "ex_bad = \<lparr>m_Msg = MsgClaim, m_Id = 1, m_Data = OInt 5\<rparr>"

theorem bad_request_blocks_close_witness:
  "\<exists>m'. run_handlers ex_env [(None, ex_bad), (None, ex_version)] \<lparr>monitorMode = False, mgr_ctx = ex_start, waitGroup = 0\<rparr> = Some m' \<and>
     \<not> Close_returns m'"
proof -
  let ?m = "\<lparr>monitorMode = False, mgr_ctx = ex_start, waitGroup = 0\<rparr> :: manager"
  have d: "dec_ClaimMessage (m_Data ex_bad) = Inl ErrDecode" by (simp add: ex_bad_def dec_ClaimMessage_def dec_fields_def)
  then obtain m' where r: "run_handlers ex_env [(None, ex_bad), (None, ex_version)] ?m = Some m'"
    by (simp add: run_handler_def msg_numbers ex_bad_def ex_version_def handler_defs)
  from bad_request_blocks_close [OF _ _ r, of ErrDecode] d r show ?thesis by (simp add: ex_bad_def)
qed

section \<open>Refused calculations\<close>

text \<open>
  C24: A CALCULATE that is refused (a calculation is running, the IISS data do not load, the
  block was calculated before or is below it) says so with a status of its own, reports no
  result and changes nothing clients or a later calculation depend on: the account databases
  and their roles, the claims, the stored results, the governance variables, the P-Reps, the
  candidates and the calculated heights are as before.
\<close>

theorem calculate_refused:
  assumes "DoCalculate shake order cancel iiss ctx req True msg_id = Some out"
    and "co_err out \<in> {Some ErrCalculating, Some ErrInvalidData, Some ErrDuplicateBH, Some ErrTooLowBH}"
  shows "(\<exists>status. co_acks out = [(status, co_height out)] \<and> status \<noteq> CalcRespStatusOK) \<and> co_stats out = None \<and> co_hash out = None \<and>
    dirs (DB (co_ctx out)) = dirs (DB ctx) \<and> getQueryDBList (DB (co_ctx out)) = getQueryDBList (DB ctx) \<and>
    GetCalcDBList (DB (co_ctx out)) = GetCalcDBList (DB ctx) \<and> claims (DB (co_ctx out)) = claims (DB ctx) \<and>
    calcResult (DB (co_ctx out)) = calcResult (DB ctx) \<and> GV (co_ctx out) = GV ctx \<and> PReps (co_ctx out) = PReps ctx \<and>
    PRepCandidates (co_ctx out) = PRepCandidates ctx \<and> getCalcDoneBH (DB (co_ctx out)) = getCalcDoneBH (DB ctx) \<and>
    getPrevCalcDoneBH (DB (co_ctx out)) = getPrevCalcDoneBH (DB ctx)"
proof -
  from assms(1) show ?thesis
  proof (cases rule: DoCalculate_cases)
    case (refused status e idb)
    then show ?thesis
      by (auto simp: resetCalculatingBH_def setCalculatingBH_def writeToDB_def getQueryDBList_def GetCalcDBList_def getCalcDoneBH_def getPrevCalcDoneBH_def)
  next
    case (ran header gvl prl idb ctx3 err st hash ctx4)
    have "err \<notin> {Some ErrCalculating, Some ErrInvalidData, Some ErrDuplicateBH, Some ErrTooLowBH}"
      using ran(5) by (auto simp: run_calculation_def Let_def split: option.splits if_splits)
    then have False using assms(2) ran(7) by (cases hash) auto
    then show ?thesis ..
  qed
qed

theorem calculate_refused_witness:
  "(\<exists>status. co_acks ex_refused = [(status, co_height ex_refused)] \<and> status \<noteq> CalcRespStatusOK) \<and> co_hash ex_refused = None \<and>
    dirs (DB (co_ctx ex_refused)) = dirs (DB ex_calc_ctx) \<and> claims (DB (co_ctx ex_refused)) = claims (DB ex_calc_ctx)"
  using calculate_refused [OF ex_refused_run(1)] ex_refused_run(2) by simp

end
