(* ===== verification/Client.thy ===== *)
theory Client
  imports ServiceTheorems
begin

text \<open>
  \<^verbatim>\<open>core/api_ipc.go\<close>: the client side of the protocol, on top of the connection. The
  other end is a parameter: what it writes in answer to a message and the state it goes to.
  It is instantiated with the service (\<open>serve\<close>): one client that waits for each answer, so
  the handlers run one at a time. An answer that never comes shows as the end of the stream.
  A response that accompanies an error of the connection is not modelled.
\<close>

section \<open>The connection of a client\<close>

type_synonym 's peer = "message \<Rightarrow> 's \<Rightarrow> obj list \<times> 's"

record RCIPC =
  rc_conn :: connection
  rc_id :: u32

text \<open>
  \<^verbatim>\<open>InitRCIPC\<close> dials up to six times and then reads until READY. It ignores errors of
  \<^verbatim>\<open>Receive\<close>, so on a stream that ends first it reads for ever (\<open>None\<close>).
\<close>

fun flush_ready :: "obj list \<Rightarrow> obj list option" where
  "flush_ready [] = None"
| "flush_ready (ob # obs) = (if m_Msg (fst (dec_message ob)) = MsgReady then Some obs else flush_ready obs)"

fun dial_retry :: "(nat \<Rightarrow> connection option) \<Rightarrow> nat \<Rightarrow> nat \<Rightarrow> connection option" where
  "dial_retry dial retry 0 = dial retry"
| "dial_retry dial retry (Suc n) = (case dial retry of Some c \<Rightarrow> Some c | None \<Rightarrow> dial_retry dial (Suc retry) n)"

definition InitRCIPC :: "(nat \<Rightarrow> connection option) \<Rightarrow> (error + RCIPC) option" where
  "InitRCIPC dial =
     (case dial_retry dial 0 5 of
        None \<Rightarrow> Some (Inl ErrDial)
      | Some c \<Rightarrow> map_option (\<lambda>obs. Inr \<lparr>rc_conn = c\<lparr>conn_in := obs\<rparr>, rc_id = 0\<rparr>) (flush_ready (conn_in c)))"

definition next_id :: "RCIPC \<Rightarrow> RCIPC" where
  "next_id rc = rc\<lparr>rc_id := rc_id rc + 1\<rparr>"

definition exchange ::
    "'s peer \<Rightarrow> u64 \<Rightarrow> obj \<Rightarrow> (obj \<Rightarrow> error + 'a) \<Rightarrow> RCIPC \<times> 's \<Rightarrow> (error + 'a) \<times> RCIPC \<times> 's" where
  "exchange peer msg data dec st =
     (case st of (rc, s) \<Rightarrow>
        (case peer \<lparr>m_Msg = msg, m_Id = rc_id rc, m_Data = data\<rparr> s of
           (answers, s') \<Rightarrow>
             (case Connection_SendAndReceive msg (rc_id rc) data dec (\<lambda>c. c\<lparr>conn_in := conn_in c @ answers\<rparr>) (rc_conn rc) of
                (r, c) \<Rightarrow> (r, rc\<lparr>rc_conn := c\<rparr>, s'))))"

section \<open>Hashes in requests\<close>

text \<open>\<^verbatim>\<open>binary.BigEndian.PutUint64\<close> of the Go library.\<close>

definition PutUint64 :: "u64 \<Rightarrow> bytes" where
  "PutUint64 v = map (\<lambda>i. ucast (drop_bit (8 * (7 - i)) v)) [0..<8]"

text \<open>A hash given as hexadecimal text, or made of a number when the text is empty.\<close>

definition given_hash :: "nat \<Rightarrow> string \<Rightarrow> u64 \<Rightarrow> error + bytes" where
  "given_hash sz s n =
     (if s = [] then Inr (copy_at (replicate sz 0) 0 (PutUint64 n))
      else bindE (hex_decode s) (\<lambda>b. Inr (copy_at (replicate sz 0) 0 b)))"

text \<open>What \<^verbatim>\<open>hex.DecodeString\<close> returns beside an error: the bytes before it.\<close>

fun hex_prefix :: "string \<Rightarrow> bytes" where
  "hex_prefix (c # d # s) =
     (case (hex_val c, hex_val d) of (Some x, Some y) \<Rightarrow> of_nat (x * 16 + y) # hex_prefix s | _ \<Rightarrow> [])"
| "hex_prefix _ = []"

definition address_arg :: "string \<Rightarrow> address" where
  "address_arg s = (case SetString zero_address s of Inl _ \<Rightarrow> zero_address | Inr a \<Rightarrow> a)"

section \<open>Requests\<close>

definition SendVersion :: "'s peer \<Rightarrow> RCIPC \<times> 's \<Rightarrow> (error + ResponseVersion) \<times> RCIPC \<times> 's" where
  "SendVersion peer st = exchange peer MsgVersion ONil dec_ResponseVersion (apfst next_id st)"

definition SendQuery ::
    "'s peer \<Rightarrow> string \<Rightarrow> u64 \<Rightarrow> string \<Rightarrow> string \<Rightarrow> RCIPC \<times> 's \<Rightarrow> (error + ResponseQuery) \<times> RCIPC \<times> 's" where
  "SendQuery peer addr blockHeight blockHash txHash st =
     (case hex_decode blockHash of
        Inl e \<Rightarrow> (Inl e, st)
      | Inr bh \<Rightarrow>
          (case hex_decode txHash of
             Inl e \<Rightarrow> (Inl e, st)
           | Inr th \<Rightarrow>
               exchange peer MsgQuery (enc_Query \<lparr>q_Address = address_arg addr, q_BlockHeight = blockHeight,
                   q_BlockHash = Some (copy_at (replicate BlockHashSize 0) 0 bh),
                   q_TXHash = Some (copy_at (replicate TXHashSize 0) 0 th)\<rparr>) dec_ResponseQuery st))"

definition SendStartBlock ::
    "'s peer \<Rightarrow> bool \<Rightarrow> u64 \<Rightarrow> string \<Rightarrow> RCIPC \<times> 's \<Rightarrow> (error + StartBlock) \<times> RCIPC \<times> 's" where
  "SendStartBlock peer success blockHeight blockHash st =
     (case given_hash BlockHashSize blockHash blockHeight of
        Inl e \<Rightarrow> (Inl e, st)
      | Inr bh \<Rightarrow> exchange peer MsgStartBlock (enc_StartBlock \<lparr>sb_BlockHeight = blockHeight, sb_BlockHash = Some bh\<rparr>)
          dec_StartBlock (apfst next_id st))"

definition SendCommitBlock ::
    "'s peer \<Rightarrow> bool \<Rightarrow> u64 \<Rightarrow> string \<Rightarrow> RCIPC \<times> 's \<Rightarrow> (error + CommitBlock) \<times> RCIPC \<times> 's" where
  "SendCommitBlock peer success blockHeight blockHash st =
     (case given_hash BlockHashSize blockHash blockHeight of
        Inl e \<Rightarrow> (Inl e, st)
      | Inr bh \<Rightarrow>
          exchange peer MsgCommitBlock (enc_CommitBlock \<lparr>cb_Success = success, cb_BlockHeight = blockHeight, cb_BlockHash = Some bh\<rparr>)
            dec_CommitBlock (apfst next_id st))"

text \<open>The data of the acknowledgement of COMMIT_CLAIM are not decoded.\<close>

definition SendCommitClaim ::
    "'s peer \<Rightarrow> bool \<Rightarrow> string \<Rightarrow> u64 \<Rightarrow> string \<Rightarrow> u64 \<Rightarrow> string \<Rightarrow> RCIPC \<times> 's \<Rightarrow> (error + unit) \<times> RCIPC \<times> 's" where
  "SendCommitClaim peer success addr blockHeight blockHash txIndex txHash st =
     (case given_hash BlockHashSize blockHash blockHeight of
        Inl e \<Rightarrow> (Inl e, st)
      | Inr bh \<Rightarrow>
          (case given_hash TXHashSize txHash (blockHeight + txIndex) of
             Inl e \<Rightarrow> (Inl e, st)
           | Inr th \<Rightarrow>
               exchange peer MsgCommitClaim (enc_CommitClaim \<lparr>cc_Success = success, cc_Address = address_arg addr,
                   cc_BlockHeight = blockHeight, cc_BlockHash = Some bh, cc_TXIndex = txIndex, cc_TXHash = Some th\<rparr>)
                 (\<lambda>_. Inr ()) (apfst next_id st)))"

text \<open>
  \<^verbatim>\<open>SendClaim\<close> plays a claim through: CLAIM, COMMIT_CLAIM when something was granted, and
  COMMIT_BLOCK. The result is the response to CLAIM and the error of the first step that
  failed; a transaction hash that does not parse is sent as far as it goes.
\<close>

definition claim_tx_hash :: "string \<Rightarrow> u64 \<Rightarrow> bytes" where
  "claim_tx_hash txHash n =
     copy_at (replicate TXHashSize 0) 0
       (if txHash = [] then PutUint64 n else case hex_decode txHash of Inl _ \<Rightarrow> hex_prefix txHash | Inr b \<Rightarrow> b)"

definition SendClaim ::
    "'s peer \<Rightarrow> string \<Rightarrow> u64 \<Rightarrow> string \<Rightarrow> u64 \<Rightarrow> string \<Rightarrow> bool \<Rightarrow> bool \<Rightarrow> RCIPC \<times> 's \<Rightarrow>
     (ResponseClaim option \<times> error option) \<times> RCIPC \<times> 's" where
  "SendClaim peer addr blockHeight blockHash txIndex txHash noCommitClaim noCommitBlock st =
     (case given_hash BlockHashSize blockHash blockHeight of
        Inl e \<Rightarrow> ((None, Some e), st)
      | Inr bh \<Rightarrow>
          (case exchange peer MsgClaim (enc_ClaimMessage \<lparr>cm_Address = address_arg addr, cm_BlockHeight = blockHeight,
                  cm_BlockHash = Some bh, cm_TXIndex = txIndex, cm_TXHash = Some (claim_tx_hash txHash (blockHeight + txIndex))\<rparr>)
                  dec_ResponseClaim (apfst next_id st) of
             (Inl e, st1) \<Rightarrow> ((None, Some e), st1)
           | (Inr resp, st1) \<Rightarrow>
               (case (if \<not> noCommitClaim \<and> rc_IScore resp \<noteq> 0
                      then SendCommitClaim peer True addr blockHeight blockHash txIndex txHash st1
                      else (Inr (), st1)) of
                  (Inl e, st2) \<Rightarrow> ((Some resp, Some e), st2)
                | (Inr _, st2) \<Rightarrow>
                    if noCommitBlock then ((Some resp, None), st2)
                    else (case SendCommitBlock peer True blockHeight blockHash st2 of
                            (Inl e, st3) \<Rightarrow> ((Some resp, Some e), st3)
                          | (Inr _, st3) \<Rightarrow> ((Some resp, None), st3)))))"

definition SendQueryCalculateStatus ::
    "'s peer \<Rightarrow> RCIPC \<times> 's \<Rightarrow> (error + QueryCalculateStatusResponse) \<times> RCIPC \<times> 's" where
  "SendQueryCalculateStatus peer st = exchange peer MsgQueryCalculateStatus ONil dec_QueryCalculateStatusResponse st"

definition SendQueryCalculateResult ::
    "'s peer \<Rightarrow> u64 \<Rightarrow> RCIPC \<times> 's \<Rightarrow> (error + QueryCalculateResultResponse) \<times> RCIPC \<times> 's" where
  "SendQueryCalculateResult peer blockHeight st =
     exchange peer MsgQueryCalculateResult (enc_u64 blockHeight) dec_QueryCalculateResultResponse st"

definition SendRollback :: "'s peer \<Rightarrow> u64 \<Rightarrow> string \<Rightarrow> RCIPC \<times> 's \<Rightarrow> (error + RollBackResponse) \<times> RCIPC \<times> 's" where
  "SendRollback peer blockHeight blockHash st =
     (case hex_decode blockHash of
        Inl e \<Rightarrow> (Inl e, st)
      | Inr hash \<Rightarrow>
          exchange peer MsgRollBack (enc_RollBackRequest \<lparr>rb_BlockHeight = blockHeight,
              rb_BlockHash = Some (copy_at (replicate BlockHashSize 0) 0 hash)\<rparr>) dec_RollBackResponse st)"

definition SendInit :: "'s peer \<Rightarrow> u64 \<Rightarrow> RCIPC \<times> 's \<Rightarrow> (error + ResponseInit) \<times> RCIPC \<times> 's" where
  "SendInit peer blockHeight st = exchange peer MsgINIT (enc_u64 blockHeight) dec_ResponseInit st"

text \<open>
  \<^verbatim>\<open>SendCalculate\<close> reads the acknowledgement and, when the calculation was accepted, one
  more message, which should be CALCULATE_DONE. It does not read on after a refusal.
\<close>

definition SendCalculate ::
    "'s peer \<Rightarrow> string \<Rightarrow> u64 \<Rightarrow> RCIPC \<times> 's \<Rightarrow> (CalculateResponse option \<times> error option) \<times> RCIPC \<times> 's" where
  "SendCalculate peer iissData blockHeight st =
     (case exchange peer MsgCalculate (enc_CalculateRequest \<lparr>cq_Path = iissData, cq_BlockHeight = blockHeight, cq_BlockHash = []\<rparr>)
             dec_CalculateResponse st of
        (Inl e, st1) \<Rightarrow> ((None, Some e), st1)
      | (Inr resp, rc, s) \<Rightarrow>
          if ca_Status resp \<noteq> CalcRespStatusOK then ((Some resp, None), rc, s)
          else (case Connection_Receive dec_CalculateDone (rc_conn rc) of
                  ((_, _, Inl e), c) \<Rightarrow> ((Some resp, Some e), rc\<lparr>rc_conn := c\<rparr>, s)
                | ((_, _, Inr _), c) \<Rightarrow> ((Some resp, None), rc\<lparr>rc_conn := c\<rparr>, s)))"

section \<open>The service as the other end\<close>

text \<open>\<open>None\<close> is a process that has panicked.\<close>

definition serve :: "environment \<Rightarrow> manager option peer" where
  "serve env msg mo =
     (case mo of
        None \<Rightarrow> ([], None)
      | Some m \<Rightarrow>
          if m_Msg msg \<notin> set (conn_handler (newConnection m (connectionFromConn []))) then ([], Some m)
          else (case run_handler env None msg m of
                  None \<Rightarrow> ([], None)
                | Some (err, out, m') \<Rightarrow> (map (\<lambda>(n, i, d). enc_message \<lparr>m_Msg = n, m_Id = i, m_Data = d\<rparr>) out, Some m')))"

definition service_answer :: "environment \<Rightarrow> message \<Rightarrow> manager option \<Rightarrow> (obj \<times> manager option) option" where
  "service_answer env msg mo =
     (case mo of
        None \<Rightarrow> None
      | Some m \<Rightarrow>
          if m_Msg msg \<notin> set (conn_handler (newConnection m (connectionFromConn []))) then None
          else (case run_handler env None msg m of
                  Some (_, [(n, i, d)], m') \<Rightarrow> if n = m_Msg msg \<and> i = m_Id msg then Some (d, Some m') else None
                | _ \<Rightarrow> None))"

section \<open>A peer that answers\<close>

text \<open>
  The contract of the other end for a request that has one answer, and what a client that has
  read every earlier answer makes of it.
\<close>

definition in_step :: "RCIPC \<Rightarrow> bool" where
  "in_step rc \<longleftrightarrow> conn_in (rc_conn rc) = []"

definition asked :: "u64 \<Rightarrow> obj \<Rightarrow> RCIPC \<Rightarrow> RCIPC" where
  "asked msg data rc = rc\<lparr>rc_conn := Connection_Send msg (rc_id rc) data (rc_conn rc)\<rparr>"

lemma in_step_asked [simp]: "in_step (asked msg data rc) = in_step rc" "in_step (next_id rc) = in_step rc"
  by (simp_all add: in_step_def asked_def next_id_def Connection_Send_def)

lemma all_read: "in_step rc \<Longrightarrow> rc\<lparr>rc_conn := (rc_conn rc)\<lparr>conn_in := []\<rparr>\<rparr> = rc"
  by (cases rc; cases "rc_conn rc") (simp add: in_step_def)

lemma exchange_answers:
  assumes "in_step rc" "peer \<lparr>m_Msg = msg, m_Id = rc_id rc, m_Data = data\<rparr> s = (enc_message a # obs, s')"
  shows "exchange peer msg data dec (rc, s) =
    (dec (m_Data a), (asked msg data rc)\<lparr>rc_conn := (rc_conn (asked msg data rc))\<lparr>conn_in := obs\<rparr>\<rparr>, s')"
  using assms
  by (simp add: exchange_def Connection_SendAndReceive_def read_message_def asked_def in_step_def Connection_Send_def)

locale answering_peer =
  fixes peer :: "'s peer" and answer :: "message \<Rightarrow> 's \<Rightarrow> (obj \<times> 's) option"
  assumes answers: "answer msg s = Some (d, s') \<Longrightarrow>
    peer msg s = ([enc_message \<lparr>m_Msg = m_Msg msg, m_Id = m_Id msg, m_Data = d\<rparr>], s')"
begin

lemma exchange_answered:
  assumes "in_step rc" "answer \<lparr>m_Msg = msg, m_Id = rc_id rc, m_Data = data\<rparr> s = Some (d, s')"
  shows "exchange peer msg data dec (rc, s) = (dec d, asked msg data rc, s')"
  using exchange_answers [where peer = peer, OF assms(1) answers [OF assms(2), simplified]] all_read [of "asked msg data rc"] assms(1)
  by simp

end

interpretation service_peer: answering_peer "serve env" "service_answer env"
  by unfold_locales
    (auto simp: service_answer_def serve_def split: option.splits if_splits prod.splits list.splits)

end
