(* ===== verification/ClientTheorems.thy ===== *)
theory ClientTheorems
  imports Client
begin

text \<open>
  Properties of the client API against the service: what it reads is what the service
  computes, a claim played through lowers the I-Score by what was granted, and a refused
  calculation leaves the client one answer behind.
\<close>

section \<open>Answers of the service\<close>

lemma address_arg_ok [simp]: "address_ok (address_arg s)"
proof (cases "SetString zero_address s")
  case (Inr a)
  then show ?thesis using SetString_ok [OF _ Inr] by (simp add: address_arg_def zero_address_def AddressBytes_def)
qed (simp add: address_arg_def)

lemma SetHandlers [simp]: "set (conn_handler (Connection_SetHandler msg c)) = insert msg (set (conn_handler c))"
  by (auto simp: Connection_SetHandler_def)

lemma registered:
  "msg \<in> set (conn_handler (newConnection m (connectionFromConn []))) \<longleftrightarrow>
     msg \<in> {MsgVersion, MsgQuery, MsgQueryCalculateStatus, MsgQueryCalculateResult} \<union>
       (if monitorMode m then {MsgDebug}
        else {MsgClaim, MsgCalculate, MsgStartBlock, MsgCommitBlock, MsgCommitClaim, MsgRollBack, MsgINIT})"
  unfolding newConnection_def Let_def sendVersion_def
  by (auto simp: Connection_Send_def connectionFromConn_def)

lemma tasks_done [simp]: "DoneMsgTask (AddMsgTask m) = m" "DoneMsgTask (set_ctx ctx (AddMsgTask m)) = set_ctx ctx m"
  "mgr_ctx (AddMsgTask m) = mgr_ctx m"
  by (simp_all add: AddMsgTask_def DoneMsgTask_def set_ctx_def)

lemma fld_u64 [simp]: "fld [enc_u64 h] 0 dec_u64 a b = Inr h"
  by (simp add: fld_def)

lemma service_answers:
  "service_answer env \<lparr>m_Msg = MsgVersion, m_Id = i, m_Data = d\<rparr> (Some m) =
     Some (enc_ResponseVersion \<lparr>rv_Version = IPCVersion, rv_BlockHeight = bi_BlockHeight (getCurrentBlockInfo (DB (mgr_ctx m))),
       rv_BlockHash = bi_BlockHash (getCurrentBlockInfo (DB (mgr_ctx m)))\<rparr>, Some m)"
  "DoQuery (mgr_ctx m) q = Some resp \<Longrightarrow> address_ok (q_Address q) \<Longrightarrow>
     service_answer env \<lparr>m_Msg = MsgQuery, m_Id = i, m_Data = enc_Query q\<rparr> (Some m) = Some (enc_ResponseQuery resp, Some m)"
  "service_answer env \<lparr>m_Msg = MsgQueryCalculateStatus, m_Id = i, m_Data = d\<rparr> (Some m) =
     Some (enc_QueryCalculateStatusResponse (case DoQueryCalculateStatus (mgr_ctx m) of (s, h) \<Rightarrow> \<lparr>qs_Status = s, qs_BlockHeight = h\<rparr>), Some m)"
  "DoQueryCalculateResult (mgr_ctx m) h = Some r \<Longrightarrow>
     service_answer env \<lparr>m_Msg = MsgQueryCalculateResult, m_Id = i, m_Data = enc_u64 h\<rparr> (Some m) =
       Some (enc_QueryCalculateResultResponse r, Some m)"
  by (simp_all add: service_answer_def registered run_handler_def handler_defs msg_numbers sendVersion_def Query_wire.dec_enc
      split: prod.split)

section \<open>Reading\<close>

lemma SendQuery_answered:
  assumes "in_step rc" "hex_decode blockHash = Inr bh" "hex_decode txHash = Inr th"
    and "DoQuery (mgr_ctx m) \<lparr>q_Address = address_arg addr, q_BlockHeight = h, q_BlockHash = Some (copy_at (replicate BlockHashSize 0) 0 bh),
      q_TXHash = Some (copy_at (replicate TXHashSize 0) 0 th)\<rparr> = Some resp"
  shows "\<exists>rc'. SendQuery (serve env) addr h blockHash txHash (rc, Some m) = (Inr resp, rc', Some m) \<and> in_step rc'"
proof -
  have "address_ok (rq_Address resp)"
    using assms(4) by (auto simp: DoQuery_def Let_def split: option.splits if_splits sum.splits)
  then show ?thesis
    using assms(1-3)
    by (simp add: SendQuery_def service_peer.exchange_answered [OF assms(1) service_answers(2) [OF assms(4)]] ResponseQuery_wire.dec_enc)
qed

text \<open>
  C32: What a client reads is what the service computes. For a client that has read every
  earlier answer, the version request returns the height and hash of the last block, a query
  the I-Score the service computes for that address, and the two calculation queries the
  status and the stored result; none of them changes the service, and the client has again
  read every answer.
\<close>

theorem client_reads_service:
  assumes "in_step rc" "length (bi_BlockHash (getCurrentBlockInfo (DB (mgr_ctx m)))) = BlockHashSize" "hex_decode blockHash = Inr bh" "hex_decode txHash = Inr th"
    and "DoQuery (mgr_ctx m) \<lparr>q_Address = address_arg addr, q_BlockHeight = h, q_BlockHash = Some (copy_at (replicate BlockHashSize 0) 0 bh),
      q_TXHash = Some (copy_at (replicate TXHashSize 0) 0 th)\<rparr> = Some resp"
    and "DoQueryCalculateResult (mgr_ctx m) h' = Some result"
  shows "(\<exists>rc'. SendVersion (serve env) (rc, Some m) = (Inr \<lparr>rv_Version = IPCVersion,
        rv_BlockHeight = bi_BlockHeight (getCurrentBlockInfo (DB (mgr_ctx m))),
        rv_BlockHash = bi_BlockHash (getCurrentBlockInfo (DB (mgr_ctx m)))\<rparr>, rc', Some m) \<and> in_step rc') \<and>
    (\<exists>rc'. SendQuery (serve env) addr h blockHash txHash (rc, Some m) = (Inr resp, rc', Some m) \<and> in_step rc') \<and>
    (\<exists>rc'. SendQueryCalculateStatus (serve env) (rc, Some m) =
       (Inr \<lparr>qs_Status = fst (DoQueryCalculateStatus (mgr_ctx m)), qs_BlockHeight = snd (DoQueryCalculateStatus (mgr_ctx m))\<rparr>, rc', Some m) \<and>
       in_step rc') \<and>
    (\<exists>rc'. SendQueryCalculateResult (serve env) h' (rc, Some m) = (Inr result, rc', Some m) \<and> in_step rc')"
proof (intro conjI)
  have n: "in_step (next_id rc)" using assms(1) by simp
  show "\<exists>rc'. SendVersion (serve env) (rc, Some m) = (Inr \<lparr>rv_Version = IPCVersion,
        rv_BlockHeight = bi_BlockHeight (getCurrentBlockInfo (DB (mgr_ctx m))),
        rv_BlockHash = bi_BlockHash (getCurrentBlockInfo (DB (mgr_ctx m)))\<rparr>, rc', Some m) \<and> in_step rc'"
    using n assms(2)
    by (simp add: SendVersion_def service_peer.exchange_answered [OF n service_answers(1)] ResponseVersion_wire.dec_enc)
  show "\<exists>rc'. SendQuery (serve env) addr h blockHash txHash (rc, Some m) = (Inr resp, rc', Some m) \<and> in_step rc'"
    by (rule SendQuery_answered [OF assms(1,3,4,5)])
  show "\<exists>rc'. SendQueryCalculateStatus (serve env) (rc, Some m) =
       (Inr \<lparr>qs_Status = fst (DoQueryCalculateStatus (mgr_ctx m)), qs_BlockHeight = snd (DoQueryCalculateStatus (mgr_ctx m))\<rparr>, rc', Some m) \<and>
       in_step rc'"
    using assms(1)
    by (simp add: SendQueryCalculateStatus_def service_peer.exchange_answered [OF assms(1) service_answers(3)] QueryCalculateStatusResponse_wire.dec_enc split: prod.split)
  show "\<exists>rc'. SendQueryCalculateResult (serve env) h' (rc, Some m) = (Inr result, rc', Some m) \<and> in_step rc'"
    using assms(1)
    by (simp add: SendQueryCalculateResult_def service_peer.exchange_answered [OF assms(1) service_answers(4) [OF assms(6)]] QueryCalculateResultResponse_wire.dec_enc)
qed

definition ex_rc :: RCIPC where
  "ex_rc = \<lparr>rc_conn = connectionFromConn [], rc_id = 0\<rparr>"

definition ex_mgr :: manager where
  "ex_mgr = \<lparr>monitorMode = False, mgr_ctx = ex_ctx, waitGroup = 0\<rparr>"

lemma ex_rc_step: "in_step ex_rc"
  by (simp add: ex_rc_def in_step_def connectionFromConn_def)

lemma address_arg_String: "address_ok a \<Longrightarrow> address_arg (Address_String a) = a"
  using SetString_String [of a zero_address] by (simp add: address_arg_def zero_address_def)

lemma ex_query: "DoQuery ex_ctx (plain_query ex_addr) = Some \<lparr>rq_Address = ex_addr, rq_IScore = 3500, rq_BlockHeight = 10\<rparr>"
proof -
  have "claimed ex_ctx ex_addr = 0" by (simp add: claimed_def claim_of_get ex_ctx_def ex_base_def)
  then show ?thesis by (simp add: DoQuery_plain ex_ctx_account)
qed

theorem client_reads_service_witness:
  "\<exists>rc'. SendQuery (serve ex_env) (Address_String ex_addr) 2 [] [] (ex_rc, Some ex_mgr) =
     (Inr \<lparr>rq_Address = ex_addr, rq_IScore = 3500, rq_BlockHeight = 10\<rparr>, rc', Some ex_mgr) \<and> in_step rc'"
proof -
  have c: "mgr_ctx ex_mgr = ex_ctx" by (simp add: ex_mgr_def)
  have a: "address_arg (Address_String ex_addr) = ex_addr" using ex_addr_ok by (rule address_arg_String)
  have "findPreCommit (preCommit_db (claims (DB ex_ctx))) ex_addr 2 b = None" for b
    by (simp add: ex_ctx_def ex_base_def findPreCommit_def Bucket_Get_def kv_get_def Let_def)
  then have q: "DoQuery ex_ctx \<lparr>q_Address = ex_addr, q_BlockHeight = 2, q_BlockHash = b, q_TXHash = t\<rparr> =
      Some \<lparr>rq_Address = ex_addr, rq_IScore = 3500, rq_BlockHeight = 10\<rparr>" for b t
    using ex_query by (subst DoQuery_not_pending) simp_all
  have r: "DoQueryCalculateResult ex_ctx 3 = Some \<lparr>qr_Status = InvalidBH, qr_BlockHeight = 3, qr_IScore = 0, qr_StateHash = []\<rparr>"
    by (simp add: DoQueryCalculateResult_def ex_ctx_def ex_idb_def ex_info_def isCalculating_def getCalculatingBH_def getCalcDoneBH_def
        Bucket_Get_def kv_get_def Let_def zero_DBInfo_def)
  have l: "length (bi_BlockHash (getCurrentBlockInfo (DB (mgr_ctx ex_mgr)))) = BlockHashSize"
    by (simp add: c getCurrentBlockInfo_def ex_ctx_def ex_idb_def ex_info_def zero_DBInfo_def zero_BlockInfo_def)
  show ?thesis
    using client_reads_service [OF ex_rc_step l, of "[]" "[]" "[]" "[]" "Address_String ex_addr" 2
        "\<lparr>rq_Address = ex_addr, rq_IScore = 3500, rq_BlockHeight = 10\<rparr>" 3, unfolded c a] q r by simp
qed

section \<open>A claim played through\<close>

lemma service_answers_claim:
  assumes "\<not> monitorMode m"
  shows "address_ok (cm_Address req) \<Longrightarrow> DoClaim (mgr_ctx m) req = Some ((h, x), ctx') \<Longrightarrow>
      service_answer env \<lparr>m_Msg = MsgClaim, m_Id = i, m_Data = enc_ClaimMessage req\<rparr> (Some m) =
        Some (enc_ResponseClaim \<lparr>rc_Claim = req\<lparr>cm_BlockHeight := h\<rparr>, rc_IScore = (case x of None \<Rightarrow> 0 | Some x \<Rightarrow> x)\<rparr>, Some (set_ctx ctx' m))"
    and "address_ok (cc_Address cc) \<Longrightarrow>
      service_answer env \<lparr>m_Msg = MsgCommitClaim, m_Id = i, m_Data = enc_CommitClaim cc\<rparr> (Some m) =
        Some (ONil, Some (set_ctx (DoCommitClaim (mgr_ctx m) cc) m))"
    and "do_commitBlock (mgr_ctx m) cb = Some (resp, ctx') \<Longrightarrow>
      service_answer env \<lparr>m_Msg = MsgCommitBlock, m_Id = i, m_Data = enc_CommitBlock cb\<rparr> (Some m) =
        Some (enc_CommitBlock resp, Some (set_ctx ctx' m))"
  using assms
  by (simp_all add: service_answer_def registered run_handler_def handler_defs msg_numbers ClaimMessage_wire.dec_enc
      CommitClaim_wire.dec_enc CommitBlock_wire.dec_enc)

lemma claim_tx_hash_given: "given_hash TXHashSize txHash n = Inr th \<Longrightarrow> claim_tx_hash txHash n = th"
  by (auto simp: given_hash_def claim_tx_hash_def bindE_Inr split: if_splits)

lemma set_ctx_twice [simp]: "set_ctx b (set_ctx a m) = set_ctx b m" "mgr_ctx (set_ctx a m) = a" "monitorMode (set_ctx a m) = monitorMode m"
  by (simp_all add: set_ctx_def)

text \<open>
  C33: A claim played through by a client. When the service grants it,
  \<^verbatim>\<open>SendClaim\<close> returns the granted amount without error after CLAIM, COMMIT_CLAIM and COMMIT_BLOCK, and
  the I-Score a query shows from then on is the one before less exactly that amount.
\<close>

theorem client_claim_lowers_query:
  assumes "in_step rc" "\<not> monitorMode m" "claims_ok (claims (DB (mgr_ctx m)))" "last_height (claims (DB (mgr_ctx m))) < h"
    and "claim_below (mgr_ctx m) (address_arg addr) h" "given_hash BlockHashSize blockHash h = Inr bh"
    and "given_hash TXHashSize txHash (h + txIndex) = Inr th"
    and "req = \<lparr>cm_Address = address_arg addr, cm_BlockHeight = h, cm_BlockHash = Some bh, cm_TXIndex = txIndex, cm_TXHash = Some th\<rparr>"
    and "DoClaim (mgr_ctx m) req = Some ((h', Some amount), ctx1)" "DoQuery (mgr_ctx m) (plain_query (address_arg addr)) = Some r"
  shows "\<exists>rc' m' rc''. SendClaim (serve env) addr h blockHash txIndex txHash False False (rc, Some m) =
      ((Some \<lparr>rc_Claim = req\<lparr>cm_BlockHeight := h'\<rparr>, rc_IScore = amount\<rparr>, None), rc', Some m') \<and>
    SendQuery (serve env) addr h [] [] (rc', Some m') = (Inr (r\<lparr>rq_IScore := rq_IScore r - amount\<rparr>), rc'', Some m') \<and>
    in_step rc''"
proof -
  let ?a = "address_arg addr"
  let ?ctx2 = "DoCommitClaim ctx1 \<lparr>cc_Success = True, cc_Address = ?a, cc_BlockHeight = h, cc_BlockHash = Some bh, cc_TXIndex = txIndex, cc_TXHash = Some th\<rparr>"
  have aok: "address_ok (cm_Address req)" by (simp add: assms(8))
  have nz: "amount \<noteq> 0" using DoClaim_granted(1) [OF assms(9)] by auto
  obtain ctx3 where c: "do_commitBlock ?ctx2 \<lparr>cb_Success = True, cb_BlockHeight = h, cb_BlockHash = Some bh\<rparr> =
      Some (\<lparr>cb_Success = True, cb_BlockHeight = h, cb_BlockHash = Some bh\<rparr>, ctx3)"
    and q: "DoQuery ctx3 (plain_query ?a) = Some (r\<lparr>rq_IScore := rq_IScore r - amount\<rparr>)"
    and np: "\<forall>hash'. findPreCommit (preCommit_db (claims (DB ctx3))) ?a h hash' = None"
    using claim_life [of "mgr_ctx m" req bh h' amount ctx1, OF _ _ _ _ _ assms(9) HOL.refl, of r "Some th"] assms(3,4,5,8,10) by auto
  note step = service_peer.exchange_answered
  have m1: "\<not> monitorMode (set_ctx x m)" for x using assms(2) by simp
  obtain rc1 where r1: "exchange (serve env) MsgClaim (enc_ClaimMessage req) dec_ResponseClaim (next_id rc, Some m) =
      (Inr \<lparr>rc_Claim = req\<lparr>cm_BlockHeight := h'\<rparr>, rc_IScore = amount\<rparr>, rc1, Some (set_ctx ctx1 m))" "in_step rc1"
    using assms(1) aok by (simp add: step [OF _ service_answers_claim(1) [OF assms(2) _ assms(9)]] ResponseClaim_wire.dec_enc)
  obtain rc2 where r2: "SendCommitClaim (serve env) True addr h blockHash txIndex txHash (rc1, Some (set_ctx ctx1 m)) =
      (Inr (), rc2, Some (set_ctx ?ctx2 m))" "in_step rc2"
    using r1(2) by (simp add: SendCommitClaim_def assms(6,7) step [OF _ service_answers_claim(2) [OF m1]])
  obtain rc3 where r3: "SendCommitBlock (serve env) True h blockHash (rc2, Some (set_ctx ?ctx2 m)) =
      (Inr \<lparr>cb_Success = True, cb_BlockHeight = h, cb_BlockHash = Some bh\<rparr>, rc3, Some (set_ctx ctx3 m))" "in_step rc3"
    using r2(2) c by (simp add: SendCommitBlock_def assms(6) step [OF _ service_answers_claim(3) [OF m1]] CommitBlock_wire.dec_enc)
  have "SendClaim (serve env) addr h blockHash txIndex txHash False False (rc, Some m) =
      ((Some \<lparr>rc_Claim = req\<lparr>cm_BlockHeight := h'\<rparr>, rc_IScore = amount\<rparr>, None), rc3, Some (set_ctx ctx3 m))"
    using r1(1) r2(1) r3(1) nz by (simp add: SendClaim_def assms(6,8) claim_tx_hash_given [OF assms(7)])
  moreover have "DoQuery ctx3 \<lparr>q_Address = ?a, q_BlockHeight = h, q_BlockHash = b, q_TXHash = t\<rparr> = Some (r\<lparr>rq_IScore := rq_IScore r - amount\<rparr>)" for b t
    using q np by (subst DoQuery_not_pending) simp_all
  then have "\<exists>rc''. SendQuery (serve env) addr h [] [] (rc3, Some (set_ctx ctx3 m)) =
      (Inr (r\<lparr>rq_IScore := rq_IScore r - amount\<rparr>), rc'', Some (set_ctx ctx3 m)) \<and> in_step rc''"
    by (intro SendQuery_answered [OF r3(2)]) simp_all
  ultimately show ?thesis by blast
qed

theorem client_claim_lowers_query_witness:
  "\<exists>claim rc' m' rc''. SendClaim (serve ex_env) (Address_String ex_addr) 2 [] 4 [] False False (ex_rc, Some ex_mgr) =
      ((Some \<lparr>rc_Claim = claim, rc_IScore = 3000\<rparr>, None), rc', Some m') \<and>
    SendQuery (serve ex_env) (Address_String ex_addr) 2 [] [] (rc', Some m') =
      (Inr \<lparr>rq_Address = ex_addr, rq_IScore = 500, rq_BlockHeight = 10\<rparr>, rc'', Some m') \<and> in_step rc''"
proof -
  have a: "address_arg (Address_String ex_addr) = ex_addr" using ex_addr_ok by (rule address_arg_String)
  have m: "\<not> monitorMode ex_mgr" "mgr_ctx ex_mgr = ex_ctx" by (simp_all add: ex_mgr_def)
  obtain bh th where g: "given_hash BlockHashSize [] 2 = Inr bh" "given_hash TXHashSize [] (2 + 4) = Inr th"
    by (simp add: given_hash_def)
  define req where "req = \<lparr>cm_Address = ex_addr, cm_BlockHeight = 2, cm_BlockHash = Some bh, cm_TXIndex = 4, cm_TXHash = Some th\<rparr>"
  obtain c where "DoClaim ex_ctx req = Some ((10, Some 3000), c)" using ex_claim_runs [of 2 "Some bh" 4 "Some th"] by (auto simp: req_def)
  from client_claim_lowers_query [of ex_rc ex_mgr 2 "Address_String ex_addr" "[]" bh "[]" 4 th req, unfolded a m,
      OF ex_rc_step _ ex_ctx_ok(1) _ ex_ctx_ok(3) g req_def this ex_query, where env = ex_env]
  show ?thesis by (auto simp: m ex_ctx_ok(2))
qed

section \<open>A refused calculation\<close>

lemma exchange_stale:
  assumes "conn_in (rc_conn rc) = enc_message a # obs" "peer \<lparr>m_Msg = msg, m_Id = rc_id rc, m_Data = data\<rparr> s = (answers, s')"
  shows "\<exists>rc'. exchange peer msg data dec (rc, s) = (dec (m_Data a), rc', s') \<and> conn_in (rc_conn rc') = obs @ answers"
  using assms by (simp add: exchange_def Connection_SendAndReceive_def read_message_def Connection_Send_def)

lemma serve_calculate:
  assumes "\<not> monitorMode m"
    and "DoCalculate (env_shake env) (env_order env) None (env_iiss env) (mgr_ctx m) req True i = Some out" "co_acks out = [(status, h)]"
  shows "serve env \<lparr>m_Msg = MsgCalculate, m_Id = i, m_Data = enc_CalculateRequest req\<rparr> (Some m) =
    ([enc_message \<lparr>m_Msg = MsgCalculate, m_Id = i, m_Data = enc_CalculateResponse \<lparr>ca_Status = status, ca_BlockHeight = h\<rparr>\<rparr>,
      enc_message \<lparr>m_Msg = MsgCalculateDone, m_Id = 0, m_Data = enc_CalculateDone
        \<lparr>cdn_Success = (co_err out = None), cdn_BlockHeight = co_height out,
         cdn_IScore = (case co_stats out of None \<Rightarrow> 0 | Some s \<Rightarrow> st_TotalReward s), cdn_StateHash = co_hash out\<rparr>\<rparr>],
     Some (set_ctx (co_ctx out) m))"
  using assms
  by (simp add: serve_def registered run_handler_def handle_calculate_def with_request_def Let_def msg_numbers
      CalculateRequest_wire.dec_enc sendCalculateACK_def)

lemma bool_no_version: "dec_ResponseVersion (OArr (OBool b # obs)) = Inl ErrDecode"
  by (simp add: dec_ResponseVersion_def)

text \<open>
  Requests one after another, each with the number, id and data given, and the data of the messages the client
  takes for their answers; a request of the client API is an exchange whose decoder is applied to that data.
  Next to it what the other end itself answers to each of them, when it answers each once.
\<close>

fun exchanges :: "'s peer \<Rightarrow> (u32 \<times> u64 \<times> obj) list \<Rightarrow> RCIPC \<times> 's \<Rightarrow> obj list \<times> RCIPC \<times> 's" where
  "exchanges peer [] st = ([], st)"
| "exchanges peer ((i, msg, data) # reqs) (rc, s) =
     (case exchange peer msg data Inr (rc\<lparr>rc_id := i\<rparr>, s) of
        (Inl e, st) \<Rightarrow> ([], st)
      | (Inr d, st) \<Rightarrow> apfst ((#) d) (exchanges peer reqs st))"

fun own_answers :: "(message \<Rightarrow> 's \<Rightarrow> (obj \<times> 's) option) \<Rightarrow> (u32 \<times> u64 \<times> obj) list \<Rightarrow> 's \<Rightarrow> (obj list \<times> 's) option" where
  "own_answers answer [] s = Some ([], s)"
| "own_answers answer ((i, msg, data) # reqs) s =
     (case answer \<lparr>m_Msg = msg, m_Id = i, m_Data = data\<rparr> s of
        None \<Rightarrow> None
      | Some (d, s') \<Rightarrow> map_option (apfst ((#) d)) (own_answers answer reqs s'))"

lemma exchange_decodes:
  "exchange peer msg data dec st = (case exchange peer msg data Inr st of (r, st') \<Rightarrow> (bindE r dec, st'))"
  by (auto simp: exchange_def Connection_SendAndReceive_def split: prod.splits option.splits)

context answering_peer
begin

lemma exchanges_stale:
  assumes "conn_in (rc_conn rc) = [enc_message a]" "own_answers answer reqs s = Some (ds, s')"
  shows "\<exists>rc' b. exchanges peer reqs (rc, s) = (butlast (m_Data a # ds), rc', s') \<and> conn_in (rc_conn rc') = [enc_message b] \<and>
    m_Data b = last (m_Data a # ds)"
  using assms
proof (induction reqs arbitrary: rc a s ds)
  case (Cons r reqs)
  obtain i msg data where r: "r = (i, msg, data)" by (cases r)
  obtain d s1 ds' where d: "answer \<lparr>m_Msg = msg, m_Id = i, m_Data = data\<rparr> s = Some (d, s1)" "own_answers answer reqs s1 = Some (ds', s')" "ds = d # ds'"
    using Cons.prems(2) by (auto simp: r split: option.splits)
  let ?b = "\<lparr>m_Msg = msg, m_Id = i, m_Data = d\<rparr>"
  obtain rc1 where e: "exchange peer msg data Inr (rc\<lparr>rc_id := i\<rparr>, s) = (Inr (m_Data a), rc1, s1)" "conn_in (rc_conn rc1) = [enc_message ?b]"
    using exchange_stale [of "rc\<lparr>rc_id := i\<rparr>" a "[]" peer msg data s "[enc_message ?b]" s1 Inr] answers [OF d(1)] Cons.prems(1) by auto
  from Cons.IH [OF e(2) d(2)] show ?case by (auto simp: r e(1) d(3))
qed auto

end

text \<open>
  C34: A refused calculation leaves the client one answer behind, for good. The service follows every
  acknowledgement with CALCULATE_DONE, also that of a refusal; \<^verbatim>\<open>SendCalculate\<close> does not
  read it then, and no later request looks at the number or the id of what it reads. Whatever requests the
  client makes afterwards, as long as the service answers each of them once: the first is given CALCULATE_DONE
  for its answer, every other one the answer of the request before it, and one answer is still unread at the end. A version
  request in the first place therefore fails to decode, and a status request after it returns the protocol
  version as the status and the height of the last block as the height of the calculation.
\<close>

theorem refused_calculate_out_of_step:
  assumes "in_step rc" "\<not> monitorMode m" "co_acks out = [(status, h')]" "status \<noteq> CalcRespStatusOK"
    and "DoCalculate (env_shake env) (env_order env) None (env_iiss env) (mgr_ctx m)
      \<lparr>cq_Path = path, cq_BlockHeight = h, cq_BlockHash = []\<rparr> True (rc_id rc) = Some out"
  shows "\<exists>rc1 m' fin. SendCalculate (serve env) path h (rc, Some m) =
      ((Some \<lparr>ca_Status = status, ca_BlockHeight = h'\<rparr>, None), rc1, Some m') \<and>
    (\<forall>reqs ds s'. own_answers (service_answer env) reqs (Some m') = Some (ds, s') \<longrightarrow>
      (\<exists>rc2. exchanges (serve env) reqs (rc1, Some m') = (butlast (enc_CalculateDone fin # ds), rc2, s') \<and> \<not> in_step rc2)) \<and>
    (\<exists>rc2 rc3. SendVersion (serve env) (rc1, Some m') = (Inl ErrDecode, rc2, Some m') \<and>
      SendQueryCalculateStatus (serve env) (rc2, Some m') =
        (Inr \<lparr>qs_Status = IPCVersion, qs_BlockHeight = bi_BlockHeight (getCurrentBlockInfo (DB (mgr_ctx m')))\<rparr>, rc3, Some m'))"
proof -
  let ?m = "set_ctx (co_ctx out) m"
  note calc = serve_calculate [OF assms(2,5,3)]
  obtain rc1 dn where 1: "SendCalculate (serve env) path h (rc, Some m) = ((Some \<lparr>ca_Status = status, ca_BlockHeight = h'\<rparr>, None), rc1, Some ?m)"
    "conn_in (rc_conn rc1) = [enc_message \<lparr>m_Msg = MsgCalculateDone, m_Id = 0, m_Data = enc_CalculateDone dn\<rparr>]"
    using assms(4) by (simp add: SendCalculate_def exchange_answers [where peer = "serve env", OF assms(1) calc] CalculateResponse_wire.dec_enc)
  have all: "\<exists>rc2. exchanges (serve env) reqs (rc1, Some ?m) = (butlast (enc_CalculateDone dn # ds), rc2, s') \<and> \<not> in_step rc2"
    if "own_answers (service_answer env) reqs (Some ?m) = Some (ds, s')" for reqs ds s'
    using service_peer.exchanges_stale [OF 1(2) that] by (auto simp: in_step_def)
  let ?v = "enc_ResponseVersion \<lparr>rv_Version = IPCVersion, rv_BlockHeight = bi_BlockHeight (getCurrentBlockInfo (DB (mgr_ctx ?m))),
       rv_BlockHash = bi_BlockHash (getCurrentBlockInfo (DB (mgr_ctx ?m)))\<rparr>"
  obtain rc2 i where 2: "SendVersion (serve env) (rc1, Some ?m) = (Inl ErrDecode, rc2, Some ?m)"
    "conn_in (rc_conn rc2) = [enc_message \<lparr>m_Msg = MsgVersion, m_Id = i, m_Data = ?v\<rparr>]"
    using exchange_stale [of "next_id rc1" "\<lparr>m_Msg = MsgCalculateDone, m_Id = 0, m_Data = enc_CalculateDone dn\<rparr>" "[]" "serve env" MsgVersion ONil "Some ?m" _ _ dec_ResponseVersion, OF _ service_peer.answers [OF service_answers(1), simplified]] 1(2)
    by (auto simp: SendVersion_def next_id_def enc_CalculateDone_def bool_no_version)
  obtain rc3 where 3: "SendQueryCalculateStatus (serve env) (rc2, Some ?m) =
      (Inr \<lparr>qs_Status = IPCVersion, qs_BlockHeight = bi_BlockHeight (getCurrentBlockInfo (DB (mgr_ctx ?m)))\<rparr>, rc3, Some ?m)"
    using exchange_stale [OF 2(2), of "serve env" MsgQueryCalculateStatus ONil "Some ?m" _ _ dec_QueryCalculateStatusResponse, OF service_peer.answers [OF service_answers(3), simplified]]
    by (auto simp: SendQueryCalculateStatus_def dec_QueryCalculateStatusResponse_def enc_ResponseVersion_def)
  from 1(1) 2(1) 3 all show ?thesis by blast
qed

theorem refused_calculate_out_of_step_witness:
  "\<exists>rc1 rc2 m'. SendCalculate (serve ex_env) ''iiss'' 20 (ex_rc\<lparr>rc_id := 7\<rparr>, Some (ex_mgr\<lparr>mgr_ctx := ex_calc_ctx\<rparr>)) =
      ((Some \<lparr>ca_Status = CalcRespStatusInvalidData, ca_BlockHeight = 20\<rparr>, None), rc1, Some m') \<and>
    SendVersion (serve ex_env) (rc1, Some m') = (Inl ErrDecode, rc2, Some m')"
proof -
  let ?m = "ex_mgr\<lparr>mgr_ctx := ex_calc_ctx\<rparr>" and ?rc = "ex_rc\<lparr>rc_id := 7\<rparr>"
  have s: "in_step ?rc" using ex_rc_step by (simp add: in_step_def)
  have a: "co_acks ex_refused = [(CalcRespStatusInvalidData, 20)]"
    by (simp add: ex_refused_def DoCalculate_def ex_calc_ctx_ok LoadIISSData_def loadIISSHeader_def Bucket_Get_def kv_get_def ex_request_def)
  have n: "CalcRespStatusInvalidData \<noteq> CalcRespStatusOK" by (simp add: CalcRespStatusInvalidData_def CalcRespStatusOK_def)
  have r: "DoCalculate (env_shake ex_env) (env_order ex_env) None (env_iiss ex_env) (mgr_ctx ?m)
      \<lparr>cq_Path = ''iiss'', cq_BlockHeight = 20, cq_BlockHash = []\<rparr> True (rc_id ?rc) = Some ex_refused"
    using ex_refused_run(1) by (simp add: ex_env_def ex_request_def)
  have "\<not> monitorMode ?m" by (simp add: ex_mgr_def)
  from refused_calculate_out_of_step [OF s this a n r] show ?thesis by blast
qed

end
