(* ===== verification/DbLayers.thy ===== *)
theory DbLayers
  imports KV "HOL-Library.AList"
begin

text \<open>
  The other databases of \<^verbatim>\<open>common/db\<close>: the map database, the layer that buffers writes
  until they are flushed, the proxy that is realised later and the null database. The Go
  interfaces \<^verbatim>\<open>Database\<close> and \<^verbatim>\<open>Bucket\<close> are a record of operations on the state of a
  database, addressed by bucket and key; \<open>None\<close> is a panic. A nil value is \<open>None\<close>.
\<close>

section \<open>The interface\<close>

record 'r backend =
  be_Get :: "'r \<Rightarrow> bytes \<Rightarrow> bytes \<Rightarrow> error + bytes option"
  be_Has :: "'r \<Rightarrow> bytes \<Rightarrow> bytes \<Rightarrow> bool"
  be_Set :: "'r \<Rightarrow> bytes \<Rightarrow> bytes \<Rightarrow> bytes option \<Rightarrow> (error + 'r) option"
  be_Delete :: "'r \<Rightarrow> bytes \<Rightarrow> bytes \<Rightarrow> (error + 'r) option"

section \<open>goleveldb\<close>

definition level_backend :: "bytes kv backend" where
  "level_backend =
     \<lparr>be_Get = \<lambda>db i k. Inr (Bucket_Get db i k), be_Has = \<lambda>db i k. Bucket_Has db i k,
      be_Set = \<lambda>db i k v. Some (Inr (Bucket_Set db i k (nonNilBytes v))), be_Delete = \<lambda>db i k. Some (Inr (Bucket_Delete db i k))\<rparr>"

section \<open>The map database\<close>

type_synonym mapBucket = "(bytes \<times> bytes) list"
type_synonym mapDatabase = "(bytes \<times> mapBucket) list"

definition mapDatabase_GetBucket :: "mapDatabase \<Rightarrow> bytes \<Rightarrow> mapBucket \<times> mapDatabase" where
  "mapDatabase_GetBucket db i = (case map_of db i of Some bk \<Rightarrow> (bk, db) | None \<Rightarrow> ([], AList.update i [] db))"

definition mapBucket_Get :: "mapBucket \<Rightarrow> bytes \<Rightarrow> bytes option" where
  "mapBucket_Get bk k = map_of bk k"

definition mapBucket_Has :: "mapBucket \<Rightarrow> bytes \<Rightarrow> bool" where
  "mapBucket_Has bk k \<longleftrightarrow> map_of bk k \<noteq> None"

definition mapBucket_Set :: "mapBucket \<Rightarrow> bytes \<Rightarrow> bytes option \<Rightarrow> error + mapBucket" where
  "mapBucket_Set bk k v = (if k = [] then Inl ErrIllegalArgument else Inr (AList.update k (nonNilBytes v) bk))"

definition mapBucket_Delete :: "mapBucket \<Rightarrow> bytes \<Rightarrow> mapBucket" where
  "mapBucket_Delete bk k = AList.delete k bk"

definition map_backend :: "mapDatabase backend" where
  "map_backend =
     \<lparr>be_Get = \<lambda>db i k. Inr (mapBucket_Get (fst (mapDatabase_GetBucket db i)) k),
      be_Has = \<lambda>db i k. mapBucket_Has (fst (mapDatabase_GetBucket db i)) k,
      be_Set = \<lambda>db i k v. case mapDatabase_GetBucket db i of (bk, db') \<Rightarrow>
        Some (case mapBucket_Set bk k v of Inl e \<Rightarrow> Inl e | Inr bk' \<Rightarrow> Inr (AList.update i bk' db')),
      be_Delete = \<lambda>db i k. case mapDatabase_GetBucket db i of (bk, db') \<Rightarrow>
        Some (Inr (AList.update i (mapBucket_Delete bk k) db'))\<rparr>"

section \<open>The null database\<close>

definition null_backend :: "unit backend" where
  "null_backend = \<lparr>be_Get = \<lambda>_ _ _. Inr None, be_Has = \<lambda>_ _ _. False, be_Set = \<lambda>_ _ _ _. None, be_Delete = \<lambda>_ _ _. None\<rparr>"

section \<open>The proxy database\<close>

text \<open>A bucket asked for before \<^verbatim>\<open>SetReal\<close> is a proxy; later ones are the real buckets.\<close>

record 'r proxyDB =
  px_real :: "'r option"
  px_buckets :: "(bytes \<times> bool) list"

definition NewProxyDB :: "'r proxyDB" where
  "NewProxyDB = \<lparr>px_real = None, px_buckets = []\<rparr>"

definition proxyDB_GetBucket :: "'r proxyDB \<Rightarrow> bytes \<Rightarrow> 'r proxyDB" where
  "proxyDB_GetBucket p i =
     (if map_of (px_buckets p) i \<noteq> None \<or> px_real p \<noteq> None then p else p\<lparr>px_buckets := AList.update i False (px_buckets p)\<rparr>)"

definition proxyDB_SetReal :: "'r \<Rightarrow> 'r proxyDB \<Rightarrow> 'r proxyDB" where
  "proxyDB_SetReal r p = p\<lparr>px_real := Some r, px_buckets := map (\<lambda>(i, _). (i, True)) (px_buckets p)\<rparr>"

definition proxy_real :: "'r proxyDB \<Rightarrow> bytes \<Rightarrow> 'r option" where
  "proxy_real p i = (if map_of (px_buckets p) i = Some False then None else px_real p)"

definition proxy_backend :: "'r backend \<Rightarrow> 'r proxyDB backend" where
  "proxy_backend be =
     \<lparr>be_Get = \<lambda>p i k. case proxy_real p i of None \<Rightarrow> Inl ErrNotRealized | Some r \<Rightarrow> be_Get be r i k,
      be_Has = \<lambda>p i k. case proxy_real p i of None \<Rightarrow> False | Some r \<Rightarrow> be_Has be r i k,
      be_Set = \<lambda>p i k v. case proxy_real p i of None \<Rightarrow> Some (Inl ErrNotRealized)
        | Some r \<Rightarrow> map_option (\<lambda>x. case x of Inl e \<Rightarrow> Inl e | Inr r' \<Rightarrow> Inr (p\<lparr>px_real := Some r'\<rparr>)) (be_Set be r i k v),
      be_Delete = \<lambda>p i k. case proxy_real p i of None \<Rightarrow> Some (Inl ErrNotRealized)
        | Some r \<Rightarrow> map_option (\<lambda>x. case x of Inl e \<Rightarrow> Inl e | Inr r' \<Rightarrow> Inr (p\<lparr>px_real := Some r'\<rparr>)) (be_Delete be r i k)\<rparr>"

section \<open>The layer database\<close>

text \<open>
  The buffer of a bucket: the values written, \<open>None\<close> for a key deleted; no buffer at all
  once it is flushed. The real bucket of the same id is in the real database.
\<close>

type_synonym layer_data = "(bytes \<times> bytes option) list"

record 'r layerDB =
  flushed :: bool
  ld_real :: 'r
  ld_buckets :: "(bytes \<times> layer_data option) list"

definition NewLayerDB :: "'r \<Rightarrow> 'r layerDB" where
  "NewLayerDB r = \<lparr>flushed = False, ld_real = r, ld_buckets = []\<rparr>"

definition layerBucket_Get :: "'r backend \<Rightarrow> layer_data option \<Rightarrow> 'r \<Rightarrow> bytes \<Rightarrow> bytes \<Rightarrow> error + bytes option" where
  "layerBucket_Get be data r i k =
     (case Option.bind data (\<lambda>d. map_of d k) of Some v \<Rightarrow> Inr v | None \<Rightarrow> be_Get be r i k)"

definition layerBucket_Has :: "'r backend \<Rightarrow> layer_data option \<Rightarrow> 'r \<Rightarrow> bytes \<Rightarrow> bytes \<Rightarrow> bool" where
  "layerBucket_Has be data r i k =
     (case Option.bind data (\<lambda>d. map_of d k) of Some v \<Rightarrow> v \<noteq> None | None \<Rightarrow> be_Has be r i k)"

definition layerBucket_Set ::
    "'r backend \<Rightarrow> layer_data option \<Rightarrow> 'r \<Rightarrow> bytes \<Rightarrow> bytes \<Rightarrow> bytes option \<Rightarrow> (error + layer_data option \<times> 'r) option" where
  "layerBucket_Set be data r i k v =
     (if v = None then Some (Inl ErrIllegalArgument)
      else case data of
             Some d \<Rightarrow> Some (Inr (Some (AList.update k v d), r))
           | None \<Rightarrow> map_option (map_sum id (\<lambda>r'. (None, r'))) (be_Set be r i k v))"

definition layerBucket_Delete ::
    "'r backend \<Rightarrow> layer_data option \<Rightarrow> 'r \<Rightarrow> bytes \<Rightarrow> bytes \<Rightarrow> (error + layer_data option \<times> 'r) option" where
  "layerBucket_Delete be data r i k =
     (case data of
        Some d \<Rightarrow> Some (Inr (Some (AList.update k None d), r))
      | None \<Rightarrow> map_option (map_sum id (\<lambda>r'. (None, r'))) (be_Delete be r i k))"

text \<open>The writes of a flush, in the order the map is iterated, and the error that stopped them.\<close>

fun flush_loop :: "'r backend \<Rightarrow> bytes \<Rightarrow> layer_data \<Rightarrow> 'r \<Rightarrow> (error option \<times> 'r) option" where
  "flush_loop be i [] r = Some (None, r)"
| "flush_loop be i ((k, v) # d) r =
     (case (case v of None \<Rightarrow> be_Delete be r i k | Some x \<Rightarrow> be_Set be r i k (Some x)) of
        None \<Rightarrow> None
      | Some (Inl e) \<Rightarrow> Some (Some e, r)
      | Some (Inr r') \<Rightarrow> flush_loop be i d r')"

definition layerBucket_Flush ::
    "'r backend \<Rightarrow> (layer_data \<Rightarrow> layer_data) \<Rightarrow> bool \<Rightarrow> bytes \<Rightarrow> layer_data option \<Rightarrow> 'r \<Rightarrow>
     (error option \<times> layer_data option \<times> 'r) option" where
  "layerBucket_Flush be order write i data r =
     (case data of
        Some d \<Rightarrow>
          if write then
            (case flush_loop be i (order d) r of
               None \<Rightarrow> None
             | Some (Some e, r') \<Rightarrow> Some (Some e, data, r')
             | Some (None, r') \<Rightarrow> Some (None, None, r'))
          else Some (None, None, r)
      | None \<Rightarrow> Some (None, None, r))"

definition layerDB_GetBucket :: "'r layerDB \<Rightarrow> bytes \<Rightarrow> 'r layerDB" where
  "layerDB_GetBucket l i =
     (if map_of (ld_buckets l) i \<noteq> None \<or> flushed l then l else l\<lparr>ld_buckets := AList.update i (Some []) (ld_buckets l)\<rparr>)"

text \<open>The bucket a \<^verbatim>\<open>GetBucket\<close> returns: a buffer, or the real bucket once flushed.\<close>

definition layer_data_of :: "'r layerDB \<Rightarrow> bytes \<Rightarrow> layer_data option" where
  "layer_data_of l i = (case map_of (ld_buckets l) i of None \<Rightarrow> None | Some d \<Rightarrow> d)"

definition layer_store :: "bytes \<Rightarrow> 'r layerDB \<Rightarrow> layer_data option \<times> 'r \<Rightarrow> 'r layerDB" where
  "layer_store i l x =
     (case x of (d, r) \<Rightarrow>
        l\<lparr>ld_real := r, ld_buckets := (if map_of (ld_buckets l) i = None then ld_buckets l else AList.update i d (ld_buckets l))\<rparr>)"

definition layer_backend :: "'r backend \<Rightarrow> 'r layerDB backend" where
  "layer_backend be =
     \<lparr>be_Get = \<lambda>l0 i k. let l = layerDB_GetBucket l0 i in layerBucket_Get be (layer_data_of l i) (ld_real l) i k,
      be_Has = \<lambda>l0 i k. let l = layerDB_GetBucket l0 i in layerBucket_Has be (layer_data_of l i) (ld_real l) i k,
      be_Set = \<lambda>l0 i k v. let l = layerDB_GetBucket l0 i in
        if layer_data_of l i = None \<and> map_of (ld_buckets l) i = None
        then map_option (map_sum id (\<lambda>r. l\<lparr>ld_real := r\<rparr>)) (be_Set be (ld_real l) i k v)
        else map_option (map_sum id (layer_store i l)) (layerBucket_Set be (layer_data_of l i) (ld_real l) i k v),
      be_Delete = \<lambda>l0 i k. let l = layerDB_GetBucket l0 i in
        map_option (map_sum id (layer_store i l)) (layerBucket_Delete be (layer_data_of l i) (ld_real l) i k)\<rparr>"

text \<open>The buckets are flushed one after the other, in the order the map is iterated.\<close>

fun layer_flush_loop ::
    "'r backend \<Rightarrow> (layer_data \<Rightarrow> layer_data) \<Rightarrow> bool \<Rightarrow> bytes list \<Rightarrow> 'r layerDB \<Rightarrow> (error option \<times> 'r layerDB) option" where
  "layer_flush_loop be order write [] l = Some (None, l\<lparr>flushed := True\<rparr>)"
| "layer_flush_loop be order write (i # is) l =
     (case layerBucket_Flush be order write i (layer_data_of l i) (ld_real l) of
        None \<Rightarrow> None
      | Some (Some e, d, r) \<Rightarrow> Some (Some e, layer_store i l (d, r))
      | Some (None, d, r) \<Rightarrow> layer_flush_loop be order write is (layer_store i l (d, r)))"

definition layerDB_Flush ::
    "'r backend \<Rightarrow> (layer_data \<Rightarrow> layer_data) \<Rightarrow> (bytes list \<Rightarrow> bytes list) \<Rightarrow> bool \<Rightarrow> 'r layerDB \<Rightarrow> (error option \<times> 'r layerDB) option" where
  "layerDB_Flush be order bkorder write l = layer_flush_loop be order write (bkorder (map fst (ld_buckets l))) l"

section \<open>Opening\<close>

text \<open>
  The backends by name, with what creates a database in each. Every backend registers itself
  when the program starts; opening panics for an unknown one and when the creator fails.
\<close>

type_synonym 'd creators = "string \<rightharpoonup> (string \<Rightarrow> string \<Rightarrow> error + 'd)"

definition registerDBCreator :: "string \<Rightarrow> (string \<Rightarrow> string \<Rightarrow> error + 'd) \<Rightarrow> bool \<Rightarrow> 'd creators \<Rightarrow> 'd creators" where
  "registerDBCreator backend creator force bs = (if \<not> force \<and> bs backend \<noteq> None then bs else bs(backend \<mapsto> creator))"

definition openDatabase :: "'d creators \<Rightarrow> string \<Rightarrow> string \<Rightarrow> string \<Rightarrow> 'd option" where
  "openDatabase bs backend name dir =
     (case bs backend of
        None \<Rightarrow> None
      | Some create \<Rightarrow> (case create name dir of Inl _ \<Rightarrow> None | Inr db \<Rightarrow> Some db))"

definition db_Open :: "'d creators \<Rightarrow> string \<Rightarrow> string \<Rightarrow> string \<Rightarrow> 'd option" where
  "db_Open bs dir dbtype name = openDatabase bs dbtype name dir"

text \<open>The order in which the backends register themselves does not matter.\<close>

lemma registerDBCreator_commute:
  "b1 \<noteq> b2 \<Longrightarrow> registerDBCreator b1 c1 f1 (registerDBCreator b2 c2 f2 bs) = registerDBCreator b2 c2 f2 (registerDBCreator b1 c1 f1 bs)"
  by (auto simp: registerDBCreator_def)

end
