(* ===== verification/DbLayersProps.thy ===== *)
theory DbLayersProps
  imports DbLayers "HOL-Library.Multiset"
begin

text \<open>
  The databases of \<open>DbLayers\<close> against one contract: a database is a map from bucket and
  key to value, on which an operation does what its name says. The contract is the locale
  \<open>backend_laws\<close>; goleveldb and the map database keep it, and a layer over a database that
  keeps it keeps it too, so that the same lemmas speak about all of them and about layers over
  layers.
\<close>

section \<open>The contract\<close>

datatype db_op = OpSet bytes bytes bytes | OpDelete bytes bytes

fun op_bucket :: "db_op \<Rightarrow> bytes" where
  "op_bucket (OpSet i _ _) = i" | "op_bucket (OpDelete i _) = i"

fun run_ops :: "'r backend \<Rightarrow> db_op list \<Rightarrow> 'r \<Rightarrow> (error + 'r) option" where
  "run_ops be [] r = Some (Inr r)"
| "run_ops be (op # ops) r =
     (case (case op of OpSet i k v \<Rightarrow> be_Set be r i k (Some v) | OpDelete i k \<Rightarrow> be_Delete be r i k) of
        Some (Inr r') \<Rightarrow> run_ops be ops r' | x \<Rightarrow> x)"

type_synonym db_view = "bytes \<Rightarrow> bytes \<Rightarrow> bytes option"

fun op_view :: "db_op \<Rightarrow> db_view \<Rightarrow> db_view" where
  "op_view (OpSet i k v) m = m(i := (m i)(k := Some v))"
| "op_view (OpDelete i k) m = m(i := (m i)(k := None))"

fun op_ok :: "bytes set \<Rightarrow> (bytes \<Rightarrow> bool) \<Rightarrow> db_op \<Rightarrow> bool" where
  "op_ok ids key_ok (OpSet i k v) \<longleftrightarrow> i \<in> ids \<and> key_ok k"
| "op_ok ids key_ok (OpDelete i k) \<longleftrightarrow> i \<in> ids"

definition same_view :: "bytes set \<Rightarrow> db_view \<Rightarrow> db_view \<Rightarrow> bool" where
  "same_view ids m m' \<longleftrightarrow> (\<forall>i \<in> ids. m i = m' i)"

lemma same_view_op: "same_view ids m m' \<Longrightarrow> same_view ids (op_view op m) (op_view op m')"
  by (cases op) (auto simp: same_view_def)

lemma same_view_ops: "same_view ids m m' \<Longrightarrow> same_view ids (fold op_view ops m) (fold op_view ops m')"
  by (induction ops arbitrary: m m') (auto intro: same_view_op)

lemma same_view_refl [simp]: "same_view ids m m"
  by (simp add: same_view_def)

lemma same_view_trans: "same_view ids a b \<Longrightarrow> same_view ids b c \<Longrightarrow> same_view ids a c"
  by (simp add: same_view_def)

lemma same_view_sym: "same_view ids a b \<Longrightarrow> same_view ids b a"
  by (simp add: same_view_def)

text \<open>The view of a layer: what is buffered, and the real database below.\<close>

definition overlay :: "layer_data \<Rightarrow> (bytes \<Rightarrow> bytes option) \<Rightarrow> bytes \<Rightarrow> bytes option" where
  "overlay d m k = (case map_of d k of Some v \<Rightarrow> v | None \<Rightarrow> m k)"

definition layer_view :: "('r \<Rightarrow> db_view) \<Rightarrow> 'r layerDB \<Rightarrow> db_view" where
  "layer_view view l i = (case layer_data_of l i of None \<Rightarrow> view (ld_real l) i | Some d \<Rightarrow> overlay d (view (ld_real l) i))"

definition data_ok :: "(bytes \<Rightarrow> bool) \<Rightarrow> layer_data \<Rightarrow> bool" where
  "data_ok key_ok d \<longleftrightarrow> distinct (map fst d) \<and> (\<forall>k x. map_of d k = Some (Some x) \<longrightarrow> key_ok k)"

definition layer_ok :: "('r \<Rightarrow> bool) \<Rightarrow> bytes set \<Rightarrow> (bytes \<Rightarrow> bool) \<Rightarrow> 'r layerDB \<Rightarrow> bool" where
  "layer_ok ok ids key_ok l \<longleftrightarrow> ok (ld_real l) \<and> distinct (map fst (ld_buckets l)) \<and> fst ` set (ld_buckets l) \<subseteq> ids \<and>
     (\<forall>i d. map_of (ld_buckets l) i = Some (Some d) \<longrightarrow> data_ok key_ok d)"

definition permutes :: "('a list \<Rightarrow> 'a list) \<Rightarrow> bool" where
  "permutes order \<longleftrightarrow> (\<forall>xs. mset (order xs) = mset xs)"

lemma permutes_set: "permutes order \<Longrightarrow> set (order xs) = set xs"
  by (metis permutes_def set_mset_mset)

lemma permutes_distinct: "permutes order \<Longrightarrow> distinct (map f (order xs)) \<longleftrightarrow> distinct (map f xs)"
  by (metis permutes_def mset_map mset_eq_imp_distinct_iff)

lemma data_ok_order: "permutes order \<Longrightarrow> data_ok key_ok d \<Longrightarrow> data_ok key_ok (order d) \<and> map_of (order d) = map_of d"
  using permutes_set [of order d] permutes_distinct [of order fst d] map_of_inject_set [of "order d" d]
  by (simp add: data_ok_def)

lemma data_ok_update: "data_ok key_ok d \<Longrightarrow> (v \<noteq> None \<longrightarrow> key_ok k) \<Longrightarrow> data_ok key_ok (AList.update k v d)"
  by (auto simp: data_ok_def distinct_update update_conv')

locale backend_laws =
  fixes be :: "'r backend" and view :: "'r \<Rightarrow> db_view" and ok :: "'r \<Rightarrow> bool" and ids :: "bytes set" and key_ok :: "bytes \<Rightarrow> bool"
  assumes get_view: "ok r \<Longrightarrow> i \<in> ids \<Longrightarrow> be_Get be r i k = Inr (view r i k)"
    and has_view: "ok r \<Longrightarrow> i \<in> ids \<Longrightarrow> be_Has be r i k \<longleftrightarrow> view r i k \<noteq> None"
    and set_view: "ok r \<Longrightarrow> i \<in> ids \<Longrightarrow> key_ok k \<Longrightarrow>
      \<exists>r'. be_Set be r i k (Some v) = Some (Inr r') \<and> ok r' \<and> same_view ids (view r') (op_view (OpSet i k v) (view r))"
    and delete_view: "ok r \<Longrightarrow> i \<in> ids \<Longrightarrow>
      \<exists>r'. be_Delete be r i k = Some (Inr r') \<and> ok r' \<and> same_view ids (view r') (op_view (OpDelete i k) (view r))"
begin

lemma run_ops_view:
  assumes "ok r" "\<forall>op \<in> set ops. op_ok ids key_ok op"
  shows "\<exists>r'. run_ops be ops r = Some (Inr r') \<and> ok r' \<and> same_view ids (view r') (fold op_view ops (view r))"
  using assms
proof (induction ops arbitrary: r)
  case (Cons op ops)
  obtain r1 where 1: "(case op of OpSet i k v \<Rightarrow> be_Set be r i k (Some v) | OpDelete i k \<Rightarrow> be_Delete be r i k) = Some (Inr r1)"
    "ok r1" "same_view ids (view r1) (op_view op (view r))"
    using set_view [OF Cons.prems(1)] delete_view [OF Cons.prems(1)] Cons.prems(2) by (cases op) force+
  obtain r2 where "run_ops be ops r1 = Some (Inr r2)" "ok r2" "same_view ids (view r2) (fold op_view ops (view r1))"
    using Cons.IH [OF 1(2)] Cons.prems(2) by auto
  then show ?case using 1(1) same_view_ops [OF 1(3)] by (auto intro: same_view_trans)
qed simp

lemma flush_loop_view:
  assumes "ok r" "i \<in> ids" "data_ok key_ok d"
  shows "\<exists>r'. flush_loop be i d r = Some (None, r') \<and> ok r' \<and> same_view ids (view r') ((view r)(i := overlay d (view r i)))"
  using assms
proof (induction d arbitrary: r)
  case Nil
  then show ?case by (auto simp: overlay_def same_view_def)
next
  case (Cons e d)
  obtain k v where e: "e = (k, v)" by (cases e)
  have d: "map_of d k = None" "distinct (map fst d)" using Cons.prems(3) by (auto simp: data_ok_def e map_of_eq_None_iff)
  have dk: "data_ok key_ok d"
    unfolding data_ok_def
  proof (intro conjI allI impI d(2))
    fix k' x
    assume "map_of d k' = Some (Some x)"
    then show "key_ok k'" using Cons.prems(3) d(1) by (cases "k' = k") (auto simp: data_ok_def e)
  qed
  obtain r1 where 1: "(case v of None \<Rightarrow> be_Delete be r i k | Some x \<Rightarrow> be_Set be r i k (Some x)) = Some (Inr r1)"
    "ok r1" "same_view ids (view r1) ((view r)(i := (view r i)(k := v)))"
  proof (cases v)
    case None
    then show ?thesis using delete_view [OF Cons.prems(1,2), of k] that by auto
  next
    case (Some x)
    then have "key_ok k" using Cons.prems(3) by (auto simp: data_ok_def e)
    then show ?thesis using set_view [OF Cons.prems(1,2), of k x] that Some by auto
  qed
  obtain r2 where 2: "flush_loop be i d r1 = Some (None, r2)" "ok r2" "same_view ids (view r2) ((view r1)(i := overlay d (view r1 i)))"
    using Cons.IH [OF 1(2) Cons.prems(2) dk] by blast
  have "overlay d ((view r i)(k := v)) = overlay (e # d) (view r i)"
    using d(1) by (auto simp: overlay_def e fun_eq_iff split: option.split)
  then have "same_view ids (view r2) ((view r)(i := overlay (e # d) (view r i)))"
    using 1(3) 2(3) Cons.prems(2) by (auto simp: same_view_def)
  moreover have "flush_loop be i (e # d) r = Some (None, r2)" using 1(1) 2(1) by (simp add: e)
  ultimately show ?case using 2(2) by blast
qed

end

section \<open>Layers\<close>

lemma overlay_Nil [simp]: "overlay [] m = m"
  by (simp add: overlay_def fun_eq_iff)

lemma overlay_update: "overlay (AList.update k v d) m = (overlay d m)(k := v)"
  by (auto simp: overlay_def update_conv' fun_eq_iff)

lemma GetBucket_same:
  assumes "layer_ok ok ids key_ok l" "i \<in> ids"
  shows "layer_ok ok ids key_ok (layerDB_GetBucket l i)" "layer_view view (layerDB_GetBucket l i) = layer_view view l"
    "ld_real (layerDB_GetBucket l i) = ld_real l"
  using assms
  by (auto simp: layerDB_GetBucket_def layer_ok_def layer_view_def layer_data_of_def update_conv' dom_update distinct_update data_ok_def
      fun_eq_iff split: option.splits if_splits simp del: map_of_eq_Some_iff)

lemma layer_store_data:
  "layer_data_of (layer_store i l (d, r)) j = (if j = i \<and> map_of (ld_buckets l) i \<noteq> None then d else layer_data_of l j)"
  "ld_real (layer_store i l (d, r)) = r" "fst ` set (ld_buckets (layer_store i l (d, r))) = fst ` set (ld_buckets l)"
  by (auto simp: layer_store_def layer_data_of_def update_conv' dom_update map_of_eq_None_iff)

lemma layer_store_ok:
  assumes "layer_ok ok ids key_ok l" "ok r" "\<And>x. d = Some x \<Longrightarrow> data_ok key_ok x"
  shows "layer_ok ok ids key_ok (layer_store i l (d, r))"
  using assms
  by (auto simp: layer_ok_def layer_store_def update_conv' dom_update distinct_update map_of_eq_None_iff split: if_splits
      simp del: map_of_eq_Some_iff)

lemma layer_data_ok: "layer_ok ok ids key_ok l \<Longrightarrow> layer_data_of l i = Some d \<Longrightarrow> data_ok key_ok d \<and> map_of (ld_buckets l) i \<noteq> None"
  by (auto simp: layer_ok_def layer_data_of_def split: option.splits)

context backend_laws
begin

lemma flush_one:
  assumes "layer_ok ok ids key_ok l" "i \<in> ids" "permutes order"
  shows "\<exists>r'. layerBucket_Flush be order True i (layer_data_of l i) (ld_real l) = Some (None, None, r') \<and> ok r' \<and>
    same_view ids (view r') ((view (ld_real l))(i := layer_view view l i))"
proof (cases "layer_data_of l i")
  case None
  then show ?thesis using assms(1) by (simp add: layerBucket_Flush_def layer_view_def layer_ok_def)
next
  case (Some d)
  have d: "data_ok key_ok (order d)" "map_of (order d) = map_of d"
    using data_ok_order [OF assms(3)] layer_data_ok [OF assms(1) Some] by auto
  have "ok (ld_real l)" using assms(1) by (simp add: layer_ok_def)
  from flush_loop_view [OF this assms(2) d(1)] obtain r' where r: "flush_loop be i (order d) (ld_real l) = Some (None, r')" "ok r'"
    "same_view ids (view r') ((view (ld_real l))(i := overlay (order d) (view (ld_real l) i)))" by blast
  have "overlay (order d) (view (ld_real l) i) = layer_view view l i"
    using Some d(2) by (simp add: overlay_def layer_view_def fun_eq_iff)
  with r show ?thesis by (simp add: layerBucket_Flush_def Some)
qed

lemma flush_one_view:
  assumes "layer_ok ok ids key_ok l" "i \<in> fst ` set (ld_buckets l)" "same_view ids (view r) ((view (ld_real l))(i := layer_view view l i))"
  shows "same_view ids (layer_view view (layer_store i l (None, r))) (layer_view view l)"
  unfolding same_view_def
proof
  fix j
  assume "j \<in> ids"
  then have r: "view r j = (if j = i then layer_view view l i else view (ld_real l) j)" using assms(3) by (auto simp: same_view_def)
  have "map_of (ld_buckets l) i \<noteq> None" using assms(2) by (simp add: map_of_eq_None_iff)
  then show "layer_view view (layer_store i l (None, r)) j = layer_view view l j"
    using r by (cases "j = i") (auto simp: layer_view_def layer_store_data split: option.split)
qed

lemma layer_flush_loop_view:
  assumes "layer_ok ok ids key_ok l" "permutes order" "set is \<subseteq> fst ` set (ld_buckets l)"
  shows "\<exists>l'. layer_flush_loop be order True is l = Some (None, l') \<and> flushed l' \<and> layer_ok ok ids key_ok l' \<and>
    same_view ids (layer_view view l') (layer_view view l) \<and>
    (\<forall>j. layer_data_of l' j = (if j \<in> set is then None else layer_data_of l j))"
  using assms(1,3)
proof (induction "is" arbitrary: l)
  case Nil
  then show ?case by (auto simp: layer_ok_def layer_view_def layer_data_of_def same_view_def split: option.split)
next
  case (Cons i "is")
  have i: "i \<in> ids" "i \<in> fst ` set (ld_buckets l)" using Cons.prems by (auto simp: layer_ok_def)
  obtain r where r: "layerBucket_Flush be order True i (layer_data_of l i) (ld_real l) = Some (None, None, r)" "ok r"
    "same_view ids (view r) ((view (ld_real l))(i := layer_view view l i))"
    using flush_one [OF Cons.prems(1) i(1) assms(2)] by blast
  let ?l = "layer_store i l (None, r)"
  have "layer_ok ok ids key_ok ?l" using Cons.prems(1) r(2) by (rule layer_store_ok) simp
  from Cons.IH [OF this] Cons.prems(2) obtain l' where l': "layer_flush_loop be order True is ?l = Some (None, l')" "flushed l'"
    "layer_ok ok ids key_ok l'" "same_view ids (layer_view view l') (layer_view view ?l)"
    "\<forall>j. layer_data_of l' j = (if j \<in> set is then None else layer_data_of ?l j)"
    by (auto simp: layer_store_data)
  have "layer_data_of l' j = (if j \<in> set (i # is) then None else layer_data_of l j)" for j
    using l'(5) i(2) by (auto simp: layer_store_data map_of_eq_None_iff)
  moreover have "same_view ids (layer_view view l') (layer_view view l)"
    using same_view_trans [OF l'(4) flush_one_view [OF Cons.prems(1) i(2) r(3)]] .
  ultimately show ?case using r(1) l'(1-3) by auto
qed

text \<open>A flush that writes makes the real database what the layer showed; one that does not leaves it alone.\<close>

lemma layerDB_Flush_view:
  assumes "layer_ok ok ids key_ok l" "permutes order" "permutes bkorder"
  shows "\<exists>l'. layerDB_Flush be order bkorder True l = Some (None, l') \<and> flushed l' \<and> ok (ld_real l') \<and>
    same_view ids (view (ld_real l')) (layer_view view l)"
proof -
  have s: "set (bkorder (map fst (ld_buckets l))) = fst ` set (ld_buckets l)" using permutes_set [OF assms(3)] by simp
  then obtain l' where l': "layerDB_Flush be order bkorder True l = Some (None, l')" "flushed l'" "layer_ok ok ids key_ok l'"
    "same_view ids (layer_view view l') (layer_view view l)"
    "\<forall>j. layer_data_of l' j = (if j \<in> fst ` set (ld_buckets l) then None else layer_data_of l j)"
    using layer_flush_loop_view [OF assms(1,2), of "bkorder (map fst (ld_buckets l))"] by (auto simp: layerDB_Flush_def)
  have "layer_data_of l' j = None" for j
  proof (cases "j \<in> fst ` set (ld_buckets l)")
    case False
    then have "layer_data_of l j = None" by (simp add: layer_data_of_def map_of_eq_None_iff [THEN iffD2])
    then show ?thesis using l'(5) by simp
  qed (use l'(5) in simp)
  then have "layer_view view l' = view (ld_real l')" by (simp add: layer_view_def fun_eq_iff)
  with l' show ?thesis by (auto simp: layer_ok_def)
qed

lemma layer_write:
  assumes "layer_ok ok ids key_ok l" "i \<in> ids" "v \<noteq> None \<longrightarrow> key_ok k"
  shows "\<exists>l'. (case v of None \<Rightarrow> be_Delete (layer_backend be) l i k | Some x \<Rightarrow> be_Set (layer_backend be) l i k (Some x)) = Some (Inr l') \<and>
    layer_ok ok ids key_ok l' \<and> same_view ids (layer_view view l') ((layer_view view l)(i := (layer_view view l i)(k := v)))"
proof -
  let ?l = "layerDB_GetBucket l i"
  note same = GetBucket_same [OF assms(1,2)]
  show ?thesis
  proof (cases "layer_data_of ?l i")
    case (Some d)
    let ?l' = "layer_store i ?l (Some (AList.update k v d), ld_real ?l)"
    have d: "data_ok key_ok d" "map_of (ld_buckets ?l) i \<noteq> None" using layer_data_ok [OF same(1) Some] by auto
    have ok': "layer_ok ok ids key_ok ?l'"
      using same(1) by (intro layer_store_ok) (use d(1) assms(3) in \<open>auto simp: layer_ok_def intro!: data_ok_update\<close>)
    have "layer_view view ?l' = (layer_view view ?l)(i := (layer_view view ?l i)(k := v))"
      using d(2) Some by (auto simp: layer_view_def layer_store_data overlay_update fun_eq_iff split: option.split)
    then have "same_view ids (layer_view view ?l') ((layer_view view l)(i := (layer_view view l i)(k := v)))" by (simp only: same(2) same_view_refl)
    moreover have "(case v of None \<Rightarrow> be_Delete (layer_backend be) l i k | Some x \<Rightarrow> be_Set (layer_backend be) l i k (Some x)) = Some (Inr ?l')"
      using Some d(2) by (cases v) (simp_all add: layer_backend_def Let_def layerBucket_Set_def layerBucket_Delete_def)
    ultimately show ?thesis using ok' by blast
  next
    case None
    have okr: "ok (ld_real ?l)" using same(1) by (simp add: layer_ok_def)
    obtain r where r: "(case v of None \<Rightarrow> be_Delete be (ld_real ?l) i k | Some x \<Rightarrow> be_Set be (ld_real ?l) i k (Some x)) = Some (Inr r)" "ok r"
      "same_view ids (view r) ((view (ld_real ?l))(i := (view (ld_real ?l) i)(k := v)))"
      using set_view [OF okr assms(2)] delete_view [OF okr assms(2), of k] assms(3) by (cases v) auto
    let ?l' = "layer_store i ?l (None, r)"
    have data: "layer_data_of ?l' j = layer_data_of ?l j" for j using None by (simp add: layer_store_data)
    have "same_view ids (layer_view view ?l') ((layer_view view ?l)(i := (layer_view view ?l i)(k := v)))"
      unfolding same_view_def
    proof
      fix j
      assume "j \<in> ids"
      then have "view r j = (if j = i then (view (ld_real ?l) i)(k := v) else view (ld_real ?l) j)" using r(3) by (auto simp: same_view_def)
      then show "layer_view view ?l' j = ((layer_view view ?l)(i := (layer_view view ?l i)(k := v))) j"
        using None by (cases "j = i") (simp_all add: layer_view_def data layer_store_data split: option.split)
    qed
    moreover have "layer_ok ok ids key_ok ?l'" using same(1) r(2) by (intro layer_store_ok) simp_all
    moreover have "?l' = ?l\<lparr>ld_real := r\<rparr>" if "map_of (ld_buckets ?l) i = None" using that by (simp add: layer_store_def)
    then have "(case v of None \<Rightarrow> be_Delete (layer_backend be) l i k | Some x \<Rightarrow> be_Set (layer_backend be) l i k (Some x)) = Some (Inr ?l')"
      using None r(1) by (cases v) (auto simp: layer_backend_def Let_def layerBucket_Set_def layerBucket_Delete_def)
    ultimately show ?thesis unfolding same(2) by blast
  qed
qed

text \<open>A layer keeps the contract of the database below it.\<close>

lemma layer_laws: "backend_laws (layer_backend be) (layer_view view) (layer_ok ok ids key_ok) ids key_ok"
proof
  fix l i k
  assume l: "layer_ok ok ids key_ok l" "i \<in> ids"
  note same = GetBucket_same [OF l]
  have okr: "ok (ld_real (layerDB_GetBucket l i))" using same(1) by (simp add: layer_ok_def)
  have v: "layer_view view l i k = (case Option.bind (layer_data_of (layerDB_GetBucket l i) i) (\<lambda>d. map_of d k) of Some v \<Rightarrow> v
      | None \<Rightarrow> view (ld_real (layerDB_GetBucket l i)) i k)"
    unfolding same(2) [of view, symmetric] by (simp add: layer_view_def overlay_def split: option.split)
  show "be_Get (layer_backend be) l i k = Inr (layer_view view l i k)"
    using get_view [OF okr l(2)] unfolding v by (simp add: layer_backend_def Let_def layerBucket_Get_def split: option.split)
  show "be_Has (layer_backend be) l i k \<longleftrightarrow> layer_view view l i k \<noteq> None"
    using has_view [OF okr l(2)] unfolding v by (simp add: layer_backend_def Let_def layerBucket_Has_def split: option.split)
  show "\<exists>r'. be_Delete (layer_backend be) l i k = Some (Inr r') \<and> layer_ok ok ids key_ok r' \<and>
      same_view ids (layer_view view r') (op_view (OpDelete i k) (layer_view view l))"
    using layer_write [OF l, of None k] by simp
  show "\<exists>r'. be_Set (layer_backend be) l i k (Some v) = Some (Inr r') \<and> layer_ok ok ids key_ok r' \<and>
      same_view ids (layer_view view r') (op_view (OpSet i k v) (layer_view view l))" if "key_ok k" for v
    using layer_write [OF l, of "Some v" k] that by simp
qed

end

section \<open>The databases that keep the contract\<close>

text \<open>
  Buckets of goleveldb share one key space: their ids must not be prefixes of each other. The
  ids of the program are empty or two characters long; the contract is for those of one length.
\<close>

interpretation level: backend_laws level_backend Bucket_Get kv_ok "{i. length i = n}" "\<lambda>_. True" for n
proof
  fix r :: "bytes kv" and i k v :: bytes
  assume r: "kv_ok r" "i \<in> {i. length i = n}"
  show "be_Get level_backend r i k = Inr (Bucket_Get r i k)" "be_Has level_backend r i k \<longleftrightarrow> Bucket_Get r i k \<noteq> None"
    by (simp_all add: level_backend_def Bucket_Has_def Bucket_Get_def)
  have other: "j @ k' = i @ k \<longleftrightarrow> j = i \<and> k' = k" if "length j = n" for j k'
    using that r(2) by simp
  show "\<exists>r'. be_Set level_backend r i k (Some v) = Some (Inr r') \<and> kv_ok r' \<and>
      same_view {i. length i = n} (Bucket_Get r') (op_view (OpSet i k v) (Bucket_Get r))"
    using r(1) other
    by (auto simp: level_backend_def Bucket_Set_def Bucket_Get_def same_view_def nonNilBytes_def fun_eq_iff)
  show "\<exists>r'. be_Delete level_backend r i k = Some (Inr r') \<and> kv_ok r' \<and>
      same_view {i. length i = n} (Bucket_Get r') (op_view (OpDelete i k) (Bucket_Get r))"
    using r(1) other
    by (auto simp: level_backend_def Bucket_Delete_def Bucket_Get_def same_view_def fun_eq_iff)
qed

definition map_view :: "mapDatabase \<Rightarrow> db_view" where
  "map_view db i = map_of (fst (mapDatabase_GetBucket db i))"

definition map_ok :: "mapDatabase \<Rightarrow> bool" where
  "map_ok db \<longleftrightarrow> distinct (map fst db) \<and> (\<forall>i bk. map_of db i = Some bk \<longrightarrow> distinct (map fst bk))"

interpretation mapdb: backend_laws map_backend map_view map_ok UNIV "\<lambda>k. k \<noteq> []"
proof
  fix r i k v
  assume r: "map_ok r"
  show "be_Get map_backend r i k = Inr (map_view r i k)" "be_Has map_backend r i k \<longleftrightarrow> map_view r i k \<noteq> None"
    by (simp_all add: map_backend_def map_view_def mapBucket_Get_def mapBucket_Has_def)
  obtain bk db where g: "mapDatabase_GetBucket r i = (bk, db)" by (cases "mapDatabase_GetBucket r i")
  have bk: "distinct (map fst bk)" "map_ok db" "map_view db = map_view r" "map_view r i = map_of bk"
    using r g by (auto simp: mapDatabase_GetBucket_def map_ok_def map_view_def fun_eq_iff update_conv' distinct_update
        simp del: map_of_eq_Some_iff split: option.splits if_splits)
  have upd: "map_ok (AList.update i bk' db) \<and> map_view (AList.update i bk' db) = (map_view r)(i := map_of bk')" if "distinct (map fst bk')" for bk'
    using that bk(2) unfolding bk(3) [symmetric]
    by (auto simp: map_ok_def map_view_def mapDatabase_GetBucket_def fun_eq_iff update_conv' distinct_update
        simp del: map_of_eq_Some_iff split: option.splits if_splits)
  show "\<exists>r'. be_Set map_backend r i k (Some v) = Some (Inr r') \<and> map_ok r' \<and> same_view UNIV (map_view r') (op_view (OpSet i k v) (map_view r))"
    if "k \<noteq> []"
    using that upd [of "AList.update k v bk"] bk
    by (auto simp: map_backend_def g mapBucket_Set_def nonNilBytes_def distinct_update update_conv')
  show "\<exists>r'. be_Delete map_backend r i k = Some (Inr r') \<and> map_ok r' \<and> same_view UNIV (map_view r') (op_view (OpDelete i k) (map_view r))"
    using upd [of "AList.delete k bk"] bk
    by (auto simp: map_backend_def g mapBucket_Delete_def distinct_delete delete_conv')
qed

interpretation level_layer: backend_laws "layer_backend level_backend" "layer_view Bucket_Get" "layer_ok kv_ok {i. length i = n} (\<lambda>_. True)"
  "{i. length i = n}" "\<lambda>_. True" for n
  by (rule level.layer_laws)

interpretation map_layer: backend_laws "layer_backend map_backend" "layer_view map_view" "layer_ok map_ok UNIV (\<lambda>k. k \<noteq> [])"
  UNIV "\<lambda>k. k \<noteq> []"
  by (rule mapdb.layer_laws)

section \<open>Flushing\<close>

definition buffering :: "'r layerDB \<Rightarrow> bool" where
  "buffering l \<longleftrightarrow> \<not> flushed l \<and> (\<forall>i. map_of (ld_buckets l) i \<noteq> Some None)"

lemma buffering_op:
  assumes "buffering l" "(case op of OpSet i k v \<Rightarrow> be_Set (layer_backend be) l i k (Some v) | OpDelete i k \<Rightarrow> be_Delete (layer_backend be) l i k) = Some (Inr l')"
  shows "buffering l' \<and> ld_real l' = ld_real l"
proof -
  let ?l = "layerDB_GetBucket l (op_bucket op)"
  have l: "buffering ?l" "ld_real ?l = ld_real l" "layer_data_of ?l (op_bucket op) \<noteq> None"
    using assms(1) by (auto simp: buffering_def layerDB_GetBucket_def layer_data_of_def update_conv' split: option.splits) (metis option.exhaust)
  then obtain d where d: "layer_data_of ?l (op_bucket op) = Some d" by blast
  have st: "buffering (layer_store i ?l (Some d', ld_real ?l)) \<and> ld_real (layer_store i ?l (Some d', ld_real ?l)) = ld_real l" for i d'
    using l(1,2) by (auto simp: buffering_def layer_store_def update_conv')
  show ?thesis
    using assms(2) d st
    by (cases op) (auto simp: layer_backend_def Let_def layerBucket_Set_def layerBucket_Delete_def)
qed

lemma buffering_ops: "buffering l \<Longrightarrow> run_ops (layer_backend be) ops l = Some (Inr l') \<Longrightarrow> ld_real l' = ld_real l"
proof (induction ops arbitrary: l)
  case (Cons op ops)
  obtain l1 where l1: "(case op of OpSet i k v \<Rightarrow> be_Set (layer_backend be) l i k (Some v) | OpDelete i k \<Rightarrow> be_Delete (layer_backend be) l i k) = Some (Inr l1)"
    "run_ops (layer_backend be) ops l1 = Some (Inr l')"
    using Cons.prems(2) by (auto split: option.splits sum.splits)
  from buffering_op [OF Cons.prems(1) this(1)] Cons.IH [OF _ this(2)] show ?case by simp
qed simp

lemma discard_loop: "\<exists>l'. layer_flush_loop be order False is l = Some (None, l') \<and> ld_real l' = ld_real l"
proof (induction "is" arbitrary: l)
  case (Cons i "is")
  have "layerBucket_Flush be order False i (layer_data_of l i) (ld_real l) = Some (None, None, ld_real l)"
    by (simp add: layerBucket_Flush_def split: option.split)
  with Cons [of "layer_store i l (None, ld_real l)"] show ?case by (simp add: layer_store_data)
qed simp

text \<open>
  C35: A layer database is a transaction. Run any writes and deletions on a layer over a
  goleveldb database: reading through the layer shows what running them on the database itself
  would show, the database below is untouched, a flush that writes leaves in it exactly what
  running them directly would have, whatever order the Go maps are iterated in, and a flush
  that does not write leaves it as it was.
\<close>

theorem layer_is_transaction:
  assumes "kv_ok db" "\<forall>op \<in> set ops. length (op_bucket op) = n" "permutes order" "permutes bkorder" "length i = n"
  shows "\<exists>direct l written discarded. run_ops level_backend ops db = Some (Inr direct) \<and>
    run_ops (layer_backend level_backend) ops (NewLayerDB db) = Some (Inr l) \<and> ld_real l = db \<and>
    be_Get (layer_backend level_backend) l i k = Inr (Bucket_Get direct i k) \<and>
    layerDB_Flush level_backend order bkorder True l = Some (None, written) \<and> Bucket_Get (ld_real written) i k = Bucket_Get direct i k \<and>
    layerDB_Flush level_backend order bkorder False l = Some (None, discarded) \<and> ld_real discarded = db"
proof -
  have ops: "\<forall>op \<in> set ops. op_ok {i. length i = n} (\<lambda>_. True) op"
  proof
    fix op
    assume "op \<in> set ops"
    then have "length (op_bucket op) = n" using assms(2) by blast
    then show "op_ok {i. length i = n} (\<lambda>_. True) op" by (cases op) simp_all
  qed
  have new: "layer_ok kv_ok {i. length i = n} (\<lambda>_. True) (NewLayerDB db)" "layer_view Bucket_Get (NewLayerDB db) = Bucket_Get db"
    "buffering (NewLayerDB db)" "ld_real (NewLayerDB db) = db"
    using assms(1) by (auto simp: NewLayerDB_def layer_ok_def layer_view_def layer_data_of_def buffering_def fun_eq_iff)
  obtain direct where d: "run_ops level_backend ops db = Some (Inr direct)"
    "same_view {i. length i = n} (Bucket_Get direct) (fold op_view ops (Bucket_Get db))"
    using level.run_ops_view [OF assms(1) ops] by blast
  obtain l where l: "run_ops (layer_backend level_backend) ops (NewLayerDB db) = Some (Inr l)" "layer_ok kv_ok {i. length i = n} (\<lambda>_. True) l"
    "same_view {i. length i = n} (layer_view Bucket_Get l) (fold op_view ops (Bucket_Get db))"
    using level_layer.run_ops_view [OF new(1) ops] unfolding new(2) by blast
  obtain written where w: "layerDB_Flush level_backend order bkorder True l = Some (None, written)"
    "same_view {i. length i = n} (Bucket_Get (ld_real written)) (layer_view Bucket_Get l)"
    using level.layerDB_Flush_view [OF l(2) assms(3,4)] by blast
  obtain discarded where "layerDB_Flush level_backend order bkorder False l = Some (None, discarded)" "ld_real discarded = ld_real l"
    using discard_loop unfolding layerDB_Flush_def by blast
  moreover have "ld_real l = db" using buffering_ops [OF new(3) l(1)] new(4) by simp
  moreover have "layer_view Bucket_Get l i = Bucket_Get direct i" "Bucket_Get (ld_real written) i = layer_view Bucket_Get l i"
    using d(2) l(3) w(2) assms(5) by (simp_all add: same_view_def)
  moreover have "be_Get (layer_backend level_backend) l i k = Inr (layer_view Bucket_Get l i k)"
    using level_layer.get_view [OF l(2)] assms(5) by simp
  ultimately show ?thesis using d(1) l(1) w(1) by simp
qed

theorem layer_is_transaction_witness:
  "\<exists>l written. run_ops (layer_backend level_backend) [OpSet [71, 86] [1] [5], OpDelete [71, 86] [2]] (NewLayerDB [([71, 86, 2], [9])]) = Some (Inr l) \<and>
    layerDB_Flush level_backend (\<lambda>d. rev d) (\<lambda>is. is) True l = Some (None, written) \<and> Bucket_Get (ld_real written) [71, 86] [1] = Some [5]"
proof -
  have "kv_ok [([71, 86, 2], [9::byte])]" by (simp add: kv_ok_def)
  from layer_is_transaction [OF this, of "[OpSet [71, 86] [1] [5], OpDelete [71, 86] [2]]" 2 rev "\<lambda>is. is" "[71, 86]" "[1]"]
  show ?thesis by (auto simp: permutes_def level_backend_def Bucket_Set_def Bucket_Delete_def Bucket_Get_def nonNilBytes_def kv_get_def
      kv_del_def)
qed

end
