(* ===== verification/Rlp.thy ===== *)
theory Rlp
  imports Hexint
begin

text \<open>
  \<^verbatim>\<open>common/codec/rlp.go\<close>: the RLP codec over reflected Go values. A value is a term of
  \<open>rlp_val\<close> and the type it is decoded into a term of \<open>rlp_ty\<close>; readers and writers are byte
  strings, and \<open>None\<close> is a panic. Types that bring their own encoding, what was written before
  an error, and the limits of memory are not modelled; the fields of structs are exported and
  the variable decoded into is zero.
\<close>

section \<open>Values and types\<close>

datatype rlp_val =
    RBool bool
  | RUint u64
  | RInt u64
  | RBytes bytes
  | RByteArray bytes
  | RString bytes
  | RList "rlp_val list"
  | RPtr "rlp_val option"
  | RStruct "rlp_val list"
  | RMap "(rlp_val \<times> rlp_val) list"
  | ROther

datatype rlp_ty =
    TBool
  | TUint nat
  | TInt nat
  | TBytes
  | TByteArray nat
  | TString
  | TSlice rlp_ty
  | TArray nat rlp_ty
  | TPtr rlp_ty
  | TStruct "rlp_ty list"
  | TOther

section \<open>Numbers\<close>

definition uint64ToBytes :: "u64 \<Rightarrow> bytes" where
  "uint64ToBytes v = Uint64ToBytes_loop 8 v []"

definition bytesToUint64 :: "bytes \<Rightarrow> u64" where
  "bytesToUint64 bs = foldl (\<lambda>v b. push_bit 8 v + ucast b) 0 bs"

definition sizeToBytes :: "nat \<Rightarrow> bytes" where
  "sizeToBytes s = uint64ToBytes (of_nat s)"

text \<open>Negative numbers: sign and magnitude; the sign is the top bit of the first byte.\<close>

fun int64ToBytes_loop :: "nat \<Rightarrow> u64 \<Rightarrow> bytes \<Rightarrow> bytes" where
  "int64ToBytes_loop 0 v bs = (case bs of [] \<Rightarrow> [] | b # bs \<Rightarrow> (b OR 128) # bs)"
| "int64ToBytes_loop (Suc idx) v bs =
     (let b = ucast (v AND 255); v' = signed_drop_bit 8 v
      in if v AND 128 \<noteq> 0 then int64ToBytes_loop idx v' (b # bs)
         else if v' = 0 then (b OR 128) # bs
         else int64ToBytes_loop idx v' (b # bs))"

definition int64ToBytes :: "u64 \<Rightarrow> bytes" where
  "int64ToBytes v = (if 0 \<le> sint v then uint64ToBytes v else int64ToBytes_loop 8 (- v) [])"

definition bytesToInt64 :: "bytes \<Rightarrow> u64" where
  "bytesToInt64 bs =
     (case bs of
        [] \<Rightarrow> 0
      | b # bs' \<Rightarrow>
          if b AND 128 \<noteq> 0 then - bytesToUint64 ((b AND 127) # bs')
          else bytesToUint64 bs)"

section \<open>Encoder\<close>

text \<open>
  An encoder writes to its own buffer; a container under construction is an encoder of its own,
  which is written when its parent is flushed.
\<close>

datatype rlpEncoder = RlpEncoder (enc_out: bytes) (enc_container: "rlpEncoder option")

definition rlp_header :: "nat \<Rightarrow> nat \<Rightarrow> bytes" where
  "rlp_header start l =
     (if l \<le> 55 then [of_nat (start + l)]
      else (let sz = sizeToBytes l in of_nat (start + 55 + length sz) # sz))"

definition writeContainer :: "bytes \<Rightarrow> bytes \<Rightarrow> bytes" where
  "writeContainer out b = out @ rlp_header 192 (length b) @ b"

fun enc_flush :: "rlpEncoder \<Rightarrow> rlpEncoder" where
  "enc_flush (RlpEncoder out None) = RlpEncoder out None"
| "enc_flush (RlpEncoder out (Some c)) = RlpEncoder (writeContainer out (enc_out (enc_flush c))) None"

definition encodeBytes :: "bytes \<Rightarrow> rlpEncoder \<Rightarrow> rlpEncoder" where
  "encodeBytes b e =
     (let out = enc_out (enc_flush e)
      in RlpEncoder (if length b = 1 \<and> hd b < 128 then out @ b else out @ rlp_header 128 (length b) @ b) None)"

definition encodeContainer :: "bytes \<Rightarrow> rlpEncoder \<Rightarrow> rlpEncoder" where
  "encodeContainer b e = RlpEncoder (writeContainer (enc_out (enc_flush e)) b) None"

type_synonym encoding = "rlpEncoder \<Rightarrow> (error + rlpEncoder) option"

fun encode_all :: "encoding list \<Rightarrow> encoding" where
  "encode_all [] e = Some (Inr e)"
| "encode_all (f # fs) e = (case f e of Some (Inr e') \<Rightarrow> encode_all fs e' | x \<Rightarrow> x)"

definition in_container :: "encoding \<Rightarrow> encoding" where
  "in_container f e =
     (case f (RlpEncoder [] None) of
        Some (Inr c) \<Rightarrow> Some (Inr (enc_flush (RlpEncoder (enc_out (enc_flush e)) (Some c))))
      | x \<Rightarrow> x)"

text \<open>\<^verbatim>\<open>v.Bytes()\<close> of an array panics.\<close>

fun encodeValue :: "rlp_val \<Rightarrow> encoding" where
  "encodeValue (RBool b) = (\<lambda>e. Some (Inr (encodeBytes [if b then 1 else 0] e)))"
| "encodeValue (RUint v) = (\<lambda>e. Some (Inr (encodeBytes (uint64ToBytes v) e)))"
| "encodeValue (RInt v) = (\<lambda>e. Some (Inr (encodeBytes (int64ToBytes v) e)))"
| "encodeValue (RBytes b) = (\<lambda>e. Some (Inr (encodeBytes b e)))"
| "encodeValue (RByteArray b) = (\<lambda>e. None)"
| "encodeValue (RString b) = (\<lambda>e. Some (Inr (encodeBytes b e)))"
| "encodeValue (RList vs) = in_container (encode_all (map encodeValue vs))"
| "encodeValue (RPtr None) = (\<lambda>e. Some (Inr (encodeContainer [] e)))"
| "encodeValue (RPtr (Some v)) = in_container (encodeValue v)"
| "encodeValue (RStruct vs) = in_container (encode_all (map encodeValue vs))"
| "encodeValue (RMap kvs) =
     in_container (encode_all (concat (map (\<lambda>(k, v). [encodeValue k, encodeValue v]) kvs)))"
| "encodeValue ROther = (\<lambda>e. Some (Inl ErrIllegalArgument))"

definition rlp_Marshal :: "rlp_val \<Rightarrow> (error + bytes) option" where
  "rlp_Marshal v =
     (case encodeValue v (RlpEncoder [] None) of
        None \<Rightarrow> None | Some (Inl e) \<Rightarrow> Some (Inl e) | Some (Inr e) \<Rightarrow> Some (Inr (enc_out (enc_flush e))))"

section \<open>Decoder\<close>

text \<open>
  A result and the rest of the reader. \<^verbatim>\<open>io.ReadFull\<close> reports \<^verbatim>\<open>EOF\<close> when nothing is
  left and \<^verbatim>\<open>ErrUnexpectedEOF\<close> when too little is.
\<close>

type_synonym 'a decoded = "((error + 'a) \<times> bytes) option"

definition ReadFull :: "nat \<Rightarrow> bytes \<Rightarrow> (error + bytes) \<times> bytes" where
  "ReadFull n s =
     (if n \<le> length s then (Inr (take n s), drop n s)
      else if s = [] then (Inl ErrEOF, []) else (Inl ErrUnexpectedEOF, []))"

text \<open>
  The bounds are the source's: \<^verbatim>\<open>055\<close> is 45. A header between it and 55 gives a negative
  size of the length, which is a slice out of range.
\<close>

definition decodeBytes :: "bytes \<Rightarrow> bytes decoded" where
  "decodeBytes s =
     (case s of
        [] \<Rightarrow> Some (Inl ErrEOF, [])
      | h # s1 \<Rightarrow>
          if h < 128 then Some (Inr [h], s1)
          else if 192 \<le> h then Some (Inl ErrIllegalFormat, s1)
          else if unat h < 128 + 45 then Some (ReadFull (unat h - 128) s1)
          else if unat h < 128 + 55 then None
          else (case ReadFull (unat h - (128 + 55)) s1 of
                  (Inl e, s2) \<Rightarrow> Some (Inl e, s2)
                | (Inr sz, s2) \<Rightarrow>
                    if sint (bytesToUint64 sz) < 0 then None
                    else Some (ReadFull (unat (bytesToUint64 sz)) s2)))"

text \<open>The limit of the reader of a container; a negative one reads nothing.\<close>

definition decodeContainer :: "bytes \<Rightarrow> nat decoded" where
  "decodeContainer s =
     (case s of
        [] \<Rightarrow> Some (Inl ErrEOF, [])
      | h # s1 \<Rightarrow>
          if h < 192 then Some (Inl ErrIllegalFormat, s1)
          else if unat h < 192 + 45 then Some (Inr (unat h - 192), s1)
          else if unat h < 192 + 55 then None
          else (case ReadFull (unat h - (192 + 55)) s1 of
                  (Inl e, s2) \<Rightarrow> Some (Inl e, s2)
                | (Inr sz, s2) \<Rightarrow>
                    Some (Inr (if sint (bytesToUint64 sz) < 0 then 0 else unat (bytesToUint64 sz)), s2)))"

text \<open>
  What a container holds is read from a limited view of the reader. Its \<^verbatim>\<open>flush\<close> looks at
  \<^verbatim>\<open>containerDecoder\<close>, which is never set: what is left of a container is not skipped and
  the next value is read from there.
\<close>

definition within :: "(bytes \<Rightarrow> 'a decoded) \<Rightarrow> bytes \<Rightarrow> 'a decoded" where
  "within f s =
     (case decodeContainer s of
        None \<Rightarrow> None
      | Some (Inl e, s1) \<Rightarrow> Some (Inl e, s1)
      | Some (Inr n, s1) \<Rightarrow>
          (case f (take n s1) of None \<Rightarrow> None | Some (r, s2) \<Rightarrow> Some (r, s2 @ drop n s1)))"

fun zero_rlp :: "rlp_ty \<Rightarrow> rlp_val" where
  "zero_rlp TBool = RBool False"
| "zero_rlp (TUint n) = RUint 0"
| "zero_rlp (TInt n) = RInt 0"
| "zero_rlp TBytes = RBytes []"
| "zero_rlp (TByteArray n) = RByteArray (replicate n 0)"
| "zero_rlp TString = RString []"
| "zero_rlp (TSlice t) = RList []"
| "zero_rlp (TArray n t) = RList (replicate n (zero_rlp t))"
| "zero_rlp (TPtr t) = RPtr None"
| "zero_rlp (TStruct ts) = RStruct (map zero_rlp ts)"
| "zero_rlp TOther = ROther"

text \<open>Elements of an array and fields of a struct: the end of the container leaves the others zero.\<close>

fun decode_fields :: "((bytes \<Rightarrow> rlp_val decoded) \<times> rlp_val) list \<Rightarrow> bytes \<Rightarrow> rlp_val list decoded" where
  "decode_fields [] s = Some (Inr [], s)"
| "decode_fields ((f, z) # fs) s =
     (case f s of
        None \<Rightarrow> None
      | Some (Inl e, s1) \<Rightarrow> if e = ErrEOF then Some (Inr (z # map snd fs), s1) else Some (Inl e, s1)
      | Some (Inr v, s1) \<Rightarrow>
          (case decode_fields fs s1 of Some (Inr vs, s2) \<Rightarrow> Some (Inr (v # vs), s2) | x \<Rightarrow> x))"

text \<open>Elements of a slice, up to the end of the container; the fuel is one more than its bytes.\<close>

fun decode_slice :: "nat \<Rightarrow> (bytes \<Rightarrow> rlp_val decoded) \<Rightarrow> bytes \<Rightarrow> rlp_val list decoded" where
  "decode_slice 0 f s = None"
| "decode_slice (Suc n) f s =
     (case f s of
        None \<Rightarrow> None
      | Some (Inl e, s1) \<Rightarrow> if e = ErrEOF then Some (Inr [], s1) else Some (Inl e, s1)
      | Some (Inr v, s1) \<Rightarrow>
          (case decode_slice n f s1 of Some (Inr vs, s2) \<Rightarrow> Some (Inr (v # vs), s2) | x \<Rightarrow> x))"

definition decoded_map :: "('a \<Rightarrow> 'b) \<Rightarrow> 'a decoded \<Rightarrow> 'b decoded" where
  "decoded_map g = map_option (apfst (map_sum id g))"

definition decode_ptr :: "(bytes \<Rightarrow> rlp_val decoded) \<Rightarrow> bytes \<Rightarrow> rlp_val option decoded" where
  "decode_ptr f s =
     (case f s of
        None \<Rightarrow> None
      | Some (Inl e, s1) \<Rightarrow> if e = ErrEOF then Some (Inr None, s1) else Some (Inl e, s1)
      | Some (Inr v, s1) \<Rightarrow> Some (Inr (Some v), s1))"

fun decodeValue :: "rlp_ty \<Rightarrow> bytes \<Rightarrow> rlp_val decoded" where
  "decodeValue TBool = (\<lambda>s. Some (Inl ErrUnknownType, s))"
| "decodeValue (TUint n) = (\<lambda>s. decoded_map (\<lambda>b. RUint (take_bit n (bytesToUint64 b))) (decodeBytes s))"
| "decodeValue (TInt n) = (\<lambda>s. decoded_map (\<lambda>b. RInt (signed_take_bit (n - 1) (bytesToInt64 b))) (decodeBytes s))"
| "decodeValue TBytes = (\<lambda>s. decoded_map RBytes (decodeBytes s))"
| "decodeValue (TByteArray n) =
     (\<lambda>s. decoded_map (\<lambda>b. RByteArray (copy_at (replicate n 0) 0 b)) (decodeBytes s))"
| "decodeValue TString = (\<lambda>s. decoded_map RString (decodeBytes s))"
| "decodeValue (TSlice t) =
     (\<lambda>s. decoded_map RList (within (\<lambda>c. decode_slice (Suc (length c)) (decodeValue t) c) s))"
| "decodeValue (TArray n t) =
     (\<lambda>s. decoded_map RList (within (decode_fields (replicate n (decodeValue t, zero_rlp t))) s))"
| "decodeValue (TPtr t) = (\<lambda>s. decoded_map RPtr (within (decode_ptr (decodeValue t)) s))"
| "decodeValue (TStruct ts) =
     (\<lambda>s. decoded_map RStruct (within (decode_fields (map (\<lambda>t. (decodeValue t, zero_rlp t)) ts)) s))"
| "decodeValue TOther = (\<lambda>s. Some (Inl ErrUnknownType, s))"

definition rlp_Unmarshal :: "rlp_ty \<Rightarrow> bytes \<Rightarrow> rlp_val decoded" where
  "rlp_Unmarshal t s = decodeValue t s"

end
