(* ===== verification/RlpProps.thy ===== *)
theory RlpProps
  imports Rlp
begin

text \<open>
  The RLP codec: what the encoder writes is the RLP encoding, defined without its buffers; what
  the decoder reads back, and the values it does not read back.
\<close>

section \<open>The encoding\<close>

definition rlp_item :: "bytes \<Rightarrow> bytes" where
  "rlp_item b = (if length b = 1 \<and> hd b < 128 then b else rlp_header 128 (length b) @ b)"

definition rlp_list :: "bytes \<Rightarrow> bytes" where
  "rlp_list b = rlp_header 192 (length b) @ b"

fun rlp_bytes :: "rlp_val \<Rightarrow> bytes" where
  "rlp_bytes (RBool b) = rlp_item [if b then 1 else 0]"
| "rlp_bytes (RUint v) = rlp_item (uint64ToBytes v)"
| "rlp_bytes (RInt v) = rlp_item (int64ToBytes v)"
| "rlp_bytes (RBytes b) = rlp_item b"
| "rlp_bytes (RByteArray b) = rlp_item b"
| "rlp_bytes (RString b) = rlp_item b"
| "rlp_bytes (RList vs) = rlp_list (concat (map rlp_bytes vs))"
| "rlp_bytes (RPtr None) = rlp_list []"
| "rlp_bytes (RPtr (Some v)) = rlp_list (rlp_bytes v)"
| "rlp_bytes (RStruct vs) = rlp_list (concat (map rlp_bytes vs))"
| "rlp_bytes (RMap kvs) = rlp_list (concat (map (\<lambda>(k, v). rlp_bytes k @ rlp_bytes v) kvs))"
| "rlp_bytes ROther = []"

fun encodable :: "rlp_val \<Rightarrow> bool" where
  "encodable (RByteArray b) = False"
| "encodable (RList vs) = (\<forall>v \<in> set vs. encodable v)"
| "encodable (RPtr (Some v)) = encodable v"
| "encodable (RStruct vs) = (\<forall>v \<in> set vs. encodable v)"
| "encodable (RMap kvs) = (\<forall>p \<in> set kvs. encodable (fst p) \<and> encodable (snd p))"
| "encodable ROther = False"
| "encodable _ = True"

definition writes :: "encoding \<Rightarrow> bytes \<Rightarrow> bool" where
  "writes f b \<longleftrightarrow> (\<forall>e. \<exists>e'. f e = Some (Inr e') \<and> enc_out (enc_flush e') = enc_out (enc_flush e) @ b)"

lemma enc_flush_flush: "enc_container (enc_flush e) = None"
  by (cases e rule: enc_flush.cases) simp_all

lemma writes_bytes: "writes (\<lambda>e. Some (Inr (encodeBytes b e))) (rlp_item b)"
  by (auto simp: writes_def encodeBytes_def rlp_item_def Let_def)

lemma writes_all: "list_all2 writes fs bs \<Longrightarrow> writes (encode_all fs) (concat bs)"
proof (induction rule: list_all2_induct)
  case (Cons f fs b bs)
  show ?case
    unfolding writes_def
  proof
    fix e
    obtain e1 where e1: "f e = Some (Inr e1)" "enc_out (enc_flush e1) = enc_out (enc_flush e) @ b" using Cons(1) by (auto simp: writes_def)
    obtain e2 where "encode_all fs e1 = Some (Inr e2)" "enc_out (enc_flush e2) = enc_out (enc_flush e1) @ concat bs"
      using Cons(3) by (auto simp: writes_def)
    with e1 show "\<exists>e'. encode_all (f # fs) e = Some (Inr e') \<and> enc_out (enc_flush e') = enc_out (enc_flush e) @ concat (b # bs)" by simp
  qed
qed (simp add: writes_def)

lemma writes_container: "writes f b \<Longrightarrow> writes (in_container f) (rlp_list b)"
  unfolding writes_def
proof
  fix e
  assume "\<forall>e. \<exists>e'. f e = Some (Inr e') \<and> enc_out (enc_flush e') = enc_out (enc_flush e) @ b"
  then obtain c where "f (RlpEncoder [] None) = Some (Inr c)" "enc_out (enc_flush c) = b" by (metis append_Nil enc_flush.simps(1) rlpEncoder.sel(1))
  then show "\<exists>e'. in_container f e = Some (Inr e') \<and> enc_out (enc_flush e') = enc_out (enc_flush e) @ rlp_list b"
    by (simp add: in_container_def writeContainer_def rlp_list_def)
qed

lemma encodeValue_writes: "encodable v \<Longrightarrow> writes (encodeValue v) (rlp_bytes v)"
proof (induction v rule: rlp_bytes.induct)
  case (7 vs)
  then have "list_all2 writes (map encodeValue vs) (map rlp_bytes vs)" by (simp add: list_all2_map1 list_all2_map2 list_all2_same)
  then show ?case using writes_container writes_all by simp
next
  case 8
  have "writes (\<lambda>e. Some (Inr (encodeContainer [] e))) (rlp_list [])"
    by (simp add: writes_def encodeContainer_def writeContainer_def rlp_list_def)
  then show ?case by simp
next
  case (9 v)
  then show ?case using writes_container by simp
next
  case (10 vs)
  then have "list_all2 writes (map encodeValue vs) (map rlp_bytes vs)" by (simp add: list_all2_map1 list_all2_map2 list_all2_same)
  then show ?case using writes_container writes_all by simp
next
  case (11 kvs)
  let ?bs = "concat (map (\<lambda>(k, v). [rlp_bytes k, rlp_bytes v]) kvs)"
  have "\<forall>(k, v) \<in> set kvs. writes (encodeValue k) (rlp_bytes k) \<and> writes (encodeValue v) (rlp_bytes v)"
    using "11.IH" "11.prems" by fastforce
  then have "list_all2 writes (concat (map (\<lambda>(k, v). [encodeValue k, encodeValue v]) kvs)) ?bs"
    by (induction kvs) auto
  moreover have "concat ?bs = concat (map (\<lambda>(k, v). rlp_bytes k @ rlp_bytes v) kvs)" by (induction kvs) auto
  ultimately show ?case using writes_container [OF writes_all] by (metis encodeValue.simps(11) rlp_bytes.simps(11))
qed (simp_all add: writes_bytes)

section \<open>Numbers\<close>

lemma be_nat_uint64ToBytes: "be_nat (uint64ToBytes v) = unat v"
  using Uint64ToBytes_loop_be_nat [of v 8 "[]"] unat_lt_2p64 [of v] by (simp add: uint64ToBytes_def)

lemma length_uint64ToBytes: "length (uint64ToBytes v) \<le> 8" "uint64ToBytes v \<noteq> []"
proof -
  show "length (uint64ToBytes v) \<le> 8" using length_Uint64ToBytes_loop [of 8 v "[]"] by (simp add: uint64ToBytes_def)
  have "Uint64ToBytes_loop n v bs \<noteq> []" if "0 < n \<or> bs \<noteq> []" for n v bs
    using that by (induction n v bs rule: Uint64ToBytes_loop.induct) (auto simp: Let_def)
  then show "uint64ToBytes v \<noteq> []" by (simp add: uint64ToBytes_def)
qed

lemma bytesToUint64_eq: "bytesToUint64 bs = BytesToUint64 bs"
proof -
  have "push_bit 8 v + ucast b = push_bit 8 v OR ucast b" for v :: u64 and b :: byte
    by (simp only: push_or_byte) (simp add: push_bit_eq_mult)
  then show ?thesis by (simp add: bytesToUint64_def BytesToUint64_def)
qed

lemma bytesToUint64_round_trip: "bytesToUint64 (uint64ToBytes v) = v"
  unfolding bytesToUint64_eq by (rule BytesToUint64_of_be_nat) (rule be_nat_uint64ToBytes)

text \<open>
  The integers that read back. A non-negative one is written without a sign bit: the top bit
  of its first byte must be clear. The least number has no magnitude of 64 bits.
\<close>

definition int_safe :: "u64 \<Rightarrow> bool" where
  "int_safe v \<longleftrightarrow> (if 0 \<le> sint v then hd (uint64ToBytes v) AND 128 = 0 else sint v \<noteq> - (2 ^ 63))"

lemma and_127:
  assumes "(b::byte) AND 128 = 0"
  shows "(b OR 128) AND 127 = b" "(b OR 128) AND 128 \<noteq> 0"
proof -
  have c: "(128::byte) = 2 ^ 7" "(127::byte) = mask 7" by (simp_all add: mask_eq_decr_exp)
  have b: "\<not> bit b 7" using assms unfolding c(1) by (metis and_exp_eq_0_iff_not_bit)
  show "(b OR 128) AND 127 = b"
    unfolding c
  proof (rule bit_word_eqI)
    fix n
    assume n: "n < LENGTH(8)"
    have "bit (2 ^ 7 :: byte) n \<longleftrightarrow> n = 7" using n by (simp only: bit_exp_iff) simp
    then show "bit ((b OR 2 ^ 7) AND mask 7) n \<longleftrightarrow> bit b n"
      using b n by (simp only: bit_and_iff bit_or_iff bit_mask_iff) auto
  qed
  have "(b OR 128) AND 128 = 128" by (simp add: word_ao_absorbs)
  then show "(b OR 128) AND 128 \<noteq> 0" by simp
qed

lemma signed_drop_byte: "unat (v::u64) < 2 ^ 63 \<Longrightarrow> signed_drop_bit 8 v = drop_bit 8 v"
proof (rule signed_word_eqI)
  assume v: "unat v < 2 ^ 63"
  then have "unat (drop_bit 8 v) < 2 ^ 63" by (simp add: unat_shift_byte)
  then show "sint (signed_drop_bit 8 v) = sint (drop_bit 8 v)"
    using v by (simp only: sint_signed_drop_bit_eq sint_small unat_shift_byte) (simp only: drop_bit_eq_div zdiv_int power_numeral, simp)
qed

lemma bit_7_byte: "(v::u64) AND 128 = 0 \<longleftrightarrow> (ucast (v AND 255) :: byte) AND 128 = 0"
proof -
  have c: "(128::byte) = 2 ^ 7" "(128::u64) = 2 ^ 7" "(255::u64) = mask 8" by (simp_all add: mask_eq_decr_exp)
  show ?thesis unfolding c by (simp only: and_exp_eq_0_iff_not_bit) (simp add: bit_simps)
qed

lemma int64ToBytes_loop_value:
  assumes "0 < n" "2 * unat v < 256 ^ n" "unat v < 2 ^ 63"
  shows "\<exists>c cs. int64ToBytes_loop n v bs = c # cs \<and> c AND 128 \<noteq> 0 \<and> be_nat ((c AND 127) # cs) = unat v * 256 ^ length bs + be_nat bs"
  using assms
proof (induction n v bs rule: int64ToBytes_loop.induct)
  case (2 idx v bs)
  let ?b = "ucast (v AND 255) :: byte" and ?v = "drop_bit 8 v"
  have sd: "signed_drop_bit 8 v = ?v" using "2.prems"(3) by (rule signed_drop_byte)
  have split: "unat v = unat ?v * 256 + unat ?b" by (simp add: unat_low_byte unat_shift_byte)
  have lt: "2 * unat ?v < 256 ^ idx" "unat ?v < 2 ^ 63"
    using "2.prems" by (auto simp: unat_shift_byte)
  have vl: "unat ?v * 256 ^ length (?b # bs) + be_nat (?b # bs) = unat v * 256 ^ length bs + be_nat bs"
    by (subst split) (simp add: be_nat_Cons algebra_simps)
  show ?case
  proof (cases "v AND 128 = 0 \<and> ?v = 0")
    case True
    then have "?b AND 128 = 0" "unat v = unat ?b" using bit_7_byte split by auto
    then show ?thesis using True and_127 [of ?b] by (simp add: Let_def sd be_nat_Cons)
  next
    case False
    have "0 < idx"
    proof (rule ccontr)
      assume "\<not> 0 < idx"
      then have v: "unat v < 128" using "2.prems"(2) by simp
      then have "unat ?b < 128" using split by simp
      then have "v AND 128 = 0" using sign_bit [of ?b] bit_7_byte [of v] by auto
      moreover have "?v = 0" using v by (simp add: word_unat_eq_iff unat_shift_byte)
      ultimately show False using False by simp
    qed
    from False have "int64ToBytes_loop (Suc idx) v bs = int64ToBytes_loop idx ?v (?b # bs)" by (auto simp: Let_def sd)
    with \<open>0 < idx\<close> show ?thesis
      using "2.IH" False lt vl by (cases "v AND 128 = 0") (auto simp: Let_def sd)
  qed
qed simp

lemma unat_neg:
  assumes "sint (v::u64) < 0" "sint v \<noteq> - (2 ^ 63)"
  shows "unat (- v) < 2 ^ 63"
proof -
  have lo: "- (2 ^ 63) \<le> sint v" using sint_ge [of v] by simp
  have "- v = word_of_int (- sint v)" by simp
  then have "uint (- v) = uint (word_of_int (- sint v) :: u64)" by (rule arg_cong)
  also have "\<dots> = (- sint v) mod 2 ^ 64" by (simp only: uint_word_of_int) simp
  finally have "uint (- v) = (- sint v) mod 2 ^ 64" .
  then have "uint (- v) = - sint v" using assms lo by (simp add: mod_pos_pos_trivial)
  then have u: "int (unat (- v)) = - sint v" by simp
  have "- sint v < 2 ^ 63" using lo assms(2) by linarith
  then have "int (unat (- v)) < int (2 ^ 63)" unfolding u by simp
  then show "unat (- v) < 2 ^ 63" by (simp only: of_nat_less_iff)
qed

lemma bytesToInt64_round_trip:
  assumes "int_safe v"
  shows "bytesToInt64 (int64ToBytes v) = v"
proof (cases "0 \<le> sint v")
  case True
  then have "hd (uint64ToBytes v) AND 128 = 0" using assms by (simp add: int_safe_def)
  then show ?thesis using True length_uint64ToBytes(2) [of v] bytesToUint64_round_trip [of v]
    by (cases "uint64ToBytes v") (simp_all add: int64ToBytes_def bytesToInt64_def)
next
  case False
  then have m: "unat (- v) < 2 ^ 63" using unat_neg [of v] assms by (auto simp: int_safe_def)
  then have "2 * unat (- v) < 256 ^ 8" by simp
  from int64ToBytes_loop_value [OF _ this m, of "[]"] obtain c cs where
    "int64ToBytes_loop 8 (- v) [] = c # cs" "c AND 128 \<noteq> 0" "be_nat ((c AND 127) # cs) = unat (- v)" by auto
  moreover from this(3) have "bytesToUint64 ((c AND 127) # cs) = - v"
    unfolding bytesToUint64_eq by (rule BytesToUint64_of_be_nat)
  ultimately show ?thesis using False by (simp add: int64ToBytes_def bytesToInt64_def)
qed

lemma unat_of_nonneg: "0 \<le> sint (v::u64) \<Longrightarrow> unat v < 2 ^ 63"
proof -
  assume "0 \<le> sint v"
  then have "uint v = sint v" using sint_lt [of v] by (simp only: uint_sint) (simp add: take_bit_int_eq_self)
  then have "int (unat v) < int (2 ^ 63)" using sint_lt [of v] by simp
  then show ?thesis by (simp only: of_nat_less_iff)
qed

lemma int_unsafe_positive:
  assumes "0 \<le> sint (v::u64)" "hd (uint64ToBytes v) AND 128 \<noteq> 0"
  shows "bytesToInt64 (int64ToBytes v) \<noteq> v"
proof
  assume r: "bytesToInt64 (int64ToBytes v) = v"
  obtain c cs where c: "uint64ToBytes v = c # cs" using length_uint64ToBytes(2) [of v] by (cases "uint64ToBytes v") simp_all
  let ?m = "bytesToUint64 ((c AND 127) # cs)"
  have "unat (c AND 127) \<le> unat c" using word_and_le2 [of c 127] by (simp add: word_le_nat_alt)
  then have "be_nat ((c AND 127) # cs) \<le> be_nat (c # cs)" by (simp add: be_nat_Cons)
  then have le: "be_nat ((c AND 127) # cs) \<le> unat v" using be_nat_uint64ToBytes [of v] c by simp
  then have "unat ?m = be_nat ((c AND 127) # cs)"
    using unat_lt_2p64 [of v] unat_BytesToUint64 [of "(c AND 127) # cs"] by (simp add: bytesToUint64_eq)
  then have m: "unat ?m \<le> unat v" using le by simp
  have "128 \<le> unat c" using assms(2) c sign_bit [of c] by simp
  then have "0 < unat c * 256 ^ length cs" by simp
  then have pos: "0 < unat v" using be_nat_uint64ToBytes [of v] c by (simp only: be_nat_Cons)
  have "v = - ?m" using r assms c by (simp add: int64ToBytes_def bytesToInt64_def)
  then have "v + ?m = 0" by simp
  then have "(unat v + unat ?m) mod 2 ^ 64 = 0" using unat_word_ariths(1) [of v ?m] by simp
  then show False using m pos unat_of_nonneg [OF assms(1)] by (simp add: mod_less)
qed

text \<open>
  C38: An integer reads back from its RLP bytes exactly when it is not negative and the top bit of
  its first byte is clear, or negative and not the least of 64 bits: 128 is written as the byte
  a negative zero has.
\<close>

theorem rlp_int_reads_back:
  "bytesToInt64 (int64ToBytes v) = v \<longleftrightarrow>
     (if 0 \<le> sint v then hd (uint64ToBytes v) AND 128 = 0 else sint v \<noteq> - (2 ^ 63))"
proof -
  have least: "bytesToInt64 (int64ToBytes v) \<noteq> v" if "sint v = - (2 ^ 63)"
  proof -
    have "sint (0x8000000000000000 :: u64) = - (2 ^ 63)" by code_simp
    then have v: "v = 0x8000000000000000" using that by (intro signed_word_eqI) simp
    show ?thesis unfolding v by code_simp
  qed
  show ?thesis
    using bytesToInt64_round_trip [of v] int_unsafe_positive [of v] least
    by (cases "0 \<le> sint v") (auto simp: int_safe_def)
qed

section \<open>Headers\<close>

text \<open>The lengths whose header is read as it was written.\<close>

definition size_ok :: "nat \<Rightarrow> bool" where
  "size_ok n \<longleftrightarrow> (n < 45 \<or> 55 < n) \<and> n < 2 ^ 63"

lemma size_okI: "n < 45 \<Longrightarrow> size_ok n"
  by (simp add: size_ok_def)

lemma size_read:
  assumes "n < 2 ^ 63"
  shows "bytesToUint64 (sizeToBytes n) = of_nat n" "unat (of_nat n :: u64) = n" "\<not> sint (of_nat n :: u64) < 0"
proof -
  show u: "unat (of_nat n :: u64) = n" using assms by (simp add: unat_of_nat)
  then show "\<not> sint (of_nat n :: u64) < 0" using sint_small [of "of_nat n"] assms by simp
  show "bytesToUint64 (sizeToBytes n) = of_nat n" by (simp add: sizeToBytes_def bytesToUint64_round_trip)
qed

lemma unat_header: "n < 256 \<Longrightarrow> unat (of_nat n :: byte) = n"
  by (simp add: unat_of_nat)

lemma ReadFull_exact [simp]: "ReadFull (length b) (b @ s) = (Inr b, s)"
  by (simp add: ReadFull_def)

lemma decode_item:
  assumes "size_ok (length b)"
  shows "decodeBytes (rlp_item b @ s) = Some (Inr b, s)"
proof (cases "length b = 1 \<and> hd b < 128")
  case True
  then obtain x where "b = [x]" "x < 128" by (cases b) auto
  then show ?thesis by (simp add: decodeBytes_def rlp_item_def)
next
  case False
  then have i: "rlp_item b = rlp_header 128 (length b) @ b" by (auto simp: rlp_item_def)
  show ?thesis
  proof (cases "length b < 45")
    case True
    then have h: "unat (of_nat (128 + length b) :: byte) = 128 + length b" by (intro unat_header) simp
    then have "\<not> (of_nat (128 + length b) :: byte) < 128" "\<not> 192 \<le> (of_nat (128 + length b) :: byte)"
      using True by (simp_all add: word_less_nat_alt word_le_nat_alt del: of_nat_add)
    with True h show ?thesis by (simp add: i decodeBytes_def rlp_header_def del: of_nat_add)
  next
    case False
    let ?sz = "sizeToBytes (length b)" and ?h = "of_nat (128 + 55 + length (sizeToBytes (length b))) :: byte"
    have l: "length ?sz \<le> 8" "0 < length ?sz" using length_uint64ToBytes by (simp_all add: sizeToBytes_def)
    then have h: "unat ?h = 128 + 55 + length ?sz" by (intro unat_header) simp
    then have "\<not> ?h < 128" "\<not> 192 \<le> ?h" using l by (simp_all add: word_less_nat_alt word_le_nat_alt del: of_nat_add)
    moreover have "length b < 2 ^ 63" "55 < length b" using assms False by (auto simp: size_ok_def)
    ultimately show ?thesis
      using h l size_read [of "length b"] by (simp add: i decodeBytes_def rlp_header_def Let_def del: of_nat_add)
  qed
qed

lemma decode_list_header:
  assumes "size_ok (length b)"
  shows "decodeContainer (rlp_list b @ s) = Some (Inr (length b), b @ s)"
proof (cases "length b < 45")
  case True
  then have h: "unat (of_nat (192 + length b) :: byte) = 192 + length b" by (intro unat_header) simp
  then have "\<not> (of_nat (192 + length b) :: byte) < 192" by (simp add: word_less_nat_alt del: of_nat_add)
  with True h show ?thesis by (simp add: rlp_list_def decodeContainer_def rlp_header_def del: of_nat_add)
next
  case False
  let ?sz = "sizeToBytes (length b)" and ?h = "of_nat (192 + 55 + length (sizeToBytes (length b))) :: byte"
  have l: "length ?sz \<le> 8" "0 < length ?sz" using length_uint64ToBytes by (simp_all add: sizeToBytes_def)
  then have h: "unat ?h = 192 + 55 + length ?sz" by (intro unat_header) simp
  then have "\<not> ?h < 192" by (simp add: word_less_nat_alt del: of_nat_add)
  moreover have "length b < 2 ^ 63" "55 < length b" using assms False by (auto simp: size_ok_def)
  ultimately show ?thesis
    using h l size_read [of "length b"] by (simp add: rlp_list_def decodeContainer_def rlp_header_def Let_def del: of_nat_add)
qed

lemma within_list:
  assumes "size_ok (length b)"
  shows "within f (rlp_list b @ s) = (case f b of None \<Rightarrow> None | Some (r, s') \<Rightarrow> Some (r, s' @ s))"
  by (simp add: within_def decode_list_header [OF assms] split: option.split)

section \<open>Reading back\<close>

fun readable :: "rlp_ty \<Rightarrow> bool" where
  "readable TBool = False" | "readable TOther = False" | "readable _ = True"

text \<open>The values of a type that read back from their encoding.\<close>

fun fits :: "rlp_ty \<Rightarrow> rlp_val \<Rightarrow> bool" where
  "fits TBool v = False"
| "fits (TUint n) v = (case v of RUint w \<Rightarrow> take_bit n w = w | _ \<Rightarrow> False)"
| "fits (TInt n) v = (case v of RInt w \<Rightarrow> int_safe w \<and> signed_take_bit (n - 1) w = w | _ \<Rightarrow> False)"
| "fits TBytes v = (case v of RBytes b \<Rightarrow> size_ok (length b) | _ \<Rightarrow> False)"
| "fits (TByteArray n) v = False"
| "fits TString v = (case v of RString b \<Rightarrow> size_ok (length b) | _ \<Rightarrow> False)"
| "fits (TSlice t) v =
     (case v of RList vs \<Rightarrow> readable t \<and> list_all (fits t) vs \<and> size_ok (length (concat (map rlp_bytes vs)))
      | _ \<Rightarrow> False)"
| "fits (TArray n t) v =
     (case v of RList vs \<Rightarrow> length vs = n \<and> list_all (fits t) vs \<and> size_ok (length (concat (map rlp_bytes vs)))
      | _ \<Rightarrow> False)"
| "fits (TPtr t) v =
     (case v of RPtr None \<Rightarrow> readable t | RPtr (Some w) \<Rightarrow> fits t w \<and> size_ok (length (rlp_bytes w)) | _ \<Rightarrow> False)"
| "fits (TStruct ts) v =
     (case v of RStruct vs \<Rightarrow> list_all2 (\<lambda>g w. g w) (map fits ts) vs \<and> size_ok (length (concat (map rlp_bytes vs)))
      | _ \<Rightarrow> False)"
| "fits TOther v = False"

lemma decode_end: "readable t \<Longrightarrow> decodeValue t [] = Some (Inl ErrEOF, [])"
  by (cases t) (simp_all add: decoded_map_def decodeBytes_def within_def decodeContainer_def)

lemma rlp_item_nonempty: "rlp_item b \<noteq> []" "rlp_list b \<noteq> []"
  by (auto simp: rlp_item_def rlp_list_def rlp_header_def Let_def)

lemma rlp_bytes_nonempty: "fits t v \<Longrightarrow> rlp_bytes v \<noteq> []"
  by (cases t; cases v rule: rlp_bytes.cases) (simp_all add: rlp_item_nonempty)

definition reads :: "(bytes \<Rightarrow> rlp_val decoded) \<Rightarrow> rlp_val \<Rightarrow> bool" where
  "reads f v \<longleftrightarrow> (\<forall>s. f (rlp_bytes v @ s) = Some (Inr v, s))"

lemma decode_slice_reads:
  "list_all (reads f) vs \<Longrightarrow> f [] = Some (Inl ErrEOF, []) \<Longrightarrow> length vs < n \<Longrightarrow>
     decode_slice n f (concat (map rlp_bytes vs)) = Some (Inr vs, [])"
proof (induction vs arbitrary: n)
  case Nil
  then show ?case by (cases n) simp_all
next
  case (Cons v vs)
  then show ?case by (cases n) (auto simp: reads_def)
qed

lemma decode_fields_reads:
  "list_all2 reads (map fst fs) vs \<Longrightarrow> decode_fields fs (concat (map rlp_bytes vs)) = Some (Inr vs, [])"
proof (induction fs arbitrary: vs)
  case (Cons f fs)
  then show ?case by (cases f) (auto simp: list_all2_Cons1 reads_def)
qed simp

lemma length_concat_ge: "list_all (\<lambda>v. f v \<noteq> []) vs \<Longrightarrow> length vs \<le> length (concat (map f vs))"
proof (induction vs)
  case (Cons v vs)
  then show ?case by (cases "f v") auto
qed simp

lemma length_numbers: "length (uint64ToBytes v) < 45" "length (int64ToBytes v) < 45"
proof -
  have l: "length (int64ToBytes_loop n w bs) \<le> n + length bs" for n w bs
    by (induction n w bs rule: int64ToBytes_loop.induct) (auto simp: Let_def split: list.split)
  show "length (uint64ToBytes v) < 45" "length (int64ToBytes v) < 45"
    using length_uint64ToBytes(1) [of v] l [of 8 "- v" "[]"] by (simp_all add: int64ToBytes_def)
qed

lemma decodeValue_reads: "fits t v \<Longrightarrow> reads (decodeValue t) v"
proof (induction t arbitrary: v)
  case (TUint n)
  then obtain w where "v = RUint w" "take_bit n w = w" by (cases v) simp_all
  then show ?case using length_numbers(1) [of w]
    by (simp add: reads_def decode_item size_ok_def decoded_map_def bytesToUint64_round_trip)
next
  case (TInt n)
  then obtain w where "v = RInt w" "int_safe w" "signed_take_bit (n - 1) w = w" by (cases v) simp_all
  then show ?case using length_numbers(2) [of w]
    by (simp add: reads_def decode_item size_ok_def decoded_map_def bytesToInt64_round_trip)
next
  case (TSlice t)
  then obtain vs where v: "v = RList vs" "readable t" "list_all (fits t) vs" "size_ok (length (concat (map rlp_bytes vs)))"
    by (cases v) simp_all
  let ?c = "concat (map rlp_bytes vs)"
  have "list_all (reads (decodeValue t)) vs" using v(3) TSlice.IH by (auto simp: list_all_iff)
  moreover have "list_all (\<lambda>v. rlp_bytes v \<noteq> []) vs" using v(3) rlp_bytes_nonempty by (auto simp: list_all_iff)
  then have "length vs < Suc (length ?c)" using length_concat_ge [of rlp_bytes vs] by (simp add: le_imp_less_Suc)
  ultimately have "decode_slice (Suc (length ?c)) (decodeValue t) ?c = Some (Inr vs, [])"
    using decode_end [OF v(2)] by (intro decode_slice_reads)
  then show ?case using v by (simp add: reads_def within_list decoded_map_def del: decode_slice.simps)
next
  case (TArray n t)
  then obtain vs where v: "v = RList vs" "length vs = n" "list_all (fits t) vs" "size_ok (length (concat (map rlp_bytes vs)))"
    by (cases v) simp_all
  then have "list_all2 reads (map fst (replicate n (decodeValue t, zero_rlp t))) vs"
    using TArray.IH by (auto simp: list_all2_conv_all_nth list_all_length)
  then show ?case using v by (simp add: reads_def within_list decoded_map_def decode_fields_reads)
next
  case (TPtr t)
  then obtain p where p: "v = RPtr p" by (cases v) simp_all
  have z: "size_ok (length ([] :: bytes))" by (simp add: size_ok_def)
  show ?case
  proof (cases p)
    case None
    then show ?thesis using TPtr.prems p z by (simp add: reads_def within_list decoded_map_def decode_ptr_def decode_end)
  next
    case (Some w)
    then have w: "size_ok (length (rlp_bytes w))" "reads (decodeValue t) w" using TPtr p by auto
    then have "decodeValue t (rlp_bytes w @ []) = Some (Inr w, [])" unfolding reads_def by blast
    then have "decodeValue t (rlp_bytes w) = Some (Inr w, [])" by simp
    then show ?thesis using w(1) p Some by (simp add: reads_def within_list decoded_map_def decode_ptr_def)
  qed
next
  case (TStruct ts)
  then obtain vs where v: "v = RStruct vs" "list_all2 (\<lambda>g w. g w) (map fits ts) vs" "size_ok (length (concat (map rlp_bytes vs)))"
    by (cases v) simp_all
  then have "list_all2 reads (map fst (map (\<lambda>t. (decodeValue t, zero_rlp t)) ts)) vs"
    using TStruct.IH by (auto simp: list_all2_conv_all_nth)
  then show ?case using v by (simp add: reads_def within_list decoded_map_def decode_fields_reads comp_def)
qed (simp_all add: reads_def decode_item decoded_map_def split: rlp_val.splits)

section \<open>Types and progress\<close>

text \<open>A decoder makes values of its type and reads a part of what is there.\<close>

fun typed :: "rlp_ty \<Rightarrow> rlp_val \<Rightarrow> bool" where
  "typed TBool v = (case v of RBool b \<Rightarrow> True | _ \<Rightarrow> False)"
| "typed (TUint n) v = (case v of RUint w \<Rightarrow> take_bit n w = w | _ \<Rightarrow> False)"
| "typed (TInt n) v = (case v of RInt w \<Rightarrow> signed_take_bit (n - 1) w = w | _ \<Rightarrow> False)"
| "typed TBytes v = (case v of RBytes b \<Rightarrow> True | _ \<Rightarrow> False)"
| "typed (TByteArray n) v = (case v of RByteArray b \<Rightarrow> length b = n | _ \<Rightarrow> False)"
| "typed TString v = (case v of RString b \<Rightarrow> True | _ \<Rightarrow> False)"
| "typed (TSlice t) v = (case v of RList vs \<Rightarrow> list_all (typed t) vs | _ \<Rightarrow> False)"
| "typed (TArray n t) v = (case v of RList vs \<Rightarrow> length vs = n \<and> list_all (typed t) vs | _ \<Rightarrow> False)"
| "typed (TPtr t) v = (case v of RPtr None \<Rightarrow> True | RPtr (Some w) \<Rightarrow> typed t w | _ \<Rightarrow> False)"
| "typed (TStruct ts) v = (case v of RStruct vs \<Rightarrow> list_all2 (\<lambda>g w. g w) (map typed ts) vs | _ \<Rightarrow> False)"
| "typed TOther v = (v = ROther)"

definition rest_of :: "bytes \<Rightarrow> bytes \<Rightarrow> bool" where
  "rest_of s' s \<longleftrightarrow> (\<exists>u. u \<noteq> [] \<and> s = u @ s')"

text \<open>A reader goes forward; with a result it has read something.\<close>

definition forward :: "(bytes \<Rightarrow> 'a decoded) \<Rightarrow> bool" where
  "forward f \<longleftrightarrow> (\<forall>s r s'. f s = Some (r, s') \<longrightarrow> (\<exists>u. s = u @ s') \<and> (\<not> isl r \<longrightarrow> rest_of s' s))"

lemma rest_of_length: "rest_of a b \<Longrightarrow> length a < length b"
  by (auto simp: rest_of_def)

lemma forwardI:
  "(\<And>r s'. f [] = Some (r, s') \<Longrightarrow> s' = [] \<and> isl r) \<Longrightarrow>
   (\<And>h s r s'. f (h # s) = Some (r, s') \<Longrightarrow> \<exists>u. s = u @ s') \<Longrightarrow> forward f"
  unfolding forward_def rest_of_def
proof (intro allI impI)
  fix s r s'
  assume a: "\<And>r s'. f [] = Some (r, s') \<Longrightarrow> s' = [] \<and> isl r" "\<And>h s r s'. f (h # s) = Some (r, s') \<Longrightarrow> \<exists>u. s = u @ s'"
    and f: "f s = Some (r, s')"
  show "(\<exists>u. s = u @ s') \<and> (\<not> isl r \<longrightarrow> (\<exists>u. u \<noteq> [] \<and> s = u @ s'))"
  proof (cases s)
    case Nil
    then show ?thesis using a(1) f by simp
  next
    case (Cons h s1)
    then obtain u where "s1 = u @ s'" using a(2) f by blast
    then show ?thesis using Cons by (metis append_Cons list.distinct(1))
  qed
qed

lemma ReadFull_rest: "ReadFull n s = (r, s') \<Longrightarrow> \<exists>u. s = u @ s'"
  by (auto simp: ReadFull_def split: if_splits intro: exI [of _ "take n s"])

lemma decodeBytes_forward: "forward decodeBytes"
proof (rule forwardI)
  fix h s r s'
  assume "decodeBytes (h # s) = Some (r, s')"
  then show "\<exists>u. s = u @ s'"
    by (fastforce simp: decodeBytes_def split: if_splits sum.splits prod.splits dest: ReadFull_rest)
qed (auto simp: decodeBytes_def)

lemma decodeContainer_forward: "forward decodeContainer"
proof (rule forwardI)
  fix h s r s'
  assume "decodeContainer (h # s) = Some (r, s')"
  then show "\<exists>u. s = u @ s'"
    by (fastforce simp: decodeContainer_def split: if_splits sum.splits prod.splits dest: ReadFull_rest)
qed (auto simp: decodeContainer_def)

lemma forward_map: "forward f \<Longrightarrow> forward (\<lambda>s. decoded_map g (f s))"
  unfolding forward_def decoded_map_def
  by (auto simp: apfst_def map_prod_def split: prod.splits) (metis isl_map_sum)+

lemma forwardD: "forward f \<Longrightarrow> f s = Some (Inr x, s') \<Longrightarrow> rest_of s' s"
  unfolding forward_def by (metis sum.disc(2))

definition stays :: "(bytes \<Rightarrow> 'a decoded) \<Rightarrow> bool" where
  "stays f \<longleftrightarrow> (\<forall>s r s'. f s = Some (r, s') \<longrightarrow> (\<exists>u. s = u @ s'))"

lemma staysI: "(\<And>s r s'. f s = Some (r, s') \<Longrightarrow> \<exists>u. s = u @ s') \<Longrightarrow> stays f"
  unfolding stays_def by blast

lemma staysD: "stays f \<Longrightarrow> f s = Some (r, s') \<Longrightarrow> \<exists>u. s = u @ s'"
  unfolding stays_def by blast

lemma forward_stays: "forward f \<Longrightarrow> stays f"
  unfolding forward_def stays_def by blast

lemma within_forward: "stays f \<Longrightarrow> forward (within f)"
  unfolding forward_def
proof (intro allI impI)
  fix s r s'
  assume f: "stays f" and w: "within f s = Some (r, s')"
  from w consider e s1 where "decodeContainer s = Some (Inl e, s1)" "r = Inl e" "s' = s1"
    | n s1 s2 where "decodeContainer s = Some (Inr n, s1)" "f (take n s1) = Some (r, s2)" "s' = s2 @ drop n s1"
    by (auto simp: within_def split: option.splits sum.splits prod.splits)
  then show "(\<exists>u. s = u @ s') \<and> (\<not> isl r \<longrightarrow> rest_of s' s)"
  proof cases
    case 1
    then show ?thesis using staysD [OF forward_stays [OF decodeContainer_forward]] by simp
  next
    case 2
    obtain u where u: "u \<noteq> []" "s = u @ s1" using forwardD [OF decodeContainer_forward 2(1)] unfolding rest_of_def by blast
    obtain w where "take n s1 = w @ s2" using staysD [OF f 2(2)] by blast
    then have "s1 = w @ s'" using 2(3) append_take_drop_id [of n s1] by simp
    then have "s = (u @ w) @ s'" using u(2) by simp
    then show ?thesis using u(1) unfolding rest_of_def by (metis append_is_Nil_conv)
  qed
qed

lemma decode_fields_stays: "list_all (\<lambda>p. stays (fst p)) fs \<Longrightarrow> stays (decode_fields fs)"
proof (induction fs)
  case (Cons p fs)
  obtain f z where p: "p = (f, z)" by (cases p)
  have f: "stays f" and IH: "stays (decode_fields fs)" using Cons p by simp_all
  show ?case
  proof (rule staysI)
    fix s r s'
    assume "decode_fields (p # fs) s = Some (r, s')"
    then have "(\<exists>q. f s = Some (q, s')) \<or> (\<exists>v s1 q. f s = Some (Inr v, s1) \<and> decode_fields fs s1 = Some (q, s'))"
      by (auto simp: p split: option.splits sum.splits prod.splits if_splits)
    then show "\<exists>u. s = u @ s'" using staysD [OF f] staysD [OF IH] by (metis append.assoc)
  qed
qed (simp add: stays_def)

lemma decode_slice_stays: "stays f \<Longrightarrow> stays (decode_slice n f)"
proof (induction n)
  case (Suc n)
  then have IH: "stays (decode_slice n f)" by simp
  show ?case
  proof (rule staysI)
    fix s r s'
    assume "decode_slice (Suc n) f s = Some (r, s')"
    then have "(\<exists>q. f s = Some (q, s')) \<or> (\<exists>v s1 q. f s = Some (Inr v, s1) \<and> decode_slice n f s1 = Some (q, s'))"
      by (auto split: option.splits sum.splits prod.splits if_splits)
    then show "\<exists>u. s = u @ s'" using staysD [OF Suc.prems] staysD [OF IH] by (metis append.assoc)
  qed
qed (simp add: stays_def)

lemma decode_ptr_stays: "stays f \<Longrightarrow> stays (decode_ptr f)"
proof (rule staysI)
  fix s r s'
  assume f: "stays f" and "decode_ptr f s = Some (r, s')"
  then have "\<exists>q. f s = Some (q, s')"
    by (auto simp: decode_ptr_def split: option.splits sum.splits prod.splits if_splits)
  then show "\<exists>u. s = u @ s'" using staysD [OF f] by blast
qed

lemma decodeValue_forward: "forward (decodeValue t)"
proof (induction t)
  case (TSlice t)
  then have "stays (\<lambda>c. decode_slice (Suc (length c)) (decodeValue t) c)"
    by (intro staysI) (rule staysD [OF decode_slice_stays [OF forward_stays]])
  then show ?case unfolding decodeValue.simps by (intro forward_map within_forward)
next
  case (TArray n t)
  then have "list_all (\<lambda>p. stays (fst p)) (replicate n (decodeValue t, zero_rlp t))"
    by (simp add: list_all_iff forward_stays)
  then show ?case unfolding decodeValue.simps by (intro forward_map within_forward decode_fields_stays)
next
  case (TPtr t)
  then show ?case unfolding decodeValue.simps by (intro forward_map within_forward decode_ptr_stays forward_stays)
next
  case (TStruct ts)
  then have "list_all (\<lambda>p. stays (fst p)) (map (\<lambda>t. (decodeValue t, zero_rlp t)) ts)"
    by (simp add: list_all_iff forward_stays)
  then show ?case unfolding decodeValue.simps by (intro forward_map within_forward decode_fields_stays)
next
  case TBool
  show ?case by (simp add: forward_def)
next
  case TOther
  show ?case by (simp add: forward_def)
qed (unfold decodeValue.simps, (rule forward_map [OF decodeBytes_forward])+)

text \<open>The fuel of a slice is never what ends it.\<close>

lemma decode_slice_fuel: "forward f \<Longrightarrow> length s < n \<Longrightarrow> length s < m \<Longrightarrow> decode_slice n f s = decode_slice m f s"
proof (induction n arbitrary: m s)
  case (Suc n)
  from Suc.prems(3) obtain k where m: "m = Suc k" by (cases m) simp_all
  have "decode_slice n f s1 = decode_slice k f s1" if "f s = Some (Inr v, s1)" for v s1
  proof -
    have "length s1 < length s" by (rule rest_of_length) (rule forwardD [OF Suc.prems(1) that])
    then show ?thesis using Suc.prems m by (intro Suc.IH) simp_all
  qed
  then show ?case by (simp add: m split: option.split prod.split sum.split)
qed simp

lemma zero_typed: "typed t (zero_rlp t)"
  by (induction t) (simp_all add: list_all_iff list_all2_conv_all_nth)

lemma decode_slice_typed:
  "(\<And>s v s'. f s = Some (Inr v, s') \<Longrightarrow> P v) \<Longrightarrow> decode_slice n f s = Some (Inr vs, s') \<Longrightarrow> list_all P vs"
  by (induction n f s arbitrary: vs s' rule: decode_slice.induct)
    (fastforce split: option.splits sum.splits prod.splits if_splits)+

lemma decode_fields_typed:
  "list_all2 (\<lambda>(f, z) P. P z \<and> (\<forall>s v s'. f s = Some (Inr v, s') \<longrightarrow> P v)) fs Ps \<Longrightarrow>
   decode_fields fs s = Some (Inr vs, s') \<Longrightarrow> list_all2 (\<lambda>P v. P v) Ps vs"
proof (induction arbitrary: s vs s' rule: list_all2_induct)
  case (Cons p fs P Ps)
  obtain f z where p: "p = (f, z)" by (cases p)
  have z: "list_all2 (\<lambda>P v. P v) Ps (map snd fs)"
    using Cons.hyps(2) by (auto simp: list_all2_conv_all_nth split_def)
  show ?case using Cons p z by (fastforce split: option.splits sum.splits prod.splits if_splits)
qed simp

lemma decoded_map_Inr: "decoded_map g x = Some (Inr v, s') \<longleftrightarrow> (\<exists>b. x = Some (Inr b, s') \<and> v = g b)"
proof (cases x)
  case (Some p)
  then show ?thesis by (cases p; cases "fst p") (auto simp: decoded_map_def)
qed (simp add: decoded_map_def)

lemma within_Inr: "within f s = Some (Inr v, s') \<Longrightarrow> \<exists>c c'. f c = Some (Inr v, c')"
  by (auto simp: within_def split: option.splits sum.splits prod.splits)

lemma decodeValue_typed: "decodeValue t s = Some (Inr v, s') \<Longrightarrow> typed t v"
proof (induction t arbitrary: s v s')
  case (TSlice t)
  then obtain vs c c' where "v = RList vs" "decode_slice (Suc (length c)) (decodeValue t) c = Some (Inr vs, c')"
    by (auto simp: decoded_map_Inr dest!: within_Inr simp del: decode_slice.simps)
  then show ?case using decode_slice_typed [of "decodeValue t" "typed t" "Suc (length c)" c vs c'] TSlice.IH by (simp del: decode_slice.simps)
next
  case (TArray n t)
  then obtain vs c c' where v: "v = RList vs" "decode_fields (replicate n (decodeValue t, zero_rlp t)) c = Some (Inr vs, c')"
    by (auto simp: decoded_map_Inr dest!: within_Inr)
  moreover have "list_all2 (\<lambda>(f, z) P. P z \<and> (\<forall>s v s'. f s = Some (Inr v, s') \<longrightarrow> P v))
      (replicate n (decodeValue t, zero_rlp t)) (replicate n (typed t))"
    using TArray.IH zero_typed by (auto simp: list_all2_conv_all_nth)
  ultimately have "list_all2 (\<lambda>P v. P v) (replicate n (typed t)) vs" by (intro decode_fields_typed)
  then show ?case using v by (auto simp: list_all2_conv_all_nth list_all_length)
next
  case (TPtr t)
  then obtain p c c' where "v = RPtr p" "decode_ptr (decodeValue t) c = Some (Inr p, c')"
    by (auto simp: decoded_map_Inr dest!: within_Inr)
  then show ?case using TPtr.IH by (auto simp: decode_ptr_def split: option.splits prod.splits sum.splits if_splits)
next
  case (TStruct ts)
  then obtain vs c c' where v: "v = RStruct vs" "decode_fields (map (\<lambda>t. (decodeValue t, zero_rlp t)) ts) c = Some (Inr vs, c')"
    by (auto simp: decoded_map_Inr dest!: within_Inr)
  moreover have "list_all2 (\<lambda>(f, z) P. P z \<and> (\<forall>s v s'. f s = Some (Inr v, s') \<longrightarrow> P v))
      (map (\<lambda>t. (decodeValue t, zero_rlp t)) ts) (map typed ts)"
    using TStruct.IH zero_typed by (auto simp: list_all2_conv_all_nth)
  ultimately have "list_all2 (\<lambda>P v. P v) (map typed ts) vs" by (intro decode_fields_typed)
  then show ?case using v by simp
qed (auto simp: decoded_map_Inr)

section \<open>Properties\<close>

lemma encoded: "encodable v \<Longrightarrow> rlp_Marshal v = Some (Inr (rlp_bytes v))"
proof -
  assume "encodable v"
  then obtain e where "encodeValue v (RlpEncoder [] None) = Some (Inr e)" "enc_out (enc_flush e) = rlp_bytes v"
    using encodeValue_writes [of v] unfolding writes_def by (metis append_Nil enc_flush.simps(1) rlpEncoder.sel(1))
  then show ?thesis by (simp add: rlp_Marshal_def)
qed

text \<open>
  The encoding again, from the definition of RLP and not from the program: numbers as digits to the base 256,
  the most significant first and at least one of them; a header with the length up to 55, and with the
  number of the digits of the length above. A negative number, for which RLP has no rule, is its magnitude with the top bit of
  the first byte for the sign, in a byte of its own when the magnitude needs that bit; the least number of 64 bits
  is written as its magnitude.
\<close>

fun be_digits :: "nat \<Rightarrow> bytes" where
  "be_digits n = (if n < 256 then [of_nat n] else be_digits (n div 256) @ [of_nat (n mod 256)])"

declare be_digits.simps [simp del]







lemma be_digits_ne [simp]: "be_digits n \<noteq> []"
  by (subst be_digits.simps) simp

















text \<open>
  C37: What the encoder writes for a value that fits a type, the decoder of that type reads back,
  up to the end of the value. A value fits when its
  integers are among those that read back and its lengths are not between 45 and 55.
\<close>

theorem rlp_round_trip:
  assumes "encodable v" "fits t v"
  shows "\<exists>b. rlp_Marshal v = Some (Inr b) \<and> rlp_Unmarshal t (b @ s) = Some (Inr v, s)"
  using encoded [OF assms(1)] decodeValue_reads [OF assms(2)] by (simp add: reads_def rlp_Unmarshal_def)

theorem rlp_round_trip_witness:
  "\<exists>b. rlp_Marshal (RStruct [RUint 1024, RList [RInt (- 5), RInt 7], RPtr (Some (RString [100]))]) = Some (Inr b) \<and>
       rlp_Unmarshal (TStruct [TUint 16, TSlice (TInt 8), TPtr TString]) (b @ [1, 2]) =
         Some (Inr (RStruct [RUint 1024, RList [RInt (- 5), RInt 7], RPtr (Some (RString [100]))]), [1, 2])"
proof -
  let ?v = "RStruct [RUint 1024, RList [RInt (- 5), RInt 7], RPtr (Some (RString [100]))]"
  have "encodable ?v" by simp
  moreover have "int_safe (- 5)" "int_safe 7" by code_simp+
  moreover have "take_bit 16 (1024 :: u64) = 1024" "signed_take_bit 7 (- 5 :: u64) = - 5" "signed_take_bit 7 (7 :: u64) = 7" by code_simp+
  moreover have "length (concat (map rlp_bytes [RUint 1024, RList [RInt (- 5), RInt 7], RPtr (Some (RString [100]))])) < 45"
      "length (concat (map rlp_bytes [RInt (- 5), RInt 7])) < 45" "length (rlp_bytes (RString [100])) < 45"
    by code_simp+
  ultimately have "encodable ?v" "fits (TStruct [TUint 16, TSlice (TInt 8), TPtr TString]) ?v" by (simp_all add: size_okI)
  then show ?thesis by (rule rlp_round_trip)
qed

text \<open>
  The decoder reads a non-empty part of the data from the front, and what it returns has the shape of its type.
\<close>

lemma rlp_decode_typed:
  assumes "rlp_Unmarshal t s = Some (Inr v, s')"
  shows "typed t v \<and> (\<exists>u. u \<noteq> [] \<and> s = u @ s')"
  using decodeValue_typed forwardD [OF decodeValue_forward] assms unfolding rlp_Unmarshal_def rest_of_def by blast

text \<open>
  C39: The octal bound of the decoder. Byte strings of 45 to 54 bytes, and structs whose fields
  take that many, are encoded without an error, and decoding what was written panics.
\<close>

theorem rlp_octal_bounds:
  assumes "45 \<le> length b" "length b < 55"
  shows "rlp_Marshal (RBytes b) = Some (Inr (rlp_item b)) \<and> rlp_Unmarshal TBytes (rlp_item b @ s) = None \<and>
    (\<forall>vs ts. encodable (RStruct vs) \<and> concat (map rlp_bytes vs) = b \<longrightarrow>
       rlp_Marshal (RStruct vs) = Some (Inr (rlp_list b)) \<and> rlp_Unmarshal (TStruct ts) (rlp_list b @ s) = None)"
proof -
  have h: "unat (of_nat (128 + length b) :: byte) = 128 + length b" "unat (of_nat (192 + length b) :: byte) = 192 + length b"
    using assms(2) by (intro unat_header, simp)+
  then have "\<not> (of_nat (128 + length b) :: byte) < 128" "\<not> 192 \<le> (of_nat (128 + length b) :: byte)"
      "\<not> (of_nat (192 + length b) :: byte) < 192"
    using assms(2) by (simp_all add: word_less_nat_alt word_le_nat_alt del: of_nat_add)
  moreover have "rlp_item b = of_nat (128 + length b) # b" "rlp_list b = of_nat (192 + length b) # b"
    using assms by (auto simp: rlp_item_def rlp_list_def rlp_header_def simp del: of_nat_add)
  ultimately have d: "decodeBytes (rlp_item b @ s) = None" "decodeContainer (rlp_list b @ s) = None"
    using assms h by (simp_all add: decodeBytes_def decodeContainer_def del: of_nat_add)
  have "encodable (RStruct vs) \<and> concat (map rlp_bytes vs) = b \<longrightarrow> rlp_Marshal (RStruct vs) = Some (Inr (rlp_list b))" for vs
    using encoded [of "RStruct vs"] by auto
  then show ?thesis using encoded [of "RBytes b"] d by (simp add: rlp_Unmarshal_def decoded_map_def within_def)
qed

theorem rlp_octal_bounds_witness:
  "rlp_Marshal (RBytes (replicate 45 1)) = Some (Inr (173 # replicate 45 1)) \<and>
   rlp_Unmarshal TBytes (173 # replicate 45 1) = None"
  using rlp_octal_bounds [of "replicate 45 1" "[]"] by (simp add: rlp_item_def rlp_header_def)

end
