(* ===== verification/DbTool.thy ===== *)
theory DbTool
  imports Messages
begin

text \<open>
  The reader of databases, \<^verbatim>\<open>cmd/dbtool\<close> and \<^verbatim>\<open>cmd/common/db_utils.go\<close>: what each of its
  commands prints. A record that is printed is a term of \<open>shown\<close>; the JSON text of it, and the
  messages around it, are not modelled. The directory of the databases is the one of the
  service; opening a database that is missing, which creates it, reads as an empty one.
\<close>

section \<open>Printing\<close>

datatype shown =
    ShowAccount IScoreAccount
  | ShowClaim Claim
  | ShowBackup bytes Claim
  | ShowBackupInfo ClaimBackupInfo
  | ShowPreCommit PreCommit
  | ShowResult CalculationResult
  | ShowDBInfo DBInfo
  | ShowGV GovernanceVariable
  | ShowPRep "PRep option"
  | ShowCandidate PRepCandidate
  | ShowHeader IISSHeader
  | ShowIISSGV IISSGovernanceVariable
  | ShowBP IISSBlockProduceInfo
  | ShowTX IISSTX

text \<open>What was printed, and the error the command ended with. \<open>None\<close> is a panic.\<close>

type_synonym printed = "(shown list \<times> error option) option"

definition shows_all :: "shown list \<Rightarrow> printed" where
  "shows_all xs = Some (xs, None)"

definition fails :: "error \<Rightarrow> printed" where
  "fails e = Some ([], Some e)"

definition and_then :: "printed \<Rightarrow> printed \<Rightarrow> printed" where
  "and_then p q =
     (case p of
        Some (xs, None) \<Rightarrow> (case q of None \<Rightarrow> None | Some (ys, e) \<Rightarrow> Some (xs @ ys, e))
      | _ \<Rightarrow> p)"

fun iterate_print :: "(bytes \<Rightarrow> 'v \<Rightarrow> printed) \<Rightarrow> (bytes \<times> 'v) list \<Rightarrow> printed" where
  "iterate_print f [] = shows_all []"
| "iterate_print f ((k, v) # es) = and_then (f k v) (iterate_print f es)"

definition IteratePrintDB :: "'v kv \<Rightarrow> bytes \<Rightarrow> (bytes \<Rightarrow> 'v \<Rightarrow> printed) \<Rightarrow> printed" where
  "IteratePrintDB qdb pfx printFunc = iterate_print printFunc (Iterator_prefix qdb pfx)"

text \<open>A record made from an entry: an error, or a panic when an address cannot be cut from the key.\<close>

type_synonym 'a made = "(error + 'a) option"

definition print_made :: "('a \<Rightarrow> shown) \<Rightarrow> 'a made \<Rightarrow> printed" where
  "print_made f m = (case m of None \<Rightarrow> None | Some (Inl e) \<Rightarrow> fails e | Some (Inr x) \<Rightarrow> shows_all [f x])"

definition with_address :: "bytes \<Rightarrow> (address \<Rightarrow> 'a) \<Rightarrow> 'a made" where
  "with_address k f = map_option (\<lambda>a. Inr (f a)) (NewAddress k)"

section \<open>Claims\<close>

definition newClaim :: "bytes \<Rightarrow> obj \<Rightarrow> Claim made" where
  "newClaim key v =
     (case NewClaimFromBytes v of
        Inl e \<Rightarrow> Some (Inl e)
      | Inr c \<Rightarrow> with_address key (\<lambda>a. c\<lparr>cl_Address := a\<rparr>))"

definition getClaim :: "obj kv \<Rightarrow> address \<Rightarrow> Claim option made" where
  "getClaim qdb addr =
     (case Bucket_Get qdb PrefixClaim (Address_Bytes addr) of
        None \<Rightarrow> Some (Inr None)
      | Some v \<Rightarrow> map_option (map_sum id Some) (newClaim (Address_Bytes addr) v))"

text \<open>An error of \<^verbatim>\<open>getClaim\<close> is dropped.\<close>

definition queryClaimDB :: "obj kv \<Rightarrow> string \<Rightarrow> printed" where
  "queryClaimDB qdb addr =
     (if addr = [] then IteratePrintDB qdb PrefixClaim (\<lambda>k v. print_made ShowClaim (newClaim k v))
      else case NewAddressFromString addr of
             None \<Rightarrow> None
           | Some a \<Rightarrow>
               (case getClaim qdb a of
                  None \<Rightarrow> None
                | Some (Inr (Some c)) \<Rightarrow> shows_all [ShowClaim c]
                | Some _ \<Rightarrow> shows_all []))"

definition isManageKey :: "bytes \<Rightarrow> bool" where
  "isManageKey key \<longleftrightarrow> length key = length PrefixManagement \<and> key = PrefixManagement"

definition newClaimFromBackup :: "bytes \<Rightarrow> obj \<Rightarrow> Claim made" where
  "newClaimFromBackup key v =
     (case NewClaimFromBytes v of
        Inl e \<Rightarrow> Some (Inl e)
      | Inr c \<Rightarrow>
          if length key < BlockHeightSize then None
          else with_address (drop BlockHeightSize key) (\<lambda>a. c\<lparr>cl_Address := a\<rparr>))"

definition printClaimBackup :: "bytes \<Rightarrow> obj \<Rightarrow> printed" where
  "printClaimBackup key v =
     (if isManageKey key then
        print_made ShowBackupInfo (Some (ClaimBackupInfo_SetBytes zero_ClaimBackupInfo v))
      else print_made (ShowBackup key) (newClaimFromBackup key v))"

definition queryClaimBackupDB :: "obj kv \<Rightarrow> u64 \<Rightarrow> printed" where
  "queryClaimBackupDB qdb h =
     (if h = 0 then IteratePrintDB qdb PrefixClaim printClaimBackup
      else (case MakeIteratorPrefix PrefixClaim h None 0 of
              (start, limit) \<Rightarrow> iterate_print printClaimBackup (Iterator_New qdb (Some start) limit)))"

section \<open>Pre-commits\<close>

text \<open>A slice expression out of range panics.\<close>

definition key_height_ends :: "bytes \<Rightarrow> bytes \<Rightarrow> bool option" where
  "key_height_ends bh k =
     (if length k < BlockHeightSize then None
      else Some (take (length bh) (drop (BlockHeightSize - length bh) k) = bh))"

definition key_height_is :: "bytes \<Rightarrow> bytes \<Rightarrow> bool option" where
  "key_height_is bh k = (if length k < BlockHeightSize then None else Some (take BlockHeightSize k = bh))"

definition key_address_is :: "address \<Rightarrow> bytes \<Rightarrow> bool option" where
  "key_address_is a k =
     (if length k < BlockHeightSize + BlockHashSize then None
      else Some (drop (BlockHeightSize + BlockHashSize) k = Address_Bytes a))"

text \<open>
  With an address and a height the first key that matches both; with one of them every key that
  matches it.
\<close>

fun getKeys_loop :: "address \<Rightarrow> u64 \<Rightarrow> bytes list \<Rightarrow> bytes list option" where
  "getKeys_loop a h [] = Some []"
| "getKeys_loop a h (k # ks) =
     (if a \<noteq> zero_address \<and> h \<noteq> 0 then
        (case key_height_ends (Uint64ToBytes h) k of
           None \<Rightarrow> None
         | Some False \<Rightarrow> getKeys_loop a h ks
         | Some True \<Rightarrow>
             (case key_address_is a k of
                None \<Rightarrow> None
              | Some True \<Rightarrow> Some [k]
              | Some False \<Rightarrow> getKeys_loop a h ks))
      else
        (case (if a \<noteq> zero_address then key_address_is a k
               else if h \<noteq> 0 then key_height_is (Uint64ToBytes h) k
               else Some False) of
           None \<Rightarrow> None
         | Some found \<Rightarrow> map_option (\<lambda>ks'. if found then k # ks' else ks') (getKeys_loop a h ks)))"

definition getKeys :: "obj kv \<Rightarrow> address \<Rightarrow> u64 \<Rightarrow> bytes list made" where
  "getKeys qdb a h =
     (case getKeys_loop a h (map fst (Iterator_New qdb None None)) of
        None \<Rightarrow> None
      | Some [] \<Rightarrow> Some (Inl ErrNoData)
      | Some ks \<Rightarrow> Some (Inr ks))"

definition tool_newPreCommit :: "bytes \<Rightarrow> obj \<Rightarrow> PreCommit made" where
  "tool_newPreCommit key v =
     (case PreCommit_SetBytes zero_PreCommit v of
        Inl e \<Rightarrow> Some (Inl e)
      | Inr pc \<Rightarrow>
          if length key < BlockHeightSize + BlockHashSize then None
          else Some (Inr (pc\<lparr>pcm_BlockHeight := BytesToUint64 (take BlockHeightSize key),
                            pcm_BlockHash := take BlockHashSize (drop BlockHeightSize key)\<rparr>)))"

fun print_preCommits :: "obj kv \<Rightarrow> bytes list \<Rightarrow> printed" where
  "print_preCommits qdb [] = shows_all []"
| "print_preCommits qdb (k # ks) =
     and_then (case Bucket_Get qdb PrefixClaim k of
                 None \<Rightarrow> shows_all []
               | Some v \<Rightarrow> print_made ShowPreCommit (tool_newPreCommit k v))
       (print_preCommits qdb ks)"

definition queryPreCommits :: "obj kv \<Rightarrow> address \<Rightarrow> u64 \<Rightarrow> printed" where
  "queryPreCommits qdb a h =
     (case getKeys qdb a h of
        None \<Rightarrow> None
      | Some (Inl e) \<Rightarrow> fails e
      | Some (Inr ks) \<Rightarrow> print_preCommits qdb ks)"

definition queryPreCommitDB :: "obj kv \<Rightarrow> string \<Rightarrow> u64 \<Rightarrow> printed" where
  "queryPreCommitDB qdb addr h =
     (if addr = [] \<and> h = 0 then
        IteratePrintDB qdb PrefixClaim (\<lambda>k v. print_made ShowPreCommit (tool_newPreCommit k v))
      else case NewAddressFromString addr of
             None \<Rightarrow> None
           | Some a \<Rightarrow> queryPreCommits qdb a h)"

section \<open>Accounts\<close>

definition newIScoreAccount :: "bytes \<Rightarrow> obj \<Rightarrow> IScoreAccount made" where
  "newIScoreAccount key v =
     (case NewIScoreAccountFromBytes v of
        Inl e \<Rightarrow> Some (Inl e)
      | Inr ia \<Rightarrow> with_address key (\<lambda>a. ia\<lparr>ia_Address := a\<rparr>))"

definition getIScoreAccount :: "obj kv \<Rightarrow> string \<Rightarrow> IScoreAccount option made" where
  "getIScoreAccount qdb addr =
     (case NewAddressFromString addr of
        None \<Rightarrow> None
      | Some a \<Rightarrow>
          (case Bucket_Get qdb PrefixIScore (Address_Bytes a) of
             None \<Rightarrow> Some (Inr None)
           | Some v \<Rightarrow> map_option (map_sum id Some) (newIScoreAccount (Address_Bytes a) v)))"

definition queryAccountDBWithPath :: "obj kv \<Rightarrow> string \<Rightarrow> printed" where
  "queryAccountDBWithPath qdb addr =
     (if addr = [] then IteratePrintDB qdb PrefixIScore (\<lambda>k v. print_made ShowAccount (newIScoreAccount k v))
      else case getIScoreAccount qdb addr of
             None \<Rightarrow> None
           | Some (Inl e) \<Rightarrow> fails e
           | Some (Inr None) \<Rightarrow> shows_all []
           | Some (Inr (Some ia)) \<Rightarrow> shows_all [ShowAccount ia])"

text \<open>The first account of a database; one that does not decode counts as none.\<close>

definition getFirstAccount :: "obj kv \<Rightarrow> IScoreAccount option option" where
  "getFirstAccount qdb =
     (case Iterator_prefix qdb PrefixIScore of
        [] \<Rightarrow> Some None
      | (k, v) # es \<Rightarrow>
          (case newIScoreAccount k v of
             None \<Rightarrow> None
           | Some (Inl _) \<Rightarrow> Some None
           | Some (Inr ia) \<Rightarrow> Some (Some ia)))"

fun is_calculate :: "dirname \<Rightarrow> bool" where
  "is_calculate (CalcDir _ _ _) = True"
| "is_calculate (BackupDir _ _) = False"

definition getAccountDBCount :: "obj disk \<Rightarrow> nat" where
  "getAccountDBCount d = length (filter is_calculate (map fst d)) div 2"

definition getAccountDBPathWithIndex :: "nat \<Rightarrow> nat \<Rightarrow> nat \<Rightarrow> dirname" where
  "getAccountDBPathWithIndex index dbCount suffix = CalcDir (int index) (int dbCount) suffix"

text \<open>The first pair of databases whose first one has an account, or the last pair.\<close>

fun first_accounts :: "obj disk \<Rightarrow> nat \<Rightarrow> nat list \<Rightarrow> (IScoreAccount option \<times> IScoreAccount option) \<Rightarrow>
    (IScoreAccount option \<times> IScoreAccount option) option" where
  "first_accounts d n [] r = Some r"
| "first_accounts d n (i # is) r =
     (case (getFirstAccount (disk_read d (getAccountDBPathWithIndex i n 0)),
            getFirstAccount (disk_read d (getAccountDBPathWithIndex i n 1))) of
        (Some account0, Some account1) \<Rightarrow>
          if account0 \<noteq> None then Some (account0, account1) else first_accounts d n is (account0, account1)
      | _ \<Rightarrow> None)"

text \<open>The number of account databases, and which of the two sets is taken to be the queried one.\<close>

definition getAccountDBInfo :: "obj disk \<Rightarrow> (nat \<times> nat) option" where
  "getAccountDBInfo d =
     (let n = getAccountDBCount d in
      case first_accounts d n (map Suc [0..<n]) (None, None) of
        None \<Rightarrow> None
      | Some (None, None) \<Rightarrow> Some (n, 0)
      | Some (None, Some _) \<Rightarrow> Some (n, 1)
      | Some (Some _, None) \<Rightarrow> Some (n, 0)
      | Some (Some account0, Some account1) \<Rightarrow>
          Some (n, if ia_BlockHeight account1 \<le> ia_BlockHeight account0 then 1 else 0))"

datatype account_type = AnyAccount | QueryAccount | CalculateAccount

text \<open>The query databases first. The index is computed even when there is no database: a division by zero.\<close>

definition account_paths :: "nat \<Rightarrow> nat \<Rightarrow> address option \<Rightarrow> account_type \<Rightarrow> dirname list option" where
  "account_paths n query addr t =
     (let suffixes = (case t of AnyAccount \<Rightarrow> [query, 1 - query]
                              | QueryAccount \<Rightarrow> [query] | CalculateAccount \<Rightarrow> [1 - query])
      in case addr of
           None \<Rightarrow> Some (concat (map (\<lambda>s. map (\<lambda>i. getAccountDBPathWithIndex i n s) (map Suc [0..<n])) suffixes))
         | Some a \<Rightarrow>
             (case Address_ID a of
                [] \<Rightarrow> None
              | b # _ \<Rightarrow>
                  if n = 0 then None
                  else Some (map (getAccountDBPathWithIndex (unat b mod n + 1) n) suffixes)))"

definition queryAccountDBWithRCRoot :: "obj disk \<Rightarrow> string \<Rightarrow> account_type \<Rightarrow> printed" where
  "queryAccountDBWithRCRoot d addr t =
     (case getAccountDBInfo d of
        None \<Rightarrow> None
      | Some (n, query) \<Rightarrow>
          (case (if addr = [] then Some None else map_option Some (NewAddressFromString addr)) of
             None \<Rightarrow> None
           | Some a \<Rightarrow>
               (case account_paths n query a t of
                  None \<Rightarrow> None
                | Some paths \<Rightarrow>
                    foldr (\<lambda>p r. and_then (queryAccountDBWithPath (disk_read d p) addr) r) paths (shows_all []))))"

section \<open>I-Score report\<close>

text \<open>\<^verbatim>\<open>getIScore\<close>: the I-Score of every account less what was claimed of it, by address string.\<close>

fun report_loop :: "obj kv \<Rightarrow> (bytes \<times> obj) list \<Rightarrow> (string \<times> int) list \<Rightarrow> (string \<times> int) list made" where
  "report_loop cDB [] r = Some (Inr r)"
| "report_loop cDB ((k, v) # es) r =
     (case newIScoreAccount k v of
        None \<Rightarrow> None
      | Some (Inl e) \<Rightarrow> Some (Inl e)
      | Some (Inr ia) \<Rightarrow>
          (case getClaim cDB (ia_Address ia) of
             None \<Rightarrow> None
           | Some (Inl e) \<Rightarrow> Some (Inl e)
           | Some (Inr c) \<Rightarrow>
               report_loop cDB es
                 (AList.update (Address_String (ia_Address ia))
                    (ia_IScore ia - (case c of None \<Rightarrow> 0 | Some c \<Rightarrow> cd_IScore (cl_Data c))) r)))"

fun report_dbs :: "obj kv \<Rightarrow> obj disk \<Rightarrow> dirname list \<Rightarrow> (string \<times> int) list \<Rightarrow> (string \<times> int) list made" where
  "report_dbs cDB d [] r = Some (Inr r)"
| "report_dbs cDB d (p # ps) r =
     (case report_loop cDB (Iterator_prefix (disk_read d p) PrefixIScore) r of
        Some (Inr r') \<Rightarrow> report_dbs cDB d ps r'
      | x \<Rightarrow> x)"

definition getIScore :: "obj kv \<Rightarrow> obj disk \<Rightarrow> (string \<times> int) list made" where
  "getIScore cDB d =
     (case getAccountDBInfo d of
        None \<Rightarrow> None
      | Some (n, query) \<Rightarrow>
          report_dbs cDB d (map (\<lambda>i. getAccountDBPathWithIndex (Suc i) n query) [0..<n]) [])"

end
