(* ===== verification/DbToolRecords.thy ===== *)
theory DbToolRecords
  imports DbTool
begin

text \<open>
  The commands of \<^verbatim>\<open>cmd/dbtool\<close> on the management, calculation result and IISS databases. A
  value that is missing decodes like an empty one, with an error.
\<close>

section \<open>Management database\<close>

definition printGV :: "bytes \<Rightarrow> obj \<Rightarrow> printed" where
  "printGV key v =
     print_made ShowGV (Some (bindE (GV_SetBytes zero_GV v) (\<lambda>gv.
       Inr (gv\<lparr>gv_BlockHeight := BytesToUint64 (drop (length PrefixGovernanceVariable) key)\<rparr>))))"

definition newPRep :: "bytes \<Rightarrow> obj \<Rightarrow> error + PRep" where
  "newPRep key v =
     bindE (PRep_SetBytes zero_PRep v) (\<lambda>prep.
     Inr (prep\<lparr>pr_BlockHeight := BytesToUint64 (drop (length PrefixIISSPRep) key)\<rparr>))"

definition getPRep :: "obj kv \<Rightarrow> u64 \<Rightarrow> error + PRep option" where
  "getPRep qdb h =
     (let key = PRep_ID (zero_PRep\<lparr>pr_BlockHeight := h\<rparr>) in
      case Bucket_Get qdb PrefixIISSPRep key of
        None \<Rightarrow> Inr None
      | Some v \<Rightarrow> map_sum id Some (newPRep key v))"

definition queryPRep :: "obj kv \<Rightarrow> u64 \<Rightarrow> printed" where
  "queryPRep qdb h =
     (if h = 0 then IteratePrintDB qdb PrefixPRep (\<lambda>k v. print_made (\<lambda>p. ShowPRep (Some p)) (Some (newPRep k v)))
      else print_made ShowPRep (Some (getPRep qdb h)))"

definition newPC :: "bytes \<Rightarrow> obj option \<Rightarrow> PRepCandidate made" where
  "newPC key v =
     (case v of
        None \<Rightarrow> Some (Inl ErrDecode)
      | Some v \<Rightarrow>
          (case PRepCandidate_SetBytes zero_PRepCandidate v of
             Inl e \<Rightarrow> Some (Inl e)
           | Inr pc \<Rightarrow>
               if length key < length PrefixPRepCandidate then None
               else with_address (drop (length PrefixPRepCandidate) key) (\<lambda>a. pc\<lparr>pc_Address := a\<rparr>)))"

definition getPC :: "obj kv \<Rightarrow> address \<Rightarrow> PRepCandidate made" where
  "getPC qdb addr =
     (let n = length PrefixPRepCandidate;
          qKey = copy_at (copy_at (replicate (n + AddressBytes) 0) 0 PrefixPRepCandidate) n (Address_Bytes addr)
      in newPC qKey (Bucket_Get qdb PrefixPRepCandidate (Address_Bytes addr)))"

definition queryPC :: "obj kv \<Rightarrow> string \<Rightarrow> printed" where
  "queryPC qdb addr =
     (if addr = [] then IteratePrintDB qdb PrefixPRepCandidate (\<lambda>k v. print_made ShowCandidate (newPC k (Some v)))
      else case NewAddressFromString addr of
             None \<Rightarrow> None
           | Some a \<Rightarrow> print_made ShowCandidate (getPC qdb a))"

text \<open>An undecodable record prints nothing and is no error.\<close>

definition queryDBInfo :: "obj kv \<Rightarrow> printed" where
  "queryDBInfo qdb =
     (case Bucket_Get qdb PrefixManagement DBInfo_ID of
        None \<Rightarrow> shows_all []
      | Some v \<Rightarrow> (case DBInfo_SetBytes zero_DBInfo v of Inl _ \<Rightarrow> shows_all [] | Inr i \<Rightarrow> shows_all [ShowDBInfo i]))"

datatype data_type = AllData | DataGV | DataPRep | DataTX | DataHeader | DataBP | DataDI | DataPC | OtherData

definition data_type_of :: "string \<Rightarrow> data_type" where
  "data_type_of s =
     (if s = [] then AllData else if s = ''gv'' then DataGV else if s = ''prep'' then DataPRep
      else if s = ''tx'' then DataTX else if s = ''header'' then DataHeader else if s = ''bp'' then DataBP
      else if s = ''di'' then DataDI else if s = ''pc'' then DataPC else OtherData)"

definition queryManagementDB :: "obj kv \<Rightarrow> string \<Rightarrow> u64 \<Rightarrow> string \<Rightarrow> printed" where
  "queryManagementDB qdb data h addr =
     (let gvs = IteratePrintDB qdb PrefixGovernanceVariable printGV in
      case data_type_of data of
        AllData \<Rightarrow> and_then (queryDBInfo qdb) (and_then gvs (and_then (queryPRep qdb 0) (queryPC qdb [])))
      | DataDI \<Rightarrow> queryDBInfo qdb
      | DataGV \<Rightarrow> gvs
      | DataPRep \<Rightarrow> queryPRep qdb h
      | DataPC \<Rightarrow> queryPC qdb addr
      | _ \<Rightarrow> fails ErrIllegalArgument)"

section \<open>Calculation results\<close>

definition newCalcResult :: "bytes \<Rightarrow> obj \<Rightarrow> error + CalculationResult" where
  "newCalcResult key v =
     bindE (NewCalculationResultFromBytes v) (\<lambda>cr. Inr (cr\<lparr>cr_BlockHeight := BytesToUint64 key\<rparr>))"

definition tool_getCalcResult :: "obj kv \<Rightarrow> u64 \<Rightarrow> error + CalculationResult option" where
  "tool_getCalcResult qdb h =
     (let key = Uint64ToBytes h in
      case Bucket_Get qdb PrefixCalcResult key of
        None \<Rightarrow> Inr None
      | Some v \<Rightarrow> map_sum id Some (newCalcResult key v))"

definition queryCalcResultDB :: "obj kv \<Rightarrow> u64 \<Rightarrow> printed" where
  "queryCalcResultDB qdb h =
     (if h = 0 then IteratePrintDB qdb PrefixCalcResult (\<lambda>k v. print_made ShowResult (Some (newCalcResult k v)))
      else case tool_getCalcResult qdb h of
             Inl e \<Rightarrow> fails e
           | Inr None \<Rightarrow> shows_all []
           | Inr (Some cr) \<Rightarrow> shows_all [ShowResult cr])"

section \<open>IISS data\<close>

text \<open>
  The error of decoding the header is not looked at (the test is of another variable): without
  a readable header the tool goes on with an empty one.
\<close>

definition newHeader :: "obj kv \<Rightarrow> IISSHeader" where
  "newHeader qdb =
     (case Bucket_Get qdb PrefixIISSHeader [] of
        None \<Rightarrow> zero_IISSHeader
      | Some v \<Rightarrow> (case IISSHeader_SetBytes zero_IISSHeader v of Inl _ \<Rightarrow> zero_IISSHeader | Inr h \<Rightarrow> h))"

text \<open>The height is read from the whole key: the prefix is shifted out of the 64 bits.\<close>

definition queryIISSGV :: "obj kv \<Rightarrow> printed" where
  "queryIISSGV qdb =
     IteratePrintDB qdb PrefixIISSGV (\<lambda>k v.
       print_made ShowIISSGV (Some (IISSGV_SetBytes (zero_IISSGV\<lparr>igv_BlockHeight := BytesToUint64 k\<rparr>) v
         (ih_Version (newHeader qdb)))))"

definition newBP :: "bytes \<Rightarrow> obj \<Rightarrow> error + IISSBlockProduceInfo" where
  "newBP key v =
     bindE (BP_SetBytes zero_BP v) (\<lambda>bp.
     Inr (bp\<lparr>bp_BlockHeight := BytesToUint64 (drop (length PrefixIISSBPInfo) key)\<rparr>))"

definition getBP :: "obj kv \<Rightarrow> u64 \<Rightarrow> error + IISSBlockProduceInfo option" where
  "getBP qdb h =
     (let key = BP_ID (zero_BP\<lparr>bp_BlockHeight := h\<rparr>) in
      case Bucket_Get qdb PrefixIISSBPInfo key of
        None \<Rightarrow> Inr None
      | Some v \<Rightarrow> map_sum id Some (newBP key v))"

definition queryBP :: "obj kv \<Rightarrow> u64 \<Rightarrow> printed" where
  "queryBP qdb h =
     (if h = 0 then IteratePrintDB qdb PrefixIISSBPInfo (\<lambda>k v. print_made ShowBP (Some (newBP k v)))
      else case getBP qdb h of
             Inl e \<Rightarrow> fails e
           | Inr None \<Rightarrow> shows_all []
           | Inr (Some bp) \<Rightarrow> shows_all [ShowBP bp])"

definition newTX :: "bytes \<Rightarrow> obj \<Rightarrow> error + IISSTX" where
  "newTX key v = IISSTX_SetBytes (zero_IISSTX\<lparr>tx_Index := BytesToUint64 key\<rparr>) v"

text \<open>\<^verbatim>\<open>String\<close> decodes the data of the transaction and panics when it cannot.\<close>

definition printTXInstance :: "IISSTX \<Rightarrow> printed" where
  "printTXInstance tx =
     (case tx_Data tx of
        None \<Rightarrow> shows_all [ShowTX tx]
      | Some d \<Rightarrow> (case DecodeAny d of Some (Inr _) \<Rightarrow> shows_all [ShowTX tx] | _ \<Rightarrow> None))"

definition printTX :: "bytes \<Rightarrow> obj \<Rightarrow> printed" where
  "printTX key v = (case newTX key v of Inl _ \<Rightarrow> shows_all [] | Inr tx \<Rightarrow> printTXInstance tx)"

text \<open>The transactions of a block. One that does not decode is taken to have no block.\<close>

definition queryTransaction :: "obj kv \<Rightarrow> u64 \<Rightarrow> printed" where
  "queryTransaction qdb h =
     iterate_print (\<lambda>_ tx. printTXInstance tx)
       (concat (map (\<lambda>(k, v). case newTX k v of
                                Inl _ \<Rightarrow> []
                              | Inr tx \<Rightarrow> if tx_BlockHeight tx = h then [(k, tx)] else [])
         (Iterator_prefix qdb PrefixIISSTX)))"

definition queryTX :: "obj kv \<Rightarrow> u64 \<Rightarrow> printed" where
  "queryTX qdb h = (if h = 0 then IteratePrintDB qdb PrefixIISSTX printTX else queryTransaction qdb h)"

definition queryIISSDB :: "obj kv \<Rightarrow> string \<Rightarrow> u64 \<Rightarrow> printed" where
  "queryIISSDB qdb data h =
     (let header = shows_all [ShowHeader (newHeader qdb)] in
      case data_type_of data of
        AllData \<Rightarrow> and_then header (and_then (queryIISSGV qdb) (and_then (queryPRep qdb 0)
                    (and_then (queryBP qdb 0) (queryTX qdb 0))))
      | DataGV \<Rightarrow> queryIISSGV qdb
      | DataHeader \<Rightarrow> header
      | DataBP \<Rightarrow> queryBP qdb h
      | DataPRep \<Rightarrow> queryPRep qdb h
      | DataTX \<Rightarrow> queryTX qdb h
      | _ \<Rightarrow> fails ErrIllegalArgument)"

end
