(* ===== verification/Flags.thy ===== *)
theory Flags
  imports HexWrap
begin

text \<open>
  The package \<^verbatim>\<open>flag\<close> of the Go library, as documented and as far as the tools use it: flag
  sets with string, number and bool variables, parsed with \<^verbatim>\<open>ExitOnError\<close>. A flag set is
  the list of its names with the variable each sets, a field of a record. \<open>None\<close> as a result
  of parsing ends the process; the arguments that are left over are not looked at by the tools.
\<close>

section \<open>Flag sets\<close>

datatype 's flag =
    StringVar "string \<Rightarrow> 's \<Rightarrow> 's"
  | Uint64Var "u64 \<Rightarrow> 's \<Rightarrow> 's"
  | IntVar "int \<Rightarrow> 's \<Rightarrow> 's"
  | BoolVar "bool \<Rightarrow> 's \<Rightarrow> 's"

type_synonym 's flag_set = "(string \<times> 's flag) list"

definition strconv_ParseBool :: "string \<Rightarrow> bool option" where
  "strconv_ParseBool s =
     (if s \<in> {''1'', ''t'', ''T'', ''TRUE'', ''true'', ''True''} then Some True
      else if s \<in> {''0'', ''f'', ''F'', ''FALSE'', ''false'', ''False''} then Some False
      else None)"

fun set_flag :: "'s flag \<Rightarrow> string \<Rightarrow> 's \<Rightarrow> 's option" where
  "set_flag (StringVar f) v s = Some (f v s)"
| "set_flag (Uint64Var f) v s = map_option (\<lambda>n. f n s) (strconv_ParseUint v 64)"
| "set_flag (IntVar f) v s = map_option (\<lambda>n. f (sint n) s) (strconv_ParseInt v 64)"
| "set_flag (BoolVar f) v s = map_option (\<lambda>b. f b s) (strconv_ParseBool v)"

fun is_bool_flag :: "'s flag \<Rightarrow> bool" where
  "is_bool_flag (BoolVar _) = True"
| "is_bool_flag _ = False"

section \<open>Parsing\<close>

text \<open>The text after the minus signs, when the argument is a flag. \<^verbatim>\<open>--\<close> ends the flags.\<close>

definition flag_text :: "string \<Rightarrow> string option" where
  "flag_text a =
     (if length a < 2 \<or> hd a \<noteq> CHR ''-'' \<or> a = ''--'' then None
      else Some (if a ! 1 = CHR ''-'' then drop 2 a else drop 1 a))"

definition flag_name_ok :: "string \<Rightarrow> bool" where
  "flag_name_ok n \<longleftrightarrow> n \<noteq> [] \<and> hd n \<noteq> CHR ''-'' \<and> CHR ''='' \<notin> set n"

text \<open>The name and, after the first \<open>=\<close>, the value.\<close>

fun split_value :: "string \<Rightarrow> string \<times> string option" where
  "split_value [] = ([], None)"
| "split_value (c # cs) = (if c = CHR ''='' then ([], Some cs) else apfst (Cons c) (split_value cs))"

fun FlagSet_Parse :: "'s flag_set \<Rightarrow> string list \<Rightarrow> 's \<Rightarrow> 's option" where
  "FlagSet_Parse fs [] s = Some s"
| "FlagSet_Parse fs (a # as) s =
     (case flag_text a of
        None \<Rightarrow> Some s
      | Some t \<Rightarrow>
          if t = [] \<or> hd t = CHR ''-'' \<or> hd t = CHR ''='' then None
          else
            (case map_of fs (fst (split_value t)) of
               None \<Rightarrow> None
             | Some f \<Rightarrow>
                 (case snd (split_value t) of
                    Some v \<Rightarrow> Option.bind (set_flag f v s) (FlagSet_Parse fs as)
                  | None \<Rightarrow>
                      if is_bool_flag f then Option.bind (set_flag f ''true'' s) (FlagSet_Parse fs as)
                      else
                        (case as of
                           [] \<Rightarrow> None
                         | v # as' \<Rightarrow> Option.bind (set_flag f v s) (FlagSet_Parse fs as')))))"

section \<open>Options given\<close>

text \<open>
  What a command line says: names with values, each given in one of the forms Go takes. The
  options are set in the order they are given, so the last one of a variable counts.
\<close>

datatype form = OneMinus | TwoMinus | Separate

fun flag_args :: "form \<times> string \<times> string \<Rightarrow> string list" where
  "flag_args (OneMinus, n, v) = [''-'' @ n @ ''='' @ v]"
| "flag_args (TwoMinus, n, v) = [''--'' @ n @ ''='' @ v]"
| "flag_args (Separate, n, v) = [''-'' @ n, v]"

fun set_flags :: "'s flag_set \<Rightarrow> (form \<times> string \<times> string) list \<Rightarrow> 's \<Rightarrow> 's option" where
  "set_flags fs [] s = Some s"
| "set_flags fs ((_, n, v) # os) s =
     (case map_of fs n of None \<Rightarrow> None | Some f \<Rightarrow> Option.bind (set_flag f v s) (set_flags fs os))"

fun form_fits :: "'s flag_set \<Rightarrow> form \<times> string \<times> string \<Rightarrow> bool" where
  "form_fits fs (m, n, _) \<longleftrightarrow>
     flag_name_ok n \<and> (m = Separate \<longrightarrow> (case map_of fs n of None \<Rightarrow> True | Some f \<Rightarrow> \<not> is_bool_flag f))"

lemma split_value_name: "CHR ''='' \<notin> set n \<Longrightarrow> split_value (n @ CHR ''='' # v) = (n, Some v)"
  "CHR ''='' \<notin> set n \<Longrightarrow> split_value n = (n, None)"
  by (induction n) auto

lemma flag_text_forms:
  assumes "flag_name_ok n"
  shows "flag_text (''-'' @ n @ t) = Some (n @ t)" "flag_text (''--'' @ n @ t) = Some (n @ t)" "flag_text (''-'' @ n) = Some n"
  using assms by (cases n; auto simp: flag_text_def flag_name_ok_def)+

lemma flag_name_okD: "flag_name_ok n \<Longrightarrow> n \<noteq> [] \<and> hd n \<noteq> CHR ''-'' \<and> hd n \<noteq> CHR ''=''"
  by (cases n) (auto simp: flag_name_ok_def)

lemma FlagSet_Parse_given:
  assumes "list_all (form_fits fs) opts"
  shows "FlagSet_Parse fs (concat (map flag_args opts)) s = set_flags fs opts s"
  using assms
proof (induction opts arbitrary: s)
  case (Cons opt opts)
  obtain m n v where opt: "opt = (m, n, v)" by (cases opt)
  then have ok: "flag_name_ok n" and rest: "list_all (form_fits fs) opts"
    and sep: "m = Separate \<Longrightarrow> case map_of fs n of None \<Rightarrow> True | Some f \<Rightarrow> \<not> is_bool_flag f"
    using Cons.prems by simp_all
  have eq: "split_value (n @ CHR ''='' # v) = (n, Some v)" "split_value n = (n, None)"
    using ok split_value_name by (auto simp: flag_name_ok_def)
  have IH: "FlagSet_Parse fs (concat (map flag_args opts)) = set_flags fs opts" using Cons.IH [OF rest] by (rule ext)
  note forms = flag_text_forms [OF ok, simplified]
  show ?case
    using sep flag_name_okD [OF ok] by (cases m) (auto simp: opt forms eq IH hd_append split: option.split)
qed simp

end
