(* ===== verification/SendIpc.thy ===== *)
theory SendIpc
  imports Client
begin

text \<open>
  The command line client \<^verbatim>\<open>cmd/sendipc\<close>, over the connection of the client API. It prints
  the response to each request; it drops the error of the exchange and then prints an empty
  one. The result of a command here is the response or that error. \<open>None\<close> is a panic.
\<close>

text \<open>The response to VERSION is decoded into a 16-bit number, and it is a record.\<close>

definition ipc_version :: "'s peer \<Rightarrow> RCIPC \<times> 's \<Rightarrow> (error + u16) \<times> RCIPC \<times> 's" where
  "ipc_version peer st = exchange peer MsgVersion ONil dec_u16 st"

definition ipc_init :: "'s peer \<Rightarrow> u64 \<Rightarrow> RCIPC \<times> 's \<Rightarrow> (error + ResponseInit) \<times> RCIPC \<times> 's" where
  "ipc_init peer blockHeight st = exchange peer MsgINIT (enc_u64 blockHeight) dec_ResponseInit st"

text \<open>The request of QUERY names no block.\<close>

definition ipc_query ::
    "'s peer \<Rightarrow> string \<Rightarrow> bytes option \<Rightarrow> RCIPC \<times> 's \<Rightarrow> ((error + ResponseQuery) \<times> RCIPC \<times> 's) option" where
  "ipc_query peer addr txHash st =
     (case NewAddressFromString addr of
        None \<Rightarrow> None
      | Some a \<Rightarrow>
          Some (exchange peer MsgQuery
            (enc_Query \<lparr>q_Address = a, q_BlockHeight = 0, q_BlockHash = None, q_TXHash = txHash\<rparr>) dec_ResponseQuery st))"

definition ipc_commitClaim ::
    "'s peer \<Rightarrow> bool \<Rightarrow> string \<Rightarrow> u64 \<Rightarrow> string \<Rightarrow> u64 \<Rightarrow> string \<Rightarrow> RCIPC \<times> 's \<Rightarrow> (error + unit) \<times> RCIPC \<times> 's" where
  "ipc_commitClaim peer success addr blockHeight blockHash txIndex txHash st =
     (case given_hash BlockHashSize blockHash blockHeight of
        Inl e \<Rightarrow> (Inl e, st)
      | Inr bh \<Rightarrow>
          (case given_hash TXHashSize txHash (blockHeight + txIndex) of
             Inl e \<Rightarrow> (Inl e, st)
           | Inr th \<Rightarrow>
               exchange peer MsgCommitClaim (enc_CommitClaim \<lparr>cc_Success = success, cc_Address = address_arg addr,
                   cc_BlockHeight = blockHeight, cc_BlockHash = Some bh, cc_TXIndex = txIndex, cc_TXHash = Some th\<rparr>)
                 (\<lambda>_. Inr ()) st))"

definition ipc_startBlock :: "'s peer \<Rightarrow> u64 \<Rightarrow> string \<Rightarrow> RCIPC \<times> 's \<Rightarrow> (error + StartBlock) \<times> RCIPC \<times> 's" where
  "ipc_startBlock peer blockHeight blockHash st =
     (case given_hash BlockHashSize blockHash blockHeight of
        Inl e \<Rightarrow> (Inl e, st)
      | Inr bh \<Rightarrow> exchange peer MsgStartBlock (enc_StartBlock \<lparr>sb_BlockHeight = blockHeight, sb_BlockHash = Some bh\<rparr>)
          dec_StartBlock st)"

definition ipc_commitBlock :: "'s peer \<Rightarrow> bool \<Rightarrow> u64 \<Rightarrow> string \<Rightarrow> RCIPC \<times> 's \<Rightarrow> (error + CommitBlock) \<times> RCIPC \<times> 's" where
  "ipc_commitBlock peer success blockHeight blockHash st =
     (case given_hash BlockHashSize blockHash blockHeight of
        Inl e \<Rightarrow> (Inl e, st)
      | Inr bh \<Rightarrow>
          exchange peer MsgCommitBlock (enc_CommitBlock \<lparr>cb_Success = success, cb_BlockHeight = blockHeight, cb_BlockHash = Some bh\<rparr>)
            dec_CommitBlock st)"

text \<open>CLAIM and, unless told not to, COMMIT_CLAIM and COMMIT_BLOCK, whatever CLAIM was answered.\<close>

definition ipc_claim ::
    "'s peer \<Rightarrow> string \<Rightarrow> u64 \<Rightarrow> string \<Rightarrow> u64 \<Rightarrow> string \<Rightarrow> bool \<Rightarrow> bool \<Rightarrow> RCIPC \<times> 's \<Rightarrow>
     (error + ResponseClaim) \<times> RCIPC \<times> 's" where
  "ipc_claim peer addr blockHeight blockHash txIndex txHash noCommitClaim noCommitBlock st =
     (case given_hash BlockHashSize blockHash blockHeight of
        Inl e \<Rightarrow> (Inl e, st)
      | Inr bh \<Rightarrow>
          (case exchange peer MsgClaim (enc_ClaimMessage \<lparr>cm_Address = address_arg addr, cm_BlockHeight = blockHeight,
                  cm_BlockHash = Some bh, cm_TXIndex = txIndex, cm_TXHash = Some (claim_tx_hash txHash (blockHeight + txIndex))\<rparr>)
                  dec_ResponseClaim st of
             (r, st0) \<Rightarrow>
               (let st1 = apfst next_id st0;
                    st2 = (if noCommitClaim then st1
                           else apfst next_id (snd (ipc_commitClaim peer True addr blockHeight blockHash txIndex txHash st1)));
                    st3 = (if noCommitBlock then st2 else snd (ipc_commitBlock peer True blockHeight blockHash st2))
                in (r, st3))))"

definition receive_done :: "RCIPC \<times> 's \<Rightarrow> (CalculateDone option \<times> error option) \<times> RCIPC \<times> 's" where
  "receive_done st =
     (case st of (rc, s) \<Rightarrow>
        (case Connection_Receive dec_CalculateDone (rc_conn rc) of
           ((m, _, r), c) \<Rightarrow>
             ((case r of Inl e \<Rightarrow> (None, Some e) | Inr d \<Rightarrow> (if m = MsgCalculateDone then Some d else None, None)),
              rc\<lparr>rc_conn := c\<rparr>, s)))"

text \<open>
  A failed exchange leaves an empty response, whose status is the one of success: the tool then
  waits for CALCULATE_DONE.
\<close>

definition ipc_calculate ::
    "'s peer \<Rightarrow> string \<Rightarrow> u64 \<Rightarrow> RCIPC \<times> 's \<Rightarrow> (CalculateDone option \<times> error option) \<times> RCIPC \<times> 's" where
  "ipc_calculate peer iissData blockHeight st =
     (case exchange peer MsgCalculate (enc_CalculateRequest \<lparr>cq_Path = iissData, cq_BlockHeight = blockHeight, cq_BlockHash = []\<rparr>)
             dec_CalculateResponse st of
        (r, st1) \<Rightarrow>
          (case r of
             Inr resp \<Rightarrow> if ca_Status resp \<noteq> CalcRespStatusOK then ((None, None), st1) else receive_done st1
           | Inl _ \<Rightarrow> receive_done st1))"

definition ipc_queryCalculateStatus ::
    "'s peer \<Rightarrow> RCIPC \<times> 's \<Rightarrow> (error + QueryCalculateStatusResponse) \<times> RCIPC \<times> 's" where
  "ipc_queryCalculateStatus peer st = exchange peer MsgQueryCalculateStatus ONil dec_QueryCalculateStatusResponse st"

definition ipc_queryCalculateResult ::
    "'s peer \<Rightarrow> u64 \<Rightarrow> RCIPC \<times> 's \<Rightarrow> (error + QueryCalculateResultResponse) \<times> RCIPC \<times> 's" where
  "ipc_queryCalculateResult peer blockHeight st =
     exchange peer MsgQueryCalculateResult (enc_u64 blockHeight) dec_QueryCalculateResultResponse st"

text \<open>A block hash of less than 32 bytes is sliced out of range.\<close>

definition ipc_rollback ::
    "'s peer \<Rightarrow> u64 \<Rightarrow> string \<Rightarrow> RCIPC \<times> 's \<Rightarrow> ((error + RollBackResponse) \<times> RCIPC \<times> 's) option" where
  "ipc_rollback peer blockHeight blockHash st =
     (case hex_decode blockHash of
        Inl e \<Rightarrow> Some (Inl e, st)
      | Inr hash \<Rightarrow>
          if length hash < BlockHashSize then None
          else Some (exchange peer MsgRollBack (enc_RollBackRequest \<lparr>rb_BlockHeight = blockHeight,
                 rb_BlockHash = Some (take BlockHashSize hash)\<rparr>) dec_RollBackResponse st))"

text \<open>The I-Scores the monitor reads in one round, as 64-bit numbers.\<close>

fun readAndPush :: "'s peer \<Rightarrow> (string \<times> address) list \<Rightarrow> RCIPC \<times> 's \<Rightarrow> ((string \<times> u64) list \<times> RCIPC \<times> 's) option" where
  "readAndPush peer [] st = Some ([], st)"
| "readAndPush peer ((n, a) # ts) st =
     (case ipc_query peer (Address_String a) None st of
        None \<Rightarrow> None
      | Some (r, st') \<Rightarrow>
          map_option (apfst (Cons (n, case r of Inl _ \<Rightarrow> 0 | Inr q \<Rightarrow> big_uint64 (rq_IScore q)))) (readAndPush peer ts st'))"

section \<open>The monitoring client\<close>

text \<open>
  \<^verbatim>\<open>cmd/rctool\<close>, over the monitoring channel. The commands that change a setting send
  their message and end, without reading the answer.
\<close>

definition debug_message :: "u64 \<Rightarrow> DebugMessage" where
  "debug_message cmd = \<lparr>dm_Cmd = cmd, dm_Address = zero_address, dm_OutputPath = [], dm_BlockHeight = 0\<rparr>"

definition rc_ask :: "'s peer \<Rightarrow> DebugMessage \<Rightarrow> RCIPC \<times> 's \<Rightarrow> (error + obj) \<times> RCIPC \<times> 's" where
  "rc_ask peer req st = exchange peer MsgDebug (enc_DebugMessage req) Inr st"

definition rc_tell :: "'s peer \<Rightarrow> DebugMessage \<Rightarrow> RCIPC \<times> 's \<Rightarrow> (error + obj) \<times> RCIPC \<times> 's" where
  "rc_tell peer req st =
     (case st of (rc, s) \<Rightarrow>
        (case peer \<lparr>m_Msg = MsgDebug, m_Id = rc_id rc, m_Data = enc_DebugMessage req\<rparr> s of
           (answers, s') \<Rightarrow>
             (let c = Connection_Send MsgDebug (rc_id rc) (enc_DebugMessage req) (rc_conn rc)
              in (Inr ONil, rc\<lparr>rc_conn := c\<lparr>conn_in := conn_in c @ answers\<rparr>\<rparr>, s'))))"

definition rc_calculate :: "'s peer \<Rightarrow> u64 \<Rightarrow> RCIPC \<times> 's \<Rightarrow>
    (error + QueryCalculateStatusResponse + QueryCalculateResultResponse) \<times> RCIPC \<times> 's" where
  "rc_calculate peer blockHeight st =
     (if blockHeight = 0
      then apfst (map_sum id Inl) (exchange peer MsgQueryCalculateStatus ONil dec_QueryCalculateStatusResponse st)
      else apfst (map_sum id Inr) (exchange peer MsgQueryCalculateResult (enc_u64 blockHeight) dec_QueryCalculateResultResponse st))"

definition rc_run :: "'s peer \<Rightarrow> string \<Rightarrow> RCIPC \<times> 's \<Rightarrow> (error + obj) \<times> RCIPC \<times> 's" where
  "rc_run peer cmd st =
     (if cmd = ''stats'' then rc_ask peer (debug_message DebugStatistics) st
      else if cmd = ''dbinfo'' then rc_ask peer (debug_message DebugDBInfo) st
      else if cmd = ''prep'' then rc_ask peer (debug_message DebugPRep) st
      else if cmd = ''prepcandidate'' then rc_ask peer (debug_message DebugPRepCandidate) st
      else if cmd = ''gv'' then rc_ask peer (debug_message DebugGV) st
      else if cmd = ''logctx'' then rc_tell peer (debug_message DebugLogCTX) st
      else (Inl ErrIllegalArgument, st))"

text \<open>The debugging commands; \<open>result\<close> without a path asks the service.\<close>

definition rc_address_command ::
    "'s peer \<Rightarrow> u64 \<Rightarrow> string list \<Rightarrow> RCIPC \<times> 's \<Rightarrow> ((error + obj) \<times> RCIPC \<times> 's) option" where
  "rc_address_command peer cmd args st =
     (case args of
        [addr] \<Rightarrow> map_option (\<lambda>a. rc_tell peer ((debug_message cmd)\<lparr>dm_Address := a\<rparr>) st) (NewAddressFromString addr)
      | _ \<Rightarrow> Some (Inl ErrIllegalArgument, st))"

definition rc_calculateDebug ::
    "'s peer \<Rightarrow> string list \<Rightarrow> string \<Rightarrow> u64 \<Rightarrow> RCIPC \<times> 's \<Rightarrow> ((error + obj) \<times> RCIPC \<times> 's) option" where
  "rc_calculateDebug peer input addr blockHeight st =
     (case input of
        [] \<Rightarrow> Some (Inl ErrIllegalArgument, st)
      | c # args \<Rightarrow>
          if c = ''enable'' then Some (rc_tell peer (debug_message DebugCalcFlagOn) st)
          else if c = ''disable'' then Some (rc_tell peer (debug_message DebugCalcFlagOff) st)
          else if c = ''add'' then rc_address_command peer DebugCalcAddAddress args st
          else if c = ''delete'' then rc_address_command peer DebugCalcDelAddress args st
          else if c = ''list'' then Some (rc_ask peer (debug_message DebugCalcListAddresses) st)
          else if c = ''result'' then
            map_option (\<lambda>a. rc_ask peer ((debug_message DebugCalcDebugResult)\<lparr>dm_Address := a, dm_BlockHeight := blockHeight\<rparr>) st)
              (NewAddressFromString addr)
          else Some (Inl ErrIllegalArgument, st))"

text \<open>\<^verbatim>\<open>cmd/common/db_calcdebug.go\<close>: the same results from the files.\<close>

definition QueryCalcDebugResult :: "CalcDebugData kv \<Rightarrow> address \<Rightarrow> u64 \<Rightarrow> (error + CalcDebugResult list) option" where
  "QueryCalcDebugResult qdb a blockHeight =
     (case GetCalcDebugResultKeys qdb blockHeight of
        None \<Rightarrow> None
      | Some (Inl e) \<Rightarrow> Some (Inl e)
      | Some (Inr keys) \<Rightarrow> map_option Inr (query_debug_results a qdb keys))"

definition QueryCalcDebugDB :: "CalcDebugData kv \<Rightarrow> string \<Rightarrow> u64 \<Rightarrow> (error + CalcDebugResult list) option" where
  "QueryCalcDebugDB qdb addr blockHeight =
     (if addr = [] \<and> blockHeight = 0 then map_option Inr (those (map (\<lambda>(k, v). NewCalcDebugResult k v) (Iterator_prefix qdb PrefixClaim)))
      else case NewAddressFromString addr of
             None \<Rightarrow> None
           | Some a \<Rightarrow> QueryCalcDebugResult qdb a blockHeight)"

section \<open>Properties\<close>

text \<open>
  A query of the tool that names a transaction looks for its pre-commit in block zero: unless
  there is one, it is answered as if it had named none.
\<close>

lemma ipc_query_ignores_transaction:
  assumes "findPreCommit (preCommit_db (claims (DB ctx))) a 0 [] = None"
  shows "DoQuery ctx \<lparr>q_Address = a, q_BlockHeight = 0, q_BlockHash = None, q_TXHash = t\<rparr> = DoQuery ctx (plain_query a)"
  using DoQuery_not_pending [of ctx "\<lparr>q_Address = a, q_BlockHeight = 0, q_BlockHash = None, q_TXHash = t\<rparr>"] assms
  by (simp add: nonNilBytes_def)

text \<open>The version is never read: a record is no number.\<close>

lemma ipc_version_fails:
  assumes "in_step rc" "service_answer env \<lparr>m_Msg = MsgVersion, m_Id = rc_id rc, m_Data = ONil\<rparr> mo = Some (enc_ResponseVersion v, mo')"
  shows "ipc_version (serve env) (rc, mo) = (Inl ErrDecode, asked MsgVersion ONil rc, mo')"
  unfolding ipc_version_def service_peer.exchange_answered [OF assms]
  by (simp add: enc_ResponseVersion_def)

text \<open>The files give the results the service answers with.\<close>

lemma QueryCalcDebugResult_service:
  "QueryCalcDebugResult (calcDebug_db ctx) a h = Some (Inr rs) \<Longrightarrow>
     handleQueryCalcDebugResult a h ctx = Some (RQueryCalcDebugResult rs)"
  by (auto simp: QueryCalcDebugResult_def handleQueryCalcDebugResult_def split: option.splits sum.splits)

end
