(* ===== verification/DbToolMain.thy ===== *)
theory DbToolMain
  imports DbToolRecords Flags SendIpc
begin

text \<open>
  The command line of \<^verbatim>\<open>cmd/dbtool\<close>: \<^verbatim>\<open>cmd/common/cli_input.go\<close> and \<^verbatim>\<open>cli.go\<close>. The databases
  found at a path are a parameter. What the process does is a term of \<open>tool_result\<close>; the usage
  texts are not modelled.
\<close>

section \<open>Options\<close>

record Input =
  in_Path :: string
  in_Address :: string
  in_Height :: u64
  in_Data :: string
  in_Help :: bool
  in_AccountType :: string
  in_RcDBRoot :: string
  in_Output :: string

definition zero_Input :: Input where
  "zero_Input = \<lparr>in_Path = [], in_Address = [], in_Height = 0, in_Data = [], in_Help = False,
     in_AccountType = [], in_RcDBRoot = [], in_Output = []\<rparr>"

text \<open>Every variable has a long and a short name.\<close>

definition path_flags :: "Input flag_set" where
  "path_flags = (let f = StringVar (\<lambda>v i. i\<lparr>in_Path := v\<rparr>) in [(''path'', f), (''p'', f)])"

definition data_flags :: "Input flag_set" where
  "data_flags = (let f = StringVar (\<lambda>v i. i\<lparr>in_Data := v\<rparr>) in [(''data'', f), (''d'', f)])"

definition address_flags :: "Input flag_set" where
  "address_flags = (let f = StringVar (\<lambda>v i. i\<lparr>in_Address := v\<rparr>) in [(''address'', f), (''a'', f)])"

definition height_flags :: "Input flag_set" where
  "height_flags = (let f = Uint64Var (\<lambda>v i. i\<lparr>in_Height := v\<rparr>) in [(''blockheight'', f), (''b'', f)])"

definition help_flags :: "Input flag_set" where
  "help_flags = (let f = BoolVar (\<lambda>v i. i\<lparr>in_Help := v\<rparr>) in [(''help'', f), (''h'', f)])"

definition root_flags :: "Input flag_set" where
  "root_flags = (let f = StringVar (\<lambda>v i. i\<lparr>in_RcDBRoot := v\<rparr>) in [(''dbroot'', f), (''d'', f)])"

definition type_flags :: "Input flag_set" where
  "type_flags = (let f = StringVar (\<lambda>v i. i\<lparr>in_AccountType := v\<rparr>) in [(''type'', f), (''t'', f)])"

definition output_flags :: "Input flag_set" where
  "output_flags = (let f = StringVar (\<lambda>v i. i\<lparr>in_Output := v\<rparr>) in [(''output'', f), (''o'', f)])"

definition InitManageInput :: "Input flag_set" where
  "InitManageInput = path_flags @ data_flags @ address_flags @ help_flags"

definition InitAccountInput :: "Input flag_set" where
  "InitAccountInput = path_flags @ address_flags @ root_flags @ type_flags @ help_flags"

definition InitClaimInput :: "Input flag_set" where
  "InitClaimInput = path_flags @ address_flags @ help_flags"

definition InitClaimBackupInput :: "Input flag_set" where
  "InitClaimBackupInput = path_flags @ height_flags @ help_flags"

definition InitCalcResultInput :: "Input flag_set" where
  "InitCalcResultInput = path_flags @ height_flags @ help_flags"

definition InitPreCommitInput :: "Input flag_set" where
  "InitPreCommitInput = path_flags @ address_flags @ height_flags @ help_flags"

definition InitIISS :: "Input flag_set" where
  "InitIISS = path_flags @ data_flags @ height_flags @ help_flags"

definition InitCalcDebugInput :: "Input flag_set" where
  "InitCalcDebugInput = path_flags @ address_flags @ height_flags @ help_flags"

definition InitIScoreInput :: "Input flag_set" where
  "InitIScoreInput = root_flags @ address_flags @ output_flags @ help_flags"

lemmas flag_defs = path_flags_def data_flags_def address_flags_def height_flags_def help_flags_def root_flags_def
  type_flags_def output_flags_def InitManageInput_def InitAccountInput_def InitClaimInput_def InitClaimBackupInput_def
  InitCalcResultInput_def InitPreCommitInput_def InitIISS_def InitCalcDebugInput_def InitIScoreInput_def

text \<open>No flag set names a flag twice, which the library refuses.\<close>

lemma flag_names_distinct:
  "\<forall>fs \<in> {InitManageInput, InitAccountInput, InitClaimInput, InitClaimBackupInput, InitCalcResultInput,
     InitPreCommitInput, InitIISS, InitCalcDebugInput, InitIScoreInput}. distinct (map fst fs)"
  by (simp add: flag_defs Let_def)

section \<open>Commands\<close>

record files =
  fl_db :: "string \<Rightarrow> obj kv"
  fl_debug :: "string \<Rightarrow> CalcDebugData kv"
  fl_root :: "string \<Rightarrow> obj disk"
  fl_claim :: "string \<Rightarrow> obj kv"

datatype tool_result =
    Exits nat
  | Prints "shown list" "error option"
  | PrintsDebug "error + CalcDebugResult list"
  | Writes string "error + (string \<times> int) list"

definition tool_prints :: "printed \<Rightarrow> tool_result option" where
  "tool_prints p = map_option (\<lambda>(xs, e). Prints xs e) p"

text \<open>The commands on one database refuse to run without its path.\<close>

definition with_path :: "Input \<Rightarrow> (string \<Rightarrow> printed) \<Rightarrow> tool_result option" where
  "with_path i f = tool_prints (if in_Path i = [] then fails ErrIllegalArgument else f (in_Path i))"

definition account_type_of :: "string \<Rightarrow> account_type" where
  "account_type_of s =
     (if s = ''calculate'' then CalculateAccount else if s = ''query'' then QueryAccount else AnyAccount)"

definition queryAccountDB :: "files \<Rightarrow> Input \<Rightarrow> printed" where
  "queryAccountDB F i =
     (if in_Path i \<noteq> [] then queryAccountDBWithPath (fl_db F (in_Path i)) (in_Address i)
      else if in_RcDBRoot i \<noteq> [] then
        queryAccountDBWithRCRoot (fl_root F (in_RcDBRoot i)) (in_Address i) (account_type_of (in_AccountType i))
      else fails ErrIllegalArgument)"

definition iscore_command :: "files \<Rightarrow> Input \<Rightarrow> tool_result option" where
  "iscore_command F i =
     (if in_RcDBRoot i = [] then tool_prints (fails ErrIllegalArgument)
      else map_option (Writes (if in_Output i = [] then ''iscore.json'' else in_Output i))
             (getIScore (fl_claim F (in_RcDBRoot i)) (fl_root F (in_RcDBRoot i))))"

definition calcDebug_command :: "files \<Rightarrow> Input \<Rightarrow> tool_result option" where
  "calcDebug_command F i =
     (if in_Path i = [] then tool_prints (fails ErrIllegalArgument)
      else map_option PrintsDebug (QueryCalcDebugDB (fl_debug F (in_Path i)) (in_Address i) (in_Height i)))"

text \<open>Parsing ends the process when it fails (status 2) and after printing the help that was asked for.\<close>

definition ValidateInput :: "Input flag_set \<Rightarrow> string list \<Rightarrow> (Input \<Rightarrow> tool_result option) \<Rightarrow> tool_result option" where
  "ValidateInput fs args f =
     (case FlagSet_Parse fs args zero_Input of
        None \<Rightarrow> Some (Exits 2)
      | Some i \<Rightarrow> if in_Help i then Some (Exits 0) else f i)"

text \<open>The answer to too few arguments, if there are too few.\<close>

definition validateArgs :: "string list \<Rightarrow> tool_result option" where
  "validateArgs args =
     (if length args = 1 then Some (Exits 0)
      else if length args = 2 \<and> (args ! 1 = ''-h'' \<or> args ! 1 = ''-help'') then Some (Exits 0)
      else if length args < 3 then Some (Prints [] (Some ErrIllegalArgument))
      else None)"

definition dbtool_command :: "files \<Rightarrow> string \<Rightarrow> string list \<Rightarrow> tool_result option" where
  "dbtool_command F name args =
     (if name = ''manage'' then
        ValidateInput InitManageInput args (\<lambda>i. with_path i (\<lambda>p. queryManagementDB (fl_db F p) (in_Data i) (in_Height i) (in_Address i)))
      else if name = ''account'' then ValidateInput InitAccountInput args (\<lambda>i. tool_prints (queryAccountDB F i))
      else if name = ''claim'' then
        ValidateInput InitClaimInput args (\<lambda>i. with_path i (\<lambda>p. queryClaimDB (fl_db F p) (in_Address i)))
      else if name = ''claimBackup'' then
        ValidateInput InitClaimBackupInput args (\<lambda>i. with_path i (\<lambda>p. queryClaimBackupDB (fl_db F p) (in_Height i)))
      else if name = ''preCommit'' then
        ValidateInput InitPreCommitInput args (\<lambda>i. with_path i (\<lambda>p. queryPreCommitDB (fl_db F p) (in_Address i) (in_Height i)))
      else if name = ''calcResult'' then
        ValidateInput InitCalcResultInput args (\<lambda>i. with_path i (\<lambda>p. queryCalcResultDB (fl_db F p) (in_Height i)))
      else if name = ''iiss'' then
        ValidateInput InitIISS args (\<lambda>i. with_path i (\<lambda>p. queryIISSDB (fl_db F p) (in_Data i) (in_Height i)))
      else if name = ''calcDebug'' then ValidateInput InitCalcDebugInput args (calcDebug_command F)
      else if name = ''iscore'' then ValidateInput InitIScoreInput args (iscore_command F)
      else Some (Prints [] (Some ErrIllegalArgument)))"

definition dbtool_Run :: "files \<Rightarrow> string list \<Rightarrow> tool_result option" where
  "dbtool_Run F args =
     (case validateArgs args of
        Some r \<Rightarrow> Some r
      | None \<Rightarrow> dbtool_command F (args ! 1) (drop 2 args))"

section \<open>Given options\<close>

text \<open>With the options in any form and order, a command gets what they say, the last of a variable.\<close>

lemma ValidateInput_given:
  assumes "list_all (form_fits fs) opts"
  shows "ValidateInput fs (concat (map flag_args opts)) f =
    (case set_flags fs opts zero_Input of None \<Rightarrow> Some (Exits 2) | Some i \<Rightarrow> if in_Help i then Some (Exits 0) else f i)"
  unfolding ValidateInput_def FlagSet_Parse_given [OF assms] ..

lemma ValidateInput_says:
  "list_all (form_fits fs) opts \<Longrightarrow> set_flags fs opts zero_Input = Some i \<Longrightarrow> \<not> in_Help i \<Longrightarrow>
     ValidateInput fs (concat (map flag_args opts)) f = f i"
  by (simp add: ValidateInput_given)

lemma flag_args_not_empty: "flag_args opt \<noteq> []"
  by (cases opt; cases "fst opt") auto

lemma dbtool_Run_given:
  assumes "opts \<noteq> []"
  shows "dbtool_Run F (prog # name # concat (map flag_args opts)) = dbtool_command F name (concat (map flag_args opts))"
proof -
  obtain a as where "concat (map flag_args opts) = a # as"
    using assms flag_args_not_empty by (cases opts; cases "concat (map flag_args opts)") auto
  then show ?thesis by (simp add: dbtool_Run_def validateArgs_def)
qed

end
