(* ===== verification/DbToolProps.thy ===== *)
theory DbToolProps
  imports DbToolMain ClaimMsgProps
begin

text \<open>
  \<^verbatim>\<open>cmd/dbtool\<close> against the service: its I-Score report is what QUERY answers, and a
  pre-commit is not found by its block height; both from the command line.
\<close>

section \<open>The report of I-Scores\<close>

lemma Address_String_inject: "address_ok a \<Longrightarrow> address_ok b \<Longrightarrow> Address_String a = Address_String b \<longleftrightarrow> a = b"
  using SetString_String [of a zero_address] SetString_String [of b zero_address] zero_address_length by (metis sum.inject(2))

lemma newIScoreAccount_Inr:
  assumes "newIScoreAccount k v = Some (Inr ia)" "address_ok k"
  shows "\<exists>x. NewIScoreAccountFromBytes v = Inr x \<and> ia = x\<lparr>ia_Address := k\<rparr>"
  using assms NewAddress_Bytes [of k]
  by (auto simp: newIScoreAccount_def with_address_def Address_Bytes_def split: sum.splits)

definition claim_amount_of :: "obj kv \<Rightarrow> address \<Rightarrow> int" where
  "claim_amount_of cDB a = (case claim_of cDB a of None \<Rightarrow> 0 | Some c \<Rightarrow> cd_IScore (cl_Data c))"

lemma getClaim_Inr:
  assumes "getClaim cDB a = Some (Inr c)" "address_ok a"
  shows "(case c of None \<Rightarrow> 0 | Some c \<Rightarrow> cd_IScore (cl_Data c)) = claim_amount_of cDB a"
  using assms NewAddress_Bytes [of a]
  by (auto simp: getClaim_def newClaim_def with_address_def claim_amount_of_def claim_of_def PrefixClaim_def
      PrefixIScore_def split: option.splits sum.splits)

lemma report_loop_value:
  assumes "report_loop cDB es r = Some (Inr r')" "\<forall>e \<in> set es. address_ok (fst e)" "distinct (map fst es)" "address_ok a"
  shows "case map_of es a of
      None \<Rightarrow> map_of r' (Address_String a) = map_of r (Address_String a)
    | Some v \<Rightarrow> \<exists>ia. NewIScoreAccountFromBytes v = Inr ia \<and>
        map_of r' (Address_String a) = Some (ia_IScore ia - claim_amount_of cDB a)"
  using assms
proof (induction cDB es r rule: report_loop.induct)
  case (2 cDB k v es r)
  from "2.prems"(1) obtain ia c where ia: "newIScoreAccount k v = Some (Inr ia)"
    and c: "getClaim cDB (ia_Address ia) = Some (Inr c)"
    and rest: "report_loop cDB es (AList.update (Address_String (ia_Address ia))
      (ia_IScore ia - (case c of None \<Rightarrow> 0 | Some c \<Rightarrow> cd_IScore (cl_Data c))) r) = Some (Inr r')"
    by (auto split: option.splits sum.splits)
  have k: "address_ok k" using "2.prems"(2) by simp
  from newIScoreAccount_Inr [OF ia k] obtain x where x: "NewIScoreAccountFromBytes v = Inr x" "ia = x\<lparr>ia_Address := k\<rparr>" by blast
  have amount: "(case c of None \<Rightarrow> 0 | Some c \<Rightarrow> cd_IScore (cl_Data c)) = claim_amount_of cDB k"
    using getClaim_Inr [OF _ k] c x(2) by simp
  have e: "ia_Address ia = k" "ia_IScore ia = ia_IScore x" using x(2) by simp_all
  have IH: "case map_of es a of
      None \<Rightarrow> map_of r' (Address_String a) =
        map_of (AList.update (Address_String k) (ia_IScore x - claim_amount_of cDB k) r) (Address_String a)
    | Some v \<Rightarrow> \<exists>ia. NewIScoreAccountFromBytes v = Inr ia \<and>
        map_of r' (Address_String a) = Some (ia_IScore ia - claim_amount_of cDB a)"
    using "2.IH" [OF ia HOL.refl c HOL.refl rest] "2.prems"(2-4) unfolding amount e by simp
  show ?case
  proof (cases "k = a")
    case True
    then have "map_of es a = None" using "2.prems"(3) by (simp add: map_of_eq_None_iff)
    then show ?thesis using IH True x(1) by (simp add: update_conv')
  next
    case False
    then have "Address_String k \<noteq> Address_String a" using k "2.prems"(4) by (simp add: Address_String_inject)
    then show ?thesis using IH False by (simp add: update_conv' split: option.splits)
  qed
qed simp

text \<open>The account databases of a directory hold readable accounts, each in one place.\<close>

definition shard_readable :: "obj disk \<Rightarrow> dirname \<Rightarrow> bool" where
  "shard_readable d p \<longleftrightarrow> distinct (map fst (disk_read d p)) \<and> (\<forall>e \<in> set (disk_read d p). address_ok (fst e))"

lemma report_dbs_value:
  assumes "report_dbs cDB d ps r = Some (Inr r')" "\<forall>p \<in> set ps. shard_readable d p" "address_ok a"
    and "\<forall>p \<in> set ps. p \<noteq> p0 \<longrightarrow> map_of (disk_read d p) a = None"
  shows "case (if p0 \<in> set ps then map_of (disk_read d p0) a else None) of
      None \<Rightarrow> map_of r' (Address_String a) = map_of r (Address_String a)
    | Some v \<Rightarrow> \<exists>ia. NewIScoreAccountFromBytes v = Inr ia \<and>
        map_of r' (Address_String a) = Some (ia_IScore ia - claim_amount_of cDB a)"
  using assms
proof (induction cDB d ps r rule: report_dbs.induct)
  case (2 cDB d p ps r)
  from "2.prems"(1) obtain r1 where r1: "report_loop cDB (disk_read d p) r = Some (Inr r1)" "report_dbs cDB d ps r1 = Some (Inr r')"
    by (auto simp: Iterator_prefix_eq PrefixIScore_def split: option.splits sum.splits)
  have "shard_readable d p" using "2.prems"(2) by simp
  then have one: "case map_of (disk_read d p) a of
      None \<Rightarrow> map_of r1 (Address_String a) = map_of r (Address_String a)
    | Some v \<Rightarrow> \<exists>ia. NewIScoreAccountFromBytes v = Inr ia \<and>
        map_of r1 (Address_String a) = Some (ia_IScore ia - claim_amount_of cDB a)"
    using report_loop_value [OF r1(1) _ _ "2.prems"(3)] by (simp add: shard_readable_def)
  have IH: "case (if p0 \<in> set ps then map_of (disk_read d p0) a else None) of
      None \<Rightarrow> map_of r' (Address_String a) = map_of r1 (Address_String a)
    | Some v \<Rightarrow> \<exists>ia. NewIScoreAccountFromBytes v = Inr ia \<and>
        map_of r' (Address_String a) = Some (ia_IScore ia - claim_amount_of cDB a)"
    using "2.IH" [OF _ HOL.refl r1(2)] r1(1) "2.prems"(2-4) by (simp add: Iterator_prefix_eq PrefixIScore_def)
  show ?case
    using one IH "2.prems"(4) by (cases "p = p0"; cases "p0 \<in> set ps"; cases "map_of (disk_read d p0) a") (auto split: option.splits)
qed simp

text \<open>What the service keeps: every account in the query database of its address, under readable keys.\<close>

definition query_shards_ok :: "IScoreDB \<Rightarrow> bool" where
  "query_shards_ok idb \<longleftrightarrow>
     (\<forall>i < nat (DBCount (info idb)).
        let p = CalcDir (int i + 1) (DBCount (info idb)) (query_postfix idb) in
        shard_readable (dirs idb) p \<and> (\<forall>e \<in> set (disk_read (dirs idb) p). getAccountDBIndex idb (fst e) = Some i))"

lemma query_shards_ok_code:
  "query_shards_ok idb \<longleftrightarrow>
     list_all (\<lambda>i. let p = CalcDir (int i + 1) (DBCount (info idb)) (query_postfix idb) in
        shard_readable (dirs idb) p \<and> (\<forall>e \<in> set (disk_read (dirs idb) p). getAccountDBIndex idb (fst e) = Some i))
       [0..<nat (DBCount (info idb))]"
  by (auto simp: query_shards_ok_def list_all_iff)

lemma tool_paths:
  assumes "0 < DBCount (info idb)"
  shows "map (\<lambda>i. getAccountDBPathWithIndex (Suc i) (nat (DBCount (info idb))) p) [0..<nat (DBCount (info idb))] =
    account_names idb p"
  using assms by (simp add: account_names_def getAccountDBPathWithIndex_def)

text \<open>
  What the tool goes by: the directory holds the two sets of databases and no third one, and
  where a query database has an account, so has the database calculated last, and the first
  account of the former is of an earlier calculation.
\<close>

definition earlier :: "bytes \<times> obj \<Rightarrow> bytes \<times> obj \<Rightarrow> bool" where
  "earlier e e' \<longleftrightarrow>
     address_ok (fst e) \<and> address_ok (fst e') \<and>
     (case (NewIScoreAccountFromBytes (snd e), NewIScoreAccountFromBytes (snd e')) of
        (Inr x, Inr y) \<Rightarrow> ia_BlockHeight x < ia_BlockHeight y
      | _ \<Rightarrow> False)"

fun dated :: "obj kv \<Rightarrow> obj kv \<Rightarrow> bool" where
  "dated [] [] = True"
| "dated (e # q) (e' # c) = earlier e e'"
| "dated _ _ = False"

definition shards_dated :: "IScoreDB \<Rightarrow> bool" where
  "shards_dated idb \<longleftrightarrow>
     list_all (\<lambda>p. is_calculate p \<longrightarrow> p \<in> set (account_names idb 0) \<union> set (account_names idb 1)) (map fst (dirs idb)) \<and>
     list_all (\<lambda>i. dated
        (disk_read (dirs idb) (CalcDir (int i + 1) (DBCount (info idb)) (query_postfix idb)))
        (disk_read (dirs idb) (CalcDir (int i + 1) (DBCount (info idb)) (calc_postfix idb)))) [0..<nat (DBCount (info idb))]"

lemma getFirstAccount_Cons:
  assumes "address_ok (fst e)" "NewIScoreAccountFromBytes (snd e) = Inr x"
  shows "getFirstAccount (e # es) = Some (Some (x\<lparr>ia_Address := fst e\<rparr>))"
  using assms NewAddress_Bytes [of "fst e"]
  by (cases e) (simp add: getFirstAccount_def newIScoreAccount_def with_address_def Iterator_prefix_eq PrefixIScore_def Address_Bytes_def)

lemma getFirstAccount_Nil: "getFirstAccount [] = Some None"
  by (simp add: getFirstAccount_def Iterator_prefix_eq)

lemma dated_first:
  assumes "dated q c"
  shows "(q = [] \<and> c = []) \<or>
    (\<exists>x y. getFirstAccount q = Some (Some x) \<and> getFirstAccount c = Some (Some y) \<and> ia_BlockHeight x < ia_BlockHeight y)"
proof (cases q)
  case Nil
  then show ?thesis using assms by (cases c) simp_all
next
  case (Cons e q')
  then obtain e' c' where c: "c = e' # c'" "earlier e e'" using assms by (cases c) auto
  then obtain x y where "NewIScoreAccountFromBytes (snd e) = Inr x" "NewIScoreAccountFromBytes (snd e') = Inr y"
    "ia_BlockHeight x < ia_BlockHeight y" "address_ok (fst e)" "address_ok (fst e')"
    by (auto simp: earlier_def split: sum.splits)
  then show ?thesis unfolding Cons c(1) by (simp add: getFirstAccount_Cons)
qed

lemma first_accounts_dated:
  assumes "\<forall>i \<in> set is. (db0 i = [] \<and> db1 i = []) \<or>
      (\<exists>x y. getFirstAccount (db0 i) = Some (Some x) \<and> getFirstAccount (db1 i) = Some (Some y) \<and> P x y)"
    and dbs: "\<And>i. disk_read d (getAccountDBPathWithIndex i n 0) = db0 i" "\<And>i. disk_read d (getAccountDBPathWithIndex i n 1) = db1 i"
  shows "(first_accounts d n is (None, None) = Some (None, None) \<and> (\<forall>i \<in> set is. db0 i = [] \<and> db1 i = [])) \<or>
     (\<exists>x y. first_accounts d n is (None, None) = Some (Some x, Some y) \<and> P x y)"
  using assms(1)
proof (induction "is")
  case (Cons i "is")
  show ?case
  proof (cases "db0 i = [] \<and> db1 i = []")
    case True
    then have "first_accounts d n (i # is) (None, None) = first_accounts d n is (None, None)"
      by (simp add: dbs [unfolded One_nat_def] getFirstAccount_Nil)
    then show ?thesis using Cons True by auto
  next
    case False
    then obtain x y where "getFirstAccount (db0 i) = Some (Some x)" "getFirstAccount (db1 i) = Some (Some y)" "P x y"
      using Cons.prems by auto
    then show ?thesis by (simp add: dbs [unfolded One_nat_def])
  qed
qed simp

lemma distinct_account_names: "distinct (account_names idb p)"
  by (simp add: account_names_def distinct_map inj_on_def)

lemma account_count:
  assumes "idb_ok idb" "shards_dated idb"
  shows "getAccountDBCount (dirs idb) = nat (DBCount (info idb))"
proof -
  have "set (filter is_calculate (map fst (dirs idb))) = set (account_names idb 0) \<union> set (account_names idb 1)" (is "_ = ?u")
  proof
    show "set (filter is_calculate (map fst (dirs idb))) \<subseteq> ?u" using assms(2) by (auto simp: shards_dated_def list_all_iff)
    have "\<forall>p \<in> ?u. is_calculate p" by (auto simp: account_names_def)
    moreover have "\<forall>p \<in> ?u. p \<in> set (map fst (dirs idb))" using assms(1) by (auto simp: idb_ok_def map_of_eq_None_iff)
    ultimately show "?u \<subseteq> set (filter is_calculate (map fst (dirs idb)))" by auto
  qed
  moreover have "distinct (filter is_calculate (map fst (dirs idb)))" using assms(1) by (simp add: idb_ok_def)
  moreover have "card ?u = 2 * nat (DBCount (info idb))"
    using account_names_disjoint [of 0 1 idb idb] distinct_card [OF distinct_account_names]
    by (simp add: card_Un_disjoint)
  ultimately have "length (filter is_calculate (map fst (dirs idb))) = 2 * nat (DBCount (info idb))"
    by (metis distinct_card)
  then show ?thesis by (simp add: getAccountDBCount_def)
qed

text \<open>So the tool finds the number of databases and the queried set, unless no database has an account.\<close>

lemma tool_finds_set:
  assumes "idb_ok idb" "shards_dated idb"
  shows "\<exists>s. getAccountDBInfo (dirs idb) = Some (nat (DBCount (info idb)), s) \<and>
    (s = query_postfix idb \<or>
      (\<forall>p \<in> set (account_names idb 0) \<union> set (account_names idb 1). disk_read (dirs idb) p = []))"
proof -
  let ?n = "nat (DBCount (info idb))" and ?d = "dirs idb"
  let ?P = "\<lambda>x y. if QueryDBIsZero (info idb) then ia_BlockHeight x < ia_BlockHeight y else ia_BlockHeight y < ia_BlockHeight x"
  have n: "0 < DBCount (info idb)" using assms(1) by (simp add: idb_ok_def)
  have path: "getAccountDBPathWithIndex (Suc i) ?n s = CalcDir (int i + 1) (DBCount (info idb)) s" for i s
    using n by (simp add: getAccountDBPathWithIndex_def)
  let ?db = "\<lambda>s i. disk_read ?d (getAccountDBPathWithIndex i ?n s)"
  have both: "(?db 0 i = [] \<and> ?db 1 i = []) \<or>
      (\<exists>x y. getFirstAccount (?db 0 i) = Some (Some x) \<and> getFirstAccount (?db 1 i) = Some (Some y) \<and> ?P x y)"
    if "i \<in> set (map Suc [0..<?n])" for i
  proof -
    from that obtain j where j: "i = Suc j" "j < ?n" unfolding set_map set_upt by (elim imageE) simp
    have "dated (?db (query_postfix idb) i) (?db (calc_postfix idb) i)"
      using assms(2) j(2) by (simp add: shards_dated_def list_all_iff path j(1))
    from dated_first [OF this] show ?thesis
      by (cases "QueryDBIsZero (info idb)") (auto simp: query_postfix_def calc_postfix_def)
  qed
  from first_accounts_dated [of "map Suc [0..<?n]" "?db 0" "?db 1" ?P ?d ?n] both consider
    (none) "first_accounts ?d ?n (map Suc [0..<?n]) (None, None) = Some (None, None)"
      "\<forall>i \<in> set (map Suc [0..<?n]). ?db 0 i = [] \<and> ?db 1 i = []"
  | (some) x y where "first_accounts ?d ?n (map Suc [0..<?n]) (None, None) = Some (Some x, Some y)" "?P x y"
    by blast
  then show ?thesis
  proof cases
    case none
    have "?db 0 (Suc j) = [] \<and> ?db 1 (Suc j) = []" if "j < ?n" for j using bspec [OF none(2), of "Suc j"] that by simp
    then have "\<forall>p \<in> set (account_names idb 0) \<union> set (account_names idb 1). disk_read ?d p = []"
      by (auto simp: account_names_def path)
    then show ?thesis using none(1) by (simp add: getAccountDBInfo_def account_count [OF assms])
  next
    case some
    then show ?thesis
      by (auto simp: getAccountDBInfo_def account_count [OF assms] query_postfix_def split: if_splits)
  qed
qed

lemma report_dbs_empty: "\<forall>p \<in> set ps. disk_read d p = [] \<Longrightarrow> report_dbs cDB d ps r = Some (Inr r)"
  by (induction ps) (simp_all add: Iterator_prefix_eq)

lemma report_of_query_dbs:
  assumes "idb_ok idb" "shards_dated idb"
  shows "getIScore cDB (dirs idb) = report_dbs cDB (dirs idb) (account_names idb (query_postfix idb)) []"
proof -
  let ?n = "nat (DBCount (info idb))"
  from tool_finds_set [OF assms] obtain s where s: "getAccountDBInfo (dirs idb) = Some (?n, s)"
    "s = query_postfix idb \<or> (\<forall>p \<in> set (account_names idb 0) \<union> set (account_names idb 1). disk_read (dirs idb) p = [])"
    by blast
  have n: "0 < DBCount (info idb)" using assms(1) by (simp add: idb_ok_def)
  have "getIScore cDB (dirs idb) = report_dbs cDB (dirs idb) (account_names idb s) []"
    by (simp add: getIScore_def s(1) tool_paths [OF n])
  moreover have "s = 0 \<or> s = 1"
    using s(1) by (auto simp: getAccountDBInfo_def Let_def split: option.splits prod.splits if_splits)
  moreover have "query_postfix idb = 0 \<or> query_postfix idb = 1" by (simp add: query_postfix_def)
  ultimately show ?thesis using s(2) report_dbs_empty [of "account_names idb _" "dirs idb" cDB "[]"] by (metis UnCI)
qed

text \<open>
  C40: When the directory holds the two sets of databases alone, readable, and the first
  account of every query database is of an earlier calculation than the first one of the
  database calculated last, the report of \<^verbatim>\<open>dbtool iscore\<close>, with its options in any form and
  order, lists exactly the accounts the service has in its query databases, each with the
  I-Score QUERY answers. The tool works from the files alone: it counts the databases, finds
  the queried set by the block heights of the first accounts, and adds up shards and claims by
  itself.
\<close>

theorem iscore_report_is_query:
  assumes "idb_ok (DB ctx)" "query_shards_ok (DB ctx)" "shards_dated (DB ctx)" "address_ok a"
    and opts: "opts \<noteq> []" "list_all (form_fits InitIScoreInput) opts" "set_flags InitIScoreInput opts zero_Input = Some i" "\<not> in_Help i"
    and files: "fl_root F (in_RcDBRoot i) = dirs (DB ctx)" "fl_claim F (in_RcDBRoot i) = claim_db (claims (DB ctx))"
    and run: "dbtool_Run F (prog # ''iscore'' # concat (map flag_args opts)) = Some (Writes file (Inr report))"
  shows "\<exists>r. DoQuery ctx (plain_query a) = Some r \<and>
    rq_IScore r = (case map_of report (Address_String a) of None \<Rightarrow> 0 | Some x \<Rightarrow> x) \<and>
    (map_of report (Address_String a) = None \<longleftrightarrow> account_of ctx a = Some None)"
proof -
  have report: "getIScore (claim_db (claims (DB ctx))) (dirs (DB ctx)) = Some (Inr report)"
    using run unfolding dbtool_Run_given [OF opts(1)]
    by (simp add: dbtool_command_def ValidateInput_says [OF opts(2-4)] iscore_command_def tool_prints_def fails_def files
        split: if_splits)
  let ?idb = "DB ctx"
  let ?p = "\<lambda>i. CalcDir (int i + 1) (DBCount (info ?idb)) (query_postfix ?idb)" and ?d = "dirs ?idb"
  obtain i where i: "getAccountDBIndex ?idb a = Some i" "i < nat (DBCount (info ?idb))" "getQueryDB ?idb a = Some (?p i)"
    using idb_ok_getDB [OF assms(1,4)] by blast
  have dbs: "report_dbs (claim_db (claims ?idb)) ?d (account_names ?idb (query_postfix ?idb)) [] = Some (Inr report)"
    using report unfolding report_of_query_dbs [OF assms(1,3)] .
  have names: "p \<in> set (account_names ?idb (query_postfix ?idb)) \<longleftrightarrow> (\<exists>j < nat (DBCount (info ?idb)). p = ?p j)" for p
    by (auto simp: account_names_def)
  have own: "?p i \<in> set (account_names ?idb (query_postfix ?idb))" using names i(2) by blast
  have readable: "\<forall>p \<in> set (account_names ?idb (query_postfix ?idb)). shard_readable ?d p"
    using names assms(2) by (auto simp: query_shards_ok_def Let_def)
  have others: "\<forall>p \<in> set (account_names ?idb (query_postfix ?idb)). p \<noteq> ?p i \<longrightarrow> map_of (disk_read ?d p) a = None"
    using names assms(2) i(1) by (fastforce simp: query_shards_ok_def Let_def map_of_eq_None_iff)
  have v: "case map_of (disk_read ?d (?p i)) a of
      None \<Rightarrow> map_of report (Address_String a) = None
    | Some v \<Rightarrow> \<exists>ia. NewIScoreAccountFromBytes v = Inr ia \<and>
        map_of report (Address_String a) = Some (ia_IScore ia - claim_amount_of (claim_db (claims ?idb)) a)"
    using report_dbs_value [OF dbs readable assms(4) others] unfolding if_P [OF own] by (simp split: option.splits)
  show ?thesis
    using v i(3) by (auto simp: DoQuery_plain account_of_def Bucket_Get_def PrefixIScore_def Address_Bytes_def kv_get_def
        claimed_def claim_amount_of_def split: option.splits)
qed

definition ex_held :: "int \<Rightarrow> u64 \<Rightarrow> bytes \<times> obj" where
  "ex_held x h = (ex_addr, IScoreAccount_Bytes \<lparr>ia_Address = zero_address, ia_IScore = x, ia_BlockHeight = h, ia_Delegations = []\<rparr>)"

definition ex_reported :: Context where
  "ex_reported = ex_ctx\<lparr>DB := (DB ex_ctx)\<lparr>dirs :=
     [(CalcDir 1 2 0, [ex_held 3500 10]), (CalcDir 2 2 0, []), (CalcDir 1 2 1, [ex_held 7000 20]), (CalcDir 2 2 1, [])]\<rparr>\<rparr>"

lemma ex_reported_files:
  "DBCount (info (DB ex_reported)) = 2" "query_postfix (DB ex_reported) = 0" "calc_postfix (DB ex_reported) = Suc 0"
  "claim_db (claims (DB ex_reported)) = []" "getAccountDBIndex (DB ex_reported) ex_addr = Some 0"
  "disk_read (dirs (DB ex_reported)) (CalcDir 1 2 0) = [ex_held 3500 10]" "disk_read (dirs (DB ex_reported)) (CalcDir 2 2 0) = []"
  "disk_read (dirs (DB ex_reported)) (CalcDir 1 2 (Suc 0)) = [ex_held 7000 20]"
  "disk_read (dirs (DB ex_reported)) (CalcDir 2 2 (Suc 0)) = []"
  by (simp_all add: ex_reported_def ex_ctx_def ex_idb_def ex_info_def ex_base_def zero_DBInfo_def query_postfix_def
      calc_postfix_def disk_read_def getAccountDBIndex_def Address_ID_def ex_addr_def numeral_eq_Suc)

lemma ex_held_read:
  "NewIScoreAccountFromBytes (snd (ex_held x h)) = Inr \<lparr>ia_Address = zero_address, ia_IScore = x, ia_BlockHeight = h, ia_Delegations = []\<rparr>"
  "fst (ex_held x h) = ex_addr"
  by (simp_all add: ex_held_def NewIScoreAccountFromBytes_Bytes delegations_ok_def)

lemma ex_newIScoreAccount:
  "ex_held x h = (k, v) \<Longrightarrow>
     newIScoreAccount k v = Some (Inr \<lparr>ia_Address = ex_addr, ia_IScore = x, ia_BlockHeight = h, ia_Delegations = []\<rparr>)"
  using ex_held_read [of x h] NewAddress_Bytes [OF ex_addr_ok]
  by (auto simp: newIScoreAccount_def with_address_def Address_Bytes_def)

lemma ex_reported_ok: "idb_ok (DB ex_reported)" "query_shards_ok (DB ex_reported)" "shards_dated (DB ex_reported)"
proof -
  show "idb_ok (DB ex_reported)"
    by (simp add: idb_ok_def ex_reported_def ex_ctx_def ex_idb_def ex_info_def zero_DBInfo_def account_names_def upt_conv_Cons)
  show "query_shards_ok (DB ex_reported)"
    by (auto simp: query_shards_ok_def ex_reported_files Let_def shard_readable_def ex_held_read ex_addr_ok less_Suc_eq numeral_2_eq_2)
  show "shards_dated (DB ex_reported)"
    by (simp add: shards_dated_def ex_reported_files earlier_def ex_held_read ex_addr_ok account_names_def upt_conv_Cons)
      (simp add: ex_reported_def)
qed

lemma ex_report: "getIScore [] (dirs (DB ex_reported)) = Some (Inr [(Address_String ex_addr, 3500)])"
proof -
  obtain k v where e: "ex_held 3500 10 = (k, v)" by (cases "ex_held 3500 10")
  show ?thesis
    by (simp add: report_of_query_dbs [OF ex_reported_ok(1,3)] account_names_def ex_reported_files upt_conv_Cons Iterator_prefix_eq
        PrefixIScore_def e ex_newIScoreAccount [OF e] getClaim_def Bucket_Get_def kv_get_def)
qed

definition ex_report_opts :: "(form \<times> string \<times> string) list" where
  "ex_report_opts = [(TwoMinus, ''dbroot'', ''rc'')]"

definition ex_files :: "Context \<Rightarrow> files" where
  "ex_files ctx = \<lparr>fl_db = (\<lambda>_. []), fl_debug = (\<lambda>_. []), fl_root = (\<lambda>_. dirs (DB ctx)), fl_claim = (\<lambda>_. claim_db (claims (DB ctx)))\<rparr>"

theorem iscore_report_is_query_witness:
  "\<exists>r. DoQuery ex_reported (plain_query ex_addr) = Some r \<and> rq_IScore r = 3500 \<and> account_of ex_reported ex_addr \<noteq> Some None"
proof -
  have "set_flags InitIScoreInput ex_report_opts zero_Input = Some (zero_Input\<lparr>in_RcDBRoot := ''rc''\<rparr>)"
    "list_all (form_fits InitIScoreInput) ex_report_opts" "ex_report_opts \<noteq> []"
    by (simp_all add: ex_report_opts_def flag_defs Let_def flag_name_ok_def)
  then show ?thesis
    using iscore_report_is_query [OF ex_reported_ok ex_addr_ok, of ex_report_opts "zero_Input\<lparr>in_RcDBRoot := ''rc''\<rparr>"
        "ex_files ex_reported" "''dbtool''" "''iscore.json''" "[(Address_String ex_addr, 3500)]"] ex_report
    by (simp add: ex_reported_files dbtool_Run_given dbtool_command_def ValidateInput_says iscore_command_def ex_files_def zero_Input_def)
qed

text \<open>
  Not so after the first calculation: the queried databases are still empty, and the tool
  reports the databases just calculated, whose I-Score nobody can claim yet.
\<close>

lemma first_accounts_missing:
  assumes "is \<noteq> []" "\<forall>i \<in> set is. disk_read d (getAccountDBPathWithIndex i n 0) = []"
    "\<forall>i \<in> set is. getFirstAccount (disk_read d (getAccountDBPathWithIndex i n 1)) = Some (Some (f i))"
  shows "first_accounts d n is r = Some (None, Some (f (last is)))"
  using assms by (induction "is" arbitrary: r) (auto simp: getFirstAccount_Nil)

lemma first_calculation_misreported:
  assumes "getAccountDBCount (dirs idb) = Suc m" "QueryDBIsZero (info idb)"
    "\<forall>i \<in> set (map Suc [0..<Suc m]). disk_read (dirs idb) (getAccountDBPathWithIndex i (Suc m) 0) = []"
    "\<forall>i \<in> set (map Suc [0..<Suc m]).
       getFirstAccount (disk_read (dirs idb) (getAccountDBPathWithIndex i (Suc m) 1)) = Some (Some (f i))"
  shows "getAccountDBInfo (dirs idb) = Some (Suc m, calc_postfix idb)"
  using first_accounts_missing [OF _ assms(3,4), of "(None, None)"] assms(1,2)
  by (simp add: getAccountDBInfo_def calc_postfix_def Let_def del: upt_Suc first_accounts.simps)

section \<open>Pre-commits by height\<close>

lemma length_Uint64ToBytes_less:
  "0 < m \<Longrightarrow> unat v < 256 ^ m \<Longrightarrow> length (Uint64ToBytes_loop n v bs) \<le> m + length bs"
proof (induction n v bs arbitrary: m rule: Uint64ToBytes_loop.induct)
  case (2 idx v bs)
  let ?v = "drop_bit 8 v"
  show ?case
  proof (cases "?v = 0")
    case False
    then have "0 < unat ?v" by (simp add: unat_gt_0)
    then have "256 \<le> unat v" by (simp add: unat_shift_byte div_greater_zero_iff)
    then obtain k where m: "m = Suc k" "0 < k" using "2.prems" by (cases m; cases "m - 1") auto
    then have "unat ?v < 256 ^ k" using "2.prems"(2) by (simp add: unat_shift_byte less_mult_imp_div_less mult.commute)
    then show ?thesis using "2.IH" [OF HOL.refl HOL.refl _ m(2)] False m by (simp add: Let_def)
  qed (use "2.prems" in \<open>simp add: Let_def\<close>)
qed simp

lemma getKeys_height_none:
  assumes "h \<noteq> 0" "unat h < 256 ^ 7" "\<forall>k \<in> set ks. BlockHeightSize \<le> length k"
  shows "getKeys_loop zero_address h ks = Some []"
proof -
  have "length (Uint64ToBytes h) \<le> 7" using length_Uint64ToBytes_less [of 7 h 8 "[]"] assms(2) by (simp add: Uint64ToBytes_def)
  then have "take BlockHeightSize k \<noteq> Uint64ToBytes h" if "BlockHeightSize \<le> length k" for k
    using that by (auto simp: BlockHeightSize_def dest: arg_cong [where f = length])
  then show ?thesis using assms(3) by (induction ks) (simp_all add: assms(1) key_height_is_def)
qed

text \<open>
  Asked for the pre-commits of a block height without an address, with the options in any
  form and order, \<^verbatim>\<open>dbtool preCommit\<close> reports that there are none, whatever the database
  holds: it compares the eight bytes of the height in the key with the shortest bytes of the
  number.
\<close>

theorem precommits_by_height_not_found:
  assumes "opts \<noteq> []" "list_all (form_fits InitPreCommitInput) opts" "set_flags InitPreCommitInput opts zero_Input = Some i"
    and "\<not> in_Help i" "in_Path i \<noteq> []" "in_Address i = []" "in_Height i \<noteq> 0" "unat (in_Height i) < 2 ^ 56"
    and "\<forall>e \<in> set (fl_db F (in_Path i)). BlockHeightSize \<le> length (fst e)"
  shows "dbtool_Run F (prog # ''preCommit'' # concat (map flag_args opts)) = Some (Prints [] (Some ErrNoData))"
proof -
  have "NewAddressFromString [] = Some zero_address" by code_simp
  moreover have "getKeys (fl_db F (in_Path i)) zero_address (in_Height i) = Some (Inl ErrNoData)"
    using getKeys_height_none [of "in_Height i" "map fst (fl_db F (in_Path i))"] assms(7-9) by (simp add: getKeys_def Iterator_New_def)
  ultimately show ?thesis
    using assms(5-7) unfolding dbtool_Run_given [OF assms(1)]
    by (simp add: dbtool_command_def ValidateInput_says [OF assms(2-4)] with_path_def queryPreCommitDB_def queryPreCommits_def
        fails_def tool_prints_def)
qed

definition ex_height_opts :: "(form \<times> string \<times> string) list" where
  "ex_height_opts = [(Separate, ''p'', ''preCommit''), (OneMinus, ''blockheight'', ''5'')]"

definition ex_precommit_files :: files where
  "ex_precommit_files = (ex_files ex_reported)\<lparr>fl_db := (\<lambda>_. [(GenPreCommitKey zero_address 5 (replicate 32 1), PreCommit_Bytes zero_PreCommit)])\<rparr>"

theorem precommits_by_height_not_found_witness:
  "dbtool_Run ex_precommit_files (''dbtool'' # ''preCommit'' # concat (map flag_args ex_height_opts)) = Some (Prints [] (Some ErrNoData))"
proof (rule precommits_by_height_not_found [where i = "zero_Input\<lparr>in_Path := ''preCommit'', in_Height := 5\<rparr>"])
  have "\<forall>e \<in> set [(GenPreCommitKey zero_address 5 (replicate 32 1), PreCommit_Bytes zero_PreCommit)]. BlockHeightSize \<le> length (fst e)"
    by code_simp
  then show "\<forall>e \<in> set (fl_db ex_precommit_files (in_Path (zero_Input\<lparr>in_Path := ''preCommit'', in_Height := 5\<rparr>))).
      BlockHeightSize \<le> length (fst e)"
    by (simp add: ex_precommit_files_def)
  have "strconv_nat ''5'' = Some 5" by code_simp
  then have "strconv_ParseUint ''5'' 64 = Some 5" by (simp add: strconv_ParseUint_def)
  then show "set_flags InitPreCommitInput ex_height_opts zero_Input = Some (zero_Input\<lparr>in_Path := ''preCommit'', in_Height := 5\<rparr>)"
    by (simp add: ex_height_opts_def flag_defs Let_def)
  show "list_all (form_fits InitPreCommitInput) ex_height_opts" by (simp add: ex_height_opts_def flag_defs Let_def flag_name_ok_def)
qed (simp_all add: ex_height_opts_def zero_Input_def)

end
