(* ===== verification/IissTool.thy ===== *)
theory IissTool
  imports DoCalc "HOL-Library.While_Combinator"
begin

text \<open>
  The editor of IISS data, \<^verbatim>\<open>cmd/iissdata\<close>: the commands that write records and the ones that
  check a database, without the text they print. \<open>None\<close> is a panic: an address that does not
  parse. What it writes is what the functions of \<^verbatim>\<open>core/db_iissdata.go\<close> write.
\<close>

section \<open>Writing\<close>

definition cli_header :: "u64 \<Rightarrow> u64 \<Rightarrow> u64 \<Rightarrow> obj kv \<Rightarrow> obj kv" where
  "cli_header version blockHeight revision db =
     (let header = zero_IISSHeader\<lparr>ih_Version := version, ih_BlockHeight := blockHeight, ih_Revision := revision\<rparr>
      in Bucket_Set db PrefixIISSHeader [] (IISSHeader_Bytes header))"

definition cli_governanceVariable :: "u64 \<Rightarrow> u64 \<Rightarrow> u64 \<Rightarrow> u64 \<Rightarrow> u64 \<Rightarrow> obj kv \<Rightarrow> obj kv" where
  "cli_governanceVariable blockHeight incentive reward mainPRepCount subPRepCount db =
     (let gv = zero_IISSGV\<lparr>igv_BlockHeight := blockHeight, igv_IncentiveRep := incentive, igv_RewardRep := reward,
                 igv_MainPRepCount := mainPRepCount, igv_SubPRepCount := subPRepCount\<rparr>
      in Bucket_Set db PrefixIISSGV (IISSGV_ID gv) (IISSGV_Bytes gv))"

text \<open>\<^verbatim>\<open>strings.Split\<close> by a character: the empty string has one empty part.\<close>

fun split_at :: "char \<Rightarrow> string \<Rightarrow> string list" where
  "split_at c [] = [[]]"
| "split_at c (x # xs) =
     (if x = c then [] # split_at c xs
      else (case split_at c xs of [] \<Rightarrow> [[x]] | w # ws \<Rightarrow> (x # w) # ws))"

definition cli_bp :: "u64 \<Rightarrow> string \<Rightarrow> string \<Rightarrow> bool \<Rightarrow> obj kv \<Rightarrow> obj kv option" where
  "cli_bp blockHeight generator validator del db =
     (let bp = zero_BP\<lparr>bp_BlockHeight := blockHeight\<rparr> in
      if del then Some (Bucket_Delete db PrefixIISSBPInfo (BP_ID bp))
      else if generator = [] \<or> validator = [] then Some db
      else case (NewAddressFromString generator, those (map NewAddressFromString (split_at CHR '','' validator))) of
             (Some g, Some vs) \<Rightarrow>
               Some (Bucket_Set db PrefixIISSBPInfo (BP_ID bp) (BP_Bytes (bp\<lparr>bp_Generator := g, bp_Validator := vs\<rparr>)))
           | _ \<Rightarrow> None)"

text \<open>
  \<^verbatim>\<open>strconv.ParseUint(s, 10, 0)\<close> with its error dropped: zero for a string that is no number,
  the greatest number when the digits read so far are out of range.
\<close>

fun parse_digits :: "nat \<Rightarrow> string \<Rightarrow> u64" where
  "parse_digits n [] = of_nat n"
| "parse_digits n (c # cs) =
     (if 48 \<le> (of_char c :: nat) \<and> (of_char c :: nat) \<le> 57 then
        (let n' = n * 10 + (of_char c - 48) in if 2 ^ 64 \<le> n' then - 1 else parse_digits n' cs)
      else 0)"

definition ParseUint_dropped :: "string \<Rightarrow> u64" where
  "ParseUint_dropped s = (if s = [] then 0 else parse_digits 0 s)"

definition cli_prep :: "u64 \<Rightarrow> string \<Rightarrow> string \<Rightarrow> bool \<Rightarrow> obj kv \<Rightarrow> obj kv option" where
  "cli_prep blockHeight preps delegations del db =
     (let prep = zero_PRep\<lparr>pr_BlockHeight := blockHeight\<rparr> in
      if del then Some (Bucket_Delete db PrefixIISSPRep (PRep_ID prep))
      else if preps = [] \<or> delegations = [] then Some db
      else
        (let prepList = split_at CHR '','' preps;
             amounts = map ParseUint_dropped (split_at CHR '','' delegations)
         in if length prepList \<noteq> length amounts then Some db
            else case those (map NewAddressFromString prepList) of
                   None \<Rightarrow> None
                 | Some addrs \<Rightarrow>
                     (let full = prep\<lparr>pr_TotalDelegation := uint (sum_list amounts),
                                   pr_List := map2 (\<lambda>a v. \<lparr>di_Address = a, di_DelegatedAmount = uint v\<rparr>) addrs amounts\<rparr>
                      in Some (Bucket_Set db PrefixIISSPRep (PRep_ID prep) (PRep_Bytes full)))))"

text \<open>
  The data of a registration is a nil object that holds an empty byte string, the one of an
  unknown type a nil object that holds nothing.
\<close>

definition cli_transaction :: "u64 \<Rightarrow> string \<Rightarrow> u64 \<Rightarrow> u64 \<Rightarrow> string \<Rightarrow> u64 \<Rightarrow> obj kv \<Rightarrow> obj kv option" where
  "cli_transaction index addr blockHeight dataType dgAddress dgAmount db =
     (case NewAddressFromString addr of
        None \<Rightarrow> None
      | Some a \<Rightarrow>
          (case (if dataType = TXDataTypeDelegate then
                   map_option (\<lambda>dg. case EncodeAny (GList [GList [GAddress dg, GUint64 dgAmount]]) of
                                      Inl _ \<Rightarrow> ONil | Inr t \<Rightarrow> enc_typed t)
                     (NewAddressFromString dgAddress)
                 else if dataType = TXDataTypePrepReg \<or> dataType = TXDataTypePrepUnReg then Some (OArr [OInt 0, OBytes []])
                 else Some (OArr [OInt 0, ONil])) of
             None \<Rightarrow> None
           | Some data \<Rightarrow>
               Some (Bucket_Set db PrefixIISSTX (IISSTX_ID (zero_IISSTX\<lparr>tx_Index := index\<rparr>))
                 (OArr [enc_Address a, enc_u64 blockHeight, enc_u64 dataType, data]))))"

section \<open>Checking\<close>

text \<open>
  The block producers of consecutive heights: the entries, the first height and the heights
  that are missing, counted one by one.
\<close>

record bp_count =
  bc_entries :: u64
  bc_start :: u64
  bc_miss :: u64

definition count_missing :: "u64 \<Rightarrow> u64 \<Rightarrow> u64 \<Rightarrow> u64" where
  "count_missing expected bh miss = while (\<lambda>m. expected + m \<noteq> bh) (\<lambda>m. m + 1) (miss + 1)"

definition bp_step :: "bytes \<times> obj \<Rightarrow> bp_count \<Rightarrow> bp_count" where
  "bp_step e c =
     (case BP_SetBytes zero_BP (snd e) of
        Inl _ \<Rightarrow> c\<lparr>bc_entries := bc_entries c + 1\<rparr>
      | Inr _ \<Rightarrow>
          (let bh = BytesToUint64 (drop (length PrefixIISSBPInfo) (fst e));
               start = (if bc_entries c = 0 then bh else bc_start c);
               miss = (if start + bc_entries c + bc_miss c \<noteq> bh
                       then count_missing (start + bc_entries c) bh (bc_miss c) else bc_miss c)
           in \<lparr>bc_entries = bc_entries c + 1, bc_start = start, bc_miss = miss\<rparr>))"

definition ReadIISSBP :: "obj kv \<Rightarrow> u64 \<times> u64" where
  "ReadIISSBP iissDB =
     (let c = fold bp_step (Iterator_prefix iissDB PrefixIISSBPInfo) \<lparr>bc_entries = 0, bc_start = 0, bc_miss = 0\<rparr>
      in (bc_entries c, bc_miss c))"

definition ReadIISSTX :: "obj kv \<Rightarrow> nat" where
  "ReadIISSTX iissDB = length (Iterator_prefix iissDB PrefixIISSTX)"

text \<open>The transactions of one database that are missing in another.\<close>

definition checkIISSTX :: "obj kv \<Rightarrow> obj kv \<Rightarrow> nat \<times> IISSTX list" where
  "checkIISSTX iissDB result =
     (let es = Iterator_prefix iissDB PrefixIISSTX
      in (length es,
          concat (map (\<lambda>(k, v). case IISSTX_SetBytes zero_IISSTX v of
                         Inl _ \<Rightarrow> []
                       | Inr tx \<Rightarrow> if Bucket_Get result PrefixIISSTX (drop (length PrefixIISSTX) k) = None then [tx] else [])
            es)))"

record check_stats =
  st_total :: u64
  st_header :: u64
  st_gv :: u64
  st_bp :: u64
  st_pRep :: u64
  st_tx :: u64
  st_unknown :: u64

definition check_step :: "bytes \<Rightarrow> check_stats \<Rightarrow> check_stats" where
  "check_step key s =
     (let s' = s\<lparr>st_total := st_total s + 1\<rparr>; keyID = take 2 key in
      if keyID = PrefixIISSHeader then s'\<lparr>st_header := st_header s + 1\<rparr>
      else if keyID = PrefixIISSGV then s'\<lparr>st_gv := st_gv s + 1\<rparr>
      else if keyID = PrefixIISSBPInfo then s'\<lparr>st_bp := st_bp s + 1\<rparr>
      else if keyID = PrefixIISSPRep then s'\<lparr>st_pRep := st_pRep s + 1\<rparr>
      else if keyID = PrefixIISSTX then s'\<lparr>st_tx := st_tx s + 1\<rparr>
      else s'\<lparr>st_unknown := st_unknown s + 1\<rparr>)"

text \<open>A key of less than two bytes panics.\<close>

definition checkALL :: "obj kv \<Rightarrow> check_stats option" where
  "checkALL iissDB =
     (let keys = map fst (Iterator_New iissDB None None) in
      if \<exists>k \<in> set keys. length k < 2 then None
      else Some (fold check_step keys
             \<lparr>st_total = 0, st_header = 0, st_gv = 0, st_bp = 0, st_pRep = 0, st_tx = 0, st_unknown = 0\<rparr>))"

section \<open>Properties\<close>

text \<open>The commands write what the functions of the core write.\<close>

lemma cli_header_writes: "cli_header version h revision db = WriteIISSHeader db version h revision"
  by (simp add: cli_header_def WriteIISSHeader_def zero_IISSHeader_def)

lemma cli_governanceVariable_writes:
  "cli_governanceVariable h incentive reward main sub db = WriteIISSGV db h incentive reward main sub"
  by (simp add: cli_governanceVariable_def WriteIISSGV_def zero_IISSGV_def)

lemma cli_bp_writes:
  "generator \<noteq> [] \<Longrightarrow> validator \<noteq> [] \<Longrightarrow>
   map_option Inr (cli_bp h generator validator False db) = WriteIISSBP db h generator (split_at CHR '','' validator)"
  by (cases validator) (auto simp: cli_bp_def WriteIISSBP_def BP_ID_def zero_BP_def Let_def split: option.split list.split)

lemma cli_transaction_writes:
  assumes "NewAddressFromString dg = Some d"
  shows "map_option Inr (cli_transaction index addr h TXDataTypeDelegate dg amount db) =
    WriteIISSTX db index addr h TXDataTypeDelegate [\<lparr>di_Address = d, di_DelegatedAmount = uint amount\<rparr>]"
  using assms
  by (auto simp: big_uint64_def cli_transaction_def WriteIISSTX_def IISSTX_ID_def IISSTX_Bytes_def zero_IISSTX_def Let_def
      TXDataTypeDelegate_def TXDataTypePrepReg_def TXDataTypePrepUnReg_def
      split: option.split sum.split)

text \<open>Every entry is counted once.\<close>

lemma check_step_sum:
  "st_total s = st_header s + st_gv s + st_bp s + st_pRep s + st_tx s + st_unknown s \<Longrightarrow>
   check_step k s = t \<Longrightarrow> st_total t = st_header t + st_gv t + st_bp t + st_pRep t + st_tx t + st_unknown t"
  by (auto simp: check_step_def Let_def)

lemma checkALL_sum:
  "checkALL db = Some s \<Longrightarrow> st_total s = st_header s + st_gv s + st_bp s + st_pRep s + st_tx s + st_unknown s"
proof -
  have "st_total t = st_header t + st_gv t + st_bp t + st_pRep t + st_tx t + st_unknown t"
    if "fold check_step ks s = t" "st_total s = st_header s + st_gv s + st_bp s + st_pRep s + st_tx s + st_unknown s" for ks s t
    using that by (induction ks arbitrary: s) (auto dest: check_step_sum)
  then show "checkALL db = Some s \<Longrightarrow> ?thesis" by (auto simp: checkALL_def Let_def split: if_splits)
qed

text \<open>The loop over the missing heights ends, at the first height that is there.\<close>

lemma count_missing_eq: "count_missing expected bh miss = bh - expected"
  unfolding count_missing_def
proof (rule while_rule [where P = "\<lambda>_. True" and r = "measure (\<lambda>m. unat (bh - expected - m))"])
  fix m
  assume "expected + m \<noteq> bh"
  then have "bh - expected - m \<noteq> 0" by (auto simp: algebra_simps)
  then have "unat (bh - expected - m - 1) < unat (bh - expected - m)" by (rule measure_unat)
  then show "(m + 1, m) \<in> measure (\<lambda>m. unat (bh - expected - m))" by (simp add: algebra_simps)
qed (auto simp: algebra_simps)

text \<open>
  The producers of heights that are not in order wrap around; in any order the count is the
  distance from the first height to the last less the entries.
\<close>

lemma bp_fold:
  assumes "\<forall>e \<in> set es. \<exists>b. BP_SetBytes zero_BP (snd e) = Inr b" "fold bp_step es c = c'"
    and "unat (bc_entries c) + length es < 2 ^ 64" "bc_entries c \<noteq> 0" "bc_start c + bc_entries c + bc_miss c = l + 1"
  shows "bc_start c' = bc_start c \<and> bc_entries c' = bc_entries c + of_nat (length es) \<and>
    bc_start c' + bc_entries c' + bc_miss c' =
      (if es = [] then l else BytesToUint64 (drop (length PrefixIISSBPInfo) (fst (last es)))) + 1"
  using assms
proof (induction es arbitrary: c l)
  case (Cons e es)
  obtain b where b: "BP_SetBytes zero_BP (snd e) = Inr b" using Cons.prems(1) by auto
  let ?h = "BytesToUint64 (drop (length PrefixIISSBPInfo) (fst e))"
  let ?c = "bp_step e c"
  have c: "bc_entries ?c = bc_entries c + 1" "bc_start ?c = bc_start c" "bc_start ?c + bc_entries ?c + bc_miss ?c = ?h + 1"
    using Cons.prems(4) b by (auto simp: bp_step_def Let_def count_missing_eq algebra_simps)
  have u: "unat (bc_entries ?c) = unat (bc_entries c) + 1"
    using Cons.prems(3) by (simp add: c unat_word_ariths)
  then have "bc_entries ?c \<noteq> 0" by auto
  then have "bc_start c' = bc_start ?c \<and> bc_entries c' = bc_entries ?c + of_nat (length es) \<and>
      bc_start c' + bc_entries c' + bc_miss c' =
        (if es = [] then ?h else BytesToUint64 (drop (length PrefixIISSBPInfo) (fst (last es)))) + 1"
    using Cons.prems u c by (intro Cons.IH) auto
  then show ?case using c by (auto simp: algebra_simps)
qed simp

lemma ReadIISSBP_gaps:
  assumes "Iterator_prefix db PrefixIISSBPInfo = e # es" "\<forall>e \<in> set (e # es). \<exists>b. BP_SetBytes zero_BP (snd e) = Inr b"
    and "length (e # es) < 2 ^ 64"
  shows "ReadIISSBP db =
    (of_nat (length (e # es)),
     BytesToUint64 (drop (length PrefixIISSBPInfo) (fst (last (e # es)))) + 1
       - BytesToUint64 (drop (length PrefixIISSBPInfo) (fst e)) - of_nat (length (e # es)))"
proof -
  obtain b where b: "BP_SetBytes zero_BP (snd e) = Inr b" using assms(2) by auto
  let ?h = "BytesToUint64 (drop (length PrefixIISSBPInfo) (fst e))"
  let ?c = "bp_step e \<lparr>bc_entries = 0, bc_start = 0, bc_miss = 0\<rparr>"
  have c: "?c = \<lparr>bc_entries = 1, bc_start = ?h, bc_miss = 0\<rparr>" using b by (simp add: bp_step_def Let_def)
  have "bc_start (fold bp_step es ?c) = bc_start ?c \<and> bc_entries (fold bp_step es ?c) = bc_entries ?c + of_nat (length es) \<and>
    bc_start (fold bp_step es ?c) + bc_entries (fold bp_step es ?c) + bc_miss (fold bp_step es ?c) =
      (if es = [] then ?h else BytesToUint64 (drop (length PrefixIISSBPInfo) (fst (last es)))) + 1"
    using assms(2,3) by (intro bp_fold) (auto simp: c)
  then show ?thesis by (auto simp: ReadIISSBP_def assms(1) Let_def c algebra_simps eq_diff_eq)
qed

end
