(* ===== verification/IissToolMain.thy ===== *)
theory IissToolMain
  imports IissTool Flags
begin

text \<open>
  The command line of \<^verbatim>\<open>cmd/iissdata\<close>: \<^verbatim>\<open>cli.go\<close> and \<^verbatim>\<open>cli_read.go\<close>. The files are a map from
  paths to databases; a path is taken as it is written, less a trailing slash.
\<close>

section \<open>Options\<close>

text \<open>One record holds the variables of all the flag sets; a command parses its own.\<close>

record iiss_args =
  ia_version :: u64
  ia_revision :: u64
  ia_height :: u64
  ia_incentive :: u64
  ia_reward :: u64
  ia_mainprepcount :: u64
  ia_subprepcount :: u64
  ia_generator :: string
  ia_validator :: string
  ia_delete :: bool
  ia_preplist :: string
  ia_delegationlist :: string
  ia_index :: u64
  ia_owner :: string
  ia_type :: u64
  ia_dg_address :: string
  ia_dg_amount :: u64

definition NumMainPRep :: u64 where "NumMainPRep = 22"
definition NumSubPRep :: u64 where "NumSubPRep = 78"

definition default_iiss_args :: iiss_args where
  "default_iiss_args = \<lparr>ia_version = IISSDataVersion, ia_revision = IISSDataRevisionDefault, ia_height = 0,
     ia_incentive = 1, ia_reward = 1, ia_mainprepcount = NumMainPRep, ia_subprepcount = NumSubPRep,
     ia_generator = [], ia_validator = [], ia_delete = False, ia_preplist = [], ia_delegationlist = [],
     ia_index = 0, ia_owner = [], ia_type = 0, ia_dg_address = [], ia_dg_amount = 10\<rparr>"

definition iiss_height_flag :: "string \<times> iiss_args flag" where
  "iiss_height_flag = (''blockheight'', Uint64Var (\<lambda>v a. a\<lparr>ia_height := v\<rparr>))"

definition iiss_delete_flag :: "string \<times> iiss_args flag" where
  "iiss_delete_flag = (''delete'', BoolVar (\<lambda>v a. a\<lparr>ia_delete := v\<rparr>))"

definition headerCmd :: "iiss_args flag_set" where
  "headerCmd = [(''version'', Uint64Var (\<lambda>v a. a\<lparr>ia_version := v\<rparr>)),
     (''revision'', Uint64Var (\<lambda>v a. a\<lparr>ia_revision := v\<rparr>)), iiss_height_flag]"

definition gvCmd :: "iiss_args flag_set" where
  "gvCmd = [iiss_height_flag, (''incentive'', Uint64Var (\<lambda>v a. a\<lparr>ia_incentive := v\<rparr>)),
     (''reward'', Uint64Var (\<lambda>v a. a\<lparr>ia_reward := v\<rparr>)),
     (''mainprepcount'', Uint64Var (\<lambda>v a. a\<lparr>ia_mainprepcount := v\<rparr>)),
     (''subprepcount'', Uint64Var (\<lambda>v a. a\<lparr>ia_subprepcount := v\<rparr>))]"

definition bpCmd :: "iiss_args flag_set" where
  "bpCmd = [iiss_height_flag, (''generator'', StringVar (\<lambda>v a. a\<lparr>ia_generator := v\<rparr>)),
     (''validator'', StringVar (\<lambda>v a. a\<lparr>ia_validator := v\<rparr>)), iiss_delete_flag]"

definition prepCmd :: "iiss_args flag_set" where
  "prepCmd = [iiss_height_flag, (''preplist'', StringVar (\<lambda>v a. a\<lparr>ia_preplist := v\<rparr>)),
     (''delegationlist'', StringVar (\<lambda>v a. a\<lparr>ia_delegationlist := v\<rparr>)), iiss_delete_flag]"

definition txCmd :: "iiss_args flag_set" where
  "txCmd = [(''index'', Uint64Var (\<lambda>v a. a\<lparr>ia_index := v\<rparr>)), (''address'', StringVar (\<lambda>v a. a\<lparr>ia_owner := v\<rparr>)),
     iiss_height_flag, (''type'', Uint64Var (\<lambda>v a. a\<lparr>ia_type := v\<rparr>)),
     (''dg-address'', StringVar (\<lambda>v a. a\<lparr>ia_dg_address := v\<rparr>)),
     (''dg-amount'', Uint64Var (\<lambda>v a. a\<lparr>ia_dg_amount := v\<rparr>))]"

lemmas iiss_flag_defs = iiss_height_flag_def iiss_delete_flag_def headerCmd_def gvCmd_def bpCmd_def prepCmd_def txCmd_def

lemma iiss_flag_names_distinct: "\<forall>fs \<in> {headerCmd, gvCmd, bpCmd, prepCmd, txCmd}. distinct (map fst fs)"
  by (simp add: iiss_flag_defs)

section \<open>Commands\<close>

record iiss_report =
  rp_data :: "(IISSHeader \<times> IISSGovernanceVariable list \<times> PRep list) option"
  rp_bp :: "u64 \<times> u64"
  rp_tx :: nat
  rp_all :: check_stats

datatype iiss_result = IissExit nat | IissReport "iiss_report option" | IissDone

text \<open>A missing database is reported and not created.\<close>

definition cli_read :: "obj kv option \<Rightarrow> iiss_report option option" where
  "cli_read db =
     (case db of
        None \<Rightarrow> Some None
      | Some db \<Rightarrow>
          map_option (\<lambda>st. Some \<lparr>rp_data = LoadIISSData db, rp_bp = ReadIISSBP db, rp_tx = ReadIISSTX db, rp_all = st\<rparr>)
            (checkALL db))"

definition db_path :: "string \<Rightarrow> string" where
  "db_path p = (if p \<noteq> [] \<and> last p = CHR ''/'' then butlast p else p)"

type_synonym iiss_files = "string \<Rightarrow> obj kv option"

text \<open>Opening creates a database that is missing.\<close>

definition iiss_edit ::
    "string \<Rightarrow> (obj kv \<Rightarrow> obj kv option) \<Rightarrow> iiss_files \<Rightarrow> (iiss_result \<times> iiss_files) option" where
  "iiss_edit p f F =
     map_option (\<lambda>db. (IissDone, F(p \<mapsto> db))) (f (case F p of None \<Rightarrow> [] | Some db \<Rightarrow> db))"

definition iiss_parse ::
    "iiss_args flag_set \<Rightarrow> string list \<Rightarrow> iiss_args \<Rightarrow> (iiss_args \<Rightarrow> (iiss_result \<times> iiss_files) option) \<Rightarrow> iiss_files \<Rightarrow>
     (iiss_result \<times> iiss_files) option" where
  "iiss_parse fs args a0 f F = (case FlagSet_Parse fs args a0 of None \<Rightarrow> Some (IissExit 2, F) | Some a \<Rightarrow> f a)"

definition iissdata_Run :: "string list \<Rightarrow> iiss_files \<Rightarrow> (iiss_result \<times> iiss_files) option" where
  "iissdata_Run args F =
     (if length args < 3 then Some (IissExit 1, F)
      else
        (let p = db_path (args ! 1); cmd = args ! 2; rest = drop 3 args; a0 = default_iiss_args in
         if cmd = ''read'' then iiss_parse [] rest a0 (\<lambda>_. map_option (\<lambda>r. (IissReport r, F)) (cli_read (F p))) F
         else if cmd = ''delete'' then iiss_parse [] rest a0 (\<lambda>_. Some (IissDone, F(p := None))) F
         else if cmd = ''header'' then
           iiss_parse headerCmd rest (a0\<lparr>ia_height := 1\<rparr>)
             (\<lambda>a. iiss_edit p (\<lambda>db. Some (cli_header (ia_version a) (ia_height a) (ia_revision a) db)) F) F
         else if cmd = ''gv'' then
           iiss_parse gvCmd rest a0
             (\<lambda>a. iiss_edit p (\<lambda>db. Some (cli_governanceVariable (ia_height a) (ia_incentive a) (ia_reward a)
                                           (ia_mainprepcount a) (ia_subprepcount a) db)) F) F
         else if cmd = ''bp'' then
           iiss_parse bpCmd rest a0 (\<lambda>a. iiss_edit p (cli_bp (ia_height a) (ia_generator a) (ia_validator a) (ia_delete a)) F) F
         else if cmd = ''prep'' then
           iiss_parse prepCmd rest a0
             (\<lambda>a. iiss_edit p (cli_prep (ia_height a) (ia_preplist a) (ia_delegationlist a) (ia_delete a)) F) F
         else if cmd = ''tx'' then
           iiss_parse txCmd rest a0
             (\<lambda>a. if ia_owner a = [] then map_option (\<lambda>(_, F'). (IissExit 1, F')) (iiss_edit p Some F)
                  else iiss_edit p (cli_transaction (ia_index a) (ia_owner a) (ia_height a) (ia_type a)
                                      (ia_dg_address a) (ia_dg_amount a)) F) F
         else Some (IissExit 1, F)))"

section \<open>Properties\<close>

text \<open>A command touches no database but the one it names.\<close>

lemma iiss_edit_frame: "iiss_edit p f F = Some (r, F') \<Longrightarrow> q \<noteq> p \<Longrightarrow> F' q = F q"
  by (auto simp: iiss_edit_def)

lemma iissdata_Run_frame:
  "iissdata_Run args F = Some (r, F') \<Longrightarrow> q \<noteq> db_path (args ! 1) \<Longrightarrow> F' q = F q"
  by (auto simp: iissdata_Run_def iiss_parse_def Let_def dest: iiss_edit_frame split: if_splits option.splits)

text \<open>The header command, given a height only, writes the header the core writes, of the current version.\<close>

lemma iissdata_header_given:
  assumes "strconv_ParseUint h 64 = Some n"
  shows "iissdata_Run [prog, path, ''header'', ''-blockheight'', h] F =
    Some (IissDone, F(db_path path \<mapsto> WriteIISSHeader (case F (db_path path) of None \<Rightarrow> [] | Some db \<Rightarrow> db) IISSDataVersion n 0))"
proof -
  have "form_fits headerCmd (Separate, ''blockheight'', h)" by (simp add: iiss_flag_defs flag_name_ok_def)
  then have "FlagSet_Parse headerCmd [''-blockheight'', h] a = Some (a\<lparr>ia_height := n\<rparr>)" for a
    using FlagSet_Parse_given [of headerCmd "[(Separate, ''blockheight'', h)]" a] assms
    by (simp add: iiss_flag_defs)
  then show ?thesis
    by (simp add: iissdata_Run_def iiss_parse_def iiss_edit_def cli_header_writes default_iiss_args_def IISSDataRevisionDefault_def
        Let_def del: FlagSet_Parse.simps)
qed

end
