(* ===== verification/SendIpcMain.thy ===== *)
theory SendIpcMain
  imports DbToolMain ClientTheorems
begin

text \<open>
  The command lines of \<^verbatim>\<open>cmd/sendipc\<close> and \<^verbatim>\<open>cmd/rctool\<close>: parsing, connecting, waiting for READY
  and the command. Dialling a socket is a parameter. \<open>None\<close> is a panic, or a connection that
  ends before READY, on which the tools read for ever.
\<close>

section \<open>Options of sendipc\<close>

text \<open>One record holds the variables of all the flag sets; a command parses its own.\<close>

record send_args =
  sd_height :: u64
  sd_address :: string
  sd_txhash :: string
  sd_blockhash :: string
  sd_txindex :: u64
  sd_no_commit :: bool
  sd_no_commit_block :: bool
  sd_success :: bool
  sd_iissdata :: string
  sd_config :: string
  sd_url :: string

definition default_send_args :: send_args where
  "default_send_args = \<lparr>sd_height = 0, sd_address = [], sd_txhash = [], sd_blockhash = [], sd_txindex = 0,
     sd_no_commit = False, sd_no_commit_block = False, sd_success = True, sd_iissdata = [],
     sd_config = ''./monitor.json'', sd_url = ''http://localhost:9091''\<rparr>"

definition height_flag :: "string \<times> send_args flag" where
  "height_flag = (''blockheight'', Uint64Var (\<lambda>v a. a\<lparr>sd_height := v\<rparr>))"

definition address_flag :: "string \<times> send_args flag" where
  "address_flag = (''address'', StringVar (\<lambda>v a. a\<lparr>sd_address := v\<rparr>))"

definition blockhash_flag :: "string \<times> send_args flag" where
  "blockhash_flag = (''blockhash'', StringVar (\<lambda>v a. a\<lparr>sd_blockhash := v\<rparr>))"

definition tx_flags :: "send_args flag_set" where
  "tx_flags = [(''txindex'', Uint64Var (\<lambda>v a. a\<lparr>sd_txindex := v\<rparr>)), (''txhash'', StringVar (\<lambda>v a. a\<lparr>sd_txhash := v\<rparr>))]"

text \<open>The flag \<^verbatim>\<open>fail\<close> is the success of the request.\<close>

definition fail_flag :: "string \<times> send_args flag" where
  "fail_flag = (''fail'', BoolVar (\<lambda>v a. a\<lparr>sd_success := v\<rparr>))"

definition queryCmd :: "send_args flag_set" where
  "queryCmd = [address_flag, (''txHash'', StringVar (\<lambda>v a. a\<lparr>sd_txhash := v\<rparr>))]"

definition claimCmd :: "send_args flag_set" where
  "claimCmd = [address_flag, height_flag, blockhash_flag] @ tx_flags @
     [(''no-commit'', BoolVar (\<lambda>v a. a\<lparr>sd_no_commit := v\<rparr>)), (''no-commit-block'', BoolVar (\<lambda>v a. a\<lparr>sd_no_commit_block := v\<rparr>))]"

definition commitClaimCmd :: "send_args flag_set" where
  "commitClaimCmd = [fail_flag, address_flag, height_flag, blockhash_flag] @ tx_flags"

definition startBlockCmd :: "send_args flag_set" where "startBlockCmd = [height_flag, blockhash_flag]"

definition commitBlockCmd :: "send_args flag_set" where "commitBlockCmd = [fail_flag, height_flag, blockhash_flag]"

definition calculateCmd :: "send_args flag_set" where
  "calculateCmd = [(''iissdata'', StringVar (\<lambda>v a. a\<lparr>sd_iissdata := v\<rparr>)), height_flag]"

definition monitorCmd :: "send_args flag_set" where
  "monitorCmd = [(''config'', StringVar (\<lambda>v a. a\<lparr>sd_config := v\<rparr>)), (''url'', StringVar (\<lambda>v a. a\<lparr>sd_url := v\<rparr>))]"

definition rollbackCmd :: "send_args flag_set" where "rollbackCmd = [height_flag, blockhash_flag]"

lemmas send_flag_defs = height_flag_def address_flag_def blockhash_flag_def tx_flags_def fail_flag_def queryCmd_def
  claimCmd_def commitClaimCmd_def startBlockCmd_def commitBlockCmd_def calculateCmd_def monitorCmd_def rollbackCmd_def

lemma send_flag_names_distinct:
  "\<forall>fs \<in> {queryCmd, claimCmd, commitClaimCmd, startBlockCmd, commitBlockCmd, calculateCmd, monitorCmd, rollbackCmd}.
     distinct (map fst fs)"
  by (simp add: send_flag_defs)

definition send_flags :: "string \<Rightarrow> send_args flag_set option" where
  "send_flags cmd =
     map_of [(''version'', []), (''init'', [height_flag]), (''query'', queryCmd), (''claim'', claimCmd),
       (''commitclaim'', commitClaimCmd), (''startblock'', startBlockCmd), (''commitblock'', commitBlockCmd),
       (''calculate'', calculateCmd), (''monitor'', monitorCmd), (''query_calculate_status'', []),
       (''query_calculate_result'', [height_flag]), (''rollback'', rollbackCmd)] cmd"

section \<open>Commands of sendipc\<close>

datatype send_result =
    SendExit nat
  | SentVersion "error + u16"
  | SentInit "error + ResponseInit"
  | SentClaim "error + ResponseClaim"
  | SentCommitClaim "error + unit"
  | SentStartBlock "error + StartBlock"
  | SentCommitBlock "error + CommitBlock"
  | SentQuery "error + ResponseQuery"
  | SentCalculate "CalculateDone option \<times> error option"
  | SentStatus "error + QueryCalculateStatusResponse"
  | SentResult "error + QueryCalculateResultResponse"
  | SentRollback "error + RollBackResponse"
  | Monitors string string

text \<open>The checks of the arguments come after the connection.\<close>

definition send_query :: "'s peer \<Rightarrow> send_args \<Rightarrow> RCIPC \<times> 's \<Rightarrow> (send_result \<times> RCIPC \<times> 's) option" where
  "send_query peer a st =
     (if sd_address a = [] then Some (SendExit 1, st)
      else case (if sd_txhash a = [] then Inr None else map_sum id Some (hex_decode (sd_txhash a))) of
             Inl _ \<Rightarrow> Some (SendExit 1, st)
           | Inr th \<Rightarrow> map_option (apfst SentQuery) (ipc_query peer (sd_address a) th st))"

definition sendipc_command ::
    "'s peer \<Rightarrow> string \<Rightarrow> send_args \<Rightarrow> RCIPC \<times> 's \<Rightarrow> (send_result \<times> RCIPC \<times> 's) option" where
  "sendipc_command peer cmd a st =
     (if cmd = ''version'' then Some (apfst SentVersion (ipc_version peer st))
      else if cmd = ''init'' then Some (apfst SentInit (ipc_init peer (sd_height a) st))
      else if cmd = ''claim'' then
        (if sd_address a = [] then Some (SendExit 1, st)
         else Some (apfst SentClaim (ipc_claim peer (sd_address a) (sd_height a) (sd_blockhash a) (sd_txindex a) (sd_txhash a)
                                       (sd_no_commit a) (sd_no_commit_block a) st)))
      else if cmd = ''commitclaim'' then
        (if sd_address a = [] then Some (SendExit 1, st)
         else Some (apfst SentCommitClaim (ipc_commitClaim peer (sd_success a) (sd_address a) (sd_height a) (sd_blockhash a)
                                             (sd_txindex a) (sd_txhash a) st)))
      else if cmd = ''startblock'' then Some (apfst SentStartBlock (ipc_startBlock peer (sd_height a) (sd_blockhash a) st))
      else if cmd = ''commitblock'' then
        Some (apfst SentCommitBlock (ipc_commitBlock peer (sd_success a) (sd_height a) (sd_blockhash a) st))
      else if cmd = ''query'' then send_query peer a st
      else if cmd = ''calculate'' then
        (if sd_iissdata a = [] then Some (SendExit 1, st)
         else Some (apfst SentCalculate (ipc_calculate peer (sd_iissdata a) (sd_height a) st)))
      else if cmd = ''query_calculate_status'' then Some (apfst SentStatus (ipc_queryCalculateStatus peer st))
      else if cmd = ''query_calculate_result'' then Some (apfst SentResult (ipc_queryCalculateResult peer (sd_height a) st))
      else if cmd = ''monitor'' then Some (Monitors (sd_config a) (sd_url a), st)
      else if cmd = ''rollback'' then
        (if sd_height a = 0 \<or> sd_blockhash a = [] then Some (SendExit 1, st)
         else map_option (apfst SentRollback) (ipc_rollback peer (sd_height a) (sd_blockhash a) st))
      else Some (SendExit 1, st))"

text \<open>The connection with READY read from it; the state of the other end is the last component.\<close>

definition after_ready :: "connection \<Rightarrow> u32 \<Rightarrow> RCIPC option" where
  "after_ready c i = map_option (\<lambda>obs. \<lparr>rc_conn = c\<lparr>conn_in := obs\<rparr>, rc_id = i\<rparr>) (flush_ready (conn_in c))"

definition sendipc_Run ::
    "'s peer \<Rightarrow> (string \<Rightarrow> connection option) \<Rightarrow> string list \<Rightarrow> 's \<Rightarrow> (send_result \<times> 's) option" where
  "sendipc_Run peer dial args s =
     (if length args < 3 then Some (SendExit 1, s)
      else
        (case send_flags (args ! 2) of
           None \<Rightarrow> Some (SendExit 1, s)
         | Some fs \<Rightarrow>
             (case FlagSet_Parse fs (drop 3 args) default_send_args of
                None \<Rightarrow> Some (SendExit 2, s)
              | Some a \<Rightarrow>
                  (case dial (args ! 1) of
                     None \<Rightarrow> Some (SendExit 1, s)
                   | Some c \<Rightarrow>
                       (case after_ready c 1 of
                          None \<Rightarrow> None
                        | Some rc \<Rightarrow> map_option (\<lambda>(r, _, s'). (r, s')) (sendipc_command peer (args ! 2) a (rc, s)))))))"

section \<open>Commands of rctool\<close>

datatype rctool_result =
    RctoolExit nat
  | RctoolAnswer "error + obj"
  | RctoolCalculate "error + QueryCalculateStatusResponse + QueryCalculateResultResponse"
  | RctoolFiles tool_result

text \<open>\<^verbatim>\<open>strconv.ParseUint(s, 10, 64)\<close>\<close>

definition strconv_decimal :: "string \<Rightarrow> u64 option" where
  "strconv_decimal s =
     (if s = [] then None
      else case parse_base 10 0 s of Some n \<Rightarrow> if n < 2 ^ 64 then Some (of_nat n) else None | None \<Rightarrow> None)"

definition rctool_debug ::
    "'s peer \<Rightarrow> files \<Rightarrow> string list \<Rightarrow> RCIPC \<times> 's \<Rightarrow> (rctool_result \<times> RCIPC \<times> 's) option" where
  "rctool_debug peer F input st =
     (if input \<noteq> [] \<and> hd input = ''result'' then
        (case FlagSet_Parse InitCalcDebugInput (tl input) zero_Input of
           None \<Rightarrow> Some (RctoolExit 2, st)
         | Some i \<Rightarrow>
             if in_Help i then Some (RctoolExit 0, st)
             else if in_Path i = [] then map_option (apfst RctoolAnswer) (rc_calculateDebug peer input (in_Address i) (in_Height i) st)
             else map_option (\<lambda>r. (RctoolFiles r, st)) (calcDebug_command F i))
      else map_option (apfst RctoolAnswer) (rc_calculateDebug peer input [] 0 st))"

definition rctool_command ::
    "'s peer \<Rightarrow> files \<Rightarrow> string list \<Rightarrow> RCIPC \<times> 's \<Rightarrow> (rctool_result \<times> RCIPC \<times> 's) option" where
  "rctool_command peer F args st =
     (let cmd = args ! 1 in
      if cmd = ''calculate'' then
        (if length args = 3 then
           (case strconv_decimal (args ! 2) of
              None \<Rightarrow> Some (RctoolExit 1, st)
            | Some h \<Rightarrow> Some (apfst RctoolCalculate (rc_calculate peer h st)))
         else Some (apfst RctoolCalculate (rc_calculate peer 0 st)))
      else if cmd = ''calculate_debug'' then rctool_debug peer F (drop 2 args) st
      else if cmd \<in> {''stats'', ''dbinfo'', ''prep'', ''prepcandidate'', ''gv'', ''logctx''} then
        Some (apfst RctoolAnswer (rc_run peer cmd st))
      else Some (RctoolExit 1, st))"

definition rctool_Run ::
    "'s peer \<Rightarrow> connection option \<Rightarrow> files \<Rightarrow> string list \<Rightarrow> 's \<Rightarrow> (rctool_result \<times> 's) option" where
  "rctool_Run peer dialled F args s =
     (if length args < 2 \<or> args ! 1 = ''-h'' then Some (RctoolExit 1, s)
      else
        (case dialled of
           None \<Rightarrow> Some (RctoolExit 1, s)
         | Some c \<Rightarrow>
             (case after_ready c 0 of
                None \<Rightarrow> None
              | Some rc \<Rightarrow> map_option (\<lambda>(r, _, s'). (r, s')) (rctool_command peer F args (rc, s)))))"

section \<open>Properties\<close>

text \<open>
  A command that is refused for its arguments leaves the other end alone, and so does one whose
  flags do not parse.
\<close>

lemma sendipc_command_exit: "sendipc_command peer cmd a (rc, s) = Some (SendExit n, rc', s') \<Longrightarrow> s' = s"
  by (auto simp: sendipc_command_def send_query_def apfst_def map_prod_def split: if_splits sum.splits prod.splits)

lemma sendipc_Run_exit: "sendipc_Run peer dial args s = Some (SendExit n, s') \<Longrightarrow> s' = s"
  by (auto simp: sendipc_Run_def dest: sendipc_command_exit split: if_splits option.splits)

text \<open>A flag \<^verbatim>\<open>-fail\<close> without a value, like none, commits a claim that succeeded.\<close>

lemma fail_means_success:
  "map_option sd_success (FlagSet_Parse commitClaimCmd [''-fail''] default_send_args) = Some True"
  "map_option sd_success (FlagSet_Parse commitClaimCmd [] default_send_args) = Some True"
  by code_simp+

text \<open>A query from the command line shows the I-Score the service computes, and changes nothing.\<close>

lemma sendipc_query:
  assumes "dial sock = Some c" "flush_ready (conn_in c) = Some []" "addr \<noteq> []" "NewAddressFromString addr = Some a" "address_ok a"
    and "DoQuery (mgr_ctx m) \<lparr>q_Address = a, q_BlockHeight = 0, q_BlockHash = None, q_TXHash = None\<rparr> = Some resp"
  shows "sendipc_Run (serve env) dial [prog, sock, ''query'', ''-address'', addr] (Some m) = Some (SentQuery (Inr resp), Some m)"
proof -
  have "list_all (form_fits queryCmd) [(Separate, ''address'', addr)]" by (simp add: send_flag_defs flag_name_ok_def)
  from FlagSet_Parse_given [OF this, of default_send_args]
  have parsed: "FlagSet_Parse queryCmd [''-address'', addr] default_send_args = Some (default_send_args\<lparr>sd_address := addr\<rparr>)"
    by (simp add: send_flag_defs del: FlagSet_Parse.simps)
  let ?q = "\<lparr>q_Address = a, q_BlockHeight = 0, q_BlockHash = None, q_TXHash = None\<rparr>"
  let ?rc = "\<lparr>rc_conn = c\<lparr>conn_in := []\<rparr>, rc_id = 1\<rparr>"
  have "service_answer env \<lparr>m_Msg = MsgQuery, m_Id = rc_id ?rc, m_Data = enc_Query ?q\<rparr> (Some m) = Some (enc_ResponseQuery resp, Some m)"
    using assms(5,6) by (intro service_answers(2)) simp_all
  note answered = service_peer.exchange_answered [of ?rc, OF _ this, where dec = dec_ResponseQuery]
  have "rq_Address resp = a" using assms(6) by (auto simp: DoQuery_def Let_def split: option.splits if_splits sum.splits)
  then have "dec_ResponseQuery (enc_ResponseQuery resp) = Inr resp" using assms(5) by (simp add: ResponseQuery_wire.dec_enc)
  then have "ipc_query (serve env) addr None (?rc, Some m) = Some (Inr resp, asked MsgQuery (enc_Query ?q) ?rc, Some m)"
    using answered assms(4) by (simp add: ipc_query_def in_step_def)
  then show ?thesis
    using assms(1-3) parsed
    by (simp add: sendipc_Run_def send_flags_def after_ready_def sendipc_command_def send_query_def default_send_args_def
        del: FlagSet_Parse.simps)
qed

end
