(* ===== verification/Keys.thy ===== *)
theory Keys
  imports Address
begin

text \<open>
  Keys and signatures, \<^verbatim>\<open>common/crypto/signature.go\<close>, \<^verbatim>\<open>key.go\<close>, \<^verbatim>\<open>common/signature.go\<close>:
  the byte forms around the secp256k1 library, whose functions are parameters, as is the hash
  of \<^verbatim>\<open>hash.go\<close>. \<open>None\<close> is a panic.
\<close>

section \<open>The curve\<close>

text \<open>A missing result of the library is a nil slice.\<close>

record secp256k1 =
  ec_Sign :: "bytes \<Rightarrow> bytes \<Rightarrow> bytes"
  ec_RecoverPubkey :: "bytes \<Rightarrow> bytes \<Rightarrow> bytes"
  ec_VerifySignature :: "bytes \<Rightarrow> bytes \<Rightarrow> bytes \<Rightarrow> int"
  ec_PubkeyFromSeckey :: "bytes \<Rightarrow> bytes"
  ec_UncompressPubkey :: "bytes \<Rightarrow> bytes option"

definition SignatureLenRawWithV :: nat where "SignatureLenRawWithV = 65"
definition SignatureLenRaw :: nat where "SignatureLenRaw = 64"
definition HashLen :: nat where "HashLen = 32"
definition PrivateKeyLen :: nat where "PrivateKeyLen = 32"
definition PublicKeyLenCompressed :: nat where "PublicKeyLenCompressed = 33"
definition PublicKeyLenUncompressed :: nat where "PublicKeyLenUncompressed = 65"

lemmas key_lengths = SignatureLenRawWithV_def SignatureLenRaw_def HashLen_def PrivateKeyLen_def
  PublicKeyLenCompressed_def PublicKeyLenUncompressed_def

section \<open>Keys\<close>

record PublicKey =
  pk_bytes :: bytes

text \<open>The last byte of an uncompressed key is the lowest of y.\<close>

definition uncompToCompPublicKey :: "bytes \<Rightarrow> bytes" where
  "uncompToCompPublicKey uncomp =
     (let format = (if (uncomp ! 64) AND 1 = 1 then 2 OR 1 else 2)
      in format # take 32 (drop 1 uncomp))"

definition ParsePublicKey :: "bytes \<Rightarrow> error + PublicKey" where
  "ParsePublicKey pubKey =
     (if length pubKey = 0 then Inl ErrNoData
      else if length pubKey = PublicKeyLenCompressed then Inr \<lparr>pk_bytes = pubKey\<rparr>
      else if length pubKey = PublicKeyLenUncompressed then Inr \<lparr>pk_bytes = uncompToCompPublicKey pubKey\<rparr>
      else Inl ErrIllegalFormat)"

definition SerializeCompressed :: "PublicKey \<Rightarrow> bytes" where
  "SerializeCompressed key = pk_bytes key"

definition SerializeUncompressed :: "secp256k1 \<Rightarrow> PublicKey \<Rightarrow> bytes option" where
  "SerializeUncompressed ec key = ec_UncompressPubkey ec (pk_bytes key)"

definition PublicKey_Equal :: "PublicKey \<Rightarrow> PublicKey \<Rightarrow> bool" where
  "PublicKey_Equal key key2 \<longleftrightarrow> pk_bytes key = pk_bytes key2"

definition PublicKey_String :: "PublicKey \<Rightarrow> string" where
  "PublicKey_String key = ''0x'' @ hex_encode (pk_bytes key)"

record PrivateKey =
  sk_bytes :: bytes

definition ParsePrivateKey :: "bytes \<Rightarrow> error + PrivateKey" where
  "ParsePrivateKey b = (if length b \<noteq> PrivateKeyLen then Inl ErrIllegalArgument else Inr \<lparr>sk_bytes = b\<rparr>)"

definition PrivateKey_Bytes :: "PrivateKey \<Rightarrow> bytes" where
  "PrivateKey_Bytes key = copy_at (replicate PrivateKeyLen 0) 0 (sk_bytes key)"

definition PrivateKey_PublicKey :: "secp256k1 \<Rightarrow> PrivateKey \<Rightarrow> PublicKey option" where
  "PrivateKey_PublicKey ec key =
     (case ParsePublicKey (ec_PubkeyFromSeckey ec (sk_bytes key)) of Inl _ \<Rightarrow> None | Inr pk \<Rightarrow> Some pk)"

definition PrivateKey_String :: "PrivateKey \<Rightarrow> string" where
  "PrivateKey_String key = ''0x'' @ hex_encode (sk_bytes key)"

text \<open>The address of a key: the end of the hash of its coordinates.\<close>

definition NewAccountAddressFromPublicKey :: "(bytes \<Rightarrow> bytes) \<Rightarrow> secp256k1 \<Rightarrow> PublicKey \<Rightarrow> address option" where
  "NewAccountAddressFromPublicKey sha3 ec key =
     (case SerializeUncompressed ec key of
        None \<Rightarrow> None
      | Some pk \<Rightarrow>
          if pk = [] then None
          else (let digest = sha3 (tl pk) in
                if length digest < 20 then None else Some (NewAccountAddress (drop (length digest - 20) digest))))"

section \<open>Signatures\<close>

record Signature =
  sg_bytes :: bytes
  sg_hasV :: bool

definition ParseSignature :: "bytes \<Rightarrow> error + Signature" where
  "ParseSignature sig =
     (if length sig = 0 then Inl ErrNoData
      else if length sig = SignatureLenRawWithV then Inr \<lparr>sg_bytes = sig, sg_hasV = True\<rparr>
      else if length sig = SignatureLenRaw then Inr \<lparr>sg_bytes = sig @ [0], sg_hasV = False\<rparr>
      else Inl ErrIllegalFormat)"

definition NewSignature :: "secp256k1 \<Rightarrow> bytes \<Rightarrow> PrivateKey option \<Rightarrow> error + Signature" where
  "NewSignature ec hash privKey =
     (case privKey of
        None \<Rightarrow> Inl ErrIllegalArgument
      | Some key \<Rightarrow>
          if length hash = 0 \<or> HashLen < length hash then Inl ErrIllegalArgument
          else ParseSignature (ec_Sign ec hash (sk_bytes key)))"

text \<open>The slices of a VRS signature that are appended; then the byte after them is set.\<close>

definition ParseSignatureVRS :: "bytes \<Rightarrow> (error + Signature) option" where
  "ParseSignatureVRS sig =
     (if length sig \<noteq> 65 then Some (Inl ErrIllegalFormat)
      else
        (let bs = take 32 (drop 1 sig) @ drop 33 sig in
         if 64 < length bs then Some (Inr \<lparr>sg_bytes = bs[64 := hd sig], sg_hasV = False\<rparr>) else None))"

definition SerializeRS :: "Signature \<Rightarrow> error + bytes" where
  "SerializeRS sig = (if length (sg_bytes sig) < 64 then Inl ErrIllegalFormat else Inr (take 64 (sg_bytes sig)))"

definition SerializeVRS :: "Signature \<Rightarrow> (error + bytes) option" where
  "SerializeVRS sig =
     (if \<not> sg_hasV sig then Some (Inl ErrNoData)
      else if length (sg_bytes sig) \<le> 64 then None
      else Some (Inr (sg_bytes sig ! 64 # take 32 (sg_bytes sig) @ take 32 (drop 32 (sg_bytes sig)))))"

definition SerializeRSV :: "Signature \<Rightarrow> error + bytes" where
  "SerializeRSV sig = (if \<not> sg_hasV sig then Inl ErrNoData else Inr (sg_bytes sig))"

definition RecoverPublicKey :: "secp256k1 \<Rightarrow> Signature \<Rightarrow> bytes \<Rightarrow> error + PublicKey" where
  "RecoverPublicKey ec sig hash =
     (if \<not> sg_hasV sig then Inl ErrNoData
      else if length hash = 0 \<or> HashLen < length hash then Inl ErrIllegalArgument
      else (case SerializeRSV sig of Inl e \<Rightarrow> Inl e | Inr s \<Rightarrow> ParsePublicKey (ec_RecoverPubkey ec hash s)))"

definition Verify :: "secp256k1 \<Rightarrow> Signature \<Rightarrow> bytes \<Rightarrow> PublicKey option \<Rightarrow> bool" where
  "Verify ec sig msg pubKey =
     (case pubKey of
        None \<Rightarrow> False
      | Some key \<Rightarrow>
          if length msg = 0 \<or> HashLen < length msg then False
          else case SerializeRSV sig of Inl _ \<Rightarrow> False | Inr s \<Rightarrow> ec_VerifySignature ec msg s (pk_bytes key) \<noteq> 0)"

definition Signature_String :: "Signature option \<Rightarrow> string option" where
  "Signature_String sig =
     (case sig of
        None \<Rightarrow> Some ''[empty]''
      | Some s \<Rightarrow>
          if sg_bytes s = [] then Some ''[empty]''
          else if sg_hasV s then Some (''0x'' @ hex_encode (sg_bytes s))
          else if length (sg_bytes s) < SignatureLenRaw then None
          else Some (''0x'' @ hex_encode (take SignatureLenRaw (sg_bytes s)) @ ''[no V]''))"

text \<open>The binary form of a signature that may be nil, and reading one over another.\<close>

definition Signature_MarshalBinary :: "Signature option \<Rightarrow> (error + bytes) option" where
  "Signature_MarshalBinary sig = map_option SerializeRSV sig"

definition Signature_UnmarshalBinary :: "Signature option \<Rightarrow> bytes \<Rightarrow> error option \<times> Signature option" where
  "Signature_UnmarshalBinary old s = (case ParseSignature s of Inl e \<Rightarrow> (Some e, old) | Inr sig \<Rightarrow> (None, Some sig))"

section \<open>Properties\<close>

text \<open>The forms of a signature with V are permutations of the same bytes, and its binary form reads back.\<close>

lemma signature_forms:
  assumes "length b = SignatureLenRawWithV" "ParseSignature b = Inr s"
  shows "SerializeRSV s = Inr b" "SerializeRS s = Inr (take 64 b)" "SerializeVRS s = Some (Inr (last b # take 64 b))"
    "Signature_UnmarshalBinary old b = (None, Some s)"
proof -
  have s: "s = \<lparr>sg_bytes = b, sg_hasV = True\<rparr>" using assms by (simp add: ParseSignature_def key_lengths split: if_splits)
  have "take 32 b @ take 32 (drop 32 b) = take 64 b" using take_add [of 32 32 b] by simp
  moreover have "b ! 64 = last b" using assms(1) by (cases b) (auto simp: last_conv_nth key_lengths)
  ultimately show "SerializeVRS s = Some (Inr (last b # take 64 b))" using assms(1) by (simp add: SerializeVRS_def s key_lengths)
qed (use assms in \<open>auto simp: ParseSignature_def SerializeRSV_def SerializeRS_def Signature_UnmarshalBinary_def key_lengths split: if_splits\<close>)

text \<open>
  The reader of the VRS form never returns a signature: it appends the 64 bytes after V and
  sets the one behind them, which is out of range.
\<close>

lemma ParseSignatureVRS_panics:
  "ParseSignatureVRS sig = (if length sig = 65 then None else Some (Inl ErrIllegalFormat))"
  by (simp add: ParseSignatureVRS_def Let_def)

lemma VRS_unreadable:
  assumes "length b = SignatureLenRawWithV" "ParseSignature b = Inr s" "SerializeVRS s = Some (Inr v)"
  shows "ParseSignatureVRS v = None"
proof -
  have "v = last b # take 64 b" using signature_forms(3) [OF assms(1,2)] assms(3) by simp
  then have "length v = 65" using assms(1) by (simp add: key_lengths)
  then show ?thesis by (simp add: ParseSignatureVRS_panics)
qed

text \<open>A parsed public key is compressed: 33 bytes, and made from an uncompressed one by the parity of y.\<close>

lemma ParsePublicKey_compressed: "ParsePublicKey b = Inr key \<Longrightarrow> length (SerializeCompressed key) = PublicKeyLenCompressed"
  by (auto simp: ParsePublicKey_def SerializeCompressed_def uncompToCompPublicKey_def Let_def key_lengths split: if_splits)

lemma ParsePrivateKey_Bytes: "ParsePrivateKey b = Inr key \<Longrightarrow> PrivateKey_Bytes key = b"
  by (auto simp: ParsePrivateKey_def PrivateKey_Bytes_def copy_at_zero split: if_splits)

end
