(* ===== verification/Goroutines.thy ===== *)
theory Goroutines
  imports CalcTheorems Messages
begin

text \<open>
  The goroutines of the shards of a calculation, \<^verbatim>\<open>DoCalculate\<close> in \<^verbatim>\<open>core/msg_calculate.go\<close>,
  run concurrently: any of them may take the next step, and between two steps the handlers of
  other messages run. A step of a shard is the creation of its iterator, which fixes what it
  reads, the work on one entry, with the write of a full batch, or the end with the last batch.
  It works on the shared context as it finds it. \<open>shards_loop\<close> runs one shard after the other;
  the section on interleavings shows that the schedule makes no difference.
\<close>

section \<open>Steps\<close>

text \<open>The arguments of the goroutines; \<open>rn_quits i\<close> are the polls of the quit channel by shard \<open>i\<close>.\<close>

record shard_run =
  rn_shake :: "bytes \<Rightarrow> bytes"
  rn_quits :: "nat \<Rightarrow> nat \<Rightarrow> bool"
  rn_height :: u64
  rn_read :: "dirname list"
  rn_write :: "dirname list"

datatype goroutine =
    Created
  | Looping nat "(bytes \<times> obj) list" shard_state
  | Ended Statistics "bytes option"

definition fresh_shard :: "obj kv \<Rightarrow> Context \<Rightarrow> shard_state" where
  "fresh_shard db ctx = \<lparr>sh_entries = 0, sh_count = 0, sh_hash = [], sh_stats = zero_Statistics, sh_batch = [],
     sh_db = db, sh_ctx = ctx\<rparr>"

text \<open>The local variables of a shard with the shared state as it is now.\<close>

definition load_shard :: "obj kv \<Rightarrow> Context \<Rightarrow> shard_state \<Rightarrow> shard_state" where
  "load_shard db ctx st = st\<lparr>sh_db := db, sh_ctx := ctx\<rparr>"

definition shard_work ::
    "shard_run \<Rightarrow> nat \<Rightarrow> nat \<Rightarrow> (bytes \<times> obj) list \<Rightarrow> obj kv \<Rightarrow> Context \<Rightarrow> shard_state \<Rightarrow> (shard_end \<times> shard_state) option" where
  "shard_work R i k es db ctx st =
     calculateDB_loop (rn_quits R i) (rn_height R) writeBatchCount k es (load_shard db ctx st)"

text \<open>
  What another handler may do: it changes neither the account databases nor the governance
  variables, the candidates and the debugging of the calculation.
\<close>

definition other_step :: "Context \<Rightarrow> Context \<Rightarrow> bool" where
  "other_step ctx ctx' \<longleftrightarrow> dirs (DB ctx') = dirs (DB ctx) \<and> GV ctx' = GV ctx \<and>
     PRepCandidates ctx' = PRepCandidates ctx \<and> calcDebug ctx' = calcDebug ctx"

inductive shard_step :: "shard_run \<Rightarrow> nat option \<Rightarrow> Context \<times> goroutine list \<Rightarrow> Context \<times> goroutine list \<Rightarrow> bool" for R where
  create: "i < length gs \<Longrightarrow> gs ! i = Created \<Longrightarrow>
    shard_step R (Some i) (ctx, gs)
      (ctx, gs[i := Looping 0 (Iterator_New (calcdb ctx (rn_read R ! i)) None None) (fresh_shard [] ctx)])"
| entry: "i < length gs \<Longrightarrow> gs ! i = Looping k (e # es) st \<Longrightarrow>
    shard_work R i k [e] (calcdb ctx (rn_write R ! i)) ctx st = Some (Finished, st') \<Longrightarrow>
    shard_step R (Some i) (ctx, gs)
      (set_calcdb (rn_write R ! i) (sh_db st') (sh_ctx st'), gs[i := Looping (Suc k) es st'])"
| stop: "i < length gs \<Longrightarrow> gs ! i = Looping k (e # es) st \<Longrightarrow>
    shard_work R i k [e] (calcdb ctx (rn_write R ! i)) ctx st = Some (end, st') \<Longrightarrow> end \<noteq> Finished \<Longrightarrow>
    shard_step R (Some i) (ctx, gs)
      (set_calcdb (rn_write R ! i) (sh_db st') (sh_ctx st'), gs[i := Ended (sh_stats st') None])"
| finish: "i < length gs \<Longrightarrow> gs ! i = Looping k [] st \<Longrightarrow>
    shard_step R (Some i) (ctx, gs)
      (set_calcdb (rn_write R ! i) (Batch_Write (calcdb ctx (rn_write R ! i)) (sh_batch st)) ctx,
       gs[i := Ended (sh_stats st) (Some (if 0 < sh_count st then rn_shake R (sh_hash st) else replicate 64 0))])"
| other: "other_step ctx ctx' \<Longrightarrow> shard_step R None (ctx, gs) (ctx', gs)"

inductive_cases shard_stepE: "shard_step R l s s'"

definition any_step :: "shard_run \<Rightarrow> Context \<times> goroutine list \<Rightarrow> Context \<times> goroutine list \<Rightarrow> bool" where
  "any_step R s s' \<longleftrightarrow> (\<exists>l. shard_step R l s s')"

fun result_of :: "goroutine \<Rightarrow> (Statistics \<times> bytes option) option" where
  "result_of (Ended st hash) = Some (st, hash)"
| "result_of _ = None"

text \<open>The steps a goroutine has before it.\<close>

fun work_left :: "obj kv \<Rightarrow> goroutine \<Rightarrow> nat" where
  "work_left rdb Created = Suc (Suc (length rdb))"
| "work_left rdb (Looping k es st) = Suc (length es)"
| "work_left rdb (Ended st hash) = 0"

definition all_work_left :: "shard_run \<Rightarrow> Context \<times> goroutine list \<Rightarrow> nat" where
  "all_work_left R s = (\<Sum>i < length (snd s). work_left (calcdb (fst s) (rn_read R ! i)) (snd s ! i))"

section \<open>One shard\<close>

text \<open>Without debugging, the work on an entry depends on the rates and candidates only.\<close>

definition same_rates :: "Context \<Rightarrow> Context \<Rightarrow> bool" where
  "same_rates ctx ctx' \<longleftrightarrow> GV ctx' = GV ctx \<and> PRepCandidates ctx' = PRepCandidates ctx \<and> calcDebug ctx' = calcDebug ctx"

lemma same_rates_refl [simp]: "same_rates ctx ctx"
  by (simp add: same_rates_def)

lemma same_rates_Need: "same_rates ctx ctx' \<Longrightarrow> NeedToUpdateCalcDebugResult ctx' = NeedToUpdateCalcDebugResult ctx"
  by (simp add: same_rates_def NeedToUpdateCalcDebugResult_def)

lemma delegation_loop_rates:
  assumes "\<not> NeedToUpdateCalcDebugResult ctx" "\<not> NeedToUpdateCalcDebugResult ctx'"
  shows "delegation_loop dg s e addr gvs (acc, ctx') = map_option (\<lambda>(r, _). (r, ctx')) (delegation_loop dg s e addr gvs (acc, ctx))"
  by (induction gvs arbitrary: acc) (simp_all add: Let_def WriteBeta3Info_def assms)

lemma iscore_loop_rates:
  assumes "\<not> NeedToUpdateCalcDebugResult ctx" "same_rates ctx ctx'"
  shows "iscore_loop ia h dgs (acc, ctx') = map_option (\<lambda>(r, _). (r, ctx')) (iscore_loop ia h dgs (acc, ctx))"
proof (induction dgs arbitrary: acc)
  case (Cons d dgs)
  have n: "\<not> NeedToUpdateCalcDebugResult ctx'" using assms same_rates_Need by blast
  have e: "calculateDelegationReward ctx' dg s e p a =
      map_option (\<lambda>(r, _). (r, ctx')) (calculateDelegationReward ctx dg s e p a)" for dg s e p a
    using assms(2) delegation_loop_rates [OF assms(1) n]
    by (simp add: calculateDelegationReward_def Let_def same_rates_def)
  have k: "calculateDelegationReward ctx dg s e p a = Some (r, c) \<Longrightarrow> c = ctx" for dg s e p a r c
    unfolding calculateDelegationReward_def Let_def
    by (drule trans [OF delegation_loop_rates [OF assms(1) assms(1), symmetric]]) auto
  show ?case
    using assms(2) Cons.IH by (cases d) (auto simp: e same_rates_def split: option.splits dest: k)
qed simp

lemma calculateIScore_rates:
  assumes "\<not> NeedToUpdateCalcDebugResult ctx" "same_rates ctx ctx'"
  shows "calculateIScore ctx' ia h = map_option (\<lambda>(r, ia', _). (r, ia', ctx')) (calculateIScore ctx ia h)"
  unfolding calculateIScore_def Let_def iscore_loop_rates [OF assms] by (auto split: option.split)

lemma calculateIScore_ctx:
  assumes "\<not> NeedToUpdateCalcDebugResult ctx" "calculateIScore ctx ia h = Some (r, ia', c)"
  shows "c = ctx"
  using calculateIScore_rates [OF assms(1) same_rates_refl, of ia h] assms(2) by simp

lemma load_shard_fields [simp]:
  "sh_db (load_shard db ctx st) = db" "sh_ctx (load_shard db ctx st) = ctx" "sh_stats (load_shard db ctx st) = sh_stats st"
  "load_shard db ctx (load_shard db' ctx' st) = load_shard db ctx st" "load_shard (sh_db st) (sh_ctx st) st = st"
  by (simp_all add: load_shard_def)

lemma calculateDB_loop_split:
  "calculateDB_loop quit h b k (e # es) st =
     (case calculateDB_loop quit h b k [e] st of
        None \<Rightarrow> None
      | Some (Finished, st') \<Rightarrow> calculateDB_loop quit h b (Suc k) es st'
      | Some (end, st') \<Rightarrow> Some (end, st'))"
  by (cases e) (auto simp: Let_def split: option.split sum.split)

lemma calculateDB_entry_rates:
  assumes "\<not> NeedToUpdateCalcDebugResult (sh_ctx st)" "same_rates (sh_ctx st) ctx'"
  shows "calculateDB_loop quit h b k [e] (st\<lparr>sh_ctx := ctx'\<rparr>) =
    map_option (\<lambda>(e, s). (e, s\<lparr>sh_ctx := ctx'\<rparr>)) (calculateDB_loop quit h b k [e] st)"
  using calculateIScore_ctx [OF assms(1)]
  by (cases e) (auto simp: Let_def calculateIScore_rates [OF assms] split: option.split sum.split)

lemma calculateDB_entry_ctx:
  assumes "\<not> NeedToUpdateCalcDebugResult (sh_ctx st)" "calculateDB_loop quit h b k [e] st = Some (r, st')"
  shows "sh_ctx st' = sh_ctx st"
  using arg_cong [where f = sh_ctx] calculateDB_entry_rates [OF assms(1) same_rates_refl, of quit h b k e] assms(2)
  by fastforce

lemma calculateDB_loop_rates:
  assumes "\<not> NeedToUpdateCalcDebugResult (sh_ctx st)" "same_rates (sh_ctx st) ctx'"
  shows "calculateDB_loop quit h b k es (st\<lparr>sh_ctx := ctx'\<rparr>) =
    map_option (\<lambda>(e, s). (e, s\<lparr>sh_ctx := ctx'\<rparr>)) (calculateDB_loop quit h b k es st)"
  using assms
proof (induction es arbitrary: k st)
  case (Cons p es)
  show ?case
    using Cons.IH calculateDB_entry_ctx [OF Cons.prems(1), of quit h b k p] Cons.prems
    unfolding calculateDB_loop_split [of _ _ _ _ p es] calculateDB_entry_rates [OF Cons.prems]
    by (auto split: option.split shard_end.split)
qed simp

text \<open>What a shard returns when its loop has ended.\<close>

definition shard_outcome ::
    "(bytes \<Rightarrow> bytes) \<Rightarrow> (shard_end \<times> shard_state) option \<Rightarrow> (Statistics \<times> bytes option \<times> obj kv) option" where
  "shard_outcome shake r =
     (case r of
        None \<Rightarrow> None
      | Some (Finished, st) \<Rightarrow>
          Some (sh_stats st, Some (if 0 < sh_count st then shake (sh_hash st) else replicate 64 0),
                Batch_Write (sh_db st) (sh_batch st))
      | Some (_, st) \<Rightarrow> Some (sh_stats st, None, sh_db st))"

definition shard_result :: "shard_run \<Rightarrow> Context \<Rightarrow> nat \<Rightarrow> (Statistics \<times> bytes option \<times> obj kv) option" where
  "shard_result R ctx i =
     map_option (\<lambda>(_, st, hash, db, _). (st, hash, db))
       (calculateDB (rn_shake R) (rn_quits R i) (calcdb ctx (rn_read R ! i)) (calcdb ctx (rn_write R ! i)) ctx
          (rn_height R) writeBatchCount)"

lemma writeBatchCount_pos: "0 < writeBatchCount"
  by (simp add: writeBatchCount_def)

lemma calculateDB_outcome:
  "map_option (\<lambda>(_, st, hash, db, _). (st, hash, db)) (calculateDB shake quit rdb wdb ctx h writeBatchCount) =
   shard_outcome shake
     (calculateDB_loop quit h writeBatchCount 0 (Iterator_New rdb None None) (load_shard wdb ctx (fresh_shard [] ctx)))"
  using writeBatchCount_pos
  by (simp add: calculateDB_def shard_outcome_def load_shard_def fresh_shard_def split: option.split shard_end.split)

lemma shard_outcome_rates:
  "shard_outcome shake (map_option (\<lambda>(e, s). (e, s\<lparr>sh_ctx := c\<rparr>)) r) = shard_outcome shake r"
  by (auto simp: shard_outcome_def split: option.split shard_end.split)

lemma load_shard_rates:
  assumes "\<not> NeedToUpdateCalcDebugResult ctx" "same_rates ctx ctx'"
  shows "calculateDB_loop quit h b k es (load_shard db ctx' st) =
    map_option (\<lambda>(e, s). (e, s\<lparr>sh_ctx := ctx'\<rparr>)) (calculateDB_loop quit h b k es (load_shard db ctx st))"
  using calculateDB_loop_rates [of "load_shard db ctx st" ctx' quit h b k es] assms by (simp add: load_shard_def)

text \<open>Each shard of the sequential run computes what it computes alone, on the initial context.\<close>

lemma shard_result_rates:
  assumes "\<not> NeedToUpdateCalcDebugResult ctx" "same_rates ctx ctx'"
    and "calcdb ctx' (rn_read R ! i) = calcdb ctx (rn_read R ! i)" "calcdb ctx' (rn_write R ! i) = calcdb ctx (rn_write R ! i)"
  shows "shard_result R ctx' i = shard_result R ctx i"
proof -
  have "fresh_shard [] ctx' = (fresh_shard [] ctx)\<lparr>sh_ctx := ctx'\<rparr>" by (simp add: fresh_shard_def)
  then have "load_shard db ctx' (fresh_shard [] ctx') = load_shard db ctx' (fresh_shard [] ctx)" for db
    by (simp add: load_shard_def)
  then show ?thesis
    unfolding shard_result_def calculateDB_outcome assms(3,4) by (simp add: load_shard_rates [OF assms(1,2)] shard_outcome_rates)
qed

lemma calculateDB_ctx:
  assumes "\<not> NeedToUpdateCalcDebugResult ctx" "calculateDB shake quit rdb wdb ctx h b = Some (n, st, hash, db, c)"
  shows "c = ctx"
proof -
  have "sh_ctx st' = ctx" if "calculateDB_loop quit h b 0 es (load_shard wdb ctx s) = Some (e, st')" for es s e st'
    using arg_cong [where f = sh_ctx] load_shard_rates [OF assms(1) same_rates_refl, of quit h b 0 es wdb s] that by fastforce
  from this [of _ "fresh_shard wdb ctx"] show ?thesis
    using assms(2) by (auto simp: calculateDB_def load_shard_def fresh_shard_def split: option.splits shard_end.splits)
qed

lemma same_rates_set_calcdb [simp]: "same_rates ctx (set_calcdb n m ctx') = same_rates ctx ctx'"
  by (simp add: same_rates_def set_calcdb_def)

lemma dirs_set_calcdb_keys: "n \<in> fst ` set (dirs (DB ctx)) \<Longrightarrow> map fst (dirs (DB (set_calcdb n m ctx))) = map fst (dirs (DB ctx))"
  by (simp add: set_calcdb_def update_keys)

definition shards_apart :: "shard_run \<Rightarrow> Context \<Rightarrow> bool" where
  "shards_apart R ctx \<longleftrightarrow>
     length (rn_read R) = length (rn_write R) \<and> distinct (rn_write R) \<and> set (rn_read R) \<inter> set (rn_write R) = {} \<and>
     set (rn_write R) \<subseteq> fst ` set (dirs (DB ctx)) \<and> \<not> NeedToUpdateCalcDebugResult ctx"

lemma shards_loop_each:
  assumes "shards_apart R c0" "same_rates c0 ctx" "map fst (dirs (DB ctx)) = map fst (dirs (DB c0))"
    and "ws = drop i (rn_write R)" "\<forall>n. n \<in> set (rn_read R) \<union> set ws \<longrightarrow> calcdb ctx n = calcdb c0 n"
    and "shards_loop (rn_shake R) (rn_quits R) (rn_height R) (rn_read R) i ws ctx = Some (rs, ctx1)"
  shows "length rs = length ws \<and>
    (\<forall>j < length ws. shard_result R c0 (i + j) = Some (fst (rs ! j), snd (rs ! j), calcdb ctx1 (rn_write R ! (i + j)))) \<and>
    (\<forall>n. n \<notin> set ws \<longrightarrow> calcdb ctx1 n = calcdb ctx n) \<and> map fst (dirs (DB ctx1)) = map fst (dirs (DB c0))"
  using assms(2-)
proof (induction ws arbitrary: i ctx rs)
  case (Cons w ws)
  have i: "i < length (rn_write R)" and w: "w = rn_write R ! i" and ws: "ws = drop (Suc i) (rn_write R)"
    using Cons.prems(3) by (metis drop_eq_Nil list.distinct(1) not_le, metis hd_drop_conv_nth drop_eq_Nil list.distinct(1) list.sel(1) not_le,
        metis drop_Suc list.sel(3) tl_drop)
  have n: "\<not> NeedToUpdateCalcDebugResult ctx" "\<not> NeedToUpdateCalcDebugResult c0"
    using assms(1) same_rates_Need [OF Cons.prems(1)] by (simp_all add: shards_apart_def)
  have "distinct (drop i (rn_write R))" using assms(1) by (simp add: shards_apart_def)
  then have dw: "w \<notin> set ws" unfolding Cons.prems(3) [symmetric] by simp
  have iq: "i < length (rn_read R)" and nw: "w \<notin> set (rn_read R)" and wk: "w \<in> fst ` set (dirs (DB c0))"
    using assms(1) i by (auto simp: shards_apart_def w)
  then have ki: "w \<in> fst ` set (dirs (DB ctx))" using arg_cong [OF Cons.prems(2), of set] by simp
  obtain n st hash db c rs' where
    c: "calculateDB (rn_shake R) (rn_quits R i) (calcdb ctx (rn_read R ! i)) (calcdb ctx w) ctx (rn_height R) writeBatchCount =
      Some (n, st, hash, db, c)" and
    l: "shards_loop (rn_shake R) (rn_quits R) (rn_height R) (rn_read R) (Suc i) ws (set_calcdb w db c) = Some (rs', ctx1)" and
    rs: "rs = (st, hash) # rs'"
    using Cons.prems(5) by (auto split: if_splits option.splits)
  have c': "c = ctx" by (rule calculateDB_ctx [OF n(1) c])
  have "shard_result R ctx i = Some (st, hash, db)" by (simp add: shard_result_def w [symmetric] c)
  moreover have "shard_result R ctx i = shard_result R c0 i"
    using Cons.prems(1,4) iq n by (intro shard_result_rates) (simp_all add: w [symmetric])
  ultimately have r: "shard_result R c0 i = Some (st, hash, db)" by simp
  have rest: "length rs' = length ws \<and>
    (\<forall>j < length ws. shard_result R c0 (Suc i + j) = Some (fst (rs' ! j), snd (rs' ! j), calcdb ctx1 (rn_write R ! (Suc i + j)))) \<and>
    (\<forall>n. n \<notin> set ws \<longrightarrow> calcdb ctx1 n = calcdb (set_calcdb w db c) n) \<and> map fst (dirs (DB ctx1)) = map fst (dirs (DB c0))"
    using Cons.prems(1,2,4) nw dw ki ws by (intro Cons.IH [OF _ _ _ _ l]) (auto simp: c' dirs_set_calcdb_keys)
  show ?case
  proof (intro conjI allI impI)
    fix j assume "j < length (w # ws)"
    then show "shard_result R c0 (i + j) = Some (fst (rs ! j), snd (rs ! j), calcdb ctx1 (rn_write R ! (i + j)))"
      using r rest dw by (cases j) (auto simp: rs w [symmetric])
  qed (use rest rs in \<open>auto simp: c'\<close>)
qed simp

section \<open>Interleavings\<close>

text \<open>
  What holds of a shard at any time: what it still has to do, from what it has written so far,
  gives what it computes alone.
\<close>

fun shard_on :: "shard_run \<Rightarrow> Context \<Rightarrow> Context \<Rightarrow> nat \<Rightarrow> goroutine \<Rightarrow> bool" where
  "shard_on R ctx0 ctx i Created \<longleftrightarrow> calcdb ctx (rn_write R ! i) = calcdb ctx0 (rn_write R ! i)"
| "shard_on R ctx0 ctx i (Looping k es st) \<longleftrightarrow>
     shard_outcome (rn_shake R) (shard_work R i k es (calcdb ctx (rn_write R ! i)) ctx0 st) = shard_result R ctx0 i"
| "shard_on R ctx0 ctx i (Ended st hash) \<longleftrightarrow> shard_result R ctx0 i = Some (st, hash, calcdb ctx (rn_write R ! i))"

definition shards_inv :: "shard_run \<Rightarrow> Context \<Rightarrow> Context \<times> goroutine list \<Rightarrow> bool" where
  "shards_inv R ctx0 s \<longleftrightarrow>
     (case s of (ctx, gs) \<Rightarrow>
        length gs = length (rn_write R) \<and> same_rates ctx0 ctx \<and> map fst (dirs (DB ctx)) = map fst (dirs (DB ctx0)) \<and>
        (\<forall>n. n \<notin> set (rn_write R) \<longrightarrow> calcdb ctx n = calcdb ctx0 n) \<and>
        (\<forall>i < length gs. shard_on R ctx0 ctx i (gs ! i)))"

lemma shard_on_cong:
  "calcdb ctx' (rn_write R ! i) = calcdb ctx (rn_write R ! i) \<Longrightarrow> shard_on R c0 ctx' i g = shard_on R c0 ctx i g"
  by (cases g) simp_all

lemma shards_inv_write:
  assumes "shards_apart R c0" "shards_inv R c0 (ctx, gs)" "i < length gs"
    and "shard_on R c0 (set_calcdb (rn_write R ! i) db ctx) i g"
  shows "shards_inv R c0 (set_calcdb (rn_write R ! i) db ctx, gs[i := g])"
proof -
  let ?ctx = "set_calcdb (rn_write R ! i) db ctx"
  have len: "length gs = length (rn_write R)" using assms(2) by (simp add: shards_inv_def)
  have "shard_on R c0 ?ctx j (gs[i := g] ! j)" if "j < length gs" for j
  proof (cases "j = i")
    case False
    then have "rn_write R ! j \<noteq> rn_write R ! i"
      using assms(1,3) that len by (simp add: shards_apart_def nth_eq_iff_index_eq)
    then have "shard_on R c0 ?ctx j (gs ! j) = shard_on R c0 ctx j (gs ! j)" by (intro shard_on_cong) simp
    then show ?thesis using assms(2) that False by (simp add: shards_inv_def)
  qed (use assms(3,4) in simp)
  moreover have "rn_write R ! i \<in> fst ` set (dirs (DB ctx))"
  proof -
    have "rn_write R ! i \<in> set (map fst (dirs (DB c0)))" using assms(1,3) len by (auto simp: shards_apart_def)
    moreover have "map fst (dirs (DB ctx)) = map fst (dirs (DB c0))" using assms(2) by (simp add: shards_inv_def)
    ultimately show ?thesis by (metis list.set_map)
  qed
  ultimately show ?thesis
    using assms(2,3) len by (auto simp: shards_inv_def dirs_set_calcdb_keys)
qed

lemma shard_work_split:
  assumes "shard_work R i k [e] db ctx st = Some (r, st')" "same_rates c0 ctx" "\<not> NeedToUpdateCalcDebugResult c0"
  shows "shard_work R i k (e # es) db c0 st =
      (if r = Finished then shard_work R i (Suc k) es (sh_db st') c0 st' else Some (r, st'\<lparr>sh_ctx := c0\<rparr>)) \<and> sh_ctx st' = ctx"
proof -
  have n: "\<not> NeedToUpdateCalcDebugResult ctx" using assms(2,3) same_rates_Need by blast
  have b: "same_rates ctx c0" using assms(2) by (simp add: same_rates_def)
  have "shard_work R i k [e] db c0 st = Some (r, st'\<lparr>sh_ctx := c0\<rparr>)"
    using load_shard_rates [OF n b] assms(1) by (simp add: shard_work_def)
  then have w: "calculateDB_loop (rn_quits R i) (rn_height R) writeBatchCount k [e] (load_shard db c0 st) = Some (r, st'\<lparr>sh_ctx := c0\<rparr>)"
    by (simp only: shard_work_def)
  have "shard_work R i k (e # es) db c0 st =
      (case Some (r, st'\<lparr>sh_ctx := c0\<rparr>) of
         None \<Rightarrow> None
       | Some (Finished, s) \<Rightarrow> calculateDB_loop (rn_quits R i) (rn_height R) writeBatchCount (Suc k) es s
       | Some (end, s) \<Rightarrow> Some (end, s))"
    unfolding shard_work_def calculateDB_loop_split [of _ _ _ _ e es] w ..
  moreover have "sh_ctx st' = ctx"
    using calculateDB_entry_ctx [of "load_shard db ctx st"] assms(1) n by (simp add: shard_work_def)
  moreover have "load_shard (sh_db st') c0 st' = st'\<lparr>sh_ctx := c0\<rparr>" by (simp add: load_shard_def)
  ultimately show ?thesis
    by (cases r) (simp_all add: shard_work_def)
qed

lemma shard_step_inv:
  assumes "shards_apart R c0" "shards_inv R c0 s" "shard_step R l s s'"
  shows "shards_inv R c0 s'"
  using assms(3,2)
proof (cases rule: shard_step.cases)
  case (create i gs ctx)
  have i: "i < length (rn_write R)" "i < length (rn_read R)" using create assms(1,2) by (simp_all add: shards_inv_def shards_apart_def)
  have "set (rn_read R) \<inter> set (rn_write R) = {}" using assms(1) by (simp add: shards_apart_def)
  with nth_mem [OF i(2)] have "rn_read R ! i \<notin> set (rn_write R)" by blast
  then have r: "calcdb ctx (rn_read R ! i) = calcdb c0 (rn_read R ! i)" using create assms(2) by (simp add: shards_inv_def)
  have w: "calcdb ctx (rn_write R ! i) = calcdb c0 (rn_write R ! i)" using create assms(2) by (auto simp: shards_inv_def)
  have "load_shard db c0 (fresh_shard [] ctx) = load_shard db c0 (fresh_shard [] c0)" for db
    by (simp add: load_shard_def fresh_shard_def)
  then have "shard_on R c0 ctx i (Looping 0 (Iterator_New (calcdb ctx (rn_read R ! i)) None None) (fresh_shard [] ctx))"
    by (simp only: shard_on.simps r w shard_work_def shard_result_def calculateDB_outcome)
  then show ?thesis using create assms(2) by (auto simp: shards_inv_def nth_list_update)
next
  case (entry i gs k e es st ctx st')
  have on: "shard_on R c0 ctx i (gs ! i)" and sr: "same_rates c0 ctx" using entry assms(2) by (auto simp: shards_inv_def)
  have n: "\<not> NeedToUpdateCalcDebugResult c0" using assms(1) by (simp add: shards_apart_def)
  note sp = shard_work_split [OF entry(6) sr n, of es]
  show ?thesis
    unfolding entry(3) using sp on assms(2) entry(1,2,4,5) by (simp, intro shards_inv_write [OF assms(1)]) simp_all
next
  case (stop i gs k e es st ctx r st')
  have on: "shard_on R c0 ctx i (gs ! i)" and sr: "same_rates c0 ctx" using stop assms(2) by (auto simp: shards_inv_def)
  have n: "\<not> NeedToUpdateCalcDebugResult c0" using assms(1) by (simp add: shards_apart_def)
  note sp = shard_work_split [OF stop(6) sr n, of es]
  have "shard_result R c0 i = Some (sh_stats st', None, sh_db st')"
    using sp on stop by (simp add: shard_outcome_def split: shard_end.splits)
  then show ?thesis
    unfolding stop(3) using sp assms(2) stop(1,2,4,5) by (simp, intro shards_inv_write [OF assms(1)]) simp_all
next
  case (finish i gs k st ctx)
  have on: "shard_on R c0 ctx i (gs ! i)" using finish assms(2) by (auto simp: shards_inv_def)
  show ?thesis
    unfolding finish(3) using on assms(2) finish(1,2,4,5)
    by (intro shards_inv_write [OF assms(1)]) (auto simp: shard_work_def shard_outcome_def load_shard_def split: if_splits)
next
  case (other ctx ctx' gs)
  have e: "calcdb ctx' n = calcdb ctx n" for n using other by (simp add: other_step_def calcdb_def)
  have "shard_on R c0 ctx' i g = shard_on R c0 ctx i g" for i g using e by (intro shard_on_cong) simp
  then show ?thesis using other assms(2) by (simp add: shards_inv_def other_step_def same_rates_def e)
qed

lemma shards_inv_start:
  "shards_inv R ctx (ctx, replicate (length (rn_write R)) Created)"
  by (simp add: shards_inv_def)

lemma shards_inv_reached:
  assumes "shards_apart R c0" "(any_step R)\<^sup>*\<^sup>* (c0, replicate (length (rn_write R)) Created) s"
  shows "shards_inv R c0 s"
  using assms(2) by (induction rule: rtranclp_induct) (auto simp: any_step_def shards_inv_start intro: shard_step_inv [OF assms(1)])

text \<open>As long as a shard has not ended, it can take a step, and each of its steps is one less to take.\<close>

lemma shards_progress:
  assumes "shards_inv R c0 (ctx, gs)" "i < length gs" "result_of (gs ! i) = None" "shard_result R c0 i \<noteq> None"
    and "\<not> NeedToUpdateCalcDebugResult c0"
  shows "\<exists>s. shard_step R (Some i) (ctx, gs) s"
proof (cases "gs ! i")
  case (Looping k es st)
  show ?thesis
  proof (cases es)
    case (Cons e es')
    have on: "shard_outcome (rn_shake R) (shard_work R i k (e # es') (calcdb ctx (rn_write R ! i)) c0 st) \<noteq> None"
      and sr: "same_rates c0 ctx"
      using assms(1,2,4) Looping Cons by (auto simp: shards_inv_def)
    have "shard_work R i k [e] (calcdb ctx (rn_write R ! i)) c0 st \<noteq> None"
      using on unfolding shard_work_def calculateDB_loop_split [of _ _ _ _ e es'] shard_outcome_def by (rule contrapos_nn) simp
    then have "shard_work R i k [e] (calcdb ctx (rn_write R ! i)) ctx st \<noteq> None"
      using load_shard_rates [OF assms(5) sr] by (auto simp: shard_work_def)
    then obtain r st' where w: "shard_work R i k [e] (calcdb ctx (rn_write R ! i)) ctx st = Some (r, st')" by auto
    have g: "gs ! i = Looping k (e # es') st" using Looping Cons by simp
    show ?thesis
    proof (cases "r = Finished")
      case True
      then show ?thesis using shard_step.entry [OF assms(2) g] w by blast
    next
      case False
      then show ?thesis using shard_step.stop [OF assms(2) g w] by blast
    qed
  qed (use shard_step.finish [OF assms(2)] Looping in blast)
next
  case Created
  then show ?thesis using shard_step.create [OF assms(2)] by blast
qed (use assms(3) in simp)

lemma all_work_left_step:
  assumes "set (rn_read R) \<inter> set (rn_write R) = {}" "length (rn_read R) = length (rn_write R)" "length gs = length (rn_write R)"
    and "i < length gs" "work_left (calcdb ctx (rn_read R ! i)) g < work_left (calcdb ctx (rn_read R ! i)) (gs ! i)"
    and "ctx' = ctx \<or> ctx' = set_calcdb (rn_write R ! i) db ctx"
  shows "all_work_left R (ctx', gs[i := g]) < all_work_left R (ctx, gs)"
proof -
  have r: "calcdb ctx' (rn_read R ! j) = calcdb ctx (rn_read R ! j)" if "j < length gs" for j
  proof -
    have "rn_read R ! j \<in> set (rn_read R)" "rn_write R ! i \<in> set (rn_write R)" using that assms(2,3,4) by auto
    then have "rn_read R ! j \<noteq> rn_write R ! i" using assms(1) by fastforce
    then show ?thesis using assms(6) by auto
  qed
  show ?thesis
    unfolding all_work_left_def using assms(4,5)
    by (auto simp: r nth_list_update intro!: sum_strict_mono_ex1)
qed

lemma shard_step_work:
  assumes "shards_apart R c0" "shards_inv R c0 s" "shard_step R (Some i) s s'"
  shows "all_work_left R s' < all_work_left R s"
proof -
  have r: "set (rn_read R) \<inter> set (rn_write R) = {}" "length (rn_read R) = length (rn_write R)" "length (snd s) = length (rn_write R)"
    using assms(1,2) by (auto simp: shards_apart_def shards_inv_def)
  have n: "\<not> NeedToUpdateCalcDebugResult c0" "same_rates c0 (fst s)"
    using assms(1,2) by (auto simp: shards_apart_def shards_inv_def)
  note less = all_work_left_step [OF r(1,2)]
  show ?thesis
    using assms(3)
  proof (cases rule: shard_step.cases)
    case (create gs ctx)
    show ?thesis unfolding create(1,2) by (rule less) (use r(3) create in \<open>auto simp: Iterator_New_def\<close>)
  next
    case (entry gs k e es st ctx st')
    have "sh_ctx st' = ctx" using shard_work_split [OF entry(5), of c0 "[]"] n entry(1) by simp
    then show ?thesis unfolding entry(1,2) by (intro less) (use r(3) entry in auto)
  next
    case (stop gs k e es st ctx r' st')
    have "sh_ctx st' = ctx" using shard_work_split [OF stop(5), of c0 "[]"] n stop(1) by simp
    then show ?thesis unfolding stop(1,2) by (intro less) (use r(3) stop in auto)
  next
    case (finish gs k st ctx)
    show ?thesis unfolding finish(1,2) by (rule less) (use r(3) finish in auto)
  qed
qed

text \<open>The handlers of blocks and claims that run meanwhile take such steps; queries change nothing.\<close>

lemma DoClaim_other: "DoClaim ctx req = Some (r, ctx') \<Longrightarrow> other_step ctx ctx'"
  by (auto simp: DoClaim_def Let_def other_step_def set_preCommit_def
      split: option.splits if_splits sum.splits prod.splits bool.splits)

lemma DoCommitClaim_other: "other_step ctx (DoCommitClaim ctx req)"
  by (auto simp: DoCommitClaim_def Let_def other_step_def set_preCommit_def split: sum.split)

lemma do_startBlock_other: "other_step ctx (do_startBlock ctx h b)"
  by (simp add: do_startBlock_def other_step_def set_preCommit_def)

lemma do_commitBlock_other: "do_commitBlock ctx req = Some (r, ctx') \<Longrightarrow> other_step ctx ctx'"
  by (auto simp: do_commitBlock_def Let_def other_step_def setCurrentBlockInfo_def writeToDB_def set_preCommit_def
      split: option.splits if_splits)

section \<open>The schedule makes no difference\<close>

lemma dirs_eqI:
  fixes ds :: "(dirname \<times> 'v kv) list"
  assumes "map fst ds = map fst ds'" "distinct (map fst ds)" "\<And>n. disk_read ds n = disk_read ds' n"
  shows "ds = ds'"
proof -
  have each: "xs = map (\<lambda>k. (k, disk_read xs k)) (map fst xs)" if "distinct (map fst xs)" for xs :: "(dirname \<times> (bytes \<times> 'v) list) list"
  proof (rule nth_equalityI)
    fix i assume i: "i < length xs"
    then have "map_of xs (fst (xs ! i)) = Some (snd (xs ! i))" using that by (intro map_of_is_SomeI) simp_all
    with i show "xs ! i = map (\<lambda>k. (k, disk_read xs k)) (map fst xs) ! i" by (simp add: disk_read_def)
  qed simp
  have "ds = map (\<lambda>k. (k, disk_read ds k)) (map fst ds)" using assms(2) by (rule each)
  also have "\<dots> = map (\<lambda>k. (k, disk_read ds' k)) (map fst ds')" unfolding assms(1,3) ..
  also have "\<dots> = ds'" using assms(1,2) by (intro each [symmetric]) simp
  finally show ?thesis .
qed

lemma shards_apart_ok:
  assumes "idb_ok (DB ctx)" "\<not> NeedToUpdateCalcDebugResult ctx"
    and "rn_read R = getQueryDBList (DB ctx)" "rn_write R = GetCalcDBList (DB ctx)"
  shows "shards_apart R ctx"
proof -
  have "map_of (dirs (DB ctx)) n \<noteq> None" if "n \<in> set (rn_write R)" for n
    using assms(1,4) that by (auto simp: idb_ok_def idb_ok_lists calc_postfix_def split: if_splits)
  then have "set (rn_write R) \<subseteq> fst ` set (dirs (DB ctx))" by (auto simp: map_of_eq_None_iff)
  moreover have "distinct (account_names (DB ctx) p)" for p
    by (auto simp: account_names_def distinct_map inj_on_def)
  ultimately show ?thesis
    using assms account_names_disjoint [OF postfix_neq(1)]
    by (simp add: shards_apart_def idb_ok_lists)
qed

lemma same_results:
  assumes "\<And>i. i < length gs \<Longrightarrow> result_of (gs ! i) = Some (rs ! i)" "length rs = length gs"
  shows "map result_of gs = map Some rs"
  using assms by (auto intro: nth_equalityI)

text \<open>
  C4: The shards of a calculation may run in any order, step by step, with steps of the other
  handlers in between: when all have ended, each has returned the statistics and the hash it
  returns when they run one after the other, and the databases are the same. Until then some
  shard can go on, and none goes on for ever.
\<close>

theorem shards_any_order:
  assumes "idb_ok (DB ctx)" "\<not> NeedToUpdateCalcDebugResult ctx"
    and "R = \<lparr>rn_shake = shake, rn_quits = quits, rn_height = h, rn_read = getQueryDBList (DB ctx), rn_write = GetCalcDBList (DB ctx)\<rparr>"
    and "shards_loop shake quits h (getQueryDBList (DB ctx)) 0 (GetCalcDBList (DB ctx)) ctx = Some (rs, ctx1)"
    and "(any_step R)\<^sup>*\<^sup>* (ctx, replicate (length (GetCalcDBList (DB ctx))) Created) (ctx', gs)"
  shows "(if \<exists>i < length gs. result_of (gs ! i) = None
          then \<exists>i s. shard_step R (Some i) (ctx', gs) s
          else map result_of gs = map Some rs \<and> dirs (DB ctx') = dirs (DB ctx1)) \<and>
         (\<forall>i s. shard_step R (Some i) (ctx', gs) s \<longrightarrow> all_work_left R s < all_work_left R (ctx', gs))"
proof -
  have R: "rn_read R = getQueryDBList (DB ctx)" "rn_write R = GetCalcDBList (DB ctx)" by (simp_all add: assms(3))
  have apart: "shards_apart R ctx" using assms(1,2) R by (rule shards_apart_ok)
  have inv: "shards_inv R ctx (ctx', gs)" using assms(5) by (intro shards_inv_reached [OF apart]) (simp add: R)
  then have len: "length gs = length (rn_write R)"
    and on: "i < length gs \<Longrightarrow> shard_on R ctx ctx' i (gs ! i)"
    and outside: "n \<notin> set (rn_write R) \<Longrightarrow> calcdb ctx' n = calcdb ctx n"
    and keys: "map fst (dirs (DB ctx')) = map fst (dirs (DB ctx))" for i n
    by (simp_all add: shards_inv_def)
  have "length rs = length (rn_write R) \<and>
    (\<forall>j < length (rn_write R). shard_result R ctx (0 + j) = Some (fst (rs ! j), snd (rs ! j), calcdb ctx1 (rn_write R ! (0 + j)))) \<and>
    (\<forall>n. n \<notin> set (rn_write R) \<longrightarrow> calcdb ctx1 n = calcdb ctx n) \<and> map fst (dirs (DB ctx1)) = map fst (dirs (DB ctx))"
    by (rule shards_loop_each [OF apart, where ctx = ctx]) (use assms(4) in \<open>simp_all add: assms(3)\<close>)
  then have seq: "length rs = length gs" "map fst (dirs (DB ctx1)) = map fst (dirs (DB ctx))"
    and each: "i < length gs \<Longrightarrow> shard_result R ctx i = Some (fst (rs ! i), snd (rs ! i), calcdb ctx1 (rn_write R ! i))"
    and outside1: "n \<notin> set (rn_write R) \<Longrightarrow> calcdb ctx1 n = calcdb ctx n" for i n
    by (simp_all add: len)
  have "\<exists>i s. shard_step R (Some i) (ctx', gs) s" if "i < length gs" "result_of (gs ! i) = None" for i
    using shards_progress [OF inv that _ assms(2)] each that(1) by blast
  moreover have "map result_of gs = map Some rs \<and> dirs (DB ctx') = dirs (DB ctx1)"
    if ended: "\<forall>i < length gs. result_of (gs ! i) \<noteq> None"
  proof -
    have end_of: "result_of (gs ! i) = Some (rs ! i) \<and> calcdb ctx' (rn_write R ! i) = calcdb ctx1 (rn_write R ! i)"
      if "i < length gs" for i
      using ended that on [OF that] each [OF that] by (cases "gs ! i") auto
    then have "calcdb ctx' n = calcdb ctx1 n" for n
      using outside outside1 len by (cases "n \<in> set (rn_write R)") (auto simp: in_set_conv_nth)
    then have "dirs (DB ctx') = dirs (DB ctx1)"
      using assms(1) by (intro dirs_eqI) (simp_all add: keys seq(2) idb_ok_def calcdb_def)
    then show ?thesis using same_results end_of seq(1) by blast
  qed
  moreover have "all_work_left R s < all_work_left R (ctx', gs)" if "shard_step R (Some i) (ctx', gs) s" for i s
    using shard_step_work [OF apart inv that] .
  ultimately show ?thesis by auto
qed

text \<open>An account of the first query database is rewarded; the shards alternate.\<close>

definition ex_shards_ctx :: Context where
  "ex_shards_ctx = ex_calc_ctx\<lparr>DB := toggleAccountDB 21 (DB ex_calc_ctx)\<rparr>"

definition ex_shards_run :: shard_run where
  "ex_shards_run = \<lparr>rn_shake = \<lambda>b. b, rn_quits = \<lambda>_ _. False, rn_height = 20,
     rn_read = getQueryDBList (DB ex_shards_ctx), rn_write = GetCalcDBList (DB ex_shards_ctx)\<rparr>"

definition ex_entry_end :: shard_state where
  "ex_entry_end = snd (the (shard_work ex_shards_run 0 0 [(ex_addr, IScoreAccount_Bytes ex_account)] [] ex_shards_ctx
     (fresh_shard [] ex_shards_ctx)))"

lemma ex_shards_ctx_simps:
  "getQueryDBList (DB ex_shards_ctx) = [CalcDir 1 2 1, CalcDir 2 2 1]"
  "GetCalcDBList (DB ex_shards_ctx) = [CalcDir 1 2 0, CalcDir 2 2 0]"
  "calcdb ex_shards_ctx (CalcDir 1 2 1) = [(ex_addr, IScoreAccount_Bytes ex_account)]"
  "calcdb ex_shards_ctx (CalcDir 1 2 0) = []" "calcdb ex_shards_ctx (CalcDir 2 2 0) = []" "calcdb ex_shards_ctx (CalcDir 2 2 1) = []"
  "\<not> NeedToUpdateCalcDebugResult ex_shards_ctx" "idb_ok (DB ex_shards_ctx)"
  by (simp_all add: ex_shards_ctx_def ex_calc_ctx_def ex_ctx_def ex_idb_def ex_info_def zero_DBInfo_def idb_ok_def account_names_def
      upt_conv_Cons NeedToUpdateCalcDebugResult_def InitCalcDebugConfig_def toggleAccountDB_def writeToDB_def
      GetCalcDBList_def getQueryDBList_def calcdb_def disk_read_def)

lemma ex_entry_end:
  "shard_work ex_shards_run 0 0 [(ex_addr, IScoreAccount_Bytes ex_account)] [] ex_shards_ctx (fresh_shard [] ex_shards_ctx) =
     Some (Finished, ex_entry_end)"
  "sh_ctx ex_entry_end = ex_shards_ctx" "sh_db ex_entry_end = []"
proof -
  have a: "ex_addr \<noteq> []" by (simp add: ex_addr_def)
  obtain addr where addr: "NewAddress ex_addr = Some addr" using NewAddress_returns [OF a] by blast
  have "no_nil (ex_account\<lparr>ia_Address := addr\<rparr>)" using ex_account_ok(2) by (simp add: no_nil_def)
  then obtain r ia where "calculateIScore ex_shards_ctx (ex_account\<lparr>ia_Address := addr\<rparr>) 20 = Some (r, ia, ex_shards_ctx)"
    using calculateIScore_good [OF ex_shards_ctx_simps(7)] by blast
  then have "\<exists>st'. shard_work ex_shards_run 0 0 [(ex_addr, IScoreAccount_Bytes ex_account)] [] ex_shards_ctx
      (fresh_shard [] ex_shards_ctx) = Some (Finished, st') \<and> sh_ctx st' = ex_shards_ctx \<and> sh_db st' = []"
    using addr ex_account_ok(3)
    by (simp add: shard_work_def ex_shards_run_def Let_def load_shard_def fresh_shard_def writeBatchCount_def PrefixIScore_def
        split: option.split)
  then show "shard_work ex_shards_run 0 0 [(ex_addr, IScoreAccount_Bytes ex_account)] [] ex_shards_ctx (fresh_shard [] ex_shards_ctx) =
      Some (Finished, ex_entry_end)" "sh_ctx ex_entry_end = ex_shards_ctx" "sh_db ex_entry_end = []"
    by (auto simp: ex_entry_end_def)
qed

definition ex_shards_seq :: "(Statistics \<times> bytes option) list \<times> Context" where
  "ex_shards_seq = the (shards_loop (\<lambda>b. b) (\<lambda>_ _. False) 20 (getQueryDBList (DB ex_shards_ctx)) 0
     (GetCalcDBList (DB ex_shards_ctx)) ex_shards_ctx)"

lemma ex_shards_seq:
  "shards_loop (\<lambda>b. b) (\<lambda>_ _. False) 20 (getQueryDBList (DB ex_shards_ctx)) 0 (GetCalcDBList (DB ex_shards_ctx)) ex_shards_ctx =
     Some (fst ex_shards_seq, snd ex_shards_seq)"
proof -
  have "shard_entries_ok [(ex_addr, IScoreAccount_Bytes ex_account)]" "shard_entries_ok []" "entries_good []"
    using ex_entries_ok(1) by (simp_all add: ex_calc_ctx_ok entries_good_def del: One_nat_def)
  then have "\<exists>rs ctx'. shards_loop (\<lambda>b. b) (\<lambda>_ _. False) 20 (getQueryDBList (DB ex_shards_ctx)) 0
      (GetCalcDBList (DB ex_shards_ctx)) ex_shards_ctx = Some (rs, ctx') \<and>
      (\<forall>n \<in> {CalcDir 1 2 0, CalcDir 2 2 0}. entries_good (calcdb ctx' n))"
    by (intro shards_loop_returns) (simp_all add: ex_shards_ctx_simps del: One_nat_def)
  then show ?thesis by (auto simp: ex_shards_seq_def)
qed

definition ex_shards_end :: Context where
  "ex_shards_end = set_calcdb (CalcDir 1 2 0) (Batch_Write [] (sh_batch ex_entry_end))
     (set_calcdb (CalcDir 2 2 0) [] (set_calcdb (CalcDir 1 2 0) [] ex_shards_ctx))"

definition ex_shards_ended :: "goroutine list" where
  "ex_shards_ended =
     [Ended (sh_stats ex_entry_end) (Some (if 0 < sh_count ex_entry_end then sh_hash ex_entry_end else replicate 64 0)),
      Ended zero_Statistics (Some (replicate 64 0))]"

lemma ex_shards_steps:
  "(any_step ex_shards_run)\<^sup>*\<^sup>* (ex_shards_ctx, replicate (length (GetCalcDBList (DB ex_shards_ctx))) Created)
     (ex_shards_end, ex_shards_ended)"
proof -
  let ?R = ex_shards_run and ?c = ex_shards_ctx and ?e = "[(ex_addr, IScoreAccount_Bytes ex_account)]" and ?f = "fresh_shard [] ex_shards_ctx"
  let ?c1 = "set_calcdb (CalcDir 1 2 0) [] ?c"
  let ?c2 = "set_calcdb (CalcDir 2 2 0) [] ?c1"
  have R: "rn_read ?R = [CalcDir 1 2 1, CalcDir 2 2 1]" "rn_write ?R = [CalcDir 1 2 0, CalcDir 2 2 0]" "rn_shake ?R = (\<lambda>b. b)"
    by (simp_all add: ex_shards_run_def ex_shards_ctx_simps)
  note s = R ex_shards_ctx_simps ex_shards_ctx_simps [unfolded One_nat_def] Iterator_New_def
  have 1: "shard_step ?R (Some 1) (?c, [Created, Created]) (?c, [Created, Looping 0 [] ?f])"
    using shard_step.create [of 1 "[Created, Created]" ?R ?c] by (simp add: s)
  have 2: "shard_step ?R (Some 0) (?c, [Created, Looping 0 [] ?f]) (?c, [Looping 0 ?e ?f, Looping 0 [] ?f])"
    using shard_step.create [of 0 "[Created, Looping 0 [] ?f]" ?R ?c] by (simp add: s)
  have 3: "shard_step ?R (Some 0) (?c, [Looping 0 ?e ?f, Looping 0 [] ?f]) (?c1, [Looping 1 [] ex_entry_end, Looping 0 [] ?f])"
    using shard_step.entry [of 0 "[Looping 0 ?e ?f, Looping 0 [] ?f]" 0 _ "[]" ?f ?R ?c ex_entry_end] by (simp add: s ex_entry_end)
  have 4: "shard_step ?R (Some 1) (?c1, [Looping 1 [] ex_entry_end, Looping 0 [] ?f])
      (?c2, [Looping 1 [] ex_entry_end, Ended zero_Statistics (Some (replicate 64 0))])"
    using shard_step.finish [of 1 "[Looping 1 [] ex_entry_end, Looping 0 [] ?f]" 0 ?f ?R ?c1]
    by (simp add: s fresh_shard_def Batch_Write_def)
  have 5: "shard_step ?R (Some 0) (?c2, [Looping 1 [] ex_entry_end, Ended zero_Statistics (Some (replicate 64 0))])
      (ex_shards_end, ex_shards_ended)"
    using shard_step.finish [of 0 "[Looping 1 [] ex_entry_end, Ended zero_Statistics (Some (replicate 64 0))]" 1 ex_entry_end ?R ?c2]
    by (auto simp: s ex_shards_end_def ex_shards_ended_def split: if_splits)
  have "(any_step ?R)\<^sup>*\<^sup>* (?c, [Created, Created]) (ex_shards_end, ex_shards_ended)"
    using 1 2 3 4 5 by (meson any_step_def converse_rtranclp_into_rtranclp rtranclp.rtrancl_refl)
  then show ?thesis by (simp add: s numeral_2_eq_2)
qed

theorem shards_any_order_witness:
  "map result_of ex_shards_ended = map Some (fst ex_shards_seq) \<and> dirs (DB ex_shards_end) = dirs (DB (snd ex_shards_seq))"
proof -
  have "\<not> (\<exists>i < length ex_shards_ended. result_of (ex_shards_ended ! i) = None)"
    by (auto simp: ex_shards_ended_def nth_Cons split: nat.split)
  then show ?thesis
    using shards_any_order [OF ex_shards_ctx_simps(8,7) ex_shards_run_def ex_shards_seq ex_shards_steps] by simp
qed

end
