(* ===== verification/Histories.thy ===== *)
theory Histories
  imports ServiceTheorems
begin

text \<open>
  What stays true while any other messages are handled: a claim granted in a block is not
  granted twice, and a calculation cancelled by a rollback stays on the books. Both follow one
  pattern: a case rule for what a handler may do to the context, and induction over the
  messages handled.
\<close>

section \<open>What a handler may do\<close>

lemma run_handler_ctx_cases:
  assumes "run_handler env cancel msg m = Some (e, out, m')"
  obtains (same) "mgr_ctx m' = mgr_ctx m"
  | (claim) req r where "m_Msg msg = MsgClaim" "dec_ClaimMessage (m_Data msg) = Inr req" "DoClaim (mgr_ctx m) req = Some (r, mgr_ctx m')"
  | (commitClaim) cc where "m_Msg msg = MsgCommitClaim" "dec_CommitClaim (m_Data msg) = Inr cc" "mgr_ctx m' = DoCommitClaim (mgr_ctx m) cc"
  | (startBlock) sb where "m_Msg msg = MsgStartBlock" "dec_StartBlock (m_Data msg) = Inr sb"
      "mgr_ctx m' = do_startBlock (mgr_ctx m) (sb_BlockHeight sb) (sb_BlockHash sb)"
  | (commitBlock) cb resp where "m_Msg msg = MsgCommitBlock" "dec_CommitBlock (m_Data msg) = Inr cb"
      "do_commitBlock (mgr_ctx m) cb = Some (resp, mgr_ctx m')"
  | (init) h where "m_Msg msg = MsgINIT" "fld [m_Data msg] 0 dec_u64 0 0 = Inr h" "DoInit (mgr_ctx m) h = Inr (mgr_ctx m')"
  | (calculate) req co where "m_Msg msg = MsgCalculate" "dec_CalculateRequest (m_Data msg) = Inr req"
      "DoCalculate (env_shake env) (env_order env) cancel (env_iiss env) (mgr_ctx m) req True (m_Id msg) = Some co" "mgr_ctx m' = co_ctx co"
  | (rollback) rb er where "m_Msg msg = MsgRollBack" "dec_RollBackRequest (m_Data msg) = Inr rb"
      "DoRollBack (mgr_ctx m) rb = Some (er, mgr_ctx m')"
  | (debug) req er r where "m_Msg msg = MsgDebug" "dec_DebugMessage (m_Data msg) = Inr req"
      "do_debug req (mgr_ctx m) = Some (er, r, mgr_ctx m')"
proof -
  note w = with_request_def Let_def
  have R: "run_handler env cancel msg m = Some (e, out, m')" by (rule assms)
  consider "m_Msg msg = MsgVersion" | "m_Msg msg = MsgClaim" | "m_Msg msg = MsgQuery" | "m_Msg msg = MsgCommitBlock" | "m_Msg msg = MsgCommitClaim"
    | "m_Msg msg = MsgQueryCalculateStatus" | "m_Msg msg = MsgQueryCalculateResult" | "m_Msg msg = MsgRollBack" | "m_Msg msg = MsgINIT"
    | "m_Msg msg = MsgStartBlock" | "m_Msg msg = MsgCalculate" | "m_Msg msg = MsgDebug"
    | "m_Msg msg \<notin> {MsgVersion, MsgClaim, MsgQuery, MsgCommitBlock, MsgCommitClaim, MsgQueryCalculateStatus, MsgQueryCalculateResult,
        MsgRollBack, MsgINIT, MsgStartBlock, MsgCalculate, MsgDebug}" by auto
  then show thesis
  proof cases
    case 1
    then show thesis using R by (intro same) (auto simp: run_handler_def msg_numbers handle_version_def w)
  next
    case 2
    then show thesis using R same claim
      by (auto simp: run_handler_def msg_numbers handle_claim_def w split: sum.splits option.splits)
  next
    case 3
    then show thesis using R by (intro same) (auto simp: run_handler_def msg_numbers handle_query_def w split: sum.splits option.splits)
  next
    case 4
    then show thesis using R same commitBlock
      by (auto simp: run_handler_def msg_numbers handle_commitBlock_def w split: sum.splits option.splits)
  next
    case 5
    then show thesis using R same commitClaim
      by (auto simp: run_handler_def msg_numbers handle_commitClaim_def w split: sum.splits option.splits)
  next
    case 6
    then show thesis using R by (intro same) (auto simp: run_handler_def msg_numbers handle_queryCalculateStatus_def w split: prod.splits)
  next
    case 7
    then show thesis using R
      by (intro same) (auto simp: run_handler_def msg_numbers handle_queryCalculateResult_def w split: sum.splits option.splits)
  next
    case 8
    then show thesis using R same rollback
      by (auto simp: run_handler_def msg_numbers handle_rollback_def w split: sum.splits option.splits)
  next
    case 9
    then show thesis using R same init
      by (auto simp: run_handler_def msg_numbers handle_init_def w split: sum.splits option.splits)
  next
    case 10
    then show thesis using R same startBlock
      by (auto simp: run_handler_def msg_numbers handle_startBlock_def w split: sum.splits option.splits)
  next
    case 11
    then show thesis using R same calculate
      by (auto simp: run_handler_def msg_numbers handle_calculate_def w split: sum.splits option.splits)
  next
    case 12
    then show thesis using R same debug
      by (auto simp: run_handler_def msg_numbers handle_debug_def w split: sum.splits option.splits)
  next
    case 13
    then show thesis using R by (intro same) (auto simp: run_handler_def)
  qed
qed

text \<open>Induction over the messages handled.\<close>

lemma run_handlers_inv:
  assumes "run_handlers env msgs m = Some m'" "I (mgr_ctx m)" "\<forall>x \<in> set msgs. P (snd x)"
    and "\<And>cancel msg m e out m'. P msg \<Longrightarrow> I (mgr_ctx m) \<Longrightarrow> run_handler env cancel msg m = Some (e, out, m') \<Longrightarrow> I (mgr_ctx m')"
  shows "I (mgr_ctx m')"
  using assms(1-3)
proof (induction msgs arbitrary: m)
  case (Cons x msgs)
  obtain cancel msg where x: "x = (cancel, msg)" by (cases x)
  from Cons.prems(1) obtain e out m1 where r: "run_handler env cancel msg m = Some (e, out, m1)" "run_handlers env msgs m1 = Some m'"
    unfolding x by (auto split: option.splits)
  have "I (mgr_ctx m1)" using Cons.prems by (intro assms(4) [OF _ _ r(1)]) (simp_all add: x)
  then show ?case using Cons.prems by (intro Cons.IH [OF r(2)]) simp_all
qed simp

text \<open>The claim databases of the messages that do not work on them.\<close>

lemma DoCalculate_claims:
  assumes "DoCalculate shake order cancel iiss ctx req conn msg_id = Some out"
  shows "claims (DB (co_ctx out)) = claims (DB ctx)"
  using assms
proof (cases rule: DoCalculate_cases)
  case (refused status e idb)
  then show ?thesis by (auto simp: resetCalculatingBH_def setCalculatingBH_def writeToDB_def)
next
  case (ran header gvl prl idb ctx3 err st hash ctx4)
  have c3: "claims (DB ctx3) = claims (DB ctx)"
    using same_core_fields [OF same_core_InitCalcDebugResult [OF ran(4)]] by (simp add: ran(3) info_resetAccountDB toggle_heights setCalculatingBH_def)
  have "claims (DB ctx4) = claims (DB ctx3)"
  proof (cases cancel)
    case None
    then have "calc_frame (set (GetCalcDBList (DB ctx3))) ctx3 ctx4" using run_calculation_frame ran(5) by blast
    then show ?thesis unfolding calc_frame_def by (metis IScoreDB.select_convs(4) IScoreDB.surjective IScoreDB.update_convs(7))
  next
    case (Some c)
    obtain code q where c: "c = (code, q)" by (cases c)
    then obtain rs ctx1 where s: "shards_loop (shake) q (co_height out) (getQueryDBList (DB ctx3)) 0 (GetCalcDBList (DB ctx3)) ctx3 = Some (rs, ctx1)"
      and ctx': "DB ctx4 = DB ctx1"
      using ran(5) Some by (auto simp: run_calculation_def Let_def split: option.splits)
    then have "calc_frame (set (GetCalcDBList (DB ctx3))) ctx3 ctx1" using shards_loop_frame by blast
    then show ?thesis unfolding calc_frame_def ctx' by (metis IScoreDB.select_convs(4) IScoreDB.surjective IScoreDB.update_convs(7))
  qed
  then show ?thesis
    using ran(7) c3 finish_calculation_DB [of "co_height out" st "the hash" ctx4 "co_ctx out"]
    by (cases hash) (simp_all add: setCalcDoneBH_def writeToDB_def)
qed

lemma rollbackAccountDB_claims: "rollbackAccountDB h idb = Some (e, idb') \<Longrightarrow> claims idb' = claims idb"
  by (auto simp: rollbackAccountDB_def CloseAccountDB_def OpenAccountDB_def rollbackAccountDBBlockInfo_def toggleAccountDB_def writeToDB_def
      Let_def split: prod.splits option.splits if_splits)

lemma rollbackClaimDB_preCommit:
  "rollbackClaimDB h b idb = Some (e, idb') \<Longrightarrow> preCommit_db (claims idb') = preCommit_db (claims idb)"
  by (auto simp: rollbackClaimDB_def rollbackClaimDB_core_def rollbackCurrentBlockInfo_def setCurrentBlockInfo_def writeToDB_def Let_def
      split: option.splits sum.splits prod.splits bool.splits if_splits)

lemma RollbackManagementDB_claims [simp]: "claims (DB (RollbackManagementDB h ctx)) = claims (DB ctx)"
  by (simp add: RollbackManagementDB_def split: prod.splits)

lemma DoRollBack_preCommit:
  assumes "DoRollBack ctx req = Some (e, ctx')"
  shows "preCommit_db (claims (DB ctx')) = preCommit_db (claims (DB ctx))"
proof (cases "checkRollback ctx (rb_BlockHeight req)")
  case None
  obtain e1 idb where c: "rollbackClaimDB (rb_BlockHeight req) (nonNilBytes (rb_BlockHash req)) (DB ctx) = Some (e1, idb)"
    using assms None by (auto simp: DoRollBack_def Let_def split: option.splits)
  from rollbackClaimDB_preCommit [OF c] show ?thesis
    using assms None c rollbackAccountDB_claims
    by (auto simp: DoRollBack_def Let_def split: option.splits if_splits)
qed (use assms in \<open>simp add: DoRollBack_def Let_def\<close>)

lemma do_debug_DB:
  "do_debug req ctx = Some (e, r, ctx') \<Longrightarrow> DB ctx' = DB ctx"
  by (auto simp: do_debug_def Let_def handleCalcDebugFlagOn_def handleCalcDebugFlagOff_def handleCalcDebugAddAddress_def
      handleCalcDebugDeleteAddress_def DeleteDebuggingAddress_def AddDebuggingAddress_def set_debug_flag_def upd_results_def
      upd_result_def bind_eq_Some_conv split: if_splits option.splits)

section \<open>A claim is granted once in a block\<close>

text \<open>The key of the claim of an address in a block, and a block the claim is in.\<close>

definition claim_key :: "ClaimMessage \<Rightarrow> bytes" where
  "claim_key req = bh_key (cm_BlockHeight req) @ pad32 (nonNilBytes (cm_BlockHash req)) @ cm_Address req"

text \<open>
  The messages that end the life of a pre-commit entry: a COMMIT_CLAIM of the same
  transaction that reports failure, a START_BLOCK of the block, a COMMIT_BLOCK of the height and an
  INIT below it. A request that does not decode ends nothing.
\<close>

definition ends_claim :: "ClaimMessage \<Rightarrow> message \<Rightarrow> bool" where
  "ends_claim req msg \<longleftrightarrow>
     (case dec_CommitClaim (m_Data msg) of Inl _ \<Rightarrow> False
      | Inr cc \<Rightarrow> m_Msg msg = MsgCommitClaim \<and> \<not> cc_Success cc \<and> cc_Address cc = cm_Address req \<and>
          cc_BlockHeight cc = cm_BlockHeight req \<and> pad32 (nonNilBytes (cc_BlockHash cc)) = pad32 (nonNilBytes (cm_BlockHash req)) \<and>
          cc_TXIndex cc = cm_TXIndex req) \<or>
     (case dec_StartBlock (m_Data msg) of Inl _ \<Rightarrow> False
      | Inr sb \<Rightarrow> m_Msg msg = MsgStartBlock \<and> sb_BlockHeight sb = cm_BlockHeight req) \<or>
     (case dec_CommitBlock (m_Data msg) of Inl _ \<Rightarrow> False
      | Inr cb \<Rightarrow> m_Msg msg = MsgCommitBlock \<and> cb_BlockHeight cb = cm_BlockHeight req) \<or>
     (case fld [m_Data msg] 0 dec_u64 0 0 of Inl _ \<Rightarrow> False
      | Inr h \<Rightarrow> m_Msg msg = MsgINIT \<and> h + 1 \<le> cm_BlockHeight req)"

definition claim_held :: "ClaimMessage \<Rightarrow> int \<Rightarrow> obj kv \<Rightarrow> bool" where
  "claim_held req amount db \<longleftrightarrow> preCommit_ok db \<and>
     (\<exists>c. kv_get (claim_key req) db = Some (PreCommit_Bytes ((claim_entry req amount)\<lparr>pcm_Confirmed := c\<rparr>)))"

lemma address_ok_length: "address_ok a \<Longrightarrow> length a = 21"
  by (simp add: address_ok_def size_defs)

lemma claim_held_query:
  assumes "claim_held req amount db" "address_ok (cm_Address req)"
    "pad32 hash = pad32 (nonNilBytes (cm_BlockHash req))"
  shows "\<exists>c. PreCommit_query (newPreCommit (cm_BlockHeight req) hash ti th (cm_Address req)) db =
    (True, (claim_entry req amount)\<lparr>pcm_Confirmed := c\<rparr>)"
proof -
  let ?p = "newPreCommit (cm_BlockHeight req) hash ti th (cm_Address req)"
  obtain c where c: "kv_get (claim_key req) db = Some (PreCommit_Bytes ((claim_entry req amount)\<lparr>pcm_Confirmed := c\<rparr>))"
    using assms(1) by (auto simp: claim_held_def)
  have k: "PreCommit_ID ?p = claim_key req"
    using assms by (simp add: PreCommit_ID_def GenPreCommitKey_append address_ok_length claim_key_def)
  have "PreCommit_SetBytes ?p (PreCommit_Bytes ((claim_entry req amount)\<lparr>pcm_Confirmed := c\<rparr>)) =
      Inr ((claim_entry req amount)\<lparr>pcm_Confirmed := c\<rparr>)"
    using PreCommit_SetBytes_Bytes [of "(claim_entry req amount)\<lparr>pcm_Confirmed := c\<rparr>" ?p] assms(2,3)
    by (simp add: claim_entry_def address_ok_def newPreCommit_def zero_PreCommit_def copy_at_def pad32_def size_defs)
  then show ?thesis using c by (intro exI [of _ c]) (simp add: PreCommit_query_def Bucket_Get_def k)
qed

text \<open>What the operations on the pre-commit database do to the entry.\<close>

lemma claim_held_write:
  assumes "claim_held req amount db" "address_ok a" "fst (PreCommit_query (newPreCommit h hash ti th a) db) = False"
  shows "claim_held req amount (PreCommit_write (newPreCommit h hash ti th a) db (Some x))"
proof -
  let ?p = "newPreCommit h hash ti th a"
  let ?q = "?p\<lparr>pcm_Claim := (pcm_Claim ?p)\<lparr>cl_Data := \<lparr>cd_BlockHeight = h, cd_IScore = x\<rparr>\<rparr>\<rparr>"
  have ok: "kv_ok db" using assms(1) by (simp add: claim_held_def preCommit_ok_def)
  have "kv_get (PreCommit_ID ?p) db = None"
    using assms(3) by (simp add: PreCommit_query_def Bucket_Get_def split: option.splits)
  then have "PreCommit_ID ?p \<noteq> claim_key req" using assms(1) by (auto simp: claim_held_def)
  then have "kv_get (claim_key req) (PreCommit_write ?p db (Some x)) = kv_get (claim_key req) db"
    using ok by (simp add: PreCommit_write_def Bucket_Set_def PreCommit_ID_def Let_def)
  then show ?thesis using assms(1) preCommit_ok_write [OF _ assms(2)] by (simp add: claim_held_def)
qed

lemma PreCommit_Bytes_confirm:
  "PreCommit_Bytes p = PreCommit_Bytes q \<Longrightarrow> PreCommit_Bytes (p\<lparr>pcm_Confirmed := c\<rparr>) = PreCommit_Bytes (q\<lparr>pcm_Confirmed := c\<rparr>)"
  "PreCommit_Bytes p = PreCommit_Bytes q \<Longrightarrow> pcm_TXIndex p = pcm_TXIndex q"
  by (simp_all add: PreCommit_Bytes_def enc_u64_def word_uint_eq_iff)

lemma claim_held_commit:
  assumes "claim_held req amount db" "address_ok a" "PreCommit_commit (newPreCommit h hash ti th a) db = Inr db'"
  shows "claim_held req amount db'"
proof -
  have pok: "preCommit_ok db" and ok: "kv_ok db" using assms(1) by (simp_all add: claim_held_def preCommit_ok_def)
  have ok': "preCommit_ok db'" by (rule preCommit_ok_commit [OF pok assms(2,3)])
  obtain b p where q: "PreCommit_query (newPreCommit h hash ti th a) db = (b, p)" by fastforce
  show ?thesis
  proof (cases "b \<and> ti = pcm_TXIndex p \<and> \<not> pcm_Confirmed p")
    case True
    then obtain k v where e: "pc_entry_ok k v p" "kv_get k db = Some v" "k = PreCommit_ID p"
      using PreCommit_query_ok [OF pok assms(2), of h hash ti th p] q by auto
    have db': "db' = kv_put k (PreCommit_Bytes (p\<lparr>pcm_Confirmed := True\<rparr>)) db"
      using assms(3) q True e(3) by (simp add: PreCommit_commit_def PreCommit_write_def Bucket_Set_def Let_def PreCommit_ID_def)
    obtain c where c: "kv_get (claim_key req) db = Some (PreCommit_Bytes ((claim_entry req amount)\<lparr>pcm_Confirmed := c\<rparr>))"
      using assms(1) by (auto simp: claim_held_def)
    show ?thesis
    proof (cases "k = claim_key req")
      case True
      then have "PreCommit_Bytes p = PreCommit_Bytes ((claim_entry req amount)\<lparr>pcm_Confirmed := c\<rparr>)"
        using e c by (simp add: pc_entry_ok_def)
      from PreCommit_Bytes_confirm(1) [OF this, of True] show ?thesis
        using ok' ok True by (auto simp: claim_held_def db')
    next
      case False
      then show ?thesis using ok' ok c by (auto simp: claim_held_def db')
    qed
  next
    case False
    then have "db' = db" using assms(3) q by (auto simp: PreCommit_commit_def split: bool.splits if_splits)
    then show ?thesis using assms(1) by simp
  qed
qed

lemma claim_held_revert:
  assumes "claim_held req amount db" "address_ok a" "address_ok (cm_Address req)" "PreCommit_revert (newPreCommit h hash ti th a) db = Inr db'"
    and "\<not> (a = cm_Address req \<and> h = cm_BlockHeight req \<and> pad32 hash = pad32 (nonNilBytes (cm_BlockHash req)) \<and> ti = cm_TXIndex req)"
  shows "claim_held req amount db'"
proof -
  have pok: "preCommit_ok db" and ok: "kv_ok db" using assms(1) by (simp_all add: claim_held_def preCommit_ok_def)
  have ok': "preCommit_ok db'" by (rule preCommit_ok_revert [OF pok assms(4)])
  obtain b p where q: "PreCommit_query (newPreCommit h hash ti th a) db = (b, p)" by fastforce
  show ?thesis
  proof (cases "b \<and> ti = pcm_TXIndex p \<and> \<not> pcm_Confirmed p")
    case True
    then have "PreCommit_query (newPreCommit h hash ti th a) db = (True, p)" using q by simp
    from PreCommit_query_ok [OF pok assms(2) this] obtain k v where
      e: "pc_entry_ok k v p" "kv_get k db = Some v" "k = PreCommit_ID p" "k = bh_key h @ pad32 hash @ a" by blast
    have db': "db' = kv_del k db"
      using assms(4) q True e(3) by (simp add: PreCommit_revert_def PreCommit_delete_def Bucket_Delete_def Let_def)
    obtain c where c: "kv_get (claim_key req) db = Some (PreCommit_Bytes ((claim_entry req amount)\<lparr>pcm_Confirmed := c\<rparr>))"
      using assms(1) by (auto simp: claim_held_def)
    have "k \<noteq> claim_key req"
    proof
      assume k: "k = claim_key req"
      then have "PreCommit_Bytes p = PreCommit_Bytes ((claim_entry req amount)\<lparr>pcm_Confirmed := c\<rparr>)"
        using e c by (simp add: pc_entry_ok_def)
      from PreCommit_Bytes_confirm(2) [OF this] True have "ti = cm_TXIndex req" by (simp add: claim_entry_def)
      moreover have "bh_key h @ pad32 hash @ a = bh_key (cm_BlockHeight req) @ pad32 (nonNilBytes (cm_BlockHash req)) @ cm_Address req"
        using k e(4) by (simp only: claim_key_def)
      then have "h = cm_BlockHeight req" "pad32 hash = pad32 (nonNilBytes (cm_BlockHash req))" "a = cm_Address req"
        by (simp_all add: bh_key_inject)
      ultimately show False using assms(5) by blast
    qed
    then show ?thesis using ok' ok c by (auto simp: claim_held_def db')
  next
    case False
    then have "db' = db" using assms(4) q by (auto simp: PreCommit_revert_def split: bool.splits if_splits)
    then show ?thesis using assms(1) by simp
  qed
qed

lemma take_claim_key: "take 8 (claim_key req) = bh_key (cm_BlockHeight req)"
  "take 40 (claim_key req) = bh_key (cm_BlockHeight req) @ pad32 (nonNilBytes (cm_BlockHash req))"
  by (simp_all add: claim_key_def)

lemma claim_held_flush:
  assumes "claim_held req amount db" "h \<noteq> cm_BlockHeight req"
  shows "claim_held req amount (flushPreCommit db h hash)"
proof -
  have pok: "preCommit_ok db" using assms(1) by (simp add: claim_held_def)
  have "\<not> (case hash of None \<Rightarrow> take 8 (claim_key req) = bh_key h | Some b \<Rightarrow> take 40 (claim_key req) = bh_key h @ pad32 b)"
    using assms(2) by (auto simp: take_claim_key append_eq_append_conv split: option.splits)
  then have "kv_get (claim_key req) (flushPreCommit db h hash) = kv_get (claim_key req) db"
    using flushPreCommit_get [OF preCommit_ok_keys [OF pok], of "claim_key req" h hash] by presburger
  then show ?thesis using assms(1) preCommit_ok_flush by (simp add: claim_held_def)
qed

lemma claim_held_init:
  assumes "claim_held req amount db" "\<not> h + 1 \<le> cm_BlockHeight req"
  shows "claim_held req amount (initPreCommit db h)"
proof -
  have pok: "preCommit_ok db" using assms(1) by (simp add: claim_held_def)
  have "\<not> bh_key (h + 1) \<le> claim_key req" using assms(2) by (simp add: claim_key_def bytes_le_prefix bh_key_le)
  then have "kv_get (claim_key req) (initPreCommit db h) = kv_get (claim_key req) db"
    using initPreCommit_get [OF preCommit_ok_keys [OF pok], of "claim_key req" h] by simp
  then show ?thesis using assms(1) preCommit_ok_init by (simp add: claim_held_def)
qed

lemma do_commitBlock_preCommit:
  assumes "do_commitBlock ctx cb = Some (resp, ctx')"
  shows "preCommit_db (claims (DB ctx')) \<in> {preCommit_db (claims (DB ctx)),
      flushPreCommit (preCommit_db (claims (DB ctx))) (cb_BlockHeight cb) None,
      flushPreCommit (preCommit_db (claims (DB ctx))) (cb_BlockHeight cb) (cb_BlockHash cb)}"
proof (cases "cb_Success cb")
  case True
  then obtain er dbs where w: "writePreCommitToClaimDB (claims (DB ctx)) (cb_BlockHeight cb) (cb_BlockHash cb) = Some (er, dbs)"
    using assms by (auto simp: do_commitBlock_def split: option.splits)
  then have "preCommit_db dbs \<in> {preCommit_db (claims (DB ctx)), flushPreCommit (preCommit_db (claims (DB ctx))) (cb_BlockHeight cb) None}"
    by (auto simp: writePreCommitToClaimDB_def split: prod.splits option.splits sum.splits)
  moreover have "preCommit_db (claims (DB ctx')) = preCommit_db dbs"
    using assms True w by (cases er) (auto simp: do_commitBlock_def setCurrentBlockInfo_def writeToDB_def Let_def)
  ultimately show ?thesis by auto
qed (use assms in \<open>auto simp: do_commitBlock_def\<close>)

text \<open>Every handler keeps the entry, unless its message ends it.\<close>

lemma DoClaim_writes:
  assumes "DoClaim ctx req = Some (r, ctx')"
  shows "ctx' = ctx \<or> (\<exists>x. let p = newPreCommit (cm_BlockHeight req) (nonNilBytes (cm_BlockHash req)) (cm_TXIndex req)
        (nonNilBytes (cm_TXHash req)) (cm_Address req) in
      fst (PreCommit_query p (preCommit_db (claims (DB ctx)))) = False \<and>
      ctx' = set_preCommit (PreCommit_write p (preCommit_db (claims (DB ctx))) (Some x)) ctx)"
proof -
  let ?p = "newPreCommit (cm_BlockHeight req) (nonNilBytes (cm_BlockHash req)) (cm_TXIndex req) (nonNilBytes (cm_TXHash req)) (cm_Address req)"
  obtain b q where q: "PreCommit_query ?p (preCommit_db (claims (DB ctx))) = (b, q)" by fastforce
  then show ?thesis
    using assms by (cases b) (auto simp: DoClaim_def Let_def split: option.splits sum.splits if_splits)
qed

lemma dec_address:
  "dec_ClaimMessage d = Inr r \<Longrightarrow> address_ok (cm_Address r)"
  "dec_CommitClaim d = Inr c \<Longrightarrow> address_ok (cc_Address c)"
  by (auto simp: dec_ClaimMessage_def dec_CommitClaim_def bindE_Inr dest: fld_Address_ok [OF _ zero_address_ok])

lemma claim_held_handler:
  assumes "claim_held req amount (preCommit_db (claims (DB (mgr_ctx m))))" "address_ok (cm_Address req)" "\<not> ends_claim req msg"
    and "run_handler env cancel msg m = Some (e, out, m')"
  shows "claim_held req amount (preCommit_db (claims (DB (mgr_ctx m'))))"
  using assms(4)
proof (cases rule: run_handler_ctx_cases)
  case (claim r0 r)
  then show ?thesis
    using DoClaim_writes [OF claim(3)] assms(1) claim_held_write [OF assms(1) dec_address(1) [OF claim(2)]]
    by (auto simp: Let_def)
next
  case (commitClaim cc)
  have a: "address_ok (cc_Address cc)" by (rule dec_address(2) [OF commitClaim(2)])
  have n: "cc_Success cc \<or> \<not> (cc_Address cc = cm_Address req \<and> cc_BlockHeight cc = cm_BlockHeight req \<and>
      pad32 (nonNilBytes (cc_BlockHash cc)) = pad32 (nonNilBytes (cm_BlockHash req)) \<and> cc_TXIndex cc = cm_TXIndex req)"
    using assms(3) commitClaim by (simp add: ends_claim_def)
  show ?thesis
    using commitClaim(3) assms(1) n claim_held_commit [OF assms(1) a] claim_held_revert [OF assms(1) a assms(2)]
    by (auto simp: DoCommitClaim_def Let_def split: sum.splits)
next
  case (startBlock sb)
  then have "sb_BlockHeight sb \<noteq> cm_BlockHeight req" using assms(3) by (simp add: ends_claim_def)
  then show ?thesis using startBlock(3) assms(1) claim_held_flush by (simp add: do_startBlock_def)
next
  case (commitBlock cb resp)
  then have n: "cb_BlockHeight cb \<noteq> cm_BlockHeight req" using assms(3) by (simp add: ends_claim_def)
  from do_commitBlock_preCommit [OF commitBlock(3)]
  show ?thesis using assms(1) claim_held_flush [OF assms(1) n] by auto
next
  case (init h)
  then have "\<not> h + 1 \<le> cm_BlockHeight req" using assms(3) by (simp add: ends_claim_def)
  then show ?thesis using init(3) claim_held_init [OF assms(1)] by (auto simp: DoInit_def Let_def dest!: sym [of "set_preCommit _ _"] split: if_splits)
next
  case (calculate req co)
  then show ?thesis using assms(1) DoCalculate_claims by simp
next
  case (rollback rb er)
  then show ?thesis using assms(1) DoRollBack_preCommit by simp
next
  case (debug req er r)
  then show ?thesis using assms(1) do_debug_DB by simp
qed (use assms(1) in simp)

text \<open>
  C8: within a block an address is granted at most one claim. Once a CLAIM has been granted,
  any messages may be handled (the COMMIT_CLAIM that confirms it, claims of others, other blocks
  committed, calculations, rollbacks): until the entry is ended by a COMMIT_CLAIM that reports
  the failure of the claiming transaction, by the START_BLOCK or COMMIT_BLOCK of its height or by an INIT
  below it, every further CLAIM of the same address in the same block, whatever its transaction, is
  answered with the height of the block and no amount and changes nothing. And the
  COMMIT_CLAIM that reports failure takes the grant back completely: right after the CLAIM it
  gives the context of before.
\<close>

theorem claim_once_per_block:
  assumes "DoClaim ctx req = Some ((h, Some amount), mgr_ctx m)" "address_ok (cm_Address req)"
    and "preCommit_ok (preCommit_db (claims (DB ctx)))"
    and "run_handlers env msgs m = Some m'" "\<forall>x \<in> set msgs. \<not> ends_claim req (snd x)"
  shows "DoClaim (mgr_ctx m') (req\<lparr>cm_TXIndex := ti, cm_TXHash := th\<rparr>) = Some ((cm_BlockHeight req, None), mgr_ctx m') \<and>
    DoCommitClaim (mgr_ctx m) \<lparr>cc_Success = False, cc_Address = cm_Address req, cc_BlockHeight = cm_BlockHeight req,
           cc_BlockHash = cm_BlockHash req, cc_TXIndex = cm_TXIndex req, cc_TXHash = th'\<rparr> = ctx"
proof
  note g = DoClaim_granted [OF assms(1)]
  have kv: "kv_ok (preCommit_db (claims (DB ctx)))" using assms(3) by (simp add: preCommit_ok_def)
  have k: "PreCommit_ID (claim_entry req amount) = claim_key req" using claim_entry_key [OF assms(2)] by (simp add: claim_key_def)
  have nc: "(claim_entry req amount)\<lparr>pcm_Confirmed := False\<rparr> = claim_entry req amount" by (simp add: claim_entry_def newPreCommit_def zero_PreCommit_def)
  let ?db = "kv_put (claim_key req) (PreCommit_Bytes (claim_entry req amount)) (preCommit_db (claims (DB ctx)))"
  have ctx: "mgr_ctx m = set_preCommit ?db ctx" using g(2) by (simp add: Bucket_Set_def k)
  have "preCommit_ok ?db"
    unfolding claim_key_def by (rule preCommit_ok_put [OF assms(3) claim_entry_ok [OF assms(2), of _ amount]]) simp
  then have "claim_held req amount (preCommit_db (claims (DB (mgr_ctx m))))"
    using kv nc by (auto simp: claim_held_def ctx intro!: exI [of _ False])
  from run_handlers_inv [where I = "\<lambda>c. claim_held req amount (preCommit_db (claims (DB c)))" and P = "\<lambda>msg. \<not> ends_claim req msg",
      OF assms(4) this assms(5)] claim_held_handler [OF _ assms(2)]
  have "claim_held req amount (preCommit_db (claims (DB (mgr_ctx m'))))" by blast
  from claim_held_query [OF this assms(2) HOL.refl] obtain c where
    "PreCommit_query (newPreCommit (cm_BlockHeight req) (nonNilBytes (cm_BlockHash req)) ti (nonNilBytes th) (cm_Address req))
      (preCommit_db (claims (DB (mgr_ctx m')))) = (True, (claim_entry req amount)\<lparr>pcm_Confirmed := c\<rparr>)" by blast
  then show "DoClaim (mgr_ctx m') (req\<lparr>cm_TXIndex := ti, cm_TXHash := th\<rparr>) = Some ((cm_BlockHeight req, None), mgr_ctx m')"
    by (simp add: DoClaim_def Let_def claim_entry_def)
  have e: "pcm_TXIndex (claim_entry req amount) = cm_TXIndex req" "\<not> pcm_Confirmed (claim_entry req amount)"
    by (simp_all add: claim_entry_def)
  show "DoCommitClaim (mgr_ctx m) \<lparr>cc_Success = False, cc_Address = cm_Address req, cc_BlockHeight = cm_BlockHeight req,
           cc_BlockHash = cm_BlockHash req, cc_TXIndex = cm_TXIndex req, cc_TXHash = th'\<rparr> = ctx"
    unfolding g(2) using assms(2) kv g(3) e
    by (simp add: DoCommitClaim_def Let_def PreCommit_revert_def query_claim_entry PreCommit_delete_def
        Bucket_Delete_def Bucket_Set_def Bucket_Get_def kv_del_put_fresh)
qed

section \<open>A cancelled calculation\<close>

lemma DoRollBack_info:
  assumes "DoRollBack ctx req = Some (err, ctx')" "getCalcDoneBH (DB ctx) < rb_BlockHeight req"
  shows "Calculating (info (DB ctx')) = Calculating (info (DB ctx)) \<and> CalcDone (info (DB ctx')) = CalcDone (info (DB ctx)) \<and>
    PrevCalcDone (info (DB ctx')) = PrevCalcDone (info (DB ctx))"
  using assms
  by (auto simp: DoRollBack_def rollbackClaimDB_def checkAccountDBRollback_def RollbackManagementDB_def rollbackCurrentBlockInfo_def
      setCurrentBlockInfo_def writeToDB_def getCalcDoneBH_def Let_def split: option.splits sum.splits prod.splits bool.splits if_splits)

lemma DoRollBack_returns:
  assumes "getCalcDoneBH (DB ctx) < rb_BlockHeight req"
  shows "\<exists>err ctx'. DoRollBack ctx req = Some (err, ctx')"
proof -
  let ?h = "rb_BlockHeight req"
  have nz: "?h \<noteq> 0" using assms by auto
  have "rollbackClaimDB_core (claims (DB ctx)) ?h \<noteq> None"
    unfolding rollbackClaimDB_core_def Let_def if_not_P [OF nz] by (simp split: prod.split bool.split option.split)
  then have "rollbackClaimDB ?h (nonNilBytes (rb_BlockHash req)) (DB ctx) \<noteq> None"
    unfolding rollbackClaimDB_def by (simp split: option.split sum.split prod.split bool.split)
  then obtain e idb where c: "rollbackClaimDB ?h (nonNilBytes (rb_BlockHash req)) (DB ctx) = Some (e, idb)" by auto
  then have i: "CalcDone (info idb) = CalcDone (info (DB ctx))"
    by (auto simp: rollbackClaimDB_def rollbackCurrentBlockInfo_def setCurrentBlockInfo_def writeToDB_def Let_def
        split: option.splits sum.splits prod.splits bool.splits if_splits)
  show ?thesis
    using assms c i by (cases e) (auto simp: DoRollBack_def checkAccountDBRollback_def getCalcDoneBH_def Let_def split: option.splits)
qed

lemma cancelled_info:
  assumes "DoCalculate shake order (Some (CancelRollback, quits)) iiss ctx req conn msg_id = Some out"
    and "co_err out = Some (ErrCancelRollback (co_height out))"
  shows "CalcDone (info (DB (co_ctx out))) = CalcDone (info (DB ctx)) \<and> Calculating (info (DB (co_ctx out))) = co_height out \<and>
      CalcDone (info (DB ctx)) < co_height out \<and> PrevCalcDone (info (DB (co_ctx out))) = PrevCalcDone (info (DB ctx))"
  using assms(1)
proof (cases rule: DoCalculate_cases)
  case (refused status e idb)
  then show ?thesis using assms(2) by auto
next
  case (ran header gvl prl idb ctx3 er st hash ctx4)
  have "hash = None" using assms(2) ran(7) by (cases hash) auto
  then have "info (DB (co_ctx out)) = info (DB ctx3)" using ran(7) run_calculation_fields [OF ran(5)] by simp
  then have "info (DB (co_ctx out)) = info idb"
    using same_core_fields [OF same_core_InitCalcDebugResult [OF ran(4)]] by (simp add: info_resetAccountDB)
  then show ?thesis using ran(2) by (simp add: ran(3) toggleAccountDB_def setCalculatingBH_def getCalcDoneBH_def)
qed

lemma run_cancelled:
  "run_calculation shake order None db h ctx = Some r \<Longrightarrow>
    \<exists>ctx'. run_calculation shake order (Some (CancelRollback, \<lambda>_ _. False)) db h ctx = Some (Some (ErrCancelRollback h), None, None, ctx')"
  by (auto simp: run_calculation_def notifyCancelCalculation_def CancelRollback_def CancelExit_def Let_def split: option.splits)

lemma cancelled_run:
  assumes "DoCalculate shake order None iiss ctx req conn i = Some out" "co_err out = None"
  shows "\<exists>out'. DoCalculate shake order (Some (CancelRollback, \<lambda>_ _. False)) iiss ctx req conn i = Some out' \<and>
    co_err out' = Some (ErrCancelRollback (co_height out'))"
  using assms unfolding DoCalculate_def Let_def
  by (clarsimp split: if_splits option.split_asm prod.split_asm) (drule run_cancelled, clarsimp)+

definition ex_cancelled :: calc_out where
  "ex_cancelled = the (DoCalculate (\<lambda>b. b) (\<lambda>m. m) (Some (CancelRollback, \<lambda>_ _. False)) ex_iiss ex_calc_ctx ex_request True 7)"

lemma ex_cancelled_run:
  "DoCalculate (\<lambda>b. b) (\<lambda>m. m) (Some (CancelRollback, \<lambda>_ _. False)) ex_iiss ex_calc_ctx ex_request True 7 = Some ex_cancelled"
  "co_err ex_cancelled = Some (ErrCancelRollback (co_height ex_cancelled))"
  using cancelled_run [OF ex_out_run(1,2)] by (auto simp: ex_cancelled_def)

definition ex_back :: RollBackRequest where
  "ex_back = \<lparr>rb_BlockHeight = 15, rb_BlockHash = None\<rparr>"

lemma ex_back_run: "\<exists>err ctx'. DoRollBack (co_ctx ex_cancelled) ex_back = Some (err, ctx')"
proof (rule DoRollBack_returns)
  have "getCalcDoneBH (DB (co_ctx ex_cancelled)) = 10"
    using cancelled_info [OF ex_cancelled_run] ex_calc_ctx_ok(5) by (simp add: getCalcDoneBH_def)
  then show "getCalcDoneBH (DB (co_ctx ex_cancelled)) < rb_BlockHeight ex_back" by (simp add: ex_back_def)
qed

text \<open>
  The messages that may take a calculation off the books: a ROLLBACK to a height above the last
  but one calculation and not above the last, which goes back to the one before, and the CALCULATE
  that asks for a reload.
\<close>

definition ends_calculation :: "u64 \<Rightarrow> u64 \<Rightarrow> message \<Rightarrow> bool" where
  "ends_calculation prev last_done msg \<longleftrightarrow>
     (case dec_RollBackRequest (m_Data msg) of Inl _ \<Rightarrow> False
      | Inr rb \<Rightarrow> m_Msg msg = MsgRollBack \<and> prev < rb_BlockHeight rb \<and> rb_BlockHeight rb \<le> last_done) \<or>
     (case dec_CalculateRequest (m_Data msg) of Inl _ \<Rightarrow> False
      | Inr req \<Rightarrow> m_Msg msg = MsgCalculate \<and> isReloadRequest (cq_BlockHeight req) (m_Id msg))"

definition doing :: "u64 \<Rightarrow> u64 \<Rightarrow> u64 \<Rightarrow> Context \<Rightarrow> bool" where
  "doing prev last_done h ctx \<longleftrightarrow> last_done < h \<and> PrevCalcDone (info (DB ctx)) = prev \<and> CalcDone (info (DB ctx)) = last_done \<and>
     Calculating (info (DB ctx)) = h"

lemma doing_refuses:
  assumes "doing prev last_done h ctx" "\<not> isReloadRequest (cq_BlockHeight req) msg_id"
  shows "DoCalculate shake order cancel iiss ctx req conn msg_id =
    Some \<lparr>co_err = Some ErrCalculating, co_height = cq_BlockHeight req, co_stats = None, co_hash = None,
      co_acks = (if conn then [(CalcRespStatusDoing, cq_BlockHeight req)] else []), co_ctx = ctx\<rparr>"
  using assms by (simp add: doing_def DoCalculate_def Let_def isCalculating_def getCalculatingBH_def getCalcDoneBH_def)

lemma DoRollBack_refused:
  "rb_BlockHeight rb \<le> getPrevCalcDoneBH (DB ctx) \<Longrightarrow> DoRollBack ctx rb = Some (er, ctx') \<Longrightarrow> ctx' = ctx"
  by (auto simp: DoRollBack_def checkRollback_def Let_def split: if_splits)

lemma doing_cong:
  "doing prev last_done h ctx \<Longrightarrow> info (DB ctx') = info (DB ctx) \<Longrightarrow> doing prev last_done h ctx'"
  by (simp add: doing_def)

lemma set_preCommit_info [simp]: "info (DB (set_preCommit m ctx)) = info (DB ctx)"
  by (simp add: set_preCommit_def)

lemma doing_handler:
  assumes "doing prev last_done h (mgr_ctx m)" "\<not> ends_calculation prev last_done msg"
    and "run_handler env cancel msg m = Some (e, out, m')"
  shows "doing prev last_done h (mgr_ctx m')"
  using assms(3)
proof (cases rule: run_handler_ctx_cases)
  case (claim r0 r)
  then show ?thesis using DoClaim_writes [OF claim(3)] assms(1) by (auto simp: Let_def doing_def)
next
  case (commitClaim cc)
  then show ?thesis using assms(1) by (simp add: doing_def DoCommitClaim_def Let_def split: sum.splits)
next
  case (startBlock sb)
  then show ?thesis using assms(1) by (simp add: doing_def do_startBlock_def)
next
  case (commitBlock cb resp)
  then show ?thesis using assms(1)
    by (auto simp: doing_def do_commitBlock_def setCurrentBlockInfo_def writeToDB_def Let_def dest!: sym [of _ "mgr_ctx m'"] split: option.splits if_splits)
next
  case (init h)
  then show ?thesis using assms(1) by (auto simp: doing_def DoInit_def Let_def dest!: sym [of _ "mgr_ctx m'"] split: if_splits)
next
  case (calculate req co)
  then have "\<not> isReloadRequest (cq_BlockHeight req) (m_Id msg)" using assms(2) by (simp add: ends_calculation_def)
  from doing_refuses [OF assms(1) this] show ?thesis using calculate(3,4) assms(1) by auto
next
  case (rollback rb er)
  then have "rb_BlockHeight rb \<le> prev \<or> last_done < rb_BlockHeight rb" using assms(2) by (auto simp: ends_calculation_def)
  then show ?thesis
    using DoRollBack_refused [OF _ rollback(3)] DoRollBack_info [OF rollback(3)] assms(1)
    by (auto simp: doing_def getPrevCalcDoneBH_def getCalcDoneBH_def)
next
  case (debug req er r)
  then show ?thesis using assms(1) do_debug_DB by (auto simp: doing_def)
qed (use assms(1) in simp)

text \<open>The way out: a ROLLBACK behind the last calculation.\<close>

lemma rollbackAccountDB_done:
  "rollbackAccountDB h idb = Some (None, idb') \<Longrightarrow> Calculating (info idb') = PrevCalcDone (info idb) \<and> CalcDone (info idb') = PrevCalcDone (info idb)"
  by (auto simp: rollbackAccountDB_def CloseAccountDB_def OpenAccountDB_def rollbackAccountDBBlockInfo_def toggleAccountDB_def writeToDB_def
      Let_def split: prod.splits option.splits if_splits)

lemma RollbackManagementDB_info [simp]: "info (DB (RollbackManagementDB h ctx)) = info (DB ctx)"
  by (simp add: RollbackManagementDB_def split: prod.splits)

lemma rollbackClaimDB_heights:
  "rollbackClaimDB h b idb = Some (e, idb') \<Longrightarrow> CalcDone (info idb') = CalcDone (info idb) \<and> PrevCalcDone (info idb') = PrevCalcDone (info idb)"
  by (auto simp: rollbackClaimDB_def rollbackCurrentBlockInfo_def setCurrentBlockInfo_def writeToDB_def Let_def
      split: option.splits sum.splits prod.splits bool.splits if_splits)

lemma DoRollBack_takes_off:
  assumes "DoRollBack ctx rb = Some (None, ctx')" "rb_BlockHeight rb \<le> getCalcDoneBH (DB ctx)"
  shows "DoQueryCalculateStatus ctx' = (CalculationDone, getPrevCalcDoneBH (DB ctx))"
proof -
  have ch: "checkRollback ctx (rb_BlockHeight rb) = None" using assms(1) by (auto simp: DoRollBack_def Let_def split: option.splits)
  obtain e idb where c: "rollbackClaimDB (rb_BlockHeight rb) (nonNilBytes (rb_BlockHash rb)) (DB ctx) = Some (e, idb)"
    using assms(1) ch by (auto simp: DoRollBack_def Let_def split: option.splits)
  note h = rollbackClaimDB_heights [OF c]
  have le: "rb_BlockHeight rb \<le> CalcDone (info (DB ctx))" using assms(2) by (simp add: getCalcDoneBH_def)
  have e: "e = None" using assms(1) ch c by (auto simp: DoRollBack_def Let_def split: option.splits)
  obtain idb' where r: "rollbackAccountDB (rb_BlockHeight rb) idb = Some (None, idb')"
    and ctx': "ctx' = RollbackManagementDB (rb_BlockHeight rb) (ctx\<lparr>Cancel := notifyRollback (Cancel ctx), DB := idb'\<rparr>)"
    using assms(1) ch c e h le
    by (auto simp: DoRollBack_def checkAccountDBRollback_def getCalcDoneBH_def Let_def split: option.splits if_splits)
  show ?thesis
    using rollbackAccountDB_done [OF r] h
    by (simp add: ctx' DoQueryCalculateStatus_def isCalculating_def getCalculatingBH_def getCalcDoneBH_def getPrevCalcDoneBH_def)
qed

text \<open>
  C25: A calculation cancelled by a ROLLBACK to a height above the last calculation stays on
  the books. The rollback leaves the account databases alone and with them the height in progress;
  whatever messages are handled after it, as long as none is a ROLLBACK to a height above the last but one
  calculation and not above the last, or a CALCULATE that asks for a reload, the status is
  still the cancelled calculation and every CALCULATE is answered as still running and changes nothing. A ROLLBACK
  of that kind is the way out: once one succeeds, no calculation is running.
\<close>

theorem cancelled_calculation_stays_doing:
  assumes "DoCalculate shake order (Some (CancelRollback, quits)) iiss ctx req conn msg_id = Some out"
    and "co_err out = Some (ErrCancelRollback (co_height out))"
    and "getCalcDoneBH (DB ctx) < rb_BlockHeight rb" "DoRollBack (co_ctx out) rb = Some (err, mgr_ctx m)"
    and "run_handlers env msgs m = Some m'"
    and "\<forall>x \<in> set msgs. \<not> ends_calculation (getPrevCalcDoneBH (DB ctx)) (getCalcDoneBH (DB ctx)) (snd x)"
    and "\<not> isReloadRequest (cq_BlockHeight req') msg_id'"
  shows "DoQueryCalculateStatus (mgr_ctx m') = (CalculationDoing, co_height out) \<and>
    (\<exists>out'. DoCalculate shake' order' cancel' iiss' (mgr_ctx m') req' True msg_id' = Some out' \<and> co_err out' = Some ErrCalculating \<and>
       co_acks out' = [(CalcRespStatusDoing, cq_BlockHeight req')] \<and> co_ctx out' = mgr_ctx m') \<and>
    (\<forall>back ctx'. rb_BlockHeight back \<le> getCalcDoneBH (DB ctx) \<and> DoRollBack (mgr_ctx m') back = Some (None, ctx') \<longrightarrow>
       DoQueryCalculateStatus ctx' = (CalculationDone, getPrevCalcDoneBH (DB ctx)))"
proof -
  let ?p = "getPrevCalcDoneBH (DB ctx)" and ?d = "getCalcDoneBH (DB ctx)"
  have "doing ?p ?d (co_height out) (mgr_ctx m)"
    using cancelled_info [OF assms(1,2)] DoRollBack_info [OF assms(4)] assms(3)
    by (simp add: doing_def getCalcDoneBH_def getPrevCalcDoneBH_def)
  from run_handlers_inv [where I = "doing ?p ?d (co_height out)" and P = "\<lambda>msg. \<not> ends_calculation ?p ?d msg", OF assms(5) this assms(6)]
  have d: "doing ?p ?d (co_height out) (mgr_ctx m')" using doing_handler by blast
  then have h: "getCalcDoneBH (DB (mgr_ctx m')) = ?d" "getPrevCalcDoneBH (DB (mgr_ctx m')) = ?p"
    "DoQueryCalculateStatus (mgr_ctx m') = (CalculationDoing, co_height out)"
    by (simp_all add: doing_def DoQueryCalculateStatus_def isCalculating_def getCalculatingBH_def getCalcDoneBH_def getPrevCalcDoneBH_def)
  then show ?thesis
    using doing_refuses [OF d assms(7)] DoRollBack_takes_off [of "mgr_ctx m'"] by auto
qed

section \<open>Witnesses\<close>

definition ex_confirm :: message where
  "ex_confirm = \<lparr>m_Msg = MsgCommitClaim, m_Id = 8, m_Data = enc_CommitClaim \<lparr>cc_Success = True, cc_Address = ex_addr, cc_BlockHeight = 2,
     cc_BlockHash = Some ex_hash, cc_TXIndex = 4, cc_TXHash = None\<rparr>\<rparr>"

definition ex_next_block :: message where
  "ex_next_block = \<lparr>m_Msg = MsgStartBlock, m_Id = 9, m_Data = enc_StartBlock \<lparr>sb_BlockHeight = 3, sb_BlockHash = None\<rparr>\<rparr>"

lemma ex_messages_run: "\<exists>m'. run_handlers ex_env [(None, ex_confirm), (None, ex_next_block), (None, ex_version)] m = Some m'"
  using CommitClaim_wire.dec_enc [of "\<lparr>cc_Success = True, cc_Address = ex_addr, cc_BlockHeight = 2, cc_BlockHash = Some ex_hash, cc_TXIndex = 4, cc_TXHash = None\<rparr>"]
    StartBlock_wire.dec_enc [of "\<lparr>sb_BlockHeight = 3, sb_BlockHash = None\<rparr>"] ex_addr_ok
  by (simp add: run_handler_def msg_numbers ex_confirm_def ex_next_block_def ex_version_def handler_defs split: option.splits)

lemma ends_claim_msg:
  "ends_claim req msg \<Longrightarrow> m_Msg msg = MsgCommitClaim \<and> (\<exists>cc. dec_CommitClaim (m_Data msg) = Inr cc \<and> \<not> cc_Success cc) \<or>
    m_Msg msg = MsgStartBlock \<and> (\<exists>sb. dec_StartBlock (m_Data msg) = Inr sb \<and> sb_BlockHeight sb = cm_BlockHeight req) \<or>
    m_Msg msg \<in> {MsgCommitBlock, MsgINIT}"
  by (auto simp: ends_claim_def split: sum.splits)

lemma ends_calculation_msg: "ends_calculation p d msg \<Longrightarrow> m_Msg msg \<in> {MsgRollBack, MsgCalculate}"
  by (auto simp: ends_calculation_def split: sum.splits)

lemma ex_messages_keep:
  "\<forall>x \<in> set [(None, ex_confirm), (None, ex_next_block), (None, ex_version)]. \<not> ends_claim ex_claim (snd x)"
  "\<forall>x \<in> set [(None, ex_confirm), (None, ex_next_block), (None, ex_version)]. \<not> ends_calculation p d (snd x)"
proof -
  have "dec_CommitClaim (m_Data ex_confirm) = Inr \<lparr>cc_Success = True, cc_Address = ex_addr, cc_BlockHeight = 2, cc_BlockHash = Some ex_hash,
      cc_TXIndex = 4, cc_TXHash = None\<rparr>"
    unfolding ex_confirm_def using ex_addr_ok by (simp add: CommitClaim_wire.dec_enc)
  then have "\<not> ends_claim ex_claim ex_confirm" by (auto dest!: ends_claim_msg simp: ex_confirm_def msg_numbers)
  moreover have "dec_StartBlock (m_Data ex_next_block) = Inr \<lparr>sb_BlockHeight = 3, sb_BlockHash = None\<rparr>"
    unfolding ex_next_block_def by (simp add: StartBlock_wire.dec_enc)
  then have "\<not> ends_claim ex_claim ex_next_block" by (auto dest!: ends_claim_msg simp: ex_next_block_def ex_claim_def msg_numbers)
  moreover have "\<not> ends_claim ex_claim ex_version" by (auto dest!: ends_claim_msg simp: ex_version_def msg_numbers)
  ultimately show "\<forall>x \<in> set [(None, ex_confirm), (None, ex_next_block), (None, ex_version)]. \<not> ends_claim ex_claim (snd x)" by simp
  show "\<forall>x \<in> set [(None, ex_confirm), (None, ex_next_block), (None, ex_version)]. \<not> ends_calculation p d (snd x)"
    by (auto dest!: ends_calculation_msg simp: ex_confirm_def ex_next_block_def ex_version_def msg_numbers)
qed

theorem claim_once_per_block_witness:
  "\<exists>m'. run_handlers ex_env [(None, ex_confirm), (None, ex_next_block), (None, ex_version)]
      \<lparr>monitorMode = False, mgr_ctx = ex_ctx1, waitGroup = 0\<rparr> = Some m' \<and>
    DoClaim (mgr_ctx m') (ex_claim\<lparr>cm_TXIndex := 5, cm_TXHash := Some [1]\<rparr>) = Some ((2, None), mgr_ctx m')"
proof -
  let ?m = "\<lparr>monitorMode = False, mgr_ctx = ex_ctx1, waitGroup = 0\<rparr> :: manager"
  obtain m' where r: "run_handlers ex_env [(None, ex_confirm), (None, ex_next_block), (None, ex_version)] ?m = Some m'"
    using ex_messages_run by blast
  have "DoClaim ex_ctx ex_claim = Some ((10, Some 3000), mgr_ctx ?m)" using ex_claim_granted by simp
  from claim_once_per_block [OF this _ _ r ex_messages_keep(1), where ti = 5 and th = "Some [1]" and th' = None]
  have "DoClaim (mgr_ctx m') (ex_claim\<lparr>cm_TXIndex := 5, cm_TXHash := Some [1]\<rparr>) = Some ((2, None), mgr_ctx m')"
    using ex_addr_ok ex_ctx_ok(1,4,5) by (simp only: claims_ok_def)
  with r show ?thesis by blast
qed

theorem cancelled_calculation_stays_doing_witness:
  "\<exists>err ctx' m'. DoRollBack (co_ctx ex_cancelled) ex_back = Some (err, ctx') \<and>
    run_handlers ex_env [(None, ex_confirm), (None, ex_next_block), (None, ex_version)]
      \<lparr>monitorMode = False, mgr_ctx = ctx', waitGroup = 0\<rparr> = Some m' \<and>
    DoQueryCalculateStatus (mgr_ctx m') = (CalculationDoing, co_height ex_cancelled)"
proof -
  obtain err ctx' where b: "DoRollBack (co_ctx ex_cancelled) ex_back = Some (err, ctx')" using ex_back_run by blast
  let ?m = "\<lparr>monitorMode = False, mgr_ctx = ctx', waitGroup = 0\<rparr> :: manager"
  obtain m' where r: "run_handlers ex_env [(None, ex_confirm), (None, ex_next_block), (None, ex_version)] ?m = Some m'"
    using ex_messages_run by blast
  have b': "DoRollBack (co_ctx ex_cancelled) ex_back = Some (err, mgr_ctx ?m)" using b by simp
  have "DoQueryCalculateStatus (mgr_ctx m') = (CalculationDoing, co_height ex_cancelled)"
    using cancelled_calculation_stays_doing [OF ex_cancelled_run _ b' r ex_messages_keep(2), of ex_request 7] ex_calc_ctx_ok(5)
    by (simp add: ex_back_def ex_request_def getCalcDoneBH_def isReloadRequest_def reloadBlockHeight_def reloadMsgID_def)
  with b r show ?thesis by blast
qed

end
