(* ===== verification/Orderly.thy ===== *)
theory Orderly
  imports Histories
begin

text \<open>
  Orderly histories of the service: messages handled one after another, calculations cancelled,
  the process restarted anywhere between two handlers, and every calculation that is accepted bringing
  P-Rep lists newer than the known ones. In all of them the memory is what a restart loads. A
  calculation that is run a second time on the data of an interrupted one is not orderly, and
  the last section shows what it does.
\<close>

section \<open>The mirror under the handlers\<close>

lemma mirrors_cong:
  assumes "mirrors ctx" "GV ctx' = GV ctx" "PReps ctx' = PReps ctx" "PRepCandidates ctx' = PRepCandidates ctx"
    "management (DB ctx') = management (DB ctx)" "info (DB ctx') = info (DB ctx)"
  shows "mirrors ctx'"
  using assms by (simp add: mirrors_def)

lemma mirrors_heights:
  assumes "mirrors (ctx\<lparr>DB := idb\<rparr>)"
  shows "mirrors (ctx\<lparr>DB := setCalculatingBH h idb\<rparr>)" "mirrors (ctx\<lparr>DB := resetCalculatingBH idb\<rparr>)"
    "mirrors (ctx\<lparr>DB := toggleAccountDB h idb\<rparr>)" "mirrors (ctx\<lparr>DB := setCurrentBlockInfo h b idb\<rparr>)"
    "mirrors (ctx\<lparr>DB := setCalcDoneBH h idb\<rparr>)" "mirrors (ctx\<lparr>DB := rollbackAccountDBBlockInfo idb\<rparr>)"
proof -
  note w = mirrors_writeToDB [OF assms, simplified]
  show "mirrors (ctx\<lparr>DB := setCalculatingBH h idb\<rparr>)" "mirrors (ctx\<lparr>DB := resetCalculatingBH idb\<rparr>)"
    "mirrors (ctx\<lparr>DB := setCurrentBlockInfo h b idb\<rparr>)"
    "mirrors (ctx\<lparr>DB := setCalcDoneBH h idb\<rparr>)" "mirrors (ctx\<lparr>DB := rollbackAccountDBBlockInfo idb\<rparr>)"
    by (simp_all add: setCalculatingBH_def resetCalculatingBH_def setCalcDoneBH_def rollbackAccountDBBlockInfo_def setCurrentBlockInfo_def w)
  show "mirrors (ctx\<lparr>DB := toggleAccountDB h idb\<rparr>)" using assms by (simp add: toggleAccountDB_def w)
qed

lemma mirrors_rollbackCurrentBlockInfo:
  assumes "mirrors (ctx\<lparr>DB := idb\<rparr>)"
  shows "mirrors (ctx\<lparr>DB := rollbackCurrentBlockInfo h b idb\<rparr>)"
  using mirrors_writeToDB [OF mirrors_heights(4) [OF assms, of h b], of "info (setCurrentBlockInfo h b idb)"]
  by (simp add: rollbackCurrentBlockInfo_def)

lemma mirrors_outside:
  assumes "mirrors (ctx\<lparr>DB := idb\<rparr>)" "management idb' = management idb" "info idb' = info idb"
  shows "mirrors (ctx\<lparr>DB := idb'\<rparr>)"
  using assms by (intro mirrors_cong [OF assms(1)]) simp_all

lemma mirrors_claims: "mirrors ctx \<Longrightarrow> mirrors (ctx\<lparr>DB := (DB ctx)\<lparr>claims := c\<rparr>\<rparr>)"
  by (erule mirrors_cong) simp_all

lemma mirrors_set_preCommit: "mirrors ctx \<Longrightarrow> mirrors (set_preCommit m ctx)"
  by (simp add: set_preCommit_def mirrors_claims)

text \<open>The P-Rep lists of the data of an accepted calculation follow the known ones.\<close>

definition new_terms :: "obj kv \<Rightarrow> Context \<Rightarrow> bool" where
  "new_terms iissDB ctx \<longleftrightarrow> sorted_wrt (<) (map pr_BlockHeight (PReps ctx @ LoadPRep iissDB))"

lemma run_calculation_PReps:
  assumes "run_calculation shake order cancel iissDB h ctx = Some (err, st, hash, ctx')"
  shows "PReps ctx' = PReps ctx"
proof (cases cancel)
  case None
  then have "calc_frame (set (GetCalcDBList (DB ctx))) ctx ctx'" using run_calculation_frame assms by blast
  then show ?thesis by (simp add: calc_frame_def)
next
  case (Some c)
  obtain code q where c: "c = (code, q)" by (cases c)
  then obtain rs ctx1 where "shards_loop shake q h (getQueryDBList (DB ctx)) 0 (GetCalcDBList (DB ctx)) ctx = Some (rs, ctx1)"
    and ctx': "PReps ctx' = PReps ctx1"
    using assms Some by (auto simp: run_calculation_def Let_def split: option.splits)
  then have "calc_frame (set (GetCalcDBList (DB ctx))) ctx ctx1" using shards_loop_frame by blast
  then show ?thesis unfolding ctx' by (simp add: calc_frame_def)
qed

lemma finish_calculation_PReps: "finish_calculation h st hash ctx = Some ctx' \<Longrightarrow> PReps ctx' = PReps ctx"
  by (auto simp: finish_calculation_def WriteCalcDebugResult_def ResetCalcDebugResults_def upd_results_def upd_result_def
      Let_def bind_eq_Some_conv split: if_splits option.splits)

lemma DoCalculate_mirrors:
  assumes "mirrors ctx" "DoCalculate shake order cancel iiss ctx req conn msg_id = Some out"
    and "co_err out \<in> {Some ErrCalculating, Some ErrInvalidData, Some ErrDuplicateBH, Some ErrTooLowBH} \<or> new_terms (iiss (cq_Path req)) ctx"
  shows "mirrors (co_ctx out)"
proof -
  have m: "mirrors (ctx\<lparr>DB := DB ctx\<rparr>)" using assms(1) by simp
  from assms(2) show ?thesis
  proof (cases rule: DoCalculate_cases)
    case (refused status e idb)
    have "mirrors (ctx\<lparr>DB := resetCalculatingBH (DB ctx)\<rparr>)" "mirrors (ctx\<lparr>DB := resetCalculatingBH (setCalculatingBH h (DB ctx))\<rparr>)" for h
      by (intro mirrors_heights m)+
    with refused(8) m show ?thesis by (auto simp: refused(7))
  next
    case (ran header gvl prl idb ctx3 err st hash ctx4)
    have "err \<notin> {Some ErrCalculating, Some ErrInvalidData, Some ErrDuplicateBH, Some ErrTooLowBH}"
      using ran(5) by (auto simp: run_calculation_def Let_def split: option.splits if_splits)
    then have nt: "new_terms (iiss (cq_Path req)) ctx" using assms(3) ran(7) by (cases hash) auto
    have prl: "prl = LoadPRep (iiss (cq_Path req))" using ran(1) by (auto simp: LoadIISSData_def split: sum.splits)
    let ?c = "ctx\<lparr>DB := snd (resetAccountDB (co_height out) (getCalcDoneBH idb) idb), Revision := ih_Revision header\<rparr>"
    have "mirrors (ctx\<lparr>DB := idb\<rparr>)" unfolding ran(3) by (intro mirrors_heights m)
    then have m1: "mirrors ?c" by (rule mirrors_cong) (simp_all add: info_resetAccountDB)
    have "mirrors (UpdatePRepCandidate (iiss (cq_Path req)) (UpdatePRep prl (UpdateGovernanceVariable gvl ?c)))"
      using nt LoadPRep_ok [of "iiss (cq_Path req)"]
      by (intro mirrors_UpdatePRepCandidate mirrors_UpdatePRep mirrors_UpdateGovernanceVariable m1)
        (simp_all add: new_terms_def prl UpdateGovernanceVariable_def split: prod.splits)
    then have m3: "mirrors ctx3"
      by (rule mirrors_cong) (simp_all add: same_core_fields [OF same_core_InitCalcDebugResult [OF ran(4)]])
    have m4: "mirrors ctx4"
      using run_calculation_fields [OF ran(5)] run_calculation_PReps [OF ran(5)] by (intro mirrors_cong [OF m3]) simp_all
    show ?thesis
    proof (cases hash)
      case None
      then show ?thesis using ran(7) m4 by simp
    next
      case (Some hh)
      then have f: "finish_calculation (co_height out) st hh ctx4 = Some (co_ctx out)" using ran(7) by simp
      have "mirrors (ctx4\<lparr>DB := setCalcDoneBH (co_height out) (DB ctx4)\<rparr>)" using m4 by (intro mirrors_heights) simp
      then show ?thesis
        by (rule mirrors_cong)
          (use finish_calculation_fields [OF f] finish_calculation_PReps [OF f] in \<open>simp_all add: finish_calculation_DB [OF f]\<close>)
    qed
  qed
qed

lemma rollbackClaimDB_mirrors:
  assumes "mirrors ctx" "rollbackClaimDB h b (DB ctx) = Some (e, idb)"
  shows "mirrors (ctx\<lparr>DB := idb\<rparr>)"
proof -
  have "mirrors (ctx\<lparr>DB := rollbackCurrentBlockInfo h b ((DB ctx)\<lparr>claims := c\<rparr>)\<rparr>)" for c
    by (intro mirrors_rollbackCurrentBlockInfo mirrors_claims assms(1))
  then show ?thesis
    using assms by (auto simp: rollbackClaimDB_def split: option.splits sum.splits prod.splits bool.splits)
qed

lemma rollbackAccountDB_mirrors:
  assumes "mirrors (ctx\<lparr>DB := idb\<rparr>)" "rollbackAccountDB h idb = Some (e, idb')"
  shows "mirrors (ctx\<lparr>DB := idb'\<rparr>)"
proof -
  note outside = mirrors_outside [OF assms(1)]
  obtain e1 d where rb: "rollback_backups (info idb) (if QueryDBIsZero (info idb) then 1 else 0) (disk_glob is_backup (dirs idb))
      (dirs (CloseAccountDB idb)) = (e1, d)"
    by (cases "rollback_backups (info idb) (if QueryDBIsZero (info idb) then 1 else 0) (disk_glob is_backup (dirs idb)) (dirs (CloseAccountDB idb))")
  show ?thesis
  proof (cases e1)
    case (Some x)
    then have "idb' = (CloseAccountDB idb)\<lparr>dirs := d\<rparr>" using assms(2) rb by (simp add: rollbackAccountDB_def Let_def)
    then show ?thesis using outside [of idb'] by (simp add: CloseAccountDB_def)
  next
    case None
    then obtain idb2 where idb2: "OpenAccountDB ((CloseAccountDB idb)\<lparr>dirs := d\<rparr>) = Some idb2"
      and idb': "idb' = (let idb3 = toggleAccountDB h idb2 in
        rollbackAccountDBBlockInfo (idb3\<lparr>calcResult := DeleteCalculationResult (calcResult idb3) (getCalcDoneBH idb3)\<rparr>))"
      using assms(2) rb by (auto simp: rollbackAccountDB_def Let_def split: option.splits)
    have "management idb2 = management idb" "info idb2 = info idb"
      using idb2 by (auto simp: OpenAccountDB_def CloseAccountDB_def split: if_splits)
    then have m3: "mirrors (ctx\<lparr>DB := toggleAccountDB h idb2\<rparr>)" by (intro mirrors_heights outside)
    show ?thesis unfolding idb' Let_def by (intro mirrors_heights mirrors_outside [OF m3]) simp_all
  qed
qed

lemma DoRollBack_mirrors:
  assumes "mirrors ctx" "DoRollBack ctx req = Some (e, ctx')"
  shows "mirrors ctx'"
proof (cases "checkRollback ctx (rb_BlockHeight req)")
  case (Some x)
  then show ?thesis using assms by (simp add: DoRollBack_def Let_def)
next
  case None
  let ?ctx1 = "ctx\<lparr>Cancel := notifyRollback (Cancel ctx)\<rparr>"
  have m1: "mirrors ?ctx1" by (rule mirrors_cong [OF assms(1)]) simp_all
  obtain e1 idb where c: "rollbackClaimDB (rb_BlockHeight req) (nonNilBytes (rb_BlockHash req)) (DB ?ctx1) = Some (e1, idb)"
    using assms(2) None by (auto simp: DoRollBack_def Let_def split: option.splits)
  have m2: "mirrors (?ctx1\<lparr>DB := idb\<rparr>)" by (rule rollbackClaimDB_mirrors [OF m1 c])
  have mng: "mirrors (RollbackManagementDB h x)" if "mirrors x" for h x using RollbackManagementDB_spec [OF that] by blast
  show ?thesis
    using assms(2) None c m2 rollbackAccountDB_mirrors [OF m2] mng
    by (auto simp: DoRollBack_def Let_def split: option.splits if_splits)
qed

lemma do_debug_fields:
  assumes "do_debug req ctx = Some (e, r, ctx')"
  shows "DB ctx' = DB ctx \<and> GV ctx' = GV ctx \<and> PRepCandidates ctx' = PRepCandidates ctx \<and> PReps ctx' = PReps ctx"
  using assms
  by (auto simp: do_debug_def Let_def handleCalcDebugFlagOn_def handleCalcDebugFlagOff_def handleCalcDebugAddAddress_def
      handleCalcDebugDeleteAddress_def DeleteDebuggingAddress_def AddDebuggingAddress_def set_debug_flag_def upd_results_def
      upd_result_def bind_eq_Some_conv split: if_splits option.splits)

section \<open>Orderly histories\<close>

definition refused :: "calc_out \<Rightarrow> bool" where
  "refused out \<longleftrightarrow> co_err out \<in> {Some ErrCalculating, Some ErrInvalidData, Some ErrDuplicateBH, Some ErrTooLowBH}"

text \<open>
  A step: a message is handled, possibly with a cancellation of its calculation; the process
  stops and starts again on the storage it leaves; an interrupted calculation is run again.
  What is asked of them is that a calculation that is not refused has P-Rep lists of greater heights than the known ones.
\<close>

inductive orderly_step :: "environment \<Rightarrow> manager \<Rightarrow> manager \<Rightarrow> bool" for env where
  handle: "run_handler env cancel msg m = Some (e, out, m') \<Longrightarrow>
    (\<And>req co. m_Msg msg = MsgCalculate \<Longrightarrow> dec_CalculateRequest (m_Data msg) = Inr req \<Longrightarrow>
       DoCalculate (env_shake env) (env_order env) cancel (env_iiss env) (mgr_ctx m) req True (m_Id msg) = Some co \<Longrightarrow>
       refused co \<or> new_terms (env_iiss env (cq_Path req)) (mgr_ctx m)) \<Longrightarrow>
    orderly_step env m m'"
| restart: "NewContext (storage_of (mgr_ctx m)) dbPath dbType dbName dbCount config = Some ctx' \<Longrightarrow>
    orderly_step env m \<lparr>monitorMode = mm, mgr_ctx = ctx', waitGroup = 0\<rparr>"
| reload: "DoCalculate (env_shake env) (env_order env) None (env_iiss env) (mgr_ctx m) req False reloadMsgID = Some co \<Longrightarrow>
    refused co \<or> new_terms (env_iiss env (cq_Path req)) (mgr_ctx m) \<Longrightarrow> orderly_step env m (set_ctx (co_ctx co) m)"

lemma mirrors_handler:
  assumes "mirrors (mgr_ctx m)" "run_handler env cancel msg m = Some (e, out, m')"
    and "\<And>req co. m_Msg msg = MsgCalculate \<Longrightarrow> dec_CalculateRequest (m_Data msg) = Inr req \<Longrightarrow>
       DoCalculate (env_shake env) (env_order env) cancel (env_iiss env) (mgr_ctx m) req True (m_Id msg) = Some co \<Longrightarrow>
       refused co \<or> new_terms (env_iiss env (cq_Path req)) (mgr_ctx m)"
  shows "mirrors (mgr_ctx m')"
  using assms(2)
proof (cases rule: run_handler_ctx_cases)
  case (claim r0 r)
  then show ?thesis using DoClaim_writes [OF claim(3)] assms(1) by (auto simp: Let_def mirrors_set_preCommit)
next
  case (commitClaim cc)
  then show ?thesis using assms(1) by (simp add: DoCommitClaim_def Let_def mirrors_set_preCommit split: sum.splits)
next
  case (startBlock sb)
  then show ?thesis using assms(1) by (simp add: do_startBlock_def mirrors_set_preCommit)
next
  case (commitBlock cb resp)
  have "mirrors ((mgr_ctx m)\<lparr>DB := (DB (mgr_ctx m))\<lparr>claims := c\<rparr>\<rparr>)" for c by (rule mirrors_claims [OF assms(1)])
  note c = this mirrors_heights(4) [OF this]
  show ?thesis
    using commitBlock(3) assms(1) c
    by (auto simp: do_commitBlock_def mirrors_set_preCommit Let_def dest!: sym [of _ "mgr_ctx m'"] split: option.splits if_splits)
next
  case (init h)
  then show ?thesis using assms(1)
    by (auto simp: DoInit_def mirrors_set_preCommit Let_def dest!: sym [of _ "mgr_ctx m'"] split: if_splits)
next
  case (calculate req co)
  from assms(3) [OF calculate(1-3)] show ?thesis
    unfolding calculate(4) refused_def by (rule DoCalculate_mirrors [OF assms(1) calculate(3)])
next
  case (rollback rb er)
  then show ?thesis using assms(1) DoRollBack_mirrors by blast
next
  case (debug req er r)
  then show ?thesis using do_debug_fields [OF debug(3)] by (intro mirrors_cong [OF assms(1)]) simp_all
qed (use assms(1) in simp)

lemma disk_read_fold_open: "disk_read (fold disk_open ns d) n = disk_read d n"
  by (induction ns arbitrary: d) (auto simp: disk_read_def disk_open_def update_conv' split: option.splits)

lemma restart_mirrors:
  assumes "mirrors ctx" "stored_info_ok ctx" "0 \<le> DBCount (info (DB ctx))"
  shows "\<exists>ctx'. NewContext (storage_of ctx) dbPath dbType dbName dbCount config = Some ctx' \<and> mirrors ctx' \<and>
    info (DB ctx') = (info (DB ctx))\<lparr>DBRoot := path_join dbPath dbName, DBType := dbType\<rparr> \<and>
    claims (DB ctx') = claims (DB ctx) \<and> calcResult (DB ctx') = calcResult (DB ctx) \<and>
    (\<forall>n. calcdb ctx' n = calcdb ctx n) \<and> GV ctx' = GV ctx \<and> PReps ctx' = PReps ctx \<and>
    map_of (PRepCandidates ctx') = map_of (PRepCandidates ctx) \<and> calcDebug_db ctx' = calcDebug_db ctx"
proof -
  let ?db = "management (DB ctx)"
  let ?i = "(info (DB ctx))\<lparr>DBRoot := path_join dbPath dbName, DBType := dbType\<rparr>"
  have h: "holds PrefixGovernanceVariable gv_BlockHeight GV_Bytes gv_ok ?db (GV ctx)" "holds PrefixPRep pr_BlockHeight PRep_Bytes prep_ok ?db (PReps ctx)"
    "cands_stored ?db (PRepCandidates ctx)" "kv_get PrefixManagement ?db = Some (DBInfo_Bytes (info (DB ctx)))"
    using assms(1) by (simp_all add: mirrors_def)
  have "opt_of (DBInfo_SetBytes zero_DBInfo (DBInfo_Bytes (info (DB ctx)))) = Some ((info (DB ctx))\<lparr>DBRoot := [], DBType := []\<rparr>)"
    using dbinfo.dec_enc [of "(info (DB ctx))\<lparr>DBRoot := [], DBType := []\<rparr>"] assms(2) by (simp add: stored_info_ok_def DBInfo_Bytes_def)
  then have i: "NewDBInfo ?db dbPath dbType dbName dbCount = Some (?i, ?db)"
    using h(4) by (auto simp: NewDBInfo_def Bucket_Get_def DBInfo_ID_def opt_of_def Let_def split: sum.splits)
  obtain cs' where c: "LoadPRepCandidate ?db = Some cs'" "map_of cs' = map_of (PRepCandidates ctx)"
    using LoadPRepCandidate_stored [OF h(3) holds_kv_ok [OF h(1)]] by blast
  then have c': "cands_stored ?db cs'"
    using h(3) distinct_LoadPRepCandidate_loop [of "[]"] by (auto simp: cands_stored_def LoadPRepCandidate_def)
  have "DBInfo_Bytes ?i = DBInfo_Bytes (info (DB ctx))" by (simp add: DBInfo_Bytes_def)
  then show ?thesis
    using assms(3) h c c' mirrors_loads(1,2) [OF assms(1)]
    by (simp add: NewContext_def storage_of_def i OpenAccountDB_def mirrors_def calcdb_def disk_read_fold_open del: fold_append)
qed

definition orderly_ok :: "manager \<Rightarrow> bool" where
  "orderly_ok m \<longleftrightarrow> mirrors (mgr_ctx m) \<and> service_ok (mgr_ctx m)"

lemma service_ok_stored: "service_ok ctx \<Longrightarrow> stored_info_ok ctx \<and> 0 \<le> DBCount (info (DB ctx))"
  by (simp add: service_ok_def durable_def)

interpretation orderly: step_invariant "orderly_step env" orderly_ok for env
proof unfold_locales
  fix m m'
  assume ok: "orderly_ok m" and "orderly_step env m m'"
  then have mm: "mirrors (mgr_ctx m)" and sv: "service_ok (mgr_ctx m)" by (simp_all add: orderly_ok_def)
  from \<open>orderly_step env m m'\<close> show "orderly_ok m'"
  proof cases
    case (handle cancel msg e out)
    then show ?thesis using mirrors_handler [OF mm handle(1)] run_handler_ok [OF handle(1) sv] by (auto simp: orderly_ok_def)
  next
    case (restart dbPath dbType dbName dbCount config ctx' mon)
    then have "mirrors ctx'" using restart_mirrors [OF mm, of dbPath dbType dbName dbCount config] service_ok_stored [OF sv] by auto
    then show ?thesis using restart restart_ok [OF sv] by (auto simp: orderly_ok_def)
  next
    case (reload req co)
    then show ?thesis using DoCalculate_mirrors [OF mm reload(2)] DoCalculate_service_ok [OF sv reload(2)]
      by (auto simp: orderly_ok_def refused_def)
  qed
qed

text \<open>
  C19: Nothing is lost by a restart. In every orderly history from the first start on an empty disk,
  after any number of messages, cancelled calculations, rollbacks, restarts and reloads: the process
  can stop, and a start on the storage it leaves succeeds with the same block heights, claims,
  stored results, account databases, governance variables, P-Rep lists, candidates and debugging results (only the root
  path and the database type are the ones of the new command line).
\<close>

theorem restart_recovers:
  assumes "0 < dbCount" "dbCount < 2 ^ 63" "NewContext empty_storage dbPath dbType dbName dbCount config = Some (mgr_ctx m0)"
    and "(orderly_step env)\<^sup>*\<^sup>* m0 m" "ctx = mgr_ctx m"
  shows "\<exists>ctx'. NewContext (storage_of ctx) dbPath' dbType' dbName' dbCount' config' = Some ctx' \<and>
    info (DB ctx') = (info (DB ctx))\<lparr>DBRoot := path_join dbPath' dbName', DBType := dbType'\<rparr> \<and>
    claims (DB ctx') = claims (DB ctx) \<and> calcResult (DB ctx') = calcResult (DB ctx) \<and>
    (\<forall>n. calcdb ctx' n = calcdb ctx n) \<and> GV ctx' = GV ctx \<and> PReps ctx' = PReps ctx \<and>
    map_of (PRepCandidates ctx') = map_of (PRepCandidates ctx) \<and> calcDebug_db ctx' = calcDebug_db ctx"
proof -
  have "orderly_ok m0" using first_start [OF assms(1-3)] first_start_ok [OF assms(1-3)] by (simp add: orderly_ok_def)
  then have "orderly_ok m" by (rule orderly.reachable_inv [OF assms(4)])
  then have "mirrors ctx" "stored_info_ok ctx" "0 \<le> DBCount (info (DB ctx))"
    using service_ok_stored by (simp_all add: orderly_ok_def assms(5))
  from restart_mirrors [OF this, of dbPath' dbType' dbName' dbCount' config'] show ?thesis by blast
qed

lemma disk_read_Nil: "disk_read [] n = []"
  by (simp add: disk_read_def)

lemma empty_start:
  "NewContext empty_storage dbPath dbType dbName dbCount config = Some ctx \<Longrightarrow>
    calcResult (DB ctx) = [] \<and> calcDebug ctx = InitCalcDebugConfig config \<and> calcdb ctx n = []"
  by (auto simp: NewContext_def OpenAccountDB_def empty_storage_def calcdb_def disk_read_fold_open disk_read_Nil NewDBInfo_def
      Bucket_Get_def simp del: fold_append split: option.splits if_splits)

text \<open>A history with an accepted calculation in it.\<close>

definition ex_env_data :: environment where
  "ex_env_data = ex_env\<lparr>env_iiss := ex_iiss\<rparr>"

lemma ex_start_good:
  "calcDebug ex_start = InitCalcDebugConfig None" "calcdb ex_start n = []" "GV ex_start = []" "PReps ex_start = []"
  "getCalcDoneBH (DB ex_start) = 0" "\<not> isCalculating (DB ex_start)" "\<not> NeedToUpdateCalcDebugResult ex_start"
proof -
  note f = first_start [OF _ _ ex_start_run]
  show d: "calcDebug ex_start = InitCalcDebugConfig None" "calcdb ex_start n = []"
    using empty_start [OF ex_start_run] by simp_all
  show "GV ex_start = []" "PReps ex_start = []" "getCalcDoneBH (DB ex_start) = 0" "\<not> isCalculating (DB ex_start)"
    using f by (simp_all add: getCalcDoneBH_def isCalculating_def getCalculatingBH_def)
  show "\<not> NeedToUpdateCalcDebugResult ex_start" by (simp add: NeedToUpdateCalcDebugResult_def d(1) InitCalcDebugConfig_def)
qed

lemma ex_start_calculates:
  "\<exists>out. DoCalculate (\<lambda>b. b) (\<lambda>m. m) None ex_iiss ex_start ex_request True 7 = Some out \<and> co_err out = None \<and> co_height out = 20"
proof -
  have "shard_entries_ok []" by (simp add: shard_entries_ok_def)
  then show ?thesis
    using ex_start_good(5)
    by (intro DoCalculate_returns [OF ex_start_ok(2) ex_start_good(7) order_id_ok _ ex_iiss_load(1) _ _ _ ex_iiss_load(2)])
      (simp_all add: ex_start_good getCalcDoneBH_def)
qed

definition ex_first :: manager where
  "ex_first = \<lparr>monitorMode = False, mgr_ctx = ex_start, waitGroup = 0\<rparr>"

definition ex_second :: manager where
  "ex_second = snd (snd (the (run_handler ex_env_data None ex_calculate ex_first)))"

lemma ex_second_step: "orderly_step ex_env_data ex_first ex_second" "getCalcDoneBH (DB (mgr_ctx ex_second)) = 20"
proof -
  obtain co where co: "DoCalculate (\<lambda>b. b) (\<lambda>m. m) None ex_iiss ex_start ex_request True 7 = Some co" "co_err co = None" "co_height co = 20"
    using ex_start_calculates by blast
  have run: "\<exists>out. run_handler ex_env_data None ex_calculate ex_first = Some (None, out, DoneMsgTask (set_ctx (co_ctx co) (AddMsgTask ex_first)))"
    using co(1) by (simp add: run_handler_def msg_numbers ex_calculate_def handle_calculate_def with_request_def Let_def ex_env_data_def
        ex_env_def ex_first_def CalculateRequest_wire.dec_enc)
  then have s: "ex_second = DoneMsgTask (set_ctx (co_ctx co) (AddMsgTask ex_first))" by (auto simp: ex_second_def)
  have "LoadPRep (ex_iiss p) = []" for p using ex_iiss_load(1) [of p] by (auto simp: LoadIISSData_def split: sum.splits)
  then have "new_terms (ex_iiss p) ex_start" for p by (simp add: new_terms_def ex_start_good)
  then show "orderly_step ex_env_data ex_first ex_second"
    using run unfolding s by (auto intro!: orderly_step.handle simp: ex_env_data_def ex_first_def)
  have "kv_ok (calcResult (DB ex_start))" using empty_start [OF ex_start_run] by simp
  from DoCalculate_result [OF co(1,2) this] show "getCalcDoneBH (DB (mgr_ctx ex_second)) = 20" by (auto simp: s co(3))
qed

theorem restart_recovers_witness:
  "\<exists>ctx'. NewContext (storage_of (mgr_ctx ex_second)) ''db'' ''goleveldb'' ''iscore'' 4 None = Some ctx' \<and>
    getCalcDoneBH (DB ctx') = 20 \<and> GV ctx' = GV (mgr_ctx ex_second) \<and> PReps ctx' = PReps (mgr_ctx ex_second)"
proof -
  have "NewContext empty_storage [] [] [] 2 None = Some (mgr_ctx ex_first)" using ex_start_run by (simp add: ex_first_def)
  from restart_recovers [OF _ _ this r_into_rtranclp [of "orderly_step ex_env_data", OF ex_second_step(1)] HOL.refl,
      of "''db''" "''goleveldb''" "''iscore''" 4 None]
  show ?thesis using ex_second_step(2) by (auto simp: getCalcDoneBH_def)
qed

section \<open>Disorderly histories\<close>

text \<open>Pruning with newer lists at the end, and up to the last of the old ones.\<close>

lemma delete_old_append:
  assumes "\<forall>y \<in> set zs. h < height y"
  shows "delete_old height key bid h (ys @ zs) db = (case delete_old height key bid h ys db of (ys', db') \<Rightarrow> (ys' @ zs, db'))"
proof -
  have "filter (\<lambda>i. height ((ys @ zs) ! i) \<le> h) [length ys..<length ys + length zs] = []"
    using assms by (auto simp: filter_empty_conv nth_append not_le)
  moreover have "filter (\<lambda>i. height ((ys @ zs) ! i) \<le> h) [0..<length ys] = filter (\<lambda>i. height (ys ! i) \<le> h) [0..<length ys]"
    by (rule filter_cong) (auto simp: nth_append)
  ultimately have "old_index height h (ys @ zs) = old_index height h ys"
    using upt_add_eq_append [of 0 "length ys" "length zs"] by (simp add: old_index_def)
  then show ?thesis
    using old_index_Some [of height h ys] by (cases "old_index height h ys") (auto simp: delete_old_def)
qed

lemma delete_old_last:
  assumes "height x \<le> h"
  shows "delete_old height key bid h (ys @ [x]) db =
    ([x], fold (\<lambda>y db. Bucket_Delete db bid (key y)) (rev (filter (\<lambda>y. height y \<le> h) ys)) db)"
proof -
  have "old_index height h (ys @ [x]) = Some (length ys)" using assms by (simp add: old_index_def)
  then show ?thesis by (simp add: delete_old_def)
qed

lemma prep_stored:
  assumes "holds PrefixPRep pr_BlockHeight PRep_Bytes prep_ok db ps" "p \<in> set ps"
  shows "Bucket_Set db PrefixPRep (PRep_ID p) (PRep_Bytes p) = db"
proof -
  have ok: "kv_ok db" and it: "Iterator_prefix db PrefixPRep = rows PrefixPRep pr_BlockHeight PRep_Bytes ps"
    and srt: "sorted_wrt (<) (map pr_BlockHeight ps)"
    using assms(1) by (simp_all add: holds_def)
  have "(PrefixPRep @ PRep_ID p, PRep_Bytes p) \<in> set (Iterator_prefix db PrefixPRep)"
    using assms(2) by (auto simp: it rows_def PRep_ID_def)
  then have "kv_get (PrefixPRep @ PRep_ID p) db = Some (PRep_Bytes p)" using ok by (auto simp: set_Iterator_prefix)
  then show ?thesis using ok by (intro kv_ext) (auto simp: Bucket_Set_def)
qed

lemma holds_rows_cong:
  "holds p height enc ok db rs \<Longrightarrow> kv_ok db' \<Longrightarrow> Iterator_prefix db' p = Iterator_prefix db p \<Longrightarrow> holds p height enc ok db' rs"
  by (simp add: holds_def)

lemma PRep_ID_eq: "PRep_ID = (\<lambda>p. bh_key (pr_BlockHeight p))"
  by (simp add: PRep_ID_def fun_eq_iff)

text \<open>A list that is already the last one, added a second time.\<close>

lemma reload_twice:
  assumes "mirrors ctx" "PReps ctx = ps @ [q]" "getPrevCalcDoneBH (DB ctx) < pr_BlockHeight q"
  shows "\<exists>ps'. PReps (UpdatePRep [q] ctx) = ps' @ [q, q] \<and>
    holds PrefixPRep pr_BlockHeight PRep_Bytes prep_ok (management (DB (UpdatePRep [q] ctx))) (ps' @ [q])"
proof -
  let ?h = "getPrevCalcDoneBH (DB ctx)" and ?db = "management (DB ctx)"
  have hd: "holds PrefixPRep pr_BlockHeight PRep_Bytes prep_ok ?db (ps @ [q])" using assms(1,2) by (simp add: mirrors_def)
  then have st: "Bucket_Set ?db PrefixPRep (PRep_ID q) (PRep_Bytes q) = ?db" by (rule prep_stored) simp
  obtain ps' db' where d: "delete_old pr_BlockHeight PRep_ID PrefixPRep ?h ps ?db = (ps', db')"
    by (cases "delete_old pr_BlockHeight PRep_ID PrefixPRep ?h ps ?db")
  have d1: "delete_old pr_BlockHeight PRep_ID PrefixPRep ?h (ps @ [q]) ?db = (ps' @ [q], db')"
    and d2: "delete_old pr_BlockHeight PRep_ID PrefixPRep ?h (ps @ [q, q]) ?db = (ps' @ [q, q], db')"
    using delete_old_append [of "[q]" ?h pr_BlockHeight PRep_ID PrefixPRep ps] delete_old_append [of "[q, q]" ?h pr_BlockHeight PRep_ID PrefixPRep ps]
      assms(3) by (simp_all add: d)
  have "holds PrefixPRep pr_BlockHeight PRep_Bytes prep_ok db' (ps' @ [q])"
    using preps.delete_old_holds [OF hd, of ?h] d1 unfolding PRep_ID_eq by auto
  then show ?thesis using d2 assms(2) by (auto simp: UpdatePRep_def Let_def st)
qed

text \<open>
  C20: A calculation run a second time on the data of an interrupted one can lose a P-Rep list. The
  start after the interruption has loaded the list of the data from the database, and the
  second run appends it again without a check: memory then has it twice, the database once.
  When a later calculation brings the next lists and the calculation before it has passed the list, the pruning keeps the
  second copy in memory, as the list still in force, and deletes the key of the first copy,
  which is the same. From then on the database does not have the list
  that memory works with, and the next restart runs without it.
\<close>

theorem reload_loses_prep_list:
  assumes "mirrors ctx" "PReps ctx = ps @ [q]" "getPrevCalcDoneBH (DB ctx) < pr_BlockHeight q"
    and "PReps ctx2 = PReps (UpdatePRep [q] ctx)" "kv_ok (management (DB ctx2))"
    and "Iterator_prefix (management (DB ctx2)) PrefixPRep = Iterator_prefix (management (DB (UpdatePRep [q] ctx))) PrefixPRep"
    and "pr_BlockHeight q \<le> getPrevCalcDoneBH (DB ctx2)"
    and "\<forall>p \<in> set l. prep_ok p \<and> getPrevCalcDoneBH (DB ctx2) < pr_BlockHeight p" "sorted_wrt (<) (map pr_BlockHeight l)"
  shows "PReps (UpdatePRep l ctx2) = q # l \<and> LoadPRep (management (DB (UpdatePRep l ctx2))) = l"
proof -
  let ?h = "getPrevCalcDoneBH (DB ctx2)"
  let ?db = "fold (\<lambda>p db. Bucket_Set db PrefixPRep (PRep_ID p) (PRep_Bytes p)) l (management (DB ctx2))"
  obtain ps' where r: "PReps ctx2 = ps' @ [q, q]"
    "holds PrefixPRep pr_BlockHeight PRep_Bytes prep_ok (management (DB (UpdatePRep [q] ctx))) (ps' @ [q])"
    using reload_twice [OF assms(1-3)] unfolding assms(4) by blast
  have h0: "holds PrefixPRep pr_BlockHeight PRep_Bytes prep_ok (management (DB ctx2)) (ps' @ [q])"
    by (rule holds_rows_cong [OF r(2) assms(5,6)])
  then have s0: "sorted_wrt (<) (map pr_BlockHeight (ps' @ [q]))" by (simp add: holds_def)
  then have lt: "\<forall>x \<in> set ps'. pr_BlockHeight x < pr_BlockHeight q" by (auto simp: sorted_wrt_append)
  then have old: "\<forall>x \<in> set (ps' @ [q]). pr_BlockHeight x \<le> ?h" using assms(7) by auto
  have srt: "sorted_wrt (<) (map pr_BlockHeight ((ps' @ [q]) @ l))"
    using s0 old assms(8,9) unfolding map_append sorted_wrt_append by fastforce
  have h1: "holds PrefixPRep pr_BlockHeight PRep_Bytes prep_ok ?db ((ps' @ [q]) @ l)"
    using fold_prep_holds [OF h0 srt] assms(8) by blast
  let ?del = "fold (\<lambda>y db. Bucket_Delete db PrefixPRep (PRep_ID y)) (rev (ps' @ [q])) ?db"
  have "delete_old pr_BlockHeight PRep_ID PrefixPRep ?h ((ps' @ [q]) @ [q]) ?db = ([q], ?del)"
    using old by (subst delete_old_last [where height = pr_BlockHeight, OF assms(7)]) (simp add: filter_id_conv [THEN iffD2])
  then have d: "delete_old pr_BlockHeight PRep_ID PrefixPRep ?h (((ps' @ [q]) @ [q]) @ l) ?db = ([q] @ l, ?del)"
    using assms(8) by (subst delete_old_append) simp_all
  have "filter (\<lambda>r. pr_BlockHeight r \<notin> pr_BlockHeight ` set (rev (ps' @ [q]))) ((ps' @ [q]) @ l) = l"
    using old assms(8) by (force simp: filter_empty_conv filter_id_conv)
  then have h2: "holds PrefixPRep pr_BlockHeight PRep_Bytes prep_ok ?del l"
    using preps.holds_delete_all [OF h1, of "rev (ps' @ [q])"] unfolding PRep_ID_eq by simp
  have u: "UpdatePRep l ctx2 = ctx2\<lparr>PReps := [q] @ l, DB := (DB ctx2)\<lparr>management := ?del\<rparr>\<rparr>"
    using d by (simp add: UpdatePRep_def Let_def r(1) del: fold_append rev_append)
  show ?thesis using preps.holds_load [OF h2] by (simp add: u LoadPRep_def load_prep_def del: fold_append rev_append)
qed

definition ex_loaded :: Context where
  "ex_loaded = UpdatePRep [ex_prep] ex_start"

definition ex_later :: Context where
  "ex_later = (let ctx = UpdatePRep [ex_prep] ex_loaded in ctx\<lparr>DB := (DB ctx)\<lparr>info := (info (DB ctx))\<lparr>PrevCalcDone := 12\<rparr>\<rparr>\<rparr>)"

lemma ex_loaded_ok: "mirrors ex_loaded" "PReps ex_loaded = [] @ [ex_prep]" "getPrevCalcDoneBH (DB ex_loaded) = 0"
proof -
  have "pr_BlockHeight ex_prep = 10" by (simp add: ex_prep_def)
  then show "mirrors ex_loaded" "PReps ex_loaded = [] @ [ex_prep]" "getPrevCalcDoneBH (DB ex_loaded) = 0"
    using mirrors_UpdatePRep [OF ex_start_ok(1), of "[ex_prep]"] ex_start_good(4) ex_start_ok(5) ex_prep_ok(1)
    by (simp_all add: ex_loaded_def UpdatePRep_def delete_old_def old_index_def getPrevCalcDoneBH_def)
qed

theorem reload_loses_prep_list_witness:
  "PReps (UpdatePRep [ex_prep\<lparr>pr_BlockHeight := 20\<rparr>] ex_later) = [ex_prep, ex_prep\<lparr>pr_BlockHeight := 20\<rparr>] \<and>
   LoadPRep (management (DB (UpdatePRep [ex_prep\<lparr>pr_BlockHeight := 20\<rparr>] ex_later))) = [ex_prep\<lparr>pr_BlockHeight := 20\<rparr>]"
proof -
  have h: "pr_BlockHeight ex_prep = 10" "prep_ok (ex_prep\<lparr>pr_BlockHeight := 20\<rparr>)" using ex_prep_ok(1) by (simp_all add: ex_prep_def prep_ok_def)
  have "kv_ok (management (DB (UpdatePRep [ex_prep] ex_loaded)))"
    using reload_twice [OF ex_loaded_ok(1,2)] ex_loaded_ok(3) h(1) by (auto simp: holds_def)
  then show ?thesis
    using reload_loses_prep_list [OF ex_loaded_ok(1,2), of ex_later "[ex_prep\<lparr>pr_BlockHeight := 20\<rparr>]"] ex_loaded_ok(3) h
    by (simp add: ex_later_def Let_def getPrevCalcDoneBH_def)
qed

end
