(* ===== verification/DbObjects.thy ===== *)
theory DbObjects
  imports KV
begin

text \<open>
  The iterator, batch and snapshot objects of \<^verbatim>\<open>common/db/go_level_db.go\<close>. The components
  use them in one pattern each (make it, go through it, release it), which the other theories
  write as \<open>Iterator_New\<close> and \<open>Batch_Write\<close>; here are the objects with their states, and the
  proofs that the patterns give these. What goleveldb does is modelled as documented: an
  iterator and a snapshot see the database as it was when they were made, \<^verbatim>\<open>Next\<close> moves to
  the next entry or behind the last, and an object released is not used any more. A method of
  an object that was never initialised panics (\<open>None\<close>).
\<close>

section \<open>Iterators\<close>

text \<open>An iterator of goleveldb: the entries before it, the one it is at, its error.\<close>

record 'v cursor =
  cu_left :: "(bytes \<times> 'v) list"
  cu_at :: "(bytes \<times> 'v) option"
  cu_released :: bool
  cu_err :: bool

definition NewIterator :: "'v kv \<Rightarrow> bytes option \<Rightarrow> bytes option \<Rightarrow> 'v cursor" where
  "NewIterator db start limit =
     \<lparr>cu_left = (case start of None \<Rightarrow> db | Some s \<Rightarrow> kv_range s limit db), cu_at = None, cu_released = False, cu_err = False\<rparr>"

definition cursor_Next :: "'v cursor \<Rightarrow> bool \<times> 'v cursor" where
  "cursor_Next c =
     (if cu_err c then (False, c)
      else if cu_released c then (False, c\<lparr>cu_err := True\<rparr>)
      else case cu_left c of
        [] \<Rightarrow> (False, c\<lparr>cu_at := None\<rparr>)
      | e # es \<Rightarrow> (True, c\<lparr>cu_at := Some e, cu_left := es\<rparr>))"

definition cursor_Release :: "'v cursor \<Rightarrow> 'v cursor" where
  "cursor_Release c = c\<lparr>cu_left := [], cu_at := None, cu_released := True\<rparr>"

text \<open>The wrapper: \<^verbatim>\<open>iter\<close> is nil until \<^verbatim>\<open>New\<close>.\<close>

record 'v goLevelIterator =
  gi_db :: "'v kv"
  gi_iter :: "'v cursor option"

definition GetIterator :: "'v kv \<Rightarrow> 'v goLevelIterator" where
  "GetIterator db = \<lparr>gi_db = db, gi_iter = None\<rparr>"

definition goLevelIterator_New :: "bytes option \<Rightarrow> bytes option \<Rightarrow> 'v goLevelIterator \<Rightarrow> 'v goLevelIterator" where
  "goLevelIterator_New start limit i = i\<lparr>gi_iter := Some (NewIterator (gi_db i) start limit)\<rparr>"

definition goLevelIterator_Next :: "'v goLevelIterator \<Rightarrow> (bool \<times> 'v goLevelIterator) option" where
  "goLevelIterator_Next i =
     (case gi_iter i of
        None \<Rightarrow> None
      | Some c \<Rightarrow> Some (case cursor_Next c of (found, c') \<Rightarrow> (found, i\<lparr>gi_iter := Some c'\<rparr>)))"

text \<open>A nil slice is \<open>None\<close>.\<close>

definition goLevelIterator_Key :: "'v goLevelIterator \<Rightarrow> bytes option option" where
  "goLevelIterator_Key i = map_option (\<lambda>c. map_option fst (cu_at c)) (gi_iter i)"

definition goLevelIterator_Value :: "'v goLevelIterator \<Rightarrow> 'v option option" where
  "goLevelIterator_Value i = map_option (\<lambda>c. map_option snd (cu_at c)) (gi_iter i)"

definition goLevelIterator_Release :: "'v goLevelIterator \<Rightarrow> 'v goLevelIterator option" where
  "goLevelIterator_Release i = map_option (\<lambda>c. i\<lparr>gi_iter := Some (cursor_Release c)\<rparr>) (gi_iter i)"

definition goLevelIterator_Error :: "'v goLevelIterator \<Rightarrow> bool option" where
  "goLevelIterator_Error i = map_option cu_err (gi_iter i)"

section \<open>Snapshots\<close>

record 'v goLevelSnapshot =
  gs_snapshot :: "'v kv option"
  gs_released :: bool
  gs_iter :: "'v cursor option"

definition GetSnapshot :: "'v goLevelSnapshot" where
  "GetSnapshot = \<lparr>gs_snapshot = None, gs_released = False, gs_iter = None\<rparr>"

definition goLevelSnapshot_New :: "'v kv \<Rightarrow> 'v goLevelSnapshot \<Rightarrow> 'v goLevelSnapshot" where
  "goLevelSnapshot_New db s = s\<lparr>gs_snapshot := Some db, gs_released := False\<rparr>"

text \<open>A key that is not there gives a nil value and no error.\<close>

definition goLevelSnapshot_Get :: "bytes \<Rightarrow> 'v goLevelSnapshot \<Rightarrow> (error + 'v option) option" where
  "goLevelSnapshot_Get key s =
     (case gs_snapshot s of
        None \<Rightarrow> None
      | Some db \<Rightarrow> Some (if gs_released s then Inl ErrReleased else Inr (kv_get key db)))"

text \<open>An iterator of a released snapshot is empty and carries the error.\<close>

definition goLevelSnapshot_NewIterator :: "bytes option \<Rightarrow> bytes option \<Rightarrow> 'v goLevelSnapshot \<Rightarrow> 'v goLevelSnapshot option" where
  "goLevelSnapshot_NewIterator start limit s =
     (case gs_snapshot s of
        None \<Rightarrow> None
      | Some db \<Rightarrow>
          Some (s\<lparr>gs_iter := Some (if gs_released s
                   then \<lparr>cu_left = [], cu_at = None, cu_released = False, cu_err = True\<rparr>
                   else NewIterator db start limit)\<rparr>))"

definition goLevelSnapshot_IterNext :: "'v goLevelSnapshot \<Rightarrow> (bool \<times> 'v goLevelSnapshot) option" where
  "goLevelSnapshot_IterNext s =
     (case gs_iter s of
        None \<Rightarrow> None
      | Some c \<Rightarrow> Some (case cursor_Next c of (found, c') \<Rightarrow> (found, s\<lparr>gs_iter := Some c'\<rparr>)))"

definition goLevelSnapshot_IterKey :: "'v goLevelSnapshot \<Rightarrow> bytes option option" where
  "goLevelSnapshot_IterKey s = map_option (\<lambda>c. map_option fst (cu_at c)) (gs_iter s)"

definition goLevelSnapshot_IterValue :: "'v goLevelSnapshot \<Rightarrow> 'v option option" where
  "goLevelSnapshot_IterValue s = map_option (\<lambda>c. map_option snd (cu_at c)) (gs_iter s)"

definition goLevelSnapshot_ReleaseIterator :: "'v goLevelSnapshot \<Rightarrow> 'v goLevelSnapshot option" where
  "goLevelSnapshot_ReleaseIterator s = map_option (\<lambda>c. s\<lparr>gs_iter := Some (cursor_Release c)\<rparr>) (gs_iter s)"

definition goLevelSnapshot_Release :: "'v goLevelSnapshot \<Rightarrow> 'v goLevelSnapshot option" where
  "goLevelSnapshot_Release s = map_option (\<lambda>_. s\<lparr>gs_released := True\<rparr>) (gs_snapshot s)"

section \<open>Batches\<close>

text \<open>
  The operations recorded since \<^verbatim>\<open>New\<close> or \<^verbatim>\<open>Reset\<close>. Only writing accepts a batch
  that was never made: goleveldb takes a nil batch for an empty one.
\<close>

type_synonym 'v goLevelBatch = "'v batch_op list option"

definition GetBatch :: "'v goLevelBatch" where
  "GetBatch = None"

definition goLevelBatch_New :: "'v goLevelBatch \<Rightarrow> 'v goLevelBatch" where
  "goLevelBatch_New b = Some []"

definition goLevelBatch_Len :: "'v goLevelBatch \<Rightarrow> nat option" where
  "goLevelBatch_Len b = map_option length b"

definition goLevelBatch_Set :: "bytes \<Rightarrow> 'v \<Rightarrow> 'v goLevelBatch \<Rightarrow> 'v goLevelBatch option" where
  "goLevelBatch_Set key value b = map_option (\<lambda>ops. Some (ops @ [BatchPut key value])) b"

definition goLevelBatch_Delete :: "bytes \<Rightarrow> 'v goLevelBatch \<Rightarrow> 'v goLevelBatch option" where
  "goLevelBatch_Delete key b = map_option (\<lambda>ops. Some (ops @ [BatchDelete key])) b"

definition goLevelBatch_Write :: "'v kv \<Rightarrow> 'v goLevelBatch \<Rightarrow> 'v kv" where
  "goLevelBatch_Write db b = (case b of None \<Rightarrow> db | Some ops \<Rightarrow> fold batch_apply ops db)"

definition goLevelBatch_Reset :: "'v goLevelBatch \<Rightarrow> 'v goLevelBatch option" where
  "goLevelBatch_Reset b = map_option (\<lambda>_. Some []) b"

section \<open>Going through an iterator\<close>

text \<open>
  The loop of every reader: \<^verbatim>\<open>for iter.Next()\<close>, with the key and the value at each turn.
  It stops after \<open>fuel\<close> turns.
\<close>

fun collect ::
    "('c \<Rightarrow> (bool \<times> 'c) option) \<Rightarrow> ('c \<Rightarrow> bytes option option) \<Rightarrow> ('c \<Rightarrow> 'v option option) \<Rightarrow> nat \<Rightarrow> 'c \<Rightarrow>
     ((bytes option \<times> 'v option) list \<times> 'c) option" where
  "collect nxt key val 0 c = None"
| "collect nxt key val (Suc n) c =
     (case nxt c of
        None \<Rightarrow> None
      | Some (False, c') \<Rightarrow> Some ([], c')
      | Some (True, c') \<Rightarrow>
          (case (key c', val c') of
             (Some k, Some v) \<Rightarrow> (case collect nxt key val n c' of None \<Rightarrow> None | Some (es, c'') \<Rightarrow> Some ((k, v) # es, c''))
           | _ \<Rightarrow> None))"

text \<open>What such a loop relies on: \<open>todo\<close> are the entries still to come.\<close>

locale iteration =
  fixes nxt :: "'c \<Rightarrow> (bool \<times> 'c) option"
    and key :: "'c \<Rightarrow> bytes option option"
    and val :: "'c \<Rightarrow> 'v option option"
    and todo :: "'c \<Rightarrow> (bytes \<times> 'v) list option"
  assumes at_end: "todo c = Some [] \<Longrightarrow> \<exists>c'. nxt c = Some (False, c') \<and> todo c' = Some []"
    and moves: "todo c = Some ((k, v) # es) \<Longrightarrow>
      \<exists>c'. nxt c = Some (True, c') \<and> todo c' = Some es \<and> key c' = Some (Some k) \<and> val c' = Some (Some v)"
begin

lemma collects:
  assumes "todo c = Some es" "length es < n"
  shows "\<exists>c'. collect nxt key val n c = Some (map (\<lambda>(k, v). (Some k, Some v)) es, c') \<and> todo c' = Some []"
  using assms
proof (induction es arbitrary: c n)
  case Nil
  then show ?case using at_end [of c] by (cases n) auto
next
  case (Cons e es)
  obtain k v where e: "e = (k, v)" by (cases e)
  obtain m where n: "n = Suc m" "length es < m" using Cons.prems(2) by (cases n) auto
  obtain c' where c': "nxt c = Some (True, c')" "todo c' = Some es" "key c' = Some (Some k)" "val c' = Some (Some v)"
    using moves Cons.prems(1) e by blast
  show ?case using Cons.IH [OF c'(2) n(2)] c' by (auto simp: n(1) e)
qed

lemma same_todo_same_entries:
  assumes "todo c = todo d" "todo c = Some es"
  shows "map_option fst (collect nxt key val (Suc (length es)) c) = map_option fst (collect nxt key val (Suc (length es)) d)"
  using collects [of c es "Suc (length es)"] collects [of d es "Suc (length es)"] assms by auto

end

definition cursor_todo :: "'v cursor \<Rightarrow> (bytes \<times> 'v) list option" where
  "cursor_todo c = (if cu_err c \<or> cu_released c then None else Some (cu_left c))"

lemma cursor_todo_New: "cursor_todo (NewIterator db start limit) = Some (Iterator_New db start limit)"
  by (simp add: cursor_todo_def NewIterator_def Iterator_New_def)

lemma cursor_at_end:
  assumes "cursor_todo c = Some []"
  shows "cursor_Next c = (False, c\<lparr>cu_at := None\<rparr>)" "cursor_todo (c\<lparr>cu_at := None\<rparr>) = Some []"
  using assms by (auto simp: cursor_todo_def cursor_Next_def split: if_splits)

lemma cursor_moves:
  assumes "cursor_todo c = Some (e # es)"
  shows "cursor_Next c = (True, c\<lparr>cu_at := Some e, cu_left := es\<rparr>)" "cursor_todo (c\<lparr>cu_at := Some e, cu_left := es\<rparr>) = Some es"
  using assms by (auto simp: cursor_todo_def cursor_Next_def split: if_splits)

lemma Iterator_New_length: "length (Iterator_New db start limit) \<le> length db"
  by (simp add: Iterator_New_def kv_range_def split: option.split)

definition iterator_todo :: "'v goLevelIterator \<Rightarrow> (bytes \<times> 'v) list option" where
  "iterator_todo i = Option.bind (gi_iter i) cursor_todo"

definition snapshot_todo :: "'v goLevelSnapshot \<Rightarrow> (bytes \<times> 'v) list option" where
  "snapshot_todo s = Option.bind (gs_iter s) cursor_todo"

interpretation level_iteration: iteration goLevelIterator_Next goLevelIterator_Key goLevelIterator_Value iterator_todo
proof unfold_locales
  fix i :: "'v goLevelIterator"
  assume "iterator_todo i = Some []"
  then obtain c where c: "gi_iter i = Some c" "cursor_todo c = Some []" by (auto simp: iterator_todo_def bind_eq_Some_conv)
  then show "\<exists>i'. goLevelIterator_Next i = Some (False, i') \<and> iterator_todo i' = Some []"
    by (simp add: iterator_todo_def goLevelIterator_Next_def cursor_at_end)
next
  fix i :: "'v goLevelIterator" and k v es
  assume "iterator_todo i = Some ((k, v) # es)"
  then obtain c where c: "gi_iter i = Some c" "cursor_todo c = Some ((k, v) # es)" by (auto simp: iterator_todo_def bind_eq_Some_conv)
  then show "\<exists>i'. goLevelIterator_Next i = Some (True, i') \<and> iterator_todo i' = Some es \<and>
      goLevelIterator_Key i' = Some (Some k) \<and> goLevelIterator_Value i' = Some (Some v)"
    by (simp add: iterator_todo_def goLevelIterator_Next_def goLevelIterator_Key_def goLevelIterator_Value_def cursor_moves)
qed

interpretation snapshot_iteration: iteration goLevelSnapshot_IterNext goLevelSnapshot_IterKey goLevelSnapshot_IterValue snapshot_todo
proof unfold_locales
  fix s :: "'v goLevelSnapshot"
  assume "snapshot_todo s = Some []"
  then obtain c where c: "gs_iter s = Some c" "cursor_todo c = Some []" by (auto simp: snapshot_todo_def bind_eq_Some_conv)
  then show "\<exists>s'. goLevelSnapshot_IterNext s = Some (False, s') \<and> snapshot_todo s' = Some []"
    by (simp add: snapshot_todo_def goLevelSnapshot_IterNext_def cursor_at_end)
next
  fix s :: "'v goLevelSnapshot" and k v es
  assume "snapshot_todo s = Some ((k, v) # es)"
  then obtain c where c: "gs_iter s = Some c" "cursor_todo c = Some ((k, v) # es)" by (auto simp: snapshot_todo_def bind_eq_Some_conv)
  then show "\<exists>s'. goLevelSnapshot_IterNext s = Some (True, s') \<and> snapshot_todo s' = Some es \<and>
      goLevelSnapshot_IterKey s' = Some (Some k) \<and> goLevelSnapshot_IterValue s' = Some (Some v)"
    by (simp add: snapshot_todo_def goLevelSnapshot_IterNext_def goLevelSnapshot_IterKey_def goLevelSnapshot_IterValue_def cursor_moves)
qed

section \<open>The patterns\<close>

definition entries_of :: "(bytes \<times> 'v) list \<Rightarrow> (bytes option \<times> 'v option) list" where
  "entries_of = map (\<lambda>(k, v). (Some k, Some v))"

text \<open>An iterator yields the entries of \<open>Iterator_New\<close>, in order, and ends without an error.\<close>

lemma iterator_reads:
  assumes "length db < n"
  shows "\<exists>i. collect goLevelIterator_Next goLevelIterator_Key goLevelIterator_Value n
      (goLevelIterator_New start limit (GetIterator db)) = Some (entries_of (Iterator_New db start limit), i) \<and>
    Option.bind (goLevelIterator_Release i) goLevelIterator_Error = Some False"
proof -
  let ?i = "goLevelIterator_New start limit (GetIterator db)"
  have t: "iterator_todo ?i = Some (Iterator_New db start limit)"
    by (simp add: iterator_todo_def goLevelIterator_New_def GetIterator_def cursor_todo_New)
  have "length (Iterator_New db start limit) < n"
    using Iterator_New_length assms by (rule le_less_trans)
  from level_iteration.collects [OF t this] show ?thesis
    by (fastforce simp: entries_of_def iterator_todo_def cursor_todo_def goLevelIterator_Release_def goLevelIterator_Error_def
        cursor_Release_def bind_eq_Some_conv split: if_splits)
qed

text \<open>A snapshot keeps the database of when it was made, whatever is written to it later.\<close>

lemma snapshot_keeps:
  assumes "s = goLevelSnapshot_New db GetSnapshot" "length db < n"
  shows "goLevelSnapshot_Get key s = Some (Inr (kv_get key db))"
    and "\<exists>s1 s2. goLevelSnapshot_NewIterator start limit s = Some s1 \<and>
      collect goLevelSnapshot_IterNext goLevelSnapshot_IterKey goLevelSnapshot_IterValue n s1 =
        Some (entries_of (Iterator_New db start limit), s2)"
proof -
  have "length (Iterator_New db start limit) < n"
    using Iterator_New_length assms(2) by (rule le_less_trans)
  moreover have "snapshot_todo (s\<lparr>gs_iter := Some (NewIterator db start limit)\<rparr>) = Some (Iterator_New db start limit)"
    by (simp add: snapshot_todo_def cursor_todo_New)
  ultimately show "\<exists>s1 s2. goLevelSnapshot_NewIterator start limit s = Some s1 \<and>
      collect goLevelSnapshot_IterNext goLevelSnapshot_IterKey goLevelSnapshot_IterValue n s1 =
        Some (entries_of (Iterator_New db start limit), s2)"
    using snapshot_iteration.collects [of "s\<lparr>gs_iter := Some (NewIterator db start limit)\<rparr>" _ n]
    by (fastforce simp: goLevelSnapshot_NewIterator_def goLevelSnapshot_New_def GetSnapshot_def entries_of_def assms(1))
qed (simp add: goLevelSnapshot_Get_def goLevelSnapshot_New_def GetSnapshot_def assms(1))

text \<open>Entries recorded in a batch and written arrive together and in order; a reset forgets them.\<close>

fun batch_records :: "'v batch_op list \<Rightarrow> 'v goLevelBatch \<Rightarrow> 'v goLevelBatch option" where
  "batch_records [] b = Some b"
| "batch_records (BatchPut k v # ops) b = Option.bind (goLevelBatch_Set k v b) (batch_records ops)"
| "batch_records (BatchDelete k # ops) b = Option.bind (goLevelBatch_Delete k b) (batch_records ops)"

lemma batch_records_ops: "batch_records ops (Some before) = Some (Some (before @ ops))"
  by (induction ops "Some before" arbitrary: before rule: batch_records.induct)
    (simp_all add: goLevelBatch_Set_def goLevelBatch_Delete_def)

lemma batch_writes:
  assumes "batch_records ops (goLevelBatch_New b) = Some b'"
  shows "goLevelBatch_Write db b' = Batch_Write db ops" "goLevelBatch_Len b' = Some (length ops)"
    "Option.bind (goLevelBatch_Reset b') (\<lambda>r. Some (goLevelBatch_Write db r)) = Some db"
  using assms batch_records_ops [of ops "[]"]
  by (auto simp: goLevelBatch_New_def goLevelBatch_Write_def goLevelBatch_Len_def goLevelBatch_Reset_def Batch_Write_def)

fun batch_last :: "bytes \<Rightarrow> 'v batch_op list \<Rightarrow> 'v option \<Rightarrow> 'v option" where
  "batch_last key [] old = old"
| "batch_last key (BatchPut k v # ops) old = batch_last key ops (if key = k then Some v else old)"
| "batch_last key (BatchDelete k # ops) old = batch_last key ops (if key = k then None else old)"

lemma batch_lookup:
  "kv_ok db \<Longrightarrow> kv_get key (Batch_Write db ops) = batch_last key ops (kv_get key db)"
proof (induction ops arbitrary: db)
  case (Cons op ops)
  then show ?case by (cases op) (auto simp: Batch_Write_def)
qed (simp add: Batch_Write_def)

end
