(* ===== verification/DbBolt.thy ===== *)
theory DbBolt
  imports DbLayersProps
begin

text \<open>
  \<^verbatim>\<open>common/db/bolt_db.go\<close>: the wrapper of bbolt, a database of named buckets with keys
  that are not blank, read and written in transactions. Of bbolt the model takes what its
  documentation says of \<^verbatim>\<open>CreateBucketIfNotExists\<close>, \<^verbatim>\<open>Get\<close>, \<^verbatim>\<open>Put\<close> and \<^verbatim>\<open>Delete\<close>. A
  bucket of the wrapper is its id: one for which no bbolt bucket could be made panics when it is
  used (\<open>None\<close>). There are no iterators, batches and snapshots: the wrapper returns nil.
\<close>

type_synonym boltBucket = "(bytes \<times> bytes) list"
type_synonym BoltDB = "(bytes \<times> boltBucket) list"

definition BoltMaxKeySize :: nat where "BoltMaxKeySize = 32768"

definition bolt_Put :: "bytes \<Rightarrow> bytes option \<Rightarrow> boltBucket \<Rightarrow> error + boltBucket" where
  "bolt_Put key value b =
     (if key = [] then Inl ErrIllegalArgument
      else if BoltMaxKeySize < length key then Inl ErrOutOfRange
      else Inr (AList.update key (nonNilBytes value) b))"

definition bolt_GetBucket :: "BoltDB \<Rightarrow> bytes \<Rightarrow> error option \<times> BoltDB" where
  "bolt_GetBucket db i =
     (if i = [] then (Some ErrIllegalArgument, db)
      else (None, case map_of db i of Some _ \<Rightarrow> db | None \<Rightarrow> AList.update i [] db))"

definition boltBucket_Get :: "BoltDB \<Rightarrow> bytes \<Rightarrow> bytes \<Rightarrow> bytes option option" where
  "boltBucket_Get db i key = map_option (\<lambda>b. map_of b key) (map_of db i)"

definition boltBucket_Has :: "BoltDB \<Rightarrow> bytes \<Rightarrow> bytes \<Rightarrow> bool option" where
  "boltBucket_Has db i key = map_option (\<lambda>v. v \<noteq> None) (boltBucket_Get db i key)"

definition boltBucket_Set :: "BoltDB \<Rightarrow> bytes \<Rightarrow> bytes \<Rightarrow> bytes option \<Rightarrow> (error + BoltDB) option" where
  "boltBucket_Set db i key value =
     (case map_of db i of
        None \<Rightarrow> None
      | Some b \<Rightarrow> Some (map_sum id (\<lambda>b'. AList.update i b' db) (bolt_Put key value b)))"

definition boltBucket_Delete :: "BoltDB \<Rightarrow> bytes \<Rightarrow> bytes \<Rightarrow> (error + BoltDB) option" where
  "boltBucket_Delete db i key =
     (case map_of db i of None \<Rightarrow> None | Some b \<Rightarrow> Some (Inr (AList.update i (AList.delete key b) db)))"

text \<open>Iterators, batches and snapshots are nil, without an error.\<close>

definition bolt_GetIterator :: "BoltDB \<Rightarrow> unit option" where "bolt_GetIterator db = None"
definition bolt_GetBatch :: "BoltDB \<Rightarrow> unit option" where "bolt_GetBatch db = None"
definition bolt_GetSnapshot :: "BoltDB \<Rightarrow> unit option" where "bolt_GetSnapshot db = None"

text \<open>
  The operations as the program uses them, with \<^verbatim>\<open>GetBucket\<close> first and its error dropped. The
  interface has no place for a panic of a read: it is an error there.
\<close>

definition bolt_backend :: "BoltDB backend" where
  "bolt_backend =
     \<lparr>be_Get = \<lambda>db i k. (case boltBucket_Get (snd (bolt_GetBucket db i)) i k of None \<Rightarrow> Inl ErrUnsupported | Some v \<Rightarrow> Inr v),
      be_Has = \<lambda>db i k. boltBucket_Has (snd (bolt_GetBucket db i)) i k = Some True,
      be_Set = \<lambda>db i k v. boltBucket_Set (snd (bolt_GetBucket db i)) i k v,
      be_Delete = \<lambda>db i k. boltBucket_Delete (snd (bolt_GetBucket db i)) i k\<rparr>"

section \<open>The contract\<close>

definition bolt_view :: "BoltDB \<Rightarrow> db_view" where
  "bolt_view db i = (case map_of db i of None \<Rightarrow> Map.empty | Some b \<Rightarrow> map_of b)"

definition bolt_ok :: "BoltDB \<Rightarrow> bool" where
  "bolt_ok db \<longleftrightarrow> distinct (map fst db) \<and> (\<forall>i b. map_of db i = Some b \<longrightarrow> distinct (map fst b))"

text \<open>Bbolt keeps the contract of the databases for buckets with a name and keys within its bounds.\<close>

interpretation boltdb: backend_laws bolt_backend bolt_view bolt_ok "- {[]}" "\<lambda>k. k \<noteq> [] \<and> length k \<le> BoltMaxKeySize"
proof
  fix r :: BoltDB and i k v :: bytes
  assume r: "bolt_ok r" and i: "i \<in> - {[]}"
  define db where "db = snd (bolt_GetBucket r i)"
  obtain b where b: "map_of db i = Some b" "distinct (map fst b)" "bolt_ok db" "bolt_view db = bolt_view r" "bolt_view r i = map_of b"
  proof (cases "map_of r i")
    case None
    then have "db = AList.update i [] r" using i by (simp add: db_def bolt_GetBucket_def)
    then show ?thesis
      using that [of "[]"] r None
      by (auto simp: bolt_ok_def bolt_view_def fun_eq_iff update_conv' distinct_update simp del: map_of_eq_Some_iff)
  next
    case (Some b)
    then have "db = r" using i by (simp add: db_def bolt_GetBucket_def del: map_of_eq_Some_iff)
    then show ?thesis using that [of b] r Some by (simp add: bolt_ok_def bolt_view_def del: map_of_eq_Some_iff)
  qed
  have upd: "bolt_ok (AList.update i b' db) \<and> bolt_view (AList.update i b' db) = (bolt_view r)(i := map_of b')"
    if "distinct (map fst b')" for b'
    using that b(3) unfolding b(4) [symmetric]
    by (auto simp: bolt_ok_def bolt_view_def fun_eq_iff update_conv' distinct_update simp del: map_of_eq_Some_iff split: option.splits if_splits)
  show "be_Get bolt_backend r i k = Inr (bolt_view r i k)" "be_Has bolt_backend r i k \<longleftrightarrow> bolt_view r i k \<noteq> None"
    using b by (simp_all add: bolt_backend_def boltBucket_Get_def boltBucket_Has_def db_def [symmetric] del: map_of_eq_Some_iff)
  show "\<exists>r'. be_Set bolt_backend r i k (Some v) = Some (Inr r') \<and> bolt_ok r' \<and>
      same_view (- {[]}) (bolt_view r') (op_view (OpSet i k v) (bolt_view r))"
    if "k \<noteq> [] \<and> length k \<le> BoltMaxKeySize"
    using that upd [of "AList.update k v b"] b
    by (auto simp: bolt_backend_def boltBucket_Set_def bolt_Put_def nonNilBytes_def db_def [symmetric] distinct_update update_conv'
        simp del: map_of_eq_Some_iff)
  show "\<exists>r'. be_Delete bolt_backend r i k = Some (Inr r') \<and> bolt_ok r' \<and>
      same_view (- {[]}) (bolt_view r') (op_view (OpDelete i k) (bolt_view r))"
    using upd [of "AList.delete k b"] b
    by (auto simp: bolt_backend_def boltBucket_Delete_def db_def [symmetric] distinct_delete delete_conv' simp del: map_of_eq_Some_iff)
qed

interpretation bolt_layer: backend_laws "layer_backend bolt_backend" "layer_view bolt_view"
  "layer_ok bolt_ok (- {[]}) (\<lambda>k. k \<noteq> [] \<and> length k \<le> BoltMaxKeySize)" "- {[]}" "\<lambda>k. k \<noteq> [] \<and> length k \<le> BoltMaxKeySize"
  by (rule boltdb.layer_laws)

text \<open>
  The buckets of the accounts, the claims and the calculation results have no name: over bbolt
  the first access to one panics.
\<close>

lemma bolt_unnamed_bucket:
  assumes "map_of db [] = None"
  shows "boltBucket_Get (snd (bolt_GetBucket db PrefixIScore)) PrefixIScore key = None"
    "boltBucket_Set (snd (bolt_GetBucket db PrefixClaim)) PrefixClaim key value = None"
    "boltBucket_Delete (snd (bolt_GetBucket db PrefixCalcResult)) PrefixCalcResult key = None"
  using assms
  by (simp_all add: bolt_GetBucket_def boltBucket_Get_def boltBucket_Set_def boltBucket_Delete_def PrefixIScore_def PrefixClaim_def
      PrefixCalcResult_def)

text \<open>Databases made by the wrapper never get such a bucket.\<close>

lemma bolt_no_unnamed:
  assumes "map_of db [] = None"
  shows "map_of (snd (bolt_GetBucket db i)) [] = None"
    "boltBucket_Set db i key value = Some (Inr db') \<Longrightarrow> map_of db' [] = None"
    "boltBucket_Delete db i key = Some (Inr db') \<Longrightarrow> map_of db' [] = None"
proof -
  have u: "map_of (AList.update i x db) [] = None" if "map_of db i \<noteq> None \<or> i \<noteq> []" for x
    using that assms by (cases "i = []") (simp_all add: update_conv' del: map_of_eq_Some_iff)
  show "map_of (snd (bolt_GetBucket db i)) [] = None"
    using assms u by (simp add: bolt_GetBucket_def split: option.split)
  show "boltBucket_Set db i key value = Some (Inr db') \<Longrightarrow> map_of db' [] = None"
    using u by (cases "bolt_Put key value (the (map_of db i))")
      (auto simp: boltBucket_Set_def simp del: map_of_eq_Some_iff split: option.splits)
  show "boltBucket_Delete db i key = Some (Inr db') \<Longrightarrow> map_of db' [] = None"
    using u by (auto simp: boltBucket_Delete_def simp del: map_of_eq_Some_iff split: option.splits)
qed

end
