(* ===== verification/DataDirs.thy ===== *)
theory DataDirs
  imports DoCalc "HOL-Library.Sublist"
begin

text \<open>
  The directories of the IISS data of past terms: \<^verbatim>\<open>findIISSData\<close> and
  \<^verbatim>\<open>cleanupIISSData\<close> of \<^verbatim>\<open>core/db_iissdata.go\<close>, called after a calculation
  with the path of its data. The file system is what \<^verbatim>\<open>ioutil.ReadDir\<close> lists; the result
  is the list of the directories removed. \<^verbatim>\<open>fmt.Sscanf\<close> is modelled as documented for the
  one format used.
\<close>

section \<open>Scanning a name\<close>

definition IISSDataDBPrefix :: string where "IISSDataDBPrefix = ''iiss_rc_db_''"

definition scan_space :: "char \<Rightarrow> bool" where
  "scan_space c \<longleftrightarrow> c \<in> {CHR '' '', CHR 0x09, CHR 0x0B, CHR 0x0C, CHR 0x0D}"

definition scan_digit :: "char \<Rightarrow> bool" where
  "scan_digit c \<longleftrightarrow> 48 \<le> (of_char c :: nat) \<and> of_char c \<le> (57 :: nat)"

definition digits_value :: "string \<Rightarrow> nat" where
  "digits_value ds = foldl (\<lambda>n c. n * 10 + (of_char c - 48)) 0 ds"

text \<open>The verb \<^verbatim>\<open>%d\<close> into an \<^verbatim>\<open>int\<close>: spaces, a sign, digits; what follows is left.\<close>

definition scan_int :: "string \<Rightarrow> int option" where
  "scan_int s =
     (let s1 = dropWhile scan_space s;
          neg = (s1 \<noteq> [] \<and> hd s1 = CHR ''-'');
          s2 = (if s1 \<noteq> [] \<and> (hd s1 = CHR ''-'' \<or> hd s1 = CHR ''+'') then tl s1 else s1);
          ds = takeWhile scan_digit s2;
          v = (if neg then - int (digits_value ds) else int (digits_value ds))
      in if ds = [] then None
         else if - (2 ^ 63) \<le> v \<and> v < 2 ^ 63 then Some v else None)"

definition Sscanf_d :: "string \<Rightarrow> string \<Rightarrow> int option" where
  "Sscanf_d name literal =
     (if take (length literal) name = literal then scan_int (drop (length literal) name) else None)"

section \<open>Directories\<close>

record file_info =
  fi_Name :: string
  fi_IsDir :: bool

text \<open>\<^verbatim>\<open>filepath.Split\<close>: the directory keeps its separator.\<close>

definition path_split :: "string \<Rightarrow> string \<times> string" where
  "path_split path =
     (let name = rev (takeWhile (\<lambda>c. c \<noteq> CHR ''/'') (rev path)) in (take (length path - length name) path, name))"

definition findIISSData :: "(string \<Rightarrow> file_info list option) \<Rightarrow> string \<Rightarrow> string \<Rightarrow> file_info list" where
  "findIISSData readDir dir pre =
     (case readDir dir of
        None \<Rightarrow> []
      | Some files \<Rightarrow>
          filter (\<lambda>f. fi_IsDir f \<and> \<not> (pre \<noteq> [] \<and> take (length pre) (fi_Name f) \<noteq> pre)) files)"

text \<open>\<^verbatim>\<open>backupBH\<close> keeps its value when a name does not scan.\<close>

fun cleanup_loop :: "int \<Rightarrow> int \<Rightarrow> file_info list \<Rightarrow> string list" where
  "cleanup_loop blockHeight backupBH [] = []"
| "cleanup_loop blockHeight backupBH (backup # backups) =
     (let bh = (case Sscanf_d (fi_Name backup) IISSDataDBPrefix of None \<Rightarrow> backupBH | Some n \<Rightarrow> n);
          rest = cleanup_loop blockHeight bh backups
      in if bh < blockHeight then fi_Name backup # rest else rest)"

text \<open>The names of the directories removed from the directory of the path.\<close>

definition cleanupIISSData :: "(string \<Rightarrow> file_info list option) \<Rightarrow> string \<Rightarrow> string list" where
  "cleanupIISSData readDir path =
     (case path_split path of (dir, name) \<Rightarrow>
        (let blockHeight = (case Sscanf_d name IISSDataDBPrefix of None \<Rightarrow> 0 | Some n \<Rightarrow> n)
         in cleanup_loop blockHeight 0 (findIISSData readDir dir IISSDataDBPrefix)))"

text \<open>The path of the data of a term.\<close>

definition IISSDataDB_name :: "nat \<Rightarrow> string" where
  "IISSDataDB_name bh = IISSDataDBPrefix @ dec_digits bh"

section \<open>Names of terms\<close>

lemma dec_digits_digits: "list_all scan_digit (dec_digits n)"
proof (induction n rule: dec_digits.induct)
  case (1 n)
  have d: "scan_digit (char_of (48 + m) :: char)" if "m < 10" for m :: nat
    using that by (auto simp: scan_digit_def)
  show ?case using 1 d [of n] d [of "n mod 10"] by (subst dec_digits.simps) simp
qed

lemma dec_digits_ne [simp]: "dec_digits n \<noteq> []"
  by (subst dec_digits.simps) simp

lemma digits_value_dec_digits [simp]: "digits_value (dec_digits n) = n"
proof (induction n rule: dec_digits.induct)
  case (1 n)
  have "digits_value (ds @ [char_of (48 + m)]) = digits_value ds * 10 + m" if "m < 10" for ds and m :: nat
    using that by (simp add: digits_value_def)
  from this [of "n mod 10" "dec_digits (n div 10)"] this [of n "[]"] show ?case
    using 1 by (subst dec_digits.simps) (auto simp: digits_value_def)
qed

lemma scan_int_dec_digits:
  assumes "n < 2 ^ 63"
  shows "scan_int (dec_digits n) = Some (int n)"
proof -
  have all: "list_all scan_digit (dec_digits n)" by (rule dec_digits_digits)
  obtain c cs where c: "dec_digits n = c # cs" by (cases "dec_digits n") auto
  have "scan_digit c" using all by (simp add: c)
  then have "\<not> scan_space c" "c \<noteq> CHR ''-''" "c \<noteq> CHR ''+''"
    by (auto simp: scan_digit_def scan_space_def)
  then have "dropWhile scan_space (dec_digits n) = dec_digits n" "hd (dec_digits n) \<noteq> CHR ''-''" "hd (dec_digits n) \<noteq> CHR ''+''"
    by (simp_all add: c)
  moreover have tw: "takeWhile scan_digit (dec_digits n) = dec_digits n"
    using all by (simp add: takeWhile_eq_all_conv list_all_iff)
  moreover have "int n < 2 ^ 63" using assms by (metis of_nat_less_iff of_nat_numeral of_nat_power)
  ultimately show ?thesis by (simp add: scan_int_def Let_def tw del: takeWhile_eq_all_conv)
qed

lemma Sscanf_name: "n < 2 ^ 63 \<Longrightarrow> Sscanf_d (IISSDataDB_name n) IISSDataDBPrefix = Some (int n)"
  by (simp add: Sscanf_d_def IISSDataDB_name_def scan_int_dec_digits)

lemma dec_digits_inj: "dec_digits m = dec_digits n \<Longrightarrow> m = n"
  by (metis digits_value_dec_digits)

lemma path_split_join:
  assumes "CHR ''/'' \<notin> set name"
  shows "path_split (dir @ ''/'' @ name) = (dir @ ''/'', name)"
proof -
  have "takeWhile (\<lambda>c. c \<noteq> CHR ''/'') (rev (dir @ ''/'' @ name)) = rev name"
    using assms by (simp add: takeWhile_append)
  then show ?thesis by (simp add: path_split_def)
qed

lemma IISSDataDB_name_ok: "CHR ''/'' \<notin> set (IISSDataDB_name n)"
  using dec_digits_digits [of n]
  by (auto simp: IISSDataDB_name_def IISSDataDBPrefix_def list_all_iff scan_digit_def)

section \<open>What is removed\<close>

definition well_named :: "file_info \<Rightarrow> bool" where
  "well_named f \<longleftrightarrow> (\<exists>n < 2 ^ 63. fi_Name f = IISSDataDB_name n)"

definition older :: "nat \<Rightarrow> string \<Rightarrow> bool" where
  "older h name \<longleftrightarrow> (\<exists>n < h. name = IISSDataDB_name n)"

lemma well_named_name [simp]: "n < 2 ^ 63 \<Longrightarrow> well_named \<lparr>fi_Name = IISSDataDB_name n, fi_IsDir = d\<rparr>"
  by (auto simp: well_named_def)

lemma cleanup_loop_well_named:
  assumes "\<forall>f \<in> set fs. well_named f" "h < 2 ^ 63"
  shows "cleanup_loop (int h) bh fs = filter (older h) (map fi_Name fs)"
  using assms(1)
proof (induction fs arbitrary: bh)
  case (Cons f fs)
  obtain n where n: "n < 2 ^ 63" "fi_Name f = IISSDataDB_name n" using Cons.prems by (auto simp: well_named_def)
  have "older h (IISSDataDB_name n) \<longleftrightarrow> n < h"
    by (auto simp: older_def IISSDataDB_name_def dest: dec_digits_inj)
  with n Cons show ?case by (simp add: Sscanf_name Let_def)
qed simp

text \<open>
  Names that are not of the format: the height a directory is judged by is the last one that
  has been read from a name up to its own, zero when there is none.
\<close>

definition read_height :: "int \<Rightarrow> file_info list \<Rightarrow> int" where
  "read_height bh fs = (case rev (List.map_filter (\<lambda>f. Sscanf_d (fi_Name f) IISSDataDBPrefix) fs) of [] \<Rightarrow> bh | n # _ \<Rightarrow> n)"

lemma read_height_simps [simp]:
  "read_height bh [] = bh"
  "read_height bh (f # fs) = read_height (case Sscanf_d (fi_Name f) IISSDataDBPrefix of None \<Rightarrow> bh | Some n \<Rightarrow> n) fs"
proof -
  show "read_height bh (f # fs) = read_height (case Sscanf_d (fi_Name f) IISSDataDBPrefix of None \<Rightarrow> bh | Some n \<Rightarrow> n) fs"
    by (cases "rev (List.map_filter (\<lambda>f. Sscanf_d (fi_Name f) IISSDataDBPrefix) fs)")
      (auto simp: read_height_def map_filter_simps split: option.splits)
qed (simp add: read_height_def map_filter_simps)

definition judged_older :: "int \<Rightarrow> file_info list \<Rightarrow> nat \<Rightarrow> bool" where
  "judged_older h fs k \<longleftrightarrow> read_height 0 (take (Suc k) fs) < h"

lemma cleanup_loop_judged:
  "cleanup_loop h bh fs = map (\<lambda>k. fi_Name (fs ! k)) (filter (\<lambda>k. read_height bh (take (Suc k) fs) < h) [0..<length fs])"
proof (induction fs arbitrary: bh)
  case (Cons f fs)
  have u: "[0..<length (f # fs)] = 0 # map Suc [0..<length fs]" by (simp add: upt_conv_Cons map_Suc_upt del: upt_Suc)
  show ?case unfolding u using Cons by (simp add: Let_def filter_map comp_def split: option.splits)
qed simp

text \<open>
  C28: What is removed after a calculation. Of the entries of the directory of its data, in the order of their
  names, those that are directories with the prefix of IISS data are judged, each by the last height read from a
  name up to its own, and removed when that height is below the one of the calculation. When all of their names are of the
  format this is: the directories of the terms before it, not its own, not those of later terms, no
  file. A name with the prefix and no height is judged by the height of a neighbour.
\<close>

theorem cleanup_removes_older_terms:
  assumes "readDir (dir @ ''/'') = Some files" "h < 2 ^ 63"
    and "fs = filter (\<lambda>f. fi_IsDir f \<and> prefix IISSDataDBPrefix (fi_Name f)) files"
  shows "cleanupIISSData readDir (dir @ ''/'' @ IISSDataDB_name h) =
      map (\<lambda>k. fi_Name (fs ! k)) (filter (judged_older (int h) fs) [0..<length fs]) \<and>
    ((\<forall>f \<in> set fs. well_named f) \<longrightarrow>
      cleanupIISSData readDir (dir @ ''/'' @ IISSDataDB_name h) = filter (older h) (map fi_Name (filter fi_IsDir files)))"
proof -
  have p: "take (length IISSDataDBPrefix) s = IISSDataDBPrefix \<longleftrightarrow> prefix IISSDataDBPrefix s" for s
    by (metis append_eq_conv_conj prefix_def take_is_prefix)
  have "IISSDataDBPrefix \<noteq> []" by (simp add: IISSDataDBPrefix_def)
  then have l: "cleanupIISSData readDir (dir @ ''/'' @ IISSDataDB_name h) = cleanup_loop (int h) 0 fs"
    unfolding cleanupIISSData_def findIISSData_def path_split_join [OF IISSDataDB_name_ok]
    by (simp add: assms(1,3) Sscanf_name [OF assms(2)] p Let_def)
  have "filter (older h) (map fi_Name fs) = filter (older h) (map fi_Name (filter fi_IsDir files))"
    unfolding assms(3) by (induction files) (auto simp: older_def IISSDataDB_name_def)
  then have "(\<forall>f \<in> set fs. well_named f) \<longrightarrow> cleanup_loop (int h) 0 fs = filter (older h) (map fi_Name (filter fi_IsDir files))"
    using cleanup_loop_well_named [OF _ assms(2), of fs 0] by simp
  moreover have "cleanup_loop (int h) 0 fs = map (\<lambda>k. fi_Name (fs ! k)) (filter (judged_older (int h) fs) [0..<length fs])"
    by (simp add: cleanup_loop_judged judged_older_def [abs_def])
  ultimately show ?thesis unfolding l by blast
qed

theorem cleanup_removes_older_terms_witness:
  "cleanupIISSData (\<lambda>_. Some [\<lparr>fi_Name = IISSDataDB_name 100, fi_IsDir = True\<rparr>, \<lparr>fi_Name = IISSDataDB_name 50, fi_IsDir = True\<rparr>,
      \<lparr>fi_Name = IISSDataDB_name 7, fi_IsDir = False\<rparr>]) (''data'' @ ''/'' @ IISSDataDB_name 100) =
   filter (older 100) [IISSDataDB_name 100, IISSDataDB_name 50]"
proof -
  let ?files = "[\<lparr>fi_Name = IISSDataDB_name 100, fi_IsDir = True\<rparr>, \<lparr>fi_Name = IISSDataDB_name 50, fi_IsDir = True\<rparr>,
      \<lparr>fi_Name = IISSDataDB_name 7, fi_IsDir = False\<rparr>]"
  have d: "(\<lambda>_. Some ?files) (''data'' @ ''/'') = Some ?files" by (rule HOL.refl)
  have h: "(100 :: nat) < 2 ^ 63" by simp
  note removes = cleanup_removes_older_terms [OF d h HOL.refl]
  have "\<forall>f \<in> set (filter (\<lambda>f. fi_IsDir f \<and> prefix IISSDataDBPrefix (fi_Name f)) ?files). well_named f" by auto
  from removes [THEN conjunct2, THEN mp, OF this] have "cleanupIISSData (\<lambda>_. Some ?files) (''data'' @ ''/'' @ IISSDataDB_name 100) =
      filter (older 100) (map fi_Name (filter fi_IsDir ?files))" .
  moreover have "map fi_Name (filter fi_IsDir ?files) = [IISSDataDB_name 100, IISSDataDB_name 50]" by simp
  ultimately show ?thesis by (simp only:)
qed

lemma cleanup_example:
  "cleanupIISSData (\<lambda>_. Some [\<lparr>fi_Name = ''iiss_rc_db_100'', fi_IsDir = True\<rparr>, \<lparr>fi_Name = ''iiss_rc_db_50'', fi_IsDir = True\<rparr>,
      \<lparr>fi_Name = ''iiss_rc_db_7'', fi_IsDir = False\<rparr>, \<lparr>fi_Name = ''other'', fi_IsDir = True\<rparr>]) ''data/iiss_rc_db_100'' =
   [''iiss_rc_db_50'']"
  by code_simp

text \<open>A directory whose name has the prefix and no height is taken for the one before it.\<close>

lemma cleanup_stray_name:
  "cleanupIISSData (\<lambda>_. Some [\<lparr>fi_Name = ''iiss_rc_db_saved'', fi_IsDir = True\<rparr>]) ''data/iiss_rc_db_100'' = [''iiss_rc_db_saved'']"
  by code_simp

end
