(* ===== verification/IpcServer.thy ===== *)
theory IpcServer
  imports ServiceTheorems Flags
begin

text \<open>
  \<^verbatim>\<open>common/ipc/server.go\<close>, the connections of \<^verbatim>\<open>core/manager.go\<close> and the program
  \<^verbatim>\<open>icon_rc\<close>: listening, the loop that serves a connection, the two servers of a process
  (requests and monitoring), start and end. Every connection is served by a goroutine; the
  server as a whole is a transition system over the service of \<open>Service\<close> and the list of
  its connections. The sockets are parameters: which addresses can be listened on or dialled,
  and what a peer will write.
\<close>

section \<open>The server\<close>

record server =
  ls_listener :: "(string \<times> string) option"
  ls_closed :: bool
  ls_handler :: bool

definition NewServer :: server where
  "NewServer = \<lparr>ls_listener = None, ls_closed = False, ls_handler = False\<rparr>"

text \<open>The error, the socket files removed first, the server.\<close>

definition server_Listen :: "(string \<Rightarrow> string \<Rightarrow> bool) \<Rightarrow> string \<Rightarrow> string \<Rightarrow> server \<Rightarrow> error option \<times> string list \<times> server" where
  "server_Listen can network address s =
     (let removed = (if network = ''unix'' then [address] else []) in
      if can network address then (None, removed, s\<lparr>ls_listener := Some (network, address), ls_closed := False\<rparr>)
      else (Some ErrFile, removed, s))"

definition server_SetHandler :: "server \<Rightarrow> server" where
  "server_SetHandler s = s\<lparr>ls_handler := True\<rparr>"

text \<open>Closing a server that never listened is a nil dereference (\<open>None\<close>), closing it again an error.\<close>

definition server_Close :: "server \<Rightarrow> (error option \<times> server) option" where
  "server_Close s =
     (case ls_listener s of
        None \<Rightarrow> None
      | Some _ \<Rightarrow> Some (if ls_closed s then Some ErrFile else None, s\<lparr>ls_closed := True\<rparr>))"

section \<open>Serving a connection\<close>

text \<open>Whether a connection was accepted by the monitor server is kept with it.\<close>

datatype conn_state = ConnAccepted | ConnServing | ConnClosed

type_synonym conns = "(connection \<times> conn_state \<times> bool) list"

definition OnConnect :: "bool \<Rightarrow> manager \<Rightarrow> connection \<Rightarrow> connection" where
  "OnConnect mm m c = newConnection (m\<lparr>monitorMode := mm\<rparr>) c"

text \<open>One turn of the loop; the last result says whether it goes on.\<close>

definition handle_next :: "environment \<Rightarrow> service \<Rightarrow> connection \<Rightarrow> (service \<times> connection \<times> bool) option" where
  "handle_next env s c =
     (case Connection_HandleMessage c of
        (Inl _, c') \<Rightarrow> Some (s, c', False)
      | (Inr None, c') \<Rightarrow> Some (s, c', True)
      | (Inr (Some msg), c') \<Rightarrow>
          (case HandleMessage (m_Msg msg) of
             Goroutine \<Rightarrow> Some (s\<lparr>sv_tasks := sv_tasks s @ [msg]\<rparr>, c', True)
           | Inline \<Rightarrow>
               (case run_handler env None msg (sv_mgr s) of
                  None \<Rightarrow> None
                | Some (err, out, m') \<Rightarrow> Some (s\<lparr>sv_mgr := m', sv_sent := sv_sent s @ out\<rparr>, c', err = None))
           | UnknownMessage \<Rightarrow> Some (s, c', False)))"

lemma HandleMessage_reads:
  assumes "Connection_HandleMessage c = (Inr r, c')"
  shows "conn_in c \<noteq> []" "conn_in c' = tl (conn_in c)" "conn_handler c' = conn_handler c" "conn_out c' = conn_out c"
    "(\<And>msg. r = Some msg \<Longrightarrow> m_Msg msg \<in> set (conn_handler c))"
  using assms
  by (auto simp: Connection_HandleMessage_def read_message_def split: list.splits prod.splits option.splits if_splits)

lemma handle_next_reads:
  assumes "handle_next env s c = Some (s', c', True)"
  shows "length (conn_in c') < length (conn_in c)"
proof -
  obtain r where r: "Connection_HandleMessage c = (Inr r, c')"
    using assms by (auto simp: handle_next_def split: prod.splits sum.splits option.splits dispatch.splits)
  show ?thesis using HandleMessage_reads(1,2) [OF r] by (cases "conn_in c") auto
qed

text \<open>The loop of \<^verbatim>\<open>handleConnection\<close> with nothing else running meanwhile.\<close>

function handleConnection :: "environment \<Rightarrow> service \<Rightarrow> connection \<Rightarrow> (service \<times> connection) option" where
  "handleConnection env s c =
     (case handle_next env s c of
        None \<Rightarrow> None
      | Some (s', c', True) \<Rightarrow> handleConnection env s' c'
      | Some (s', c', False) \<Rightarrow> Some (s', c'))"
  by pat_completeness auto

termination
  by (relation "measure (\<lambda>(env, s, c). length (conn_in c))") (auto dest: handle_next_reads)

declare handleConnection.simps [simp del]

text \<open>The server with all its connections, each step taken by any goroutine.\<close>

inductive server_step :: "environment \<Rightarrow> service \<times> conns \<Rightarrow> service \<times> conns \<Rightarrow> bool" for env where
  accept: "server_step env (s, cs) (s, cs @ [(connectionFromConn inbox, ConnAccepted, mm)])"
| connect: "i < length cs \<Longrightarrow> cs ! i = (c, ConnAccepted, mm) \<Longrightarrow>
    server_step env (s, cs) (s, cs[i := (OnConnect mm (sv_mgr s) c, ConnServing, mm)])"
| turn: "i < length cs \<Longrightarrow> cs ! i = (c, ConnServing, mm) \<Longrightarrow> handle_next env s c = Some (s', c', True) \<Longrightarrow>
    server_step env (s, cs) (s', cs[i := (c', ConnServing, mm)])"
| leave: "i < length cs \<Longrightarrow> cs ! i = (c, ConnServing, mm) \<Longrightarrow> handle_next env s c = Some (s', c', False) \<Longrightarrow>
    server_step env (s, cs) (s', cs[i := (c', ConnClosed, mm)])"
| work: "service_step env s s' \<Longrightarrow> server_step env (s, cs) (s', cs)"
| crash: "service_step env s s' \<Longrightarrow> server_step env (s, cs) (s', [])"

inductive_cases server_stepE: "server_step env p p'"

section \<open>The process\<close>

record RcConfig =
  IISSDataDir :: string
  DBDir :: string
  IpcNet :: string
  IpcAddr :: string
  ClientMode :: bool
  cfg_DBCount :: int
  Monitor :: bool
  LogFile :: string
  LogMaxSize :: int
  LogMaxBackups :: int
  CalcDebugConf :: string
  FileName :: string

text \<open>What a start finds: the disk, the sockets, the peer of a dialled address, the debug configuration.\<close>

record startup =
  su_storage :: storage
  su_listens :: "string \<Rightarrow> string \<Rightarrow> bool"
  su_dials :: "string \<Rightarrow> string \<Rightarrow> obj list option"
  su_debugConf :: "string \<Rightarrow> CalcDebugConfig option"

record process =
  pr_clientMode :: bool
  pr_service :: service
  pr_server :: "server option"
  pr_conn :: "connection option"
  pr_monitor :: "server option"

definition DebugAddress :: string where "DebugAddress = ''/tmp/.icon-rc-monitor.sock''"

text \<open>The goroutine that reruns an interrupted calculation is started in any case (\<open>sv_reload\<close>).\<close>

definition InitManager :: "startup \<Rightarrow> RcConfig \<Rightarrow> (error + process) option" where
  "InitManager su cfg =
     (case NewContext (su_storage su) (DBDir cfg) ''goleveldb'' ''IScore'' (cfg_DBCount cfg) (su_debugConf su (CalcDebugConf cfg)) of
        None \<Rightarrow> None
      | Some ctx \<Rightarrow>
          (let sv = first_state False ctx;
               p = \<lparr>pr_clientMode = ClientMode cfg, pr_service = sv, pr_server = None, pr_conn = None, pr_monitor = None\<rparr>;
               channel = (if ClientMode cfg
                 then (case su_dials su (IpcNet cfg) (IpcAddr cfg) of
                         None \<Rightarrow> Inl ErrDial
                       | Some inbox \<Rightarrow> Inr (p\<lparr>pr_conn := Some (OnConnect False (sv_mgr sv) (connectionFromConn inbox))\<rparr>))
                 else (case server_Listen (su_listens su) (IpcNet cfg) (IpcAddr cfg) NewServer of
                         (Some e, _) \<Rightarrow> Inl e
                       | (None, _, srv) \<Rightarrow> Inr (p\<lparr>pr_server := Some (server_SetHandler srv)\<rparr>)))
           in Some (case channel of
                Inl e \<Rightarrow> Inl e
              | Inr p1 \<Rightarrow>
                  if Monitor cfg
                  then (case server_Listen (su_listens su) ''unix'' DebugAddress NewServer of
                          (Some e, _) \<Rightarrow> Inl e
                        | (None, _, srv) \<Rightarrow> Inr (p1\<lparr>pr_monitor := Some (server_SetHandler srv)\<rparr>))
                  else Inr p1)))"

text \<open>The databases \<^verbatim>\<open>CloseIScoreDB\<close> closes, in order, and what is left of the context's.\<close>

definition CloseIScoreDB :: "IScoreDB \<Rightarrow> string list \<times> IScoreDB" where
  "CloseIScoreDB idb =
     ([DBRoot (info idb)] @ map dir_string (Account0 idb @ Account1 idb) @
        [''calculation_result'', ''preCommit'', ''claim'', ''claim_backup''],
      CloseAccountDB idb)"

text \<open>
  \<^verbatim>\<open>Close\<close>: cancels the calculation, waits for the tasks and closes connection or
  server and the databases. It never returns while a task is counted (outer \<open>None\<close>); inside,
  \<open>None\<close> is a panic. The monitor server is left open.
\<close>

definition close_databases :: "process \<Rightarrow> process \<times> string list" where
  "close_databases p =
     (let sv = pr_service p; ctx = mgr_ctx (sv_mgr sv) in
      case CloseIScoreDB (DB ctx) of
        (closed, idb) \<Rightarrow> (p\<lparr>pr_service := sv\<lparr>sv_mgr := set_ctx (ctx\<lparr>DB := idb\<rparr>) (sv_mgr sv)\<rparr>\<rparr>, closed))"

definition manager_Close :: "process \<Rightarrow> (process \<times> string list) option option" where
  "manager_Close p =
     (let sv = pr_service p; m = sv_mgr sv; ctx = (mgr_ctx m)\<lparr>Cancel := notifyExit (Cancel (mgr_ctx m))\<rparr>;
          p1 = p\<lparr>pr_service := sv\<lparr>sv_mgr := set_ctx ctx m\<rparr>\<rparr>
      in if \<not> Close_returns m then None
         else Some (if pr_clientMode p
           then (case pr_conn p1 of None \<Rightarrow> None | Some _ \<Rightarrow> Some (close_databases p1))
           else (case Option.bind (pr_server p1) server_Close of
                   None \<Rightarrow> None
                 | Some (_, srv) \<Rightarrow> Some (close_databases (p1\<lparr>pr_server := Some srv\<rparr>)))))"

text \<open>The loop of a process that dialled: it serves its connection and then closes.\<close>

definition client_Loop :: "environment \<Rightarrow> process \<Rightarrow> (process \<times> string list) option option" where
  "client_Loop env p =
     (case pr_conn p of
        None \<Rightarrow> Some None
      | Some c \<Rightarrow>
          (case handleConnection env (pr_service p) c of
             None \<Rightarrow> Some None
           | Some (sv, c') \<Rightarrow> manager_Close (p\<lparr>pr_service := sv, pr_conn := Some c'\<rparr>)))"

section \<open>The program\<close>

record options =
  op_cfg :: RcConfig
  op_generate :: bool
  op_version :: bool

definition default_options :: options where
  "default_options =
     \<lparr>op_cfg = \<lparr>IISSDataDir = ''./iissdata'', DBDir = ''.iscoredb'', IpcNet = ''unix'', IpcAddr = ''/tmp/icon-rc.sock'',
        ClientMode = False, cfg_DBCount = 2, Monitor = False, LogFile = ''icon_rc.log'', LogMaxSize = 10, LogMaxBackups = 10,
        CalcDebugConf = ''./calculation_debug.json'', FileName = ''rc_config.json''\<rparr>,
      op_generate = False, op_version = False\<rparr>"

definition set_cfg :: "(RcConfig \<Rightarrow> RcConfig) \<Rightarrow> options \<Rightarrow> options" where
  "set_cfg f x = x\<lparr>op_cfg := f (op_cfg x)\<rparr>"

definition icon_rc_flags :: "options flag_set" where
  "icon_rc_flags =
     [(''iissdata'', StringVar (\<lambda>v. set_cfg (\<lambda>c. c\<lparr>IISSDataDir := v\<rparr>))),
      (''db'', StringVar (\<lambda>v. set_cfg (\<lambda>c. c\<lparr>DBDir := v\<rparr>))),
      (''ipc-net'', StringVar (\<lambda>v. set_cfg (\<lambda>c. c\<lparr>IpcNet := v\<rparr>))),
      (''ipc-addr'', StringVar (\<lambda>v. set_cfg (\<lambda>c. c\<lparr>IpcAddr := v\<rparr>))),
      (''config'', StringVar (\<lambda>v. set_cfg (\<lambda>c. c\<lparr>FileName := v\<rparr>))),
      (''client'', BoolVar (\<lambda>v. set_cfg (\<lambda>c. c\<lparr>ClientMode := v\<rparr>))),
      (''monitor'', BoolVar (\<lambda>v. set_cfg (\<lambda>c. c\<lparr>Monitor := v\<rparr>))),
      (''db-count'', IntVar (\<lambda>v. set_cfg (\<lambda>c. c\<lparr>cfg_DBCount := v\<rparr>))),
      (''log-file'', StringVar (\<lambda>v. set_cfg (\<lambda>c. c\<lparr>LogFile := v\<rparr>))),
      (''log-max-size'', IntVar (\<lambda>v. set_cfg (\<lambda>c. c\<lparr>LogMaxSize := v\<rparr>))),
      (''log-max-backups'', IntVar (\<lambda>v. set_cfg (\<lambda>c. c\<lparr>LogMaxBackups := v\<rparr>))),
      (''gen'', BoolVar (\<lambda>v x. x\<lparr>op_generate := v\<rparr>)),
      (''version'', BoolVar (\<lambda>v x. x\<lparr>op_version := v\<rparr>)),
      (''calculate-debug-conf'', StringVar (\<lambda>v. set_cfg (\<lambda>c. c\<lparr>CalcDebugConf := v\<rparr>)))]"

definition MaxDBCount :: int where "MaxDBCount = 256"

text \<open>
  How the program goes: refused arguments, the version, a configuration file written with the
  values, a panic, or a running manager, with whether the number of databases was reported as
  too large. A signal then runs \<open>manager_Close\<close>.
\<close>

datatype icon_rc_end = BadUsage | PrintsVersion | WritesConfig string RcConfig | Panics | Runs bool process

definition icon_rc_main :: "(string \<Rightarrow> bool) \<Rightarrow> startup \<Rightarrow> string list \<Rightarrow> icon_rc_end" where
  "icon_rc_main canWrite su args =
     (case FlagSet_Parse icon_rc_flags args default_options of
        None \<Rightarrow> BadUsage
      | Some opts \<Rightarrow>
          (let cfg = op_cfg opts in
           if op_version opts then PrintsVersion
           else if op_generate opts then
             (let cfg1 = (if FileName cfg = [] then cfg\<lparr>FileName := ''rc_config.json''\<rparr> else cfg) in
              if canWrite (FileName cfg1) then WritesConfig (FileName cfg1) cfg1 else Panics)
           else
             (case InitManager su cfg of
                Some (Inr p) \<Rightarrow> Runs (MaxDBCount < cfg_DBCount cfg) p
              | _ \<Rightarrow> Panics)))"

end
