(* ===== verification/IpcServerProps.thy ===== *)
theory IpcServerProps
  imports IpcServer
begin

text \<open>
  Properties of the server: whatever connections do, the service only takes its own steps; a
  connection starts the messages registered for it, in order and each once; a monitor
  connection changes nothing by itself; start and end of a process.
\<close>

section \<open>The server runs the service\<close>

lemma handle_next_steps:
  assumes "handle_next env s c = Some (s', c', goes_on)"
  shows "(service_step env)\<^sup>*\<^sup>* s s'"
proof -
  obtain r c1 where r: "Connection_HandleMessage c = (r, c1)" by (cases "Connection_HandleMessage c")
  show ?thesis
  proof (cases r)
    case (Inr rm)
    show ?thesis
    proof (cases rm)
      case (Some msg)
      show ?thesis
      proof (cases "HandleMessage (m_Msg msg)")
        case Goroutine
        then have "s' = s\<lparr>sv_tasks := sv_tasks s @ [msg]\<rparr>" using assms by (simp add: handle_next_def r Inr Some)
        then show ?thesis using service_step.start [OF Goroutine] by auto
      next
        case Inline
        then obtain err out m' where "run_handler env None msg (sv_mgr s) = Some (err, out, m')"
          "s' = s\<lparr>sv_mgr := m', sv_sent := sv_sent s @ out\<rparr>"
          using assms by (auto simp: handle_next_def r Inr Some split: option.splits)
        then show ?thesis using service_step.inline [OF Inline] by auto
      next
        case UnknownMessage
        then show ?thesis using assms by (simp add: handle_next_def r Inr Some)
      qed
    qed (use assms in \<open>simp add: handle_next_def r Inr\<close>)
  qed (use assms in \<open>simp add: handle_next_def r\<close>)
qed

lemma server_step_service:
  assumes "server_step env p p'"
  shows "(service_step env)\<^sup>*\<^sup>* (fst p) (fst p')"
  using assms by cases (auto intro: handle_next_steps)

lemma server_refines_service:
  assumes "(server_step env)\<^sup>*\<^sup>* p p'"
  shows "(service_step env)\<^sup>*\<^sup>* (fst p) (fst p')"
  using assms by (induction rule: rtranclp_induct) (auto intro: rtranclp_trans dest: server_step_service)

lemma handleConnection_steps:
  "handleConnection env s c = Some (s', c') \<Longrightarrow> (service_step env)\<^sup>*\<^sup>* s s'"
proof (induction env s c arbitrary: s' c' rule: handleConnection.induct)
  case (1 env s c)
  obtain s1 c1 goes_on where n: "handle_next env s c = Some (s1, c1, goes_on)"
    using 1(2) by (subst (asm) handleConnection.simps) (auto split: option.splits)
  show ?case
  proof (cases goes_on)
    case True
    then have "handleConnection env s1 c1 = Some (s', c')" using 1(2) n by (subst (asm) handleConnection.simps) simp
    then show ?thesis using 1(1) [OF n] True handle_next_steps [OF n] by (metis rtranclp_trans)
  next
    case False
    then have "s' = s1" using 1(2) n by (subst (asm) handleConnection.simps) simp
    then show ?thesis using handle_next_steps [OF n] by simp
  qed
qed

section \<open>What a connection can start\<close>

definition read_messages :: "u64 set" where
  "read_messages = {MsgVersion, MsgQuery, MsgQueryCalculateStatus, MsgQueryCalculateResult}"

definition registered :: "bool \<Rightarrow> u64 set" where
  "registered mm = read_messages \<union>
     (if mm then {MsgDebug} else {MsgClaim, MsgCalculate, MsgStartBlock, MsgCommitBlock, MsgCommitClaim, MsgRollBack, MsgINIT})"

lemma SetHandler_fields [simp]:
  "set (conn_handler (Connection_SetHandler m c)) = insert m (set (conn_handler c))"
  "conn_in (Connection_SetHandler m c) = conn_in c" "conn_out (Connection_SetHandler m c) = conn_out c"
  by (auto simp: Connection_SetHandler_def)

lemma OnConnect_fields [simp]:
  "set (conn_handler (OnConnect mm m c)) = registered mm \<union> set (conn_handler c)" "conn_in (OnConnect mm m c) = conn_in c"
  by (auto simp: OnConnect_def newConnection_def sendVersion_def Connection_Send_def registered_def read_messages_def Let_def)

text \<open>A connection has the handlers of its server and no others.\<close>

fun conn_ok :: "connection \<times> conn_state \<times> bool \<Rightarrow> bool" where
  "conn_ok (c, st, mm) \<longleftrightarrow> set (conn_handler c) = (if st = ConnAccepted then {} else registered mm)"

lemma HandleMessage_handlers: "Connection_HandleMessage c = (r, c') \<Longrightarrow> conn_handler c' = conn_handler c"
  by (auto simp: Connection_HandleMessage_def read_message_def split: list.splits prod.splits option.splits)

lemma handle_next_handlers:
  assumes "handle_next env s c = Some (s', c', goes_on)"
  shows "conn_handler c' = conn_handler c"
proof -
  obtain r c1 where r: "Connection_HandleMessage c = (r, c1)" by (cases "Connection_HandleMessage c")
  then have "c' = c1"
    using assms by (auto simp: handle_next_def split: sum.splits option.splits dispatch.splits)
  with r show ?thesis using HandleMessage_handlers by blast
qed

lemma conns_update: "\<forall>x \<in> set cs. P x \<Longrightarrow> P y \<Longrightarrow> \<forall>x \<in> set (cs[i := y]). P x"
  using set_update_subset_insert [of cs i y] by blast

interpretation conns: step_invariant "server_step env" "\<lambda>p. \<forall>x \<in> set (snd p). conn_ok x" for env
proof unfold_locales
  fix p p'
  assume ok: "\<forall>x \<in> set (snd p). conn_ok x" and step: "server_step env p p'"
  from step show "\<forall>x \<in> set (snd p'). conn_ok x"
  proof cases
    case (connect i cs c mm s)
    then have "conn_ok (c, ConnAccepted, mm)" using ok nth_mem by fastforce
    then show ?thesis using connect ok by (simp, intro conns_update) simp_all
  next
    case (turn i cs c mm s s' c')
    then have "conn_ok (c, ConnServing, mm)" using ok nth_mem by fastforce
    then show ?thesis using turn ok handle_next_handlers [OF turn(5)] by (simp, intro conns_update) simp_all
  next
    case (leave i cs c mm s s' c')
    then have "conn_ok (c, ConnServing, mm)" using ok nth_mem by fastforce
    then show ?thesis using leave ok handle_next_handlers [OF leave(5)] by (simp, intro conns_update) simp_all
  qed (use ok in \<open>auto simp: connectionFromConn_def\<close>)
qed

text \<open>
  C27: A connection of the monitor socket cannot change anything itself. In every reachable
  state of the server, with any connections and any running handlers, a turn of such a
  connection leaves the state of the service as it is and starts at most one handler, of
  VERSION, QUERY, a query about the calculation or DEBUG; a connection of the request socket
  starts at most one handler, never of DEBUG.
\<close>

theorem connections_start_their_messages:
  assumes "(server_step env)\<^sup>*\<^sup>* (s0, []) (s, cs)" "i < length cs" "cs ! i = (c, ConnServing, mm)"
    and "handle_next env s c = Some (s', c', goes_on)"
  shows "(\<exists>msgs. sv_tasks s' = sv_tasks s @ msgs \<and> length msgs \<le> 1 \<and> (\<forall>m \<in> set msgs. m_Msg m \<in> registered mm)) \<and>
    (mm \<longrightarrow> sv_mgr s' = sv_mgr s \<and> sv_sent s' = sv_sent s)"
proof -
  have "conn_ok (cs ! i)"
    using conns.reachable_inv [OF assms(1)] assms(2) nth_mem by fastforce
  then have h: "set (conn_handler c) = registered mm" by (simp add: assms(3))
  obtain r c1 where r: "Connection_HandleMessage c = (r, c1)" by (cases "Connection_HandleMessage c")
  have m: "m_Msg msg \<in> registered mm" if "r = Inr (Some msg)" for msg
    using HandleMessage_reads(5) [of c "Some msg" c1] r that h by simp
  show ?thesis
  proof (cases "\<exists>msg. r = Inr (Some msg)")
    case True
    then obtain msg where msg: "r = Inr (Some msg)" ..
    then have reg: "m_Msg msg \<in> registered mm" by (rule m)
    show ?thesis
    proof (cases "HandleMessage (m_Msg msg)")
      case Goroutine
      then show ?thesis using assms(4) reg by (auto simp: handle_next_def r msg intro!: exI [of _ "[msg]"])
    next
      case Inline
      then have "\<not> mm" using reg by (auto simp: HandleMessage_def registered_def read_messages_def msg_numbers split: if_splits)
      moreover from Inline obtain m' out where "s' = s\<lparr>sv_mgr := m', sv_sent := sv_sent s @ out\<rparr>"
        using assms(4) by (auto simp: handle_next_def r msg split: option.splits)
      ultimately show ?thesis by (intro conjI exI [of _ "[]"]) simp_all
    next
      case UnknownMessage
      then show ?thesis using assms(4) by (auto simp: handle_next_def r msg)
    qed
  next
    case False
    then have "s' = s" using assms(4) by (auto simp: handle_next_def r split: sum.splits option.splits)
    then show ?thesis by auto
  qed
qed

definition ex_debug_msg :: message where
  "ex_debug_msg = \<lparr>m_Msg = MsgDebug, m_Id = 3, m_Data = ONil\<rparr>"

definition ex_monitor :: connection where
  "ex_monitor = OnConnect True (sv_mgr ex_service) (connectionFromConn [enc_message ex_debug_msg])"

lemma ex_monitor_turn:
  "handle_next ex_env ex_service ex_monitor = Some (ex_service\<lparr>sv_tasks := sv_tasks ex_service @ [ex_debug_msg]\<rparr>, ex_monitor\<lparr>conn_in := []\<rparr>, True)"
proof -
  have "conn_in ex_monitor = [enc_message ex_debug_msg]" "MsgDebug \<in> set (conn_handler ex_monitor)"
    by (simp_all add: ex_monitor_def connectionFromConn_def registered_def)
  then show ?thesis
    by (simp add: handle_next_def Connection_HandleMessage_def read_message_def ex_debug_msg_def HandleMessage_def msg_numbers)
qed

lemma ex_server_steps:
  "(server_step ex_env)\<^sup>*\<^sup>* (ex_service, []) (ex_service, [(ex_monitor, ConnServing, True)])"
proof -
  have 1: "server_step ex_env (ex_service, []) (ex_service, [(connectionFromConn [enc_message ex_debug_msg], ConnAccepted, True)])"
    using server_step.accept [of ex_env ex_service "[]"] by simp
  have 2: "server_step ex_env (ex_service, [(connectionFromConn [enc_message ex_debug_msg], ConnAccepted, True)])
      (ex_service, [(ex_monitor, ConnServing, True)])"
    using server_step.connect [of 0 "[(connectionFromConn [enc_message ex_debug_msg], ConnAccepted, True)]"]
    by (simp add: ex_monitor_def)
  show ?thesis using 1 2 by (meson converse_rtranclp_into_rtranclp rtranclp.rtrancl_refl)
qed

theorem connections_start_their_messages_witness:
  "\<exists>msgs. sv_tasks ex_service @ [ex_debug_msg] = sv_tasks ex_service @ msgs \<and> length msgs \<le> 1 \<and>
     (\<forall>m \<in> set msgs. m_Msg m \<in> registered True)"
  using connections_start_their_messages [OF ex_server_steps _ _ ex_monitor_turn, of 0 True] by simp

section \<open>Messages are taken in order\<close>

text \<open>
  With nothing else running, a connection that was sent \<open>msgs\<close> (no ROLLBACK) starts a handler
  for each of them that has one, in order and once, and ends at the first thing that is not a
  message, or at the end of the stream.
\<close>

definition not_message :: "obj \<Rightarrow> bool" where
  "not_message ob \<longleftrightarrow> snd (dec_message ob) \<noteq> None"

lemma handleConnection_in_order:
  assumes "conn_in c = map enc_message msgs @ rest" "rest = [] \<or> not_message (hd rest)"
    and "set (conn_handler c) = registered mm" "\<forall>m \<in> set msgs. m_Msg m \<noteq> MsgRollBack"
  shows "handleConnection env s c =
    Some (s\<lparr>sv_tasks := sv_tasks s @ filter (\<lambda>m. m_Msg m \<in> registered mm) msgs\<rparr>, c\<lparr>conn_in := tl rest\<rparr>)"
  using assms
proof (induction msgs arbitrary: s c)
  case Nil
  show ?case
  proof (cases rest)
    case Nil
    then have c: "conn_in c = []" using Nil.prems(1) by simp
    then have "c\<lparr>conn_in := []\<rparr> = c" by simp
    then show ?thesis using Nil c
      by (subst handleConnection.simps) (simp add: handle_next_def Connection_HandleMessage_def read_message_def)
  next
    case (Cons ob obs)
    then obtain m e where "dec_message ob = (m, Some e)"
      using Nil.prems(2) by (cases "dec_message ob") (auto simp: not_message_def)
    then show ?thesis using Cons Nil.prems(1)
      by (subst handleConnection.simps) (simp add: handle_next_def Connection_HandleMessage_def read_message_def)
  qed
next
  case (Cons m msgs)
  let ?c = "c\<lparr>conn_in := map enc_message msgs @ rest\<rparr>"
  have r: "Connection_HandleMessage c = (Inr (if m_Msg m \<in> registered mm then Some m else None), ?c)"
    using Cons.prems(1,3) by (simp add: Connection_HandleMessage_def read_message_def)
  have d: "HandleMessage (m_Msg m) = Goroutine" if "m_Msg m \<in> registered mm"
    using that Cons.prems(4) by (auto simp: HandleMessage_def registered_def read_messages_def split: if_splits)
  have IH: "handleConnection env s ?c =
      Some (s\<lparr>sv_tasks := sv_tasks s @ filter (\<lambda>m. m_Msg m \<in> registered mm) msgs\<rparr>, ?c\<lparr>conn_in := tl rest\<rparr>)" for s
    using Cons.prems by (intro Cons.IH) simp_all
  show ?case
    using d by (subst handleConnection.simps) (auto simp: handle_next_def r IH)
qed

section \<open>Start and end of a process\<close>

definition request_server :: "string \<Rightarrow> string \<Rightarrow> server" where
  "request_server network address = \<lparr>ls_listener = Some (network, address), ls_closed = False, ls_handler = True\<rparr>"

text \<open>
  A first start with an address that can be listened on gives a running process whose service
  is in its first state, also when the number of databases is reported as too large.
\<close>

lemma icon_rc_first_start:
  assumes "FlagSet_Parse icon_rc_flags args default_options = Some opts" "\<not> op_version opts" "\<not> op_generate opts"
    and "cfg = op_cfg opts" "\<not> ClientMode cfg" "\<not> Monitor cfg" "0 \<le> cfg_DBCount cfg"
    and "su_storage su = empty_storage" "su_listens su (IpcNet cfg) (IpcAddr cfg)"
  shows "\<exists>ctx p. NewContext empty_storage (DBDir cfg) ''goleveldb'' ''IScore'' (cfg_DBCount cfg) (su_debugConf su (CalcDebugConf cfg)) = Some ctx \<and>
    icon_rc_main canWrite su args = Runs (MaxDBCount < cfg_DBCount cfg) p \<and>
    pr_service p = first_state False ctx \<and> pr_server p = Some (request_server (IpcNet cfg) (IpcAddr cfg))"
proof -
  obtain ctx where "NewContext empty_storage (DBDir cfg) ''goleveldb'' ''IScore'' (cfg_DBCount cfg)
      (su_debugConf su (CalcDebugConf cfg)) = Some ctx"
    using first_start_runs [OF assms(7)] by blast
  then show ?thesis
    using assms by (simp add: icon_rc_main_def InitManager_def server_Listen_def server_SetHandler_def NewServer_def
        request_server_def Let_def)
qed

text \<open>
  With no task counted the end of the process returns: the server is closed and with it every
  database of the context, each account database of either set.
\<close>

lemma Close_closes:
  assumes "waitGroup (sv_mgr (pr_service p)) = 0" "\<not> pr_clientMode p" "pr_server p = Some srv" "ls_listener srv = Some a"
    and "idb = DB (mgr_ctx (sv_mgr (pr_service p)))"
  shows "\<exists>p'. manager_Close p = Some (Some (p', DBRoot (info idb) # map dir_string (Account0 idb @ Account1 idb) @
      [''calculation_result'', ''preCommit'', ''claim'', ''claim_backup''])) \<and>
    pr_server p' = Some (srv\<lparr>ls_closed := True\<rparr>) \<and>
    Account0 (DB (mgr_ctx (sv_mgr (pr_service p')))) = [] \<and> Account1 (DB (mgr_ctx (sv_mgr (pr_service p')))) = []"
  using assms
  by (simp add: manager_Close_def close_databases_def CloseIScoreDB_def CloseAccountDB_def Close_returns_def server_Close_def
      set_ctx_def Let_def)

text \<open>
  A process that dialled serves its connection to the end and then closes its databases; its
  loop never returns when a request that does not decode was handled before, for the wait in
  \<^verbatim>\<open>Close\<close>.
\<close>

lemma client_Loop_ends:
  assumes "pr_clientMode p" "pr_conn p = Some c" "handleConnection env (pr_service p) c = Some (sv, c')"
  shows "client_Loop env p = None \<longleftrightarrow> waitGroup (sv_mgr sv) \<noteq> 0"
  using assms by (simp add: client_Loop_def manager_Close_def Close_returns_def Let_def)

lemma icon_rc_too_many_databases:
  assumes "su_storage su = empty_storage" "su_listens su ''unix'' ''/tmp/icon-rc.sock''"
  shows "\<exists>p. icon_rc_main canWrite su [''-db-count=300''] = Runs True p"
proof -
  have "strconv_nat ''300'' = Some 300" by code_simp
  then have "FlagSet_Parse icon_rc_flags [''-db-count=300''] default_options = Some (set_cfg (\<lambda>c. c\<lparr>cfg_DBCount := 300\<rparr>) default_options)"
    by (simp add: icon_rc_flags_def flag_text_def strconv_ParseInt_def Let_def)
  from icon_rc_first_start [OF this, of "op_cfg (set_cfg (\<lambda>c. c\<lparr>cfg_DBCount := 300\<rparr>) default_options)"] show ?thesis
    using assms by (auto simp: set_cfg_def default_options_def MaxDBCount_def)
qed

end
