(* ===== verification/DbTest.thy ===== *)
theory DbTest
  imports IissToolMain ServiceTheorems
begin

text \<open>
  The program \<^verbatim>\<open>cmd/dbtest\<close>: it fills a database with random accounts, queries one,
  calculates and deletes. The random bytes and the iteration order of the Go map of candidates
  are parameters; the goroutines that fill the account databases write different databases and
  run one after the other. The disk maps the name of a database to what is stored under it.
\<close>

section \<open>Filling a database\<close>

definition DbTest_DBDir :: string where "DbTest_DBDir = ''/Users/eunsoopark/test/rc_test''"
definition DbTest_DBType :: string where "DbTest_DBType = ''goleveldb''"
definition NumDelegate :: nat where "NumDelegate = 10"

text \<open>\<^verbatim>\<open>strconv.FormatInt(i, 16)\<close> of a number that is not negative.\<close>

fun format16 :: "nat \<Rightarrow> string" where
  "format16 n = (if n < 16 then [hex_char n] else format16 (n div 16) @ [hex_char (n mod 16)])"

declare format16.simps [simp del]

text \<open>\<open>data\<close> are the random bytes that fill the address.\<close>

definition createAddress :: "bytes \<Rightarrow> bytes \<Rightarrow> address" where
  "createAddress pre data =
     NewAccountAddress (copy_at (copy_at (replicate AddressIDBytes 0) 0 pre) (length pre)
       (take (AddressIDBytes - length pre) data))"

definition createIScoreData :: "bytes \<Rightarrow> PRepCandidate list \<Rightarrow> bytes \<Rightarrow> IScoreAccount" where
  "createIScoreData pre pRepList data =
     \<lparr>ia_Address = createAddress pre data, ia_IScore = 0, ia_BlockHeight = 0,
      ia_Delegations = map (\<lambda>p. Some \<lparr>dg_Address = pc_Address p, dg_Delegate = uint MinDelegation\<rparr>) pRepList\<rparr>"

text \<open>The candidates come in the order of the map; with fewer than ten a nil one is dereferenced.\<close>

definition createData ::
    "((address \<times> PRepCandidate) list \<Rightarrow> PRepCandidate list) \<Rightarrow> (nat \<Rightarrow> bytes) \<Rightarrow> bytes \<Rightarrow> nat \<Rightarrow> Context \<Rightarrow> obj kv \<Rightarrow> obj kv option" where
  "createData order rnd pre n ctx db =
     (let pRepList = take NumDelegate (order (PRepCandidates ctx)) in
      if 0 < n \<and> length pRepList < NumDelegate then None
      else Some (fold (\<lambda>i db. let ia = createIScoreData pre pRepList (rnd i)
                         in Bucket_Set db PrefixIScore (IScoreAccount_ID ia) (IScoreAccount_Bytes ia)) [0..<n] db))"

fun createAccountDB_loop ::
    "((address \<times> PRepCandidate) list \<Rightarrow> PRepCandidate list) \<Rightarrow> (nat \<Rightarrow> nat \<Rightarrow> bytes) \<Rightarrow> nat \<Rightarrow> nat list \<Rightarrow> Context \<Rightarrow> Context option" where
  "createAccountDB_loop order rnd n [] ctx = Some ctx"
| "createAccountDB_loop order rnd n (i # js) ctx =
     (if i < length (GetCalcDBList (DB ctx)) then
        (let cDB = GetCalcDBList (DB ctx) ! i in
         case createData order (rnd i) (ascii (format16 i)) n ctx (calcdb ctx cDB) of
           None \<Rightarrow> None
         | Some db \<Rightarrow> createAccountDB_loop order rnd n js (set_calcdb cDB db ctx))
      else None)"

definition createAccountDB ::
    "((address \<times> PRepCandidate) list \<Rightarrow> PRepCandidate list) \<Rightarrow> (nat \<Rightarrow> nat \<Rightarrow> bytes) \<Rightarrow> nat \<Rightarrow> nat \<Rightarrow> Context \<Rightarrow> Context option" where
  "createAccountDB order rnd dbCount entryCount ctx =
     createAccountDB_loop order rnd (entryCount div dbCount) [0..<dbCount] ctx"

section \<open>The commands\<close>

definition test_gv :: GovernanceVariable where
  "test_gv = zero_GV\<lparr>gv_BlockHeight := 0, gv_MainPRepCount := uint NumMainPRep, gv_SubPRepCount := uint NumSubPRep,
     gv_CalculatedIncentiveRep := 1, gv_RewardRep := 1\<rparr>"

definition test_candidates :: "PRepCandidate list" where
  "test_candidates = map (\<lambda>i. \<lparr>pc_Address = NewAccountAddress [of_nat (i + 1)], pc_Start = 0, pc_End = 0\<rparr>) [0..<100]"

definition test_prep :: PRep where
  "test_prep = \<lparr>pr_BlockHeight = 0, pr_TotalDelegation = 100 * 100,
     pr_List = map (\<lambda>i. \<lparr>di_Address = NewAccountAddress [of_nat (i + 1)], di_DelegatedAmount = 100\<rparr>) [0..<100]\<rparr>"

text \<open>The management database before the context is made from it.\<close>

definition test_management :: "obj kv \<Rightarrow> obj kv" where
  "test_management m =
     (let m1 = Bucket_Set m PrefixGovernanceVariable (GV_ID test_gv) (GV_Bytes test_gv);
          m2 = fold (\<lambda>p db. Bucket_Set db PrefixPRepCandidate (PRepCandidate_ID p) (PRepCandidate_Bytes p)) test_candidates m1
      in Bucket_Set m2 PrefixPRep (PRep_ID test_prep) (PRep_Bytes test_prep))"

definition dbtest_create ::
    "((address \<times> PRepCandidate) list \<Rightarrow> PRepCandidate list) \<Rightarrow> (nat \<Rightarrow> nat \<Rightarrow> bytes) \<Rightarrow> string \<Rightarrow> nat \<Rightarrow> nat \<Rightarrow> storage \<Rightarrow> Context option" where
  "dbtest_create order rnd dbName dbCount entryCount st =
     (case NewContext (st\<lparr>sto_management := test_management (sto_management st)\<rparr>) DbTest_DBDir DbTest_DBType dbName (int dbCount) None of
        None \<Rightarrow> None
      | Some ctx \<Rightarrow> createAccountDB order rnd dbCount entryCount ctx)"

text \<open>The I-Score printed and the context that was opened for it.\<close>

definition dbtest_query :: "string \<Rightarrow> string \<Rightarrow> bytes \<Rightarrow> storage \<Rightarrow> (int \<times> Context) option" where
  "dbtest_query dbName key txHash st =
     (case NewContext st DbTest_DBDir DbTest_DBType dbName 0 None of
        None \<Rightarrow> None
      | Some ctx \<Rightarrow>
          (case NewAddressFromString key of
             None \<Rightarrow> None
           | Some a \<Rightarrow>
               (case DoQuery ctx \<lparr>q_Address = a, q_BlockHeight = 0, q_BlockHash = None, q_TXHash = Some txHash\<rparr> of
                  None \<Rightarrow> None
                | Some resp \<Rightarrow> Some (rq_IScore resp, ctx))))"

text \<open>The batch count is not used; nobody is sent an acknowledgement.\<close>

definition dbtest_calculate ::
    "(bytes \<Rightarrow> bytes) \<Rightarrow> (reward_map \<Rightarrow> reward_map) \<Rightarrow> (string \<Rightarrow> obj kv) \<Rightarrow> string \<Rightarrow> u64 \<Rightarrow> u64 \<Rightarrow> storage \<Rightarrow> calc_out option" where
  "dbtest_calculate shake order iiss dbName blockHeight batchCount st =
     (case NewContext st DbTest_DBDir DbTest_DBType dbName 0 None of
        None \<Rightarrow> None
      | Some ctx \<Rightarrow>
          DoCalculate shake order None iiss ctx \<lparr>cq_Path = ''noiissdata'', cq_BlockHeight = blockHeight, cq_BlockHash = []\<rparr> False 0)"

definition dbtest_delete :: "string \<Rightarrow> (string \<Rightarrow> storage) \<Rightarrow> string \<Rightarrow> storage" where
  "dbtest_delete dbName disk = disk(dbName := empty_storage)"

section \<open>The command line\<close>

record test_args =
  ta_db :: int
  ta_account :: int
  ta_address :: string
  ta_txHash :: string
  ta_block :: u64
  ta_writebatch :: u64

definition default_test_args :: test_args where
  "default_test_args = \<lparr>ta_db = 16, ta_account = 10000, ta_address = [], ta_txHash = [], ta_block = 0, ta_writebatch = 0\<rparr>"

definition create_flags :: "test_args flag_set" where
  "create_flags = [(''db'', IntVar (\<lambda>v a. a\<lparr>ta_db := v\<rparr>)), (''account'', IntVar (\<lambda>v a. a\<lparr>ta_account := v\<rparr>))]"

definition query_flags :: "test_args flag_set" where
  "query_flags = [(''address'', StringVar (\<lambda>v a. a\<lparr>ta_address := v\<rparr>)), (''txHash'', StringVar (\<lambda>v a. a\<lparr>ta_txHash := v\<rparr>))]"

definition calculate_flags :: "test_args flag_set" where
  "calculate_flags = [(''block'', Uint64Var (\<lambda>v a. a\<lparr>ta_block := v\<rparr>)), (''writebatch'', Uint64Var (\<lambda>v a. a\<lparr>ta_writebatch := v\<rparr>))]"

definition test_flags :: "string \<Rightarrow> test_args flag_set option" where
  "test_flags cmd =
     (if cmd = ''create'' then Some create_flags else if cmd = ''delete'' then Some []
      else if cmd = ''query'' then Some query_flags else if cmd = ''calculate'' then Some calculate_flags else None)"

text \<open>What a run is: the usage or a refusal, or one of the commands with its arguments.\<close>

datatype test_run =
    TestUsage
  | TestTooMany
  | TestCreate string nat nat
  | TestDelete string
  | TestQuery string string bytes
  | TestCalculate string u64 u64

definition test_command :: "string \<Rightarrow> string \<Rightarrow> test_args \<Rightarrow> test_run" where
  "test_command dbName cmd a =
     (if cmd = ''create'' then
        (if ta_db a \<le> 0 \<or> ta_account a \<le> 0 then TestUsage
         else if 256 < ta_db a then TestTooMany
         else TestCreate dbName (nat (ta_db a)) (nat (ta_account a)))
      else if cmd = ''delete'' then TestDelete dbName
      else if cmd = ''query'' then
        (if ta_address a = [] then TestUsage
         else case hex_decode (ta_txHash a) of Inl _ \<Rightarrow> TestUsage | Inr txHash \<Rightarrow> TestQuery dbName (ta_address a) txHash)
      else TestCalculate dbName (ta_block a) (ta_writebatch a))"

definition dbtest_Run :: "string list \<Rightarrow> test_run" where
  "dbtest_Run args =
     (case args of
        prog # dbName # cmd # rest \<Rightarrow>
          (case test_flags cmd of
             None \<Rightarrow> TestUsage
           | Some fs \<Rightarrow> (case FlagSet_Parse fs rest default_test_args of None \<Rightarrow> TestUsage | Some a \<Rightarrow> test_command dbName cmd a))
      | _ \<Rightarrow> TestUsage)"

section \<open>What comes of it\<close>

lemma copy_at_prefix:
  assumes "length pre + length data = n"
  shows "copy_at (copy_at (replicate n 0) 0 pre) (length pre) data = pre @ data"
  using assms by (auto simp: copy_at_def)

lemma createAddress_eq:
  assumes "length pre \<le> AddressIDBytes" "AddressIDBytes - length pre \<le> length data"
  shows "createAddress pre data = 0 # pre @ take (AddressIDBytes - length pre) data"
proof -
  have "copy_at (copy_at (replicate AddressIDBytes 0) 0 pre) (length pre) (take (AddressIDBytes - length pre) data) =
      pre @ take (AddressIDBytes - length pre) data"
    using assms by (intro copy_at_prefix) simp
  moreover have "length (pre @ take (AddressIDBytes - length pre) data) = AddressIDBytes" using assms by simp
  ultimately show ?thesis
    by (simp add: createAddress_def NewAccountAddress_def SetTypeAndID_def zero_address_def AddressBytes_def copy_at_def Let_def)
qed

text \<open>
  The accounts of database \<open>i\<close> have addresses that begin with the text of \<open>i\<close>, and are looked
  for by the value of that letter.
\<close>

lemma created_account_index:
  assumes "format16 i = c # cs" "length cs < AddressIDBytes" "AddressIDBytes - length (format16 i) \<le> length data"
    and "0 < DBCount (info idb)"
  shows "getAccountDBIndex idb (createAddress (ascii (format16 i)) data) = Some (nat (uint (of_nat (of_char c) :: byte) mod DBCount (info idb)))"
proof -
  have "createAddress (ascii (format16 i)) data =
      0 # ascii (format16 i) @ take (AddressIDBytes - length (ascii (format16 i))) data"
    using assms(1-3) by (intro createAddress_eq) (simp_all add: ascii_def)
  then show ?thesis using assms(1,4) by (simp add: getAccountDBIndex_def Address_ID_def ascii_def)
qed

text \<open>With sixteen databases, the default, the accounts of the last six are put where no query looks.\<close>

lemma created_account_misplaced:
  assumes "DBCount (info idb) = 16" "10 \<le> i" "i < 16" "19 \<le> length data"
  shows "getAccountDBIndex idb (createAddress (ascii (format16 i)) data) = Some (i - 9)"
proof -
  have f: "format16 i = [hex_char i]" using assms(3) by (simp add: format16.simps)
  have "i \<in> {10, 11, 12, 13, 14, 15}" using assms(2,3) by auto
  then have "nat (uint (of_nat (of_char (hex_char i)) :: byte) mod 16) = i - 9"
    by (auto simp: hex_char_def hex_digits_def)
  then show ?thesis
    using created_account_index [OF f, of data idb] assms(1,4) by (simp add: f AddressIDBytes_def)
qed

lemma created_account_found:
  assumes "DBCount (info idb) = 16" "i < 10" "19 \<le> length data"
  shows "getAccountDBIndex idb (createAddress (ascii (format16 i)) data) = Some i"
proof -
  have f: "format16 i = [hex_char i]" using assms(2) by (simp add: format16.simps)
  have "i \<in> {0, 1, 2, 3, 4, 5, 6, 7, 8, 9}" using assms(2) by auto
  then have "nat (uint (of_nat (of_char (hex_char i)) :: byte) mod 16) = i"
    by (auto simp: hex_char_def hex_digits_def)
  then show ?thesis
    using created_account_index [OF f, of data idb] assms(1,3) by (simp add: f AddressIDBytes_def)
qed

text \<open>
  The command \<^verbatim>\<open>calculate\<close> never calculates: there are no IISS data at the path it gives,
  and the databases stay as they are.
\<close>

lemma dbtest_never_calculates:
  assumes "iiss ''noiissdata'' = []" "NewContext st DbTest_DBDir DbTest_DBType dbName 0 None = Some ctx"
  shows "\<exists>out. dbtest_calculate shake order iiss dbName h b st = Some out \<and> co_err out \<noteq> None \<and> dirs (DB (co_ctx out)) = dirs (DB ctx)"
proof -
  have "LoadIISSData [] = None" by (simp add: LoadIISSData_def loadIISSHeader_def Bucket_Get_def kv_get_def)
  then show ?thesis
    using assms by (auto simp: dbtest_calculate_def DoCalculate_def Let_def resetCalculatingBH_def)
qed

lemma dbtest_Run_examples:
  "dbtest_Run [''dbtest'', ''t'', ''create'', ''-db'', ''300''] = TestTooMany"
  "dbtest_Run [''dbtest'', ''t'', ''create'', ''--account=32''] = TestCreate ''t'' 16 32"
  "dbtest_Run [''dbtest'', ''t'', ''query''] = TestUsage"
  "dbtest_Run [''dbtest'', ''t'', ''drop''] = TestUsage"
proof -
  have n: "strconv_nat ''300'' = Some 300" "strconv_nat ''32'' = Some 32" by code_simp+
  show "dbtest_Run [''dbtest'', ''t'', ''create'', ''-db'', ''300''] = TestTooMany"
    "dbtest_Run [''dbtest'', ''t'', ''create'', ''--account=32''] = TestCreate ''t'' 16 32"
    "dbtest_Run [''dbtest'', ''t'', ''query''] = TestUsage" "dbtest_Run [''dbtest'', ''t'', ''drop''] = TestUsage"
    by (simp_all add: dbtest_Run_def test_flags_def create_flags_def query_flags_def flag_text_def strconv_ParseInt_def n
        default_test_args_def test_command_def Let_def)
qed

end
