(* ===== verification/Texts.thy ===== *)
theory Texts
  imports MsgWire CalcResult ClaimDb HexNumber
begin

text \<open>
  The texts of messages, records and errors: the \<^verbatim>\<open>String\<close> and \<^verbatim>\<open>Error\<close> methods of
  \<^verbatim>\<open>core\<close>, which the service and its tools print. \<^verbatim>\<open>fmt.Sprintf\<close> is the text with its verbs
  filled in: \<^verbatim>\<open>%d\<close> is the decimal text of a number, \<^verbatim>\<open>%s\<close> a string. The texts that are the JSON
  form of a record are not modelled.
\<close>

definition u64_string :: "u64 \<Rightarrow> string" where
  "u64_string v = dec_digits (unat v)"

definition FormatBool :: "bool \<Rightarrow> string" where
  "FormatBool b = (if b then ''true'' else ''false'')"

definition hash_string :: "bytes option \<Rightarrow> string" where
  "hash_string b = hex_encode (nonNilBytes b)"

section \<open>Records of the claim databases\<close>

definition ClaimData_String :: "ClaimData \<Rightarrow> string" where
  "ClaimData_String cd = ''BlockHeight: '' @ u64_string (cd_BlockHeight cd) @ '', IScore: '' @ HexInt_String (cd_IScore cd)"

definition Claim_String :: "Claim \<Rightarrow> string" where
  "Claim_String c = ''Address: '' @ Address_String (cl_Address c) @ '', '' @ ClaimData_String (cl_Data c)"

text \<open>A key without a height or without an address panics.\<close>

definition ClaimBackupKeyString :: "bytes \<Rightarrow> string option" where
  "ClaimBackupKeyString key =
     (if length key < BlockHeightSize then None
      else case NewAddress (drop BlockHeightSize key) of
        None \<Rightarrow> None
      | Some a \<Rightarrow> Some (''BlockHeight: '' @ u64_string (BytesToUint64 (take BlockHeightSize key)) @ '', Address: '' @ Address_String a))"

definition ClaimBackupInfo_String :: "ClaimBackupInfo \<Rightarrow> string" where
  "ClaimBackupInfo_String cb = ''BlockHeight: '' @ u64_string (FirstBlockHeight cb) @ '' - '' @ u64_string (LastBlockHeight cb)"

definition PreCommitData_String :: "PreCommit \<Rightarrow> string" where
  "PreCommitData_String pc =
     ''TXIndex: '' @ u64_string (pcm_TXIndex pc) @ '', TXHash: '' @ hex_encode (pcm_TXHash pc) @
     '', Confirmed: '' @ FormatBool (pcm_Confirmed pc) @ '', '' @ Claim_String (pcm_Claim pc)"

definition PreCommit_String :: "PreCommit \<Rightarrow> string" where
  "PreCommit_String pc =
     ''BlockHeight: '' @ u64_string (pcm_BlockHeight pc) @ '', BlockHash: '' @ hex_encode (pcm_BlockHash pc) @ '', '' @
     PreCommitData_String pc"

section \<open>Messages\<close>

definition ResponseVersion_String :: "ResponseVersion \<Rightarrow> string" where
  "ResponseVersion_String rv =
     ''Version: '' @ u64_string (rv_Version rv) @ '', BlockHeight: '' @ u64_string (rv_BlockHeight rv) @
     '', BlockHash: '' @ hex_encode (rv_BlockHash rv)"

definition Query_String :: "Query \<Rightarrow> string" where
  "Query_String q =
     ''Address: '' @ Address_String (q_Address q) @ '', BlockHeight: '' @ u64_string (q_BlockHeight q) @
     '', BlockHash: '' @ hash_string (q_BlockHash q) @ '', TXHash: '' @ hash_string (q_TXHash q)"

definition ResponseQuery_String :: "ResponseQuery \<Rightarrow> string" where
  "ResponseQuery_String rq =
     ''Address: '' @ Address_String (rq_Address rq) @ '', IScore: '' @ HexInt_String (rq_IScore rq) @
     '', BlockHeight: '' @ u64_string (rq_BlockHeight rq)"

definition ResponseInit_String :: "ResponseInit \<Rightarrow> string" where
  "ResponseInit_String resp = ''Success: '' @ FormatBool (ri_Success resp) @ '', BlockHeight: '' @ u64_string (ri_BlockHeight resp)"

definition ClaimMessage_String :: "ClaimMessage \<Rightarrow> string" where
  "ClaimMessage_String cm =
     ''Address: '' @ Address_String (cm_Address cm) @ '', BlockHeight: '' @ u64_string (cm_BlockHeight cm) @
     '', BlockHash: '' @ hash_string (cm_BlockHash cm) @ '', TXIndex: '' @ u64_string (cm_TXIndex cm) @
     '', TXHash: '' @ hash_string (cm_TXHash cm)"

definition ResponseClaim_String :: "ResponseClaim \<Rightarrow> string" where
  "ResponseClaim_String rc = ClaimMessage_String (rc_Claim rc) @ '', IScore: '' @ HexInt_String (rc_IScore rc)"

definition CommitClaim_String :: "CommitClaim \<Rightarrow> string" where
  "CommitClaim_String cc =
     ''Success: '' @ FormatBool (cc_Success cc) @ '', Address: '' @ Address_String (cc_Address cc) @
     '', BlockHeight: '' @ u64_string (cc_BlockHeight cc) @ '', BlockHash: '' @ hash_string (cc_BlockHash cc) @
     '', TXIndex: '' @ u64_string (cc_TXIndex cc) @ '', TXHash: '' @ hash_string (cc_TXHash cc)"

definition StartBlock_String :: "StartBlock \<Rightarrow> string" where
  "StartBlock_String sb = ''BlockHeight: '' @ u64_string (sb_BlockHeight sb) @ '', BlockHash: '' @ hash_string (sb_BlockHash sb)"

definition CommitBlock_String :: "CommitBlock \<Rightarrow> string" where
  "CommitBlock_String cb =
     ''Success: '' @ FormatBool (cb_Success cb) @ '', BlockHeight: '' @ u64_string (cb_BlockHeight cb) @
     '', BlockHash: '' @ hash_string (cb_BlockHash cb)"

definition RollBackRequest_String :: "RollBackRequest \<Rightarrow> string" where
  "RollBackRequest_String rb = ''BlockHeight: '' @ u64_string (rb_BlockHeight rb) @ '', BlockHash: '' @ hash_string (rb_BlockHash rb)"

definition RollBackResponse_String :: "RollBackResponse \<Rightarrow> string" where
  "RollBackResponse_String rb = ''Success: '' @ FormatBool (rr_Success rb) @ '', '' @ RollBackRequest_String (rr_Request rb)"

section \<open>Calculation\<close>

definition CalculateRequest_String :: "CalculateRequest \<Rightarrow> string" where
  "CalculateRequest_String cr = ''Path: '' @ cq_Path cr @ '', BlockHeight: '' @ u64_string (cq_BlockHeight cr)"

definition CalcRespStatusToString :: "u16 \<Rightarrow> string" where
  "CalcRespStatusToString status =
     (if status = CalcRespStatusOK then ''OK''
      else if status = CalcRespStatusInvalidData then ''Invalid IISS data''
      else if status = CalcRespStatusDoing then ''Calculating''
      else if status = CalcRespStatusInvalidBH then ''Invalid block height''
      else if status = CalcRespStatusDuplicateBH then ''Duplicate block height''
      else ''Unknown status'')"

definition CalculateResponse_String :: "CalculateResponse \<Rightarrow> string" where
  "CalculateResponse_String cr =
     ''status: '' @ CalcRespStatusToString (ca_Status cr) @ '', BlockHeight: '' @ u64_string (ca_BlockHeight cr)"

definition CalculateDone_String :: "CalculateDone \<Rightarrow> string" where
  "CalculateDone_String cd =
     ''Success: '' @ FormatBool (cdn_Success cd) @ '', BlockHeight: '' @ u64_string (cdn_BlockHeight cd) @
     '', IScore: '' @ HexInt_String (cdn_IScore cd) @ '', StateHash: '' @ hash_string (cdn_StateHash cd)"

definition CalculateStatus_StatusString :: "QueryCalculateStatusResponse \<Rightarrow> string" where
  "CalculateStatus_StatusString cs =
     (if qs_Status cs = CalculationDone then ''Calculation Done''
      else if qs_Status cs = CalculationDoing then ''Calculating''
      else ''Unknown status'')"

definition CalculateStatus_String :: "QueryCalculateStatusResponse \<Rightarrow> string" where
  "CalculateStatus_String cs =
     ''Status: '' @ CalculateStatus_StatusString cs @ '', BlockHeight: '' @ u64_string (qs_BlockHeight cs)"

definition CalculateResult_StatusString :: "QueryCalculateResultResponse \<Rightarrow> string" where
  "CalculateResult_StatusString cr =
     (if qr_Status cr = calcSucceeded then ''Succeeded''
      else if qr_Status cr = calcFailed then ''Failed''
      else if qr_Status cr = calcDoing then ''Calculating''
      else if qr_Status cr = InvalidBH then ''Invalid block height''
      else ''Unknown status'')"

definition CalculateResult_String :: "QueryCalculateResultResponse \<Rightarrow> string" where
  "CalculateResult_String cr =
     ''Status: '' @ CalculateResult_StatusString cr @ '', BlockHeight: '' @ u64_string (qr_BlockHeight cr) @
     '', IScore: '' @ HexInt_String (qr_IScore cr) @ '', StateHash: '' @ hex_encode (qr_StateHash cr)"

definition Statistics_String :: "Statistics \<Rightarrow> string" where
  "Statistics_String s =
     ''==== Statistics - Accounts: '' @ u64_string (st_Accounts s) @ '', I-Score total: '' @ HexInt_String (st_TotalReward s) @
     '', Beta1: '' @ HexInt_String (st_Beta1 s) @ '', Beta2: '' @ HexInt_String (st_Beta2 s) @ '', Beta3: '' @ HexInt_String (st_Beta3 s)"

section \<open>Errors\<close>

text \<open>The errors a calculation or a rollback ends with that carry heights; others have fixed texts.\<close>

fun Error_String :: "error \<Rightarrow> string option" where
  "Error_String (ErrCancelRollback h) = Some (''CALCULATE('' @ u64_string h @ '') was canceled by ROLLBACK'')"
| "Error_String (ErrCancelExit h) = Some (''CALCULATE('' @ u64_string h @ '') was canceled due to RC process shutting down'')"
| "Error_String (ErrLowBlockHeight c h) = Some (''too low block height '' @ u64_string c @ '' >= '' @ u64_string h)"
| "Error_String _ = None"

definition isCalcCancelByRollback :: "error option \<Rightarrow> bool" where
  "isCalcCancelByRollback err \<longleftrightarrow> (case err of Some (ErrCancelRollback h) \<Rightarrow> True | _ \<Rightarrow> False)"

section \<open>Statuses and their texts\<close>

lemma known_status_texts:
  "inj_on CalcRespStatusToString {CalcRespStatusOK, CalcRespStatusInvalidData, CalcRespStatusDoing, CalcRespStatusInvalidBH, CalcRespStatusDuplicateBH}"
  by (auto simp: inj_on_def CalcRespStatusToString_def CalcRespStatusOK_def CalcRespStatusInvalidData_def
      CalcRespStatusDoing_def CalcRespStatusInvalidBH_def CalcRespStatusDuplicateBH_def)

text \<open>The text of a backup entry names the height and the address its key was made of.\<close>

lemma ClaimBackupKeyString_key:
  assumes "address_ok a"
  shows "ClaimBackupKeyString (bh_key h @ Address_Bytes a) = Some (''BlockHeight: '' @ u64_string h @ '', Address: '' @ Address_String a)"
  using assms by (simp add: ClaimBackupKeyString_def codec_simps BlockHeightSize_def)

end
