(* ===== verification/JsonForms.thy ===== *)
theory JsonForms
  imports HexWrap
begin

text \<open>
  The JSON and binary forms of numbers, addresses and byte strings: the \<^verbatim>\<open>MarshalJSON\<close>,
  \<^verbatim>\<open>MarshalBinary\<close> and construction functions of \<^verbatim>\<open>common/hexint.go\<close>, \<^verbatim>\<open>common/address.go\<close> and
  \<^verbatim>\<open>common/hexbytes.go\<close>. The JSON form of a string without characters to escape is the string
  in quotes; the texts written here have none.
\<close>

definition json_plain :: "string \<Rightarrow> bool" where
  "json_plain s \<longleftrightarrow> list_all (\<lambda>c. (32 :: nat) \<le> of_char c \<and> of_char c < (127 :: nat) \<and>
     c \<notin> {CHR 0x22, CHR 0x5C, CHR ''<'', CHR ''>'', CHR ''&''}) s"

definition json_string :: "string \<Rightarrow> string" where
  "json_string s = CHR 0x22 # s @ [CHR 0x22]"

section \<open>Big integers\<close>

definition HexInt_MarshalJSON :: "int \<Rightarrow> string" where
  "HexInt_MarshalJSON i = json_string (HexInt_String i)"

definition HexInt_Bytes :: "int \<Rightarrow> bytes" where
  "HexInt_Bytes i = BigIntToBytes i"

definition HexInt_SetBytes :: "bytes \<Rightarrow> int" where
  "HexInt_SetBytes bs = BigIntSetBytes bs"

definition HexInt_MarshalBinary :: "int \<Rightarrow> error + bytes" where
  "HexInt_MarshalBinary i = Inr (HexInt_Bytes i)"

definition HexInt_UnmarshalBinary :: "bytes \<Rightarrow> error + int" where
  "HexInt_UnmarshalBinary data = Inr (HexInt_SetBytes data)"

definition NewHexInt :: "u64 \<Rightarrow> int" where
  "NewHexInt v = sint v"

definition NewHexIntFromUint64 :: "u64 \<Rightarrow> int" where
  "NewHexIntFromUint64 v = uint v"

section \<open>Fixed-width numbers\<close>

definition HexInt16_MarshalJSON :: "16 word \<Rightarrow> string" where
  "HexInt16_MarshalJSON v = json_string (HexInt16_String v)"

definition HexUint16_MarshalJSON :: "16 word \<Rightarrow> string" where
  "HexUint16_MarshalJSON v = json_string (HexUint16_String v)"

definition HexInt32_MarshalJSON :: "32 word \<Rightarrow> string" where
  "HexInt32_MarshalJSON v = json_string (HexInt32_String v)"

definition HexUint32_MarshalJSON :: "32 word \<Rightarrow> string" where
  "HexUint32_MarshalJSON v = json_string (HexUint32_String v)"

definition HexInt64_MarshalJSON :: "u64 \<Rightarrow> string" where
  "HexInt64_MarshalJSON v = json_string (HexInt64_String v)"

definition HexUint64_MarshalJSON :: "u64 \<Rightarrow> string" where
  "HexUint64_MarshalJSON v = json_string (HexUint64_String v)"

section \<open>Addresses and byte strings\<close>

definition Address_MarshalJSON :: "address \<Rightarrow> string" where
  "Address_MarshalJSON a = json_string (Address_String a)"

text \<open>A nil byte string is written as \<^verbatim>\<open>nil\<close>.\<close>

definition RawHexBytes_MarshalJSON :: "bytes option \<Rightarrow> string" where
  "RawHexBytes_MarshalJSON rh = (case rh of None \<Rightarrow> ''nil'' | Some b \<Rightarrow> json_string (hex_encode b))"

definition HexBytes_MarshalJSON :: "bytes option \<Rightarrow> string" where
  "HexBytes_MarshalJSON hs = (case hs of None \<Rightarrow> ''nil'' | Some b \<Rightarrow> json_string (''0x'' @ hex_encode b))"

section \<open>The texts need no escapes\<close>

lemma json_plain_simps [simp]: "json_plain []" "json_plain (s @ t) \<longleftrightarrow> json_plain s \<and> json_plain t"
  by (simp_all add: json_plain_def)

lemma json_plain_hex_char [simp]: "json_plain (hex_char n # s) \<longleftrightarrow> json_plain s"
proof -
  have "json_plain hex_digits" by (simp add: json_plain_def hex_digits_def)
  moreover have "hex_char n \<in> set hex_digits" unfolding hex_char_def by (rule nth_mem) (simp add: hex_digits_def)
  ultimately show ?thesis by (auto simp: json_plain_def list_all_iff)
qed

lemma json_plain_hex_encode [simp]: "json_plain (hex_encode b)"
  by (induction b) (simp_all add: hex_encode_def)

lemma json_plain_tl: "json_plain s \<Longrightarrow> json_plain (tl s)"
  by (cases s) (simp_all add: json_plain_def)

lemma json_plain_encodeHexNumber [simp]: "json_plain (encodeHexNumber neg b)"
proof -
  have "json_plain ''-''" "json_plain ''0x''" "json_plain ''0x0''" "json_plain ''-0x''" by (simp_all add: json_plain_def)
  moreover have "json_plain (CHR ''-'' # s) \<longleftrightarrow> json_plain s" "json_plain (CHR ''0'' # s) \<longleftrightarrow> json_plain s" "json_plain (CHR ''x'' # s) \<longleftrightarrow> json_plain s" for s
    by (simp_all add: json_plain_def)
  ultimately show ?thesis
    using json_plain_tl [OF json_plain_hex_encode] by (simp add: encodeHexNumber_def Let_def)
qed

lemma json_plain_texts:
  "json_plain (HexInt_String i)" "json_plain (FormatInt v)" "json_plain (FormatUint v)" "json_plain (Address_String a)"
  "json_plain (''0x'' @ hex_encode b)"
proof -
  have "json_plain (CHR ''h'' # s) \<longleftrightarrow> json_plain s" "json_plain (CHR ''c'' # s) \<longleftrightarrow> json_plain s" "json_plain (CHR ''0'' # s) \<longleftrightarrow> json_plain s"
    "json_plain (CHR ''x'' # s) \<longleftrightarrow> json_plain s" for s
    by (simp_all add: json_plain_def)
  then show "json_plain (HexInt_String i)" "json_plain (FormatInt v)" "json_plain (FormatUint v)" "json_plain (Address_String a)"
    "json_plain (''0x'' @ hex_encode b)"
    by (simp_all add: HexInt_String_def FormatInt_def FormatUint_def Address_String_def Let_def)
qed

lemma json_string_inj: "json_string s = json_string t \<longleftrightarrow> s = t"
  by (simp add: json_string_def)

text \<open>A nil byte string is not told apart by its quotes: what is written is no JSON value.\<close>

lemma nil_bytes_json: "RawHexBytes_MarshalJSON None = ''nil''" "HexBytes_MarshalJSON None = ''nil''"
  by (simp_all add: RawHexBytes_MarshalJSON_def HexBytes_MarshalJSON_def)

end
