(* ===== verification/Spec2Isabelle.thy ===== *)
theory Spec2Isabelle
  imports ClientTheorems DbLayersProps RlpProps DbToolProps IissToolMain SendIpcMain Keys
    Goroutines Orderly DbObjects DbBolt DataDirs IpcServerProps DbTest Texts JsonForms
begin

text \<open>
  Verification of the ICON reward calculator (\<^verbatim>\<open>rewardcalculator\<close>, Go).

  \<^bold>\<open>The program.\<close> A process beside an ICON node keeps the I-Score of every account. The node
  sends it messages over a socket: at the end of a term CALCULATE, with the path of the IISS
  data of the term (governance variables, P-Rep lists, block producers, delegation
  transactions); between terms CLAIM, COMMIT_CLAIM, START_BLOCK and COMMIT_BLOCK, by which an
  account turns I-Score into coins; QUERY; and ROLLBACK when the node goes back to an earlier
  block. The accounts live in two sets of databases: clients read one (query), the calculation
  writes the other, and a calculation swaps them and keeps the old ones as backups. Claims go
  through a pre-commit database to the claim database when their block is committed, and the
  claims they replace go to a backup database, from which a rollback takes them back.

  \<^bold>\<open>Theories and sources.\<close> Names are the ones of the source, prefixed with the struct where
  they would clash.
  \<^item> \<open>Prelude\<close>: errors, machine integers, slices; the collections \<open>go_simps\<close> and
    \<open>codec_simps\<close>.
  \<^item> \<open>Hexint\<close>, \<open>HexNumber\<close>, \<open>HexWrap\<close>, \<open>JsonForms\<close>, \<open>Address\<close>: \<^verbatim>\<open>common/hexint.go\<close>,
    \<^verbatim>\<open>hexbytes.go\<close>, \<^verbatim>\<open>address.go\<close>.
  \<^item> \<open>KV\<close>: \<^verbatim>\<open>common/db/bucket.go\<close>, \<^verbatim>\<open>go_level_db.go\<close>. The contract of leveldb is the
    locale \<open>ordered_kv\<close>; a database is the list of its entries in key order.
  \<^item> \<open>DbObjects\<close>: the iterator, batch and snapshot objects of \<^verbatim>\<open>go_level_db.go\<close> with their
    states; the other theories use them in one pattern each (\<open>Iterator_New\<close>, \<open>Batch_Write\<close>).
  \<^item> \<open>DbLayers\<close>, \<open>DbBolt\<close>: \<^verbatim>\<open>database.go\<close>, \<^verbatim>\<open>map_db.go\<close>, \<^verbatim>\<open>layer_db.go\<close>, \<^verbatim>\<open>proxy_db.go\<close>,
    \<^verbatim>\<open>null_db.go\<close> and \<^verbatim>\<open>bolt_db.go\<close>.
  \<^item> \<open>Keys\<close>: \<^verbatim>\<open>common/crypto\<close>, the byte forms around the library of the curve.
  \<^item> \<open>Rlp\<close>: \<^verbatim>\<open>common/codec/rlp.go\<close>. A reflected Go value is a term of \<open>rlp_val\<close>, the
    type it is decoded into a term of \<open>rlp_ty\<close>, readers and writers are byte strings.
  \<^item> \<open>Wire\<close>: \<^verbatim>\<open>common/codec.go\<close>, \<^verbatim>\<open>codec/typed.go\<close>. Msgpack is a third-party library: a
    byte string of it is modelled by the object it holds (type \<open>obj\<close>), and the structs of the
    program by the arrays of their fields.
  \<^item> \<open>Management\<close>, \<open>IissData\<close>, \<open>Account\<close>, \<open>ClaimDb\<close>, \<open>CalcResult\<close>:
    \<^verbatim>\<open>core/db_management.go\<close>, \<^verbatim>\<open>db_iissdata.go\<close>, \<^verbatim>\<open>db_account.go\<close>, \<^verbatim>\<open>db_claim.go\<close>,
    \<^verbatim>\<open>statistics.go\<close> and \<^verbatim>\<open>db_calculate.go\<close>.
  \<^item> \<open>IScoreDb\<close>, \<open>Context\<close>: \<^verbatim>\<open>core/context.go\<close>. The record \<open>IScoreDB\<close> holds the block
    heights (\<open>info\<close>), the management, result and claim databases, and the directories of the
    account databases (\<open>dirs\<close>), which are renamed, opened and deleted; the record \<open>Context\<close>
    adds what the process keeps in memory.
  \<^item> \<open>CalcDebugging\<close>, \<open>Calculate\<close>, \<open>DoCalc\<close>: \<^verbatim>\<open>core/calculation_debug.go\<close>,
    \<^verbatim>\<open>msg_calculate.go\<close> and the reload of \<^verbatim>\<open>manager.go\<close>. \<open>Goroutines\<close>: the shards of a
    calculation as interleaved steps. \<open>DataDirs\<close>: the removal of the data of past terms.
  \<^item> \<open>Messages\<close>, \<open>Ipc\<close>, \<open>MsgWire\<close>, \<open>DebugMsg\<close>, \<open>Service\<close>: \<^verbatim>\<open>core/msg.go\<close>,
    \<^verbatim>\<open>msg_claim.go\<close>, \<^verbatim>\<open>msg_rollback.go\<close>, \<^verbatim>\<open>msg_debug.go\<close>, \<^verbatim>\<open>manager.go\<close> and
    \<^verbatim>\<open>common/ipc/connection.go\<close>: the work of each message, the wire form of requests and
    responses, the handlers, and the service as a step relation (\<open>service_step\<close>).
  \<^item> \<open>IpcServer\<close>: \<^verbatim>\<open>common/ipc/server.go\<close>, the connections, start and end of \<^verbatim>\<open>manager.go\<close>, and
    \<^verbatim>\<open>cmd/icon_rc\<close>: the loop that serves a connection (\<open>handle_next\<close>), and the server with any
    number of connections as a step relation (\<open>server_step\<close>) over that of the service.
  \<^item> \<open>Texts\<close>: the \<^verbatim>\<open>String\<close> and \<^verbatim>\<open>Error\<close> methods of \<^verbatim>\<open>core\<close> that are not JSON.
  \<^item> \<open>Client\<close>: \<^verbatim>\<open>core/api_ipc.go\<close>.
  \<^item> \<open>Flags\<close>: the package \<^verbatim>\<open>flag\<close> of the Go library, with flag sets over records.
  \<^item> \<open>DbTool\<close>, \<open>DbToolRecords\<close>, \<open>DbToolMain\<close>: \<^verbatim>\<open>cmd/dbtool\<close> and \<^verbatim>\<open>cmd/common\<close>: what
    the tool looks up in the databases of a stopped service, and its command line. What it
    prints is data (\<open>shown\<close>).
  \<^item> \<open>IissTool\<close>, \<open>IissToolMain\<close>: \<^verbatim>\<open>cmd/iissdata\<close>, the writers of a term's data, the checks
    of its reader, and the command line.
  \<^item> \<open>SendIpc\<close>, \<open>SendIpcMain\<close>: \<^verbatim>\<open>cmd/sendipc\<close> and \<^verbatim>\<open>cmd/rctool\<close>, requests made by hand.
  \<^item> \<open>DbTest\<close>: \<^verbatim>\<open>cmd/dbtest\<close>, which fills a database with random accounts.

  \<^bold>\<open>Conventions.\<close> State is passed explicitly. \<open>None\<close> as a result is a panic (a nil
  dereference, a slice out of range, an explicit \<^verbatim>\<open>panic\<close>); a returned error is \<open>Inl\<close> or an
  option in the result. A decoder that fails leaves the variable it decodes into as it was; Go may
  have set some of its first fields already. This matters only in loops that reuse the
  variable after dropping the error (\<open>BP_SetBytes\<close>, \<open>IISSTX_SetBytes\<close>), on data that do not decode. \<^verbatim>\<open>uint64\<close> is a 64-bit word with wrap-around, \<^verbatim>\<open>big.Int\<close> an integer;
  division is the one the source uses. Parameters stand for what is not in the repository or
  not determined by it: the hash SHAKE256 (\<open>shake\<close>), the iteration order of Go maps
  (\<open>order\<close>, of which only that it permutes the entries is assumed), the databases found at
  a path (\<open>iiss\<close>), what a shard sees of a cancellation (\<open>cancel\<close>), the other end of a
  connection (\<open>peer\<close>), the sockets, directories and random bytes a program finds.

  \<^bold>\<open>What is shown.\<close>
  \<^item> \<open>CalcTheorems\<close>, over \<open>Conservation\<close>, \<open>CalculateProps\<close> and \<open>CalcReturns\<close>: a
    calculation pays exactly the total it reports and can be queried; it returns, for data whose
    delegation transactions hold lists of pairs, with calculation debugging off.
  \<^item> \<open>RewardTheorems\<close> and \<open>PayTheorems\<close>, over \<open>RewardProps\<close>: the rewards equal their
    definition by counted blocks, stay within the budget, and do not depend on the iteration
    order of maps.
  \<^item> \<open>ClaimMsgProps\<close> and \<open>ClaimRollback\<close>, over \<open>ClaimDbProps\<close>: the life of a claim,
    and a rollback that restores the claims of any earlier block; the claim
    databases refine a sequence of committed views.
  \<^item> \<open>IScoreDbProps\<close>: query and calculate databases are disjoint; a rollback restores the
    accounts.
  \<^item> \<open>MirrorTheorems\<close>, over \<open>Tables\<close>, \<open>Records\<close> and \<open>Mirror\<close>: memory mirrors disk;
    the tables are interpretations of the locale \<open>record_table\<close>.
  \<^item> \<open>Goroutines\<close>: the shards of a calculation give the same results and databases in every
    interleaving of their steps with each other and with the handlers of claims and blocks; none
    gets stuck and each ends.
  \<^item> \<open>RoundTrips\<close>: the numbers, the records of the state databases and the IISS data a
    calculation loads read back as written.
  \<^item> \<open>ServiceTheorems\<close>, over \<open>ServiceProps\<close>: an invariant of every reachable state of the
    service, what a request is answered with, and what refused calculations leave.
  \<^item> \<open>Histories\<close>: over any messages handled in between, an address is not granted a second claim
    in a block, and a cancelled calculation stays on the books until a restart or a rollback
    that ends it.
  \<^item> \<open>Orderly\<close>: a second step relation, of handlers, restarts and reloads whose accepted
    calculations bring P-Rep lists newer than the known ones. In every state it reaches memory is
    what a restart loads (locale \<open>step_invariant\<close>, interpreted on it). The rerun of an interrupted
    calculation on data whose list is known is left out, because it breaks this: the last theorem
    of the theory shows how a P-Rep list is lost.
  \<^item> \<open>IpcServerProps\<close>: the server refines the service; a connection starts its messages in
    order, and one of the monitor socket changes nothing itself; start and end of a process.
  \<^item> \<open>DataDirs\<close>: which data are removed after a calculation; exactly those of earlier terms when
    all names are well-formed.
  \<^item> \<open>ClientTheorems\<close>: the client API against the service, and the client that is one answer
    behind for all later requests after a refused calculation.
  \<^item> \<open>DbLayersProps\<close>: the backends as interpretations of the locale \<open>backend_laws\<close>; a layer
    database is a transaction on the one below. \<open>DbBolt\<close> interprets it for bbolt, for buckets with
    a name. \<open>DbObjects\<close> shows for iterators and snapshots (locale \<open>iteration\<close>) and for batches that
    their use is what \<open>Iterator_New\<close> and \<open>Batch_Write\<close> say.
  \<^item> \<open>RlpProps\<close>: the encoder writes the RLP encoding, which \<open>rlp_spec\<close> defines without the
    code: numbers by their digits to the base 256, headers by the length of what follows. What
    the decoder reads back, and the lengths and integers it loses.
  \<^item> \<open>DbToolProps\<close>: from the command line, the I-Score report of the tool is what QUERY
    answers when the block heights in the files tell the two sets of databases apart, which they do not
    after the first calculation; a search of pre-commits by height finds nothing. \<open>Flags\<close> shows that options
    count in any form and order, \<open>IissTool\<close> that its writers store the records \<open>IissData\<close>
    reads and that the gaps reported are the missing heights, \<open>SendIpc\<close> and \<open>SendIpcMain\<close>
    which answers requests get, \<open>Keys\<close> that the forms of a signature read back, but one.

  \<^bold>\<open>Bounds and termination.\<close> Loops are structural recursion over lists of entries, or
  count down a number known at the start (the number of account databases, the heights
  between two blocks). The one fuel is that of \<open>decode_slice\<close>, one more than the bytes left;
  every element takes at least a byte, so it never ends the loop (\<open>decode_slice_fuel\<close>). The
  count of missing heights of \<open>IissTool\<close> is a \<open>while\<close> loop on 64-bit numbers, shown to end
  (\<open>count_missing_eq\<close>). That a calculation returns is proved, not assumed.

  \<^bold>\<open>Granularity.\<close> A handler is one step. In \<open>DoCalc\<close> the goroutines of the shards of a
  calculation run one after the other; \<open>Goroutines\<close> shows that this is any run of them, entry by
  entry, with calculation debugging off (turned on, the shards write the debug result
  concurrently). A ROLLBACK that arrives during a calculation is modelled by the cancellation the
  shards see, followed by the rollback. The removal of old data after a calculation is modelled
  by itself; it touches no database the service keeps.

  \<^bold>\<open>Not modelled.\<close> The inside of sockets and of the file system, signals and logging; JSON
  parsing, the JSON texts of records and the usage texts of the tools; the badger database, the
  curve and the hashes, which are third-party libraries; the metrics the monitor command of
  \<^verbatim>\<open>sendipc\<close> pushes; types with an RLP encoding of their own; input/output errors of an open
  database; the scenario tests under \<^verbatim>\<open>tests\<close>.
\<close>

end
